(* ===== verification/Go_Base.thy ===== *)
theory Go_Base
  imports Main "HOL-Library.Char_ord" "HOL-Library.List_Lexorder" "HOL-Library.Multiset" "HOL-Library.AList"
begin

text \<open>
  The prelude: the part of Go's language and of its packages \<^verbatim>\<open>strings\<close>,
  \<^verbatim>\<open>strconv\<close>, \<^verbatim>\<open>sort\<close> and \<^verbatim>\<open>encoding/hex\<close> that the
  program uses, and the rewriting collections the other theories share.  A Go string is a sequence
  of bytes: Isabelle's \<open>string\<close> (a list of 8-bit characters) is used for it.  Machine integers of
  type \<^verbatim>\<open>int\<close>, \<^verbatim>\<open>int64\<close> and \<^verbatim>\<open>time.Duration\<close> are
  \<open>int\<close> values kept in the 64-bit range by \<open>wrap64\<close> wherever the code's arithmetic can leave it.
\<close>

named_theorems go_defs "definitions of the Go primitives, for evaluation"
named_theorems handler_defs "definitions of handlers, for unfolding a whole request"
named_theorems frame "what an operation leaves unchanged"

type_synonym bytes = string

section \<open>Results\<close>

text \<open>A Go call that returns an error is a sum: \<open>Inl\<close> the error, \<open>Inr\<close> the value.\<close>

type_synonym ('e, 'a) result = "'e + 'a"

lemma result_cases [case_names Err Ok]:
  assumes "\<And>e. r = Inl e \<Longrightarrow> P" and "\<And>a. r = Inr a \<Longrightarrow> P"
  shows P
  using assms by (cases r) auto

section \<open>64-bit integers\<close>

definition max_int64 :: int where "max_int64 = 9223372036854775807"
definition min_int64 :: int where "min_int64 = - 9223372036854775808"

text \<open>Two's complement wrap-around of Go's \<^verbatim>\<open>int64\<close> arithmetic.\<close>

definition wrap64 :: "int \<Rightarrow> int" where
  "wrap64 x = (x + 9223372036854775808) mod 18446744073709551616 - 9223372036854775808"

definition in_int64 :: "int \<Rightarrow> bool" where
  "in_int64 x \<longleftrightarrow> min_int64 \<le> x \<and> x \<le> max_int64"

text \<open>Wrap-around of \<^verbatim>\<open>uint64\<close> arithmetic (subtraction of counters).\<close>

definition wrap_u64 :: "int \<Rightarrow> int" where
  "wrap_u64 x = x mod 18446744073709551616"

lemma wrap64_id: "in_int64 x \<Longrightarrow> wrap64 x = x"
  by (simp add: wrap64_def in_int64_def min_int64_def max_int64_def)

lemma wrap64_range: "in_int64 (wrap64 x)"
  using pos_mod_bound[of 18446744073709551616 "x + 9223372036854775808"]
    pos_mod_sign[of 18446744073709551616 "x + 9223372036854775808"]
  by (simp add: wrap64_def in_int64_def min_int64_def max_int64_def)

lemma wrap_u64_diff: "0 \<le> b \<Longrightarrow> b \<le> a \<Longrightarrow> a < 18446744073709551616 \<Longrightarrow> wrap_u64 (a - b) = a - b"
  by (simp add: wrap_u64_def)

text \<open>Go's integer division truncates towards zero.\<close>

definition quot_go :: "int \<Rightarrow> int \<Rightarrow> int" where
  "quot_go a b = sgn a * sgn b * (\<bar>a\<bar> div \<bar>b\<bar>)"

definition rem_go :: "int \<Rightarrow> int \<Rightarrow> int" where
  "rem_go a b = a - b * quot_go a b"

section \<open>Strings\<close>

definition has_prefix :: "string \<Rightarrow> string \<Rightarrow> bool" where
  "has_prefix s p \<longleftrightarrow> take (length p) s = p"

definition has_suffix :: "string \<Rightarrow> string \<Rightarrow> bool" where
  "has_suffix s p \<longleftrightarrow> length p \<le> length s \<and> drop (length s - length p) s = p"

definition trim_prefix :: "string \<Rightarrow> string \<Rightarrow> string" where
  "trim_prefix s p = (if has_prefix s p then drop (length p) s else s)"

definition trim_suffix :: "string \<Rightarrow> string \<Rightarrow> string" where
  "trim_suffix s p = (if has_suffix s p then take (length s - length p) s else s)"

text \<open>\<^verbatim>\<open>strings.IndexByte\<close>: \<open>None\<close> stands for -1.\<close>

fun index_byte :: "string \<Rightarrow> char \<Rightarrow> nat option" where
  "index_byte [] c = None"
| "index_byte (x # xs) c = (if x = c then Some 0 else map_option Suc (index_byte xs c))"

text \<open>\<^verbatim>\<open>strings.Split\<close> on a one-byte separator; never empty.\<close>

fun split_on :: "char \<Rightarrow> string \<Rightarrow> string list" where
  "split_on c [] = [[]]"
| "split_on c (x # xs) =
     (if x = c then [] # split_on c xs
      else (case split_on c xs of [] \<Rightarrow> [[x]] | w # ws \<Rightarrow> (x # w) # ws))"

text \<open>\<^verbatim>\<open>strings.Cut\<close> on a one-byte separator: before, after, found.\<close>

definition cut_on :: "char \<Rightarrow> string \<Rightarrow> string \<times> string \<times> bool" where
  "cut_on c s = (case index_byte s c of None \<Rightarrow> (s, [], False)
                 | Some i \<Rightarrow> (take i s, drop (Suc i) s, True))"

text \<open>\<^verbatim>\<open>strings.Join\<close>.\<close>

fun join_with :: "string \<Rightarrow> string list \<Rightarrow> string" where
  "join_with sep [] = []"
| "join_with sep [w] = w"
| "join_with sep (w # v # ws) = w @ sep @ join_with sep (v # ws)"

lemma has_prefix_append [simp]: "has_prefix (p @ s) p"
  by (simp add: has_prefix_def)

lemma has_prefix_iff: "has_prefix s p \<longleftrightarrow> (\<exists>t. s = p @ t)"
  by (metis append_eq_conv_conj has_prefix_append has_prefix_def)

lemma has_suffix_append [simp]: "has_suffix (s @ p) p"
  by (simp add: has_suffix_def)

lemma has_suffix_iff: "has_suffix s p \<longleftrightarrow> (\<exists>t. s = t @ p)"
  by (metis append_take_drop_id has_suffix_append has_suffix_def)

lemma trim_prefix_append [simp]: "trim_prefix (p @ s) p = s"
  by (simp add: trim_prefix_def)

lemma trim_suffix_append [simp]: "trim_suffix (s @ p) p = s"
  by (simp add: trim_suffix_def)

lemma split_on_ne [simp]: "split_on c s \<noteq> []"
  by (induction s) (auto split: list.splits)

lemma split_on_no_sep: "w \<in> set (split_on c s) \<Longrightarrow> c \<notin> set w"
  by (induction s arbitrary: w) (auto split: if_splits list.splits)

lemma split_on_join: "join_with [c] (split_on c s) = s"
proof (induction s)
  case (Cons x xs)
  obtain w ws where eq: "split_on c xs = w # ws" by (cases "split_on c xs") auto
  with Cons show ?case by (cases ws) auto
qed simp

lemma split_on_single: "c \<notin> set s \<Longrightarrow> split_on c s = [s]"
  by (induction s) auto

lemma split_on_append: "c \<notin> set w \<Longrightarrow> split_on c (w @ c # s) = w # split_on c s"
  by (induction w) auto

lemma index_byte_None [simp]: "index_byte s c = None \<longleftrightarrow> c \<notin> set s"
  by (induction s) auto

lemma index_byte_Some: "index_byte s c = Some i \<Longrightarrow> i < length s \<and> s ! i = c \<and> c \<notin> set (take i s)"
  by (induction s arbitrary: i) (auto split: if_splits)

lemma cut_on_found:
  "c \<notin> set w \<Longrightarrow> cut_on c (w @ c # s) = (w, s, True)"
proof -
  assume "c \<notin> set w"
  then have "index_byte (w @ c # s) c = Some (length w)" by (induction w) auto
  then show ?thesis by (simp add: cut_on_def)
qed

section \<open>ASCII case\<close>

text \<open>
  \<^verbatim>\<open>strings.ToLower\<close>, \<^verbatim>\<open>strings.ToUpper\<close> and
  \<^verbatim>\<open>strings.EqualFold\<close> on the ASCII letters; other bytes are left as they are.  The
  program applies them to command words, node names and pairing codes, whose legal values are ASCII.
\<close>

definition lower_char :: "char \<Rightarrow> char" where
  "lower_char c = (let n = of_char c :: int in if 65 \<le> n \<and> n \<le> 90 then char_of (n + 32) else c)"

definition upper_char :: "char \<Rightarrow> char" where
  "upper_char c = (let n = of_char c :: int in if 97 \<le> n \<and> n \<le> 122 then char_of (n - 32) else c)"

definition to_lower :: "string \<Rightarrow> string" where "to_lower s = map lower_char s"
definition to_upper :: "string \<Rightarrow> string" where "to_upper s = map upper_char s"
definition equal_fold :: "string \<Rightarrow> string \<Rightarrow> bool" where
  "equal_fold a b \<longleftrightarrow> to_lower a = to_lower b"

lemma equal_fold_refl [simp]: "equal_fold s s"
  by (simp add: equal_fold_def)

section \<open>Numbers as text\<close>

definition digit_char :: "int \<Rightarrow> char" where
  "digit_char d = char_of (48 + d)"

text \<open>The decimal digits of a number that is not negative.\<close>

function show_uint :: "int \<Rightarrow> string" where
  "show_uint n = (if n < 10 then [digit_char n] else show_uint (n div 10) @ [digit_char (n mod 10)])"
  by pat_completeness auto
termination
  by (relation "measure nat") auto

declare show_uint.simps [simp del]

text \<open>\<^verbatim>\<open>strconv.FormatInt(x, 10)\<close>, \<^verbatim>\<open>%d\<close>.\<close>

definition show_int :: "int \<Rightarrow> string" where
  "show_int x = (if x < 0 then CHR ''-'' # show_uint (- x) else show_uint x)"

text \<open>\<^verbatim>\<open>%0kd\<close> for a number that is not negative.\<close>

definition show_pad :: "nat \<Rightarrow> int \<Rightarrow> string" where
  "show_pad k n = (let s = show_uint n in replicate (k - length s) (CHR ''0'') @ s)"

definition is_digit :: "char \<Rightarrow> bool" where
  "is_digit c \<longleftrightarrow> 48 \<le> (of_char c :: int) \<and> (of_char c :: int) \<le> 57"

definition digit_val :: "char \<Rightarrow> int" where
  "digit_val c = of_char c - 48"

fun digits_val :: "int \<Rightarrow> string \<Rightarrow> int" where
  "digits_val acc [] = acc"
| "digits_val acc (c # cs) = digits_val (10 * acc + digit_val c) cs"

text \<open>
  \<^verbatim>\<open>strconv.ParseInt(s, 10, 64)\<close> and \<^verbatim>\<open>strconv.Atoi\<close>: an optional sign,
  at least one digit, nothing else, and a value in the 64-bit range.
\<close>

definition parse_int :: "string \<Rightarrow> int option" where
  "parse_int s =
     (let (neg, ds) = (case s of c # cs \<Rightarrow> if c = CHR ''-'' then (True, cs)
                                           else if c = CHR ''+'' then (False, cs) else (False, s)
                       | [] \<Rightarrow> (False, [])) in
      if ds = [] \<or> \<not> list_all is_digit ds then None
      else let n = digits_val 0 ds; v = (if neg then - n else n)
           in if in_int64 v then Some v else None)"

lemma of_char_digit_char [simp]: "0 \<le> d \<Longrightarrow> d < 10 \<Longrightarrow> (of_char (digit_char d) :: int) = 48 + d"
  by (simp add: digit_char_def)

lemma is_digit_digit_char [simp]: "0 \<le> d \<Longrightarrow> d < 10 \<Longrightarrow> is_digit (digit_char d)"
  by (simp add: is_digit_def)

lemma digit_val_digit_char [simp]: "0 \<le> d \<Longrightarrow> d < 10 \<Longrightarrow> digit_val (digit_char d) = d"
  by (simp add: digit_val_def)

lemma show_uint_ne [simp]: "show_uint n \<noteq> []"
  by (subst show_uint.simps) simp

lemma show_uint_digits: "0 \<le> n \<Longrightarrow> list_all is_digit (show_uint n)"
proof (induction n rule: show_uint.induct)
  case (1 n)
  show ?case
  proof (cases "n < 10")
    case True
    with 1 show ?thesis by (subst show_uint.simps) simp
  next
    case False
    with 1 show ?thesis by (subst show_uint.simps) simp
  qed
qed

lemma digits_val_append: "digits_val a (xs @ ys) = digits_val (digits_val a xs) ys"
  by (induction xs arbitrary: a) auto

lemma digits_val_show_uint: "0 \<le> n \<Longrightarrow> digits_val 0 (show_uint n) = n"
proof (induction n rule: show_uint.induct)
  case (1 n)
  show ?case
  proof (cases "n < 10")
    case True
    with 1 show ?thesis by (subst show_uint.simps) simp
  next
    case False
    with 1 have "digits_val 0 (show_uint (n div 10)) = n div 10" by simp
    with False 1 show ?thesis
      by (subst show_uint.simps) (simp add: digits_val_append)
  qed
qed

lemma show_uint_hd: "0 \<le> n \<Longrightarrow> hd (show_uint n) \<noteq> CHR ''-'' \<and> hd (show_uint n) \<noteq> CHR ''+''"
proof -
  assume "0 \<le> n"
  then have "is_digit (hd (show_uint n))"
    using show_uint_digits[of n] show_uint_ne[of n] by (cases "show_uint n") auto
  then show ?thesis by (auto simp: is_digit_def)
qed

text \<open>Printing and parsing a 64-bit integer are inverse.\<close>

lemma parse_show_int: "in_int64 x \<Longrightarrow> parse_int (show_int x) = Some x"
proof -
  assume r: "in_int64 x"
  show ?thesis
  proof (cases "x < 0")
    case True
    with r show ?thesis
      by (simp add: parse_int_def show_int_def show_uint_digits digits_val_show_uint)
  next
    case False
    obtain c cs where s: "show_uint x = c # cs" by (cases "show_uint x") auto
    with False show_uint_hd[of x] have c: "c \<noteq> CHR ''-''" "c \<noteq> CHR ''+''" by auto
    have "parse_int (c # cs) = Some x"
      using r False c show_uint_digits[of x] digits_val_show_uint[of x] s
      by (simp add: parse_int_def del: digits_val.simps)
    with False s show ?thesis by (simp add: show_int_def)
  qed
qed

lemma show_int_inj: "in_int64 x \<Longrightarrow> in_int64 y \<Longrightarrow> show_int x = show_int y \<Longrightarrow> x = y"
  by (metis option.inject parse_show_int)

lemma show_uint_no_newline: "0 \<le> n \<Longrightarrow> CHR 0x0A \<notin> set (show_uint n)"
  using show_uint_digits[of n] by (auto simp: list_all_iff is_digit_def)

lemma show_int_no_newline: "CHR 0x0A \<notin> set (show_int x)"
  using show_uint_no_newline[of x] show_uint_no_newline[of "- x"] by (auto simp: show_int_def)

section \<open>Hexadecimal\<close>

definition hex_digit :: "int \<Rightarrow> char" where
  "hex_digit d = (if d < 10 then char_of (48 + d) else char_of (87 + d))"

definition hex_val :: "char \<Rightarrow> int option" where
  "hex_val c = (let n = of_char c :: int in
     if 48 \<le> n \<and> n \<le> 57 then Some (n - 48)
     else if 97 \<le> n \<and> n \<le> 102 then Some (n - 87)
     else if 65 \<le> n \<and> n \<le> 70 then Some (n - 55) else None)"

fun hex_encode :: "bytes \<Rightarrow> string" where
  "hex_encode [] = []"
| "hex_encode (c # cs) = hex_digit (of_char c div 16) # hex_digit (of_char c mod 16) # hex_encode cs"

fun hex_decode :: "string \<Rightarrow> bytes option" where
  "hex_decode [] = Some []"
| "hex_decode [c] = None"
| "hex_decode (a # b # cs) =
     (case (hex_val a, hex_val b) of
        (Some x, Some y) \<Rightarrow> map_option (\<lambda>r. char_of (16 * x + y) # r) (hex_decode cs)
      | _ \<Rightarrow> None)"

lemma of_char_int_bounds: "0 \<le> (of_char c :: int)" "(of_char c :: int) < 256"
  using pos_mod_bound[of 256 "of_char c :: int"] pos_mod_sign[of 256 "of_char c :: int"] by simp_all

lemma hex_val_digit [simp]: "0 \<le> d \<Longrightarrow> d < 16 \<Longrightarrow> hex_val (hex_digit d) = Some d"
  by (auto simp: hex_val_def hex_digit_def Let_def)

lemma hex_roundtrip [simp]: "hex_decode (hex_encode s) = Some s"
proof (induction s)
  case (Cons c s)
  have "0 \<le> (of_char c :: int) div 16" "(of_char c :: int) div 16 < 16"
    using of_char_int_bounds[of c] by linarith+
  then show ?case using Cons by simp
qed simp

section \<open>Lists, maps, sorting\<close>

text \<open>\<^verbatim>\<open>sort.Slice\<close> by a key, as a stable sort.\<close>

abbreviation sort_on :: "('a \<Rightarrow> 'k::linorder) \<Rightarrow> 'a list \<Rightarrow> 'a list" where
  "sort_on \<equiv> sort_key"

lemma find_SomeD: "find P xs = Some x \<Longrightarrow> x \<in> set xs \<and> P x"
  by (induction xs) (auto split: if_splits)

lemma find_NoneD: "find P xs = None \<Longrightarrow> x \<in> set xs \<Longrightarrow> \<not> P x"
  by (induction xs) (auto split: if_splits)

text \<open>A Go map that is ranged over is an association list with distinct keys.\<close>

abbreviation keys_distinct :: "('k \<times> 'v) list \<Rightarrow> bool" where
  "keys_distinct xs \<equiv> distinct (map fst xs)"

lemma card_alist:
  assumes "keys_distinct xs"
  shows "card {k. \<exists>v. map_of xs k = Some v \<and> P v} = length (filter (\<lambda>(k, v). P v) xs)"
proof -
  have d: "distinct (map fst (filter (\<lambda>(k, v). P v) xs))"
    using assms by (rule distinct_map_filter)
  have "{k. \<exists>v. map_of xs k = Some v \<and> P v} = set (map fst (filter (\<lambda>(k, v). P v) xs))"
    using assms by (auto intro: rev_image_eqI)
  then have "card {k. \<exists>v. map_of xs k = Some v \<and> P v} = length (map fst (filter (\<lambda>(k, v). P v) xs))"
    using distinct_card[OF d] by simp
  then show ?thesis by simp
qed

lemma ran_alist: "keys_distinct xs \<Longrightarrow> ran (map_of xs) = snd ` set xs"
  by (auto simp: ran_def rev_image_eqI)

lemma map_of_filter_keys:
  "map_of (filter (\<lambda>(k, v). P k) xs) = (\<lambda>k. if P k then map_of xs k else None)"
  by (induction xs) (auto simp: fun_eq_iff)

lemma keys_distinct_filter: "keys_distinct xs \<Longrightarrow> keys_distinct (filter P xs)"
  by (rule distinct_map_filter)

lemma map_of_filter_distinct:
  "keys_distinct xs \<Longrightarrow>
     map_of (filter P xs) k = (case map_of xs k of None \<Rightarrow> None | Some v \<Rightarrow> if P (k, v) then Some v else None)"
  by (induction xs) (auto simp: map_of_eq_None_iff[THEN iffD2] rev_image_eqI split: option.splits)

end
