(* ===== verification/Go_Text.thy ===== *)
theory Go_Text
  imports Go_Base
begin

text \<open>
  Go's view of a string as runes (\<^verbatim>\<open>unicode/utf8\<close>), and the functions of
  \<^verbatim>\<open>strings\<close> and \<^verbatim>\<open>strconv\<close> that work on runes: trimming and splitting
  at white space, and quoting.  A byte that does not start a valid sequence decodes to the
  replacement rune, one byte wide, as the language specifies.
\<close>

section \<open>UTF-8\<close>

type_synonym rune = int

definition rune_error :: rune where "rune_error = 65533"

abbreviation byte_val :: "char \<Rightarrow> int" where "byte_val c \<equiv> of_char c"

definition in_rng :: "int \<Rightarrow> int \<Rightarrow> char \<Rightarrow> bool" where
  "in_rng lo hi c \<longleftrightarrow> lo \<le> byte_val c \<and> byte_val c \<le> hi"

text \<open>The lower and upper bound of the second byte, by the first one.\<close>

definition second_lo :: "int \<Rightarrow> int" where
  "second_lo b = (if b = 224 then 160 else if b = 240 then 144 else 128)"

definition second_hi :: "int \<Rightarrow> int" where
  "second_hi b = (if b = 237 then 159 else if b = 244 then 143 else 191)"

text \<open>\<^verbatim>\<open>utf8.DecodeRune\<close> on the first byte and the rest: the rune and how many bytes
  of the rest it takes.\<close>

definition decode_rune :: "char \<Rightarrow> string \<Rightarrow> rune \<times> nat" where
  "decode_rune c cs =
     (let b = byte_val c in
      if b < 128 then (b, 0)
      else if 194 \<le> b \<and> b \<le> 223 then
        (case cs of c1 # _ \<Rightarrow> if in_rng 128 191 c1 then ((b - 192) * 64 + (byte_val c1 - 128), 1) else (rune_error, 0)
         | _ \<Rightarrow> (rune_error, 0))
      else if 224 \<le> b \<and> b \<le> 239 then
        (case cs of c1 # c2 # _ \<Rightarrow>
           if in_rng (second_lo b) (second_hi b) c1 \<and> in_rng 128 191 c2
           then ((b - 224) * 4096 + (byte_val c1 - 128) * 64 + (byte_val c2 - 128), 2) else (rune_error, 0)
         | _ \<Rightarrow> (rune_error, 0))
      else if 240 \<le> b \<and> b \<le> 244 then
        (case cs of c1 # c2 # c3 # _ \<Rightarrow>
           if in_rng (second_lo b) (second_hi b) c1 \<and> in_rng 128 191 c2 \<and> in_rng 128 191 c3
           then ((b - 240) * 262144 + (byte_val c1 - 128) * 4096 + (byte_val c2 - 128) * 64 + (byte_val c3 - 128), 3)
           else (rune_error, 0)
         | _ \<Rightarrow> (rune_error, 0))
      else (rune_error, 0))"

text \<open>\<^verbatim>\<open>for _, r := range s\<close>: the runes of a string, each with its bytes.\<close>

function chunks :: "string \<Rightarrow> (rune \<times> string) list" where
  "chunks [] = []"
| "chunks (c # cs) =
     (case decode_rune c cs of (r, k) \<Rightarrow> (r, c # take k cs) # chunks (drop k cs))"
  by pat_completeness auto
termination
  by (relation "measure length") auto

text \<open>\<^verbatim>\<open>WriteRune\<close>: the bytes of a rune that \<open>chunks\<close> produced.\<close>

definition utf8_encode :: "rune \<Rightarrow> string" where
  "utf8_encode r =
     (if r < 128 then [char_of r]
      else if r < 2048 then [char_of (192 + r div 64), char_of (128 + r mod 64)]
      else if r < 65536 then [char_of (224 + r div 4096), char_of (128 + r div 64 mod 64), char_of (128 + r mod 64)]
      else [char_of (240 + r div 262144), char_of (128 + r div 4096 mod 64),
            char_of (128 + r div 64 mod 64), char_of (128 + r mod 64)])"

lemma chunks_concat: "concat (map snd (chunks s)) = s"
  by (induction s rule: chunks.induct) (auto split: prod.splits)

lemma chunks_ascii: "byte_val c < 128 \<Longrightarrow> chunks (c # cs) = (byte_val c, [c]) # chunks cs"
  by (simp add: decode_rune_def)

lemma chunks_ascii_append:
  "\<forall>c \<in> set p. byte_val c < 128 \<Longrightarrow> chunks (p @ s) = map (\<lambda>c. (byte_val c, [c])) p @ chunks s"
  by (induction p) (simp_all add: chunks_ascii del: chunks.simps)

definition ascii :: "string \<Rightarrow> bool" where
  "ascii s \<longleftrightarrow> (\<forall>c \<in> set s. byte_val c < 128)"

lemma chunks_of_ascii: "ascii s \<Longrightarrow> chunks s = map (\<lambda>c. (byte_val c, [c])) s"
  using chunks_ascii_append[of s "[]"] by (simp add: ascii_def)

lemma utf8_encode_ascii: "0 \<le> r \<Longrightarrow> r < 128 \<Longrightarrow> utf8_encode r = [char_of r]"
  by (simp add: utf8_encode_def)

lemma decode_rune_nonneg: "decode_rune c cs = (r, k) \<Longrightarrow> 0 \<le> r"
  using of_char_int_bounds[of c]
  by (auto simp: decode_rune_def rune_error_def in_rng_def second_lo_def Let_def split: if_splits list.splits)

lemma chunks_nonneg: "(r, b) \<in> set (chunks s) \<Longrightarrow> 0 \<le> r"
proof (induction s rule: chunks.induct)
  case (2 c cs)
  obtain r' k where d: "decode_rune c cs = (r', k)" by (cases "decode_rune c cs")
  from 2 d decode_rune_nonneg[OF d] show ?case by auto
qed simp

text \<open>An ASCII rune is exactly its own byte.\<close>

lemma decode_rune_ascii: "decode_rune c cs = (r, k) \<Longrightarrow> r < 128 \<Longrightarrow> k = 0 \<and> byte_val c = r"
  by (auto simp: decode_rune_def rune_error_def in_rng_def second_lo_def Let_def split: if_splits list.splits)

lemma chunks_ascii_bytes: "(r, b) \<in> set (chunks s) \<Longrightarrow> r < 128 \<Longrightarrow> b = [char_of r]"
proof (induction s rule: chunks.induct)
  case (2 c cs)
  obtain r' k where d: "decode_rune c cs = (r', k)" by (cases "decode_rune c cs")
  from 2 d show ?case
    by (auto dest: decode_rune_ascii)
qed simp

section \<open>White space\<close>

text \<open>\<^verbatim>\<open>unicode.IsSpace\<close>.\<close>

definition is_space :: "rune \<Rightarrow> bool" where
  "is_space r \<longleftrightarrow> r \<in> {9, 10, 11, 12, 13, 32, 133, 160, 5760, 8232, 8233, 8239, 8287, 12288} \<or> 8192 \<le> r \<and> r \<le> 8202"

text \<open>\<^verbatim>\<open>strings.Fields\<close>.\<close>

fun fields_of :: "(rune \<times> string) list \<Rightarrow> string \<Rightarrow> string list" where
  "fields_of [] w = (if w = [] then [] else [w])"
| "fields_of ((r, b) # rest) w =
     (if is_space r then (if w = [] then [] else [w]) @ fields_of rest []
      else fields_of rest (w @ b))"

definition str_fields :: "string \<Rightarrow> string list" where
  "str_fields s = fields_of (chunks s) []"

text \<open>\<^verbatim>\<open>strings.TrimSpace\<close>.\<close>

definition drop_space :: "(rune \<times> string) list \<Rightarrow> (rune \<times> string) list" where
  "drop_space = dropWhile (\<lambda>(r, _). is_space r)"

definition trim_space :: "string \<Rightarrow> string" where
  "trim_space s = concat (map snd (rev (drop_space (rev (drop_space (chunks s))))))"

lemma fields_of_start: "w \<noteq> [] \<Longrightarrow> \<exists>v rest. fields_of cs w = v # rest \<and> take (length w) v = w"
proof (induction cs arbitrary: w)
  case (Cons x cs)
  obtain r b where x: "x = (r, b)" by (cases x)
  show ?case
  proof (cases "is_space r")
    case True
    with Cons.prems x show ?thesis by auto
  next
    case False
    from Cons.IH[of "w @ b"] Cons.prems obtain v rest
      where v: "fields_of cs (w @ b) = v # rest" "take (length (w @ b)) v = w @ b" by auto
    from v(2) have "take (length w) v = w"
      by (metis append_eq_conv_conj length_append take_add take_all_iff le_add1 take_take min.absorb1)
    with v False x show ?thesis by auto
  qed
qed auto

text \<open>A string that starts with a byte that is not a space has a first field starting with it.\<close>

lemma fields_first:
  assumes "byte_val c < 128" "\<not> is_space (byte_val c)"
  obtains v rest where "str_fields (c # s) = (c # v) # rest"
proof -
  have "str_fields (c # s) = fields_of (chunks s) [c]"
    using assms by (simp add: str_fields_def chunks_ascii del: chunks.simps)
  with fields_of_start[of "[c]" "chunks s"] obtain v rest
    where v: "str_fields (c # s) = v # rest" "take 1 v = [c]" by auto
  from v(2) obtain v' where "v = c # v'" by (cases v) auto
  with v that show ?thesis by blast
qed

section \<open>Quoting\<close>

definition hex2 :: "int \<Rightarrow> string" where
  "hex2 n = [hex_digit (n div 16 mod 16), hex_digit (n mod 16)]"

text \<open>
  \<^verbatim>\<open>%q\<close>: printable runes as they are, the rest escaped.  Beyond Latin-1, where
  Go consults its Unicode tables, every rune is taken as printable.
\<close>

definition quote_rune :: "rune \<times> string \<Rightarrow> string" where
  "quote_rune rb = (case rb of (r, b) \<Rightarrow>
     if r = rune_error \<and> length b = 1 then CHR 0x5C # ''x'' @ hex2 (byte_val (hd b))
     else if r = 34 \<or> r = 92 then CHR 0x5C # b
     else if 32 \<le> r \<and> r \<le> 126 \<or> 161 \<le> r \<and> r \<noteq> 173 then b
     else if r = 7 then CHR 0x5C # ''a'' else if r = 8 then CHR 0x5C # ''b''
     else if r = 12 then CHR 0x5C # ''f'' else if r = 10 then CHR 0x5C # ''n''
     else if r = 13 then CHR 0x5C # ''r'' else if r = 9 then CHR 0x5C # ''t''
     else if r = 11 then CHR 0x5C # ''v''
     else if r < 32 \<or> r = 127 then CHR 0x5C # ''x'' @ hex2 r
     else CHR 0x5C # ''u00'' @ hex2 r)"

definition go_quote :: "string \<Rightarrow> string" where
  "go_quote s = CHR 0x22 # concat (map quote_rune (chunks s)) @ [CHR 0x22]"

section \<open>Base64\<close>

definition base64_alphabet :: string where
  "base64_alphabet = ''ABCDEFGHIJKLMNOPQRSTUVWXYZabcdefghijklmnopqrstuvwxyz0123456789+/''"

definition b64 :: "int \<Rightarrow> char" where "b64 n = base64_alphabet ! nat n"

text \<open>\<^verbatim>\<open>base64.StdEncoding.EncodeToString\<close>.\<close>

fun base64_encode :: "bytes \<Rightarrow> string" where
  "base64_encode [] = []"
| "base64_encode [a] = [b64 (byte_val a div 4), b64 (byte_val a mod 4 * 16), CHR ''='', CHR ''='']"
| "base64_encode [a, b] =
     [b64 (byte_val a div 4), b64 (byte_val a mod 4 * 16 + byte_val b div 16), b64 (byte_val b mod 16 * 4), CHR ''='']"
| "base64_encode (a # b # c # s) =
     [b64 (byte_val a div 4), b64 (byte_val a mod 4 * 16 + byte_val b div 16),
      b64 (byte_val b mod 16 * 4 + byte_val c div 64), b64 (byte_val c mod 64)] @ base64_encode s"

end
