(* ===== verification/Relay_Net.thy ===== *)
theory Relay_Net
  imports Go_Text
begin

text \<open>
  Which address the relay takes for the client (\<^verbatim>\<open>clientIP\<close>, \<^verbatim>\<open>trusted\<close>,
  \<^verbatim>\<open>ParseCIDRs\<close> of \<^verbatim>\<open>internal/relay/server.go\<close>), on top of the parts
  of Go's package \<^verbatim>\<open>net\<close> it uses.  An address is its sixteen bytes, IPv4 in its
  mapped form; a mask is the number of leading one bits of each byte.
\<close>

section \<open>Addresses\<close>

type_synonym ip = "int list"

definition v4_prefix :: "int list" where
  "v4_prefix = [0, 0, 0, 0, 0, 0, 0, 0, 0, 0, 255, 255]"

definition parse_octet :: "string \<Rightarrow> int option" where
  "parse_octet w =
     (if w = [] \<or> \<not> list_all is_digit w then None
      else if length w > 1 \<and> hd w = CHR ''0'' then None
      else if digits_val 0 w > 255 then None else Some (digits_val 0 w))"

fun all_some :: "'a option list \<Rightarrow> 'a list option" where
  "all_some [] = Some []"
| "all_some (None # xs) = None"
| "all_some (Some x # xs) = map_option (Cons x) (all_some xs)"

definition parse_ipv4_fields :: "string \<Rightarrow> int list option" where
  "parse_ipv4_fields s =
     (let ws = split_on (CHR ''.'') s in if length ws = 4 then all_some (map parse_octet ws) else None)"

definition hex_char :: "char \<Rightarrow> bool" where "hex_char c \<longleftrightarrow> hex_val c \<noteq> None"

fun hex_num :: "int \<Rightarrow> string \<Rightarrow> int" where
  "hex_num acc [] = acc"
| "hex_num acc (c # cs) = hex_num (16 * acc + (case hex_val c of None \<Rightarrow> 0 | Some d \<Rightarrow> d)) cs"

text \<open>
  The groups of an IPv6 address from a position on: \<open>acc\<close> holds the bytes so far, \<open>ell\<close> where the
  ellipsis was met.  The result is the bytes and the ellipsis once the whole string is used.
\<close>

function parse_groups :: "int list \<Rightarrow> nat option \<Rightarrow> string \<Rightarrow> (int list \<times> nat option) option" where
  "parse_groups acc ell s =
     (if length acc \<ge> 16 then (if s = [] then Some (acc, ell) else None)
      else
        let w = takeWhile hex_char s; r = dropWhile hex_char s in
        if w = [] \<or> length w > 4 then None
        else (case r of
                [] \<Rightarrow> Some (acc @ [hex_num 0 w div 256, hex_num 0 w mod 256], ell)
              | c # cs \<Rightarrow>
                  if c = CHR ''.'' then
                    (if ell = None \<and> length acc \<noteq> 12 \<or> length acc + 4 > 16 then None
                     else case parse_ipv4_fields s of None \<Rightarrow> None | Some f \<Rightarrow> Some (acc @ f, ell))
                  else if c \<noteq> CHR '':'' \<or> cs = [] then None
                  else
                    let acc' = acc @ [hex_num 0 w div 256, hex_num 0 w mod 256] in
                    if hd cs = CHR '':'' then
                      (if ell \<noteq> None then None
                       else if tl cs = [] then Some (acc', Some (length acc'))
                       else parse_groups acc' (Some (length acc')) (tl cs))
                    else parse_groups acc' ell cs))"
  by pat_completeness auto
termination
  by (relation "measure (\<lambda>(acc, _, _). 16 - length acc)") auto

declare parse_groups.simps [simp del]

definition expand :: "int list \<Rightarrow> nat option \<Rightarrow> ip option" where
  "expand acc ell =
     (if length acc < 16 then
        (case ell of None \<Rightarrow> None
         | Some e \<Rightarrow> Some (take e acc @ replicate (16 - length acc) 0 @ drop e acc))
      else if ell \<noteq> None then None else Some acc)"

text \<open>An IPv6 address without a zone.\<close>

definition parse_ipv6 :: "string \<Rightarrow> ip option" where
  "parse_ipv6 s =
     (if has_prefix s ''::'' then
        (if drop 2 s = [] then Some (replicate 16 0)
         else case parse_groups [] (Some 0) (drop 2 s) of None \<Rightarrow> None | Some (a, e) \<Rightarrow> expand a e)
      else case parse_groups [] None s of None \<Rightarrow> None | Some (a, e) \<Rightarrow> expand a e)"

text \<open>\<^verbatim>\<open>netip.ParseAddr\<close>, refusing zones: the address and whether it is IPv4.\<close>

definition parse_addr :: "string \<Rightarrow> (ip \<times> bool) option" where
  "parse_addr s =
     (case find (\<lambda>c. c \<in> set ''.:%'') s of
        None \<Rightarrow> None
      | Some c \<Rightarrow>
          if c = CHR ''.'' then map_option (\<lambda>f. (v4_prefix @ f, True)) (parse_ipv4_fields s)
          else if c = CHR '':'' then (if CHR ''%'' \<in> set s then None else map_option (\<lambda>a. (a, False)) (parse_ipv6 s))
          else None)"

definition ParseIP :: "string \<Rightarrow> ip option" where
  "ParseIP s = map_option fst (parse_addr s)"

text \<open>\<^verbatim>\<open>To4\<close>, applied wherever a comparison asks for it.\<close>

definition short_ip :: "int list \<Rightarrow> int list" where
  "short_ip a = (if length a = 16 \<and> take 12 a = v4_prefix then drop 12 a else a)"

section \<open>Networks\<close>

record ip_net =
  net_ip :: "int list"
  net_mask :: "int list"

definition mask_byte :: "int \<Rightarrow> int \<Rightarrow> int" where
  "mask_byte k b = b div 2 ^ nat (8 - k) * 2 ^ nat (8 - k)"

definition cidr_mask :: "int \<Rightarrow> nat \<Rightarrow> int list" where
  "cidr_mask ones len = map (\<lambda>i. max 0 (min 8 (ones - 8 * int i))) [0 ..< len]"

definition apply_mask :: "int list \<Rightarrow> int list \<Rightarrow> int list" where
  "apply_mask m a = map2 mask_byte m a"

definition ParseCIDR :: "string \<Rightarrow> ip_net option" where
  "ParseCIDR s =
     (case cut_on (CHR ''/'') s of (addr, msk, found) \<Rightarrow>
      if \<not> found then None
      else case parse_addr addr of None \<Rightarrow> None
      | Some (a, v4) \<Rightarrow>
          if msk = [] \<or> \<not> list_all is_digit msk \<or> digits_val 0 msk > (if v4 then 32 else 128) then None
          else let m = cidr_mask (digits_val 0 msk) (if v4 then 4 else 16) in
            Some \<lparr> net_ip = apply_mask m (if v4 then drop 12 a else a), net_mask = m \<rparr>)"

definition Contains :: "ip_net \<Rightarrow> ip \<Rightarrow> bool" where
  "Contains n a =
     (let nn = short_ip (net_ip n);
          m = (if length (net_mask n) = 16 \<and> length nn = 4 then drop 12 (net_mask n) else net_mask n);
          x = short_ip a
      in length m = length nn \<and> length x = length nn \<and> apply_mask m nn = apply_mask m x)"

text \<open>\<^verbatim>\<open>SplitHostPort\<close>: the host, when the string has a port.\<close>

definition last_index_byte :: "string \<Rightarrow> char \<Rightarrow> nat option" where
  "last_index_byte s c = map_option (\<lambda>i. length s - 1 - i) (index_byte (rev s) c)"

definition SplitHost :: "string \<Rightarrow> string option" where
  "SplitHost s =
     (case last_index_byte s (CHR '':'') of
        None \<Rightarrow> None
      | Some i \<Rightarrow>
          if hd s = CHR ''['' then
            (case index_byte s (CHR '']'') of
               None \<Rightarrow> None
             | Some e \<Rightarrow>
                 if e + 1 \<noteq> i then None
                 else if CHR ''['' \<in> set (drop 1 s) \<or> CHR '']'' \<in> set (drop (e + 1) s) then None
                 else Some (drop 1 (take e s)))
          else if CHR '':'' \<in> set (take i s) then None
          else if CHR ''['' \<in> set s \<or> CHR '']'' \<in> set s then None
          else Some (take i s))"

section \<open>The client's address\<close>

definition trusted :: "ip_net list \<Rightarrow> string \<Rightarrow> bool" where
  "trusted nets s = (case ParseIP s of None \<Rightarrow> False | Some a \<Rightarrow> \<exists>n \<in> set nets. Contains n a)"

text \<open>\<^verbatim>\<open>ParseCIDRs\<close>: \<open>None\<close> when an item is not an address or a network.\<close>

definition cidr_item :: "string \<Rightarrow> string" where
  "cidr_item item =
     (if CHR ''/'' \<in> set item then item
      else if CHR '':'' \<in> set item then item @ ''/128'' else item @ ''/32'')"

fun parse_cidr_items :: "string list \<Rightarrow> ip_net list option" where
  "parse_cidr_items [] = Some []"
| "parse_cidr_items (w # ws) =
     (let item = trim_space w in
      if item = [] then parse_cidr_items ws
      else case ParseCIDR (cidr_item item) of None \<Rightarrow> None
           | Some n \<Rightarrow> map_option (Cons n) (parse_cidr_items ws))"

definition ParseCIDRs :: "string \<Rightarrow> ip_net list option" where
  "ParseCIDRs s = parse_cidr_items (split_on (CHR '','') s)"

text \<open>The entries of the header from the right: the first that is not blank and not a trusted proxy.\<close>

fun pick_client :: "ip_net list \<Rightarrow> string \<Rightarrow> string list \<Rightarrow> string" where
  "pick_client nets host [] = host"
| "pick_client nets host (p # ps) =
     (let a = trim_space p in
      if a = [] then pick_client nets host ps
      else if \<not> trusted nets a then a
      else pick_client nets host ps)"

text \<open>\<open>xff\<close> is the first value of the header, empty when it is missing.\<close>

definition clientIP :: "ip_net list \<Rightarrow> string \<Rightarrow> string \<Rightarrow> string" where
  "clientIP nets remoteAddr xff =
     (let host = (case SplitHost remoteAddr of None \<Rightarrow> remoteAddr | Some h \<Rightarrow> h) in
      if nets = [] \<or> \<not> trusted nets host then host
      else pick_client nets host (rev (split_on (CHR '','') xff)))"

definition decides :: "ip_net list \<Rightarrow> string \<Rightarrow> bool" where
  "decides nets p \<longleftrightarrow> trim_space p \<noteq> [] \<and> \<not> trusted nets (trim_space p)"

lemma pick_client_skip:
  "\<exists>p \<in> set ps. decides nets p \<Longrightarrow> pick_client nets host (ps @ qs) = pick_client nets host ps"
  by (induction ps) (auto simp: decides_def Let_def)

lemma pick_client_untrusted:
  "pick_client nets host ps = host \<or> (\<exists>p \<in> set ps. decides nets p \<and> pick_client nets host ps = trim_space p)"
  by (induction ps) (auto simp: decides_def Let_def)

lemma split_on_app_comma: "split_on c (a @ c # b) = split_on c a @ split_on c b"
proof (induction a)
  case (Cons x a)
  obtain w ws where "split_on c a = w # ws" by (cases "split_on c a") auto
  with Cons show ?case by auto
qed simp

text \<open>What stands to the left of the address that a trusted proxy appended does not matter.\<close>

lemma clientIP_forge:
  assumes "\<exists>p \<in> set (split_on (CHR '','') appended). decides nets p"
  shows "clientIP nets remote (forged @ CHR '','' # appended) = clientIP nets remote appended"
  using pick_client_skip[of "rev (split_on (CHR '','') appended)" nets _ "rev (split_on (CHR '','') forged)"] assms
  by (simp add: clientIP_def Let_def split_on_app_comma)

lemma clientIP_direct:
  "\<not> trusted nets (case SplitHost remote of None \<Rightarrow> remote | Some h \<Rightarrow> h) \<Longrightarrow>
     clientIP nets remote xff = (case SplitHost remote of None \<Rightarrow> remote | Some h \<Rightarrow> h)"
  by (simp add: clientIP_def Let_def)

end
