(* ===== verification/Go_Time.thy ===== *)
theory Go_Time
  imports Go_Base
begin

text \<open>
  Go's \<^verbatim>\<open>time\<close>: a \<open>time\<close> is the number of nanoseconds since the zero
  \<^verbatim>\<open>time.Time\<close> (January 1 of year 1, UTC), so that \<open>IsZero\<close> is equality with 0; a
  \<open>duration\<close> is Go's \<^verbatim>\<open>int64\<close> of nanoseconds.  \<open>Sub\<close> saturates as the package
  documents.  The calendar functions give the \<^verbatim>\<open>Format\<close> layouts the program uses.
\<close>

type_synonym time = int
type_synonym duration = int

definition second :: duration where "second = 1000000000"
definition minute :: duration where "minute = 60000000000"
definition hour :: duration where "hour = 3600000000000"

lemmas time_units [go_defs] = second_def minute_def hour_def

definition unix_to_internal :: int where "unix_to_internal = 62135596800"

text \<open>\<^verbatim>\<open>time.Unix(sec, 0)\<close>: the seconds are added to the epoch in 64 bits.\<close>

definition time_unix :: "int \<Rightarrow> time" where
  "time_unix sec = wrap64 (sec + unix_to_internal) * second"

text \<open>\<^verbatim>\<open>t.Unix()\<close>.\<close>

definition unix_of :: "time \<Rightarrow> int" where
  "unix_of t = t div second - unix_to_internal"

definition time_sub :: "time \<Rightarrow> time \<Rightarrow> duration" where
  "time_sub t u = max min_int64 (min max_int64 (t - u))"

definition time_add :: "time \<Rightarrow> duration \<Rightarrow> time" where
  "time_add t d = t + d"

definition is_zero :: "time \<Rightarrow> bool" where "is_zero t \<longleftrightarrow> t = 0"

definition after :: "time \<Rightarrow> time \<Rightarrow> bool" where "after t u \<longleftrightarrow> u < t"
definition before :: "time \<Rightarrow> time \<Rightarrow> bool" where "before t u \<longleftrightarrow> t < u"

lemmas time_defs [go_defs] = time_add_def is_zero_def after_def before_def

text \<open>The instants whose Unix seconds fit 64 bits: every clock reading of the program.\<close>

definition time_ok :: "time \<Rightarrow> bool" where
  "time_ok t \<longleftrightarrow> in_int64 (t div second)"

lemma time_sub_self [simp]: "time_sub t t = 0"
  by (simp add: time_sub_def min_int64_def max_int64_def)

lemma time_sub_ge: "d \<le> max_int64 \<Longrightarrow> min_int64 \<le> d \<Longrightarrow> d \<le> time_sub t u \<longleftrightarrow> (d = min_int64 \<or> d \<le> t - u)"
  by (auto simp: time_sub_def)

lemma time_sub_lt: "d \<le> max_int64 \<Longrightarrow> min_int64 < d \<Longrightarrow> time_sub t u < d \<longleftrightarrow> t - u < d"
  by (auto simp: time_sub_def)

lemma time_sub_mono: "t \<le> t' \<Longrightarrow> time_sub t u \<le> time_sub t' u"
  by (auto simp: time_sub_def)

lemma unix_roundtrip: "time_ok t \<Longrightarrow> time_unix (unix_of t) = t div second * second"
  by (simp add: time_unix_def unix_of_def wrap64_id time_ok_def)

lemma unix_of_time_unix: "in_int64 (s + unix_to_internal) \<Longrightarrow> unix_of (time_unix s) = s"
  by (simp add: time_unix_def unix_of_def wrap64_id second_def)

lemma unix_of_mono: "t \<le> u \<Longrightarrow> unix_of t \<le> unix_of u"
  by (simp add: unix_of_def second_def zdiv_mono1)

lemma unix_trunc_bounds:
  "time_ok t \<Longrightarrow> time_unix (unix_of t) \<le> t \<and> t < time_unix (unix_of t) + second"
  by (simp add: unix_roundtrip second_def) linarith

text \<open>\<^verbatim>\<open>d.Round(time.Second)\<close>: to the nearest second, halves away from zero.\<close>

definition round_second :: "duration \<Rightarrow> duration" where
  "round_second d =
     (let r = \<bar>d\<bar> mod second; a = \<bar>d\<bar> - r;
          v = sgn d * (if 2 * r < second then a else a + second)
      in if in_int64 v then v else if d < 0 then min_int64 else max_int64)"

lemma round_second_exact: "d mod second = 0 \<Longrightarrow> in_int64 d \<Longrightarrow> round_second d = d"
proof -
  have z: "in_int64 0" by (simp add: in_int64_def min_int64_def max_int64_def)
  assume "d mod second = 0" "in_int64 d"
  moreover from this have "\<bar>d\<bar> mod second = 0"
    by (metis abs_if mod_minus_eq mod_0 neg_0_equal_iff_equal zmod_zminus1_eq_if)
  ultimately show ?thesis
    using z by (simp add: round_second_def second_def abs_sgn_eq sgn_if split: if_splits)
qed

section \<open>The calendar\<close>

text \<open>Year, month and day of a day number counted from January 1 of year 1.\<close>

definition civil_of_days :: "int \<Rightarrow> int \<times> int \<times> int" where
  "civil_of_days n =
     (let z = n + 306; era = z div 146097; doe = z mod 146097;
          yoe = (doe - doe div 1460 + doe div 36524 - doe div 146096) div 365;
          doy = doe - (365 * yoe + yoe div 4 - yoe div 100);
          mp = (5 * doy + 2) div 153;
          d = doy - (153 * mp + 2) div 5 + 1;
          m = (if mp < 10 then mp + 3 else mp - 9);
          y = yoe + era * 400 + (if m \<le> 2 then 1 else 0)
      in (y, m, d))"

definition clock_of :: "time \<Rightarrow> int \<times> int \<times> int" where
  "clock_of t = (let s = (t div second) mod 86400 in (s div 3600, s div 60 mod 60, s mod 60))"

definition date_of :: "time \<Rightarrow> int \<times> int \<times> int" where
  "date_of t = civil_of_days (t div second div 86400)"

definition show_year :: "int \<Rightarrow> string" where
  "show_year y = (if y < 0 then CHR ''-'' # show_pad 4 (- y) else show_pad 4 y)"

text \<open>The layouts \<^verbatim>\<open>2006-01-02\<close>, \<^verbatim>\<open>2006-01-02 15:04 UTC\<close> and
  \<^verbatim>\<open>15:04:05 UTC\<close>.\<close>

definition format_date :: "time \<Rightarrow> string" where
  "format_date t = (case date_of t of (y, m, d) \<Rightarrow> show_year y @ ''-'' @ show_pad 2 m @ ''-'' @ show_pad 2 d)"

definition format_minute_utc :: "time \<Rightarrow> string" where
  "format_minute_utc t = (case clock_of t of (h, m, s) \<Rightarrow>
     format_date t @ '' '' @ show_pad 2 h @ '':'' @ show_pad 2 m @ '' UTC'')"

definition format_clock_utc :: "time \<Rightarrow> string" where
  "format_clock_utc t = (case clock_of t of (h, m, s) \<Rightarrow>
     show_pad 2 h @ '':'' @ show_pad 2 m @ '':'' @ show_pad 2 s @ '' UTC'')"

section \<open>Durations as text\<close>

fun strip_zeros :: "string \<Rightarrow> string" where
  "strip_zeros [] = []"
| "strip_zeros (c # cs) = (let r = strip_zeros cs in if r = [] \<and> c = CHR ''0'' then [] else c # r)"

text \<open>\<^verbatim>\<open>fmtFrac\<close> of package time: the last \<open>prec\<close> digits as a fraction, trailing zeros dropped.\<close>

definition frac_text :: "nat \<Rightarrow> int \<Rightarrow> string" where
  "frac_text prec u = (let f = strip_zeros (show_pad prec (u mod 10 ^ prec)) in if f = [] then [] else CHR ''.'' # f)"

text \<open>\<^verbatim>\<open>Duration.String\<close>.\<close>

definition duration_string :: "duration \<Rightarrow> string" where
  "duration_string d =
     (let u = \<bar>d\<bar>; sign = (if d < 0 then ''-'' else []) in
      sign @
      (if u = 0 then ''0s''
       else if u < 1000 then show_uint u @ ''ns''
       else if u < 1000000 then show_uint (u div 1000) @ frac_text 3 u @ [CHR 0xC2, CHR 0xB5] @ ''s''
       else if u < 1000000000 then show_uint (u div 1000000) @ frac_text 6 u @ ''ms''
       else let s = u div 1000000000; m = s div 60; h = m div 60 in
         (if h > 0 then show_uint h @ ''h'' else []) @
         (if m > 0 then show_uint (m mod 60) @ ''m'' else []) @
         show_uint (s mod 60) @ frac_text 9 u @ ''s''))"

end
