(* ===== verification/Relay_Telegram.thy ===== *)
theory Relay_Telegram
  imports Go_Text Go_Time
begin

text \<open>
  \<^verbatim>\<open>internal/relay/telegram.go\<close>: escaping for MarkdownV2, the retrying Bot API call,
  the redaction of the token, and the updates.  The network is an oracle: what each attempt meets
  (\<open>attempt\<close>), with the JSON of a response already decoded, and whether the context ends during a
  wait.  Beside the result, a call returns the outcomes it met and the waits it made, so that
  properties can speak of every request sent.
\<close>

section \<open>Escaping\<close>

definition backslash :: char where "backslash = CHR 0x5C"

definition markdownV2Special :: string where
  "markdownV2Special = ''_*[]()~`>#+-=|{}.!'' @ [backslash]"

definition special_rune :: "rune \<Rightarrow> bool" where
  "special_rune r \<longleftrightarrow> r \<in> byte_val ` set markdownV2Special"

definition escape_rune :: "rune \<times> string \<Rightarrow> string" where
  "escape_rune rb = (if special_rune (fst rb) then [backslash] else []) @ utf8_encode (fst rb)"

definition Escape :: "string \<Rightarrow> string" where
  "Escape s = concat (map escape_rune (chunks s))"

definition replace_byte :: "char \<Rightarrow> string \<Rightarrow> string \<Rightarrow> string" where
  "replace_byte c new s = concat (map (\<lambda>x. if x = c then new else [x]) s)"

definition Code :: "string \<Rightarrow> string" where
  "Code s = ''`'' @ replace_byte (CHR ''`'') [backslash, CHR ''`''] (replace_byte backslash [backslash, backslash] s) @ ''`''"

definition Bold :: "string \<Rightarrow> string" where "Bold s = ''*'' @ Escape s @ ''*''"

subsection \<open>Reading it back\<close>

text \<open>
  How a MarkdownV2 reader takes text: a backslash makes the next special character plain, any other
  special character is markup and ends the run.  The result is the plain text and what follows it.
\<close>

definition special_char :: "char \<Rightarrow> bool" where
  "special_char c \<longleftrightarrow> c \<in> set markdownV2Special"

fun md_scan :: "string \<Rightarrow> string \<times> string" where
  "md_scan [] = ([], [])"
| "md_scan [c] = (if special_char c then ([], [c]) else ([c], []))"
| "md_scan (c # d # s) =
     (if c = backslash \<and> special_char d then (case md_scan s of (t, r) \<Rightarrow> (d # t, r))
      else if special_char c then ([], c # d # s)
      else (case md_scan (d # s) of (t, r) \<Rightarrow> (c # t, r)))"

text \<open>The text with every byte that is not valid UTF-8 replaced, as \<^verbatim>\<open>WriteRune\<close> does.\<close>

definition to_valid :: "string \<Rightarrow> string" where
  "to_valid s = concat (map (utf8_encode \<circ> fst) (chunks s))"

lemma special_char_ascii: "special_char c \<Longrightarrow> byte_val c < 128"
proof -
  have "\<forall>c \<in> set markdownV2Special. byte_val c < 128"
    by (simp add: markdownV2Special_def backslash_def)
  then show "special_char c \<Longrightarrow> byte_val c < 128" by (simp add: special_char_def)
qed

lemma special_rune_ascii: "special_rune r \<Longrightarrow> 0 \<le> r \<and> r < 128 \<and> special_char (char_of r)"
proof -
  assume "special_rune r"
  then obtain c where c: "r = byte_val c" "special_char c" by (auto simp: special_rune_def special_char_def)
  then show ?thesis using special_char_ascii[OF c(2)] of_char_int_bounds[of c] by simp
qed

lemma special_char_rune: "special_char c \<Longrightarrow> special_rune (byte_val c)"
  by (auto simp: special_rune_def special_char_def)

lemma backslash_special [simp]: "special_char backslash"
  by (simp add: special_char_def markdownV2Special_def)

lemma md_scan_plain: "\<not> special_char c \<Longrightarrow> md_scan (c # s) = (c # fst (md_scan s), snd (md_scan s))"
  by (cases s) (auto split: prod.splits)

lemma md_scan_plains: "\<forall>c \<in> set p. \<not> special_char c \<Longrightarrow> md_scan (p @ s) = (p @ fst (md_scan s), snd (md_scan s))"
  by (induction p) (simp_all add: md_scan_plain)

lemma md_scan_escaped: "special_char c \<Longrightarrow> md_scan (backslash # c # s) = (c # fst (md_scan s), snd (md_scan s))"
  by (auto split: prod.splits)

lemma decode_rune_range: "decode_rune c cs = (r, k) \<Longrightarrow> r < 2097152"
  using of_char_int_bounds[of c]
  by (auto simp: decode_rune_def rune_error_def in_rng_def second_hi_def Let_def split: if_splits list.splits)

lemma chunks_range: "(r, b) \<in> set (chunks s) \<Longrightarrow> r < 2097152"
proof (induction s rule: chunks.induct)
  case (2 c cs)
  obtain r' k where d: "decode_rune c cs = (r', k)" by (cases "decode_rune c cs")
  from 2 d decode_rune_range[OF d] show ?case by auto
qed simp

text \<open>The bytes of a rune beyond ASCII are all beyond ASCII.\<close>

lemma utf8_encode_high:
  assumes "128 \<le> r" "r < 2097152" "c \<in> set (utf8_encode r)"
  shows "128 \<le> byte_val c"
proof -
  have high: "128 \<le> byte_val (char_of n)" if "128 \<le> n" "n < 256" for n :: int
    using that by (simp add: of_char_of)
  have m: "0 \<le> x mod 64" "x mod 64 < 64" for x :: int by simp_all
  have d: "r div 64 < 32" if "r < 2048" using that by linarith
  have d2: "r div 4096 < 16" if "r < 65536" using that by linarith
  have d3: "r div 262144 < 8" using assms(2) by linarith
  have d4: "0 \<le> r div k" if "0 < k" for k using assms(1) that by (simp add: pos_imp_zdiv_nonneg_iff)
  show ?thesis
    using assms m[of r] m[of "r div 64"] m[of "r div 4096"] d d2 d3 d4[of 64] d4[of 4096] d4[of 262144]
    by (auto simp: utf8_encode_def split: if_splits intro!: high)
qed

lemma md_scan_escape_rune:
  assumes "(r, b) \<in> set (chunks x)"
  shows "md_scan (escape_rune (r, b) @ s) = (utf8_encode r @ fst (md_scan s), snd (md_scan s))"
proof (cases "special_rune r")
  case True
  then have "escape_rune (r, b) = [backslash, char_of r]" "utf8_encode r = [char_of r]" "special_char (char_of r)"
    using special_rune_ascii[OF True] by (simp_all add: escape_rune_def utf8_encode_ascii)
  then show ?thesis by (simp add: md_scan_escaped del: md_scan.simps)
next
  case False
  have "\<not> special_char c" if "c \<in> set (utf8_encode r)" for c
  proof (cases "r < 128")
    case True
    with that chunks_nonneg[OF assms] have "c = char_of r" by (simp add: utf8_encode_ascii)
    with True chunks_nonneg[OF assms] have "byte_val c = r" by simp
    with False special_char_rune show ?thesis by metis
  next
    case False
    with utf8_encode_high[OF _ chunks_range[OF assms] that] have "128 \<le> byte_val c" by simp
    with special_char_ascii[of c] show ?thesis by linarith
  qed
  with False show ?thesis by (simp add: escape_rune_def md_scan_plains)
qed

lemma md_scan_Escape: "md_scan (Escape s @ rest) = (to_valid s @ fst (md_scan rest), snd (md_scan rest))"
proof -
  have "md_scan (concat (map escape_rune cs) @ rest) =
      (concat (map (utf8_encode \<circ> fst) cs) @ fst (md_scan rest), snd (md_scan rest))"
    if "set cs \<subseteq> set (chunks s)" for cs
    using that by (induction cs) (auto simp: md_scan_escape_rune)
  then show ?thesis by (simp add: Escape_def to_valid_def)
qed

lemma to_valid_ascii: "ascii s \<Longrightarrow> to_valid s = s"
  using of_char_int_bounds
  by (auto simp: to_valid_def chunks_of_ascii ascii_def comp_def utf8_encode_ascii cong: map_cong)

text \<open>Inside inline code only the backslash and the backtick are special.\<close>

fun code_scan :: "string \<Rightarrow> string \<times> string" where
  "code_scan [] = ([], [])"
| "code_scan [c] = (if c = CHR ''`'' then ([], [c]) else ([c], []))"
| "code_scan (c # d # s) =
     (if c = backslash \<and> d \<in> {backslash, CHR ''`''} then (case code_scan s of (t, r) \<Rightarrow> (d # t, r))
      else if c = CHR ''`'' then ([], c # d # s)
      else (case code_scan (d # s) of (t, r) \<Rightarrow> (c # t, r)))"

definition code_body :: "string \<Rightarrow> string" where
  "code_body s = concat (map (\<lambda>x. if x = backslash then [backslash, backslash]
                                  else if x = CHR ''`'' then [backslash, CHR ''`''] else [x]) s)"

lemma Code_body: "Code s = ''`'' @ code_body s @ ''`''"
  by (induction s) (auto simp: Code_def replace_byte_def code_body_def backslash_def)

lemma code_scan_body: "code_scan (code_body s @ CHR ''`'' # rest) = (s, CHR ''`'' # rest)"
proof (induction s)
  case Nil
  show ?case by (cases rest) (simp_all add: code_body_def backslash_def)
next
  case (Cons x s)
  have body: "code_body (x # s) = (if x = backslash then [backslash, backslash]
      else if x = CHR ''`'' then [backslash, CHR ''`''] else [x]) @ code_body s" by (simp add: code_body_def)
  have ne: "\<exists>d t. code_body s @ CHR ''`'' # rest = d # t" by (cases "code_body s") auto
  then obtain d t where dt: "code_body s @ CHR ''`'' # rest = d # t" by blast
  show ?case
  proof (cases "x = backslash \<or> x = CHR ''`''")
    case True
    with Cons body show ?thesis by auto
  next
    case False
    with Cons body dt show ?thesis by auto
  qed
qed

subsection \<open>Well-formed messages\<close>

text \<open>
  Telegram rejects a message whose markup does not parse.  The reader below goes through a message
  character by character: plain text, bold, inline code, and each of them after a backslash.
\<close>

datatype md_state = Plain | PlainEsc | InBold | BoldEsc | InCode | CodeEsc

fun md_step :: "md_state \<Rightarrow> char \<Rightarrow> md_state option" where
  "md_step Plain c = (if c = backslash then Some PlainEsc else if c = CHR ''*'' then Some InBold
     else if c = CHR ''`'' then Some InCode else if special_char c then None else Some Plain)"
| "md_step InBold c = (if c = backslash then Some BoldEsc else if c = CHR ''*'' then Some Plain
     else if special_char c then None else Some InBold)"
| "md_step InCode c = (if c = backslash then Some CodeEsc else if c = CHR ''`'' then Some Plain else Some InCode)"
| "md_step PlainEsc c = (if special_char c then Some Plain else None)"
| "md_step BoldEsc c = (if special_char c then Some InBold else None)"
| "md_step CodeEsc c = (if c = backslash \<or> c = CHR ''`'' then Some InCode else None)"

fun md_run :: "md_state \<Rightarrow> string \<Rightarrow> md_state option" where
  "md_run st [] = Some st"
| "md_run st (c # cs) = (case md_step st c of None \<Rightarrow> None | Some st' \<Rightarrow> md_run st' cs)"

definition md_ok :: "string \<Rightarrow> bool" where
  "md_ok msg \<longleftrightarrow> md_run Plain msg = Some Plain"

lemma md_run_append: "md_run st (a @ b) = (case md_run st a of None \<Rightarrow> None | Some st' \<Rightarrow> md_run st' b)"
  by (induction a arbitrary: st) (auto split: option.splits)

lemma md_ok_append: "md_ok a \<Longrightarrow> md_ok (a @ b) = md_ok b"
  by (simp add: md_ok_def md_run_append)

lemma md_ok_Nil [simp]: "md_ok []"
  by (simp add: md_ok_def)

lemma star_special [simp]: "special_char (CHR ''*'')" "special_char (CHR ''`'')"
  by (simp_all add: special_char_def markdownV2Special_def)

lemma md_run_plains: "\<forall>c \<in> set p. \<not> special_char c \<Longrightarrow> st \<in> {Plain, InBold} \<Longrightarrow> md_run st p = Some st"
proof (induction p)
  case (Cons c p)
  have "c \<noteq> backslash" "c \<noteq> CHR ''*''" "c \<noteq> CHR ''`''" using Cons.prems(1) by force+
  with Cons show ?case by auto
qed simp

lemma escape_rune_cases:
  assumes "(r, b) \<in> set (chunks x)"
  shows "(\<exists>c. escape_rune (r, b) = [backslash, c] \<and> special_char c) \<or> (\<forall>c \<in> set (escape_rune (r, b)). \<not> special_char c)"
proof (cases "special_rune r")
  case True
  then show ?thesis using special_rune_ascii[OF True] by (simp add: escape_rune_def utf8_encode_ascii)
next
  case False
  have "\<not> special_char c" if "c \<in> set (utf8_encode r)" for c
  proof (cases "r < 128")
    case True
    with that chunks_nonneg[OF assms] have "byte_val c = r" by (simp add: utf8_encode_ascii)
    with False special_char_rune show ?thesis by metis
  next
    case False
    with utf8_encode_high[OF _ chunks_range[OF assms] that] special_char_ascii[of c] show ?thesis by linarith
  qed
  with False show ?thesis by (simp add: escape_rune_def)
qed

lemma md_run_Escape: "st \<in> {Plain, InBold} \<Longrightarrow> md_run st (Escape s) = Some st"
proof -
  assume st: "st \<in> {Plain, InBold}"
  have "md_run st (concat (map escape_rune cs)) = Some st" if "set cs \<subseteq> set (chunks s)" for cs
    using that
  proof (induction cs)
    case (Cons x cs)
    obtain r b where x: "x = (r, b)" by (cases x)
    from Cons.prems x have "(r, b) \<in> set (chunks s)" by simp
    from escape_rune_cases[OF this] have "md_run st (escape_rune (r, b)) = Some st"
      using st md_run_plains[of "escape_rune (r, b)" st] by (auto simp: backslash_def)
    with Cons x show ?case by (simp add: md_run_append)
  qed simp
  then show ?thesis by (simp add: Escape_def)
qed

lemma md_ok_Escape [simp]: "md_ok (Escape s)"
  by (simp add: md_ok_def md_run_Escape)

lemma md_ok_Bold [simp]: "md_ok (Bold s)"
  by (simp add: md_ok_def Bold_def md_run_append md_run_Escape) (simp add: backslash_def)

lemma md_run_code_body: "md_run InCode (code_body s) = Some InCode"
proof (induction s)
  case (Cons x s)
  have "code_body (x # s) = (if x = backslash then [backslash, backslash]
      else if x = CHR ''`'' then [backslash, CHR ''`''] else [x]) @ code_body s" by (simp add: code_body_def)
  with Cons show ?case by (auto simp: md_run_append)
qed (simp add: code_body_def)

lemma md_ok_Code [simp]: "md_ok (Code s)"
proof -
  have "md_run Plain (Code s) = md_run InCode (code_body s @ ''`'')"
    by (simp add: Code_body backslash_def)
  also have "\<dots> = Some Plain"
    by (simp add: md_run_append md_run_code_body) (simp add: backslash_def)
  finally show ?thesis by (simp add: md_ok_def)
qed

lemmas special_defs = special_char_def markdownV2Special_def backslash_def

lemma md_ok_Cons: "\<not> special_char c \<Longrightarrow> md_ok (c # s) = md_ok s"
  using md_run_plains[of "[c]" Plain] by (simp add: md_ok_def split: option.splits if_splits)

lemma md_ok_Cons_escaped: "special_char c \<Longrightarrow> md_ok (backslash # c # s) = md_ok s"
  by (simp add: md_ok_def)

lemma md_ok_plain: "\<forall>c \<in> set s. \<not> special_char c \<Longrightarrow> md_ok s"
  by (simp add: md_ok_def md_run_plains)

section \<open>Redaction\<close>

fun contains :: "string \<Rightarrow> string \<Rightarrow> bool" where
  "contains [] sub = (sub = [])"
| "contains (c # cs) sub = (has_prefix (c # cs) sub \<or> contains cs sub)"

text \<open>\<^verbatim>\<open>strings.ReplaceAll\<close> for a pattern that is not empty.\<close>

function replace_all :: "string \<Rightarrow> string \<Rightarrow> string \<Rightarrow> string" where
  "replace_all [] old new = []"
| "replace_all (c # cs) old new =
     (if old \<noteq> [] \<and> has_prefix (c # cs) old then new @ replace_all (drop (length old) (c # cs)) old new
      else c # replace_all cs old new)"
  by pat_completeness auto
termination
  by (relation "measure (\<lambda>(s, _, _). length s)") (auto simp: length_greater_0_conv)

text \<open>\<open>inner\<close> is the cause inside a \<^verbatim>\<open>url.Error\<close>, when the error is one and has a cause.\<close>

definition redact :: "string \<Rightarrow> string \<Rightarrow> string option \<Rightarrow> string \<Rightarrow> string" where
  "redact token method inner err =
     (let msg = (case inner of Some m \<Rightarrow> m | None \<Rightarrow> err);
          msg' = (if token \<noteq> [] \<and> contains msg token then replace_all msg token ''[token]'' else msg)
      in ''telegram '' @ method @ '': '' @ msg')"

lemma replace_all_prefix:
  assumes "CHR ''['' \<notin> set p" "old \<noteq> []" "has_prefix (replace_all s old ''[token]'') p"
  shows "has_prefix s p"
  using assms
proof (induction s old "''[token]''" arbitrary: p rule: replace_all.induct)
  case (2 c cs old)
  show ?case
  proof (cases p)
    case (Cons x p')
    with 2 show ?thesis by (auto simp: has_prefix_def split: if_splits)
  qed (simp add: has_prefix_def)
qed (simp add: has_prefix_def)

lemma contains_append:
  "contains (a @ b) sub \<Longrightarrow> contains a sub \<or> (\<exists>x y. sub = x @ y \<and> y \<noteq> [] \<and> x \<noteq> [] \<and> has_suffix a x \<and> has_prefix b y) \<or> contains b sub"
proof (induction a)
  case (Cons c a)
  show ?case
  proof (cases "contains (a @ b) sub")
    case True
    from Cons.IH[OF this] show ?thesis
      by (auto simp: has_suffix_iff) (metis append_Cons)
  next
    case False
    with Cons.prems have p: "has_prefix (c # a @ b) sub" by simp
    show ?thesis
    proof (cases "length sub \<le> Suc (length a)")
      case True
      with take_append[of "length sub" "c # a" b]
      have "take (length sub) (c # a @ b) = take (length sub) (c # a)" by simp
      with p have "has_prefix (c # a) sub" by (simp add: has_prefix_def)
      then show ?thesis by simp
    next
      case False
      with p obtain y where y: "sub = (c # a) @ y" "y \<noteq> []" "has_prefix b y"
        by (auto simp: has_prefix_iff append_eq_append_conv2 Cons_eq_append_conv)
      moreover have "has_suffix (c # a) (c # a)" using has_suffix_append[of "[]" "c # a"] by simp
      ultimately show ?thesis by blast
    qed
  qed
qed simp

lemma has_suffix_last: "has_suffix (a @ [c]) x \<Longrightarrow> x \<noteq> [] \<Longrightarrow> c \<in> set x"
  by (auto simp: has_suffix_iff) (metis last_appendR last_in_set last_snoc)

lemma has_prefix_single: "has_prefix [c] y \<Longrightarrow> y \<noteq> [] \<Longrightarrow> c \<in> set y"
  by (cases y) (auto simp: has_prefix_def)

lemma contains_single: "contains [c] y \<Longrightarrow> y \<noteq> [] \<Longrightarrow> c \<in> set y"
  using has_prefix_single by auto

lemma placeholder_clean:
  assumes "tok \<noteq> []" "CHR ''['' \<notin> set tok" "CHR '']'' \<notin> set tok" "\<not> contains ''token'' tok"
  shows "\<not> contains ''[token]'' tok"
proof
  assume "contains ''[token]'' tok"
  then have "contains (''[token'' @ '']'') tok" by simp
  from contains_append[OF this] show False
  proof (elim disjE exE conjE)
    assume "contains ''[token'' tok"
    then have "has_prefix ''[token'' tok \<or> contains ''token'' tok" by simp
    with assms show False by (cases tok) (auto simp: has_prefix_def)
  next
    fix x y assume "tok = x @ y" "y \<noteq> []" "has_prefix '']'' y"
    with has_prefix_single[of "CHR '']''" y] assms show False by simp
  next
    assume "contains '']'' tok"
    with contains_single[of "CHR '']''" tok] assms show False by simp
  qed
qed

lemma replaced_clean:
  assumes tok: "tok \<noteq> []" "CHR ''['' \<notin> set tok" "CHR '']'' \<notin> set tok" "\<not> contains ''token'' tok"
    and r: "\<not> contains r tok"
  shows "\<not> contains (''[token]'' @ r) tok"
proof
  assume "contains (''[token]'' @ r) tok"
  from contains_append[OF this] placeholder_clean[OF tok] r
  obtain x y where "tok = x @ y" "x \<noteq> []" "has_suffix (''[token'' @ '']'') x" by auto
  with has_suffix_last[of "''[token''" "CHR '']''" x] tok(3) show False by simp
qed

lemma redact_message:
  assumes "token \<noteq> []" "CHR ''['' \<notin> set token" "CHR '']'' \<notin> set token" "\<not> contains ''token'' token"
  shows "\<not> contains (replace_all s token ''[token]'') token"
  using assms
proof (induction s token "''[token]''" rule: replace_all.induct)
  case (2 c cs tok)
  show ?case
  proof (cases "has_prefix (c # cs) tok")
    case True
    with 2 have "\<not> contains (replace_all (drop (length tok) (c # cs)) tok ''[token]'') tok" by blast
    from replaced_clean[OF 2(3-6) this] True 2(3) show ?thesis by (simp only: replace_all.simps simp_thms if_True not_False_eq_True)
  next
    case False
    with 2 have rest: "\<not> contains (replace_all cs tok ''[token]'') tok" by blast
    have "\<not> has_prefix (replace_all (c # cs) tok ''[token]'') tok"
      using replace_all_prefix[of tok tok "c # cs"] 2(3,4) False by blast
    with rest False show ?thesis by simp
  qed
qed simp

section \<open>The Bot API call\<close>

datatype tg_error =
    ErrBlocked
  | TgRateLimited
  | TgServerError int
  | TgRejected int string
  | TgTransport string
  | TgContext
  | TgRequest

text \<open>
  What one attempt meets: the request could not be built, no response came (with the redacted cause),
  or a response with its status and the decoded \<^verbatim>\<open>ok\<close>, \<^verbatim>\<open>description\<close>,
  \<^verbatim>\<open>result\<close> and \<^verbatim>\<open>parameters.retry_after\<close>.
\<close>

datatype attempt =
    NoRequest
  | NoResponse string
  | Response (rs_status: int) (rs_ok: bool) (rs_description: string) (rs_result: string) (rs_retry_after: "int option")

definition backoff :: "int \<Rightarrow> duration" where
  "backoff attempt = 2 ^ nat attempt * second"

definition attempts :: nat where "attempts = 4"

definition retry_wait :: "int option \<Rightarrow> duration" where
  "retry_wait p = (case p of None \<Rightarrow> second | Some n \<Rightarrow> if n > 0 then wrap64 (n * second) else second)"

text \<open>What the code does with an attempt: return, or wait for that long with that error remembered.\<close>

datatype verdict = Return "(tg_error, string) result" | Retry duration tg_error

definition judge :: "bool \<Rightarrow> int \<Rightarrow> attempt \<Rightarrow> verdict" where
  "judge retryTransport n a =
     (case a of
        NoRequest \<Rightarrow> Return (Inl TgRequest)
      | NoResponse m \<Rightarrow> if \<not> retryTransport then Return (Inl (TgTransport m)) else Retry (backoff n) (TgTransport m)
      | Response status ok descr res ra \<Rightarrow>
          if status = 200 \<and> ok then Return (Inr res)
          else if status = 403 then Return (Inl ErrBlocked)
          else if status = 429 then Retry (retry_wait ra) TgRateLimited
          else if status \<ge> 500 then Retry (backoff n) (TgServerError status)
          else Return (Inl (TgRejected status descr)))"

record call_trace =
  ct_result :: "(tg_error, string) result option"
  ct_met :: "attempt list"
  ct_waits :: "duration list"

text \<open>
  The loop, from attempt \<open>n\<close> with \<open>k\<close> attempts left.  \<open>net n\<close> is what attempt \<open>n\<close> meets,
  \<open>ends n\<close> whether the context ends in the wait before it.  A result \<open>None\<close> would be the return of a nil
  error with no result.
\<close>

fun call_loop ::
  "bool \<Rightarrow> (int \<Rightarrow> attempt) \<Rightarrow> (int \<Rightarrow> bool) \<Rightarrow> nat \<Rightarrow> int \<Rightarrow> duration \<Rightarrow> tg_error option \<Rightarrow> call_trace" where
  "call_loop rt net ends 0 n lastWait lastErr =
     \<lparr> ct_result = map_option Inl lastErr, ct_met = [], ct_waits = [] \<rparr>"
| "call_loop rt net ends (Suc k) n lastWait lastErr =
     (let ws = (if n > 0 then [lastWait] else []) in
      if n > 0 \<and> ends n then \<lparr> ct_result = Some (Inl TgContext), ct_met = [], ct_waits = ws \<rparr>
      else case judge rt n (net n) of
             Return r \<Rightarrow> \<lparr> ct_result = Some r, ct_met = [net n], ct_waits = ws \<rparr>
           | Retry d e \<Rightarrow>
               (let t = call_loop rt net ends k (n + 1) d (Some e) in
                t\<lparr> ct_met := net n # ct_met t, ct_waits := ws @ ct_waits t \<rparr>))"

definition call :: "bool \<Rightarrow> (int \<Rightarrow> attempt) \<Rightarrow> (int \<Rightarrow> bool) \<Rightarrow> call_trace" where
  "call retryTransport net ends = call_loop retryTransport net ends attempts 0 0 None"

text \<open>\<^verbatim>\<open>Send\<close> and the transport part of \<^verbatim>\<open>Updates\<close>.\<close>

definition Send :: "(int \<Rightarrow> attempt) \<Rightarrow> (int \<Rightarrow> bool) \<Rightarrow> call_trace" where
  "Send net ends = call False net ends"

text \<open>An attempt after which the message may be sent again: it was not processed.\<close>

definition not_processed :: "attempt \<Rightarrow> bool" where
  "not_processed a \<longleftrightarrow> (case a of Response status ok _ _ _ \<Rightarrow> \<not> (status = 200 \<and> ok) \<and> (status = 429 \<or> status \<ge> 500) | _ \<Rightarrow> False)"

definition accepted :: "attempt \<Rightarrow> bool" where
  "accepted a \<longleftrightarrow> (case a of Response status ok _ _ _ \<Rightarrow> status = 200 \<and> ok | _ \<Rightarrow> False)"

lemma judge_retry: "judge False n a = Retry d e \<Longrightarrow> not_processed a"
  by (auto simp: judge_def not_processed_def split: attempt.splits if_splits)

lemma judge_return:
  "judge rt n a = Return r \<Longrightarrow> (r = Inr res \<longrightarrow> accepted a) \<and> (accepted a \<longrightarrow> (\<exists>res. r = Inr res)) \<and>
     (r = Inl ErrBlocked \<longleftrightarrow> (\<exists>ok d x p. a = Response 403 ok d x p))"
  by (auto simp: judge_def accepted_def split: attempt.splits if_splits)

lemma judge_not_accepted: "judge rt n a = Retry d e \<Longrightarrow> \<not> accepted a \<and> e \<noteq> ErrBlocked"
  by (auto simp: judge_def accepted_def split: attempt.splits if_splits)

lemma call_loop_met:
  "length (ct_met (call_loop rt net ends k n w e)) \<le> k"
  by (induction k arbitrary: n w e) (auto simp: Let_def split: verdict.splits)

lemma call_loop_result: "k > 0 \<or> e \<noteq> None \<Longrightarrow> ct_result (call_loop rt net ends k n w e) \<noteq> None"
  by (induction k arbitrary: n w e) (auto simp: Let_def split: verdict.splits)

text \<open>Every request but the last one met an answer that says it was not processed.\<close>

lemma call_loop_resend:
  "a \<in> set (butlast (ct_met (call_loop False net ends k n w e))) \<Longrightarrow> not_processed a"
proof (induction k arbitrary: n w e)
  case (Suc k)
  then show ?case
    by (auto simp: Let_def dest: judge_retry split: verdict.splits if_splits)
qed simp

lemma call_loop_ok:
  "(\<exists>res. ct_result (call_loop rt net ends k n w e) = Some (Inr res)) \<longleftrightarrow>
     (\<exists>a \<in> set (ct_met (call_loop rt net ends k n w e)). accepted a)"
proof (induction k arbitrary: n w e)
  case (Suc k)
  show ?case
  proof (cases "judge rt n (net n)")
    case (Return r)
    with judge_return[OF Return] show ?thesis by (auto simp: Let_def)
  next
    case (Retry d e')
    with judge_not_accepted[OF Retry] Suc[of "n + 1" d "Some e'"] show ?thesis by (auto simp: Let_def)
  qed
qed auto

section \<open>Updates\<close>

record update =
  u_update_id :: int
  u_chat_id :: int
  u_text :: string
  u_username :: string

text \<open>One item of a \<^verbatim>\<open>getUpdates\<close> result: the message, when there is one, with its
  sender's name, when there is one.\<close>

record update_item =
  it_update_id :: int
  it_message :: "(int \<times> string \<times> string option) option"

definition update_of_item :: "update_item \<Rightarrow> update" where
  "update_of_item it =
     (case it_message it of
        None \<Rightarrow> \<lparr> u_update_id = it_update_id it, u_chat_id = 0, u_text = [], u_username = [] \<rparr>
      | Some (chat, txt, from) \<Rightarrow>
          \<lparr> u_update_id = it_update_id it, u_chat_id = chat, u_text = txt,
            u_username = (case from of None \<Rightarrow> [] | Some u \<Rightarrow> u) \<rparr>)"

text \<open>\<open>decode\<close> is the JSON decoding of the result.\<close>

definition Updates ::
  "(string \<Rightarrow> update_item list option) \<Rightarrow> (int \<Rightarrow> attempt) \<Rightarrow> (int \<Rightarrow> bool) \<Rightarrow> (tg_error option, update list) result" where
  "Updates decode net ends =
     (case ct_result (call True net ends) of
        None \<Rightarrow> Inl None
      | Some (Inl e) \<Rightarrow> Inl (Some e)
      | Some (Inr raw) \<Rightarrow> (case decode raw of None \<Rightarrow> Inl None | Some items \<Rightarrow> Inr (map update_of_item items)))"

end
