(* ===== verification/Go_Float.thy ===== *)
theory Go_Float
  imports Go_Base Complex_Main
begin

text \<open>
  Go's \<^verbatim>\<open>float64\<close>: IEEE binary64 with round-to-nearest-even, as exact rationals that
  are rounded after every operation.  The sign of zero is not represented (the program never
  observes it).  Conversions to integers truncate; out of range they give the value the
  amd64 conversion gives.
\<close>

datatype float64 = Fin rat | PInf | NInf | NaN

section \<open>Rounding\<close>

fun bit_len :: "int \<Rightarrow> int" where
  "bit_len n = (if n \<le> 0 then 0 else 1 + bit_len (n div 2))"

declare bit_len.simps [simp del]

definition pow2 :: "int \<Rightarrow> rat" where
  "pow2 e = (if 0 \<le> e then 2 ^ nat e else 1 / 2 ^ nat (- e))"

text \<open>The exponent of a positive rational: \<open>pow2 e \<le> x < pow2 (e + 1)\<close>.\<close>

definition rat_exp :: "rat \<Rightarrow> int" where
  "rat_exp x = (let (p, q) = quotient_of x; e = bit_len p - bit_len q
                in if pow2 e \<le> x then e else e - 1)"

definition round_half_even :: "rat \<Rightarrow> int" where
  "round_half_even r =
     (let f = \<lfloor>r\<rfloor>; d = r - of_int f
      in if d < 1 / 2 then f else if d > 1 / 2 then f + 1 else if even f then f else f + 1)"

definition fl :: "rat \<Rightarrow> rat" where
  "fl x = (if x = 0 then 0
           else let a = \<bar>x\<bar>; u = pow2 (max (rat_exp a) (- 1022) - 52)
                in sgn x * (of_int (round_half_even (a / u)) * u))"

definition to_float :: "rat \<Rightarrow> float64" where
  "to_float x = (let r = fl x in if pow2 1024 \<le> r then PInf else if r \<le> - pow2 1024 then NInf else Fin r)"

section \<open>Operations\<close>

definition f_of_int :: "int \<Rightarrow> float64" where "f_of_int n = to_float (of_int n)"

fun f_mul :: "float64 \<Rightarrow> float64 \<Rightarrow> float64" where
  "f_mul (Fin x) (Fin y) = to_float (x * y)"
| "f_mul (Fin x) PInf = (if x = 0 then NaN else if x < 0 then NInf else PInf)"
| "f_mul (Fin x) NInf = (if x = 0 then NaN else if x < 0 then PInf else NInf)"
| "f_mul PInf (Fin x) = (if x = 0 then NaN else if x < 0 then NInf else PInf)"
| "f_mul NInf (Fin x) = (if x = 0 then NaN else if x < 0 then PInf else NInf)"
| "f_mul PInf PInf = PInf"
| "f_mul NInf NInf = PInf"
| "f_mul PInf NInf = NInf"
| "f_mul NInf PInf = NInf"
| "f_mul NaN _ = NaN"
| "f_mul _ NaN = NaN"

text \<open>Division; every divisor of the program is checked to be positive first, a zero divisor gives
  what IEEE gives for a positive zero.\<close>

fun f_div :: "float64 \<Rightarrow> float64 \<Rightarrow> float64" where
  "f_div (Fin x) (Fin y) =
     (if y = 0 then (if x = 0 then NaN else if x < 0 then NInf else PInf) else to_float (x / y))"
| "f_div (Fin x) PInf = Fin 0"
| "f_div (Fin x) NInf = Fin 0"
| "f_div PInf (Fin y) = (if y < 0 then NInf else PInf)"
| "f_div NInf (Fin y) = (if y < 0 then PInf else NInf)"
| "f_div _ _ = NaN"

fun f_lt :: "float64 \<Rightarrow> float64 \<Rightarrow> bool" where
  "f_lt (Fin x) (Fin y) \<longleftrightarrow> x < y"
| "f_lt (Fin x) PInf \<longleftrightarrow> True"
| "f_lt NInf (Fin x) \<longleftrightarrow> True"
| "f_lt NInf PInf \<longleftrightarrow> True"
| "f_lt _ _ \<longleftrightarrow> False"

definition trunc_rat :: "rat \<Rightarrow> int" where
  "trunc_rat x = (if x < 0 then - \<lfloor>- x\<rfloor> else \<lfloor>x\<rfloor>)"

fun f_to_int64 :: "float64 \<Rightarrow> int" where
  "f_to_int64 (Fin x) = (let n = trunc_rat x in if in_int64 n then n else min_int64)"
| "f_to_int64 _ = min_int64"

text \<open>The amd64 conversion to \<^verbatim>\<open>uint64\<close>: below \<open>2^63\<close> as to
  \<^verbatim>\<open>int64\<close>, above it after subtracting \<open>2^63\<close>.\<close>

fun f_to_uint64 :: "float64 \<Rightarrow> int" where
  "f_to_uint64 (Fin x) =
     (let n = trunc_rat x in
      if x < 9223372036854775808 then wrap_u64 (if in_int64 n then n else min_int64)
      else wrap_u64 ((let k = trunc_rat (fl (x - 9223372036854775808)) in if in_int64 k then k else min_int64)
                     + 9223372036854775808))"
| "f_to_uint64 _ = 9223372036854775808"

text \<open>\<^verbatim>\<open>%.kf\<close>: the exact value rounded to \<open>k\<close> decimals, ties to even.\<close>

fun fmt_fixed :: "nat \<Rightarrow> float64 \<Rightarrow> string" where
  "fmt_fixed k (Fin x) =
     (let n = round_half_even (\<bar>x\<bar> * 10 ^ k) in
      (if x < 0 then ''-'' else []) @ show_uint (n div 10 ^ k) @
      (if k = 0 then [] else CHR ''.'' # show_pad k (n mod 10 ^ k)))"
| "fmt_fixed k PInf = ''+Inf''"
| "fmt_fixed k NInf = ''-Inf''"
| "fmt_fixed k NaN = ''NaN''"

section \<open>Facts about rounding\<close>

lemma pow2_pos [simp]: "0 < pow2 e"
  by (simp add: pow2_def)

lemma pow2_nonzero [simp]: "pow2 e \<noteq> 0"
  using pow2_pos[of e] by linarith

lemma pow2_add: "pow2 (a + b) = pow2 a * pow2 b"
proof -
  have pw: "pow2 e = 2 powi e" for e
    by (simp add: pow2_def power_int_def divide_simps)
  show ?thesis by (simp add: pw power_int_add)
qed

lemma pow2_0 [simp]: "pow2 0 = 1" by (simp add: pow2_def)
lemma pow2_1 [simp]: "pow2 1 = 2" by (simp add: pow2_def)

lemma pow2_mono: "a \<le> b \<Longrightarrow> pow2 a \<le> pow2 b"
proof -
  assume "a \<le> b"
  then have "pow2 b = pow2 a * pow2 (b - a)" using pow2_add[of a "b - a"] by simp
  moreover have "1 \<le> pow2 (b - a)" using \<open>a \<le> b\<close> by (simp add: pow2_def)
  ultimately show ?thesis using pow2_pos[of a] by simp
qed

lemma pow2_nat: "0 \<le> e \<Longrightarrow> pow2 e = of_int (2 ^ nat e)"
  by (simp add: pow2_def)

lemma bit_len_bounds: "0 < n \<Longrightarrow> 0 < bit_len n \<and> 2 ^ nat (bit_len n - 1) \<le> n \<and> n < 2 ^ nat (bit_len n)"
proof (induction n rule: bit_len.induct)
  case (1 n)
  show ?case
  proof (cases "n = 1")
    case True
    then show ?thesis by (simp add: bit_len.simps)
  next
    case False
    with 1 have n: "1 < n" "0 < n div 2" by auto
    with 1 have IH: "0 < bit_len (n div 2)" "2 ^ nat (bit_len (n div 2) - 1) \<le> n div 2"
      "n div 2 < 2 ^ nat (bit_len (n div 2))" by auto
    let ?b = "bit_len (n div 2)"
    have b: "bit_len n = 1 + ?b" using n by (subst bit_len.simps) simp
    have e1: "nat ?b = Suc (nat (?b - 1))" and e2: "nat (1 + ?b) = Suc (nat ?b)"
      using IH(1) by simp_all
    have "2 ^ nat ?b = 2 * (2 ^ nat (?b - 1) :: int)" "2 ^ nat (1 + ?b) = 2 * (2 ^ nat ?b :: int)"
      unfolding e1 e2 by simp_all
    with IH have "2 ^ nat ?b \<le> n \<and> n < 2 ^ nat (1 + ?b)" by linarith
    with b IH(1) show ?thesis by simp
  qed
qed

lemma rat_exp_bounds:
  assumes "0 < x"
  shows "pow2 (rat_exp x) \<le> x \<and> x < pow2 (rat_exp x + 1)"
proof -
  obtain p q where pq: "quotient_of x = (p, q)" by (cases "quotient_of x")
  have x: "x = of_int p / of_int q" using pq by (rule quotient_of_div)
  have q: "0 < q" using pq by (rule quotient_of_denom_pos)
  have p: "0 < p" using assms x q by (simp add: zero_less_divide_iff)
  let ?bp = "bit_len p" and ?bq = "bit_len q"
  note P = bit_len_bounds[OF p] and Q = bit_len_bounds[OF q]
  have p1: "pow2 (?bp - 1) \<le> of_int p" and p2: "of_int p < pow2 ?bp"
    using P pow2_nat[of "?bp - 1"] pow2_nat[of ?bp] by (auto simp: of_int_le_iff of_int_less_iff simp del: of_int_power)
  have q1: "pow2 (?bq - 1) \<le> of_int q" and q2: "of_int q < pow2 ?bq"
    using Q pow2_nat[of "?bq - 1"] pow2_nat[of ?bq] by (auto simp: of_int_le_iff of_int_less_iff simp del: of_int_power)
  let ?e = "?bp - ?bq"
  have qp: "(0::rat) < of_int q" using q by simp
  have lo: "pow2 (?e - 1) \<le> x"
  proof -
    have "pow2 (?e - 1) * of_int q \<le> pow2 (?e - 1) * pow2 ?bq" using q2 by simp
    also have "\<dots> = pow2 (?bp - 1)" by (simp flip: pow2_add)
    finally have "pow2 (?e - 1) * of_int q \<le> of_int p" using p1 by linarith
    then show ?thesis using qp by (simp add: x pos_le_divide_eq)
  qed
  have hi: "x < pow2 (?e + 1)"
  proof -
    have "pow2 ?bp = pow2 (?e + 1) * pow2 (?bq - 1)" by (simp flip: pow2_add)
    also have "\<dots> \<le> pow2 (?e + 1) * of_int q" using q1 by simp
    finally have "of_int p < pow2 (?e + 1) * of_int q" using p2 by linarith
    then show ?thesis using qp by (simp add: x pos_divide_less_eq)
  qed
  show ?thesis using lo hi by (auto simp: rat_exp_def pq not_le Let_def)
qed

lemma rat_exp_mono: "0 < x \<Longrightarrow> x \<le> y \<Longrightarrow> rat_exp x \<le> rat_exp y"
proof (rule ccontr)
  assume h: "0 < x" "x \<le> y" "\<not> rat_exp x \<le> rat_exp y"
  then have "pow2 (rat_exp y + 1) \<le> pow2 (rat_exp x)" by (intro pow2_mono) simp
  with rat_exp_bounds[of x] rat_exp_bounds[of y] h show False by auto
qed

lemma round_half_even_int [simp]: "round_half_even (of_int n) = n"
  by (simp add: round_half_even_def)

lemma round_half_even_mono: "x \<le> y \<Longrightarrow> round_half_even x \<le> round_half_even y"
proof -
  assume le: "x \<le> y"
  then have f: "\<lfloor>x\<rfloor> \<le> \<lfloor>y\<rfloor>" by (rule floor_mono)
  show ?thesis
  proof (cases "\<lfloor>x\<rfloor> = \<lfloor>y\<rfloor>")
    case True
    with le show ?thesis by (auto simp: round_half_even_def Let_def)
  next
    case False
    with f have "\<lfloor>x\<rfloor> + 1 \<le> \<lfloor>y\<rfloor>" by simp
    moreover have "round_half_even x \<le> \<lfloor>x\<rfloor> + 1" "\<lfloor>y\<rfloor> \<le> round_half_even y"
      by (auto simp: round_half_even_def Let_def)
    ultimately show ?thesis by linarith
  qed
qed

definition ulp :: "rat \<Rightarrow> int" where
  "ulp a = max (rat_exp a) (- 1022) - 52"

lemma fl_pos: "0 < x \<Longrightarrow> fl x = of_int (round_half_even (x / pow2 (ulp x))) * pow2 (ulp x)"
  by (simp add: fl_def ulp_def Let_def)

lemma fl_0 [simp]: "fl 0 = 0"
  by (simp add: fl_def)

text \<open>A value that fits the significand is kept.\<close>

lemma fl_exact: "0 < x \<Longrightarrow> x = of_int m * pow2 (ulp x) \<Longrightarrow> fl x = x"
proof -
  assume x: "0 < x" and e: "x = of_int m * pow2 (ulp x)"
  have "x / pow2 (ulp x) = of_int m" by (subst e) simp
  with x have "fl x = of_int m * pow2 (ulp x)" by (simp only: fl_pos round_half_even_int)
  with e show ?thesis by simp
qed

lemma fl_of_int:
  assumes "0 \<le> n" "n < 2 ^ 53"
  shows "fl (of_int n) = of_int n"
proof (cases "n = 0")
  case False
  with assms have n: "0 < n" by simp
  let ?x = "of_int n :: rat"
  have "rat_exp ?x \<le> 52"
  proof (rule ccontr)
    assume "\<not> rat_exp ?x \<le> 52"
    then have "pow2 53 \<le> pow2 (rat_exp ?x)" by (intro pow2_mono) simp
    with rat_exp_bounds[of ?x] n have "pow2 53 \<le> ?x" by auto
    then have "(2 ^ 53 :: int) \<le> n" using pow2_nat[of 53] by (simp only: of_int_le_iff) simp
    with assms show False by simp
  qed
  then have k: "ulp ?x \<le> 0" by (auto simp: ulp_def)
  have "pow2 (- ulp ?x) * pow2 (ulp ?x) = 1" by (simp flip: pow2_add)
  then have "?x = ?x * of_int (2 ^ nat (- ulp ?x)) * pow2 (ulp ?x)"
    using k pow2_nat[of "- ulp ?x"] by (simp del: of_int_power)
  then have "?x = of_int (n * 2 ^ nat (- ulp ?x)) * pow2 (ulp ?x)" by (simp only: of_int_mult)
  then show ?thesis using n by (intro fl_exact[where m = "n * 2 ^ nat (- ulp ?x)"]) simp_all
qed simp

text \<open>Rounding is monotone on the numbers that are not negative.\<close>

lemma fl_mono:
  assumes "0 \<le> x" "x \<le> y"
  shows "fl x \<le> fl y"
proof (cases "x = 0")
  case True
  have "0 \<le> fl y"
  proof (cases "y = 0")
    case False
    with assms have y: "0 < y" by simp
    then have "round_half_even (of_int 0) \<le> round_half_even (y / pow2 (ulp y))"
      by (intro round_half_even_mono) (simp add: order_less_imp_le)
    then have "(0::rat) \<le> of_int (round_half_even (y / pow2 (ulp y)))"
      unfolding round_half_even_int by (simp only: of_int_0_le_iff)
    with y show ?thesis by (simp add: fl_pos mult_nonneg_nonneg order_less_imp_le)
  qed simp
  with True show ?thesis by simp
next
  case False
  with assms have x: "0 < x" and y: "0 < y" by auto
  have ue: "ulp x \<le> ulp y" using rat_exp_mono[OF x assms(2)] by (auto simp: ulp_def)
  show ?thesis
  proof (cases "ulp x = ulp y")
    case True
    have "x / pow2 (ulp y) \<le> y / pow2 (ulp y)" using assms by (simp add: divide_right_mono order_less_imp_le)
    then have "round_half_even (x / pow2 (ulp y)) \<le> round_half_even (y / pow2 (ulp y))"
      by (rule round_half_even_mono)
    with x y True show ?thesis by (simp add: fl_pos)
  next
    case False
    with ue have lt: "ulp x + 1 \<le> ulp y" by simp
    then have yexp: "ulp y = rat_exp y - 52" by (auto simp: ulp_def)
    have "x < pow2 (ulp x + 53)"
    proof -
      have "x < pow2 (rat_exp x + 1)" using rat_exp_bounds[OF x] by simp
      also have "\<dots> \<le> pow2 (ulp x + 53)" by (rule pow2_mono) (simp add: ulp_def)
      finally show ?thesis .
    qed
    then have "x / pow2 (ulp x) \<le> pow2 53" by (simp add: field_simps pow2_add)
    then have "x / pow2 (ulp x) \<le> of_int (2 ^ 53)" using pow2_nat[of 53] by simp
    then have "round_half_even (x / pow2 (ulp x)) \<le> 2 ^ 53"
      using round_half_even_mono round_half_even_int by metis
    then have "fl x \<le> of_int (2 ^ 53) * pow2 (ulp x)" using x
      by (simp only: fl_pos) (intro mult_right_mono, simp_all only: of_int_le_iff order_less_imp_le pow2_pos)
    also have "\<dots> = pow2 (ulp x + 53)" by (simp add: pow2_add) (simp add: pow2_def)
    also have "\<dots> \<le> pow2 (ulp y + 52)" using lt by (intro pow2_mono) simp
    also have "\<dots> \<le> fl y"
    proof -
      have "pow2 (ulp y + 52) \<le> y" using rat_exp_bounds[OF y] yexp by simp
      then have "pow2 52 \<le> y / pow2 (ulp y)" by (simp add: field_simps pow2_add)
      then have "of_int (2 ^ 52) \<le> y / pow2 (ulp y)" using pow2_nat[of 52] by simp
      then have "2 ^ 52 \<le> round_half_even (y / pow2 (ulp y))"
        using round_half_even_mono round_half_even_int by metis
      then have "of_int (2 ^ 52) * pow2 (ulp y) \<le> fl y" using y
        by (simp only: fl_pos) (intro mult_right_mono, simp_all only: of_int_le_iff order_less_imp_le pow2_pos)
      moreover have "of_int (2 ^ 52) * pow2 (ulp y) = pow2 (ulp y + 52)" by (simp add: pow2_add) (simp add: pow2_def)
      ultimately show ?thesis by linarith
    qed
    finally show ?thesis .
  qed
qed

lemma fl_nonneg: "0 \<le> x \<Longrightarrow> 0 \<le> fl x"
  using fl_mono[of 0 x] by simp

lemma fl_le_int: "0 \<le> x \<Longrightarrow> x \<le> of_int n \<Longrightarrow> n < 2 ^ 53 \<Longrightarrow> fl x \<le> of_int n"
proof -
  assume h: "0 \<le> x" "x \<le> of_int n" "n < 2 ^ 53"
  then have "0 \<le> n" by linarith
  with h fl_mono[of x "of_int n"] fl_of_int[of n] show ?thesis by simp
qed

lemma trunc_rat_mono: "x \<le> y \<Longrightarrow> trunc_rat x \<le> trunc_rat y"
proof -
  assume le: "x \<le> y"
  then have f: "\<lfloor>x\<rfloor> \<le> \<lfloor>y\<rfloor>" "\<lfloor>- y\<rfloor> \<le> \<lfloor>- x\<rfloor>" by (simp_all add: floor_mono)
  consider "y < 0" | "x < 0" "0 \<le> y" | "0 \<le> x" by linarith
  then show ?thesis
  proof cases
    case 2
    then have a: "0 \<le> \<lfloor>- x\<rfloor>" and b: "0 \<le> \<lfloor>y\<rfloor>" by (simp_all add: zero_le_floor)
    have "- \<lfloor>- x\<rfloor> \<le> \<lfloor>y\<rfloor>" using a b by linarith
    with 2 show ?thesis by (simp add: trunc_rat_def)
  qed (use le f in \<open>simp_all add: trunc_rat_def\<close>)
qed

lemma trunc_rat_int [simp]: "trunc_rat (of_int n) = n"
proof (cases "n < 0")
  case True
  have "- (of_int n :: rat) = of_int (- n)" by simp
  then have "\<lfloor>- (of_int n :: rat)\<rfloor> = - n" by (simp only: floor_of_int)
  with True show ?thesis by (simp add: trunc_rat_def)
qed (simp add: trunc_rat_def)

lemma f_of_int_exact: "0 \<le> n \<Longrightarrow> n < 2 ^ 53 \<Longrightarrow> f_of_int n = Fin (of_int n)"
proof -
  assume n: "0 \<le> n" "n < 2 ^ 53"
  have "(of_int n :: rat) < of_int (2 ^ 53)" using n(2) by (simp only: of_int_less_iff)
  also have "of_int (2 ^ 53) = pow2 53" using pow2_nat[of 53] by simp
  also have "pow2 53 \<le> pow2 1024" by (rule pow2_mono) simp
  finally have up: "\<not> pow2 1024 \<le> of_int n" by simp
  have "(0::rat) \<le> of_int n" using n(1) by simp
  with pow2_pos[of 1024] have dn: "\<not> of_int n \<le> - pow2 1024" by linarith
  show ?thesis unfolding f_of_int_def to_float_def fl_of_int[OF n] Let_def by (simp only: up dn if_False)
qed

end
