(* ===== verification/Alert_Proto.thy ===== *)
theory Alert_Proto
  imports Go_Time Go_Float
begin

text \<open>
  \<^verbatim>\<open>internal/alertproto/proto.go\<close>: the wire types shared by node and relay, the
  table of alert kinds, what the relay accepts as an alert, and request signing.  HMAC-SHA256 is the
  parameter \<open>hmac\<close> (secret, then message); the JSON decoding of a body is a parameter of the handlers
  that use it.
\<close>

section \<open>Wire types\<close>

type_synonym state = string
type_synonym severity = string

definition Firing :: state where "Firing = ''firing''"
definition OK :: state where "OK = ''ok''"
definition Info :: state where "Info = ''info''"

definition Critical :: severity where "Critical = ''critical''"
definition Warning :: severity where "Warning = ''warning''"
definition InfoSev :: severity where "InfoSev = ''info''"

lemmas state_defs [go_defs] = Firing_def OK_def Info_def
lemmas severity_defs [go_defs] = Critical_def Warning_def InfoSev_def

lemma states_distinct [simp]:
  "Firing \<noteq> OK" "OK \<noteq> Firing" "Firing \<noteq> Info" "Info \<noteq> Firing" "OK \<noteq> Info" "Info \<noteq> OK"
  "Firing \<noteq> []" "OK \<noteq> []" "Info \<noteq> []"
  by (simp_all add: state_defs)

lemma severities_distinct [simp]:
  "Critical \<noteq> Warning" "Warning \<noteq> Critical" "Critical \<noteq> InfoSev" "InfoSev \<noteq> Critical"
  "Warning \<noteq> InfoSev" "InfoSev \<noteq> Warning"
  by (simp_all add: severity_defs)

record pair_request =
  pr_code :: string
  pr_name :: string
  pr_host :: string
  pr_version :: string

record pair_response =
  ps_node_id :: string
  ps_secret :: string
  ps_relay_version :: string

record alert_request =
  ar_alert :: string
  ar_state :: state
  ar_severity :: severity
  ar_title :: string
  ar_detail :: string
  ar_at :: time

text \<open>Unsigned fields hold values that are not negative; the decoder that fills them guarantees it.\<close>

record summary =
  s_state :: string
  s_height :: int
  s_peers :: int
  s_restarts :: int
  s_target_height :: int
  s_momentum_rate :: float64
  s_eta_seconds :: int
  s_frontier :: int
  s_frontier_age :: int
  s_ledger_busy :: bool
  s_uptime_seconds :: int
  s_node_version :: string
  s_node_commit :: string
  s_nomctl_version :: string
  s_pillar_name :: string
  s_pillar_rank :: int
  s_pillar_produced :: int
  s_pillar_expected :: int
  s_pillar_error :: string
  s_load1 :: float64
  s_mem_free :: int
  s_mem_total :: int
  s_disk_free :: int
  s_disk_total :: int
  s_cpu_percent :: float64
  s_rss :: int
  s_nomctl_update :: string
  s_node_update :: bool

text \<open>Go's zero value of the struct.\<close>

definition empty_summary :: summary where
  "empty_summary =
     \<lparr> s_state = [], s_height = 0, s_peers = 0, s_restarts = 0, s_target_height = 0,
       s_momentum_rate = Fin 0, s_eta_seconds = 0, s_frontier = 0, s_frontier_age = 0,
       s_ledger_busy = False, s_uptime_seconds = 0, s_node_version = [], s_node_commit = [],
       s_nomctl_version = [], s_pillar_name = [], s_pillar_rank = 0, s_pillar_produced = 0,
       s_pillar_expected = 0, s_pillar_error = [], s_load1 = Fin 0, s_mem_free = 0, s_mem_total = 0,
       s_disk_free = 0, s_disk_total = 0, s_cpu_percent = Fin 0, s_rss = 0, s_nomctl_update = [],
       s_node_update = False \<rparr>"

record heartbeat_request =
  hb_at :: time
  hb_summary :: summary

section \<open>Alert kinds\<close>

record alert_info =
  ai_name :: string
  ai_severity :: severity
  ai_title :: string
  ai_ok_title :: string
  ai_relay :: bool

definition kind :: "string \<Rightarrow> severity \<Rightarrow> string \<Rightarrow> string \<Rightarrow> alert_info" where
  "kind n s t ok = \<lparr> ai_name = n, ai_severity = s, ai_title = t, ai_ok_title = ok, ai_relay = False \<rparr>"

definition Alerts :: "alert_info list" where
  "Alerts =
     [kind ''service_down'' Critical ''service down'' ''service back up'',
      kind ''crash_loop'' Critical ''crash loop'' ''crash loop ended'',
      kind ''sync_stalled'' Critical ''sync stalled'' ''sync resumed'',
      kind ''sync_behind'' Warning ''sync falling behind'' ''sync catching up'',
      kind ''not_enough_peers'' Warning ''not enough peers'' ''peers ok'',
      kind ''disk_low'' Warning ''disk space low'' ''disk space ok'',
      kind ''memory_high'' Warning ''memory high'' ''memory ok'',
      kind ''fds_high'' Warning ''open files high'' ''open files ok'',
      kind ''backup_stale'' Warning ''backup overdue'' ''backup ok'',
      kind ''wallet_backup_missing'' InfoSev ''producer key not backed up'' ''producer key backed up'',
      kind ''rpc_unreachable'' Warning ''node rpc unreachable'' ''node rpc ok'',
      kind ''momentums_stalled'' Critical ''momentums stalled'' ''momentums advancing again'',
      kind ''pillar_missed'' Critical ''pillar missing momentums'' ''pillar producing again'',
      kind ''update_available'' InfoSev ''update available'' ''up to date'',
      (kind ''node_silent'' Critical ''node silent'' ''node reporting again'')\<lparr> ai_relay := True \<rparr>]"

definition Lookup :: "string \<Rightarrow> alert_info option" where
  "Lookup name = find (\<lambda>a. ai_name a = name) Alerts"

definition Events :: "string \<Rightarrow> bool" where
  "Events name \<longleftrightarrow> name \<in> {''started'', ''test''}"

lemma alerts_distinct: "distinct (map ai_name Alerts)"
  by (simp add: Alerts_def kind_def)

lemma Lookup_Some: "Lookup name = Some a \<Longrightarrow> a \<in> set Alerts \<and> ai_name a = name"
  by (auto simp: Lookup_def dest: find_SomeD)

lemma find_distinct_key: "distinct (map f xs) \<Longrightarrow> x \<in> set xs \<Longrightarrow> find (\<lambda>y. f y = f x) xs = Some x"
  by (induction xs) force+

lemma Lookup_in: "a \<in> set Alerts \<Longrightarrow> Lookup (ai_name a) = Some a"
  unfolding Lookup_def by (rule find_distinct_key [OF alerts_distinct])

lemma Lookup_None_iff: "Lookup name = None \<longleftrightarrow> name \<notin> ai_name ` set Alerts"
  by (auto simp: Lookup_def find_None_iff)

lemma Events_not_rule: "Events name \<Longrightarrow> Lookup name = None"
proof -
  have "Lookup ''started'' = None" "Lookup ''test'' = None" by code_simp+
  then show "Events name \<Longrightarrow> Lookup name = None" by (auto simp: Events_def)
qed

lemma alerts_sane:
  "\<forall>a \<in> set Alerts. ai_severity a \<in> {Critical, Warning, InfoSev} \<and> length (ai_title a) \<le> 200 \<and> length (ai_ok_title a) \<le> 200"
  by (simp add: Alerts_def kind_def)

section \<open>Accepted alerts\<close>

definition MaxTitleLen :: nat where "MaxTitleLen = 200"
definition MaxDetailLen :: nat where "MaxDetailLen = 2000"

definition ValidAlert :: "alert_request \<Rightarrow> bool" where
  "ValidAlert a =
     (if Lookup (ar_alert a) = None \<and> \<not> Events (ar_alert a) then False
      else if Events (ar_alert a) \<and> (ar_state a \<noteq> Info \<or> ar_severity a \<noteq> InfoSev) then False
      else if ar_state a \<notin> {Firing, OK, Info} then False
      else if ar_severity a \<notin> {Critical, Warning, InfoSev} then False
      else length (ar_title a) \<le> MaxTitleLen \<and> length (ar_detail a) \<le> MaxDetailLen)"

lemma ValidAlert_iff:
  "ValidAlert a \<longleftrightarrow>
     (ar_alert a \<in> ai_name ` set Alerts \<or> Events (ar_alert a)) \<and>
     (Events (ar_alert a) \<longrightarrow> ar_state a = Info \<and> ar_severity a = InfoSev) \<and>
     ar_state a \<in> {Firing, OK, Info} \<and> ar_severity a \<in> {Critical, Warning, InfoSev} \<and>
     length (ar_title a) \<le> 200 \<and> length (ar_detail a) \<le> 2000"
  using Lookup_None_iff[of "ar_alert a"]
  by (auto simp: ValidAlert_def MaxTitleLen_def MaxDetailLen_def)

section \<open>Signing\<close>

definition ReplayWindow :: duration where "ReplayWindow = 5 * minute"

datatype sign_error = ErrStale | ErrBadSignature

definition signed_message :: "int \<Rightarrow> bytes \<Rightarrow> bytes" where
  "signed_message timestamp body = show_int timestamp @ CHR 0x0A # body"

definition Sign :: "(bytes \<Rightarrow> bytes \<Rightarrow> bytes) \<Rightarrow> bytes \<Rightarrow> int \<Rightarrow> bytes \<Rightarrow> string" where
  "Sign hmac secret timestamp body = hex_encode (hmac secret (signed_message timestamp body))"

text \<open>\<open>None\<close> is Go's nil error.\<close>

definition Verify ::
  "(bytes \<Rightarrow> bytes \<Rightarrow> bytes) \<Rightarrow> bytes \<Rightarrow> int \<Rightarrow> bytes \<Rightarrow> string \<Rightarrow> time \<Rightarrow> sign_error option" where
  "Verify hmac secret timestamp body signature now =
     (let ts = time_unix timestamp; d = time_sub now ts in
      if d > ReplayWindow \<or> d < - ReplayWindow then Some ErrStale
      else case hex_decode (Sign hmac secret timestamp body) of
             None \<Rightarrow> Some ErrBadSignature
           | Some want \<Rightarrow>
               (case hex_decode signature of
                  None \<Rightarrow> Some ErrBadSignature
                | Some got \<Rightarrow> if want = got then None else Some ErrBadSignature))"

lemma in_window_iff:
  "\<not> (time_sub now ts > ReplayWindow \<or> time_sub now ts < - ReplayWindow) \<longleftrightarrow> \<bar>now - ts\<bar> \<le> 5 * minute"
  by (auto simp: time_sub_def ReplayWindow_def minute_def min_int64_def max_int64_def)

lemma Verify_ok_iff:
  "Verify hmac secret ts body sig now = None \<longleftrightarrow>
     \<bar>now - time_unix ts\<bar> \<le> 5 * minute \<and>
     hex_decode sig = Some (hmac secret (signed_message ts body))"
  using in_window_iff[of now "time_unix ts"]
  by (auto simp: Verify_def Sign_def Let_def split: option.splits)

lemma Verify_Sign:
  "\<bar>now - time_unix ts\<bar> \<le> 5 * minute \<Longrightarrow> Verify hmac secret ts body (Sign hmac secret ts body) now = None"
  by (simp add: Verify_ok_iff Sign_def)

text \<open>The signed message determines the timestamp and the body: neither can be shifted into the other.\<close>

lemma signed_message_inj:
  assumes "in_int64 t" "in_int64 u" "signed_message t b = signed_message u c"
  shows "t = u \<and> b = c"
proof -
  have cut: "cut_on (CHR 0x0A) (signed_message t b) = (show_int t, b, True)" for t b
    unfolding signed_message_def using show_int_no_newline by (rule cut_on_found)
  from assms(3) have "(show_int t, b, True) = (show_int u, c, True)" using cut by metis
  with show_int_inj assms show ?thesis by auto
qed

section \<open>Text\<close>

definition UnknownNodeMessage :: string where "UnknownNodeMessage = ''unknown node''"

definition PrivacyNotice :: "string \<Rightarrow> string" where
  "PrivacyNotice relayHost =
     ''Privacy notice: once paired, your node sends a heartbeat to '' @ relayHost @
     '' every 30 seconds and forwards alerts through it. The relay operator can see your node's public IP address, '' @
     ''host name, node name and status summary. The IP address is used only to rate-limit pairing and is not stored in '' @
     ''the relay database, but it is visible to the relay and may appear in the logs of the proxy in front of it. '' @
     ''If your pillar's IP address must stay private, run your own relay (see the docs) or do not pair.''"

end
