(* ===== verification/Relay_Store.thy ===== *)
theory Relay_Store
  imports Alert_Proto
begin

text \<open>
  The store interface of \<^verbatim>\<open>internal/relay/store.go\<close>: nodes, mutes, the errors, the
  interface value (a record of its operations, as a Go interface value is), and its contract.  The
  contract is stated over an abstract store of four finite maps: one predicate per operation relates
  the store before, the result and the store after, error results included.  The locale
  \<open>relay_store\<close> says that an implementation keeps its own invariant and meets the contract; the two
  implementations, \<^verbatim>\<open>memoryStore\<close> and \<^verbatim>\<open>sqliteStore\<close>, interpret it in
  their own theories, and the server is verified against the locale alone.
\<close>

section \<open>Data\<close>

definition MaxCodesPerChat :: nat where "MaxCodesPerChat = 5"

text \<open>\<open>DbErr\<close> stands for every error of the database driver itself.\<close>

datatype store_error = ErrNotFound | ErrCodeInvalid | ErrTooManyCodes | ErrNameTaken | DbErr

record node =
  n_id :: string
  n_chat :: int
  n_name :: string
  n_host :: string
  n_version :: string
  n_secret :: bytes
  n_created :: time
  n_last_seen :: time
  n_silent :: bool
  n_blocked :: bool
  n_summary :: summary

record mute =
  mu_node :: string
  mu_alert :: string
  mu_until :: time

text \<open>
  The interface \<^verbatim>\<open>Store\<close>.  \<open>None\<close> is a nil error.  \<open>CreateCode\<close> reads the wall clock
  itself, its first argument.
\<close>

record 's store_ops =
  CreateCode :: "time \<Rightarrow> int \<Rightarrow> string \<Rightarrow> time \<Rightarrow> 's \<Rightarrow> store_error option \<times> 's"
  ConsumeCode :: "string \<Rightarrow> time \<Rightarrow> 's \<Rightarrow> (store_error, int) result \<times> 's"
  CreateNode :: "node \<Rightarrow> 's \<Rightarrow> store_error option \<times> 's"
  GetNode :: "string \<Rightarrow> 's \<Rightarrow> (store_error, node) result \<times> 's"
  ListNodes :: "int \<Rightarrow> 's \<Rightarrow> (store_error, node list) result \<times> 's"
  UpdateNode :: "node \<Rightarrow> 's \<Rightarrow> store_error option \<times> 's"
  DeleteNode :: "string \<Rightarrow> 's \<Rightarrow> store_error option \<times> 's"
  SilentCandidates :: "time \<Rightarrow> 's \<Rightarrow> (store_error, node list) result \<times> 's"
  SetMute :: "mute \<Rightarrow> 's \<Rightarrow> store_error option \<times> 's"
  ClearMute :: "string \<Rightarrow> string \<Rightarrow> 's \<Rightarrow> store_error option \<times> 's"
  Muted :: "string \<Rightarrow> string \<Rightarrow> time \<Rightarrow> 's \<Rightarrow> (store_error, bool) result \<times> 's"
  LastSent :: "string \<Rightarrow> string \<Rightarrow> 's \<Rightarrow> (store_error, state \<times> time) result \<times> 's"
  SetLastSent :: "string \<Rightarrow> string \<Rightarrow> state \<Rightarrow> time \<Rightarrow> 's \<Rightarrow> store_error option \<times> 's"

section \<open>The abstract store\<close>

record code_rec =
  c_chat :: int
  c_expires :: time
  c_used :: bool

record store_abs =
  a_nodes :: "string \<rightharpoonup> node"
  a_codes :: "string \<rightharpoonup> code_rec"
  a_mutes :: "string \<times> string \<rightharpoonup> time"
  a_sent :: "string \<times> string \<rightharpoonup> state \<times> time"

text \<open>Every node is filed under its id, and no chat has two nodes of one name.\<close>

definition ids_match :: "(string \<rightharpoonup> node) \<Rightarrow> bool" where
  "ids_match N \<longleftrightarrow> (\<forall>i n. N i = Some n \<longrightarrow> n_id n = i)"

definition names_unique :: "(string \<rightharpoonup> node) \<Rightarrow> bool" where
  "names_unique N \<longleftrightarrow> (\<forall>i j m n. N i = Some m \<and> N j = Some n \<and> n_chat m = n_chat n \<and> n_name m = n_name n \<longrightarrow> i = j)"

definition unused_codes :: "time \<Rightarrow> int \<Rightarrow> (string \<rightharpoonup> code_rec) \<Rightarrow> string set" where
  "unused_codes now chat C =
     {k. \<exists>c. C k = Some c \<and> c_chat c = chat \<and> \<not> c_used c \<and> now < c_expires c}"

text \<open>A node id or alert name the keys of the store can hold: no NUL byte.\<close>

definition id_ok :: "string \<Rightarrow> bool" where
  "id_ok i \<longleftrightarrow> CHR 0x00 \<notin> set i"

text \<open>The fields an update leaves as they are.\<close>

definition same_identity :: "node \<Rightarrow> node \<Rightarrow> bool" where
  "same_identity m n \<longleftrightarrow> n_id m = n_id n \<and> n_chat m = n_chat n \<and> n_name m = n_name n \<and>
     n_secret m = n_secret n \<and> n_created m = n_created n"

text \<open>A clock reading, far enough from the ends of the range that a duration can be added.\<close>

definition clock_ok :: "time \<Rightarrow> bool" where
  "clock_ok t \<longleftrightarrow> 0 \<le> t \<and> t < 1000000000000000000000000000"

definition node_ok :: "node \<Rightarrow> bool" where
  "node_ok n \<longleftrightarrow> id_ok (n_id n) \<and> time_ok (n_created n) \<and> time_ok (n_last_seen n)"

lemma clock_ok_time_ok: "clock_ok t \<Longrightarrow> time_ok t"
  by (auto simp: clock_ok_def time_ok_def in_int64_def min_int64_def max_int64_def second_def)

lemma clock_ok_add: "clock_ok t \<Longrightarrow> in_int64 d \<Longrightarrow> time_ok (time_add t d)"
  by (auto simp: clock_ok_def time_ok_def in_int64_def min_int64_def max_int64_def second_def time_add_def)

lemma ids_matchD: "ids_match N \<Longrightarrow> N i = Some n \<Longrightarrow> n_id n = i"
  by (auto simp: ids_match_def)

lemma ids_match_update: "ids_match N \<Longrightarrow> n_id n = i \<Longrightarrow> ids_match (N(i \<mapsto> n))"
  by (auto simp: ids_match_def)

lemma ids_match_delete: "ids_match N \<Longrightarrow> ids_match (N(i := None))"
  by (auto simp: ids_match_def)

lemma names_unique_delete: "names_unique N \<Longrightarrow> names_unique (N(i := None))"
  by (auto simp: names_unique_def split: if_splits)

lemma names_unique_update:
  assumes "names_unique N" "N i = Some m" "n_chat n = n_chat m" "n_name n = n_name m"
  shows "names_unique (N(i \<mapsto> n))"
  unfolding names_unique_def
proof (intro allI impI)
  fix a b x y
  assume h: "(N(i \<mapsto> n)) a = Some x \<and> (N(i \<mapsto> n)) b = Some y \<and> n_chat x = n_chat y \<and> n_name x = n_name y"
  have old: "\<exists>z. N c = Some z \<and> n_chat z = n_chat w \<and> n_name z = n_name w" if "(N(i \<mapsto> n)) c = Some w" for c w
    using that assms by (cases "c = i") auto
  from old[of a x] old[of b y] h assms(1) show "a = b"
    unfolding names_unique_def by metis
qed

lemma names_unique_insert:
  assumes "names_unique N" "\<And>j m. N j = Some m \<Longrightarrow> n_chat m = n_chat n \<Longrightarrow> n_name m = n_name n \<Longrightarrow> j = i"
  shows "names_unique (N(i \<mapsto> n))"
  using assms unfolding names_unique_def by (auto split: if_splits)

section \<open>The contract\<close>

text \<open>
  \<open>tn\<close> and \<open>nn\<close> are what the implementation keeps of a time and of a node: everything in memory,
  whole seconds in the database.
\<close>

definition codes_cleaned :: "time \<Rightarrow> (string \<rightharpoonup> code_rec) \<Rightarrow> (string \<rightharpoonup> code_rec) \<Rightarrow> bool" where
  "codes_cleaned horizon C C' \<longleftrightarrow>
     (\<forall>k. C' k = C k \<or> (C' k = None \<and> (\<exists>c. C k = Some c \<and> c_expires c < horizon)))"

definition create_code_spec ::
  "(time \<Rightarrow> time) \<Rightarrow> time \<Rightarrow> int \<Rightarrow> string \<Rightarrow> time \<Rightarrow> store_abs \<Rightarrow> store_error option \<Rightarrow> store_abs \<Rightarrow> bool" where
  "create_code_spec tn wall chat code expires A r A' \<longleftrightarrow>
     (case r of
        None \<Rightarrow> card (unused_codes (tn wall) chat (a_codes A)) < MaxCodesPerChat \<and>
                A' = A\<lparr> a_codes := (a_codes A)(code \<mapsto> \<lparr> c_chat = chat, c_expires = tn expires, c_used = False \<rparr>) \<rparr>
      | Some e \<Rightarrow> A' = A \<and> e \<in> {ErrTooManyCodes, DbErr} \<and>
          (e = ErrTooManyCodes \<longrightarrow> MaxCodesPerChat \<le> card (unused_codes (tn wall) chat (a_codes A))))"

definition consume_code_spec ::
  "(time \<Rightarrow> time) \<Rightarrow> string \<Rightarrow> time \<Rightarrow> store_abs \<Rightarrow> (store_error, int) result \<Rightarrow> store_abs \<Rightarrow> bool" where
  "consume_code_spec tn code now A r A' \<longleftrightarrow>
     (case r of
        Inr chat \<Rightarrow> (\<exists>c. a_codes A code = Some c \<and> c_chat c = chat \<and> \<not> c_used c \<and> tn now < c_expires c \<and>
                        a_codes A' code = Some (c\<lparr> c_used := True \<rparr>) \<and>
                        codes_cleaned (tn now) ((a_codes A)(code \<mapsto> c\<lparr> c_used := True \<rparr>)) (a_codes A') \<and>
                        A' = A\<lparr> a_codes := a_codes A' \<rparr>)
      | Inl e \<Rightarrow> A' = A \<and> e \<in> {ErrCodeInvalid, DbErr} \<and>
          (e = ErrCodeInvalid \<longrightarrow> (\<forall>c. a_codes A code = Some c \<longrightarrow> c_used c \<or> c_expires c \<le> tn now)))"

definition create_node_spec ::
  "(node \<Rightarrow> node) \<Rightarrow> node \<Rightarrow> store_abs \<Rightarrow> store_error option \<Rightarrow> store_abs \<Rightarrow> bool" where
  "create_node_spec nn n A r A' \<longleftrightarrow>
     (case r of
        None \<Rightarrow> (\<forall>j m. a_nodes A j = Some m \<longrightarrow> n_chat m \<noteq> n_chat n \<or> n_name m \<noteq> n_name n) \<and>
                A' = A\<lparr> a_nodes := (a_nodes A)(n_id n \<mapsto> nn n) \<rparr>
      | Some e \<Rightarrow> A' = A \<and> e \<in> {ErrNameTaken, DbErr} \<and>
          (e = ErrNameTaken \<longrightarrow> (\<exists>j m. a_nodes A j = Some m \<and>
             (n_chat m = n_chat n \<and> n_name m = n_name n \<or> j = n_id n))))"

definition get_node_spec ::
  "string \<Rightarrow> store_abs \<Rightarrow> (store_error, node) result \<Rightarrow> store_abs \<Rightarrow> bool" where
  "get_node_spec i A r A' \<longleftrightarrow> A' = A \<and>
     (case r of Inr n \<Rightarrow> a_nodes A i = Some n
      | Inl e \<Rightarrow> e \<in> {ErrNotFound, DbErr} \<and> (e = ErrNotFound \<longrightarrow> a_nodes A i = None))"

definition list_nodes_spec ::
  "int \<Rightarrow> store_abs \<Rightarrow> (store_error, node list) result \<Rightarrow> store_abs \<Rightarrow> bool" where
  "list_nodes_spec chat A r A' \<longleftrightarrow> A' = A \<and>
     (case r of Inr ns \<Rightarrow> set ns = {n \<in> ran (a_nodes A). n_chat n = chat} \<and> sorted (map n_name ns) \<and> distinct ns
      | Inl e \<Rightarrow> e = DbErr)"

definition update_node_spec ::
  "(node \<Rightarrow> node) \<Rightarrow> node \<Rightarrow> store_abs \<Rightarrow> store_error option \<Rightarrow> store_abs \<Rightarrow> bool" where
  "update_node_spec nn n A r A' \<longleftrightarrow>
     (case r of
        None \<Rightarrow> a_nodes A (n_id n) \<noteq> None \<and> A' = A\<lparr> a_nodes := (a_nodes A)(n_id n \<mapsto> nn n) \<rparr>
      | Some e \<Rightarrow> A' = A \<and> e \<in> {ErrNotFound, DbErr} \<and> (e = ErrNotFound \<longrightarrow> a_nodes A (n_id n) = None))"

text \<open>Deleting a node forgets it; its mutes and last-sent records may go with it, nobody else's do.\<close>

definition delete_node_spec ::
  "string \<Rightarrow> store_abs \<Rightarrow> store_error option \<Rightarrow> store_abs \<Rightarrow> bool" where
  "delete_node_spec i A r A' \<longleftrightarrow>
     (case r of
        None \<Rightarrow> a_nodes A i \<noteq> None \<and> a_nodes A' = (a_nodes A)(i := None) \<and> a_codes A' = a_codes A \<and>
                (\<forall>j al. id_ok j \<longrightarrow> a_mutes A' (j, al) = a_mutes A (j, al) \<or> j = i \<and> a_mutes A' (j, al) = None) \<and>
                (\<forall>j al. id_ok j \<longrightarrow> a_sent A' (j, al) = a_sent A (j, al) \<or> j = i \<and> a_sent A' (j, al) = None)
      | Some e \<Rightarrow> A' = A \<and> e \<in> {ErrNotFound, DbErr} \<and> (e = ErrNotFound \<longrightarrow> a_nodes A i = None))"

definition silent_candidates_spec ::
  "(time \<Rightarrow> time) \<Rightarrow> time \<Rightarrow> store_abs \<Rightarrow> (store_error, node list) result \<Rightarrow> store_abs \<Rightarrow> bool" where
  "silent_candidates_spec tn bef A r A' \<longleftrightarrow> A' = A \<and>
     (case r of Inr ns \<Rightarrow> set ns = {n \<in> ran (a_nodes A). \<not> n_silent n \<and> n_last_seen n < tn bef} \<and>
                          sorted (map n_id ns) \<and> distinct ns
      | Inl e \<Rightarrow> e = DbErr)"

definition set_mute_spec ::
  "(time \<Rightarrow> time) \<Rightarrow> mute \<Rightarrow> store_abs \<Rightarrow> store_error option \<Rightarrow> store_abs \<Rightarrow> bool" where
  "set_mute_spec tn m A r A' \<longleftrightarrow>
     (case r of
        None \<Rightarrow> a_mutes A' (mu_node m, mu_alert m) = Some (tn (mu_until m)) \<and>
                (\<forall>j al. id_ok j \<longrightarrow> (j, al) \<noteq> (mu_node m, mu_alert m) \<longrightarrow> a_mutes A' (j, al) = a_mutes A (j, al)) \<and>
                A' = A\<lparr> a_mutes := a_mutes A' \<rparr>
      | Some e \<Rightarrow> A' = A \<and> e = DbErr)"

definition clear_mute_spec ::
  "string \<Rightarrow> string \<Rightarrow> store_abs \<Rightarrow> store_error option \<Rightarrow> store_abs \<Rightarrow> bool" where
  "clear_mute_spec i alert A r A' \<longleftrightarrow>
     (case r of
        None \<Rightarrow> a_mutes A' (i, alert) = None \<and>
                (\<forall>j al. id_ok j \<longrightarrow> (j, al) \<noteq> (i, alert) \<longrightarrow> a_mutes A' (j, al) = a_mutes A (j, al)) \<and>
                A' = A\<lparr> a_mutes := a_mutes A' \<rparr>
      | Some e \<Rightarrow> A' = A \<and> e = DbErr)"

definition mute_active :: "time \<Rightarrow> string \<Rightarrow> string \<Rightarrow> store_abs \<Rightarrow> bool" where
  "mute_active t i alert A \<longleftrightarrow>
     (\<exists>u. a_mutes A (i, alert) = Some u \<and> t < u) \<or> (\<exists>u. a_mutes A (i, ''all'') = Some u \<and> t < u)"

definition muted_spec ::
  "(time \<Rightarrow> time) \<Rightarrow> string \<Rightarrow> string \<Rightarrow> time \<Rightarrow> store_abs \<Rightarrow> (store_error, bool) result \<Rightarrow> store_abs \<Rightarrow> bool" where
  "muted_spec tn i alert now A r A' \<longleftrightarrow> A' = A \<and>
     (case r of Inr b \<Rightarrow> b \<longleftrightarrow> mute_active (tn now) i alert A | Inl e \<Rightarrow> e = DbErr)"

text \<open>A node never heard of for an alert reads as the empty state.\<close>

definition last_sent_of :: "store_abs \<Rightarrow> string \<Rightarrow> string \<Rightarrow> state \<times> time" where
  "last_sent_of A i alert = (case a_sent A (i, alert) of None \<Rightarrow> ([], 0) | Some p \<Rightarrow> p)"

definition last_sent_spec ::
  "string \<Rightarrow> string \<Rightarrow> store_abs \<Rightarrow> (store_error, state \<times> time) result \<Rightarrow> store_abs \<Rightarrow> bool" where
  "last_sent_spec i alert A r A' \<longleftrightarrow> A' = A \<and>
     (case r of Inr p \<Rightarrow> p = last_sent_of A i alert | Inl e \<Rightarrow> e = DbErr)"

definition set_last_sent_spec ::
  "(time \<Rightarrow> time) \<Rightarrow> string \<Rightarrow> string \<Rightarrow> state \<Rightarrow> time \<Rightarrow> store_abs \<Rightarrow> store_error option \<Rightarrow> store_abs \<Rightarrow> bool" where
  "set_last_sent_spec tn i alert st t A r A' \<longleftrightarrow>
     (case r of
        None \<Rightarrow> a_sent A' (i, alert) = Some (st, tn t) \<and>
                (\<forall>j al. id_ok j \<longrightarrow> (j, al) \<noteq> (i, alert) \<longrightarrow> a_sent A' (j, al) = a_sent A (j, al)) \<and>
                A' = A\<lparr> a_sent := a_sent A' \<rparr>
      | Some e \<Rightarrow> A' = A \<and> e = DbErr)"

section \<open>The interface\<close>

text \<open>
  \<open>inv\<close> is the implementation's invariant, \<open>abs\<close> its abstraction, and \<open>up\<close> says that no call will
  fail for a reason of the database itself.
\<close>

locale relay_store =
  fixes ops :: "'s store_ops"
    and inv :: "'s \<Rightarrow> bool"
    and abs :: "'s \<Rightarrow> store_abs"
    and tn :: "time \<Rightarrow> time"
    and nn :: "node \<Rightarrow> node"
    and up :: "'s \<Rightarrow> bool"
  assumes inv_ids: "inv s \<Longrightarrow> ids_match (a_nodes (abs s))"
    and inv_names: "inv s \<Longrightarrow> names_unique (a_nodes (abs s))"
    and inv_node_ok: "inv s \<Longrightarrow> a_nodes (abs s) i = Some n \<Longrightarrow> node_ok n"
    and inv_created: "inv s \<Longrightarrow> a_nodes (abs s) i = Some n \<Longrightarrow> tn (n_created n) = n_created n"
    and tn_le: "time_ok t \<Longrightarrow> tn t \<le> t" "time_ok t \<Longrightarrow> t < tn t + second"
    and tn_mono: "time_ok t \<Longrightarrow> time_ok u \<Longrightarrow> t \<le> u \<Longrightarrow> tn t \<le> tn u"
    and tn_ok: "time_ok t \<Longrightarrow> time_ok (tn t)"
    and nn_fields: "n_id (nn n) = n_id n" "n_chat (nn n) = n_chat n" "n_name (nn n) = n_name n"
      "n_host (nn n) = n_host n" "n_version (nn n) = n_version n" "n_secret (nn n) = n_secret n"
      "n_silent (nn n) = n_silent n" "n_blocked (nn n) = n_blocked n"
      "n_created (nn n) = tn (n_created n)" "n_last_seen (nn n) = tn (n_last_seen n)"
    and create_code:
      "inv s \<Longrightarrow> time_ok wall \<Longrightarrow> time_ok expires \<Longrightarrow> CreateCode ops wall chat code expires s = (e, s') \<Longrightarrow>
         inv s' \<and> create_code_spec tn wall chat code expires (abs s) e (abs s') \<and>
         (up s \<longrightarrow> up s' \<and> (e = Some DbErr \<longrightarrow> a_codes (abs s) code \<noteq> None))"
    and consume_code:
      "inv s \<Longrightarrow> clock_ok now \<Longrightarrow> ConsumeCode ops code now s = (rc, s') \<Longrightarrow>
         inv s' \<and> consume_code_spec tn code now (abs s) rc (abs s') \<and> (up s \<longrightarrow> up s' \<and> rc \<noteq> Inl DbErr)"
    and create_node:
      "inv s \<Longrightarrow> node_ok n \<Longrightarrow> a_nodes (abs s) (n_id n) = None \<Longrightarrow> CreateNode ops n s = (e, s') \<Longrightarrow>
         inv s' \<and> create_node_spec nn n (abs s) e (abs s') \<and> (up s \<longrightarrow> up s' \<and> e \<noteq> Some DbErr)"
    and get_node:
      "inv s \<Longrightarrow> GetNode ops i s = (rn, s') \<Longrightarrow>
         inv s' \<and> get_node_spec i (abs s) rn (abs s') \<and> (up s \<longrightarrow> up s' \<and> rn \<noteq> Inl DbErr)"
    and list_nodes:
      "inv s \<Longrightarrow> ListNodes ops chat s = (rl, s') \<Longrightarrow>
         inv s' \<and> list_nodes_spec chat (abs s) rl (abs s') \<and> (up s \<longrightarrow> up s' \<and> rl \<noteq> Inl DbErr)"
    and update_node:
      "inv s \<Longrightarrow> node_ok n \<Longrightarrow> (\<And>m. a_nodes (abs s) (n_id n) = Some m \<Longrightarrow> same_identity (nn n) m) \<Longrightarrow>
         UpdateNode ops n s = (e, s') \<Longrightarrow>
         inv s' \<and> update_node_spec nn n (abs s) e (abs s') \<and> (up s \<longrightarrow> up s' \<and> e \<noteq> Some DbErr)"
    and delete_node:
      "inv s \<Longrightarrow> id_ok i \<Longrightarrow> DeleteNode ops i s = (e, s') \<Longrightarrow>
         inv s' \<and> delete_node_spec i (abs s) e (abs s') \<and> (up s \<longrightarrow> up s' \<and> e \<noteq> Some DbErr)"
    and silent_candidates:
      "inv s \<Longrightarrow> time_ok bef \<Longrightarrow> SilentCandidates ops bef s = (rl, s') \<Longrightarrow>
         inv s' \<and> silent_candidates_spec tn bef (abs s) rl (abs s') \<and> (up s \<longrightarrow> up s' \<and> rl \<noteq> Inl DbErr)"
    and set_mute:
      "inv s \<Longrightarrow> id_ok (mu_node m) \<Longrightarrow> time_ok (mu_until m) \<Longrightarrow> SetMute ops m s = (e, s') \<Longrightarrow>
         inv s' \<and> set_mute_spec tn m (abs s) e (abs s') \<and> (up s \<longrightarrow> up s' \<and> e \<noteq> Some DbErr)"
    and clear_mute:
      "inv s \<Longrightarrow> id_ok i \<Longrightarrow> ClearMute ops i alert s = (e, s') \<Longrightarrow>
         inv s' \<and> clear_mute_spec i alert (abs s) e (abs s') \<and> (up s \<longrightarrow> up s' \<and> e \<noteq> Some DbErr)"
    and muted:
      "inv s \<Longrightarrow> id_ok i \<Longrightarrow> time_ok now \<Longrightarrow> Muted ops i alert now s = (rb, s') \<Longrightarrow>
         inv s' \<and> muted_spec tn i alert now (abs s) rb (abs s') \<and> (up s \<longrightarrow> up s' \<and> rb \<noteq> Inl DbErr)"
    and last_sent:
      "inv s \<Longrightarrow> id_ok i \<Longrightarrow> LastSent ops i alert s = (rs, s') \<Longrightarrow>
         inv s' \<and> last_sent_spec i alert (abs s) rs (abs s') \<and> (up s \<longrightarrow> up s' \<and> rs \<noteq> Inl DbErr)"
    and set_last_sent:
      "inv s \<Longrightarrow> id_ok i \<Longrightarrow> time_ok t \<Longrightarrow> SetLastSent ops i alert st t s = (e, s') \<Longrightarrow>
         inv s' \<and> set_last_sent_spec tn i alert st t (abs s) e (abs s') \<and> (up s \<longrightarrow> up s' \<and> e \<noteq> Some DbErr)"
begin

text \<open>An update of what changes in a node keeps every node unique and filed under its id.\<close>

lemma stored_node_id: "inv s \<Longrightarrow> a_nodes (abs s) i = Some n \<Longrightarrow> n_id n = i \<and> id_ok i"
  using inv_ids[of s] inv_node_ok[of s i n] by (auto simp: ids_match_def node_ok_def)

lemma listed_unique:
  assumes "inv s" "ListNodes ops chat s = (Inr ns, s')" "m \<in> set ns" "n \<in> set ns" "n_name m = n_name n"
  shows "m = n"
proof -
  from list_nodes[OF assms(1,2)] have ns: "set ns = {n \<in> ran (a_nodes (abs s)). n_chat n = chat}"
    by (simp add: list_nodes_spec_def)
  with assms(3,4) obtain i j where ij: "a_nodes (abs s) i = Some m" "a_nodes (abs s) j = Some n" "n_chat m = n_chat n"
    by (auto simp: ran_def)
  with inv_names[OF assms(1)] assms(5) have "i = j" unfolding names_unique_def by blast
  with ij show ?thesis by simp
qed

text \<open>A code is redeemed at most once: after a success it is marked used, and a used code is refused.\<close>

lemma consume_used:
  assumes "inv s" "clock_ok now" "a_codes (abs s) code = Some c" "c_used c" "ConsumeCode ops code now s = (r, s')"
  shows "\<exists>e. r = Inl e"
  using consume_code[OF assms(1,2,5)] assms(3,4) by (cases r) (auto simp: consume_code_spec_def)

end

end
