(* ===== verification/Relay_Card.thy ===== *)
theory Relay_Card
  imports Relay_Telegram Relay_Store
begin

text \<open>
  \<^verbatim>\<open>internal/relay/card.go\<close>: the text of one node in the answer to /nodes.  Durations
  shown there are whole seconds, for which Go's \<^verbatim>\<open>int(d.Hours())\<close> and its
  siblings are exact divisions.
\<close>

section \<open>Bytes beyond ASCII\<close>

definition newline :: string where "newline = [CHR 0x0A]"
definition middot :: string where "middot = [CHR 0xC2, CHR 0xB7]"
definition green_icon :: string where "green_icon = [CHR 0xF0, CHR 0x9F, CHR 0x9F, CHR 0xA2]"
definition red_icon :: string where "red_icon = [CHR 0xF0, CHR 0x9F, CHR 0x94, CHR 0xB4]"
definition orange_icon :: string where "orange_icon = [CHR 0xF0, CHR 0x9F, CHR 0x9F, CHR 0xA0]"
definition info_icon :: string where "info_icon = [CHR 0xE2, CHR 0x84, CHR 0xB9, CHR 0xEF, CHR 0xB8, CHR 0x8F]"
definition warning_icon :: string where "warning_icon = [CHR 0xE2, CHR 0x9A, CHR 0xA0, CHR 0xEF, CHR 0xB8, CHR 0x8F]"

lemmas icon_defs = newline_def middot_def green_icon_def red_icon_def orange_icon_def info_icon_def warning_icon_def

section \<open>Numbers\<close>

fun commas_from :: "bool \<Rightarrow> string \<Rightarrow> string" where
  "commas_from first [] = []"
| "commas_from first (c # cs) =
     (if \<not> first \<and> length (c # cs) mod 3 = 0 then [CHR '','', c] else [c]) @ commas_from False cs"

definition commas :: "int \<Rightarrow> string" where
  "commas n = (let s = show_uint n in if length s \<le> 3 then s else commas_from True s)"

definition humanAge :: "duration \<Rightarrow> string" where
  "humanAge d0 =
     (let d = (if d0 < 0 then 0 else d0);
          days = d div hour div 24; hours = d div hour mod 24;
          mins = d div minute mod 60; secs = d div second mod 60
      in if days > 0 then show_int days @ ''d '' @ show_int hours @ ''h''
         else if hours > 0 then show_int hours @ ''h '' @ show_int mins @ ''m''
         else if mins > 0 then show_int mins @ ''m '' @ show_int secs @ ''s''
         else show_int secs @ ''s'')"

definition gb :: "int \<Rightarrow> string" where
  "gb b =
     (if b \<ge> 1099511627776 then fmt_fixed 1 (f_div (f_of_int b) (Fin 1099511627776)) @ '' TB''
      else if b \<ge> 1073741824 then fmt_fixed 1 (f_div (f_of_int b) (Fin 1073741824)) @ '' GB''
      else fmt_fixed 0 (f_div (f_of_int b) (Fin 1048576)) @ '' MB'')"

section \<open>The card\<close>

definition secs_duration :: "int \<Rightarrow> duration" where
  "secs_duration n = wrap64 (n * second)"

definition dot :: string where "dot = '' '' @ middot @ '' ''"

definition syncText :: "summary \<Rightarrow> string" where
  "syncText s =
     s_state s @
     (if s_height s > 0 then
        '' '' @ commas (s_height s) @
        (if s_target_height s > 0 then
           '' / '' @ commas (s_target_height s) @ '' ('' @
           fmt_fixed 1 (f_mul (f_div (f_of_int (s_height s)) (f_of_int (s_target_height s))) (Fin 100)) @ ''%)''
         else [])
      else []) @
     (if f_lt (Fin 0) (s_momentum_rate s) then dot @ fmt_fixed 1 (s_momentum_rate s) @ '' mom/s'' else []) @
     (if s_eta_seconds s > 0 then dot @ ''ETA '' @ humanAge (secs_duration (s_eta_seconds s)) else [])"

definition line :: "string \<Rightarrow> string \<Rightarrow> string" where
  "line label txt = (if txt \<noteq> [] then newline @ Bold label @ '' '' @ Escape txt else [])"

definition card_head :: "node \<Rightarrow> time \<Rightarrow> string" where
  "card_head n now =
     (let age = round_second (time_sub now (n_last_seen n)) in
      (if n_silent n then red_icon @ '' '' @ Bold (n_name n) @ dot @ ''silent'' else green_icon @ '' '' @ Bold (n_name n)) @
      (if n_host n \<noteq> [] \<and> n_host n \<noteq> n_name n then dot @ Escape (n_host n) else []) @
      dot @ ''seen '' @ Escape (humanAge age) @ '' ago'')"

definition card_frontier :: "summary \<Rightarrow> string" where
  "card_frontier s =
     (if s_ledger_busy s then line ''Frontier'' ''ledger busy (inserting momentums)''
      else if s_frontier s > 0
      then line ''Frontier'' (commas (s_frontier s) @ dot @ humanAge (secs_duration (s_frontier_age s)) @ '' ago'')
      else [])"

definition card_peers :: "summary \<Rightarrow> string" where
  "card_peers s =
     line ''Peers'' (show_int (s_peers s) @ dot @ ''restarts '' @ show_int (s_restarts s) @
       (if s_uptime_seconds s > 0 then dot @ ''up '' @ humanAge (secs_duration (s_uptime_seconds s)) else []))"

definition card_pillar :: "summary \<Rightarrow> string" where
  "card_pillar s =
     (if s_pillar_name s = [] then []
      else if s_pillar_error s \<noteq> [] then line ''Pillar'' (s_pillar_name s @ '': '' @ s_pillar_error s)
      else line ''Pillar'' (s_pillar_name s @ '' rank '' @ show_int (s_pillar_rank s) @ dot @
             show_int (s_pillar_produced s) @ '' / '' @ show_int (s_pillar_expected s) @ '' produced this epoch''))"

definition card_node :: "summary \<Rightarrow> string" where
  "card_node s =
     line ''Node'' (join_with dot
       ((if s_node_version s \<noteq> []
         then [''znnd '' @ s_node_version s @ (if s_node_commit s \<noteq> [] then '' ('' @ s_node_commit s @ '')'' else [])]
         else []) @
        (if s_nomctl_version s \<noteq> [] then [''nomctl '' @ s_nomctl_version s] else [])))"

definition card_host :: "summary \<Rightarrow> string" where
  "card_host s =
     line ''Host'' (join_with dot
       ((if s_mem_total s > 0
         then [''load '' @ fmt_fixed 1 (s_load1 s), ''mem '' @ gb (s_mem_free s) @ '' / '' @ gb (s_mem_total s) @ '' free'']
         else []) @
        (if s_disk_total s > 0
         then [''disk '' @ gb (s_disk_free s) @ '' / '' @ gb (s_disk_total s) @ '' free ('' @
               show_int (wrap_u64 (s_disk_free s * 100) div s_disk_total s) @ ''%)'']
         else [])))"

definition card_process :: "summary \<Rightarrow> string" where
  "card_process s =
     (if s_rss s > 0
      then line ''Process'' (''cpu '' @ fmt_fixed 0 (s_cpu_percent s) @ ''%'' @ dot @ ''rss '' @ gb (s_rss s)) else [])"

definition card_update :: "summary \<Rightarrow> string" where
  "card_update s =
     line ''Update'' (join_with dot
       ((if s_nomctl_update s \<noteq> [] then [''nomctl '' @ trim_prefix (s_nomctl_update s) ''v'' @ '' available''] else []) @
        (if s_node_update s then [''go-zenon has new commits''] else [])))"

definition NodeCard :: "node \<Rightarrow> time \<Rightarrow> string" where
  "NodeCard n now =
     (let s = n_summary n in
      card_head n now @
      (if s_state s = [] then []
       else line ''Sync'' (syncText s) @ card_frontier s @ card_peers s @ card_pillar s @ card_node s @
            card_host s @ card_process s @ card_update s))"

section \<open>Properties\<close>

lemma commas_from_digits: "CHR '','' \<notin> set s \<Longrightarrow> filter (\<lambda>c. c \<noteq> CHR '','') (commas_from b s) = s"
  by (induction s arbitrary: b) auto

lemma show_uint_no_comma: "0 \<le> n \<Longrightarrow> CHR '','' \<notin> set (show_uint n)"
  using show_uint_digits[of n] by (auto simp: list_all_iff is_digit_def)

text \<open>Dropping the commas gives the digits back.\<close>

lemma commas_digits: "0 \<le> n \<Longrightarrow> filter (\<lambda>c. c \<noteq> CHR '','') (commas n) = show_uint n"
proof -
  assume "0 \<le> n"
  note nc = show_uint_no_comma[OF this]
  have "filter (\<lambda>c. c \<noteq> CHR '','') (show_uint n) = show_uint n"
    using nc by (auto simp: filter_id_conv)
  then show ?thesis using commas_from_digits[OF nc] by (simp add: commas_def Let_def)
qed

lemma md_ok_icons [simp]:
  "md_ok newline" "md_ok dot" "md_ok green_icon" "md_ok red_icon" "md_ok orange_icon" "md_ok info_icon"
  by (simp_all add: md_ok_def dot_def icon_defs special_char_def markdownV2Special_def backslash_def)

lemma md_ok_line [simp]: "md_ok (line label txt)"
  by (simp add: line_def md_ok_append md_ok_Cons special_defs)

lemma md_ok_card_head: "md_ok (card_head n now)"
  by (simp add: card_head_def Let_def md_ok_append md_ok_Cons special_defs)

text \<open>Whatever a node reports, its card is a message Telegram can parse.\<close>

lemma NodeCard_md_ok: "md_ok (NodeCard n now)"
  by (simp add: NodeCard_def Let_def md_ok_append md_ok_card_head card_frontier_def card_peers_def
      card_pillar_def card_node_def card_host_def card_process_def card_update_def)

end
