(* ===== verification/Rate_Limiter.thy ===== *)
theory Rate_Limiter
  imports Go_Time
begin

text \<open>
  \<^verbatim>\<open>rateLimiter\<close> of \<^verbatim>\<open>internal/relay/server.go\<close>: a fixed one-minute
  window per key, in a map whose size is bounded.  Shown: the invariant (no more keys than the bound,
  no count beyond the limit), what a call does to the other keys, that a key with budget left is not
  refused because of other keys, and how many calls any one minute can admit.
\<close>

record limiter =
  l_limit :: int
  l_last_sweep :: time
  l_counts :: "(string \<times> time \<times> int) list"

definition newRateLimiter :: "int \<Rightarrow> limiter" where
  "newRateLimiter perMinute = \<lparr> l_limit = perMinute, l_last_sweep = 0, l_counts = [] \<rparr>"

definition limiterMaxKeys :: int where "limiterMaxKeys = 10000"

text \<open>The sweep at a full map: at most once a minute, expired keys go.\<close>

definition sweep :: "time \<Rightarrow> limiter \<Rightarrow> limiter" where
  "sweep now r =
     (if time_sub now (l_last_sweep r) \<ge> minute
      then r\<lparr> l_last_sweep := now,
              l_counts := filter (\<lambda>(k, w, n). \<not> time_sub now w \<ge> minute) (l_counts r) \<rparr>
      else r)"

definition full :: "limiter \<Rightarrow> bool" where
  "full r \<longleftrightarrow> int (length (l_counts r)) \<ge> limiterMaxKeys"

text \<open>The count of a key under its window, once the key has a place in the map.\<close>

definition bump :: "time \<Rightarrow> string \<Rightarrow> time \<times> int \<Rightarrow> limiter \<Rightarrow> bool \<times> limiter" where
  "bump now key c r =
     (let (w, n) = (if time_sub now (fst c) \<ge> minute then (now, 0) else c) in
      if n \<ge> l_limit r then (False, r\<lparr> l_counts := AList.update key (w, n) (l_counts r) \<rparr>)
      else (True, r\<lparr> l_counts := AList.update key (w, n + 1) (l_counts r) \<rparr>))"

definition allow :: "time \<Rightarrow> string \<Rightarrow> limiter \<Rightarrow> bool \<times> limiter" where
  "allow now key r =
     (case map_of (l_counts r) key of
        Some c \<Rightarrow> bump now key c r
      | None \<Rightarrow>
          let r' = (if full r then sweep now r else r) in
          if full r' then (False, r') else bump now key (0, 0) r')"

section \<open>Invariant\<close>

definition lim_inv :: "limiter \<Rightarrow> bool" where
  "lim_inv r \<longleftrightarrow> 0 \<le> l_limit r \<and> keys_distinct (l_counts r) \<and> int (length (l_counts r)) \<le> limiterMaxKeys \<and>
     (\<forall>k w n. map_of (l_counts r) k = Some (w, n) \<longrightarrow> 0 \<le> n \<and> n \<le> l_limit r)"

lemma newRateLimiter_inv: "0 \<le> n \<Longrightarrow> lim_inv (newRateLimiter n)"
  by (simp add: lim_inv_def newRateLimiter_def limiterMaxKeys_def)

lemma length_update: "length (AList.update k v xs) = (if map_of xs k = None then Suc (length xs) else length xs)"
  by (induction xs) (auto split: if_splits)

lemma sweep_limit [simp]: "l_limit (sweep now r) = l_limit r"
  by (simp add: sweep_def)

lemma sweep_inv:
  assumes "lim_inv r"
  shows "lim_inv (sweep now r)"
proof -
  have le: "int (length (filter P xs)) \<le> int (length xs)" for P and xs :: "(string \<times> time \<times> int) list" by simp
  show ?thesis
    using assms order_trans[OF le, of "l_counts r" limiterMaxKeys]
    by (auto simp: lim_inv_def sweep_def keys_distinct_filter map_of_filter_distinct split: option.splits if_splits)
qed

lemma sweep_lookup:
  "lim_inv r \<Longrightarrow> map_of (l_counts (sweep now r)) k =
     (case map_of (l_counts r) k of None \<Rightarrow> None
      | Some (w, n) \<Rightarrow> if time_sub now (l_last_sweep r) \<ge> minute \<and> time_sub now w \<ge> minute then None else Some (w, n))"
  by (auto simp: sweep_def lim_inv_def map_of_filter_distinct split: option.splits)

lemma bump_cases:
  obtains (refused) "l_limit r \<le> (if time_sub now (fst c) \<ge> minute then 0 else snd c)"
      "bump now key c r = (False, r\<lparr> l_counts := AList.update key (if time_sub now (fst c) \<ge> minute then (now, 0) else c) (l_counts r) \<rparr>)"
  | (fresh) "time_sub now (fst c) \<ge> minute" "0 < l_limit r"
      "bump now key c r = (True, r\<lparr> l_counts := AList.update key (now, 1) (l_counts r) \<rparr>)"
  | (counted) "time_sub now (fst c) < minute" "snd c < l_limit r"
      "bump now key c r = (True, r\<lparr> l_counts := AList.update key (fst c, snd c + 1) (l_counts r) \<rparr>)"
proof (cases c)
  case (Pair w n)
  show ?thesis
  proof (cases "minute \<le> time_sub now w")
    case True
    with Pair refused fresh show ?thesis by (cases "l_limit r \<le> 0") (auto simp: bump_def)
  next
    case False
    with Pair refused counted show ?thesis by (cases "l_limit r \<le> n") (auto simp: bump_def)
  qed
qed

lemma update_inv:
  assumes "lim_inv r" "map_of (l_counts r) key \<noteq> None \<or> \<not> full r" "0 \<le> n" "n \<le> l_limit r"
  shows "lim_inv (r\<lparr> l_counts := AList.update key (w, n) (l_counts r) \<rparr>)"
  using assms by (auto simp: lim_inv_def full_def distinct_update length_update update_conv')

lemma bump_inv:
  assumes "lim_inv r" "map_of (l_counts r) key \<noteq> None \<or> \<not> full r" "0 \<le> snd c" "snd c \<le> l_limit r"
  shows "lim_inv (snd (bump now key c r))"
proof -
  have "0 \<le> l_limit r" using assms(1) by (simp add: lim_inv_def)
  then show ?thesis
    using assms by (cases rule: bump_cases[of r now c key]) (cases c; simp add: update_inv)+
qed

lemma allow_cases:
  obtains (known) c where "map_of (l_counts r) key = Some c" "allow now key r = bump now key c r"
  | (new) r' where "r' = r \<or> r' = sweep now r" "map_of (l_counts r) key = None" "\<not> full r'"
      "allow now key r = bump now key (0, 0) r'"
  | (full) r' where "r' = sweep now r" "map_of (l_counts r) key = None" "allow now key r = (False, r')"
proof (cases "map_of (l_counts r) key")
  case None
  consider "\<not> full r" | "full r" "full (sweep now r)" | "full r" "\<not> full (sweep now r)" by blast
  then show ?thesis using None new full by cases (auto simp: allow_def Let_def)
qed (use known in \<open>auto simp: allow_def\<close>)

lemma allow_inv: "lim_inv r \<Longrightarrow> lim_inv (snd (allow now key r))"
proof (cases rule: allow_cases[of r key now])
  case (known c)
  assume "lim_inv r"
  moreover from this known have "0 \<le> snd c" "snd c \<le> l_limit r" by (cases c; auto simp: lim_inv_def)+
  ultimately show ?thesis using known by (simp add: bump_inv)
next
  case (new r')
  assume "lim_inv r"
  with new have "lim_inv r'" by (auto simp: sweep_inv)
  moreover from this have "0 \<le> l_limit r'" by (simp add: lim_inv_def)
  ultimately show ?thesis using new by (simp add: bump_inv)
qed (simp add: sweep_inv)

lemma allow_limit [simp]: "l_limit (snd (allow now key r)) = l_limit r"
proof -
  have "l_limit (snd (bump now key c r')) = l_limit r'" for c r' by (cases rule: bump_cases[of r' now c key]) auto
  then show ?thesis by (cases rule: allow_cases[of r key now]) auto
qed

lemma lim_invD: "lim_inv r \<Longrightarrow> map_of (l_counts r) key = Some (w, n) \<Longrightarrow> 0 \<le> n \<and> n \<le> l_limit r"
  by (simp add: lim_inv_def)

section \<open>Other keys\<close>

text \<open>A call leaves the other keys alone, except that the sweep may drop one whose window is over.\<close>

lemma bump_other: "k \<noteq> key \<Longrightarrow> map_of (l_counts (snd (bump now key c r))) k = map_of (l_counts r) k"
  by (auto simp: bump_def Let_def update_conv' split: prod.splits)

lemma allow_other:
  assumes "lim_inv r" "k \<noteq> key"
  shows "map_of (l_counts (snd (allow now key r))) k = map_of (l_counts r) k \<or>
    map_of (l_counts (snd (allow now key r))) k = None \<and>
    (\<exists>w n. map_of (l_counts r) k = Some (w, n) \<and> time_sub now w \<ge> minute)"
  using assms(2) sweep_lookup[OF assms(1), of now k]
  by (auto simp: allow_def Let_def bump_other split: option.splits if_splits)

text \<open>The outcome for a key that is in the map depends on its own entry only.\<close>

lemma allow_known:
  "map_of (l_counts r) key = Some (w, n) \<Longrightarrow>
     fst (allow now key r) \<longleftrightarrow> (if time_sub now w \<ge> minute then 0 < l_limit r else n < l_limit r)"
  by (auto simp: allow_def bump_def Let_def)

section \<open>One minute\<close>

text \<open>A run of calls: how many of those for \<open>key\<close> are admitted.\<close>

fun admitted :: "string \<Rightarrow> (time \<times> string) list \<Rightarrow> limiter \<Rightarrow> int" where
  "admitted key [] r = 0"
| "admitted key ((now, k) # cs) r =
     (case allow now k r of (ok, r') \<Rightarrow> (if ok \<and> k = key then 1 else 0) + admitted key cs r')"

text \<open>
  What has been admitted since \<open>t\<close> is covered by the entry of the key: either its window began before
  \<open>t\<close> and the count includes all of it, or it began since, and at most one full window came before.
\<close>

definition covered :: "string \<Rightarrow> time \<Rightarrow> int \<Rightarrow> limiter \<Rightarrow> bool" where
  "covered key t cnt r \<longleftrightarrow>
     (case map_of (l_counts r) key of
        None \<Rightarrow> cnt \<le> l_limit r
      | Some (w, n) \<Rightarrow> if t \<le> w then cnt \<le> l_limit r + n else cnt \<le> n)"

lemma covered_le: "lim_inv r \<Longrightarrow> covered key t cnt r \<Longrightarrow> cnt \<le> 2 * l_limit r"
  by (fastforce simp: covered_def lim_inv_def split: option.splits if_splits)

lemma sub_ge_minute: "minute \<le> time_sub now w \<longleftrightarrow> minute \<le> now - w"
  by (simp add: time_sub_ge minute_def max_int64_def min_int64_def)

lemma covered_other:
  assumes "lim_inv r" "k \<noteq> key" "covered key t cnt r" "now < t + minute"
  shows "covered key t cnt (snd (allow now k r))"
proof (cases "map_of (l_counts (snd (allow now k r))) key = map_of (l_counts r) key")
  case True
  with assms(3) show ?thesis unfolding covered_def by (simp only: allow_limit)
next
  case False
  with allow_other[OF assms(1) assms(2)[symmetric], of now] obtain w n
    where g: "map_of (l_counts (snd (allow now k r))) key = None" "map_of (l_counts r) key = Some (w, n)"
      "minute \<le> now - w" by (auto simp: sub_ge_minute)
  with assms have "cnt \<le> n" "n \<le> l_limit r" by (auto simp: covered_def lim_inv_def split: if_splits)
  with g show ?thesis by (simp add: covered_def)
qed

lemma covered_bump:
  assumes "lim_inv r" "covered key t cnt r" "t \<le> now" "now < t + minute" "minute \<le> now"
    and "c = (case map_of (l_counts r) key of None \<Rightarrow> (0, 0) | Some c \<Rightarrow> c)"
  shows "covered key t (cnt + (if fst (bump now key c r) then 1 else 0)) (snd (bump now key c r))"
proof -
  obtain w n where c: "c = (w, n)" by (cases c)
  have n: "0 \<le> n" "n \<le> l_limit r" and cnt: "cnt \<le> l_limit r + n" "w < t \<Longrightarrow> cnt \<le> l_limit r"
    and old: "w < t \<Longrightarrow> w \<noteq> 0 \<Longrightarrow> cnt \<le> n" and zero: "w = 0 \<Longrightarrow> minute \<le> now - w"
    using assms(2,5,6) c lim_invD[OF assms(1), of key w n] assms(1)[unfolded lim_inv_def, THEN conjunct1]
    by (auto simp: covered_def split: option.splits if_splits)
  show ?thesis
  proof (cases rule: bump_cases[of r now c key])
    case refused
    then show ?thesis
      using assms(3,4) c n cnt old zero by (auto simp: covered_def sub_ge_minute update_conv' split: if_splits)
  next
    case fresh
    then show ?thesis
      using assms(3,4) c n cnt old zero by (auto simp: covered_def sub_ge_minute update_conv')
  next
    case counted
    then have "w \<noteq> 0" using zero c sub_ge_minute[of now w] by auto
    with counted show ?thesis
      using assms(3,4) c n cnt old zero by (auto simp: covered_def sub_ge_minute update_conv')
  qed
qed

lemma sweep_none: "lim_inv r \<Longrightarrow> map_of (l_counts r) k = None \<Longrightarrow> map_of (l_counts (sweep now r)) k = None"
  by (simp add: sweep_lookup)

lemma covered_self:
  assumes "lim_inv r" "covered key t cnt r" "t \<le> now" "now < t + minute" "minute \<le> now"
  shows "covered key t (cnt + (if fst (allow now key r) then 1 else 0)) (snd (allow now key r))"
proof (cases "map_of (l_counts r) key")
  case (Some c)
  with covered_bump[OF assms] show ?thesis by (simp add: allow_def)
next
  case None
  let ?r = "if full r then sweep now r else r"
  have r: "lim_inv ?r" "map_of (l_counts ?r) key = None" "covered key t cnt ?r"
    using assms None by (auto simp: sweep_inv sweep_none covered_def)
  show ?thesis
  proof (cases "full ?r")
    case True
    with None r show ?thesis by (simp add: allow_def Let_def)
  next
    case False
    with None r covered_bump[OF r(1,3) assms(3-5), of "(0, 0)"] show ?thesis by (simp add: allow_def Let_def)
  qed
qed

lemma covered_run:
  assumes "lim_inv r" "covered key t cnt r" "\<forall>(now, k) \<in> set cs. t \<le> now \<and> now < t + minute" "minute \<le> t"
  shows "cnt + admitted key cs r \<le> 2 * l_limit r"
  using assms
proof (induction cs arbitrary: r cnt)
  case Nil
  then show ?case by (simp add: covered_le)
next
  case (Cons c cs)
  obtain now k where c: "c = (now, k)" by (cases c)
  obtain ok r' where al: "allow now k r = (ok, r')" by (cases "allow now k r")
  have r': "lim_inv r'" "l_limit r' = l_limit r"
    using allow_inv[OF Cons.prems(1), of now k] allow_limit[of now k r] al by simp_all
  have now: "t \<le> now" "now < t + minute" "minute \<le> now" using Cons.prems c by auto
  have "covered key t (cnt + (if ok \<and> k = key then 1 else 0)) r'"
  proof (cases "k = key")
    case True
    with covered_self[OF Cons.prems(1,2) now] al show ?thesis by simp
  next
    case False
    with covered_other[OF Cons.prems(1) False Cons.prems(2) now(2)] al show ?thesis by simp
  qed
  from Cons.IH[OF r'(1) this] Cons.prems r' c al show ?case by (simp add: add.assoc)
qed

end
