(* ===== verification/Relay_Server.thy ===== *)
theory Relay_Server
  imports Relay_Net Relay_Card Rate_Limiter
begin

text \<open>
  \<^verbatim>\<open>internal/relay/server.go\<close>: the relay's state, delivery of alerts, the request
  handlers, the silence check.  The state is polymorphic in the store, whose operations are a
  parameter as the Go interface is.  Telegram answers from a script (\<open>sv_replies\<close>, success when it
  has run out) and every send is logged with its answer.  A request is handled at one clock reading
  \<open>now\<close>.  The notice that \<^verbatim>\<open>notify\<close> posts a minute after a burst is an event of its
  own (\<open>send_notice\<close>), due for the chats in \<open>sv_notices\<close>.
\<close>

section \<open>State\<close>

text \<open>\<open>o_public_host\<close> is the host that \<^verbatim>\<open>net/url\<close> finds in the public URL, empty when it finds none.\<close>

record options =
  o_silent_after :: duration
  o_public_url :: string
  o_public_host :: string
  o_trusted :: "ip_net list"

record 's server =
  sv_store :: 's
  sv_node_limit :: limiter
  sv_admit_limit :: limiter
  sv_pair_limit :: limiter
  sv_chat_limit :: limiter
  sv_suppressed :: "(int \<times> int) list"
  sv_notices :: "int list"
  sv_replies :: "tg_error option list"
  sv_sent :: "(int \<times> string \<times> tg_error option) list"

definition CodeTTL :: duration where "CodeTTL = 10 * minute"
definition ReminderEvery :: duration where "ReminderEvery = 10 * minute"
definition MaxBody :: int where "MaxBody = 65536"
definition nodeRatePerMin :: int where "nodeRatePerMin = 60"
definition admitRatePerMin :: int where "admitRatePerMin = 120"
definition pairRatePerMin :: int where "pairRatePerMin = 10"
definition chatRatePerMin :: int where "chatRatePerMin = 20"
definition defaultSilentGap :: duration where "defaultSilentGap = 5 * minute"

text \<open>\<open>NewServer\<close> fills in the default gap; the clock is the argument of every operation.\<close>

definition NewServer :: "'s \<Rightarrow> tg_error option list \<Rightarrow> options \<Rightarrow> 's server \<times> options" where
  "NewServer store replies opts =
     (\<lparr> sv_store = store,
        sv_node_limit = newRateLimiter nodeRatePerMin,
        sv_admit_limit = newRateLimiter admitRatePerMin,
        sv_pair_limit = newRateLimiter pairRatePerMin,
        sv_chat_limit = newRateLimiter chatRatePerMin,
        sv_suppressed = [], sv_notices = [], sv_replies = replies, sv_sent = [] \<rparr>,
      if o_silent_after opts = 0 then opts\<lparr> o_silent_after := defaultSilentGap \<rparr> else opts)"

text \<open>One call of the sender.\<close>

definition tg_send :: "int \<Rightarrow> string \<Rightarrow> 's server \<Rightarrow> tg_error option \<times> 's server" where
  "tg_send chat msg sv =
     (let (r, rs) = (case sv_replies sv of [] \<Rightarrow> (None, []) | r # rs \<Rightarrow> (r, rs)) in
      (r, sv\<lparr> sv_replies := rs, sv_sent := (chat, msg, r) # sv_sent sv \<rparr>))"

text \<open>One call of the store.\<close>

definition on_store :: "('s \<Rightarrow> 'r \<times> 's) \<Rightarrow> 's server \<Rightarrow> 'r \<times> 's server" where
  "on_store f sv = (case f (sv_store sv) of (r, s') \<Rightarrow> (r, sv\<lparr> sv_store := s' \<rparr>))"

section \<open>Delivery\<close>

datatype deliver_error =
    ChatBlocked
  | ChatRateLimited
  | SendFailed tg_error
  | LastSentLookup store_error
  | MuteLookup store_error
  | RecordLastSent store_error

definition notify :: "'s store_ops \<Rightarrow> time \<Rightarrow> node \<Rightarrow> string \<Rightarrow> 's server \<Rightarrow> deliver_error option \<times> 's server" where
  "notify ops now node msg sv =
     (if n_blocked node then (Some ChatBlocked, sv)
      else
        let (ok, lim) = allow now (show_int (n_chat node)) (sv_chat_limit sv);
            sv1 = sv\<lparr> sv_chat_limit := lim \<rparr> in
        if \<not> ok then
          let n = (case map_of (sv_suppressed sv1) (n_chat node) of None \<Rightarrow> 0 | Some k \<Rightarrow> k) + 1;
              sv2 = sv1\<lparr> sv_suppressed := AList.update (n_chat node) n (sv_suppressed sv1) \<rparr>
          in (Some ChatRateLimited, if n = 1 then sv2\<lparr> sv_notices := n_chat node # sv_notices sv2 \<rparr> else sv2)
        else
          case tg_send (n_chat node) msg sv1 of
            (None, sv2) \<Rightarrow> (None, sv2)
          | (Some e, sv2) \<Rightarrow>
              if e = ErrBlocked
              then (Some ChatBlocked, snd (on_store (UpdateNode ops (node\<lparr> n_blocked := True \<rparr>)) sv2))
              else (Some (SendFailed e), sv2))"

text \<open>A minute after the first suppressed message of a burst.\<close>

definition send_notice :: "int \<Rightarrow> 's server \<Rightarrow> 's server" where
  "send_notice chat sv =
     (let count = (case map_of (sv_suppressed sv) chat of None \<Rightarrow> 0 | Some k \<Rightarrow> k);
          sv1 = sv\<lparr> sv_suppressed := AList.delete chat (sv_suppressed sv), sv_notices := remove1 chat (sv_notices sv) \<rparr>
      in snd (tg_send chat (Escape (warning_icon @ '' '' @ show_int count @
                '' alerts suppressed in the last minute (rate limit).'')) sv1))"

definition alert_icon :: "alert_request \<Rightarrow> string" where
  "alert_icon a =
     (if ar_state a = OK then green_icon
      else if ar_state a = Firing \<and> ar_severity a = Critical then red_icon
      else if ar_state a = Firing then orange_icon else info_icon)"

definition FormatMessage :: "node \<Rightarrow> alert_request \<Rightarrow> string" where
  "FormatMessage node a =
     alert_icon a @ '' '' @ Bold (n_name node) @ '' '' @ middot @ '' '' @ Escape (ar_title a) @
     (if ar_detail a \<noteq> [] then newline @ Escape (ar_detail a) else []) @
     newline @ Escape (''host '' @ n_host node @ '' '' @ middot @ '' '' @ format_minute_utc (ar_at a))"

text \<open>What the delivery rules say about an alert, given the last one sent.\<close>

definition suppressed_by_rules :: "time \<Rightarrow> state \<Rightarrow> state \<times> time \<Rightarrow> bool" where
  "suppressed_by_rules now st ls =
     (let unchanged = (st = fst ls) in
      if unchanged \<and> st = OK then True
      else if unchanged \<and> time_sub now (snd ls) < ReminderEvery then True
      else st = OK \<and> fst ls = [])"

definition deliver :: "'s store_ops \<Rightarrow> time \<Rightarrow> node \<Rightarrow> alert_request \<Rightarrow> 's server \<Rightarrow> deliver_error option \<times> 's server" where
  "deliver ops now node a sv =
     (if ar_state a = Info then notify ops now node (FormatMessage node a) sv
      else
        case on_store (LastSent ops (n_id node) (ar_alert a)) sv of
          (Inl e, sv1) \<Rightarrow> (Some (LastSentLookup e), sv1)
        | (Inr ls, sv1) \<Rightarrow>
            if suppressed_by_rules now (ar_state a) ls then (None, sv1)
            else
              case on_store (Muted ops (n_id node) (ar_alert a) now) sv1 of
                (Inl e, sv2) \<Rightarrow> (Some (MuteLookup e), sv2)
              | (Inr muted, sv2) \<Rightarrow>
                  case (if muted then (None, sv2) else notify ops now node (FormatMessage node a) sv2) of
                    (Some e, sv3) \<Rightarrow> (Some e, sv3)
                  | (None, sv3) \<Rightarrow>
                      case on_store (SetLastSent ops (n_id node) (ar_alert a) (ar_state a) now) sv3 of
                        (Some e, sv4) \<Rightarrow> (Some (RecordLastSent e), sv4)
                      | (None, sv4) \<Rightarrow> (None, sv4))"

text \<open>\<^verbatim>\<open>clearBlocked\<close>: errors are ignored, node by node.\<close>

fun unblock_all :: "'s store_ops \<Rightarrow> node list \<Rightarrow> 's server \<Rightarrow> 's server" where
  "unblock_all ops [] sv = sv"
| "unblock_all ops (n # ns) sv =
     unblock_all ops ns
       (if n_blocked n then snd (on_store (UpdateNode ops (n\<lparr> n_blocked := False \<rparr>)) sv) else sv)"

definition clearBlocked :: "'s store_ops \<Rightarrow> int \<Rightarrow> 's server \<Rightarrow> 's server" where
  "clearBlocked ops chat sv =
     (case on_store (ListNodes ops chat) sv of
        (Inl e, sv1) \<Rightarrow> sv1
      | (Inr ns, sv1) \<Rightarrow> unblock_all ops ns sv1)"

section \<open>Requests\<close>

text \<open>
  What a handler reads of a request: the peer address, the first \<^verbatim>\<open>X-Forwarded-For\<close>
  value, the three signing headers (empty when missing), the body (\<open>None\<close> when reading it failed).
\<close>

record request =
  rq_remote :: string
  rq_xff :: string
  rq_node :: string
  rq_timestamp :: string
  rq_signature :: string
  rq_body :: "bytes option"

datatype reply_body = NoBody | TextBody string | ErrorBody string | PairBody pair_response

type_synonym reply = "int \<times> reply_body"

text \<open>Code outside the repository: HMAC-SHA256 and the JSON decoding of the three bodies.\<close>

record env =
  e_hmac :: "bytes \<Rightarrow> bytes \<Rightarrow> bytes"
  e_pair :: "bytes \<Rightarrow> pair_request option"
  e_alert :: "bytes \<Rightarrow> alert_request option"
  e_heartbeat :: "bytes \<Rightarrow> heartbeat_request option"
  e_version :: string

definition writeError :: "int \<Rightarrow> string \<Rightarrow> reply" where
  "writeError status msg = (status, ErrorBody msg)"

definition readBody :: "request \<Rightarrow> (reply, bytes) result" where
  "readBody rq =
     (case rq_body rq of
        None \<Rightarrow> Inl (writeError 413 ''body too large'')
      | Some b \<Rightarrow> if int (length b) > MaxBody then Inl (writeError 413 ''body too large'') else Inr b)"

subsection \<open>Pairing\<close>

definition codeAlphabet :: string where "codeAlphabet = ''ABCDEFGHJKLMNPQRSTUVWXYZ23456789''"

text \<open>The random bytes are arguments.\<close>

definition NewCode :: "bytes \<Rightarrow> string" where
  "NewCode rnd = map (\<lambda>b. codeAlphabet ! (of_char b mod length codeAlphabet)) rnd"

definition newNodeID :: "bytes \<Rightarrow> string" where
  "newNodeID rnd = ''n_'' @ hex_encode rnd"

definition name_rune :: "rune \<Rightarrow> bool" where
  "name_rune r \<longleftrightarrow> (97 \<le> r \<and> r \<le> 122) \<or> (65 \<le> r \<and> r \<le> 90) \<or> (48 \<le> r \<and> r \<le> 57) \<or> r = 45 \<or> r = 95 \<or> r = 46"

definition validName :: "string \<Rightarrow> bool" where
  "validName name \<longleftrightarrow> name \<noteq> [] \<and> length name \<le> 32 \<and> list_all (\<lambda>(r, _). name_rune r) (chunks name)"

definition paired_text :: "node \<Rightarrow> string" where
  "paired_text n = info_icon @ '' '' @ Bold (n_name n) @ '' paired and reporting from host '' @ Code (n_host n) @ backslash # ''.''"

definition name_taken_text :: "string \<Rightarrow> string" where
  "name_taken_text name = ''a node named '' @ go_quote name @
     '' is already paired to this chat; choose another name (the code was consumed, send /start again)''"

definition handlePair ::
  "env \<Rightarrow> options \<Rightarrow> 's store_ops \<Rightarrow> time \<Rightarrow> bytes \<Rightarrow> bytes \<Rightarrow> request \<Rightarrow> 's server \<Rightarrow> reply \<times> 's server" where
  "handlePair env opts ops now rnd_id rnd_secret rq sv =
     (let (ok, lim) = allow now (clientIP (o_trusted opts) (rq_remote rq) (rq_xff rq)) (sv_pair_limit sv);
          sv1 = sv\<lparr> sv_pair_limit := lim \<rparr> in
      if \<not> ok then (writeError 429 ''too many pairing attempts; try again in a minute'', sv1)
      else case readBody rq of Inl e \<Rightarrow> (e, sv1) | Inr body \<Rightarrow>
      case e_pair env body of None \<Rightarrow> (writeError 400 ''bad json'', sv1) | Some req \<Rightarrow>
      let code = to_upper (trim_space (pr_code req)) in
      if \<not> validName (pr_name req)
      then (writeError 400 (''name must be 1-32 characters: letters, digits, '' @ [CHR 0x27] @ ''-'' @ [CHR 0x27] @ '', '' @
              [CHR 0x27] @ ''_'' @ [CHR 0x27] @ '' or '' @ [CHR 0x27] @ ''.'' @ [CHR 0x27]), sv1)
      else case on_store (ConsumeCode ops code now) sv1 of
        (Inl e, sv2) \<Rightarrow>
          (if e = ErrCodeInvalid
           then writeError 400 ''pairing code is invalid or expired; send /start to the bot for a new one''
           else writeError 500 ''store error'', sv2)
      | (Inr chat, sv2) \<Rightarrow>
          let node = \<lparr> n_id = newNodeID rnd_id, n_chat = chat, n_name = pr_name req, n_host = pr_host req,
                       n_version = pr_version req, n_secret = rnd_secret, n_created = now, n_last_seen = now,
                       n_silent = False, n_blocked = False, n_summary = empty_summary \<rparr> in
          case on_store (CreateNode ops node) sv2 of
            (Some e, sv3) \<Rightarrow>
              (if e = ErrNameTaken then writeError 409 (name_taken_text (pr_name req))
               else writeError 500 ''store error'', sv3)
          | (None, sv3) \<Rightarrow>
              ((200, PairBody \<lparr> ps_node_id = n_id node, ps_secret = base64_encode (n_secret node),
                                ps_relay_version = e_version env \<rparr>),
               snd (notify ops now node (paired_text node) sv3)))"

subsection \<open>Signed requests\<close>

definition hex_lower :: "char \<Rightarrow> bool" where
  "hex_lower c \<longleftrightarrow> is_digit c \<or> 97 \<le> byte_val c \<and> byte_val c \<le> 102"

definition validNodeID :: "string \<Rightarrow> bool" where
  "validNodeID i \<longleftrightarrow> length i = 18 \<and> take 2 i = ''n_'' \<and> list_all hex_lower (drop 2 i)"

definition sign_error_text :: "sign_error \<Rightarrow> string" where
  "sign_error_text e = (case e of ErrStale \<Rightarrow> ''request timestamp outside the replay window''
                        | ErrBadSignature \<Rightarrow> ''bad signature'')"

type_synonym 's handler = "node \<Rightarrow> bytes \<Rightarrow> 's server \<Rightarrow> reply \<times> 's server"

definition silent_info :: alert_info where
  "silent_info = (case Lookup ''node_silent'' of Some i \<Rightarrow> i | None \<Rightarrow> kind [] [] [] [])"

definition recovery_alert :: "time \<Rightarrow> alert_request" where
  "recovery_alert now =
     \<lparr> ar_alert = ''node_silent'', ar_state = OK, ar_severity = ai_severity silent_info,
       ar_title = ai_ok_title silent_info, ar_detail = [], ar_at = now \<rparr>"

text \<open>The checks before a request is proven to come from its node: the node, or the refusal.\<close>

definition authenticate ::
  "env \<Rightarrow> options \<Rightarrow> 's store_ops \<Rightarrow> time \<Rightarrow> request \<Rightarrow> 's server \<Rightarrow> (reply, node \<times> bytes) result \<times> 's server" where
  "authenticate env opts ops now rq sv =
     (let (ok, lim) = allow now (clientIP (o_trusted opts) (rq_remote rq) (rq_xff rq)) (sv_admit_limit sv);
          sv1 = sv\<lparr> sv_admit_limit := lim \<rparr> in
      if \<not> ok then (Inl (writeError 429 ''rate limited''), sv1)
      else if \<not> validNodeID (rq_node rq) then (Inl (writeError 401 ''missing node id''), sv1)
      else case readBody rq of Inl e \<Rightarrow> (Inl e, sv1) | Inr body \<Rightarrow>
      case on_store (GetNode ops (rq_node rq)) sv1 of
        (Inl e, sv2) \<Rightarrow>
          (Inl (if e = ErrNotFound then writeError 401 UnknownNodeMessage else writeError 500 ''store error''), sv2)
      | (Inr node, sv2) \<Rightarrow>
          case parse_int (rq_timestamp rq) of None \<Rightarrow> (Inl (writeError 401 ''bad timestamp''), sv2) | Some ts \<Rightarrow>
          case Verify (e_hmac env) (n_secret node) ts body (rq_signature rq) now of
            Some e \<Rightarrow> (Inl (writeError 401 (sign_error_text e)), sv2)
          | None \<Rightarrow>
              let (ok, lim) = allow now (n_id node) (sv_node_limit sv2); sv3 = sv2\<lparr> sv_node_limit := lim \<rparr> in
              if \<not> ok then (Inl (writeError 429 ''rate limited''), sv3) else (Inr (node, body), sv3))"

definition authed ::
  "env \<Rightarrow> options \<Rightarrow> 's store_ops \<Rightarrow> time \<Rightarrow> 's handler \<Rightarrow> request \<Rightarrow> 's server \<Rightarrow> reply \<times> 's server" where
  "authed env opts ops now h rq sv =
     (case authenticate env opts ops now rq sv of
        (Inl e, sv1) \<Rightarrow> (e, sv1)
      | (Inr (stored, body), sv1) \<Rightarrow>
          let wasSilent = n_silent stored; node = stored\<lparr> n_last_seen := now, n_silent := False \<rparr> in
          case on_store (UpdateNode ops node) sv1 of
            (Some e, sv2) \<Rightarrow> (writeError 500 ''store error'', sv2)
          | (None, sv2) \<Rightarrow>
              if wasSilent then
                (case deliver ops now node (recovery_alert now) sv2 of
                   (None, sv3) \<Rightarrow> h node body sv3
                 | (Some e, sv3) \<Rightarrow>
                     let node' = node\<lparr> n_silent := True \<rparr> in
                     h node' body (snd (on_store (UpdateNode ops node') sv3)))
              else h node body sv2)"

definition handleAlert :: "env \<Rightarrow> 's store_ops \<Rightarrow> time \<Rightarrow> 's handler" where
  "handleAlert env ops now node body sv =
     (case e_alert env body of
        None \<Rightarrow> (writeError 400 ''bad alert'', sv)
      | Some req \<Rightarrow>
          if \<not> ValidAlert req then (writeError 400 ''bad alert'', sv)
          else
            let req' = (if is_zero (ar_at req) then req\<lparr> ar_at := now \<rparr> else req) in
            case deliver ops now node req' sv of
              (Some e, sv1) \<Rightarrow> (writeError 502 ''delivery failed'', sv1)
            | (None, sv1) \<Rightarrow> ((204, NoBody), sv1))"

definition handleHeartbeat :: "env \<Rightarrow> 's store_ops \<Rightarrow> 's handler" where
  "handleHeartbeat env ops node body sv =
     (case e_heartbeat env body of
        None \<Rightarrow> (writeError 400 ''bad heartbeat'', sv)
      | Some req \<Rightarrow>
          case on_store (UpdateNode ops (node\<lparr> n_summary := hb_summary req \<rparr>)) sv of
            (Some e, sv1) \<Rightarrow> (writeError 500 ''store error'', sv1)
          | (None, sv1) \<Rightarrow> ((204, NoBody), sv1))"

definition unpaired_text :: "node \<Rightarrow> string" where
  "unpaired_text n = info_icon @ '' '' @ Bold (n_name n) @ '' unpaired'' @ backslash # ''.''"

definition handleUnpair :: "'s store_ops \<Rightarrow> time \<Rightarrow> 's handler" where
  "handleUnpair ops now node body sv =
     (case on_store (DeleteNode ops (n_id node)) sv of
        (e, sv1) \<Rightarrow>
          if e \<noteq> None \<and> e \<noteq> Some ErrNotFound then (writeError 500 ''store error'', sv1)
          else ((204, NoBody), snd (notify ops now node (unpaired_text node) sv1)))"

section \<open>Silence\<close>

definition silent_alert :: "time \<Rightarrow> node \<Rightarrow> alert_request" where
  "silent_alert now n =
     \<lparr> ar_alert = ''node_silent'', ar_state = Firing, ar_severity = ai_severity silent_info,
       ar_title = ai_title silent_info,
       ar_detail = ''no heartbeat for '' @ duration_string (round_second (time_sub now (n_last_seen n))) @
         '' (last seen '' @ format_clock_utc (n_last_seen n) @ '')'',
       ar_at = now \<rparr>"

fun raise_silent :: "'s store_ops \<Rightarrow> time \<Rightarrow> node list \<Rightarrow> 's server \<Rightarrow> 's server" where
  "raise_silent ops now [] sv = sv"
| "raise_silent ops now (n # ns) sv =
     (case deliver ops now n (silent_alert now n) sv of
        (Some e, sv1) \<Rightarrow> raise_silent ops now ns sv1
      | (None, sv1) \<Rightarrow> raise_silent ops now ns (snd (on_store (UpdateNode ops (n\<lparr> n_silent := True \<rparr>)) sv1)))"

definition CheckSilent :: "options \<Rightarrow> 's store_ops \<Rightarrow> time \<Rightarrow> 's server \<Rightarrow> store_error option \<times> 's server" where
  "CheckSilent opts ops now sv =
     (case on_store (SilentCandidates ops (time_add now (- o_silent_after opts))) sv of
        (Inl e, sv1) \<Rightarrow> (Some e, sv1)
      | (Inr ns, sv1) \<Rightarrow> (None, raise_silent ops now ns sv1))"

section \<open>Routes\<close>

text \<open>
  \<^verbatim>\<open>Handler\<close>: the routes by method and path.  What the mux answers itself is 404 for an
  unknown path and 405 for a known one with another method (a GET route also takes HEAD).
\<close>

definition Handler ::
  "env \<Rightarrow> options \<Rightarrow> 's store_ops \<Rightarrow> time \<Rightarrow> bytes \<Rightarrow> bytes \<Rightarrow> string \<Rightarrow> string \<Rightarrow> request \<Rightarrow> 's server \<Rightarrow> reply \<times> 's server" where
  "Handler env opts ops now rnd_id rnd_secret verb path rq sv =
     (if path = ''/healthz'' then
        (if verb = ''GET'' \<or> verb = ''HEAD'' then ((200, TextBody (''ok'' @ newline)), sv) else ((405, NoBody), sv))
      else if path = ''/v1/pair'' then
        (if verb = ''POST'' then handlePair env opts ops now rnd_id rnd_secret rq sv else ((405, NoBody), sv))
      else if path = ''/v1/alert'' then
        (if verb = ''POST'' then authed env opts ops now (handleAlert env ops now) rq sv else ((405, NoBody), sv))
      else if path = ''/v1/heartbeat'' then
        (if verb = ''POST'' then authed env opts ops now (handleHeartbeat env ops) rq sv else ((405, NoBody), sv))
      else if path = ''/v1/unpair'' then
        (if verb = ''POST'' then authed env opts ops now (handleUnpair ops now) rq sv else ((405, NoBody), sv))
      else ((404, NoBody), sv))"

end
