(* ===== verification/Relay_Memory.thy ===== *)
theory Relay_Memory
  imports Relay_Store
begin

text \<open>
  \<^verbatim>\<open>memoryStore\<close> of \<^verbatim>\<open>internal/relay/store.go\<close>: four Go maps, mutes and
  last-sent records under the key \<open>node id, NUL, alert\<close>.  It meets the contract of \<open>relay_store\<close>
  with nothing rounded and no failure.
\<close>

section \<open>State\<close>

record memory_store =
  m_codes :: "(string \<times> code_rec) list"
  m_nodes :: "(string \<times> node) list"
  m_mutes :: "(string \<times> time) list"
  m_last_sent :: "(string \<times> state \<times> time) list"

definition NewMemoryStore :: memory_store where
  "NewMemoryStore = \<lparr> m_codes = [], m_nodes = [], m_mutes = [], m_last_sent = [] \<rparr>"

definition key :: "string \<Rightarrow> string \<Rightarrow> string" where
  "key nodeID alert = nodeID @ CHR 0x00 # alert"

section \<open>Operations\<close>

definition mem_CreateCode :: "time \<Rightarrow> int \<Rightarrow> string \<Rightarrow> time \<Rightarrow> memory_store \<Rightarrow> store_error option \<times> memory_store" where
  "mem_CreateCode wall chatID code expires m =
     (let unused = length (filter (\<lambda>(k, c). c_chat c = chatID \<and> \<not> c_used c \<and> after (c_expires c) wall) (m_codes m)) in
      if unused \<ge> MaxCodesPerChat then (Some ErrTooManyCodes, m)
      else (None, m\<lparr> m_codes := AList.update code \<lparr> c_chat = chatID, c_expires = expires, c_used = False \<rparr> (m_codes m) \<rparr>))"

definition mem_ConsumeCode :: "string \<Rightarrow> time \<Rightarrow> memory_store \<Rightarrow> (store_error, int) result \<times> memory_store" where
  "mem_ConsumeCode code now m =
     (case map_of (m_codes m) code of
        None \<Rightarrow> (Inl ErrCodeInvalid, m)
      | Some c \<Rightarrow>
          if c_used c \<or> \<not> after (c_expires c) now then (Inl ErrCodeInvalid, m)
          else (Inr (c_chat c), m\<lparr> m_codes := AList.update code (c\<lparr> c_used := True \<rparr>) (m_codes m) \<rparr>))"

definition mem_CreateNode :: "node \<Rightarrow> memory_store \<Rightarrow> store_error option \<times> memory_store" where
  "mem_CreateNode n m =
     (if \<exists>(_, other) \<in> set (m_nodes m). n_chat other = n_chat n \<and> n_name other = n_name n
      then (Some ErrNameTaken, m)
      else (None, m\<lparr> m_nodes := AList.update (n_id n) n (m_nodes m) \<rparr>))"

definition mem_GetNode :: "string \<Rightarrow> memory_store \<Rightarrow> (store_error, node) result \<times> memory_store" where
  "mem_GetNode i m = (case map_of (m_nodes m) i of None \<Rightarrow> (Inl ErrNotFound, m) | Some n \<Rightarrow> (Inr n, m))"

definition mem_ListNodes :: "int \<Rightarrow> memory_store \<Rightarrow> (store_error, node list) result \<times> memory_store" where
  "mem_ListNodes chatID m =
     (Inr (sort_key n_name (filter (\<lambda>n. n_chat n = chatID) (map snd (m_nodes m)))), m)"

definition mem_UpdateNode :: "node \<Rightarrow> memory_store \<Rightarrow> store_error option \<times> memory_store" where
  "mem_UpdateNode n m =
     (if map_of (m_nodes m) (n_id n) = None then (Some ErrNotFound, m)
      else (None, m\<lparr> m_nodes := AList.update (n_id n) n (m_nodes m) \<rparr>))"

text \<open>The keys of one node: longer than the id, starting with it, a NUL after it.\<close>

definition key_of_node :: "string \<Rightarrow> string \<Rightarrow> bool" where
  "key_of_node i k \<longleftrightarrow> length k > length i \<and> take (length i) k = i \<and> k ! length i = CHR 0x00"

definition mem_DeleteNode :: "string \<Rightarrow> memory_store \<Rightarrow> store_error option \<times> memory_store" where
  "mem_DeleteNode i m =
     (if map_of (m_nodes m) i = None then (Some ErrNotFound, m)
      else (None, m\<lparr> m_nodes := AList.delete i (m_nodes m),
                     m_mutes := filter (\<lambda>(k, _). \<not> key_of_node i k) (m_mutes m),
                     m_last_sent := filter (\<lambda>(k, _). \<not> key_of_node i k) (m_last_sent m) \<rparr>))"

definition mem_SilentCandidates :: "time \<Rightarrow> memory_store \<Rightarrow> (store_error, node list) result \<times> memory_store" where
  "mem_SilentCandidates bef m =
     (Inr (sort_key n_id (filter (\<lambda>n. \<not> n_silent n \<and> before (n_last_seen n) bef) (map snd (m_nodes m)))), m)"

definition mem_SetMute :: "mute \<Rightarrow> memory_store \<Rightarrow> store_error option \<times> memory_store" where
  "mem_SetMute mu m = (None, m\<lparr> m_mutes := AList.update (key (mu_node mu) (mu_alert mu)) (mu_until mu) (m_mutes m) \<rparr>)"

definition mem_ClearMute :: "string \<Rightarrow> string \<Rightarrow> memory_store \<Rightarrow> store_error option \<times> memory_store" where
  "mem_ClearMute nodeID alert m = (None, m\<lparr> m_mutes := AList.delete (key nodeID alert) (m_mutes m) \<rparr>)"

definition mem_Muted :: "string \<Rightarrow> string \<Rightarrow> time \<Rightarrow> memory_store \<Rightarrow> (store_error, bool) result \<times> memory_store" where
  "mem_Muted nodeID alert now m =
     (Inr (\<exists>k \<in> set [key nodeID alert, key nodeID ''all''].
             case map_of (m_mutes m) k of None \<Rightarrow> False | Some until \<Rightarrow> after until now), m)"

definition mem_LastSent :: "string \<Rightarrow> string \<Rightarrow> memory_store \<Rightarrow> (store_error, state \<times> time) result \<times> memory_store" where
  "mem_LastSent nodeID alert m =
     (case map_of (m_last_sent m) (key nodeID alert) of None \<Rightarrow> (Inr ([], 0), m) | Some ls \<Rightarrow> (Inr ls, m))"

definition mem_SetLastSent ::
  "string \<Rightarrow> string \<Rightarrow> state \<Rightarrow> time \<Rightarrow> memory_store \<Rightarrow> store_error option \<times> memory_store" where
  "mem_SetLastSent nodeID alert st t m =
     (None, m\<lparr> m_last_sent := AList.update (key nodeID alert) (st, t) (m_last_sent m) \<rparr>)"

lemmas mem_defs = mem_CreateCode_def mem_ConsumeCode_def mem_CreateNode_def mem_GetNode_def
  mem_ListNodes_def mem_UpdateNode_def mem_DeleteNode_def mem_SilentCandidates_def mem_SetMute_def
  mem_ClearMute_def mem_Muted_def mem_LastSent_def mem_SetLastSent_def

definition memory_ops :: "memory_store store_ops" where
  "memory_ops =
     \<lparr> CreateCode = mem_CreateCode, ConsumeCode = mem_ConsumeCode, CreateNode = mem_CreateNode,
       GetNode = mem_GetNode, ListNodes = mem_ListNodes, UpdateNode = mem_UpdateNode,
       DeleteNode = mem_DeleteNode, SilentCandidates = mem_SilentCandidates, SetMute = mem_SetMute,
       ClearMute = mem_ClearMute, Muted = mem_Muted, LastSent = mem_LastSent,
       SetLastSent = mem_SetLastSent \<rparr>"

section \<open>Invariant and abstraction\<close>

definition mem_inv :: "memory_store \<Rightarrow> bool" where
  "mem_inv m \<longleftrightarrow> keys_distinct (m_codes m) \<and> keys_distinct (m_nodes m) \<and>
     keys_distinct (m_mutes m) \<and> keys_distinct (m_last_sent m) \<and>
     ids_match (map_of (m_nodes m)) \<and> names_unique (map_of (m_nodes m)) \<and>
     (\<forall>i n. map_of (m_nodes m) i = Some n \<longrightarrow> node_ok n)"

definition mem_abs :: "memory_store \<Rightarrow> store_abs" where
  "mem_abs m =
     \<lparr> a_nodes = map_of (m_nodes m), a_codes = map_of (m_codes m),
       a_mutes = (\<lambda>(i, al). map_of (m_mutes m) (key i al)),
       a_sent = (\<lambda>(i, al). map_of (m_last_sent m) (key i al)) \<rparr>"

lemma mem_abs_simps [simp]:
  "a_nodes (mem_abs m) = map_of (m_nodes m)" "a_codes (mem_abs m) = map_of (m_codes m)"
  "a_mutes (mem_abs m) (i, al) = map_of (m_mutes m) (key i al)"
  "a_sent (mem_abs m) (i, al) = map_of (m_last_sent m) (key i al)"
  by (simp_all add: mem_abs_def)

lemma key_inj: "id_ok i \<Longrightarrow> id_ok j \<Longrightarrow> key i a = key j b \<longleftrightarrow> i = j \<and> a = b"
proof -
  assume ok: "id_ok i" "id_ok j"
  have cut: "cut_on (CHR 0x00) (key i a) = (i, a, True)" if "id_ok i" for i a
    using that unfolding key_def id_ok_def by (rule cut_on_found)
  show ?thesis
  proof
    assume "key i a = key j b"
    then have "(i, a, True) = (j, b, True)" using cut[OF ok(1)] cut[OF ok(2)] by metis
    then show "i = j \<and> a = b" by simp
  qed simp
qed

lemma key_of_node_key: "id_ok i \<Longrightarrow> id_ok j \<Longrightarrow> key_of_node i (key j a) \<longleftrightarrow> i = j"
proof
  assume ok: "id_ok i" "id_ok j" and k: "key_of_node i (key j a)"
  from k obtain b where "key j a = key i b"
    unfolding key_of_node_def key_def by (metis id_take_nth_drop)
  with ok show "i = j" by (simp add: key_inj)
qed (simp add: key_of_node_def key_def)

lemma after_iff: "after t u \<longleftrightarrow> u < t" by (simp add: after_def)

section \<open>The contract\<close>

lemma mem_create_code:
  assumes "mem_inv s" "mem_CreateCode wall chat code expires s = (e, s')"
  shows "mem_inv s' \<and> create_code_spec (\<lambda>t. t) wall chat code expires (mem_abs s) e (mem_abs s') \<and> e \<noteq> Some DbErr"
proof -
  have "card (unused_codes wall chat (map_of (m_codes s))) =
      length (filter (\<lambda>(k, c). c_chat c = chat \<and> \<not> c_used c \<and> after (c_expires c) wall) (m_codes s))"
    using card_alist[of "m_codes s" "\<lambda>c. c_chat c = chat \<and> \<not> c_used c \<and> wall < c_expires c"] assms(1)
    by (simp add: unused_codes_def mem_inv_def after_iff)
  then show ?thesis
    using assms
    by (auto simp: mem_CreateCode_def mem_inv_def create_code_spec_def mem_abs_def Let_def
        distinct_update update_conv' split: if_splits)
qed

lemma mem_consume_code:
  assumes "mem_inv s" "mem_ConsumeCode code now s = (r, s')"
  shows "mem_inv s' \<and> consume_code_spec (\<lambda>t. t) code now (mem_abs s) r (mem_abs s') \<and> r \<noteq> Inl DbErr"
  using assms
  by (auto simp: mem_ConsumeCode_def mem_inv_def consume_code_spec_def mem_abs_def codes_cleaned_def after_iff
      distinct_update update_conv' split: if_splits option.splits)

lemma mem_create_node:
  assumes inv: "mem_inv s" and ok: "node_ok n" and new: "map_of (m_nodes s) (n_id n) = None"
    and step: "mem_CreateNode n s = (e, s')"
  shows "mem_inv s' \<and> create_node_spec (\<lambda>n. n) n (mem_abs s) e (mem_abs s') \<and> e \<noteq> Some DbErr"
proof (cases "\<exists>(_, other) \<in> set (m_nodes s). n_chat other = n_chat n \<and> n_name other = n_name n")
  case True
  with step have r: "e = Some ErrNameTaken" "s' = s" by (auto simp: mem_CreateNode_def)
  from True obtain j m where "(j, m) \<in> set (m_nodes s)" "n_chat m = n_chat n" "n_name m = n_name n" by auto
  moreover from this inv have "map_of (m_nodes s) j = Some m" by (simp add: mem_inv_def)
  ultimately show ?thesis using r inv by (auto simp: create_node_spec_def)
next
  case False
  with step have r: "e = None" "s' = s\<lparr> m_nodes := AList.update (n_id n) n (m_nodes s) \<rparr>"
    by (auto simp: mem_CreateNode_def)
  have free: "n_chat m \<noteq> n_chat n \<or> n_name m \<noteq> n_name n" if "map_of (m_nodes s) j = Some m" for j m
    using False map_of_SomeD[OF that] by auto
  have "names_unique ((map_of (m_nodes s))(n_id n \<mapsto> n))"
    using inv free by (intro names_unique_insert) (auto simp: mem_inv_def)
  then show ?thesis
    using r inv ok free
    by (auto simp: mem_inv_def create_node_spec_def mem_abs_def update_conv' distinct_update
        intro: ids_match_update)
qed

lemma mem_update_node:
  assumes inv: "mem_inv s" and ok: "node_ok n"
    and same: "\<And>m. map_of (m_nodes s) (n_id n) = Some m \<Longrightarrow> same_identity n m"
    and step: "mem_UpdateNode n s = (e, s')"
  shows "mem_inv s' \<and> update_node_spec (\<lambda>n. n) n (mem_abs s) e (mem_abs s') \<and> e \<noteq> Some DbErr"
proof (cases "map_of (m_nodes s) (n_id n)")
  case None
  with step inv show ?thesis by (auto simp: mem_UpdateNode_def update_node_spec_def)
next
  case (Some m)
  with step have r: "e = None" "s' = s\<lparr> m_nodes := AList.update (n_id n) n (m_nodes s) \<rparr>"
    by (auto simp: mem_UpdateNode_def)
  have "names_unique ((map_of (m_nodes s))(n_id n \<mapsto> n))"
    using inv Some same[OF Some] by (intro names_unique_update) (auto simp: mem_inv_def same_identity_def)
  then show ?thesis
    using r inv ok Some
    by (auto simp: mem_inv_def update_node_spec_def mem_abs_def update_conv' distinct_update
        intro: ids_match_update)
qed

lemma mem_get_node:
  assumes "mem_inv s" "mem_GetNode i s = (r, s')"
  shows "mem_inv s' \<and> get_node_spec i (mem_abs s) r (mem_abs s') \<and> r \<noteq> Inl DbErr"
  using assms by (auto simp: mem_GetNode_def get_node_spec_def split: option.splits)

lemma mem_nodes_ran: "mem_inv s \<Longrightarrow> ran (map_of (m_nodes s)) = set (map snd (m_nodes s))"
  by (simp add: mem_inv_def ran_alist)

lemma mem_nodes_distinct: "mem_inv s \<Longrightarrow> distinct (map snd (m_nodes s))"
proof -
  assume inv: "mem_inv s"
  have "n_id n = i" if "(i, n) \<in> set (m_nodes s)" for i n
    using that inv by (auto simp: mem_inv_def ids_match_def)
  then have "map fst (m_nodes s) = map n_id (map snd (m_nodes s))" by auto
  with inv have "distinct (map n_id (map snd (m_nodes s)))" by (simp add: mem_inv_def)
  then show ?thesis by (simp only: distinct_map)
qed

lemma mem_list_nodes:
  assumes "mem_inv s" "mem_ListNodes chat s = (r, s')"
  shows "mem_inv s' \<and> list_nodes_spec chat (mem_abs s) r (mem_abs s') \<and> r \<noteq> Inl DbErr"
  using assms mem_nodes_ran[OF assms(1)] mem_nodes_distinct[OF assms(1)]
  by (auto simp: mem_ListNodes_def list_nodes_spec_def)

lemma mem_silent_candidates:
  assumes "mem_inv s" "mem_SilentCandidates bef s = (r, s')"
  shows "mem_inv s' \<and> silent_candidates_spec (\<lambda>t. t) bef (mem_abs s) r (mem_abs s') \<and> r \<noteq> Inl DbErr"
  using assms mem_nodes_ran[OF assms(1)] mem_nodes_distinct[OF assms(1)]
  by (auto simp: mem_SilentCandidates_def silent_candidates_spec_def before_def)

lemma mem_delete_node:
  assumes "mem_inv s" "id_ok i" "mem_DeleteNode i s = (e, s')"
  shows "mem_inv s' \<and> delete_node_spec i (mem_abs s) e (mem_abs s') \<and> e \<noteq> Some DbErr"
proof (cases "map_of (m_nodes s) i")
  case None
  with assms show ?thesis by (auto simp: mem_DeleteNode_def delete_node_spec_def)
next
  case (Some n)
  with assms show ?thesis
    by (auto simp: mem_DeleteNode_def delete_node_spec_def mem_inv_def mem_abs_def delete_conv'
        distinct_delete keys_distinct_filter map_of_filter_keys key_of_node_key
        intro: ids_match_delete names_unique_delete split: if_splits)
qed

lemma mem_set_mute:
  assumes "mem_inv s" "id_ok (mu_node m)" "mem_SetMute m s = (e, s')"
  shows "mem_inv s' \<and> set_mute_spec (\<lambda>t. t) m (mem_abs s) e (mem_abs s') \<and> e \<noteq> Some DbErr"
  using assms
  by (auto simp: mem_SetMute_def set_mute_spec_def mem_inv_def mem_abs_def update_conv' distinct_update key_inj)

lemma mem_clear_mute:
  assumes "mem_inv s" "id_ok i" "mem_ClearMute i alert s = (e, s')"
  shows "mem_inv s' \<and> clear_mute_spec i alert (mem_abs s) e (mem_abs s') \<and> e \<noteq> Some DbErr"
  using assms
  by (auto simp: mem_ClearMute_def clear_mute_spec_def mem_inv_def mem_abs_def delete_conv' distinct_delete key_inj)

lemma mem_muted:
  assumes "mem_inv s" "mem_Muted i alert now s = (r, s')"
  shows "mem_inv s' \<and> muted_spec (\<lambda>t. t) i alert now (mem_abs s) r (mem_abs s') \<and> r \<noteq> Inl DbErr"
  using assms
  by (auto simp: mem_Muted_def muted_spec_def mute_active_def after_iff split: option.splits)

lemma mem_last_sent:
  assumes "mem_inv s" "mem_LastSent i alert s = (r, s')"
  shows "mem_inv s' \<and> last_sent_spec i alert (mem_abs s) r (mem_abs s') \<and> r \<noteq> Inl DbErr"
  using assms
  by (auto simp: mem_LastSent_def last_sent_spec_def last_sent_of_def split: option.splits)

lemma mem_set_last_sent:
  assumes "mem_inv s" "id_ok i" "mem_SetLastSent i alert st t s = (e, s')"
  shows "mem_inv s' \<and> set_last_sent_spec (\<lambda>t. t) i alert st t (mem_abs s) e (mem_abs s') \<and> e \<noteq> Some DbErr"
  using assms
  by (auto simp: mem_SetLastSent_def set_last_sent_spec_def mem_inv_def mem_abs_def update_conv' distinct_update key_inj)

lemma memory_ops_simps:
  "CreateCode memory_ops = mem_CreateCode" "ConsumeCode memory_ops = mem_ConsumeCode"
  "CreateNode memory_ops = mem_CreateNode" "GetNode memory_ops = mem_GetNode"
  "ListNodes memory_ops = mem_ListNodes" "UpdateNode memory_ops = mem_UpdateNode"
  "DeleteNode memory_ops = mem_DeleteNode" "SilentCandidates memory_ops = mem_SilentCandidates"
  "SetMute memory_ops = mem_SetMute" "ClearMute memory_ops = mem_ClearMute"
  "Muted memory_ops = mem_Muted" "LastSent memory_ops = mem_LastSent"
  "SetLastSent memory_ops = mem_SetLastSent"
  by (simp_all add: memory_ops_def)

lemmas memory_contract = mem_create_code mem_consume_code mem_create_node mem_get_node mem_list_nodes
  mem_update_node mem_delete_node mem_silent_candidates mem_set_mute mem_clear_mute mem_muted
  mem_last_sent mem_set_last_sent

lemma mem_inv_nodes:
  "mem_inv s \<Longrightarrow> ids_match (map_of (m_nodes s))" "mem_inv s \<Longrightarrow> names_unique (map_of (m_nodes s))"
  "mem_inv s \<Longrightarrow> map_of (m_nodes s) i = Some n \<Longrightarrow> node_ok n"
  by (auto simp: mem_inv_def)

interpretation mem: relay_store memory_ops mem_inv mem_abs "\<lambda>t. t" "\<lambda>n. n" "\<lambda>_. True"
  by (unfold_locales; (simp add: memory_ops_simps mem_inv_nodes mem_abs_simps(1) second_def; fail)?)
     (simp only: memory_ops_simps mem_abs_simps(1), blast dest: memory_contract)+

end
