(* ===== verification/Relay_Sqlite.thy ===== *)
theory Relay_Sqlite
  imports Relay_Store
begin

text \<open>
  \<^verbatim>\<open>sqliteStore\<close> of \<^verbatim>\<open>internal/relay/sqlite.go\<close>.  A table is a list of
  rows keyed by its primary key; times are columns of Unix seconds; the \<^verbatim>\<open>UNIQUE\<close>
  constraint of the schema is checked where a statement could break it.  Every SQL statement is one
  step that may fail: the faults of the driver are a script in the state, consumed one per statement,
  so that a method that issues several statements can fail between any two of them.  The summary
  column holds what reading back its JSON text gives: the summary itself, or the zero summary when a
  number in it is not finite and \<^verbatim>\<open>json.Marshal\<close> refuses it.
\<close>

section \<open>Tables\<close>

record code_row =
  cr_chat_id :: int
  cr_expires :: int
  cr_used :: bool

record node_row =
  nr_chat_id :: int
  nr_name :: string
  nr_host :: string
  nr_version :: string
  nr_secret :: bytes
  nr_created :: int
  nr_last_seen :: int
  nr_silent :: bool
  nr_blocked :: bool
  nr_summary :: summary

record sqlite_store =
  q_codes :: "(string \<times> code_row) list"
  q_nodes :: "(string \<times> node_row) list"
  q_mutes :: "((string \<times> string) \<times> int) list"
  q_last_sent :: "((string \<times> string) \<times> state \<times> int) list"
  q_faults :: "bool list"

definition sqlite_empty :: "bool list \<Rightarrow> sqlite_store" where
  "sqlite_empty faults = \<lparr> q_codes = [], q_nodes = [], q_mutes = [], q_last_sent = [], q_faults = faults \<rparr>"

text \<open>One statement reaches the database: whether it fails there.\<close>

definition stmt :: "sqlite_store \<Rightarrow> bool \<times> sqlite_store" where
  "stmt s = (case q_faults s of [] \<Rightarrow> (False, s) | f # fs \<Rightarrow> (f, s\<lparr> q_faults := fs \<rparr>))"

fun finite_float :: "float64 \<Rightarrow> bool" where
  "finite_float (Fin _) = True"
| "finite_float _ = False"

definition json_summary :: "summary \<Rightarrow> summary" where
  "json_summary x =
     (if finite_float (s_momentum_rate x) \<and> finite_float (s_load1 x) \<and> finite_float (s_cpu_percent x)
      then x else empty_summary)"

definition scanNode :: "string \<Rightarrow> node_row \<Rightarrow> node" where
  "scanNode i r =
     \<lparr> n_id = i, n_chat = nr_chat_id r, n_name = nr_name r, n_host = nr_host r, n_version = nr_version r,
       n_secret = nr_secret r, n_created = time_unix (nr_created r), n_last_seen = time_unix (nr_last_seen r),
       n_silent = nr_silent r, n_blocked = nr_blocked r, n_summary = nr_summary r \<rparr>"

section \<open>Codes\<close>

definition sql_CreateCode :: "time \<Rightarrow> int \<Rightarrow> string \<Rightarrow> time \<Rightarrow> sqlite_store \<Rightarrow> store_error option \<times> sqlite_store" where
  "sql_CreateCode wall chatID code expires s =
     (let (f1, s1) = stmt s in
      if f1 then (Some DbErr, s1)
      else let unused = length (filter (\<lambda>(k, r). cr_chat_id r = chatID \<and> \<not> cr_used r \<and> cr_expires r > unix_of wall) (q_codes s1)) in
      if unused \<ge> MaxCodesPerChat then (Some ErrTooManyCodes, s1)
      else let (f2, s2) = stmt s1 in
      if f2 \<or> map_of (q_codes s2) code \<noteq> None then (Some DbErr, s2)
      else (None, s2\<lparr> q_codes := (code, \<lparr> cr_chat_id = chatID, cr_expires = unix_of expires, cr_used = False \<rparr>) # q_codes s2 \<rparr>))"

text \<open>The three statements of \<^verbatim>\<open>ConsumeCode\<close>, so that calls can also be interleaved
  between them: the lookup, the conditional update with its row count, the clean-up.\<close>

definition select_code :: "string \<Rightarrow> time \<Rightarrow> sqlite_store \<Rightarrow> (store_error, int) result \<times> sqlite_store" where
  "select_code code now s =
     (let (f, s1) = stmt s in
      if f then (Inl DbErr, s1)
      else case map_of (q_codes s1) code of
             None \<Rightarrow> (Inl ErrCodeInvalid, s1)
           | Some r \<Rightarrow> if \<not> cr_used r \<and> cr_expires r > unix_of now then (Inr (cr_chat_id r), s1)
                       else (Inl ErrCodeInvalid, s1))"

definition mark_used :: "string \<Rightarrow> sqlite_store \<Rightarrow> (store_error, nat) result \<times> sqlite_store" where
  "mark_used code s =
     (let (f, s1) = stmt s in
      if f then (Inl DbErr, s1)
      else case map_of (q_codes s1) code of
             None \<Rightarrow> (Inr 0, s1)
           | Some r \<Rightarrow> if cr_used r then (Inr 0, s1)
                       else (Inr 1, s1\<lparr> q_codes := AList.update code (r\<lparr> cr_used := True \<rparr>) (q_codes s1) \<rparr>))"

definition clean_codes :: "time \<Rightarrow> sqlite_store \<Rightarrow> sqlite_store" where
  "clean_codes now s =
     (let (f, s1) = stmt s in
      if f then s1
      else s1\<lparr> q_codes := filter (\<lambda>(k, r). \<not> cr_expires r < unix_of (time_add now (- (24 * hour)))) (q_codes s1) \<rparr>)"

definition sql_ConsumeCode :: "string \<Rightarrow> time \<Rightarrow> sqlite_store \<Rightarrow> (store_error, int) result \<times> sqlite_store" where
  "sql_ConsumeCode code now s =
     (case select_code code now s of
        (Inl e, s1) \<Rightarrow> (Inl e, s1)
      | (Inr chatID, s1) \<Rightarrow>
          (case mark_used code s1 of
             (Inl e, s2) \<Rightarrow> (Inl e, s2)
           | (Inr n, s2) \<Rightarrow> if n \<noteq> 1 then (Inl ErrCodeInvalid, s2) else (Inr chatID, clean_codes now s2)))"

section \<open>Nodes\<close>

definition name_conflict :: "string \<Rightarrow> int \<Rightarrow> string \<Rightarrow> (string \<times> node_row) list \<Rightarrow> bool" where
  "name_conflict i chatID name rows \<longleftrightarrow> (\<exists>(j, r) \<in> set rows. j \<noteq> i \<and> nr_chat_id r = chatID \<and> nr_name r = name)"

definition sql_CreateNode :: "node \<Rightarrow> sqlite_store \<Rightarrow> store_error option \<times> sqlite_store" where
  "sql_CreateNode n s =
     (let (f, s1) = stmt s in
      if f then (Some DbErr, s1)
      else if map_of (q_nodes s1) (n_id n) \<noteq> None \<or> name_conflict (n_id n) (n_chat n) (n_name n) (q_nodes s1)
      then (Some ErrNameTaken, s1)
      else (None, s1\<lparr> q_nodes := (n_id n,
              \<lparr> nr_chat_id = n_chat n, nr_name = n_name n, nr_host = n_host n, nr_version = n_version n,
                nr_secret = n_secret n, nr_created = unix_of (n_created n), nr_last_seen = unix_of (n_last_seen n),
                nr_silent = n_silent n, nr_blocked = n_blocked n, nr_summary = json_summary (n_summary n) \<rparr>) # q_nodes s1 \<rparr>))"

definition sql_GetNode :: "string \<Rightarrow> sqlite_store \<Rightarrow> (store_error, node) result \<times> sqlite_store" where
  "sql_GetNode i s =
     (let (f, s1) = stmt s in
      if f then (Inl DbErr, s1)
      else case map_of (q_nodes s1) i of None \<Rightarrow> (Inl ErrNotFound, s1) | Some r \<Rightarrow> (Inr (scanNode i r), s1))"

definition sql_ListNodes :: "int \<Rightarrow> sqlite_store \<Rightarrow> (store_error, node list) result \<times> sqlite_store" where
  "sql_ListNodes chatID s =
     (let (f, s1) = stmt s in
      if f then (Inl DbErr, s1)
      else (Inr (sort_key n_name (map (\<lambda>(i, r). scanNode i r) (filter (\<lambda>(i, r). nr_chat_id r = chatID) (q_nodes s1)))), s1))"

definition sql_UpdateNode :: "node \<Rightarrow> sqlite_store \<Rightarrow> store_error option \<times> sqlite_store" where
  "sql_UpdateNode n s =
     (let (f, s1) = stmt s in
      if f then (Some DbErr, s1)
      else case map_of (q_nodes s1) (n_id n) of
             None \<Rightarrow> (Some ErrNotFound, s1)
           | Some r \<Rightarrow>
               if name_conflict (n_id n) (nr_chat_id r) (n_name n) (q_nodes s1) then (Some DbErr, s1)
               else (None, s1\<lparr> q_nodes := AList.update (n_id n)
                       (r\<lparr> nr_name := n_name n, nr_host := n_host n, nr_version := n_version n,
                          nr_last_seen := unix_of (n_last_seen n), nr_silent := n_silent n,
                          nr_blocked := n_blocked n, nr_summary := json_summary (n_summary n) \<rparr>) (q_nodes s1) \<rparr>))"

definition sql_DeleteNode :: "string \<Rightarrow> sqlite_store \<Rightarrow> store_error option \<times> sqlite_store" where
  "sql_DeleteNode i s =
     (let (f1, s1) = stmt s in
      if f1 then (Some DbErr, s1)
      else if map_of (q_nodes s1) i = None then (Some ErrNotFound, s1)
      else let (f2, s2) = stmt (s1\<lparr> q_nodes := AList.delete i (q_nodes s1) \<rparr>);
               s2' = (if f2 then s2 else s2\<lparr> q_mutes := filter (\<lambda>(k, _). fst k \<noteq> i) (q_mutes s2) \<rparr>);
               (f3, s3) = stmt s2';
               s3' = (if f3 then s3 else s3\<lparr> q_last_sent := filter (\<lambda>(k, _). fst k \<noteq> i) (q_last_sent s3) \<rparr>)
           in (None, s3'))"

definition sql_SilentCandidates :: "time \<Rightarrow> sqlite_store \<Rightarrow> (store_error, node list) result \<times> sqlite_store" where
  "sql_SilentCandidates bef s =
     (let (f, s1) = stmt s in
      if f then (Inl DbErr, s1)
      else (Inr (sort_key n_id (map (\<lambda>(i, r). scanNode i r)
             (filter (\<lambda>(i, r). \<not> nr_silent r \<and> nr_last_seen r < unix_of bef) (q_nodes s1)))), s1))"

section \<open>Mutes and last-sent records\<close>

definition sql_SetMute :: "mute \<Rightarrow> sqlite_store \<Rightarrow> store_error option \<times> sqlite_store" where
  "sql_SetMute m s =
     (let (f, s1) = stmt s in
      if f then (Some DbErr, s1)
      else (None, s1\<lparr> q_mutes := AList.update (mu_node m, mu_alert m) (unix_of (mu_until m)) (q_mutes s1) \<rparr>))"

definition sql_ClearMute :: "string \<Rightarrow> string \<Rightarrow> sqlite_store \<Rightarrow> store_error option \<times> sqlite_store" where
  "sql_ClearMute nodeID alert s =
     (let (f, s1) = stmt s in
      if f then (Some DbErr, s1) else (None, s1\<lparr> q_mutes := AList.delete (nodeID, alert) (q_mutes s1) \<rparr>))"

definition sql_Muted :: "string \<Rightarrow> string \<Rightarrow> time \<Rightarrow> sqlite_store \<Rightarrow> (store_error, bool) result \<times> sqlite_store" where
  "sql_Muted nodeID alert now s =
     (let (f, s1) = stmt s in
      if f then (Inl DbErr, s1)
      else (Inr (filter (\<lambda>((i, al), until). i = nodeID \<and> al \<in> {alert, ''all''} \<and> until > unix_of now) (q_mutes s1) \<noteq> []), s1))"

definition sql_LastSent :: "string \<Rightarrow> string \<Rightarrow> sqlite_store \<Rightarrow> (store_error, state \<times> time) result \<times> sqlite_store" where
  "sql_LastSent nodeID alert s =
     (let (f, s1) = stmt s in
      if f then (Inl DbErr, s1)
      else case map_of (q_last_sent s1) (nodeID, alert) of
             None \<Rightarrow> (Inr ([], 0), s1) | Some (st, v) \<Rightarrow> (Inr (st, time_unix v), s1))"

definition sql_SetLastSent :: "string \<Rightarrow> string \<Rightarrow> state \<Rightarrow> time \<Rightarrow> sqlite_store \<Rightarrow> store_error option \<times> sqlite_store" where
  "sql_SetLastSent nodeID alert st t s =
     (let (f, s1) = stmt s in
      if f then (Some DbErr, s1)
      else (None, s1\<lparr> q_last_sent := AList.update (nodeID, alert) (st, unix_of t) (q_last_sent s1) \<rparr>))"

lemmas sql_defs = sql_CreateCode_def select_code_def mark_used_def clean_codes_def sql_ConsumeCode_def
  sql_CreateNode_def sql_GetNode_def sql_ListNodes_def sql_UpdateNode_def sql_DeleteNode_def
  sql_SilentCandidates_def sql_SetMute_def sql_ClearMute_def sql_Muted_def sql_LastSent_def
  sql_SetLastSent_def

definition sqlite_ops :: "sqlite_store store_ops" where
  "sqlite_ops =
     \<lparr> CreateCode = sql_CreateCode, ConsumeCode = sql_ConsumeCode, CreateNode = sql_CreateNode,
       GetNode = sql_GetNode, ListNodes = sql_ListNodes, UpdateNode = sql_UpdateNode,
       DeleteNode = sql_DeleteNode, SilentCandidates = sql_SilentCandidates, SetMute = sql_SetMute,
       ClearMute = sql_ClearMute, Muted = sql_Muted, LastSent = sql_LastSent,
       SetLastSent = sql_SetLastSent \<rparr>"

section \<open>Invariant and abstraction\<close>

text \<open>A column of seconds that reads back as the time it was written from, to the second.\<close>

definition sec_ok :: "int \<Rightarrow> bool" where
  "sec_ok v \<longleftrightarrow> in_int64 (v + unix_to_internal)"

definition trunc_sec :: "time \<Rightarrow> time" where
  "trunc_sec t = time_unix (unix_of t)"

definition keep_node :: "node \<Rightarrow> node" where
  "keep_node n = n\<lparr> n_created := trunc_sec (n_created n), n_last_seen := trunc_sec (n_last_seen n),
                    n_summary := json_summary (n_summary n) \<rparr>"

definition code_of_row :: "code_row \<Rightarrow> code_rec" where
  "code_of_row r = \<lparr> c_chat = cr_chat_id r, c_expires = time_unix (cr_expires r), c_used = cr_used r \<rparr>"

definition nodes_of :: "(string \<times> node_row) list \<Rightarrow> string \<Rightarrow> node option" where
  "nodes_of rows i = map_option (scanNode i) (map_of rows i)"

definition sql_inv :: "sqlite_store \<Rightarrow> bool" where
  "sql_inv s \<longleftrightarrow> keys_distinct (q_codes s) \<and> keys_distinct (q_nodes s) \<and>
     keys_distinct (q_mutes s) \<and> keys_distinct (q_last_sent s) \<and>
     (\<forall>k r. map_of (q_codes s) k = Some r \<longrightarrow> sec_ok (cr_expires r)) \<and>
     (\<forall>i r. map_of (q_nodes s) i = Some r \<longrightarrow> id_ok i \<and> sec_ok (nr_created r) \<and> sec_ok (nr_last_seen r)) \<and>
     (\<forall>k v. map_of (q_mutes s) k = Some v \<longrightarrow> sec_ok v) \<and>
     names_unique (nodes_of (q_nodes s))"

definition sql_abs :: "sqlite_store \<Rightarrow> store_abs" where
  "sql_abs s =
     \<lparr> a_nodes = nodes_of (q_nodes s),
       a_codes = (\<lambda>k. map_option code_of_row (map_of (q_codes s) k)),
       a_mutes = (\<lambda>k. map_option time_unix (map_of (q_mutes s) k)),
       a_sent = (\<lambda>k. map_option (\<lambda>(st, v). (st, time_unix v)) (map_of (q_last_sent s) k)) \<rparr>"

text \<open>No statement is going to fail.\<close>

definition sql_up :: "sqlite_store \<Rightarrow> bool" where
  "sql_up s \<longleftrightarrow> (\<forall>f \<in> set (q_faults s). \<not> f)"

lemma sql_abs_simps [simp]:
  "a_nodes (sql_abs s) = nodes_of (q_nodes s)"
  "a_codes (sql_abs s) k = map_option code_of_row (map_of (q_codes s) k)"
  "a_mutes (sql_abs s) m = map_option time_unix (map_of (q_mutes s) m)"
  "a_sent (sql_abs s) m = map_option (\<lambda>(st, v). (st, time_unix v)) (map_of (q_last_sent s) m)"
  by (simp_all add: sql_abs_def)

lemma sec_ok_unix_of: "time_ok t \<Longrightarrow> sec_ok (unix_of t)"
  by (simp add: sec_ok_def unix_of_def time_ok_def)

lemma time_unix_eq: "sec_ok v \<Longrightarrow> time_unix v = (v + unix_to_internal) * second"
  by (simp add: sec_ok_def time_unix_def wrap64_id)

lemma trunc_sec_eq: "time_ok t \<Longrightarrow> trunc_sec t = t div second * second"
  by (simp add: trunc_sec_def unix_roundtrip)

lemma time_unix_ok: "sec_ok v \<Longrightarrow> time_ok (time_unix v)"
  by (simp add: time_unix_eq time_ok_def sec_ok_def second_def)

lemma trunc_time_unix: "sec_ok v \<Longrightarrow> trunc_sec (time_unix v) = time_unix v"
  by (simp add: trunc_sec_def sec_ok_def unix_of_time_unix)

lemma time_unix_less: "sec_ok v \<Longrightarrow> sec_ok w \<Longrightarrow> time_unix v < time_unix w \<longleftrightarrow> v < w"
  by (simp add: time_unix_eq second_def)

lemma trunc_less: "time_ok t \<Longrightarrow> sec_ok v \<Longrightarrow> trunc_sec t < time_unix v \<longleftrightarrow> unix_of t < v"
  by (simp add: trunc_sec_def time_unix_less sec_ok_unix_of)

lemma less_trunc: "time_ok t \<Longrightarrow> sec_ok v \<Longrightarrow> time_unix v < trunc_sec t \<longleftrightarrow> v < unix_of t"
  by (simp add: trunc_sec_def time_unix_less sec_ok_unix_of)

lemma trunc_sec_ok: "time_ok t \<Longrightarrow> time_ok (trunc_sec t)"
  by (simp add: trunc_sec_def time_unix_ok sec_ok_unix_of)

lemma keep_node_fields [simp]:
  "n_id (keep_node n) = n_id n" "n_chat (keep_node n) = n_chat n" "n_name (keep_node n) = n_name n"
  "n_host (keep_node n) = n_host n" "n_version (keep_node n) = n_version n" "n_secret (keep_node n) = n_secret n"
  "n_silent (keep_node n) = n_silent n" "n_blocked (keep_node n) = n_blocked n"
  "n_created (keep_node n) = trunc_sec (n_created n)" "n_last_seen (keep_node n) = trunc_sec (n_last_seen n)"
  by (simp_all add: keep_node_def)

lemma stmt_frame:
  assumes "stmt s = (f, s1)"
  shows "q_codes s1 = q_codes s" "q_nodes s1 = q_nodes s" "q_mutes s1 = q_mutes s"
    "q_last_sent s1 = q_last_sent s" "sql_abs s1 = sql_abs s" "sql_inv s1 = sql_inv s"
    "sql_up s \<Longrightarrow> \<not> f \<and> sql_up s1"
  using assms by (auto simp: stmt_def sql_abs_def sql_inv_def sql_up_def split: list.splits)

lemma sql_up_updates [simp]:
  "sql_up (s\<lparr> q_codes := a \<rparr>) = sql_up s" "sql_up (s\<lparr> q_nodes := b \<rparr>) = sql_up s"
  "sql_up (s\<lparr> q_mutes := c \<rparr>) = sql_up s" "sql_up (s\<lparr> q_last_sent := d \<rparr>) = sql_up s"
  by (simp_all add: sql_up_def)

section \<open>The contract\<close>

lemma sql_create_code:
  assumes inv: "sql_inv s" and ok: "time_ok wall" "time_ok expires"
    and step: "sql_CreateCode wall chat code expires s = (e, s')"
  shows "sql_inv s' \<and> create_code_spec trunc_sec wall chat code expires (sql_abs s) e (sql_abs s') \<and>
     (sql_up s \<longrightarrow> sql_up s' \<and> (e = Some DbErr \<longrightarrow> a_codes (sql_abs s) code \<noteq> None))"
proof -
  obtain f1 s1 where s1: "stmt s = (f1, s1)" by (cases "stmt s")
  obtain f2 s2 where s2: "stmt s1 = (f2, s2)" by (cases "stmt s1")
  note fr = stmt_frame[OF s1] stmt_frame[OF s2]
  have eq: "unused_codes (trunc_sec wall) chat (a_codes (sql_abs s)) =
      {k. \<exists>r. map_of (q_codes s) k = Some r \<and> cr_chat_id r = chat \<and> \<not> cr_used r \<and> cr_expires r > unix_of wall}"
    using inv ok by (auto simp: unused_codes_def code_of_row_def sql_inv_def trunc_less)
  then have "card (unused_codes (trunc_sec wall) chat (a_codes (sql_abs s))) =
      length (filter (\<lambda>(k, r). cr_chat_id r = chat \<and> \<not> cr_used r \<and> cr_expires r > unix_of wall) (q_codes s))"
    using card_alist[of "q_codes s" "\<lambda>r. cr_chat_id r = chat \<and> \<not> cr_used r \<and> cr_expires r > unix_of wall"] inv
    by (simp add: sql_inv_def)
  then show ?thesis
    using step inv ok s1 s2 fr
    by (auto simp: sql_CreateCode_def create_code_spec_def sql_inv_def Let_def code_of_row_def trunc_sec_def
        sec_ok_unix_of map_of_eq_None_iff fun_eq_iff sql_abs_def split: if_splits)
qed

lemma select_code_step:
  assumes "select_code code now s = (r, s')"
  shows "q_codes s' = q_codes s \<and> sql_abs s' = sql_abs s \<and> sql_inv s' = sql_inv s \<and> (sql_up s \<longrightarrow> sql_up s') \<and>
     (case r of
        Inr chat \<Rightarrow> (\<exists>c. map_of (q_codes s) code = Some c \<and> cr_chat_id c = chat \<and> \<not> cr_used c \<and> unix_of now < cr_expires c)
      | Inl e \<Rightarrow> e \<in> {ErrCodeInvalid, DbErr} \<and> (sql_up s \<longrightarrow> e = ErrCodeInvalid) \<and>
          (e = ErrCodeInvalid \<longrightarrow> (\<forall>c. map_of (q_codes s) code = Some c \<longrightarrow> cr_used c \<or> cr_expires c \<le> unix_of now)))"
proof -
  obtain f s1 where s1: "stmt s = (f, s1)" by (cases "stmt s")
  with stmt_frame[OF s1] assms show ?thesis
    by (auto simp: select_code_def split: if_splits option.splits)
qed

text \<open>The conditional update reports one row exactly when it turned the code from unused to used.\<close>

lemma mark_used_step:
  assumes "mark_used code s = (r, s')" "sql_inv s"
  shows "sql_inv s' \<and> (sql_up s \<longrightarrow> sql_up s') \<and>
     q_nodes s' = q_nodes s \<and> q_mutes s' = q_mutes s \<and> q_last_sent s' = q_last_sent s \<and>
     (case r of
        Inl e \<Rightarrow> e = DbErr \<and> \<not> sql_up s \<and> q_codes s' = q_codes s
      | Inr n \<Rightarrow> if n = 1
          then (\<exists>c. map_of (q_codes s) code = Some c \<and> \<not> cr_used c \<and>
                 map_of (q_codes s') = (map_of (q_codes s))(code \<mapsto> c\<lparr> cr_used := True \<rparr>))
          else q_codes s' = q_codes s \<and> (\<forall>c. map_of (q_codes s) code = Some c \<longrightarrow> cr_used c))"
proof -
  obtain f s1 where s1: "stmt s = (f, s1)" by (cases "stmt s")
  with stmt_frame[OF s1] assms show ?thesis
    by (auto simp: mark_used_def sql_inv_def update_conv' distinct_update split: if_splits option.splits)
qed

lemma clean_codes_step:
  assumes "sql_inv s" "clock_ok now"
  shows "sql_inv (clean_codes now s) \<and> (sql_up s \<longrightarrow> sql_up (clean_codes now s)) \<and>
     q_nodes (clean_codes now s) = q_nodes s \<and> q_mutes (clean_codes now s) = q_mutes s \<and>
     q_last_sent (clean_codes now s) = q_last_sent s \<and>
     (\<forall>k. map_of (q_codes (clean_codes now s)) k = map_of (q_codes s) k \<or>
        map_of (q_codes (clean_codes now s)) k = None \<and>
        (\<exists>c. map_of (q_codes s) k = Some c \<and> cr_expires c < unix_of now))"
proof -
  obtain f s1 where s1: "stmt s = (f, s1)" by (cases "stmt s")
  have hz: "unix_of (time_add now (- (24 * hour))) \<le> unix_of now"
    by (rule unix_of_mono) (simp add: time_add_def hour_def)
  from s1 stmt_frame[OF s1] assms hz show ?thesis
    by (auto simp: clean_codes_def sql_inv_def map_of_filter_distinct keys_distinct_filter split: option.splits)
qed

lemma sql_consume_code:
  assumes inv: "sql_inv s" and ok: "clock_ok now" and step: "sql_ConsumeCode code now s = (r, s')"
  shows "sql_inv s' \<and> consume_code_spec trunc_sec code now (sql_abs s) r (sql_abs s') \<and>
     (sql_up s \<longrightarrow> sql_up s' \<and> r \<noteq> Inl DbErr)"
proof -
  obtain r1 s1 where s1: "select_code code now s = (r1, s1)" by (cases "select_code code now s")
  note st1 = select_code_step[OF s1]
  note ok' = clock_ok_time_ok[OF ok]
  have ex: "sec_ok (cr_expires c)" if "map_of (q_codes s) k = Some c" for k c
    using inv that by (auto simp: sql_inv_def)
  show ?thesis
  proof (cases r1)
    case (Inl e)
    with step s1 st1 inv ex ok' show ?thesis
      by (auto simp: sql_ConsumeCode_def consume_code_spec_def code_of_row_def trunc_less not_less[symmetric])
  next
    case (Inr chat)
    with st1 obtain c where c: "map_of (q_codes s) code = Some c" "cr_chat_id c = chat" "\<not> cr_used c" "unix_of now < cr_expires c"
      and q1: "q_codes s1 = q_codes s" "sql_abs s1 = sql_abs s" "sql_inv s1" "sql_up s \<longrightarrow> sql_up s1"
      using inv by auto
    obtain r2 s2 where s2: "mark_used code s1 = (r2, s2)" by (cases "mark_used code s1")
    note st2 = mark_used_step[OF s2 q1(3)]
    show ?thesis
    proof (cases "r2 = Inr 1")
      case True
      with step s1 s2 Inr have r: "r = Inr chat" "s' = clean_codes now s2" by (auto simp: sql_ConsumeCode_def)
      from st2 True have inv2: "sql_inv s2" by simp
      from st2 True c q1 have m2: "map_of (q_codes s2) = (map_of (q_codes s))(code \<mapsto> c\<lparr> cr_used := True \<rparr>)" by auto
      note st3 = clean_codes_step[OF inv2 ok]
      from st3 have each: "map_of (q_codes s') k = map_of (q_codes s2) k \<or> map_of (q_codes s') k = None \<and>
        (\<exists>d. map_of (q_codes s2) k = Some d \<and> cr_expires d < unix_of now)" for k
        unfolding r(2) by blast
      have cl: "map_of (q_codes s') code = Some (c\<lparr> cr_used := True \<rparr>)"
        using each[of code] m2 c(4) by auto
      have cleaned: "codes_cleaned (trunc_sec now) ((a_codes (sql_abs s))(code \<mapsto> (code_of_row c)\<lparr> c_used := True \<rparr>)) (a_codes (sql_abs s'))"
        unfolding codes_cleaned_def
      proof
        fix k
        from each[of k] m2 consider "map_of (q_codes s') k = ((map_of (q_codes s))(code \<mapsto> c\<lparr> cr_used := True \<rparr>)) k"
          | d where "map_of (q_codes s') k = None" "k \<noteq> code" "map_of (q_codes s) k = Some d" "cr_expires d < unix_of now"
          using cl by (cases "k = code") auto
        then show "a_codes (sql_abs s') k = ((a_codes (sql_abs s))(code \<mapsto> (code_of_row c)\<lparr> c_used := True \<rparr>)) k \<or>
          (a_codes (sql_abs s') k = None \<and>
           (\<exists>d. ((a_codes (sql_abs s))(code \<mapsto> (code_of_row c)\<lparr> c_used := True \<rparr>)) k = Some d \<and> c_expires d < trunc_sec now))"
          by cases (auto simp: code_of_row_def less_trunc[OF ok' ex])
      qed
      show ?thesis
        using r cl cleaned c ex ok' st3 st2 q1 True s1
        by (auto simp: consume_code_spec_def code_of_row_def trunc_less sql_abs_def)
    next
      case False
      with step s1 s2 Inr have r: "\<exists>e. r = Inl e \<and> s' = s2 \<and> (r2 = Inl e \<or> e = ErrCodeInvalid \<and> (\<exists>n. r2 = Inr n))"
        by (auto simp: sql_ConsumeCode_def split: sum.splits)
      with st2 False c q1 show ?thesis
        by (auto simp: consume_code_spec_def sql_abs_def split: sum.splits if_splits)
    qed
  qed
qed

lemma scanNode_simps [simp]:
  "n_id (scanNode i r) = i" "n_chat (scanNode i r) = nr_chat_id r" "n_name (scanNode i r) = nr_name r"
  "n_host (scanNode i r) = nr_host r" "n_version (scanNode i r) = nr_version r"
  "n_secret (scanNode i r) = nr_secret r" "n_silent (scanNode i r) = nr_silent r"
  "n_blocked (scanNode i r) = nr_blocked r" "n_created (scanNode i r) = time_unix (nr_created r)"
  "n_last_seen (scanNode i r) = time_unix (nr_last_seen r)" "n_summary (scanNode i r) = nr_summary r"
  by (simp_all add: scanNode_def)

lemma nodes_of_update: "nodes_of (AList.update i r rows) = (nodes_of rows)(i \<mapsto> scanNode i r)"
  by (auto simp: nodes_of_def update_conv' fun_eq_iff)

lemma nodes_of_insert: "nodes_of ((i, r) # rows) = (nodes_of rows)(i \<mapsto> scanNode i r)"
  by (auto simp: nodes_of_def fun_eq_iff)

lemma nodes_of_delete: "nodes_of (AList.delete i rows) = (nodes_of rows)(i := None)"
  by (auto simp: nodes_of_def delete_conv' fun_eq_iff)

lemma no_conflictD:
  "\<not> name_conflict i chat name rows \<Longrightarrow> nodes_of rows j = Some m \<Longrightarrow> n_chat m = chat \<Longrightarrow> n_name m = name \<Longrightarrow> j = i"
  by (auto simp: name_conflict_def nodes_of_def dest!: map_of_SomeD)

lemma conflictE:
  assumes "name_conflict i chat name rows" "keys_distinct rows"
  obtains j m where "nodes_of rows j = Some m" "n_chat m = chat" "n_name m = name" "j \<noteq> i"
proof -
  from assms(1) obtain j r where "(j, r) \<in> set rows" "j \<noteq> i" "nr_chat_id r = chat" "nr_name r = name"
    by (auto simp: name_conflict_def)
  with that[of j "scanNode j r"] assms(2) show thesis by (simp add: nodes_of_def)
qed

lemma sql_create_node:
  assumes inv: "sql_inv s" and ok: "node_ok n" and new: "nodes_of (q_nodes s) (n_id n) = None"
    and step: "sql_CreateNode n s = (e, s')"
  shows "sql_inv s' \<and> create_node_spec keep_node n (sql_abs s) e (sql_abs s') \<and>
     (sql_up s \<longrightarrow> sql_up s' \<and> e \<noteq> Some DbErr)"
proof -
  obtain f s1 where s1: "stmt s = (f, s1)" by (cases "stmt s")
  note fr = stmt_frame[OF s1]
  have none: "map_of (q_nodes s) (n_id n) = None" using new by (simp add: nodes_of_def)
  show ?thesis
  proof (cases "f \<or> name_conflict (n_id n) (n_chat n) (n_name n) (q_nodes s)")
    case True
    with step s1 fr none have e: "s' = s1" "e = Some DbErr \<and> f \<or> e = Some ErrNameTaken \<and> name_conflict (n_id n) (n_chat n) (n_name n) (q_nodes s)"
      by (auto simp: sql_CreateNode_def split: if_splits)
    have kd: "keys_distinct (q_nodes s)" using inv by (simp add: sql_inv_def)
    from e(2) inv fr show ?thesis
      by (auto simp: e(1) create_node_spec_def elim!: conflictE[OF _ kd]) blast
  next
    case False
    let ?r = "\<lparr> nr_chat_id = n_chat n, nr_name = n_name n, nr_host = n_host n, nr_version = n_version n,
                nr_secret = n_secret n, nr_created = unix_of (n_created n), nr_last_seen = unix_of (n_last_seen n),
                nr_silent = n_silent n, nr_blocked = n_blocked n, nr_summary = json_summary (n_summary n) \<rparr>"
    from False step s1 fr none have e: "e = None" "s' = s1\<lparr> q_nodes := (n_id n, ?r) # q_nodes s1 \<rparr>"
      by (auto simp: sql_CreateNode_def split: if_splits)
    have row: "scanNode (n_id n) ?r = keep_node n"
      by (simp add: scanNode_def keep_node_def trunc_sec_def)
    have "names_unique ((nodes_of (q_nodes s))(n_id n \<mapsto> keep_node n))"
      using inv False by (intro names_unique_insert) (auto simp: sql_inv_def dest: no_conflictD)
    moreover have "n_chat m \<noteq> n_chat n \<or> n_name m \<noteq> n_name n" if "nodes_of (q_nodes s) j = Some m" for j m
      using False no_conflictD[OF _ that, of "n_id n"] that new by auto
    moreover have "n_id n \<notin> fst ` set (q_nodes s)" using none by (simp add: map_of_eq_None_iff)
    ultimately show ?thesis
      using inv fr ok e row
      by (auto simp: sql_inv_def create_node_spec_def sql_abs_def nodes_of_insert node_ok_def sec_ok_unix_of)
  qed
qed

lemma sql_update_node:
  assumes inv: "sql_inv s" and ok: "node_ok n"
    and same: "\<And>m. nodes_of (q_nodes s) (n_id n) = Some m \<Longrightarrow> same_identity (keep_node n) m"
    and step: "sql_UpdateNode n s = (e, s')"
  shows "sql_inv s' \<and> update_node_spec keep_node n (sql_abs s) e (sql_abs s') \<and>
     (sql_up s \<longrightarrow> sql_up s' \<and> e \<noteq> Some DbErr)"
proof -
  obtain f s1 where s1: "stmt s = (f, s1)" by (cases "stmt s")
  note fr = stmt_frame[OF s1]
  show ?thesis
  proof (cases "f \<or> map_of (q_nodes s) (n_id n) = None")
    case True
    with step s1 fr inv show ?thesis
      by (auto simp: sql_UpdateNode_def update_node_spec_def nodes_of_def split: if_splits)
  next
    case False
    then obtain r where r: "map_of (q_nodes s) (n_id n) = Some r" by auto
    then have st: "nodes_of (q_nodes s) (n_id n) = Some (scanNode (n_id n) r)" by (simp add: nodes_of_def)
    note id = same[OF st]
    have free: "\<not> name_conflict (n_id n) (nr_chat_id r) (n_name n) (q_nodes s)"
    proof
      assume c: "name_conflict (n_id n) (nr_chat_id r) (n_name n) (q_nodes s)"
      have kd: "keys_distinct (q_nodes s)" using inv by (simp add: sql_inv_def)
      from c kd obtain j m where "nodes_of (q_nodes s) j = Some m" "n_chat m = nr_chat_id r" "n_name m = n_name n" "j \<noteq> n_id n"
        by (rule conflictE)
      with st id inv show False
        unfolding sql_inv_def names_unique_def same_identity_def by fastforce
    qed
    let ?r = "r\<lparr> nr_name := n_name n, nr_host := n_host n, nr_version := n_version n,
                 nr_last_seen := unix_of (n_last_seen n), nr_silent := n_silent n,
                 nr_blocked := n_blocked n, nr_summary := json_summary (n_summary n) \<rparr>"
    from False step s1 fr r free have e: "\<not> f" "e = None" "s' = s1\<lparr> q_nodes := AList.update (n_id n) ?r (q_nodes s1) \<rparr>"
      by (auto simp: sql_UpdateNode_def split: if_splits)
    have row: "scanNode (n_id n) ?r = keep_node n"
      using id by (simp add: scanNode_def keep_node_def trunc_sec_def same_identity_def)
    have "names_unique ((nodes_of (q_nodes s))(n_id n \<mapsto> keep_node n))"
      using inv st id by (intro names_unique_update) (auto simp: sql_inv_def same_identity_def)
    then show ?thesis
      using inv fr ok e row st r
      by (auto simp: sql_inv_def update_node_spec_def sql_abs_def nodes_of_update node_ok_def sec_ok_unix_of
          update_conv' distinct_update split: if_splits)
  qed
qed

lemma sql_get_node:
  assumes "sql_inv s" "sql_GetNode i s = (r, s')"
  shows "sql_inv s' \<and> get_node_spec i (sql_abs s) r (sql_abs s') \<and> (sql_up s \<longrightarrow> sql_up s' \<and> r \<noteq> Inl DbErr)"
proof -
  obtain f s1 where s1: "stmt s = (f, s1)" by (cases "stmt s")
  from assms s1 stmt_frame[OF s1] show ?thesis
    by (auto simp: sql_GetNode_def get_node_spec_def nodes_of_def split: if_splits option.splits)
qed

lemma sql_nodes_ran: "sql_inv s \<Longrightarrow> ran (nodes_of (q_nodes s)) = (\<lambda>(i, r). scanNode i r) ` set (q_nodes s)"
  by (force simp: sql_inv_def ran_def nodes_of_def image_iff)

lemma sql_nodes_inj:
  assumes "keys_distinct rows"
  shows "distinct (map (\<lambda>(i, r). scanNode i r) rows)"
proof -
  have eq: "map n_id (map (\<lambda>(i, r). scanNode i r) rows) = map fst rows" by auto
  have "distinct (map n_id (map (\<lambda>(i, r). scanNode i r) rows))" unfolding eq by (rule assms)
  then show ?thesis by (simp only: distinct_map)
qed

lemma sql_rows_distinct:
  "sql_inv s \<Longrightarrow> distinct (map (\<lambda>(i, r). scanNode i r) (filter P (q_nodes s)))"
  by (simp add: sql_inv_def keys_distinct_filter sql_nodes_inj)

lemma sql_list_nodes:
  assumes inv: "sql_inv s" and step: "sql_ListNodes chat s = (r, s')"
  shows "sql_inv s' \<and> list_nodes_spec chat (sql_abs s) r (sql_abs s') \<and> (sql_up s \<longrightarrow> sql_up s' \<and> r \<noteq> Inl DbErr)"
proof -
  obtain f s1 where s1: "stmt s = (f, s1)" by (cases "stmt s")
  let ?l = "map (\<lambda>(i, r). scanNode i r) (filter (\<lambda>(i, r). nr_chat_id r = chat) (q_nodes s))"
  have "set ?l = {n \<in> ran (nodes_of (q_nodes s)). n_chat n = chat}"
    unfolding sql_nodes_ran[OF inv] by force
  with sql_rows_distinct[OF inv] step inv s1 stmt_frame[OF s1] show ?thesis
    by (auto simp: sql_ListNodes_def list_nodes_spec_def split: if_splits)
qed

lemma sql_silent_candidates:
  assumes inv: "sql_inv s" and ok: "time_ok bef" and step: "sql_SilentCandidates bef s = (r, s')"
  shows "sql_inv s' \<and> silent_candidates_spec trunc_sec bef (sql_abs s) r (sql_abs s') \<and>
     (sql_up s \<longrightarrow> sql_up s' \<and> r \<noteq> Inl DbErr)"
proof -
  obtain f s1 where s1: "stmt s = (f, s1)" by (cases "stmt s")
  let ?l = "map (\<lambda>(i, r). scanNode i r) (filter (\<lambda>(i, r). \<not> nr_silent r \<and> nr_last_seen r < unix_of bef) (q_nodes s))"
  have seen: "sec_ok (nr_last_seen row)" if "(i, row) \<in> set (q_nodes s)" for i row
    using inv that by (auto simp: sql_inv_def)
  have "set ?l = {n \<in> ran (nodes_of (q_nodes s)). \<not> n_silent n \<and> n_last_seen n < trunc_sec bef}"
    unfolding sql_nodes_ran[OF inv] by (force simp: less_trunc[OF ok seen])
  with sql_rows_distinct[OF inv] step inv s1 stmt_frame[OF s1] show ?thesis
    by (auto simp: sql_SilentCandidates_def silent_candidates_spec_def split: if_splits)
qed

lemma sql_delete_node:
  assumes inv: "sql_inv s" and step: "sql_DeleteNode i s = (e, s')"
  shows "sql_inv s' \<and> delete_node_spec i (sql_abs s) e (sql_abs s') \<and> (sql_up s \<longrightarrow> sql_up s' \<and> e \<noteq> Some DbErr)"
proof -
  obtain f s1 where s1: "stmt s = (f, s1)" by (cases "stmt s")
  note fr = stmt_frame[OF s1]
  show ?thesis
  proof (cases "f \<or> map_of (q_nodes s1) i = None")
    case True
    with step s1 fr inv show ?thesis
      by (auto simp: sql_DeleteNode_def delete_node_spec_def nodes_of_def split: if_splits)
  next
    case False
    obtain f2 s2 where s2: "stmt (s1\<lparr> q_nodes := AList.delete i (q_nodes s1) \<rparr>) = (f2, s2)"
      by (cases "stmt (s1\<lparr> q_nodes := AList.delete i (q_nodes s1) \<rparr>)")
    let ?s2 = "if f2 then s2 else s2\<lparr> q_mutes := filter (\<lambda>(k, _). fst k \<noteq> i) (q_mutes s2) \<rparr>"
    obtain f3 s3 where s3: "stmt ?s2 = (f3, s3)" by (cases "stmt ?s2")
    from False step s1 s2 s3 have e: "e = None"
        "s' = (if f3 then s3 else s3\<lparr> q_last_sent := filter (\<lambda>(k, _). fst k \<noteq> i) (q_last_sent s3) \<rparr>)"
      by (auto simp: sql_DeleteNode_def Let_def split: if_splits)
    have t: "q_codes s' = q_codes s" "q_nodes s' = AList.delete i (q_nodes s)"
        "q_mutes s' = (if f2 then q_mutes s else filter (\<lambda>(k, _). fst k \<noteq> i) (q_mutes s))"
        "q_last_sent s' = (if f3 then q_last_sent s else filter (\<lambda>(k, _). fst k \<noteq> i) (q_last_sent s))"
      using e(2) fr(1-4) stmt_frame(1-4)[OF s2] stmt_frame(1-4)[OF s3] by auto
    have up: "sql_up s \<longrightarrow> sql_up s'"
      using e(2) fr(7) stmt_frame(7)[OF s2] stmt_frame(7)[OF s3] by auto
    have inv': "sql_inv s'"
      using inv t names_unique_delete[of "nodes_of (q_nodes s)" i]
      by (auto simp: sql_inv_def distinct_delete keys_distinct_filter delete_conv' nodes_of_delete map_of_filter_keys
          split: if_splits)
    have some: "nodes_of (q_nodes s) i \<noteq> None" using False fr by (auto simp: nodes_of_def)
    have "delete_node_spec i (sql_abs s) None (sql_abs s')"
      using t some by (auto simp: delete_node_spec_def sql_abs_def nodes_of_delete map_of_filter_keys)
    with inv' up e(1) show ?thesis by simp
  qed
qed

lemma sql_set_mute:
  assumes "sql_inv s" "time_ok (mu_until m)" "sql_SetMute m s = (e, s')"
  shows "sql_inv s' \<and> set_mute_spec trunc_sec m (sql_abs s) e (sql_abs s') \<and> (sql_up s \<longrightarrow> sql_up s' \<and> e \<noteq> Some DbErr)"
proof -
  obtain f s1 where s1: "stmt s = (f, s1)" by (cases "stmt s")
  from assms s1 stmt_frame[OF s1] show ?thesis
    by (auto simp: sql_SetMute_def set_mute_spec_def sql_inv_def update_conv' distinct_update sec_ok_unix_of
        trunc_sec_def sql_abs_def split: if_splits)
qed

lemma sql_clear_mute:
  assumes "sql_inv s" "sql_ClearMute i alert s = (e, s')"
  shows "sql_inv s' \<and> clear_mute_spec i alert (sql_abs s) e (sql_abs s') \<and> (sql_up s \<longrightarrow> sql_up s' \<and> e \<noteq> Some DbErr)"
proof -
  obtain f s1 where s1: "stmt s = (f, s1)" by (cases "stmt s")
  from assms s1 stmt_frame[OF s1] show ?thesis
    by (auto simp: sql_ClearMute_def clear_mute_spec_def sql_inv_def delete_conv' distinct_delete sql_abs_def
        split: if_splits)
qed

lemma sql_muted:
  assumes inv: "sql_inv s" and ok: "time_ok now" and step: "sql_Muted i alert now s = (r, s')"
  shows "sql_inv s' \<and> muted_spec trunc_sec i alert now (sql_abs s) r (sql_abs s') \<and>
     (sql_up s \<longrightarrow> sql_up s' \<and> r \<noteq> Inl DbErr)"
proof -
  obtain f s1 where s1: "stmt s = (f, s1)" by (cases "stmt s")
  have until: "sec_ok v" if "map_of (q_mutes s) k = Some v" for k v
    using inv that by (cases k) (auto simp: sql_inv_def)
  have active: "(\<exists>u. a_mutes (sql_abs s) k = Some u \<and> trunc_sec now < u) \<longleftrightarrow>
      (\<exists>v. (k, v) \<in> set (q_mutes s) \<and> unix_of now < v)" for k
  proof -
    have "map_of (q_mutes s) k = Some v \<longleftrightarrow> (k, v) \<in> set (q_mutes s)" for v
      using inv by (simp add: sql_inv_def)
    then show ?thesis using trunc_less[OF ok until[of k]] by auto
  qed
  have "filter (\<lambda>((i', al), until). i' = i \<and> al \<in> {alert, ''all''} \<and> until > unix_of now) (q_mutes s) \<noteq> [] \<longleftrightarrow>
      mute_active (trunc_sec now) i alert (sql_abs s)"
    unfolding mute_active_def active by (auto simp: filter_empty_conv)
  with step inv s1 stmt_frame[OF s1] show ?thesis
    by (auto simp: sql_Muted_def muted_spec_def split: if_splits)
qed

lemma sql_last_sent:
  assumes "sql_inv s" "sql_LastSent i alert s = (r, s')"
  shows "sql_inv s' \<and> last_sent_spec i alert (sql_abs s) r (sql_abs s') \<and> (sql_up s \<longrightarrow> sql_up s' \<and> r \<noteq> Inl DbErr)"
proof -
  obtain f s1 where s1: "stmt s = (f, s1)" by (cases "stmt s")
  from assms s1 stmt_frame[OF s1] show ?thesis
    by (auto simp: sql_LastSent_def last_sent_spec_def last_sent_of_def split: if_splits option.splits)
qed

lemma sql_set_last_sent:
  assumes "sql_inv s" "sql_SetLastSent i alert st t s = (e, s')"
  shows "sql_inv s' \<and> set_last_sent_spec trunc_sec i alert st t (sql_abs s) e (sql_abs s') \<and>
     (sql_up s \<longrightarrow> sql_up s' \<and> e \<noteq> Some DbErr)"
proof -
  obtain f s1 where s1: "stmt s = (f, s1)" by (cases "stmt s")
  from assms s1 stmt_frame[OF s1] show ?thesis
    by (auto simp: sql_SetLastSent_def set_last_sent_spec_def sql_inv_def update_conv' distinct_update
        trunc_sec_def sql_abs_def split: if_splits)
qed

lemma sqlite_ops_simps:
  "CreateCode sqlite_ops = sql_CreateCode" "ConsumeCode sqlite_ops = sql_ConsumeCode"
  "CreateNode sqlite_ops = sql_CreateNode" "GetNode sqlite_ops = sql_GetNode"
  "ListNodes sqlite_ops = sql_ListNodes" "UpdateNode sqlite_ops = sql_UpdateNode"
  "DeleteNode sqlite_ops = sql_DeleteNode" "SilentCandidates sqlite_ops = sql_SilentCandidates"
  "SetMute sqlite_ops = sql_SetMute" "ClearMute sqlite_ops = sql_ClearMute"
  "Muted sqlite_ops = sql_Muted" "LastSent sqlite_ops = sql_LastSent"
  "SetLastSent sqlite_ops = sql_SetLastSent"
  by (simp_all add: sqlite_ops_def)

lemmas sqlite_contract = sql_create_code sql_consume_code sql_create_node sql_get_node sql_list_nodes
  sql_update_node sql_delete_node sql_silent_candidates sql_set_mute sql_clear_mute sql_muted
  sql_last_sent sql_set_last_sent

lemma sql_inv_nodes:
  assumes "sql_inv s"
  shows "ids_match (nodes_of (q_nodes s))" "names_unique (nodes_of (q_nodes s))"
    "nodes_of (q_nodes s) i = Some n \<Longrightarrow> node_ok n"
    "nodes_of (q_nodes s) i = Some n \<Longrightarrow> trunc_sec (n_created n) = n_created n"
  using assms
  by (auto simp: sql_inv_def ids_match_def nodes_of_def node_ok_def time_unix_ok trunc_time_unix)

lemma trunc_sec_bounds: "time_ok t \<Longrightarrow> trunc_sec t \<le> t" "time_ok t \<Longrightarrow> t < trunc_sec t + second"
  unfolding trunc_sec_def by (simp_all add: unix_trunc_bounds)

lemma trunc_sec_mono: "time_ok t \<Longrightarrow> time_ok u \<Longrightarrow> t \<le> u \<Longrightarrow> trunc_sec t \<le> trunc_sec u"
  by (simp add: trunc_sec_eq second_def zdiv_mono1)

interpretation sql: relay_store sqlite_ops sql_inv sql_abs trunc_sec keep_node sql_up
  by (unfold_locales; (simp add: sqlite_ops_simps sql_inv_nodes trunc_sec_bounds
          trunc_sec_mono trunc_sec_ok; fail)?)
     (simp only: sqlite_ops_simps sql_abs_simps(1), blast dest: sqlite_contract)+

lemma sqlite_empty_inv: "sql_inv (sqlite_empty faults)"
  by (simp add: sql_inv_def sqlite_empty_def names_unique_def nodes_of_def)

end
