(* ===== verification/Relay_Delivery.thy ===== *)
theory Relay_Delivery
  imports Relay_Server Relay_Memory Relay_Sqlite
begin

text \<open>
  What \<^verbatim>\<open>notify\<close>, \<^verbatim>\<open>deliver\<close> and the code around them guarantee, for
  any store that meets the contract.  The lemmas are proved once in the locale \<open>relay_store\<close>; the
  properties at the end are their instances for the database store (with its faults and its seconds)
  and for the memory store.
\<close>

section \<open>Single calls\<close>

lemma on_store_eq: "on_store f sv = (r, sv') \<Longrightarrow> f (sv_store sv) = (r, sv_store sv') \<and> sv' = sv\<lparr> sv_store := sv_store sv' \<rparr>"
  by (auto simp: on_store_def split: prod.splits)

lemma tg_send_eq:
  "tg_send chat msg sv = (r, sv') \<Longrightarrow>
     sv_store sv' = sv_store sv \<and> sv_sent sv' = (chat, msg, r) # sv_sent sv \<and>
     sv_chat_limit sv' = sv_chat_limit sv \<and> sv_suppressed sv' = sv_suppressed sv \<and> sv_notices sv' = sv_notices sv \<and>
     (sv_replies sv = [] \<longrightarrow> r = None)"
  by (auto simp: tg_send_def Let_def split: list.splits)

text \<open>A node value that may be written back: its identity is that of the node stored under its id.\<close>

definition current :: "(node \<Rightarrow> node) \<Rightarrow> store_abs \<Rightarrow> node \<Rightarrow> bool" where
  "current nn A n \<longleftrightarrow> node_ok n \<and> (\<forall>m. a_nodes A (n_id n) = Some m \<longrightarrow> same_identity (nn n) m)"

text \<open>Of the nodes only the one with this id may differ, and not in its identity.\<close>

definition nodes_kept :: "string \<Rightarrow> (string \<rightharpoonup> node) \<Rightarrow> (string \<rightharpoonup> node) \<Rightarrow> bool" where
  "nodes_kept i N N' \<longleftrightarrow> (\<forall>j. j \<noteq> i \<longrightarrow> N' j = N j) \<and>
     (case N i of None \<Rightarrow> N' i = None | Some m \<Rightarrow> \<exists>m'. N' i = Some m' \<and> same_identity m m')"

text \<open>Everything but that node is as before.\<close>

definition only_node :: "string \<Rightarrow> store_abs \<Rightarrow> store_abs \<Rightarrow> bool" where
  "only_node i A A' \<longleftrightarrow> a_codes A' = a_codes A \<and> a_mutes A' = a_mutes A \<and> a_sent A' = a_sent A \<and>
     nodes_kept i (a_nodes A) (a_nodes A')"

text \<open>The node itself is as before, or it was written back as blocked.\<close>

definition maybe_blocked :: "(node \<Rightarrow> node) \<Rightarrow> node \<Rightarrow> store_abs \<Rightarrow> store_abs \<Rightarrow> bool" where
  "maybe_blocked nn n A A' \<longleftrightarrow> a_nodes A' (n_id n) = a_nodes A (n_id n) \<or>
     a_nodes A' (n_id n) = Some (nn (n\<lparr> n_blocked := True \<rparr>))"

lemma maybe_blocked_refl [simp]: "maybe_blocked nn n A A"
  by (simp add: maybe_blocked_def)

lemma maybe_blocked_sent: "maybe_blocked nn n A B \<Longrightarrow> a_nodes C = a_nodes B \<Longrightarrow> maybe_blocked nn n A C"
  by (simp add: maybe_blocked_def)

lemma same_identity_refl [simp]: "same_identity m m"
  by (simp add: same_identity_def)

lemma same_identity_sym: "same_identity m n \<Longrightarrow> same_identity n m"
  by (simp add: same_identity_def)

lemma same_identity_trans: "same_identity m n \<Longrightarrow> same_identity n k \<Longrightarrow> same_identity m k"
  by (simp add: same_identity_def)

lemma nodes_kept_refl [simp]: "nodes_kept i N N"
  by (simp add: nodes_kept_def split: option.splits)

lemma nodes_kept_trans: "nodes_kept i N M \<Longrightarrow> nodes_kept i M K \<Longrightarrow> nodes_kept i N K"
  by (auto simp: nodes_kept_def intro: same_identity_trans split: option.splits)

lemma nodes_kept_lookup:
  assumes "nodes_kept i N N'" "N' j = Some m'"
  obtains m where "N j = Some m" "same_identity m m'"
  using assms by (cases "j = i") (auto simp: nodes_kept_def split: option.splits)

lemma only_node_refl [simp]: "only_node i A A"
  by (simp add: only_node_def)

lemma only_node_trans: "only_node i A B \<Longrightarrow> only_node i B C \<Longrightarrow> only_node i A C"
  by (auto simp: only_node_def intro: nodes_kept_trans)

lemma current_kept:
  assumes "current nn A n" "nodes_kept i (a_nodes A) (a_nodes A')"
  shows "current nn A' n"
  unfolding current_def
proof (intro conjI allI impI)
  fix m' assume "a_nodes A' (n_id n) = Some m'"
  with assms(2) obtain m where "a_nodes A (n_id n) = Some m" "same_identity m m'" by (rule nodes_kept_lookup)
  with assms(1) show "same_identity (nn n) m'" by (auto simp: current_def intro: same_identity_trans)
qed (use assms(1) in \<open>simp add: current_def\<close>)

context relay_store
begin

lemma update_current:
  assumes "inv s" "current nn (abs s) n" "UpdateNode ops n s = (e, s')"
  shows "inv s'" "only_node (n_id n) (abs s) (abs s')" "update_node_spec nn n (abs s) e (abs s')"
    "up s \<Longrightarrow> up s' \<and> e \<noteq> Some DbErr"
proof -
  from assms(2) have n: "node_ok n" "\<And>m. a_nodes (abs s) (n_id n) = Some m \<Longrightarrow> same_identity (nn n) m"
    unfolding current_def by blast+
  from update_node[OF assms(1) n assms(3)]
  show *: "inv s'" "update_node_spec nn n (abs s) e (abs s')" "up s \<Longrightarrow> up s' \<and> e \<noteq> Some DbErr" by blast+
  show "only_node (n_id n) (abs s) (abs s')"
  proof (cases e)
    case None
    with *(2) obtain m where "a_nodes (abs s) (n_id n) = Some m" by (auto simp: update_node_spec_def)
    with None *(2) n(2)[OF this] show ?thesis
      by (auto simp: update_node_spec_def only_node_def nodes_kept_def intro: same_identity_sym)
  qed (use *(2) in \<open>simp add: update_node_spec_def\<close>)
qed

lemma same_identity_nn:
  "n_id m = n_id n \<Longrightarrow> n_chat m = n_chat n \<Longrightarrow> n_name m = n_name n \<Longrightarrow> n_secret m = n_secret n \<Longrightarrow>
     n_created m = n_created n \<Longrightarrow> same_identity (nn m) x = same_identity (nn n) x"
  by (simp add: same_identity_def nn_fields)

lemma current_change:
  assumes "current nn A n" "n_id m = n_id n" "n_chat m = n_chat n" "n_name m = n_name n"
    "n_secret m = n_secret n" "n_created m = n_created n" "time_ok (n_last_seen m)"
  shows "current nn A m"
  using assms(1,7) unfolding current_def same_identity_nn[OF assms(2-6)] assms(2) by (simp add: node_ok_def assms(2,6))

lemma on_store_frame:
  assumes "on_store f sv = (r, sv')"
  shows "f (sv_store sv) = (r, sv_store sv')" "sv_sent sv' = sv_sent sv" "sv_chat_limit sv' = sv_chat_limit sv"
    "sv_replies sv' = sv_replies sv" "sv_suppressed sv' = sv_suppressed sv" "sv_notices sv' = sv_notices sv"
    "sv_node_limit sv' = sv_node_limit sv" "sv_admit_limit sv' = sv_admit_limit sv" "sv_pair_limit sv' = sv_pair_limit sv"
  using assms by (auto simp: on_store_def split: prod.splits)

lemma notify_step:
  assumes "notify ops now node msg sv = (e, sv')" "inv (sv_store sv)" "current nn (abs (sv_store sv)) node"
  shows "inv (sv_store sv') \<and> current nn (abs (sv_store sv')) node \<and>
     only_node (n_id node) (abs (sv_store sv)) (abs (sv_store sv')) \<and>
     maybe_blocked nn node (abs (sv_store sv)) (abs (sv_store sv')) \<and>
     (e \<noteq> None \<and> sv_sent sv' = sv_sent sv \<or>
      (\<exists>r. sv_sent sv' = (n_chat node, msg, r) # sv_sent sv \<and> (e = None \<longleftrightarrow> r = None)))"
proof -
  obtain ok lim where al: "allow now (show_int (n_chat node)) (sv_chat_limit sv) = (ok, lim)"
    by (cases "allow now (show_int (n_chat node)) (sv_chat_limit sv)")
  obtain r sv1 where tg: "tg_send (n_chat node) msg (sv\<lparr> sv_chat_limit := lim \<rparr>) = (r, sv1)"
    by (cases "tg_send (n_chat node) msg (sv\<lparr> sv_chat_limit := lim \<rparr>)")
  obtain e2 sv2 where up: "on_store (UpdateNode ops (node\<lparr> n_blocked := True \<rparr>)) sv1 = (e2, sv2)"
    by (cases "on_store (UpdateNode ops (node\<lparr> n_blocked := True \<rparr>)) sv1")
  note tg' = tg_send_eq[OF tg] and up' = on_store_frame[OF up]
  show ?thesis
  proof (cases "n_blocked node \<or> \<not> ok")
    case True
    with assms al show ?thesis by (auto simp: notify_def Let_def split: if_splits)
  next
    case False
    show ?thesis
    proof (cases "r = Some ErrBlocked")
      case True
      have lk: "time_ok (n_last_seen node)" using assms(3) by (simp add: current_def node_ok_def)
      have c: "current nn (abs (sv_store sv1)) (node\<lparr> n_blocked := True \<rparr>)"
        using current_change[OF assms(3)] lk tg' by simp
      have i1: "inv (sv_store sv1)" using tg' assms(2) by simp
      note u = update_current[OF i1 c up'(1)]
      have "inv (sv_store sv2)" "only_node (n_id node) (abs (sv_store sv)) (abs (sv_store sv2))"
        using u(1,2) tg' by simp_all
      moreover have "current nn (abs (sv_store sv2)) node"
        using current_kept[OF assms(3), of "n_id node" "abs (sv_store sv2)"] u(2) tg' by (simp add: only_node_def)
      moreover have "maybe_blocked nn node (abs (sv_store sv)) (abs (sv_store sv2))"
        using u(3) tg' by (cases e2) (auto simp: maybe_blocked_def update_node_spec_def)
      moreover from False True assms(1) al tg up have "e = Some ChatBlocked" "sv' = sv2" by (auto simp: notify_def)
      ultimately show ?thesis using tg' up' True by auto
    next
      case False': False
      with False assms(1) al tg have "sv' = sv1" "e = None \<longleftrightarrow> r = None" by (auto simp: notify_def split: option.splits)
      with tg' assms(2,3) show ?thesis by auto
    qed
  qed
qed

end

text \<open>
  What one delivery may do: on an error nothing is recorded; without one, the delivery rules decide,
  and a recorded state was either accepted by Telegram or muted.
\<close>

definition deliver_spec ::
  "(time \<Rightarrow> time) \<Rightarrow> time \<Rightarrow> node \<Rightarrow> alert_request \<Rightarrow> store_abs \<Rightarrow> (int \<times> string \<times> tg_error option) list \<Rightarrow>
     deliver_error option \<Rightarrow> store_abs \<Rightarrow> (int \<times> string \<times> tg_error option) list \<Rightarrow> bool" where
  "deliver_spec tn now node a A out e A' out' \<longleftrightarrow>
     a_codes A' = a_codes A \<and> a_mutes A' = a_mutes A \<and> nodes_kept (n_id node) (a_nodes A) (a_nodes A') \<and>
     (case e of
        Some _ \<Rightarrow> a_sent A' = a_sent A \<and>
          (out' = out \<or> (\<exists>r. out' = (n_chat node, FormatMessage node a, r) # out))
      | None \<Rightarrow>
          if ar_state a = Info then
            a_sent A' = a_sent A \<and> out' = (n_chat node, FormatMessage node a, None) # out
          else if suppressed_by_rules now (ar_state a) (last_sent_of A (n_id node) (ar_alert a)) then
            A' = A \<and> out' = out
          else
            a_sent A' (n_id node, ar_alert a) = Some (ar_state a, tn now) \<and>
            (\<forall>j al. id_ok j \<longrightarrow> (j, al) \<noteq> (n_id node, ar_alert a) \<longrightarrow> a_sent A' (j, al) = a_sent A (j, al)) \<and>
            (if mute_active (tn now) (n_id node) (ar_alert a) A then out' = out
             else out' = (n_chat node, FormatMessage node a, None) # out))"

context relay_store
begin

lemma deliver_step:
  assumes del: "deliver ops now node a sv = (e, sv')"
    and inv: "inv (sv_store sv)" and cur: "current nn (abs (sv_store sv)) node" and now: "time_ok now"
  shows "inv (sv_store sv') \<and> current nn (abs (sv_store sv')) node \<and>
     maybe_blocked nn node (abs (sv_store sv)) (abs (sv_store sv')) \<and>
     deliver_spec tn now node a (abs (sv_store sv)) (sv_sent sv) e (abs (sv_store sv')) (sv_sent sv')"
proof (cases "ar_state a = Info")
  case True
  with notify_step[OF _ inv cur, of now "FormatMessage node a" e sv'] del show ?thesis
    by (auto simp: deliver_def deliver_spec_def only_node_def split: option.splits)
next
  case ninfo: False
  have idok: "id_ok (n_id node)" using cur by (simp add: current_def node_ok_def)
  obtain rl sv1 where ls: "on_store (LastSent ops (n_id node) (ar_alert a)) sv = (rl, sv1)"
    by (cases "on_store (LastSent ops (n_id node) (ar_alert a)) sv")
  note f1 = on_store_frame[OF ls]
  note s1 = last_sent[OF inv idok f1(1)]
  have i1: "inv (sv_store sv1)" "abs (sv_store sv1) = abs (sv_store sv)" using s1 by (auto simp: last_sent_spec_def)
  show ?thesis
  proof (cases rl)
    case (Inl x)
    with del ninfo ls have "e = Some (LastSentLookup x)" "sv' = sv1" by (auto simp: deliver_def)
    with i1 f1 cur show ?thesis by (simp add: deliver_spec_def)
  next
    case (Inr p)
    with s1 have p: "p = last_sent_of (abs (sv_store sv)) (n_id node) (ar_alert a)" by (simp add: last_sent_spec_def)
    show ?thesis
    proof (cases "suppressed_by_rules now (ar_state a) p")
      case True
      with del ninfo ls Inr have "e = None" "sv' = sv1" by (auto simp: deliver_def)
      with i1 f1 cur True p ninfo show ?thesis by (simp add: deliver_spec_def)
    next
      case nsup: False
      obtain rb sv2 where mu: "on_store (Muted ops (n_id node) (ar_alert a) now) sv1 = (rb, sv2)"
        by (cases "on_store (Muted ops (n_id node) (ar_alert a) now) sv1")
      note f2 = on_store_frame[OF mu]
      note s2 = muted[OF i1(1) idok now f2(1)]
      have i2: "inv (sv_store sv2)" "abs (sv_store sv2) = abs (sv_store sv)" using s2 i1 by (auto simp: muted_spec_def)
      show ?thesis
      proof (cases rb)
        case (Inl x)
        with del ninfo ls Inr nsup mu have "e = Some (MuteLookup x)" "sv' = sv2" by (auto simp: deliver_def)
        with i2 f1 f2 cur show ?thesis by (simp add: deliver_spec_def)
      next
        case rb: (Inr m)
        with s2 i1 have m: "m = mute_active (tn now) (n_id node) (ar_alert a) (abs (sv_store sv))" by (simp add: muted_spec_def)
        obtain en sv3 where nt: "(if m then (None, sv2) else notify ops now node (FormatMessage node a) sv2) = (en, sv3)"
          by (cases "if m then (None, sv2) else notify ops now node (FormatMessage node a) sv2")
        have s3: "inv (sv_store sv3) \<and> current nn (abs (sv_store sv3)) node \<and>
            only_node (n_id node) (abs (sv_store sv)) (abs (sv_store sv3)) \<and>
            maybe_blocked nn node (abs (sv_store sv)) (abs (sv_store sv3)) \<and>
            (if m then en = None \<and> sv_sent sv3 = sv_sent sv
             else en \<noteq> None \<and> sv_sent sv3 = sv_sent sv \<or>
               (\<exists>r. sv_sent sv3 = (n_chat node, FormatMessage node a, r) # sv_sent sv \<and> (en = None \<longleftrightarrow> r = None)))"
        proof (cases m)
          case True
          with nt i2 cur f1 f2 show ?thesis by auto
        next
          case False
          with nt have "notify ops now node (FormatMessage node a) sv2 = (en, sv3)" by simp
          from notify_step[OF this i2(1)] i2(2) cur f1 f2 False show ?thesis by simp
        qed
        show ?thesis
        proof (cases en)
          case (Some x)
          with del ninfo ls Inr nsup mu rb nt have "e = Some x" "sv' = sv3" by (auto simp: deliver_def)
          with s3 Some show ?thesis by (auto simp: deliver_spec_def only_node_def split: if_splits)
        next
          case None
          obtain es sv4 where st: "on_store (SetLastSent ops (n_id node) (ar_alert a) (ar_state a) now) sv3 = (es, sv4)"
            by (cases "on_store (SetLastSent ops (n_id node) (ar_alert a) (ar_state a) now) sv3")
          note f4 = on_store_frame[OF st]
          have i3: "inv (sv_store sv3)" using s3 by blast
          note s4 = set_last_sent[OF i3 idok now f4(1)]
          from del ninfo ls Inr nsup mu rb nt None st have e: "e = map_option RecordLastSent es" "sv' = sv4"
            by (auto simp: deliver_def split: option.splits)
          show ?thesis
          proof (cases es)
            case (Some x)
            with s4 have "abs (sv_store sv4) = abs (sv_store sv3)" by (simp add: set_last_sent_spec_def)
            with s3 s4 f4 e Some None show ?thesis
              by (auto simp: deliver_spec_def only_node_def split: if_splits)
          next
            case en: None
            with s4 obtain S where S: "abs (sv_store sv4) = (abs (sv_store sv3))\<lparr> a_sent := S \<rparr>"
              "S (n_id node, ar_alert a) = Some (ar_state a, tn now)"
              "\<forall>j al. id_ok j \<longrightarrow> (j, al) \<noteq> (n_id node, ar_alert a) \<longrightarrow> S (j, al) = a_sent (abs (sv_store sv3)) (j, al)"
              by (auto simp: set_last_sent_spec_def)
            have mb4: "maybe_blocked nn node (abs (sv_store sv)) (abs (sv_store sv4))"
              using s3 S(1) by (auto intro: maybe_blocked_sent)
            have cur4: "current nn (abs (sv_store sv4)) node" using s3 S(1) by (simp add: current_def)
            show ?thesis
              using s3 s4 f4 e en None S cur4 mb4 ninfo nsup p m
              by (auto simp: deliver_spec_def only_node_def split: if_splits)
          qed
        qed
      qed
    qed
  qed
qed

end

context relay_store
begin

text \<open>With the store up, the chat reachable and within its rate, an alert the rules let through goes out.\<close>

lemma deliver_up:
  assumes inv: "inv (sv_store sv)" "up (sv_store sv)" and cur: "current nn (abs (sv_store sv)) node" and now: "time_ok now"
    and chat: "\<not> n_blocked node" "fst (allow now (show_int (n_chat node)) (sv_chat_limit sv))"
    and tg: "sv_replies sv = [] \<or> hd (sv_replies sv) = None"
  shows "fst (deliver ops now node a sv) = None"
proof -
  have idok: "id_ok (n_id node)" using cur by (simp add: current_def node_ok_def)
  have send: "fst (notify ops now node msg x) = None"
    if "sv_chat_limit x = sv_chat_limit sv" "sv_replies x = sv_replies sv" for msg and x :: "'s server"
    using chat tg that by (cases "sv_replies sv") (auto simp: notify_def Let_def tg_send_def split: prod.splits)
  have store: "up (sv_store (snd (notify ops now node msg x))) \<and> inv (sv_store (snd (notify ops now node msg x)))"
    if "sv_chat_limit x = sv_chat_limit sv" "sv_replies x = sv_replies sv" "up (sv_store x)" "inv (sv_store x)"
    for msg and x :: "'s server"
    using chat tg that by (cases "sv_replies sv") (auto simp: notify_def Let_def tg_send_def split: prod.splits)
  show ?thesis
  proof (cases "ar_state a = Info")
    case True
    then show ?thesis by (simp add: deliver_def send)
  next
    case False
    obtain rl sv1 where ls: "on_store (LastSent ops (n_id node) (ar_alert a)) sv = (rl, sv1)"
      by (cases "on_store (LastSent ops (n_id node) (ar_alert a)) sv")
    note f1 = on_store_frame[OF ls]
    from last_sent[OF inv(1) idok f1(1)] inv(2) obtain p where p: "rl = Inr p" "inv (sv_store sv1)" "up (sv_store sv1)"
      by (cases rl) (auto simp: last_sent_spec_def)
    obtain rb sv2 where mu: "on_store (Muted ops (n_id node) (ar_alert a) now) sv1 = (rb, sv2)"
      by (cases "on_store (Muted ops (n_id node) (ar_alert a) now) sv1")
    note f2 = on_store_frame[OF mu]
    from muted[OF p(2) idok now f2(1)] p(3) obtain m where m: "rb = Inr m" "inv (sv_store sv2)" "up (sv_store sv2)"
      by (cases rb) (auto simp: muted_spec_def)
    let ?n = "if m then (None, sv2) else notify ops now node (FormatMessage node a) sv2"
    have n: "fst ?n = None" "inv (sv_store (snd ?n))" "up (sv_store (snd ?n))"
      using send[of sv2] store[of sv2] f1 f2 m by auto
    obtain es sv4 where st: "on_store (SetLastSent ops (n_id node) (ar_alert a) (ar_state a) now) (snd ?n) = (es, sv4)"
      by (cases "on_store (SetLastSent ops (n_id node) (ar_alert a) (ar_state a) now) (snd ?n)")
    from set_last_sent[OF n(2) idok now on_store_frame(1)[OF st]] n(3) have "es = None"
      by (cases es) (auto simp: set_last_sent_spec_def)
    with False ls p mu m n(1) st show ?thesis
      by (cases ?n) (auto simp: deliver_def)
  qed
qed

end

section \<open>Sequences of deliveries\<close>

text \<open>
  A run of deliveries and its history: the alerts that the rules let through and that were recorded,
  with their node, name, state and time.  \<open>ab\<close>, the abstraction of the store, is only used to write the history down.
\<close>

type_synonym delivered = "(string \<times> string) \<times> state \<times> time"

fun deliveries ::
  "('s \<Rightarrow> store_abs) \<Rightarrow> 's store_ops \<Rightarrow> (time \<times> node \<times> alert_request) list \<Rightarrow> 's server \<Rightarrow> delivered list" where
  "deliveries ab ops [] sv = []"
| "deliveries ab ops ((now, node, a) # evs) sv =
     (case deliver ops now node a sv of (e, sv') \<Rightarrow>
      (if e = None \<and> ar_state a \<noteq> Info \<and>
          \<not> suppressed_by_rules now (ar_state a) (last_sent_of (ab (sv_store sv)) (n_id node) (ar_alert a))
       then [((n_id node, ar_alert a), ar_state a, now)] else []) @ deliveries ab ops evs sv')"

text \<open>What may follow what for one node and alert.\<close>

definition may_follow :: "state \<times> time \<Rightarrow> state \<times> time \<Rightarrow> bool" where
  "may_follow x y \<longleftrightarrow> (fst y = OK \<longrightarrow> fst x \<noteq> OK) \<and> (fst y = fst x \<longrightarrow> 10 * minute - second < snd y - snd x)"

definition for_key :: "string \<times> string \<Rightarrow> delivered list \<Rightarrow> (state \<times> time) list" where
  "for_key k h = map snd (filter (\<lambda>d. fst d = k) h)"

lemma not_suppressed:
  "\<not> suppressed_by_rules now st (lst, t) \<Longrightarrow> (st = OK \<longrightarrow> lst \<noteq> OK \<and> lst \<noteq> []) \<and> (st = lst \<longrightarrow> 10 * minute \<le> now - t)"
  by (auto simp: suppressed_by_rules_def Let_def ReminderEvery_def time_sub_def minute_def min_int64_def max_int64_def
      not_less split: if_splits)

context relay_store
begin

lemma deliveries_follow:
  assumes "inv (sv_store sv)" "\<forall>(now, node, a) \<in> set evs. current nn (abs (sv_store sv)) node \<and> time_ok now"
    and "id_ok (fst k)"
    and "case a_sent (abs (sv_store sv)) k of None \<Rightarrow> lst0 = None | Some (st, t) \<Rightarrow> \<exists>u. lst0 = Some (st, u) \<and> tn u = t \<and> time_ok u"
  shows "(case lst0 of None \<Rightarrow> (case for_key k (deliveries abs ops evs sv) of [] \<Rightarrow> True | x # _ \<Rightarrow> fst x \<noteq> OK)
          | Some l \<Rightarrow> (case for_key k (deliveries abs ops evs sv) of [] \<Rightarrow> True | x # _ \<Rightarrow> may_follow l x)) \<and>
         successively may_follow (for_key k (deliveries abs ops evs sv))"
  using assms
proof (induction evs arbitrary: sv lst0)
  case Nil
  then show ?case by (simp add: for_key_def split: option.splits)
next
  case (Cons ev evs)
  obtain now node a where ev: "ev = (now, node, a)" by (cases ev)
  obtain e sv' where del: "deliver ops now node a sv = (e, sv')" by (cases "deliver ops now node a sv")
  from Cons.prems(2) ev have cur: "current nn (abs (sv_store sv)) node" and now: "time_ok now" by auto
  note st = deliver_step[OF del Cons.prems(1) cur now]
  let ?A = "abs (sv_store sv)" and ?A' = "abs (sv_store sv')"
  have inv': "inv (sv_store sv')" using st by blast
  have cur': "\<forall>(now, node, a) \<in> set evs. current nn ?A' node \<and> time_ok now"
    using Cons.prems(2) st by (auto simp: deliver_spec_def intro: current_kept)
  have idok: "id_ok (n_id node)" using cur by (simp add: current_def node_ok_def)
  let ?rec = "e = None \<and> ar_state a \<noteq> Info \<and> \<not> suppressed_by_rules now (ar_state a) (last_sent_of ?A (n_id node) (ar_alert a))"
  show ?case
  proof (cases "?rec \<and> k = (n_id node, ar_alert a)")
    case True
    then have sent': "a_sent ?A' k = Some (ar_state a, tn now)" using st by (simp add: deliver_spec_def)
    have IH: "case for_key k (deliveries abs ops evs sv') of [] \<Rightarrow> True | x # _ \<Rightarrow> may_follow (ar_state a, now) x"
      "successively may_follow (for_key k (deliveries abs ops evs sv'))"
      using Cons.IH[OF inv' cur' Cons.prems(3), of "Some (ar_state a, now)"] sent' now by auto
    have fk: "for_key k (deliveries abs ops (ev # evs) sv) = (ar_state a, now) # for_key k (deliveries abs ops evs sv')"
      using True ev del by (simp add: for_key_def)
    have first: "case lst0 of None \<Rightarrow> ar_state a \<noteq> OK | Some l \<Rightarrow> may_follow l (ar_state a, now)"
    proof (cases "a_sent ?A k")
      case None
      with True Cons.prems(4) show ?thesis by (auto simp: last_sent_of_def dest: not_suppressed)
    next
      case (Some q)
      obtain st t where q: "q = (st, t)" by (cases q)
      with Some Cons.prems(4) obtain u where u: "lst0 = Some (st, u)" "tn u = t" "time_ok u" by auto
      from True Some q have "\<not> suppressed_by_rules now (ar_state a) (st, t)" by (auto simp: last_sent_of_def)
      from not_suppressed[OF this] u tn_le(2)[OF u(3)] show ?thesis by (auto simp: may_follow_def)
    qed
    from fk first IH show ?thesis by (auto simp: successively_Cons split: list.splits option.splits)
  next
    case False
    have same: "a_sent ?A' k = a_sent ?A k"
    proof -
      have "id_ok (fst k)" by (rule Cons.prems(3))
      with False st show ?thesis
        by (cases k) (auto simp: deliver_spec_def split: option.splits if_splits)
    qed
    have fk: "for_key k (deliveries abs ops (ev # evs) sv) = for_key k (deliveries abs ops evs sv')"
      using False ev del by (auto simp: for_key_def)
    show ?thesis unfolding fk
      by (rule Cons.IH[OF inv' cur' Cons.prems(3)]) (use Cons.prems(4) same in simp)
  qed
qed

end

end
