(* ===== verification/Relay_Requests.thy ===== *)
theory Relay_Requests
  imports Relay_Delivery
begin

text \<open>
  The handlers of \<^verbatim>\<open>internal/relay/server.go\<close> against the contract of the store: who
  may change what, which requests are refused, what pairing and the silence check guarantee.
\<close>

text \<open>A request that its node has signed, within the replay window.\<close>

definition signed_by :: "env \<Rightarrow> store_abs \<Rightarrow> time \<Rightarrow> request \<Rightarrow> bool" where
  "signed_by env A now rq \<longleftrightarrow>
     (\<exists>node body ts. a_nodes A (rq_node rq) = Some node \<and> validNodeID (rq_node rq) \<and>
        rq_body rq = Some body \<and> int (length body) \<le> MaxBody \<and> parse_int (rq_timestamp rq) = Some ts \<and>
        \<bar>now - time_unix ts\<bar> \<le> 5 * minute \<and>
        hex_decode (rq_signature rq) = Some (e_hmac env (n_secret node) (signed_message ts body)))"

text \<open>What a request of node \<open>i\<close> may change: that node, its mutes and its last-sent records.\<close>

definition touches :: "string \<Rightarrow> store_abs \<Rightarrow> store_abs \<Rightarrow> bool" where
  "touches i A A' \<longleftrightarrow> a_codes A' = a_codes A \<and> (\<forall>j. j \<noteq> i \<longrightarrow> a_nodes A' j = a_nodes A j) \<and>
     (\<forall>j al. id_ok j \<longrightarrow> j \<noteq> i \<longrightarrow> a_mutes A' (j, al) = a_mutes A (j, al) \<and> a_sent A' (j, al) = a_sent A (j, al))"

lemma touches_refl [simp]: "touches i A A"
  by (simp add: touches_def)

lemma touches_trans: "touches i A B \<Longrightarrow> touches i B C \<Longrightarrow> touches i A C"
  by (simp add: touches_def)

lemma only_node_touches: "only_node i A A' \<Longrightarrow> touches i A A'"
  by (simp add: touches_def only_node_def nodes_kept_def)

lemma deliver_touches: "deliver_spec tn now node a A out e A' out' \<Longrightarrow> touches (n_id node) A A'"
  by (auto simp: deliver_spec_def touches_def nodes_kept_def split: option.splits if_splits)

context relay_store
begin

lemma authenticate_ok:
  assumes "authenticate env opts ops now rq sv = (Inr (node, body), sv')" "inv (sv_store sv)"
  shows "inv (sv_store sv') \<and> abs (sv_store sv') = abs (sv_store sv) \<and> sv_sent sv' = sv_sent sv \<and>
     a_nodes (abs (sv_store sv)) (rq_node rq) = Some node \<and> validNodeID (rq_node rq) \<and>
     rq_body rq = Some body \<and> int (length body) \<le> MaxBody \<and>
     (\<exists>ts. parse_int (rq_timestamp rq) = Some ts \<and> \<bar>now - time_unix ts\<bar> \<le> 5 * minute \<and>
        hex_decode (rq_signature rq) = Some (e_hmac env (n_secret node) (signed_message ts body)))"
proof -
  obtain ok lim where al: "allow now (clientIP (o_trusted opts) (rq_remote rq) (rq_xff rq)) (sv_admit_limit sv) = (ok, lim)"
    by (cases "allow now (clientIP (o_trusted opts) (rq_remote rq) (rq_xff rq)) (sv_admit_limit sv)")
  let ?sv1 = "sv\<lparr> sv_admit_limit := lim \<rparr>"
  obtain rn sv2 where gn: "on_store (GetNode ops (rq_node rq)) ?sv1 = (rn, sv2)"
    by (cases "on_store (GetNode ops (rq_node rq)) ?sv1")
  note f = on_store_frame[OF gn]
  have i1: "inv (sv_store ?sv1)" using assms(2) by simp
  note g = get_node[OF i1 f(1)]
  from assms(1) al gn show ?thesis
    using g f
    by (auto simp: authenticate_def readBody_def get_node_spec_def Verify_ok_iff Let_def not_less
        split: if_splits option.splits sum.splits prod.splits)
qed

lemma authenticate_inv:
  assumes "authenticate env opts ops now rq sv = (r, sv')" "inv (sv_store sv)"
  shows "inv (sv_store sv') \<and> abs (sv_store sv') = abs (sv_store sv) \<and> sv_sent sv' = sv_sent sv \<and>
     sv_chat_limit sv' = sv_chat_limit sv \<and> sv_pair_limit sv' = sv_pair_limit sv \<and>
     sv_suppressed sv' = sv_suppressed sv \<and> sv_notices sv' = sv_notices sv \<and> sv_replies sv' = sv_replies sv"
proof -
  obtain ok lim where al: "allow now (clientIP (o_trusted opts) (rq_remote rq) (rq_xff rq)) (sv_admit_limit sv) = (ok, lim)"
    by (cases "allow now (clientIP (o_trusted opts) (rq_remote rq) (rq_xff rq)) (sv_admit_limit sv)")
  let ?sv1 = "sv\<lparr> sv_admit_limit := lim \<rparr>"
  obtain rn sv2 where gn: "on_store (GetNode ops (rq_node rq)) ?sv1 = (rn, sv2)"
    by (cases "on_store (GetNode ops (rq_node rq)) ?sv1")
  note f = on_store_frame[OF gn]
  have i1: "inv (sv_store ?sv1)" using assms(2) by simp
  note g = get_node[OF i1 f(1)]
  from assms al gn show ?thesis
    using g f
    by (auto simp: authenticate_def readBody_def get_node_spec_def Let_def
        split: if_splits option.splits sum.splits prod.splits)
qed

lemma stored_current:
  assumes "inv s" "a_nodes (abs s) i = Some n" "time_ok t" "m = n\<lparr> n_last_seen := t, n_silent := b \<rparr>"
  shows "current nn (abs s) m"
proof -
  have ok: "node_ok n" "n_id n = i" "tn (n_created n) = n_created n"
    using inv_node_ok[OF assms(1,2)] inv_created[OF assms(1,2)] ids_matchD[OF inv_ids[OF assms(1)] assms(2)] by auto
  then show ?thesis
    using assms(2-4) by (auto simp: current_def same_identity_def nn_fields node_ok_def)
qed

text \<open>
  The common part of the signed requests: refused with the store as it was, or handed to the handler
  with the node marked as seen.
\<close>

lemma authed_cases:
  assumes "authed env opts ops now h rq sv = (reply, sv')" "inv (sv_store sv)" "clock_ok now"
  obtains (refused) "authenticate env opts ops now rq sv = (Inl reply, sv')"
      "inv (sv_store sv')" "abs (sv_store sv') = abs (sv_store sv)" "sv_sent sv' = sv_sent sv"
  | (failed) "signed_by env (abs (sv_store sv)) now rq" "reply = writeError 500 ''store error''"
      "inv (sv_store sv')" "abs (sv_store sv') = abs (sv_store sv)" "sv_sent sv' = sv_sent sv"
  | (handled) stored node body sv2 where "signed_by env (abs (sv_store sv)) now rq"
      "a_nodes (abs (sv_store sv)) (rq_node rq) = Some stored" "rq_body rq = Some body"
      "\<exists>b. node = stored\<lparr> n_last_seen := now, n_silent := b \<rparr> \<and> (b \<longrightarrow> n_silent stored)" "n_id node = rq_node rq"
      "inv (sv_store sv2)" "current nn (abs (sv_store sv2)) node"
      "nodes_kept (rq_node rq) (a_nodes (abs (sv_store sv))) (a_nodes (abs (sv_store sv2)))"
      "touches (rq_node rq) (abs (sv_store sv)) (abs (sv_store sv2))"
      "h node body sv2 = (reply, sv')"
proof -
  have now: "time_ok now" using assms(3) by (rule clock_ok_time_ok)
  obtain r sv1 where au: "authenticate env opts ops now rq sv = (r, sv1)" by (cases "authenticate env opts ops now rq sv")
  note ai = authenticate_inv[OF au assms(2)]
  show thesis
  proof (cases r)
    case (Inl e)
    with au assms(1) ai refused show thesis by (simp add: authed_def)
  next
    case (Inr p)
    obtain stored body where p: "p = (stored, body)" by (cases p)
    note ok = authenticate_ok[OF au[unfolded Inr p] assms(2)]
    have sg: "signed_by env (abs (sv_store sv)) now rq" using ok unfolding signed_by_def by blast
    have st: "a_nodes (abs (sv_store sv1)) (rq_node rq) = Some stored" using ok by simp
    have st0: "a_nodes (abs (sv_store sv)) (rq_node rq) = Some stored" and bd: "rq_body rq = Some body" using ok by auto
    have id: "n_id stored = rq_node rq" using stored_node_id[OF assms(2)] ok by auto
    let ?n = "stored\<lparr> n_last_seen := now, n_silent := False \<rparr>"
    let ?n' = "?n\<lparr> n_silent := True \<rparr>"
    have n: "\<exists>b. ?n = stored\<lparr> n_last_seen := now, n_silent := b \<rparr> \<and> (b \<longrightarrow> n_silent stored)" "n_id ?n = rq_node rq"
      using id by (auto intro: exI[of _ False])
    have i1: "inv (sv_store sv1)" using ok by simp
    have cur: "current nn (abs (sv_store sv1)) ?n" by (rule stored_current[OF i1 st now refl])
    obtain e2 sv2 where u2: "on_store (UpdateNode ops ?n) sv1 = (e2, sv2)" by (cases "on_store (UpdateNode ops ?n) sv1")
    note f2 = on_store_frame[OF u2]
    note s2 = update_current[OF i1 cur f2(1)]
    have k2: "only_node (rq_node rq) (abs (sv_store sv)) (abs (sv_store sv2))" using s2(2) ok id by simp
    have c2: "current nn (abs (sv_store sv2)) ?n"
      using current_kept[OF cur, of "rq_node rq" "abs (sv_store sv2)"] s2(2) id by (simp add: only_node_def)
    show thesis
    proof (cases e2)
      case (Some x)
      with au Inr p u2 assms(1) have "reply = writeError 500 ''store error''" "sv' = sv2" by (auto simp: authed_def Let_def)
      moreover from s2(3) Some have "abs (sv_store sv2) = abs (sv_store sv1)" by (simp add: update_node_spec_def)
      ultimately show thesis using failed sg s2(1) ok f2 by simp
    next
      case None
      show thesis
      proof (cases "n_silent stored")
        case False
        with au Inr p u2 None assms(1) have "h ?n body sv2 = (reply, sv')" by (simp add: authed_def Let_def)
        moreover have "nodes_kept (rq_node rq) (a_nodes (abs (sv_store sv))) (a_nodes (abs (sv_store sv2)))"
          using k2 by (simp add: only_node_def)
        ultimately show thesis using handled[OF sg st0 bd n s2(1) c2 _ only_node_touches[OF k2]] by blast
      next
        case True
        obtain e3 sv3 where d3: "deliver ops now ?n (recovery_alert now) sv2 = (e3, sv3)"
          by (cases "deliver ops now ?n (recovery_alert now) sv2")
        note s3 = deliver_step[OF d3 s2(1) c2 now]
        have k3: "nodes_kept (rq_node rq) (a_nodes (abs (sv_store sv))) (a_nodes (abs (sv_store sv3)))"
          using k2 s3 id by (auto simp: only_node_def deliver_spec_def intro: nodes_kept_trans)
        have t3: "touches (rq_node rq) (abs (sv_store sv)) (abs (sv_store sv3))"
          using deliver_touches[OF s3[THEN conjunct2, THEN conjunct2, THEN conjunct2]] only_node_touches[OF k2] id by (auto intro: touches_trans)
        show thesis
        proof (cases e3)
          case None': None
          with au Inr p u2 None True d3 assms(1) have "h ?n body sv3 = (reply, sv')" by (simp add: authed_def Let_def)
          with handled[OF sg st0 bd n _ _ k3 t3] s3 show thesis by blast
        next
          case (Some x)
          obtain e4 sv4 where u4: "on_store (UpdateNode ops ?n') sv3 = (e4, sv4)" by (cases "on_store (UpdateNode ops ?n') sv3")
          note f4 = on_store_frame[OF u4]
          have c3: "current nn (abs (sv_store sv3)) ?n'"
            by (rule current_change[of _ ?n]) (use s3 now in simp_all)
          have i3: "inv (sv_store sv3)" using s3 by blast
          note s4 = update_current[OF i3 c3 f4(1)]
          have k4: "nodes_kept (rq_node rq) (a_nodes (abs (sv_store sv))) (a_nodes (abs (sv_store sv4)))"
            using k3 s4(2) id by (auto simp: only_node_def intro: nodes_kept_trans)
          have c4: "current nn (abs (sv_store sv4)) ?n'"
            using current_kept[OF c3, of "rq_node rq" "abs (sv_store sv4)"] s4(2) id by (simp add: only_node_def)
          have t4: "touches (rq_node rq) (abs (sv_store sv)) (abs (sv_store sv4))"
            using t3 only_node_touches[OF s4(2)] id by (auto intro: touches_trans)
          from au Inr p u2 None True d3 Some u4 assms(1) have "h ?n' body sv4 = (reply, sv')" by (simp add: authed_def Let_def)
          moreover have "\<exists>b. ?n' = stored\<lparr> n_last_seen := now, n_silent := b \<rparr> \<and> (b \<longrightarrow> n_silent stored)" "n_id ?n' = rq_node rq"
            using id True by (auto intro: exI[of _ True])
          ultimately show thesis using handled[OF sg st0 bd _ _ s4(1) c4 k4 t4] by blast
        qed
      qed
    qed
  qed
qed

end

context relay_store
begin

lemma handleAlert_step:
  assumes "handleAlert env ops now node body sv = (reply, sv')" "inv (sv_store sv)"
    "current nn (abs (sv_store sv)) node" "time_ok now"
  shows "inv (sv_store sv')" "touches (n_id node) (abs (sv_store sv)) (abs (sv_store sv'))"
proof -
  have "inv (sv_store sv') \<and> touches (n_id node) (abs (sv_store sv)) (abs (sv_store sv'))"
  proof (cases "e_alert env body")
    case None
    with assms show ?thesis by (simp add: handleAlert_def)
  next
    case (Some req)
    show ?thesis
    proof (cases "ValidAlert req")
      case False
      with assms Some show ?thesis by (simp add: handleAlert_def)
    next
      case True
      let ?req = "if is_zero (ar_at req) then req\<lparr> ar_at := now \<rparr> else req"
      obtain e sv1 where d: "deliver ops now node ?req sv = (e, sv1)" by (cases "deliver ops now node ?req sv")
      from d True Some assms(1) have "sv' = sv1" by (auto simp: handleAlert_def Let_def split: option.splits)
      with deliver_step[OF d assms(2-4)] deliver_touches show ?thesis by blast
    qed
  qed
  then show "inv (sv_store sv')" "touches (n_id node) (abs (sv_store sv)) (abs (sv_store sv'))" by blast+
qed

lemma handleHeartbeat_step:
  assumes "handleHeartbeat env ops node body sv = (reply, sv')" "inv (sv_store sv)"
    "current nn (abs (sv_store sv)) node"
  shows "inv (sv_store sv')" "touches (n_id node) (abs (sv_store sv)) (abs (sv_store sv'))"
    "fst reply = 204 \<Longrightarrow> \<exists>req. e_heartbeat env body = Some req \<and>
       a_nodes (abs (sv_store sv')) (n_id node) = Some (nn (node\<lparr> n_summary := hb_summary req \<rparr>))"
proof -
  have "inv (sv_store sv') \<and> touches (n_id node) (abs (sv_store sv)) (abs (sv_store sv')) \<and>
    (fst reply = 204 \<longrightarrow> (\<exists>req. e_heartbeat env body = Some req \<and>
       a_nodes (abs (sv_store sv')) (n_id node) = Some (nn (node\<lparr> n_summary := hb_summary req \<rparr>))))"
  proof (cases "e_heartbeat env body")
    case None
    with assms show ?thesis by (auto simp: handleHeartbeat_def writeError_def)
  next
    case (Some req)
    let ?n = "node\<lparr> n_summary := hb_summary req \<rparr>"
    obtain e sv1 where u: "on_store (UpdateNode ops ?n) sv = (e, sv1)" by (cases "on_store (UpdateNode ops ?n) sv")
    have c: "current nn (abs (sv_store sv)) ?n"
      by (rule current_change[OF assms(3)]) (use assms(3) in \<open>simp_all add: current_def node_ok_def\<close>)
    note s = update_current[OF assms(2) c on_store_frame(1)[OF u]]
    from u Some assms(1) have r: "sv' = sv1" "fst reply = 204 \<longrightarrow> e = None"
      by (auto simp: handleHeartbeat_def writeError_def split: option.splits)
    with s(1) only_node_touches[OF s(2)] s(3) Some show ?thesis by (auto simp: update_node_spec_def)
  qed
  then show "inv (sv_store sv')" "touches (n_id node) (abs (sv_store sv)) (abs (sv_store sv'))"
    "fst reply = 204 \<Longrightarrow> \<exists>req. e_heartbeat env body = Some req \<and>
       a_nodes (abs (sv_store sv')) (n_id node) = Some (nn (node\<lparr> n_summary := hb_summary req \<rparr>))" by blast+
qed

lemma deleted_touches: "delete_node_spec i A e A' \<Longrightarrow> touches i A A'"
  by (auto simp: delete_node_spec_def touches_def split: option.splits)

lemma handleUnpair_step:
  assumes "handleUnpair ops now node body sv = (reply, sv')" "inv (sv_store sv)"
    "current nn (abs (sv_store sv)) node"
  shows "inv (sv_store sv')" "touches (n_id node) (abs (sv_store sv)) (abs (sv_store sv'))"
    "fst reply = 204 \<Longrightarrow> a_nodes (abs (sv_store sv')) (n_id node) = None"
proof -
  have idok: "id_ok (n_id node)" using assms(3) by (simp add: current_def node_ok_def)
  obtain e sv1 where d: "on_store (DeleteNode ops (n_id node)) sv = (e, sv1)" by (cases "on_store (DeleteNode ops (n_id node)) sv")
  note s = delete_node[OF assms(2) idok on_store_frame(1)[OF d]]
  have t1: "touches (n_id node) (abs (sv_store sv)) (abs (sv_store sv1))" using s deleted_touches by blast
  obtain e2 sv2 where n: "notify ops now node (unpaired_text node) sv1 = (e2, sv2)"
    by (cases "notify ops now node (unpaired_text node) sv1")
  have c1: "current nn (abs (sv_store sv1)) node"
    using s assms(3) by (cases e) (auto simp: delete_node_spec_def current_def)
  have i1: "inv (sv_store sv1)" using s by blast
  note s2 = notify_step[OF n i1 c1]
  show "inv (sv_store sv')" "touches (n_id node) (abs (sv_store sv)) (abs (sv_store sv'))"
    "fst reply = 204 \<Longrightarrow> a_nodes (abs (sv_store sv')) (n_id node) = None"
  proof -
    have "sv' = sv1 \<and> fst reply \<noteq> 204 \<or> sv' = sv2 \<and> (e = None \<or> e = Some ErrNotFound)"
      using d n assms(1) by (auto simp: handleUnpair_def writeError_def split: if_splits)
    moreover have "a_nodes (abs (sv_store sv2)) (n_id node) = None" if "e = None \<or> e = Some ErrNotFound"
    proof -
      have "a_nodes (abs (sv_store sv1)) (n_id node) = None" using that s by (auto simp: delete_node_spec_def)
      with s2 show ?thesis by (simp add: only_node_def nodes_kept_def)
    qed
    moreover have "touches (n_id node) (abs (sv_store sv)) (abs (sv_store sv2))"
      using s2 t1 only_node_touches touches_trans by blast
    ultimately show "inv (sv_store sv')" "touches (n_id node) (abs (sv_store sv)) (abs (sv_store sv'))"
      "fst reply = 204 \<Longrightarrow> a_nodes (abs (sv_store sv')) (n_id node) = None"
      using s2 i1 t1 by auto
  qed
qed


end

section \<open>Signed endpoints\<close>

text \<open>The three endpoints a node calls.\<close>

datatype endpoint = AlertCall | HeartbeatCall | UnpairCall

fun node_handler :: "env \<Rightarrow> 's store_ops \<Rightarrow> time \<Rightarrow> endpoint \<Rightarrow> 's handler" where
  "node_handler env ops now AlertCall = handleAlert env ops now"
| "node_handler env ops now HeartbeatCall = handleHeartbeat env ops"
| "node_handler env ops now UnpairCall = handleUnpair ops now"

lemma authenticate_status: "authenticate env opts ops now rq sv = (Inl reply, sv') \<Longrightarrow> fst reply \<in> {401, 413, 429, 500}"
  by (auto simp: authenticate_def readBody_def writeError_def Let_def split: if_splits option.splits sum.splits prod.splits)

context relay_store
begin

lemma node_handler_step:
  assumes "node_handler env ops now ep node body sv = (reply, sv')" "inv (sv_store sv)"
    "current nn (abs (sv_store sv)) node" "time_ok now"
  shows "inv (sv_store sv')" "touches (n_id node) (abs (sv_store sv)) (abs (sv_store sv'))"
  using assms by (cases ep; simp add: handleAlert_step handleHeartbeat_step(1,2) handleUnpair_step(1,2))+

lemma endpoint_step:
  assumes run: "authed env opts ops now (node_handler env ops now ep) rq sv = (reply, sv')"
    and inv: "inv (sv_store sv)" and now: "clock_ok now"
  shows "inv (sv_store sv')" "touches (rq_node rq) (abs (sv_store sv)) (abs (sv_store sv'))"
    "\<not> signed_by env (abs (sv_store sv)) now rq \<Longrightarrow>
       abs (sv_store sv') = abs (sv_store sv) \<and> sv_sent sv' = sv_sent sv \<and> fst reply \<in> {401, 413, 429, 500}"
proof -
  have "inv (sv_store sv') \<and> touches (rq_node rq) (abs (sv_store sv)) (abs (sv_store sv')) \<and>
    (\<not> signed_by env (abs (sv_store sv)) now rq \<longrightarrow>
       abs (sv_store sv') = abs (sv_store sv) \<and> sv_sent sv' = sv_sent sv \<and> fst reply \<in> {401, 413, 429, 500})"
    using run inv now
  proof (cases rule: authed_cases)
    case refused
    with authenticate_status[OF refused(1)] show ?thesis by simp
  next
    case failed
    then show ?thesis by simp
  next
    case (handled stored node body sv2)
    note s = node_handler_step[OF handled(10,6,7) clock_ok_time_ok[OF now]]
    with handled show ?thesis by (auto intro: touches_trans)
  qed
  then show "inv (sv_store sv')" "touches (rq_node rq) (abs (sv_store sv)) (abs (sv_store sv'))"
    "\<not> signed_by env (abs (sv_store sv)) now rq \<Longrightarrow>
       abs (sv_store sv') = abs (sv_store sv) \<and> sv_sent sv' = sv_sent sv \<and> fst reply \<in> {401, 413, 429, 500}" by blast+
qed

text \<open>After a heartbeat the node is known to have been seen now, with the summary it sent.\<close>

lemma heartbeat_seen:
  assumes run: "authed env opts ops now (handleHeartbeat env ops) rq sv = ((204, r), sv')"
    and inv: "inv (sv_store sv)" and now: "clock_ok now"
  shows "\<exists>n. a_nodes (abs (sv_store sv')) (rq_node rq) = Some n \<and> n_last_seen n = tn now"
  using run inv now
proof (cases rule: authed_cases)
  case refused
  with authenticate_status show ?thesis by fastforce
next
  case failed
  then show ?thesis by (simp add: writeError_def)
next
  case (handled stored node body sv2)
  from handleHeartbeat_step(3)[OF handled(10,6,7)] handled(4,5) show ?thesis by (auto simp: nn_fields)
qed

section \<open>Silence\<close>

lemma stored_is_current:
  assumes "inv s" "a_nodes (abs s) i = Some n"
  shows "current nn (abs s) n"
  using stored_current[OF assms, of "n_last_seen n" n "n_silent n"] inv_node_ok[OF assms] by (simp add: node_ok_def)

end

text \<open>What the check may do to the store, for the candidates with the given ids.\<close>

definition silence_spec :: "string set \<Rightarrow> store_abs \<Rightarrow> store_abs \<Rightarrow> bool" where
  "silence_spec I A A' \<longleftrightarrow> a_codes A' = a_codes A \<and> a_mutes A' = a_mutes A \<and>
     (\<forall>j. j \<notin> I \<longrightarrow> a_nodes A' j = a_nodes A j \<and> (\<forall>al. id_ok j \<longrightarrow> a_sent A' (j, al) = a_sent A (j, al))) \<and>
     (\<forall>j n'. j \<in> I \<longrightarrow> a_nodes A' j = Some n' \<longrightarrow> n_silent n' \<longrightarrow>
        fst (last_sent_of A' j ''node_silent'') = Firing)"

lemma suppressed_firing: "suppressed_by_rules now Firing ls \<Longrightarrow> fst ls = Firing"
  by (auto simp: suppressed_by_rules_def Let_def split: if_splits)

context relay_store
begin

lemma raise_one:
  assumes del: "deliver ops now n (silent_alert now n) sv = (e, sv1)"
    and inv: "inv (sv_store sv)" and n: "a_nodes (abs (sv_store sv)) (n_id n) = Some n" "\<not> n_silent n" and now: "time_ok now"
    and sv2: "sv2 = (if e = None then snd (on_store (UpdateNode ops (n\<lparr> n_silent := True \<rparr>)) sv1) else sv1)"
  shows "inv (sv_store sv2) \<and> silence_spec {n_id n} (abs (sv_store sv)) (abs (sv_store sv2))"
proof -
  have cur: "current nn (abs (sv_store sv)) n" by (rule stored_is_current[OF inv n(1)])
  have idok: "id_ok (n_id n)" using cur by (simp add: current_def node_ok_def)
  note d = deliver_step[OF del inv cur now]
  have sp: "deliver_spec tn now n (silent_alert now n) (abs (sv_store sv)) (sv_sent sv) e (abs (sv_store sv1)) (sv_sent sv1)"
    using d by blast
  note t = deliver_touches[OF sp]
  have mut: "a_mutes (abs (sv_store sv1)) = a_mutes (abs (sv_store sv))" using sp by (simp add: deliver_spec_def)
  show ?thesis
  proof (cases e)
    case (Some x)
    have "\<not> n_silent n'" if "a_nodes (abs (sv_store sv1)) (n_id n) = Some n'" for n'
      using d n that by (auto simp: maybe_blocked_def nn_fields)
    with Some sv2 d t mut show ?thesis by (auto simp: silence_spec_def touches_def)
  next
    case None
    have fire: "fst (last_sent_of (abs (sv_store sv1)) (n_id n) ''node_silent'') = Firing"
    proof (cases "suppressed_by_rules now Firing (last_sent_of (abs (sv_store sv)) (n_id n) ''node_silent'')")
      case True
      with sp None have "abs (sv_store sv1) = abs (sv_store sv)" by (simp add: deliver_spec_def silent_alert_def)
      with suppressed_firing[OF True] show ?thesis by simp
    next
      case False
      with sp None show ?thesis by (simp add: deliver_spec_def silent_alert_def last_sent_of_def)
    qed
    obtain e2 sv3 where u: "on_store (UpdateNode ops (n\<lparr> n_silent := True \<rparr>)) sv1 = (e2, sv3)"
      by (cases "on_store (UpdateNode ops (n\<lparr> n_silent := True \<rparr>)) sv1")
    have i1: "inv (sv_store sv1)" and c0: "current nn (abs (sv_store sv1)) n" using d by blast+
    have c1: "current nn (abs (sv_store sv1)) (n\<lparr> n_silent := True \<rparr>)"
      by (rule current_change[OF c0]) (use c0 in \<open>simp_all add: current_def node_ok_def\<close>)
    note s = update_current[OF i1 c1 on_store_frame(1)[OF u]]
    have same: "a_codes (abs (sv_store sv3)) = a_codes (abs (sv_store sv1))" "a_mutes (abs (sv_store sv3)) = a_mutes (abs (sv_store sv1))"
      "a_sent (abs (sv_store sv3)) = a_sent (abs (sv_store sv1))"
      "\<And>j. j \<noteq> n_id n \<Longrightarrow> a_nodes (abs (sv_store sv3)) j = a_nodes (abs (sv_store sv1)) j"
      using s(2) by (auto simp: only_node_def nodes_kept_def)
    have "fst (last_sent_of (abs (sv_store sv3)) (n_id n) ''node_silent'') = Firing"
      using fire same(3) by (simp add: last_sent_of_def)
    with None sv2 u s(1) t mut same show ?thesis by (auto simp: silence_spec_def touches_def)
  qed
qed

lemma raise_silent_step:
  assumes "inv (sv_store sv)" "time_ok now" "distinct (map n_id ns)"
    "\<forall>n \<in> set ns. a_nodes (abs (sv_store sv)) (n_id n) = Some n \<and> \<not> n_silent n"
  shows "inv (sv_store (raise_silent ops now ns sv)) \<and>
     silence_spec (n_id ` set ns) (abs (sv_store sv)) (abs (sv_store (raise_silent ops now ns sv)))"
  using assms
proof (induction ns arbitrary: sv)
  case Nil
  then show ?case by (simp add: silence_spec_def)
next
  case (Cons n ns)
  obtain e sv1 where d: "deliver ops now n (silent_alert now n) sv = (e, sv1)" by (cases "deliver ops now n (silent_alert now n) sv")
  let ?sv2 = "if e = None then snd (on_store (UpdateNode ops (n\<lparr> n_silent := True \<rparr>)) sv1) else sv1"
  have n: "a_nodes (abs (sv_store sv)) (n_id n) = Some n" "\<not> n_silent n" using Cons.prems by auto
  note one = raise_one[OF d Cons.prems(1) n Cons.prems(2) refl]
  have rest: "\<forall>m \<in> set ns. a_nodes (abs (sv_store ?sv2)) (n_id m) = Some m \<and> \<not> n_silent m"
  proof
    fix m assume m: "m \<in> set ns"
    with Cons.prems(3) have "n_id m \<noteq> n_id n" by (auto simp: rev_image_eqI)
    with one m Cons.prems(4) show "a_nodes (abs (sv_store ?sv2)) (n_id m) = Some m \<and> \<not> n_silent m"
      unfolding silence_spec_def by auto
  qed
  have run: "raise_silent ops now (n # ns) sv = raise_silent ops now ns ?sv2"
    using d by (simp split: option.splits)
  have idok: "id_ok (n_id n)" using stored_node_id[OF Cons.prems(1) n(1)] by simp
  have fresh: "n_id n \<notin> n_id ` set ns" using Cons.prems(3) by simp
  have IH: "inv (sv_store (raise_silent ops now ns ?sv2)) \<and>
      silence_spec (n_id ` set ns) (abs (sv_store ?sv2)) (abs (sv_store (raise_silent ops now ns ?sv2)))"
    by (rule Cons.IH) (use one rest Cons.prems in auto)
  let ?A = "abs (sv_store sv)" and ?A1 = "abs (sv_store ?sv2)" and ?A2 = "abs (sv_store (raise_silent ops now ns ?sv2))"
  have "silence_spec (n_id ` set (n # ns)) ?A ?A2"
  proof -
    from one have o: "silence_spec {n_id n} ?A ?A1" by blast
    from IH have r: "silence_spec (n_id ` set ns) ?A1 ?A2" by blast
    have "last_sent_of ?A2 (n_id n) ''node_silent'' = last_sent_of ?A1 (n_id n) ''node_silent''"
      "a_nodes ?A2 (n_id n) = a_nodes ?A1 (n_id n)"
      using r fresh idok by (auto simp: silence_spec_def last_sent_of_def)
    with o r show ?thesis unfolding silence_spec_def by auto
  qed
  with IH show ?case unfolding run by blast
qed

lemma CheckSilent_step:
  assumes "CheckSilent opts ops now sv = (e, sv')" "inv (sv_store sv)" "clock_ok now" "in_int64 (- o_silent_after opts)"
  shows "inv (sv_store sv') \<and>
     silence_spec {j. \<exists>n. a_nodes (abs (sv_store sv)) j = Some n \<and> \<not> n_silent n \<and>
                       n_last_seen n < tn (time_add now (- o_silent_after opts))}
       (abs (sv_store sv)) (abs (sv_store sv'))"
proof -
  let ?b = "time_add now (- o_silent_after opts)"
  have b: "time_ok ?b" using clock_ok_add[OF assms(3,4)] .
  obtain r sv1 where c: "on_store (SilentCandidates ops ?b) sv = (r, sv1)" by (cases "on_store (SilentCandidates ops ?b) sv")
  note s = silent_candidates[OF assms(2) b on_store_frame(1)[OF c]]
  have i1: "inv (sv_store sv1)" "abs (sv_store sv1) = abs (sv_store sv)" using s by (auto simp: silent_candidates_spec_def)
  show ?thesis
  proof (cases r)
    case (Inl x)
    with c assms(1) i1 show ?thesis by (auto simp: CheckSilent_def silence_spec_def)
  next
    case (Inr ns)
    with s have ns: "set ns = {n \<in> ran (a_nodes (abs (sv_store sv))). \<not> n_silent n \<and> n_last_seen n < tn ?b}" "distinct ns"
      by (auto simp: silent_candidates_spec_def)
    have mem: "n \<in> set ns \<longleftrightarrow> a_nodes (abs (sv_store sv)) (n_id n) = Some n \<and> \<not> n_silent n \<and> n_last_seen n < tn ?b" for n
      unfolding ns(1) using ids_matchD[OF inv_ids[OF assms(2)]] by (auto simp: ran_def)
    have dist: "distinct (map n_id ns)"
      using ns(2) mem by (auto simp: distinct_map inj_on_def)
    have ids: "n_id ` set ns = {j. \<exists>n. a_nodes (abs (sv_store sv)) j = Some n \<and> \<not> n_silent n \<and> n_last_seen n < tn ?b}"
      using mem ids_matchD[OF inv_ids[OF assms(2)]] by (force simp: image_iff)
    have "sv' = raise_silent ops now ns sv1" using Inr c assms(1) by (simp add: CheckSilent_def)
    with raise_silent_step[OF i1(1) clock_ok_time_ok[OF assms(3)] dist] mem i1(2) ids show ?thesis by simp
  qed
qed

end

section \<open>Pairing\<close>

lemma hex_digit_no_nul: "0 \<le> d \<Longrightarrow> d < 16 \<Longrightarrow> CHR 0x00 \<noteq> hex_digit d"
proof
  assume d: "0 \<le> d" "d < 16" and e: "CHR 0x00 = hex_digit d"
  from e have "hex_val (CHR 0x00) = Some d" using hex_val_digit[OF d] by metis
  then show False by (simp add: hex_val_def)
qed

lemma newNodeID_ok: "id_ok (newNodeID rnd)"
proof -
  have "CHR 0x00 \<notin> set (hex_encode s)" for s
  proof (induction s)
    case (Cons c s)
    have "0 \<le> (of_char c :: int) div 16" "(of_char c :: int) div 16 < 16"
      using of_char_int_bounds[of c] by linarith+
    with hex_digit_no_nul[of "of_char c div 16"] hex_digit_no_nul[of "of_char c mod 16"] Cons show ?case by simp
  qed simp
  then show ?thesis by (simp add: newNodeID_def id_ok_def)
qed

text \<open>
  A pairing that succeeds: the code was issued, unused and not expired, it is used up now, and the
  chat it was issued to has the new node under a name no other node of that chat has.
\<close>

definition paired_spec :: "(time \<Rightarrow> time) \<Rightarrow> time \<Rightarrow> string \<Rightarrow> bytes \<Rightarrow> pair_request \<Rightarrow> store_abs \<Rightarrow> store_abs \<Rightarrow> bool" where
  "paired_spec tn now i secret req A A' \<longleftrightarrow>
     (let code = to_upper (trim_space (pr_code req)) in
      validName (pr_name req) \<and>
      (\<exists>c n. a_codes A code = Some c \<and> \<not> c_used c \<and> tn now < c_expires c \<and>
         a_codes A' code = Some (c\<lparr> c_used := True \<rparr>) \<and>
         a_nodes A' i = Some n \<and> n_chat n = c_chat c \<and> n_name n = pr_name req \<and> n_secret n = secret \<and>
         (\<forall>j m. a_nodes A j = Some m \<longrightarrow> n_chat m \<noteq> c_chat c \<or> n_name m \<noteq> pr_name req)) \<and>
      (\<forall>j. j \<noteq> i \<longrightarrow> a_nodes A' j = a_nodes A j) \<and> a_mutes A' = a_mutes A \<and> a_sent A' = a_sent A)"

context relay_store
begin

lemma handlePair_step:
  assumes run: "handlePair env opts ops now rnd_id rnd_secret rq sv = (reply, sv')"
    and inv: "inv (sv_store sv)" and now: "clock_ok now"
    and fresh: "a_nodes (abs (sv_store sv)) (newNodeID rnd_id) = None"
  shows "inv (sv_store sv') \<and>
     (if fst reply = 200
      then \<exists>body req. rq_body rq = Some body \<and> e_pair env body = Some req \<and>
        paired_spec tn now (newNodeID rnd_id) rnd_secret req (abs (sv_store sv)) (abs (sv_store sv'))
      else a_nodes (abs (sv_store sv')) = a_nodes (abs (sv_store sv)) \<and>
           a_mutes (abs (sv_store sv')) = a_mutes (abs (sv_store sv)) \<and>
           a_sent (abs (sv_store sv')) = a_sent (abs (sv_store sv)) \<and> sv_sent sv' = sv_sent sv)"
proof -
  obtain ok lim where al: "allow now (clientIP (o_trusted opts) (rq_remote rq) (rq_xff rq)) (sv_pair_limit sv) = (ok, lim)"
    by (cases "allow now (clientIP (o_trusted opts) (rq_remote rq) (rq_xff rq)) (sv_pair_limit sv)")
  let ?sv1 = "sv\<lparr> sv_pair_limit := lim \<rparr>"
  show ?thesis
  proof (cases "\<exists>body req. ok \<and> rq_body rq = Some body \<and> int (length body) \<le> MaxBody \<and> e_pair env body = Some req \<and> validName (pr_name req)")
    case False
    with run al have "sv' = ?sv1 \<and> fst reply \<noteq> 200"
      by (auto simp: handlePair_def readBody_def writeError_def Let_def split: if_splits option.splits)
    with inv show ?thesis by simp
  next
    case True
    then obtain body req where b: "ok" "rq_body rq = Some body" "int (length body) \<le> MaxBody"
      "e_pair env body = Some req" "validName (pr_name req)" by blast
    let ?code = "to_upper (trim_space (pr_code req))"
    obtain rc sv2 where cc: "on_store (ConsumeCode ops ?code now) ?sv1 = (rc, sv2)"
      by (cases "on_store (ConsumeCode ops ?code now) ?sv1")
    note f2 = on_store_frame[OF cc]
    have i1: "inv (sv_store ?sv1)" using inv by simp
    have e1: "sv_store ?sv1 = sv_store sv" by simp
    note s2 = consume_code[OF i1 now f2(1), unfolded e1]
    have i2: "inv (sv_store sv2)" using s2 by blast
    show ?thesis
    proof (cases rc)
      case (Inl x)
      with run al b cc have "sv' = sv2 \<and> fst reply \<noteq> 200"
        by (auto simp: handlePair_def readBody_def writeError_def Let_def not_less[symmetric] split: if_splits)
      with Inl s2 f2 show ?thesis by (auto simp: consume_code_spec_def)
    next
      case (Inr chat)
      let ?n = "\<lparr> n_id = newNodeID rnd_id, n_chat = chat, n_name = pr_name req, n_host = pr_host req,
                  n_version = pr_version req, n_secret = rnd_secret, n_created = now, n_last_seen = now,
                  n_silent = False, n_blocked = False, n_summary = empty_summary \<rparr>"
      have same2: "a_nodes (abs (sv_store sv2)) = a_nodes (abs (sv_store sv))"
        "a_mutes (abs (sv_store sv2)) = a_mutes (abs (sv_store sv))"
        "a_sent (abs (sv_store sv2)) = a_sent (abs (sv_store sv))"
      proof -
        from s2 have "\<exists>C. abs (sv_store sv2) = (abs (sv_store sv))\<lparr> a_codes := C \<rparr>"
          unfolding Inr consume_code_spec_def sum.case by blast
        then show "a_nodes (abs (sv_store sv2)) = a_nodes (abs (sv_store sv))"
          "a_mutes (abs (sv_store sv2)) = a_mutes (abs (sv_store sv))"
          "a_sent (abs (sv_store sv2)) = a_sent (abs (sv_store sv))" by auto
      qed
      obtain c where c: "a_codes (abs (sv_store sv)) ?code = Some c" "c_chat c = chat" "\<not> c_used c" "tn now < c_expires c"
        "a_codes (abs (sv_store sv2)) ?code = Some (c\<lparr> c_used := True \<rparr>)"
        using s2 Inr unfolding consume_code_spec_def by auto
      obtain e3 sv3 where cn: "on_store (CreateNode ops ?n) sv2 = (e3, sv3)" by (cases "on_store (CreateNode ops ?n) sv2")
      note f3 = on_store_frame[OF cn]
      have nok: "node_ok ?n" using newNodeID_ok clock_ok_time_ok[OF now] by (simp add: node_ok_def)
      have fresh2: "a_nodes (abs (sv_store sv2)) (n_id ?n) = None" using same2(1) fresh by simp
      note s3 = create_node[OF i2 nok fresh2 f3(1)]
      have i3: "inv (sv_store sv3)" using s3 by blast
      show ?thesis
      proof (cases e3)
        case (Some x)
        with run al b cc Inr cn have "sv' = sv3 \<and> fst reply \<noteq> 200"
          by (auto simp: handlePair_def readBody_def writeError_def Let_def not_less[symmetric] split: if_splits)
        moreover have "abs (sv_store sv3) = abs (sv_store sv2)" using s3 Some by (simp add: create_node_spec_def)
        ultimately show ?thesis using i3 same2 f2 f3 by simp
      next
        case None
        obtain e4 sv4 where nt: "notify ops now ?n (paired_text ?n) sv3 = (e4, sv4)"
          by (cases "notify ops now ?n (paired_text ?n) sv3")
        from run al b cc Inr cn None nt have r: "sv' = sv4 \<and> fst reply = 200"
          by (auto simp: handlePair_def readBody_def Let_def not_less[symmetric])
        have A3: "abs (sv_store sv3) = (abs (sv_store sv2))\<lparr> a_nodes := (a_nodes (abs (sv_store sv2)))(n_id ?n \<mapsto> nn ?n) \<rparr>"
          and uniq: "\<forall>j m. a_nodes (abs (sv_store sv2)) j = Some m \<longrightarrow> n_chat m \<noteq> chat \<or> n_name m \<noteq> pr_name req"
          using s3 None by (auto simp: create_node_spec_def)
        have c3: "current nn (abs (sv_store sv3)) ?n" using nok A3 by (simp add: current_def)
        note s4 = notify_step[OF nt i3 c3]
        have k4: "nodes_kept (newNodeID rnd_id) (a_nodes (abs (sv_store sv3))) (a_nodes (abs (sv_store sv4)))"
          using s4 by (simp add: only_node_def)
        obtain n4 where n4: "a_nodes (abs (sv_store sv4)) (newNodeID rnd_id) = Some n4" "same_identity (nn ?n) n4"
          using k4 A3 by (auto simp: nodes_kept_def)
        have "paired_spec tn now (newNodeID rnd_id) rnd_secret req (abs (sv_store sv)) (abs (sv_store sv4))"
          unfolding paired_spec_def Let_def
        proof (intro conjI exI[of _ c] exI[of _ n4])
          show "\<forall>j. j \<noteq> newNodeID rnd_id \<longrightarrow> a_nodes (abs (sv_store sv4)) j = a_nodes (abs (sv_store sv)) j"
            using k4 A3 same2 by (simp add: nodes_kept_def)
        qed (use b c n4 s4 A3 same2 uniq in \<open>auto simp: only_node_def same_identity_def nn_fields\<close>)
        with r b s4 show ?thesis by auto
      qed
    qed
  qed
qed

end

end
