(* ===== verification/Go_Duration.thy ===== *)
theory Go_Duration
  imports Go_Time Go_Float
begin

text \<open>
  \<^verbatim>\<open>time.ParseDuration\<close>: a sign, then numbers with units, summed in 64 bits with
  every overflow an error.  The fraction of a number goes through \<^verbatim>\<open>float64\<close>.
\<close>

definition two63 :: int where "two63 = 9223372036854775808"

text \<open>\<^verbatim>\<open>leadingInt\<close>: \<open>None\<close> when the digits overflow.\<close>

fun leading_int :: "int \<Rightarrow> string \<Rightarrow> (int \<times> string) option" where
  "leading_int x [] = Some (x, [])"
| "leading_int x (c # cs) =
     (if \<not> is_digit c then Some (x, c # cs)
      else if x > two63 div 10 then None
      else let y = 10 * x + digit_val c in if y > two63 then None else leading_int y cs)"

text \<open>\<^verbatim>\<open>leadingFraction\<close>: digits beyond the range are dropped.\<close>

fun leading_fraction :: "int \<Rightarrow> int \<Rightarrow> bool \<Rightarrow> string \<Rightarrow> int \<times> int \<times> string" where
  "leading_fraction x scale ovf [] = (x, scale, [])"
| "leading_fraction x scale ovf (c # cs) =
     (if \<not> is_digit c then (x, scale, c # cs)
      else if ovf \<or> x > (two63 - 1) div 10 then leading_fraction x scale True cs
      else let y = 10 * x + digit_val c in
           if y > two63 then leading_fraction x scale True cs
           else leading_fraction y (10 * scale) False cs)"

definition unit_stop :: "char \<Rightarrow> bool" where
  "unit_stop c \<longleftrightarrow> c = CHR ''.'' \<or> is_digit c"

definition unit_of :: "string \<Rightarrow> int option" where
  "unit_of u =
     (if u = ''ns'' then Some 1
      else if u = ''us'' \<or> u = [CHR 0xC2, CHR 0xB5, CHR ''s''] \<or> u = [CHR 0xCE, CHR 0xBC, CHR ''s''] then Some 1000
      else if u = ''ms'' then Some 1000000
      else if u = ''s'' then Some second
      else if u = ''m'' then Some minute
      else if u = ''h'' then Some hour else None)"

text \<open>One number with its unit: its nanoseconds and what follows.\<close>

definition dur_value :: "int \<Rightarrow> int \<Rightarrow> int \<Rightarrow> int \<Rightarrow> int option" where
  "dur_value v f scale unit =
     (if v > two63 div unit then None
      else if f > 0 then
        (let w = wrap_u64 (v * unit + f_to_uint64 (f_mul (f_of_int f) (f_div (f_of_int unit) (f_of_int scale))))
         in if w > two63 then None else Some w)
      else Some (v * unit))"

text \<open>The digits before and after the point: integer part, fraction, its scale, the rest.\<close>

definition dur_number :: "string \<Rightarrow> (int \<times> int \<times> int \<times> string) option" where
  "dur_number s =
     (if s = [] \<or> \<not> unit_stop (hd s) then None else
      case leading_int 0 s of None \<Rightarrow> None | Some (v, s1) \<Rightarrow>
      let pre = length s1 \<noteq> length s;
          (f, scale, s2, post) =
            (case s1 of c # cs \<Rightarrow>
               if c = CHR ''.'' then
                 (case leading_fraction 0 1 False cs of (f, scale, r) \<Rightarrow> (f, scale, r, length r \<noteq> length cs))
               else (0, 1, s1, False)
             | [] \<Rightarrow> (0, 1, s1, False))
      in if \<not> pre \<and> \<not> post then None else Some (v, f, scale, s2))"

definition dur_item :: "string \<Rightarrow> (int \<times> string) option" where
  "dur_item s =
     (case dur_number s of None \<Rightarrow> None | Some (v, f, scale, s2) \<Rightarrow>
      let u = takeWhile (\<lambda>c. \<not> unit_stop c) s2; rest = dropWhile (\<lambda>c. \<not> unit_stop c) s2 in
      if u = [] then None
      else case unit_of u of None \<Rightarrow> None
           | Some unit \<Rightarrow> (case dur_value v f scale unit of None \<Rightarrow> None | Some d \<Rightarrow> Some (d, rest)))"

lemma leading_int_length: "leading_int x s = Some (v, r) \<Longrightarrow> length r \<le> length s"
  by (induction x s rule: leading_int.induct) (auto simp: Let_def split: if_splits)

lemma leading_fraction_length: "leading_fraction x sc ov s = (f, sc', r) \<Longrightarrow> length r \<le> length s"
  by (induction x sc ov s rule: leading_fraction.induct) (auto simp: Let_def split: if_splits)

lemma drop_unit_length:
  "takeWhile P s \<noteq> [] \<Longrightarrow> length (dropWhile P s) < length s"
  by (metis append_Nil length_dropWhile_le nat_less_le takeWhile_dropWhile_id same_length_different length_append length_0_conv add_cancel_right_left)

lemma dur_number_length: "dur_number s = Some (v, f, sc, r) \<Longrightarrow> length r \<le> length s"
  by (auto simp: dur_number_def Let_def split: if_splits option.splits list.splits prod.splits
      dest!: leading_int_length leading_fraction_length)

lemma dur_item_length: "dur_item s = Some (d, r) \<Longrightarrow> length r < length s"
  by (auto simp: dur_item_def Let_def split: if_splits option.splits prod.splits
      dest!: dur_number_length drop_unit_length)

function dur_items :: "int \<Rightarrow> string \<Rightarrow> int option" where
  "dur_items acc s =
     (if s = [] then Some acc
      else case dur_item s of None \<Rightarrow> None
           | Some (v, r) \<Rightarrow> (let d = wrap_u64 (acc + v) in if d > two63 then None else dur_items d r))"
  by pat_completeness auto
termination
  by (relation "measure (\<lambda>(_, s). length s)") (auto dest: dur_item_length)

declare dur_items.simps [simp del]

definition parse_duration :: "string \<Rightarrow> duration option" where
  "parse_duration s =
     (let (neg, t) = (case s of c # cs \<Rightarrow> if c = CHR ''-'' \<or> c = CHR ''+'' then (c = CHR ''-'', cs) else (False, s)
                      | [] \<Rightarrow> (False, [])) in
      if t = ''0'' then Some 0
      else if t = [] then None
      else case dur_items 0 t of None \<Rightarrow> None
           | Some d \<Rightarrow> if neg then Some (- d) else if d > two63 - 1 then None else Some d)"

lemma dur_items_bound: "dur_items acc s = Some d \<Longrightarrow> 0 \<le> acc \<Longrightarrow> acc \<le> two63 \<Longrightarrow> 0 \<le> d \<and> d \<le> two63"
proof (induction acc s rule: dur_items.induct)
  case (1 acc s)
  then show ?case
    by (subst (asm) (2) dur_items.simps)
       (auto simp: Let_def wrap_u64_def split: if_splits option.splits prod.splits)
qed

text \<open>A parsed duration is a 64-bit value.\<close>

lemma parse_duration_range: "parse_duration s = Some d \<Longrightarrow> in_int64 d"
  by (auto simp: parse_duration_def Let_def in_int64_def min_int64_def max_int64_def two63_def
      dest!: dur_items_bound split: if_splits option.splits prod.splits list.splits)

end
