(* ===== verification/Relay_Commands.thy ===== *)
theory Relay_Commands
  imports Relay_Requests Go_Duration
begin

text \<open>
  \<^verbatim>\<open>internal/relay/commands.go\<close>: the commands of the chat bot.  A command returns its
  reply, already in MarkdownV2, or the store's error.  \<open>HandleUpdate\<close> returns \<open>None\<close> where the code
  would panic on an index out of range; \<open>rnd\<close> are the random bytes of a new code, \<open>wall\<close> is the clock
  the store reads itself.
\<close>

definition quoted :: "string \<Rightarrow> string" where "quoted s = CHR 0x22 # s @ [CHR 0x22]"

definition helpText :: string where
  "helpText =
     ''*nomctl alerts bot*'' @ newline @ newline @
     ''/start '' @ backslash # ''- get a pairing code for a new node'' @ newline @
     ''/nodes '' @ backslash # ''- list your paired nodes'' @ newline @
     ''/mute NAME ALERT '' @ backslash # ''[DURATION'' @ backslash # ''] '' @ backslash # ''- silence an alert '' @
       backslash # ''(or '' @ quoted ''all'' @ backslash # ''), default 24h'' @ newline @
     ''/unmute NAME ALERT '' @ backslash # ''- resume an alert '' @ backslash # ''(or '' @ quoted ''all'' @ backslash # '')'' @ newline @
     ''/unpair NAME '' @ backslash # ''- forget a node'' @ newline @
     ''/help '' @ backslash # ''- this text'' @ newline @ newline @
     ''Pair a node with: `sudo nomctl alerts setup`''"

definition relayHost :: "options \<Rightarrow> string" where
  "relayHost opts = (if o_public_host opts \<noteq> [] then o_public_host opts else ''the relay'')"

definition alertNames :: "string list" where "alertNames = map ai_name Alerts"

definition validAlert :: "string \<Rightarrow> bool" where
  "validAlert name \<longleftrightarrow> (if name = ''all'' then True else Lookup name \<noteq> None)"

text \<open>Days by a suffix, anything else as a Go duration; the product is taken in 64 bits.\<close>

definition parseMuteDuration :: "string \<Rightarrow> duration option" where
  "parseMuteDuration s =
     (if has_suffix s ''d'' then
        (case parse_int (trim_suffix s ''d'') of
           None \<Rightarrow> None
         | Some n \<Rightarrow> if n \<le> 0 then None else Some (wrap64 (wrap64 (n * 24) * hour)))
      else case parse_duration s of
             None \<Rightarrow> None
           | Some d \<Rightarrow> if d \<le> 0 then None else Some d)"

type_synonym 's command = "'s server \<Rightarrow> (store_error, string) result \<times> 's server"

definition start_text :: "options \<Rightarrow> string \<Rightarrow> string" where
  "start_text opts code =
     Escape (PrivacyNotice (relayHost opts)) @ newline @ newline @
     ''Your pairing code is '' @ Code code @ '' '' @ backslash # ''(valid '' @ show_int (CodeTTL div minute) @
     '' minutes'' @ backslash # '')'' @ backslash # ''.'' @ newline @ newline @ ''On the node run:'' @ newline @
     Code (''sudo nomctl alerts setup --code '' @ code) @ newline @ newline @
     ''and enter the code when asked'' @ backslash # ''.'' @
     (if o_public_url opts \<noteq> [] then newline @ newline @ ''Relay: '' @ Escape (o_public_url opts) else [])"

definition cmdStart :: "options \<Rightarrow> 's store_ops \<Rightarrow> time \<Rightarrow> time \<Rightarrow> bytes \<Rightarrow> int \<Rightarrow> 's command" where
  "cmdStart opts ops now wall rnd chat sv =
     (let code = NewCode rnd in
      case on_store (CreateCode ops wall chat code (time_add now CodeTTL)) sv of
        (Some e, sv1) \<Rightarrow>
          (if e = ErrTooManyCodes
           then Inr (Escape ''You already have several unused pairing codes. Use one of them, or wait 10 minutes.'')
           else Inl e, sv1)
      | (None, sv1) \<Rightarrow> (Inr (start_text opts code), sv1))"

definition cmdNodes :: "'s store_ops \<Rightarrow> time \<Rightarrow> int \<Rightarrow> 's command" where
  "cmdNodes ops now chat sv =
     (case on_store (ListNodes ops chat) sv of
        (Inl e, sv1) \<Rightarrow> (Inl e, sv1)
      | (Inr ns, sv1) \<Rightarrow>
          (Inr (if ns = [] then Escape ''No nodes paired with this chat yet. Send /start to get a pairing code.''
                else join_with (newline @ newline) (map (\<lambda>n. NodeCard n now) ns)), sv1))"

definition findNode :: "'s store_ops \<Rightarrow> int \<Rightarrow> string \<Rightarrow> 's server \<Rightarrow> (store_error, node option) result \<times> 's server" where
  "findNode ops chat name sv =
     (case on_store (ListNodes ops chat) sv of
        (Inl e, sv1) \<Rightarrow> (Inl e, sv1)
      | (Inr ns, sv1) \<Rightarrow> (Inr (find (\<lambda>n. equal_fold (n_name n) name) ns), sv1))"

definition no_node_text :: "string \<Rightarrow> string" where
  "no_node_text name = Escape (''No node named '' @ go_quote name @ '' in this chat. See /nodes.'')"

definition unknown_alert_text :: "string \<Rightarrow> string" where
  "unknown_alert_text a = Escape (''Unknown alert '' @ go_quote a @ ''. Use one of: '' @ join_with '', '' alertNames @ '', or all.'')"

definition cmdMute :: "'s store_ops \<Rightarrow> time \<Rightarrow> int \<Rightarrow> string list \<Rightarrow> 's command" where
  "cmdMute ops now chat args sv =
     (case args of
        name # alert0 # rest \<Rightarrow>
          (case findNode ops chat name sv of
             (Inl e, sv1) \<Rightarrow> (Inl e, sv1)
           | (Inr None, sv1) \<Rightarrow> (Inr (no_node_text name), sv1)
           | (Inr (Some node), sv1) \<Rightarrow>
               let alert = to_lower alert0 in
               if \<not> validAlert alert then (Inr (unknown_alert_text alert0), sv1)
               else (case (case rest of [] \<Rightarrow> Some (24 * hour) | d # _ \<Rightarrow> parseMuteDuration d) of
                       None \<Rightarrow> (Inr (Escape ''Duration must look like 30m, 2h, 1d.''), sv1)
                     | Some d \<Rightarrow>
                         (case on_store (SetMute ops \<lparr> mu_node = n_id node, mu_alert = alert, mu_until = time_add now d \<rparr>) sv1 of
                            (Some e, sv2) \<Rightarrow> (Inl e, sv2)
                          | (None, sv2) \<Rightarrow>
                              (Inr (Escape (''Muted '' @ alert @ '' on '' @ n_name node @ '' for '' @ duration_string d @ ''.'')), sv2))))
      | _ \<Rightarrow> (Inr (Escape ''Usage: /mute NAME ALERT [DURATION], e.g. /mute pillar-1 disk_low 2d''), sv))"

definition cmdUnmute :: "'s store_ops \<Rightarrow> int \<Rightarrow> string list \<Rightarrow> 's command" where
  "cmdUnmute ops chat args sv =
     (case args of
        name # alert0 # rest \<Rightarrow>
          (case findNode ops chat name sv of
             (Inl e, sv1) \<Rightarrow> (Inl e, sv1)
           | (Inr None, sv1) \<Rightarrow> (Inr (no_node_text name), sv1)
           | (Inr (Some node), sv1) \<Rightarrow>
               let alert = to_lower alert0 in
               if \<not> validAlert alert then (Inr (unknown_alert_text alert0), sv1)
               else (case on_store (ClearMute ops (n_id node) alert) sv1 of
                       (Some e, sv2) \<Rightarrow> (Inl e, sv2)
                     | (None, sv2) \<Rightarrow> (Inr (Escape (''Unmuted '' @ alert @ '' on '' @ n_name node @ ''.'')), sv2)))
      | _ \<Rightarrow> (Inr (Escape ''Usage: /unmute NAME ALERT''), sv))"

definition cmdUnpair :: "'s store_ops \<Rightarrow> int \<Rightarrow> string list \<Rightarrow> 's command" where
  "cmdUnpair ops chat args sv =
     (case args of
        name # rest \<Rightarrow>
          (case findNode ops chat name sv of
             (Inl e, sv1) \<Rightarrow> (Inl e, sv1)
           | (Inr None, sv1) \<Rightarrow> (Inr (no_node_text name), sv1)
           | (Inr (Some node), sv1) \<Rightarrow>
               (case on_store (DeleteNode ops (n_id node)) sv1 of
                  (Some e, sv2) \<Rightarrow> (Inl e, sv2)
                | (None, sv2) \<Rightarrow>
                    (Inr (Escape (''Unpaired '' @ n_name node @
                       ''. Its alerts daemon will stop reporting; run `sudo nomctl alerts setup` on the node to pair again.'')), sv2)))
      | _ \<Rightarrow> (Inr (Escape ''Usage: /unpair NAME''), sv))"

text \<open>The command word: lower case, without the bot name some clients append.\<close>

definition command_word :: "string \<Rightarrow> string" where
  "command_word w =
     (let cmd = to_lower w in
      case index_byte cmd (CHR ''@'') of None \<Rightarrow> cmd | Some i \<Rightarrow> if i > 0 then take i cmd else cmd)"

definition dispatch ::
  "options \<Rightarrow> 's store_ops \<Rightarrow> time \<Rightarrow> time \<Rightarrow> bytes \<Rightarrow> int \<Rightarrow> string \<Rightarrow> string list \<Rightarrow> 's command" where
  "dispatch opts ops now wall rnd chat cmd args sv =
     (if cmd = ''/start'' then cmdStart opts ops now wall rnd chat sv
      else if cmd = ''/nodes'' then cmdNodes ops now chat sv
      else if cmd = ''/mute'' then cmdMute ops now chat args sv
      else if cmd = ''/unmute'' then cmdUnmute ops chat args sv
      else if cmd = ''/unpair'' then cmdUnpair ops chat args sv
      else (Inr helpText, sv))"

definition HandleUpdate ::
  "options \<Rightarrow> 's store_ops \<Rightarrow> time \<Rightarrow> time \<Rightarrow> bytes \<Rightarrow> update \<Rightarrow> 's server \<Rightarrow> (tg_error option \<times> 's server) option" where
  "HandleUpdate opts ops now wall rnd u sv =
     (if u_chat_id u = 0 \<or> \<not> has_prefix (u_text u) ''/'' then Some (None, sv)
      else
        let sv1 = clearBlocked ops (u_chat_id u) sv in
        case str_fields (u_text u) of
          [] \<Rightarrow> None
        | w # args \<Rightarrow>
            (case dispatch opts ops now wall rnd (u_chat_id u) (command_word w) args sv1 of
               (r, sv2) \<Rightarrow>
                 Some (tg_send (u_chat_id u)
                   (case r of Inl e \<Rightarrow> Escape ''Something went wrong; please try again.'' | Inr msg \<Rightarrow> msg) sv2)))"

section \<open>Parsing\<close>

lemma handle_update_fields:
  assumes "has_prefix s ''/''"
  obtains w args where "str_fields s = w # args"
proof -
  from assms obtain t where "s = CHR ''/'' # t" by (auto simp: has_prefix_iff)
  moreover have "byte_val (CHR ''/'') < 128" "\<not> is_space (byte_val (CHR ''/''))" by (simp_all add: is_space_def)
  ultimately show thesis using fields_first[of "CHR ''/''" t] that by metis
qed

lemma parseMuteDuration_range: "parseMuteDuration s = Some d \<Longrightarrow> in_int64 d"
  by (auto simp: parseMuteDuration_def wrap64_range parse_duration_range split: if_splits option.splits)

text \<open>Up to 106751 days the duration is exact.\<close>

lemma parseMuteDuration_days:
  assumes "1 \<le> n" "n \<le> 106751"
  shows "parseMuteDuration (show_int n @ ''d'') = Some (n * 24 * hour)"
proof -
  have r: "in_int64 n" "in_int64 (n * 24)" "in_int64 (n * 24 * hour)"
    using assms by (simp_all add: in_int64_def min_int64_def max_int64_def hour_def)
  show ?thesis using assms r by (simp add: parseMuteDuration_def parse_show_int wrap64_id)
qed

section \<open>Well-formed replies\<close>

lemma md_ok_Escape_append [simp]: "md_ok (Escape s @ b) = md_ok b" by (simp add: md_ok_append)
lemma md_ok_Bold_append [simp]: "md_ok (Bold s @ b) = md_ok b" by (simp add: md_ok_append)
lemma md_ok_Code_append [simp]: "md_ok (Code s @ b) = md_ok b" by (simp add: md_ok_append)
lemma md_ok_newline_append [simp]: "md_ok (newline @ b) = md_ok b" by (simp add: md_ok_append)

lemma md_ok_Cons_back: "special_char c \<Longrightarrow> md_ok (CHR 0x5C # c # s) = md_ok s"
  using md_ok_Cons_escaped[of c s] by (simp add: backslash_def)

lemma md_ok_join: "md_ok sep \<Longrightarrow> \<forall>w \<in> set ws. md_ok w \<Longrightarrow> md_ok (join_with sep ws)"
  by (induction ws rule: induct_list012) (simp_all add: md_ok_append)

lemma helpText_md_ok: "md_ok helpText" by code_simp

lemma start_text_md_ok: "md_ok (start_text opts code)"
proof -
  have ten: "show_int (CodeTTL div minute) = ''10''" by code_simp
  show ?thesis unfolding start_text_def ten
    by (simp add: md_ok_Cons md_ok_Cons_back special_defs)
qed

lemma FormatMessage_md_ok: "md_ok (FormatMessage n a)"
  by (simp add: FormatMessage_def alert_icon_def middot_def md_ok_append md_ok_Cons special_defs)

lemma paired_text_md_ok: "md_ok (paired_text n)"
  by (simp add: paired_text_def md_ok_append md_ok_Cons md_ok_Cons_back special_defs)

lemma unpaired_text_md_ok: "md_ok (unpaired_text n)"
  by (simp add: unpaired_text_def md_ok_append md_ok_Cons md_ok_Cons_back special_defs)

lemma dispatch_md_ok:
  assumes "dispatch opts ops now wall rnd chat cmd args sv = (Inr msg, sv')"
  shows "md_ok msg"
proof -
  have card: "\<forall>w \<in> set (map (\<lambda>n. NodeCard n now) ns). md_ok w" for ns by (simp add: NodeCard_md_ok)
  have sep: "md_ok (newline @ newline)" by simp
  show ?thesis
    using assms md_ok_join[OF sep card]
    by (auto simp: dispatch_def cmdStart_def cmdNodes_def cmdMute_def cmdUnmute_def cmdUnpair_def
        no_node_text_def unknown_alert_text_def Let_def helpText_md_ok start_text_md_ok
        split: if_splits list.splits sum.splits option.splits prod.splits)
qed

section \<open>One chat at a time\<close>

text \<open>
  What a command of chat \<open>c\<close> leaves alone: the nodes of other chats with everything recorded for
  them, the codes of other chats, and the ids nobody has.
\<close>

definition chat_spec :: "int \<Rightarrow> store_abs \<Rightarrow> store_abs \<Rightarrow> bool" where
  "chat_spec c A A' \<longleftrightarrow>
     (\<forall>j m. a_nodes A j = Some m \<longrightarrow> n_chat m \<noteq> c \<longrightarrow> a_nodes A' j = Some m \<and>
        (\<forall>al. a_mutes A' (j, al) = a_mutes A (j, al) \<and> a_sent A' (j, al) = a_sent A (j, al))) \<and>
     (\<forall>j. a_nodes A j = None \<longrightarrow> a_nodes A' j = None) \<and>
     (\<forall>k r. a_codes A k = Some r \<longrightarrow> c_chat r \<noteq> c \<longrightarrow> a_codes A' k = Some r)"

lemma chat_spec_refl [simp]: "chat_spec c A A"
  by (simp add: chat_spec_def)

lemma chat_spec_trans: "chat_spec c A B \<Longrightarrow> chat_spec c B C \<Longrightarrow> chat_spec c A C"
  unfolding chat_spec_def by (intro conjI allI impI) metis+

context relay_store
begin

lemma only_node_chat:
  assumes "inv s" "only_node i (abs s) A'" "a_nodes (abs s) i = Some m" "n_chat m = c"
  shows "chat_spec c (abs s) A'"
proof -
  from assms(2,3) obtain m' where m': "a_nodes A' i = Some m'" by (auto simp: only_node_def nodes_kept_def)
  have "a_nodes A' j = a_nodes (abs s) j" if "j \<noteq> i" for j
    using assms(2) that by (simp add: only_node_def nodes_kept_def)
  then have "\<forall>j x. a_nodes (abs s) j = Some x \<longrightarrow> n_chat x \<noteq> c \<longrightarrow> a_nodes A' j = Some x"
    "\<forall>j. a_nodes (abs s) j = None \<longrightarrow> a_nodes A' j = None"
    using assms(3,4) m' by (metis option.inject, metis option.distinct(1))
  with assms(2) show ?thesis by (simp add: chat_spec_def only_node_def)
qed

lemma listed:
  assumes "on_store (ListNodes ops c) sv = (Inr ns, sv1)" "inv (sv_store sv)"
  shows "inv (sv_store sv1)" "abs (sv_store sv1) = abs (sv_store sv)" "sv_sent sv1 = sv_sent sv"
    "n \<in> set ns \<Longrightarrow> a_nodes (abs (sv_store sv)) (n_id n) = Some n \<and> n_chat n = c" "distinct (map n_id ns)"
proof -
  note l = list_nodes[OF assms(2) on_store_frame(1)[OF assms(1)]]
  show "inv (sv_store sv1)" "abs (sv_store sv1) = abs (sv_store sv)" "sv_sent sv1 = sv_sent sv"
    using l on_store_frame(2)[OF assms(1)] by (auto simp: list_nodes_spec_def)
  have mem: "a_nodes (abs (sv_store sv)) (n_id n) = Some n \<and> n_chat n = c" if "n \<in> set ns" for n
    using l that ids_matchD[OF inv_ids[OF assms(2)]] by (auto simp: list_nodes_spec_def ran_def)
  then show "n \<in> set ns \<Longrightarrow> a_nodes (abs (sv_store sv)) (n_id n) = Some n \<and> n_chat n = c" .
  show "distinct (map n_id ns)"
  proof -
    have "inj_on n_id (set ns)" using mem by (intro inj_onI) (metis option.inject)
    with l show ?thesis by (simp add: distinct_map list_nodes_spec_def)
  qed
qed

lemma list_failed:
  assumes "on_store (ListNodes ops c) sv = (Inl e, sv1)" "inv (sv_store sv)"
  shows "inv (sv_store sv1)" "abs (sv_store sv1) = abs (sv_store sv)" "sv_sent sv1 = sv_sent sv"
  using list_nodes[OF assms(2) on_store_frame(1)[OF assms(1)]] on_store_frame(2)[OF assms(1)]
  by (auto simp: list_nodes_spec_def)

lemma find_node_step:
  assumes "findNode ops c name sv = (r, sv1)" "inv (sv_store sv)"
  shows "inv (sv_store sv1)" "abs (sv_store sv1) = abs (sv_store sv)" "sv_sent sv1 = sv_sent sv"
    "r = Inr (Some n) \<Longrightarrow> a_nodes (abs (sv_store sv)) (n_id n) = Some n \<and> n_chat n = c \<and> equal_fold (n_name n) name"
proof -
  obtain rl sv2 where l: "on_store (ListNodes ops c) sv = (rl, sv2)" by (cases "on_store (ListNodes ops c) sv")
  have "inv (sv_store sv1) \<and> abs (sv_store sv1) = abs (sv_store sv) \<and> sv_sent sv1 = sv_sent sv \<and>
    (r = Inr (Some n) \<longrightarrow> a_nodes (abs (sv_store sv)) (n_id n) = Some n \<and> n_chat n = c \<and> equal_fold (n_name n) name)"
  proof (cases rl)
    case (Inl e)
    with list_failed[OF l[unfolded Inl] assms(2)] l assms(1) show ?thesis by (auto simp: findNode_def)
  next
    case (Inr ns)
    with listed(1-3)[OF l[unfolded Inr] assms(2)] listed(4)[OF l[unfolded Inr] assms(2)] l assms(1)
    show ?thesis by (auto simp: findNode_def dest!: find_SomeD)
  qed
  then show "inv (sv_store sv1)" "abs (sv_store sv1) = abs (sv_store sv)" "sv_sent sv1 = sv_sent sv"
    "r = Inr (Some n) \<Longrightarrow> a_nodes (abs (sv_store sv)) (n_id n) = Some n \<and> n_chat n = c \<and> equal_fold (n_name n) name"
    by blast+
qed

lemma unblock_step:
  assumes "inv (sv_store sv)" "distinct (map n_id ns)"
    "\<forall>n \<in> set ns. a_nodes (abs (sv_store sv)) (n_id n) = Some n \<and> n_chat n = c"
  shows "inv (sv_store (unblock_all ops ns sv)) \<and> chat_spec c (abs (sv_store sv)) (abs (sv_store (unblock_all ops ns sv))) \<and>
     a_codes (abs (sv_store (unblock_all ops ns sv))) = a_codes (abs (sv_store sv)) \<and>
     sv_sent (unblock_all ops ns sv) = sv_sent sv"
  using assms
proof (induction ns arbitrary: sv)
  case (Cons n ns)
  let ?m = "n\<lparr> n_blocked := False \<rparr>"
  obtain e sv1 where u: "on_store (UpdateNode ops ?m) sv = (e, sv1)" by (cases "on_store (UpdateNode ops ?m) sv")
  note f = on_store_frame[OF u]
  have n: "a_nodes (abs (sv_store sv)) (n_id n) = Some n" "n_chat n = c" using Cons.prems by auto
  have c0: "current nn (abs (sv_store sv)) n" by (rule stored_is_current[OF Cons.prems(1) n(1)])
  have c1: "current nn (abs (sv_store sv)) ?m"
    by (rule current_change[OF c0]) (use c0 in \<open>simp_all add: current_def node_ok_def\<close>)
  note s = update_current[OF Cons.prems(1) c1 f(1)]
  have ch: "chat_spec c (abs (sv_store sv)) (abs (sv_store sv1))"
    using only_node_chat[OF Cons.prems(1) s(2), of n c] n by simp
  have other: "\<forall>k \<in> set ns. a_nodes (abs (sv_store sv1)) (n_id k) = Some k \<and> n_chat k = c"
  proof
    fix k assume k: "k \<in> set ns"
    with Cons.prems(2) have "n_id k \<noteq> n_id n" by (auto simp: rev_image_eqI)
    with s(2) k Cons.prems(3) show "a_nodes (abs (sv_store sv1)) (n_id k) = Some k \<and> n_chat k = c"
      by (auto simp: only_node_def nodes_kept_def)
  qed
  have d: "distinct (map n_id ns)" using Cons.prems(2) by simp
  show ?case
  proof (cases "n_blocked n")
    case True
    with u have e: "unblock_all ops (n # ns) sv = unblock_all ops ns sv1" by simp
    have "a_codes (abs (sv_store sv1)) = a_codes (abs (sv_store sv))" using s(2) by (simp add: only_node_def)
    with Cons.IH[OF s(1) d other] ch f(2) show ?thesis unfolding e by (auto intro: chat_spec_trans)
  next
    case False
    with Cons.IH[OF Cons.prems(1) d] Cons.prems(3) show ?thesis by simp
  qed
qed simp

lemma clear_blocked_step:
  assumes "inv (sv_store sv)"
  shows "inv (sv_store (clearBlocked ops c sv))" "chat_spec c (abs (sv_store sv)) (abs (sv_store (clearBlocked ops c sv)))"
    "a_codes (abs (sv_store (clearBlocked ops c sv))) = a_codes (abs (sv_store sv))"
    "sv_sent (clearBlocked ops c sv) = sv_sent sv"
proof -
  obtain rl sv2 where l: "on_store (ListNodes ops c) sv = (rl, sv2)" by (cases "on_store (ListNodes ops c) sv")
  have "inv (sv_store (clearBlocked ops c sv)) \<and> chat_spec c (abs (sv_store sv)) (abs (sv_store (clearBlocked ops c sv))) \<and>
    a_codes (abs (sv_store (clearBlocked ops c sv))) = a_codes (abs (sv_store sv)) \<and>
    sv_sent (clearBlocked ops c sv) = sv_sent sv"
  proof (cases rl)
    case (Inl e)
    with list_failed[OF l[unfolded Inl] assms] l show ?thesis by (simp add: clearBlocked_def)
  next
    case (Inr ns)
    note a = listed[OF l[unfolded Inr] assms]
    have "\<forall>n \<in> set ns. a_nodes (abs (sv_store sv2)) (n_id n) = Some n \<and> n_chat n = c" using a(2,4) by simp
    from unblock_step[OF a(1,5) this] a(2,3) l Inr show ?thesis by (simp add: clearBlocked_def)
  qed
  then show "inv (sv_store (clearBlocked ops c sv))" "chat_spec c (abs (sv_store sv)) (abs (sv_store (clearBlocked ops c sv)))"
    "a_codes (abs (sv_store (clearBlocked ops c sv))) = a_codes (abs (sv_store sv))"
    "sv_sent (clearBlocked ops c sv) = sv_sent sv" by blast+
qed

end

context relay_store
begin

lemma touches_chat:
  assumes inv: "inv s" and n: "a_nodes (abs s) i = Some n" "n_chat n = c" and t: "touches i (abs s) A'"
    and none: "\<And>j. a_nodes (abs s) j = None \<Longrightarrow> a_nodes A' j = None"
  shows "chat_spec c (abs s) A'" "a_codes A' = a_codes (abs s)"
proof -
  show "a_codes A' = a_codes (abs s)" using t by (simp add: touches_def)
  have "a_nodes A' j = Some m \<and> (\<forall>al. a_mutes A' (j, al) = a_mutes (abs s) (j, al) \<and> a_sent A' (j, al) = a_sent (abs s) (j, al))"
    if m: "a_nodes (abs s) j = Some m" "n_chat m \<noteq> c" for j m
  proof -
    have "j \<noteq> i" using m n by (metis option.inject)
    moreover have "id_ok j" using stored_node_id[OF inv m(1)] by blast
    ultimately show ?thesis using t m(1) by (simp add: touches_def)
  qed
  then show "chat_spec c (abs s) A'"
    using t none unfolding chat_spec_def by (intro conjI allI impI) (simp_all add: touches_def)
qed

lemma set_mute_chat:
  assumes "on_store (SetMute ops \<lparr> mu_node = n_id node, mu_alert = al, mu_until = t \<rparr>) sv = (e, sv1)" "inv (sv_store sv)"
    "a_nodes (abs (sv_store sv)) (n_id node) = Some node" "n_chat node = c" "time_ok t"
  shows "inv (sv_store sv1) \<and> chat_spec c (abs (sv_store sv)) (abs (sv_store sv1)) \<and> sv_sent sv1 = sv_sent sv"
proof -
  let ?m = "\<lparr> mu_node = n_id node, mu_alert = al, mu_until = t \<rparr>"
  have "id_ok (mu_node ?m)" "time_ok (mu_until ?m)" using stored_node_id[OF assms(2,3)] assms(5) by simp_all
  note s = set_mute[OF assms(2) this on_store_frame(1)[OF assms(1)]]
  have "touches (n_id node) (abs (sv_store sv)) (abs (sv_store sv1)) \<and> a_nodes (abs (sv_store sv1)) = a_nodes (abs (sv_store sv))"
  proof (cases e)
    case None
    with s obtain M where "abs (sv_store sv1) = (abs (sv_store sv))\<lparr> a_mutes := M \<rparr>"
      unfolding set_mute_spec_def None option.case by blast
    with s None show ?thesis by (simp add: set_mute_spec_def touches_def)
  qed (use s in \<open>simp add: set_mute_spec_def\<close>)
  with touches_chat[OF assms(2-4)] s on_store_frame(2)[OF assms(1)] show ?thesis by auto
qed

lemma clear_mute_chat:
  assumes "on_store (ClearMute ops (n_id node) al) sv = (e, sv1)" "inv (sv_store sv)"
    "a_nodes (abs (sv_store sv)) (n_id node) = Some node" "n_chat node = c"
  shows "inv (sv_store sv1) \<and> chat_spec c (abs (sv_store sv)) (abs (sv_store sv1)) \<and> sv_sent sv1 = sv_sent sv"
proof -
  have id: "id_ok (n_id node)" using stored_node_id[OF assms(2,3)] by simp
  note s = clear_mute[OF assms(2) id on_store_frame(1)[OF assms(1)]]
  have "touches (n_id node) (abs (sv_store sv)) (abs (sv_store sv1)) \<and> a_nodes (abs (sv_store sv1)) = a_nodes (abs (sv_store sv))"
  proof (cases e)
    case None
    with s obtain M where "abs (sv_store sv1) = (abs (sv_store sv))\<lparr> a_mutes := M \<rparr>"
      unfolding clear_mute_spec_def None option.case by blast
    with s None show ?thesis by (simp add: clear_mute_spec_def touches_def)
  qed (use s in \<open>simp add: clear_mute_spec_def\<close>)
  with touches_chat[OF assms(2-4)] s on_store_frame(2)[OF assms(1)] show ?thesis by auto
qed

lemma delete_chat:
  assumes "on_store (DeleteNode ops (n_id node)) sv = (e, sv1)" "inv (sv_store sv)"
    "a_nodes (abs (sv_store sv)) (n_id node) = Some node" "n_chat node = c"
  shows "inv (sv_store sv1) \<and> chat_spec c (abs (sv_store sv)) (abs (sv_store sv1)) \<and> sv_sent sv1 = sv_sent sv"
proof -
  have id: "id_ok (n_id node)" using stored_node_id[OF assms(2,3)] by simp
  note s = delete_node[OF assms(2) id on_store_frame(1)[OF assms(1)]]
  have t: "touches (n_id node) (abs (sv_store sv)) (abs (sv_store sv1))" using s deleted_touches by blast
  have "a_nodes (abs (sv_store sv1)) j = None" if "a_nodes (abs (sv_store sv)) j = None" for j
    using t that assms(3) by (cases "j = n_id node") (simp_all add: touches_def)
  with touches_chat(1)[OF assms(2-4) t] s on_store_frame(2)[OF assms(1)] show ?thesis by simp
qed

lemma create_code_chat:
  assumes "on_store (CreateCode ops wall c code t) sv = (e, sv1)" "inv (sv_store sv)" "time_ok wall" "time_ok t"
    "\<forall>r. a_codes (abs (sv_store sv)) code = Some r \<longrightarrow> c_chat r = c"
  shows "inv (sv_store sv1) \<and> chat_spec c (abs (sv_store sv)) (abs (sv_store sv1)) \<and> sv_sent sv1 = sv_sent sv"
  using create_code[OF assms(2-4) on_store_frame(1)[OF assms(1)]] assms(5) on_store_frame(2)[OF assms(1)]
  by (auto simp: create_code_spec_def chat_spec_def split: option.splits)

lemma args_cases:
  obtains (short) "length args < 2" | (long) name al rest where "args = name # al # rest"
  by (cases args; cases "tl args") auto

lemma dispatch_step:
  assumes run: "dispatch opts ops now wall rnd c cmd args sv = (r, sv')" and inv: "inv (sv_store sv)"
    and now: "clock_ok now" "clock_ok wall"
    and fresh: "\<forall>k. a_codes (abs (sv_store sv)) (NewCode rnd) = Some k \<longrightarrow> c_chat k = c"
  shows "inv (sv_store sv') \<and> chat_spec c (abs (sv_store sv)) (abs (sv_store sv')) \<and> sv_sent sv' = sv_sent sv"
proof -
  have tm: "time_ok (time_add now d)" if "in_int64 d" for d using clock_ok_add[OF now(1) that] .
  have start: ?thesis if "cmdStart opts ops now wall rnd c sv = (r, sv')"
  proof -
    obtain e sv1 where cc: "on_store (CreateCode ops wall c (NewCode rnd) (time_add now CodeTTL)) sv = (e, sv1)"
      by (cases "on_store (CreateCode ops wall c (NewCode rnd) (time_add now CodeTTL)) sv")
    have ttl: "in_int64 CodeTTL" by (simp add: CodeTTL_def minute_def in_int64_def min_int64_def max_int64_def)
    from that cc have "sv' = sv1" by (auto simp: cmdStart_def Let_def split: option.splits)
    with create_code_chat[OF cc inv clock_ok_time_ok[OF now(2)] tm[OF ttl] fresh] show ?thesis by simp
  qed
  have nodes: ?thesis if h: "cmdNodes ops now c sv = (r, sv')"
  proof -
    obtain rl sv1 where l: "on_store (ListNodes ops c) sv = (rl, sv1)" by (cases "on_store (ListNodes ops c) sv")
    with h have "sv' = sv1" by (auto simp: cmdNodes_def split: sum.splits)
    with l listed(1-3)[OF _ inv] list_failed[OF _ inv] show ?thesis by (cases rl) simp_all
  qed
  have found: ?thesis
    if f: "findNode ops c name sv = (rf, sv1)" and k: "sv' = sv1 \<or> (\<exists>node. rf = Inr (Some node) \<and>
        (a_nodes (abs (sv_store sv1)) (n_id node) = Some node \<longrightarrow> n_chat node = c \<longrightarrow> inv (sv_store sv1) \<longrightarrow>
         inv (sv_store sv') \<and> chat_spec c (abs (sv_store sv1)) (abs (sv_store sv')) \<and> sv_sent sv' = sv_sent sv1))"
    for name rf sv1
    using k find_node_step[OF f inv] by auto
  have mute: ?thesis if h: "cmdMute ops now c args sv = (r, sv')"
  proof (cases rule: args_cases[of args])
    case (long name al rest)
    obtain rf sv1 where f: "findNode ops c name sv = (rf, sv1)" by (cases "findNode ops c name sv")
    show ?thesis
      by (rule found[OF f])
         (use h long f tm parseMuteDuration_range set_mute_chat in
           \<open>auto simp: cmdMute_def Let_def in_int64_def min_int64_def max_int64_def hour_def
              split: sum.splits option.splits if_splits prod.splits list.splits\<close>)
  qed (use h inv in \<open>auto simp: cmdMute_def split: list.splits\<close>)
  have unmute: ?thesis if h: "cmdUnmute ops c args sv = (r, sv')"
  proof (cases rule: args_cases[of args])
    case (long name al rest)
    obtain rf sv1 where f: "findNode ops c name sv = (rf, sv1)" by (cases "findNode ops c name sv")
    show ?thesis
      by (rule found[OF f])
         (use h long f clear_mute_chat in \<open>auto simp: cmdUnmute_def Let_def split: sum.splits option.splits if_splits prod.splits\<close>)
  qed (use h inv in \<open>auto simp: cmdUnmute_def split: list.splits\<close>)
  have unpair: ?thesis if h: "cmdUnpair ops c args sv = (r, sv')"
  proof (cases args)
    case (Cons name rest)
    obtain rf sv1 where f: "findNode ops c name sv = (rf, sv1)" by (cases "findNode ops c name sv")
    show ?thesis
      by (rule found[OF f])
         (use h Cons f delete_chat in \<open>auto simp: cmdUnpair_def Let_def split: sum.splits option.splits if_splits prod.splits\<close>)
  qed (use h inv in \<open>auto simp: cmdUnpair_def\<close>)
  show ?thesis
    using run start nodes mute unmute unpair inv by (simp add: dispatch_def split: if_splits)
qed

text \<open>One update: it answers in its own chat, and touches nothing of the others.\<close>

lemma HandleUpdate_step:
  assumes run: "HandleUpdate opts ops now wall rnd u sv = Some (e, sv')" and inv: "inv (sv_store sv)"
    and now: "clock_ok now" "clock_ok wall"
    and fresh: "\<forall>k. a_codes (abs (sv_store sv)) (NewCode rnd) = Some k \<longrightarrow> c_chat k = u_chat_id u"
  shows "inv (sv_store sv')" "chat_spec (u_chat_id u) (abs (sv_store sv)) (abs (sv_store sv'))"
    "sv_sent sv' = sv_sent sv \<or> (\<exists>msg. md_ok msg \<and> sv_sent sv' = (u_chat_id u, msg, e) # sv_sent sv)"
proof -
  let ?c = "u_chat_id u"
  have "inv (sv_store sv') \<and> chat_spec ?c (abs (sv_store sv)) (abs (sv_store sv')) \<and>
    (sv_sent sv' = sv_sent sv \<or> (\<exists>msg. md_ok msg \<and> sv_sent sv' = (?c, msg, e) # sv_sent sv))"
  proof (cases "?c = 0 \<or> \<not> has_prefix (u_text u) ''/''")
    case True
    with run inv show ?thesis by (auto simp: HandleUpdate_def)
  next
    case False
    then obtain w args where w: "str_fields (u_text u) = w # args" using handle_update_fields by blast
    let ?sv1 = "clearBlocked ops ?c sv"
    note cb = clear_blocked_step[OF inv, of ?c]
    obtain r sv2 where d: "dispatch opts ops now wall rnd ?c (command_word w) args ?sv1 = (r, sv2)"
      by (cases "dispatch opts ops now wall rnd ?c (command_word w) args ?sv1")
    have fr: "\<forall>k. a_codes (abs (sv_store ?sv1)) (NewCode rnd) = Some k \<longrightarrow> c_chat k = ?c" using fresh cb(3) by simp
    note ds = dispatch_step[OF d cb(1) now fr]
    let ?msg = "case r of Inl e \<Rightarrow> Escape ''Something went wrong; please try again.'' | Inr msg \<Rightarrow> msg"
    have ok: "md_ok ?msg" using dispatch_md_ok d by (auto split: sum.splits)
    from run False w d have tg: "tg_send ?c ?msg sv2 = (e, sv')" by (simp add: HandleUpdate_def Let_def)
    from tg_send_eq[OF tg] ds cb ok show ?thesis by (auto intro: chat_spec_trans)
  qed
  then show "inv (sv_store sv')" "chat_spec ?c (abs (sv_store sv)) (abs (sv_store sv'))"
    "sv_sent sv' = sv_sent sv \<or> (\<exists>msg. md_ok msg \<and> sv_sent sv' = (?c, msg, e) # sv_sent sv)" by blast+
qed

end

end
