(* ===== verification/Relay_Redeem.thy ===== *)
theory Relay_Redeem
  imports Relay_Sqlite
begin

text \<open>
  Concurrent redemptions of one pairing code.  The database runs one statement at a time, but the
  statements of several \<^verbatim>\<open>ConsumeCode\<close> calls may interleave: every caller is a
  program counter between the three statements of \<open>Relay_Sqlite\<close>, and a step lets one of them run its
  next statement.  However they interleave, at most one caller is given the code's chat.
\<close>

datatype caller =
    Start
  | Selected int
  | Cleaning int
  | Finished "(store_error, int) result"

record redemption =
  rd_db :: sqlite_store
  rd_callers :: "caller list"

text \<open>Caller \<open>i\<close> has its own clock reading \<open>nows ! i\<close>.\<close>

inductive redeem_step :: "string \<Rightarrow> time list \<Rightarrow> redemption \<Rightarrow> redemption \<Rightarrow> bool"
  for code :: string and nows :: "time list" where
  select: "i < length cs \<Longrightarrow> cs ! i = Start \<Longrightarrow> select_code code (nows ! i) db = (r, db') \<Longrightarrow>
     redeem_step code nows \<lparr> rd_db = db, rd_callers = cs \<rparr>
       \<lparr> rd_db = db', rd_callers = cs[i := (case r of Inl e \<Rightarrow> Finished (Inl e) | Inr chat \<Rightarrow> Selected chat)] \<rparr>"
| mark: "i < length cs \<Longrightarrow> cs ! i = Selected chat \<Longrightarrow> mark_used code db = (r, db') \<Longrightarrow>
     redeem_step code nows \<lparr> rd_db = db, rd_callers = cs \<rparr>
       \<lparr> rd_db = db', rd_callers = cs[i := (case r of Inl e \<Rightarrow> Finished (Inl e)
            | Inr n \<Rightarrow> if n \<noteq> 1 then Finished (Inl ErrCodeInvalid) else Cleaning chat)] \<rparr>"
| clean: "i < length cs \<Longrightarrow> cs ! i = Cleaning chat \<Longrightarrow>
     redeem_step code nows \<lparr> rd_db = db, rd_callers = cs \<rparr>
       \<lparr> rd_db = clean_codes (nows ! i) db, rd_callers = cs[i := Finished (Inr chat)] \<rparr>"

inductive_cases redeem_stepE: "redeem_step code nows s s'"

definition winner :: "caller \<Rightarrow> bool" where
  "winner c \<longleftrightarrow> (case c of Cleaning _ \<Rightarrow> True | Finished (Inr _) \<Rightarrow> True | _ \<Rightarrow> False)"

definition redeem_inv :: "string \<Rightarrow> redemption \<Rightarrow> bool" where
  "redeem_inv code s \<longleftrightarrow> sql_inv (rd_db s) \<and>
     (\<forall>i j. i < length (rd_callers s) \<longrightarrow> j < length (rd_callers s) \<longrightarrow>
        winner (rd_callers s ! i) \<longrightarrow> winner (rd_callers s ! j) \<longrightarrow> i = j) \<and>
     ((\<exists>c \<in> set (rd_callers s). winner c) \<longrightarrow> (\<forall>r. map_of (q_codes (rd_db s)) code = Some r \<longrightarrow> cr_used r))"

lemma winner_simps [simp]:
  "\<not> winner Start" "\<not> winner (Selected c)" "winner (Cleaning c)" "winner (Finished (Inr c))" "\<not> winner (Finished (Inl e))"
  by (simp_all add: winner_def)

lemma winners_keep:
  assumes "\<forall>i j. i < length cs \<longrightarrow> j < length cs \<longrightarrow> winner (cs ! i) \<longrightarrow> winner (cs ! j) \<longrightarrow> i = j"
    and "winner c \<longrightarrow> winner (cs ! k)" and "k < length cs"
  shows "\<forall>i j. i < length (cs[k := c]) \<longrightarrow> j < length (cs[k := c]) \<longrightarrow> winner (cs[k := c] ! i) \<longrightarrow> winner (cs[k := c] ! j) \<longrightarrow> i = j"
proof -
  have "winner (cs ! i)" if "winner (cs[k := c] ! i)" for i
    using that assms(2,3) by (simp add: nth_list_update split: if_splits)
  with assms(1) show ?thesis by simp
qed

lemma winner_update: "k < length cs \<Longrightarrow> \<not> winner (cs ! k) \<Longrightarrow> \<not> winner c \<Longrightarrow>
    (\<exists>x \<in> set (cs[k := c]). winner x) \<Longrightarrow> (\<exists>x \<in> set cs. winner x)"
  using set_update_subset_insert[of cs k c] by auto

definition one_winner :: "caller list \<Rightarrow> bool" where
  "one_winner cs \<longleftrightarrow> (\<forall>i j. i < length cs \<longrightarrow> j < length cs \<longrightarrow> winner (cs ! i) \<longrightarrow> winner (cs ! j) \<longrightarrow> i = j)"

definition code_used :: "string \<Rightarrow> sqlite_store \<Rightarrow> bool" where
  "code_used code db \<longleftrightarrow> (\<forall>r. map_of (q_codes db) code = Some r \<longrightarrow> cr_used r)"

lemma redeem_inv_iff:
  "redeem_inv code \<lparr> rd_db = db, rd_callers = cs \<rparr> \<longleftrightarrow>
     sql_inv db \<and> one_winner cs \<and> ((\<exists>c \<in> set cs. winner c) \<longrightarrow> code_used code db)"
  by (simp add: redeem_inv_def one_winner_def code_used_def)

text \<open>A step that makes nobody a new winner and keeps the code's row used.\<close>

lemma no_new_winner:
  assumes "redeem_inv code \<lparr> rd_db = db, rd_callers = cs \<rparr>" "i < length cs" "winner c \<longrightarrow> winner (cs ! i)"
    "sql_inv db'" "code_used code db \<Longrightarrow> code_used code db'"
  shows "redeem_inv code \<lparr> rd_db = db', rd_callers = cs[i := c] \<rparr>"
proof -
  have "(\<exists>x \<in> set cs. winner x)" if "\<exists>x \<in> set (cs[i := c]). winner x"
    using that assms(2,3) set_update_subset_insert[of cs i c] nth_mem[of i cs] by blast
  moreover have "one_winner (cs[i := c])"
    using assms(1) winners_keep[of cs c i] assms(2,3) unfolding redeem_inv_iff one_winner_def by blast
  ultimately show ?thesis using assms(1,4,5) unfolding redeem_inv_iff by blast
qed

lemma redeem_preserves:
  assumes "redeem_step code nows s s'" "redeem_inv code s" "\<forall>t \<in> set nows. clock_ok t" "length nows = length (rd_callers s)"
  shows "redeem_inv code s'"
  using assms
proof (cases rule: redeem_step.cases)
  case (select i cs db r db')
  note st = select_code_step[OF select(5)]
  note inv = assms(2)[unfolded select(1)]
  have nw: "\<not> winner (case r of Inl e \<Rightarrow> Finished (Inl e) | Inr chat \<Rightarrow> Selected chat)" by (cases r) auto
  have "sql_inv db'" "code_used code db \<Longrightarrow> code_used code db'"
    using st inv by (simp_all add: redeem_inv_iff code_used_def)
  with no_new_winner[OF inv select(3)] nw show ?thesis unfolding select(2) by blast
next
  case (mark i cs chat db r db')
  note inv = assms(2)[unfolded mark(1)]
  have "sql_inv db" using inv by (simp add: redeem_inv_iff)
  note st = mark_used_step[OF mark(5) this]
  show ?thesis
  proof (cases "r = Inr 1")
    case True
    with st obtain c where c: "map_of (q_codes db) code = Some c" "\<not> cr_used c"
      "map_of (q_codes db') code = Some (c\<lparr> cr_used := True \<rparr>)" by auto
    then have "\<not> code_used code db" by (auto simp: code_used_def)
    then have none: "\<not> winner (cs ! j)" if "j < length cs" for j
      using inv that nth_mem[OF that] unfolding redeem_inv_iff by blast
    have "one_winner (cs[i := Cleaning chat])"
      unfolding one_winner_def using none mark(3) by (simp add: nth_list_update split: if_splits)
    moreover have "code_used code db'" using c by (simp add: code_used_def)
    ultimately have "redeem_inv code \<lparr> rd_db = db', rd_callers = cs[i := Cleaning chat] \<rparr>"
      using st by (simp add: redeem_inv_iff)
    with True show ?thesis unfolding mark(2) by simp
  next
    case False
    then have nw: "\<not> winner (case r of Inl e \<Rightarrow> Finished (Inl e)
        | Inr n \<Rightarrow> if n \<noteq> 1 then Finished (Inl ErrCodeInvalid) else Cleaning chat)" by (cases r) auto
    have "sql_inv db'" "code_used code db \<Longrightarrow> code_used code db'"
      using st False by (cases r; simp add: code_used_def)+
    with no_new_winner[OF inv mark(3)] nw show ?thesis unfolding mark(2) by blast
  qed
next
  case (clean i cs chat db)
  note inv = assms(2)[unfolded clean(1)]
  have i0: "sql_inv db" using inv by (simp add: redeem_inv_iff)
  have c0: "clock_ok (nows ! i)" using assms(3,4) clean(1,3) by simp
  note st = clean_codes_step[OF i0 c0]
  have "code_used code (clean_codes (nows ! i) db)" if "code_used code db"
    unfolding code_used_def
  proof (intro allI impI)
    fix r assume "map_of (q_codes (clean_codes (nows ! i) db)) code = Some r"
    moreover have "map_of (q_codes (clean_codes (nows ! i) db)) code = map_of (q_codes db) code \<or>
        map_of (q_codes (clean_codes (nows ! i) db)) code = None"
      using st by (elim conjE allE[of _ code]) (erule disjE, simp, simp)
    ultimately have "map_of (q_codes db) code = Some r" by auto
    with that show "cr_used r" by (simp add: code_used_def)
  qed
  with no_new_winner[OF inv clean(3)] clean(4) st show ?thesis unfolding clean(2) by simp
qed

lemma redeem_length: "redeem_step code nows s s' \<Longrightarrow> length (rd_callers s') = length (rd_callers s)"
  by (auto elim!: redeem_stepE)

lemma redeem_reachable:
  assumes "(redeem_step code nows)\<^sup>*\<^sup>* s s'" "redeem_inv code s" "\<forall>t \<in> set nows. clock_ok t"
    "length nows = length (rd_callers s)"
  shows "redeem_inv code s' \<and> length nows = length (rd_callers s')"
  using assms(1)
proof (induction rule: rtranclp_induct)
  case (step y z)
  then show ?case using redeem_preserves redeem_length assms(3) by metis
qed (use assms in simp)

lemma redeem_start: "sql_inv db \<Longrightarrow> redeem_inv code \<lparr> rd_db = db, rd_callers = replicate n Start \<rparr>"
  by (simp add: redeem_inv_def)

end
