(* ===== verification/Relay_Claims.thy ===== *)
theory Relay_Claims
  imports Relay_Commands Relay_Redeem
begin

text \<open>
  The properties of the relay, stated for the database store with its faults (and for the memory
  store where nothing is rounded), each an instance of a lemma proved for every store.
\<close>

section \<open>A concrete relay\<close>

definition demo_t :: time where "demo_t = 63900596800000000000"

definition demo_node :: node where
  "demo_node =
     \<lparr> n_id = ''n_0123456789abcdef'', n_chat = 7, n_name = ''pillar-1'', n_host = ''host'', n_version = ''v1'',
       n_secret = ''key'', n_created = demo_t, n_last_seen = demo_t, n_silent = False, n_blocked = False,
       n_summary = empty_summary \<rparr>"

definition demo_row :: node_row where
  "demo_row =
     \<lparr> nr_chat_id = 7, nr_name = ''pillar-1'', nr_host = ''host'', nr_version = ''v1'', nr_secret = ''key'',
       nr_created = unix_of demo_t, nr_last_seen = unix_of demo_t, nr_silent = False, nr_blocked = False,
       nr_summary = empty_summary \<rparr>"

definition demo_db :: "bool list \<Rightarrow> sqlite_store" where
  "demo_db faults = (sqlite_empty faults)\<lparr> q_nodes := [(''n_0123456789abcdef'', demo_row)],
     q_codes := [(''ABCDEFGH'', \<lparr> cr_chat_id = 7, cr_expires = unix_of demo_t + 600, cr_used = False \<rparr>)] \<rparr>"

definition demo_opts :: options where
  "demo_opts = \<lparr> o_silent_after = 0, o_public_url = [], o_public_host = [], o_trusted = [] \<rparr>"

definition demo_server :: "bool list \<Rightarrow> tg_error option list \<Rightarrow> sqlite_store server" where
  "demo_server faults replies = fst (NewServer (demo_db faults) replies demo_opts)"

definition demo_alert :: "state \<Rightarrow> alert_request" where
  "demo_alert st =
     \<lparr> ar_alert = ''disk_low'', ar_state = st, ar_severity = Warning, ar_title = ''disk space low'', ar_detail = [], ar_at = demo_t \<rparr>"

lemmas demo_defs = demo_t_def demo_node_def demo_row_def demo_db_def demo_opts_def demo_server_def demo_alert_def
  NewServer_def sqlite_empty_def

lemma demo_times: "time_ok demo_t" "clock_ok demo_t"
  by (auto simp: demo_t_def time_ok_def clock_ok_def in_int64_def min_int64_def max_int64_def second_def)

lemma demo_later: "0 \<le> d \<Longrightarrow> d \<le> 1000000000000000 \<Longrightarrow> time_ok (demo_t + d)"
  by (auto simp: demo_t_def time_ok_def clock_ok_def in_int64_def min_int64_def max_int64_def second_def)

lemma demo_inv: "sql_inv (sv_store (demo_server faults replies))"
  by (auto simp: demo_defs sql_inv_def names_unique_def nodes_of_def id_ok_def sec_ok_def in_int64_def
      min_int64_def max_int64_def unix_of_def unix_to_internal_def second_def split: if_splits)

lemma demo_stored: "nodes_of (q_nodes (sv_store (demo_server faults replies))) ''n_0123456789abcdef'' = Some demo_node"
  by (simp add: demo_defs nodes_of_def scanNode_def time_unix_def wrap64_def unix_of_def unix_to_internal_def second_def)

lemma demo_current: "current keep_node (sql_abs (sv_store (demo_server faults replies))) demo_node"
  by (rule sql.stored_is_current[OF demo_inv, of _ _ "''n_0123456789abcdef''"])
     (simp add: demo_stored)

lemma demo_not_sent: "a_sent (sql_abs (sv_store (demo_server faults replies))) k = None"
  by (simp add: demo_defs)

section \<open>Delivery\<close>




text \<open>C2. What is recorded as sent.  A delivery changes a last-sent record only when it succeeds, only
  that of its own node and alert, and only to its own state and time, after Telegram accepted the message
  for the node's chat or while a mute was in force; a failed delivery records nothing.\<close>

theorem sent_after_accepted:
  assumes "sql_inv (sv_store sv)" "current keep_node (sql_abs (sv_store sv)) node" "time_ok now"
    and "deliver sqlite_ops now node a sv = (e, sv')" "id_ok i"
    and "a_sent (sql_abs (sv_store sv')) (i, al) \<noteq> a_sent (sql_abs (sv_store sv)) (i, al)"
  shows "e = None \<and> i = n_id node \<and> al = ar_alert a \<and> ar_state a \<noteq> Info \<and>
     a_sent (sql_abs (sv_store sv')) (i, al) = Some (ar_state a, trunc_sec now) \<and>
     (mute_active (trunc_sec now) i al (sql_abs (sv_store sv)) \<and> sv_sent sv' = sv_sent sv \<or>
      sv_sent sv' = (n_chat node, FormatMessage node a, None) # sv_sent sv)"
proof -
  from sql.deliver_step[OF assms(4,1,2,3)]
  have sp: "deliver_spec trunc_sec now node a (sql_abs (sv_store sv)) (sv_sent sv) e (sql_abs (sv_store sv')) (sv_sent sv')"
    by blast
  have e: "e = None" using sp assms(6) by (cases e) (auto simp: deliver_spec_def simp del: sql_abs_simps)
  with sp assms(5,6) have k: "i = n_id node" "al = ar_alert a" "ar_state a \<noteq> Info"
    by (auto simp: deliver_spec_def simp del: sql_abs_simps split: if_splits)
  show ?thesis using sp assms(6) unfolding e k(1,2)
    by (auto simp: deliver_spec_def simp del: sql_abs_simps split: if_splits)
qed

lemma demo_fired:
  "deliver sqlite_ops demo_t demo_node (demo_alert Firing) (demo_server [] []) =
     (None, snd (deliver sqlite_ops demo_t demo_node (demo_alert Firing) (demo_server [] [])))"
  "a_sent (sql_abs (sv_store (snd (deliver sqlite_ops demo_t demo_node (demo_alert Firing) (demo_server [] [])))))
     (''n_0123456789abcdef'', ''disk_low'') = Some (Firing, demo_t)"
  by code_simp+

lemma sent_after_accepted_witness:
  "a_sent (sql_abs (sv_store (snd (deliver sqlite_ops demo_t demo_node (demo_alert Firing) (demo_server [] [])))))
     (''n_0123456789abcdef'', ''disk_low'') = Some (Firing, trunc_sec demo_t)"
proof -
  have ne: "a_sent (sql_abs (sv_store (snd (deliver sqlite_ops demo_t demo_node (demo_alert Firing) (demo_server [] [])))))
      (''n_0123456789abcdef'', ''disk_low'') \<noteq>
      a_sent (sql_abs (sv_store (demo_server [] []))) (''n_0123456789abcdef'', ''disk_low'')"
    unfolding demo_fired(2) demo_not_sent by simp
  have id: "id_ok ''n_0123456789abcdef''" by (simp add: id_ok_def)
  have st: "ar_state (demo_alert Firing) = Firing" by (simp add: demo_alert_def)
  from sent_after_accepted[OF demo_inv demo_current demo_times(1) demo_fired(1) id ne]
  show ?thesis unfolding st by blast
qed

text \<open>C3. Nothing is lost.  When no statement of the database is going to fail, the chat is not blocked and
  within its rate, and Telegram accepts, an alert that the rules let through and nobody muted is sent to
  the node's chat, in full, and recorded.\<close>

theorem alert_goes_out:
  assumes "sql_inv (sv_store sv)" "sql_up (sv_store sv)" "current keep_node (sql_abs (sv_store sv)) node" "time_ok now"
    and "\<not> n_blocked node" "fst (allow now (show_int (n_chat node)) (sv_chat_limit sv))"
    and "sv_replies sv = [] \<or> hd (sv_replies sv) = None"
    and "ar_state a \<noteq> Info"
    and "\<not> suppressed_by_rules now (ar_state a) (last_sent_of (sql_abs (sv_store sv)) (n_id node) (ar_alert a))"
    and "\<not> mute_active (trunc_sec now) (n_id node) (ar_alert a) (sql_abs (sv_store sv))"
    and "deliver sqlite_ops now node a sv = (e, sv')"
  shows "e = None \<and> sv_sent sv' = (n_chat node, FormatMessage node a, None) # sv_sent sv \<and>
     a_sent (sql_abs (sv_store sv')) (n_id node, ar_alert a) = Some (ar_state a, trunc_sec now)"
proof -
  have e: "e = None" using sql.deliver_up[OF assms(1-7), of a] assms(11) by simp
  from sql.deliver_step[OF assms(11,1,3,4)]
  have "deliver_spec trunc_sec now node a (sql_abs (sv_store sv)) (sv_sent sv) e (sql_abs (sv_store sv')) (sv_sent sv')"
    by blast
  with e assms(8-10) show ?thesis by (simp add: deliver_spec_def del: sql_abs_simps)
qed

lemma demo_reach:
  "fst (allow demo_t (show_int (n_chat demo_node)) (sv_chat_limit (demo_server [] [])))"
  "\<not> suppressed_by_rules demo_t Firing ([], 0)"
  by code_simp+

lemma demo_unmuted: "\<not> mute_active t i al (sql_abs (sv_store (demo_server [] [])))"
  by (simp add: demo_defs mute_active_def)

lemma alert_goes_out_witness:
  "sv_sent (snd (deliver sqlite_ops demo_t demo_node (demo_alert Firing) (demo_server [] []))) =
     [(7, FormatMessage demo_node (demo_alert Firing), None)]"
proof -
  have ls: "\<not> suppressed_by_rules demo_t (ar_state (demo_alert Firing))
      (last_sent_of (sql_abs (sv_store (demo_server [] []))) (n_id demo_node) (ar_alert (demo_alert Firing)))"
    unfolding last_sent_of_def demo_not_sent using demo_reach(2) by (simp add: demo_alert_def)
  have "sql_up (sv_store (demo_server [] []))" "\<not> n_blocked demo_node" "sv_replies (demo_server [] []) = []"
    "ar_state (demo_alert Firing) \<noteq> Info" "sv_sent (demo_server [] []) = []" "n_chat demo_node = 7"
    by (simp_all add: demo_defs sql_up_def)
  with alert_goes_out[OF demo_inv _ demo_current demo_times(1) _ demo_reach(1) _ _ ls demo_unmuted demo_fired(1)]
  show ?thesis by simp
qed

section \<open>Requests\<close>

text \<open>C6. Who may change what.  A request to one of the three node endpoints that its node did not sign
  within the replay window leaves the store and the outbox as they were and is refused; and whatever it
  contains, it changes nothing of any other node, its mutes, its last-sent records, or of the codes.\<close>

theorem signed_requests_only:
  assumes "sql_inv (sv_store sv)" "clock_ok now"
    and "authed env opts sqlite_ops now (node_handler env sqlite_ops now ep) rq sv = (reply, sv')"
  shows "touches (rq_node rq) (sql_abs (sv_store sv)) (sql_abs (sv_store sv')) \<and>
     (\<not> signed_by env (sql_abs (sv_store sv)) now rq \<longrightarrow>
        sql_abs (sv_store sv') = sql_abs (sv_store sv) \<and> sv_sent sv' = sv_sent sv \<and> fst reply \<in> {401, 413, 429, 500})"
  using sql.endpoint_step[OF assms(3,1,2)] by blast

definition demo_env :: env where
  "demo_env = \<lparr> e_hmac = (\<lambda>k m. k @ take 4 m), e_pair = (\<lambda>_. Some \<lparr> pr_code = ''abcdefgh'', pr_name = ''pillar-2'', pr_host = ''h'', pr_version = ''v1'' \<rparr>),
     e_alert = (\<lambda>_. Some (demo_alert Firing)),
     e_heartbeat = (\<lambda>_. Some \<lparr> hb_at = demo_t, hb_summary = empty_summary \<rparr>), e_version = ''dev'' \<rparr>"

definition demo_request :: "string \<Rightarrow> request" where
  "demo_request sig = \<lparr> rq_remote = ''1.2.3.4:5'', rq_xff = [], rq_node = ''n_0123456789abcdef'',
     rq_timestamp = show_int (unix_of demo_t), rq_signature = sig, rq_body = Some ''{}'' \<rparr>"

definition demo_sig :: string where
  "demo_sig = Sign (e_hmac demo_env) ''key'' (unix_of demo_t) ''{}''"

lemma signed_requests_only_witness:
  "sql_abs (sv_store (snd (authed demo_env demo_opts sqlite_ops demo_t (node_handler demo_env sqlite_ops demo_t AlertCall)
     (demo_request ''00'') (demo_server [] [])))) = sql_abs (sv_store (demo_server [] []))"
proof -
  have "hex_decode ''00'' = Some [CHR 0x00]" by code_simp
  then have ns: "\<not> signed_by demo_env (sql_abs (sv_store (demo_server [] []))) demo_t (demo_request ''00'')"
    by (auto simp: signed_by_def demo_request_def demo_stored demo_env_def demo_node_def)
  show ?thesis
    using signed_requests_only[where env = demo_env and opts = demo_opts and ep = AlertCall and rq = "demo_request ''00''",
        OF demo_inv demo_times(2) surjective_pairing, of "[]" "[]"] ns by simp
qed

text \<open>Heartbeats.  A heartbeat answered with 204 leaves its node on record as last seen now.\<close>

theorem heartbeat_recorded:
  assumes "sql_inv (sv_store sv)" "clock_ok now"
    and "authed env opts sqlite_ops now (handleHeartbeat env sqlite_ops) rq sv = ((204, r), sv')"
  shows "\<exists>n. a_nodes (sql_abs (sv_store sv')) (rq_node rq) = Some n \<and> n_last_seen n = trunc_sec now"
  using sql.heartbeat_seen[OF assms(3,1,2)] .

lemma heartbeat_recorded_witness:
  "\<exists>n. a_nodes (sql_abs (sv_store (snd (authed demo_env demo_opts sqlite_ops (demo_t + minute) (handleHeartbeat demo_env sqlite_ops)
      (demo_request demo_sig) (demo_server [] []))))) ''n_0123456789abcdef'' = Some n \<and> n_last_seen n = trunc_sec (demo_t + minute)"
proof -
  have c: "clock_ok (demo_t + minute)" by (simp add: demo_t_def minute_def clock_ok_def)
  have run: "authed demo_env demo_opts sqlite_ops (demo_t + minute) (handleHeartbeat demo_env sqlite_ops) (demo_request demo_sig) (demo_server [] [])
    = ((204, NoBody), snd (authed demo_env demo_opts sqlite_ops (demo_t + minute) (handleHeartbeat demo_env sqlite_ops) (demo_request demo_sig) (demo_server [] [])))"
    by code_simp
  from heartbeat_recorded[OF demo_inv c run] show ?thesis by (simp add: demo_request_def)
qed

section \<open>Silence\<close>

text \<open>The silence check.  It changes nothing of a node that is flagged already or was seen within the
  gap, no mute and no code; and a node it leaves flagged as silent has the \<open>node_silent\<close> alert firing on
  record, so that the recovery it owes is not suppressed.\<close>

theorem silence_check:
  assumes "sql_inv (sv_store sv)" "clock_ok now" "in_int64 (- o_silent_after opts)"
    and "CheckSilent opts sqlite_ops now sv = (e, sv')"
    and "\<not> n_silent n" "a_nodes (sql_abs (sv_store sv)) j = Some n"
  shows "(trunc_sec (time_add now (- o_silent_after opts)) \<le> n_last_seen n \<longrightarrow> a_nodes (sql_abs (sv_store sv')) j = Some n) \<and>
     (\<forall>n'. a_nodes (sql_abs (sv_store sv')) j = Some n' \<longrightarrow> n_silent n' \<longrightarrow>
        fst (last_sent_of (sql_abs (sv_store sv')) j ''node_silent'') = Firing) \<and>
     a_codes (sql_abs (sv_store sv')) = a_codes (sql_abs (sv_store sv)) \<and>
     a_mutes (sql_abs (sv_store sv')) = a_mutes (sql_abs (sv_store sv))"
proof -
  let ?I = "{j. \<exists>n. a_nodes (sql_abs (sv_store sv)) j = Some n \<and> \<not> n_silent n \<and>
      n_last_seen n < trunc_sec (time_add now (- o_silent_after opts))}"
  have "silence_spec ?I (sql_abs (sv_store sv)) (sql_abs (sv_store sv'))"
    using sql.CheckSilent_step[OF assms(4,1-3)] by blast
  with assms(5,6) show ?thesis
    unfolding silence_spec_def by (cases "j \<in> ?I") (auto simp del: sql_abs_simps)
qed

definition demo_gap :: options where
  "demo_gap = demo_opts\<lparr> o_silent_after := 5 * minute \<rparr>"

lemma silence_check_witness:
  "a_nodes (sql_abs (sv_store (snd (CheckSilent demo_gap sqlite_ops (demo_t + 10 * minute) (demo_server [] []))))) ''n_0123456789abcdef''
     = Some (demo_node\<lparr> n_silent := True \<rparr>) \<and>
   fst (last_sent_of (sql_abs (sv_store (snd (CheckSilent demo_gap sqlite_ops (demo_t + 10 * minute) (demo_server [] []))))) ''n_0123456789abcdef'' ''node_silent'') = Firing"
proof -
  have c: "clock_ok (demo_t + 10 * minute)" by (simp add: demo_t_def minute_def clock_ok_def)
  have g: "in_int64 (- o_silent_after demo_gap)"
    by (simp add: demo_gap_def minute_def in_int64_def min_int64_def max_int64_def)
  have ns: "\<not> n_silent demo_node" by (simp add: demo_node_def)
  have st: "a_nodes (sql_abs (sv_store (demo_server [] []))) ''n_0123456789abcdef'' = Some demo_node"
    using demo_stored by simp
  have "map_of (q_nodes (sv_store (snd (CheckSilent demo_gap sqlite_ops (demo_t + 10 * minute) (demo_server [] []))))) ''n_0123456789abcdef''
      = Some (demo_row\<lparr> nr_silent := True \<rparr>)" by code_simp
  then have a: "a_nodes (sql_abs (sv_store (snd (CheckSilent demo_gap sqlite_ops (demo_t + 10 * minute) (demo_server [] []))))) ''n_0123456789abcdef''
      = Some (demo_node\<lparr> n_silent := True \<rparr>)"
    by (simp add: nodes_of_def scanNode_def demo_row_def demo_node_def time_unix_def wrap64_def unix_of_def unix_to_internal_def second_def demo_t_def)
  with silence_check[OF demo_inv c g surjective_pairing ns st] show ?thesis by simp
qed

section \<open>Pairing\<close>

text \<open>C21. Pairing.  A pairing answered with 200 came with a code that was issued, unused and not expired;
  the code is used up, and the chat it was issued for has the new node, under a valid name that no other
  node of the chat has, with the fresh secret.  Any other answer leaves nodes, mutes and records alone and
  sends nothing.\<close>

theorem pairing:
  assumes "sql_inv (sv_store sv)" "clock_ok now"
    and "a_nodes (sql_abs (sv_store sv)) (newNodeID rnd_id) = None"
    and "handlePair env opts sqlite_ops now rnd_id rnd_secret rq sv = (reply, sv')"
  shows "if fst reply = 200
     then \<exists>body req. rq_body rq = Some body \<and> e_pair env body = Some req \<and>
       paired_spec trunc_sec now (newNodeID rnd_id) rnd_secret req (sql_abs (sv_store sv)) (sql_abs (sv_store sv'))
     else a_nodes (sql_abs (sv_store sv')) = a_nodes (sql_abs (sv_store sv)) \<and>
       a_mutes (sql_abs (sv_store sv')) = a_mutes (sql_abs (sv_store sv)) \<and>
       a_sent (sql_abs (sv_store sv')) = a_sent (sql_abs (sv_store sv)) \<and> sv_sent sv' = sv_sent sv"
  using sql.handlePair_step[OF assms(4,1-3)] by blast

lemma demo_pair_reply:
  "fst (fst (handlePair demo_env demo_opts sqlite_ops demo_t ''ABCDEFGH'' ''s'' (demo_request []) (demo_server [] []))) = 200"
  by code_simp

lemma pairing_witness:
  "\<exists>req. paired_spec trunc_sec demo_t (newNodeID ''ABCDEFGH'') ''s'' req (sql_abs (sv_store (demo_server [] [])))
     (sql_abs (sv_store (snd (handlePair demo_env demo_opts sqlite_ops demo_t ''ABCDEFGH'' ''s'' (demo_request []) (demo_server [] [])))))"
proof -
  have fresh: "a_nodes (sql_abs (sv_store (demo_server [] []))) (newNodeID ''ABCDEFGH'') = None"
    by (simp add: demo_defs nodes_of_def) code_simp
  from pairing[OF demo_inv demo_times(2) fresh surjective_pairing, of demo_env demo_opts "''s''" "demo_request []"]
  show ?thesis unfolding demo_pair_reply by auto
qed

text \<open>C12. One winner.  However many redemptions of one code run at once, and however their database
  statements interleave and fail, at most one of them is given the chat the code stands for.\<close>

theorem one_redemption:
  assumes "sql_inv db" "\<forall>t \<in> set nows. clock_ok t"
    and "(redeem_step code nows)\<^sup>*\<^sup>* \<lparr> rd_db = db, rd_callers = replicate (length nows) Start \<rparr> s"
    and "i < length nows" "rd_callers s ! i = Finished (Inr c)"
    and "j < length nows" "rd_callers s ! j = Finished (Inr d)"
  shows "i = j"
proof -
  have "redeem_inv code s \<and> length nows = length (rd_callers s)"
    by (rule redeem_reachable[OF assms(3) redeem_start[OF assms(1)] assms(2)]) simp
  with assms(4-7) show ?thesis unfolding redeem_inv_def by (metis winner_simps(4))
qed

definition demo_race :: "nat \<Rightarrow> redemption" where
  "demo_race k =
     (let db0 = demo_db []; db1 = snd (select_code ''ABCDEFGH'' demo_t db0); db2 = snd (select_code ''ABCDEFGH'' demo_t db1);
          db3 = snd (mark_used ''ABCDEFGH'' db2); db4 = snd (mark_used ''ABCDEFGH'' db3) in
      [\<lparr> rd_db = db0, rd_callers = [Start, Start] \<rparr>,
       \<lparr> rd_db = db1, rd_callers = [Selected 7, Start] \<rparr>,
       \<lparr> rd_db = db2, rd_callers = [Selected 7, Selected 7] \<rparr>,
       \<lparr> rd_db = db3, rd_callers = [Selected 7, Cleaning 7] \<rparr>,
       \<lparr> rd_db = db4, rd_callers = [Finished (Inl ErrCodeInvalid), Cleaning 7] \<rparr>,
       \<lparr> rd_db = clean_codes demo_t db4, rd_callers = [Finished (Inl ErrCodeInvalid), Finished (Inr 7)] \<rparr>] ! k)"

lemma demo_race_results:
  "fst (select_code ''ABCDEFGH'' demo_t (rd_db (demo_race 0))) = Inr 7"
  "fst (select_code ''ABCDEFGH'' demo_t (rd_db (demo_race 1))) = Inr 7"
  "fst (mark_used ''ABCDEFGH'' (rd_db (demo_race 2))) = Inr 1"
  "fst (mark_used ''ABCDEFGH'' (rd_db (demo_race 3))) = Inr 0"
  by code_simp+

lemma demo_race_steps:
  "redeem_step ''ABCDEFGH'' [demo_t, demo_t] (demo_race 0) (demo_race 1)"
  "redeem_step ''ABCDEFGH'' [demo_t, demo_t] (demo_race 1) (demo_race 2)"
  "redeem_step ''ABCDEFGH'' [demo_t, demo_t] (demo_race 2) (demo_race 3)"
  "redeem_step ''ABCDEFGH'' [demo_t, demo_t] (demo_race 3) (demo_race 4)"
  "redeem_step ''ABCDEFGH'' [demo_t, demo_t] (demo_race 4) (demo_race 5)"
  using demo_race_results
    redeem_step.select[of 0 "[Start, Start]" "''ABCDEFGH''" "[demo_t, demo_t]" "demo_db []" _ _, OF _ _ surjective_pairing]
    redeem_step.select[of 1 "[Selected 7, Start]" "''ABCDEFGH''" "[demo_t, demo_t]" "rd_db (demo_race 1)" _ _, OF _ _ surjective_pairing]
    redeem_step.mark[of 1 "[Selected 7, Selected 7]" 7 "''ABCDEFGH''" "rd_db (demo_race 2)" _ _ "[demo_t, demo_t]", OF _ _ surjective_pairing]
    redeem_step.mark[of 0 "[Selected 7, Cleaning 7]" 7 "''ABCDEFGH''" "rd_db (demo_race 3)" _ _ "[demo_t, demo_t]", OF _ _ surjective_pairing]
    redeem_step.clean[of 1 "[Finished (Inl ErrCodeInvalid), Cleaning 7]" 7 "''ABCDEFGH''" "[demo_t, demo_t]" "rd_db (demo_race 4)"]
  by (simp_all add: demo_race_def Let_def)

lemma one_redemption_witness:
  "rd_callers (demo_race 5) ! 0 \<noteq> Finished (Inr 7)"
proof -
  have run: "(redeem_step ''ABCDEFGH'' [demo_t, demo_t])\<^sup>*\<^sup>* (demo_race 0) (demo_race 5)"
    using demo_race_steps by (meson rtranclp.rtrancl_into_rtrancl rtranclp.rtrancl_refl)
  have start: "demo_race 0 = \<lparr> rd_db = demo_db [], rd_callers = replicate (length [demo_t, demo_t]) Start \<rparr>"
    by (simp add: demo_race_def Let_def)
  have inv: "sql_inv (demo_db [])" using demo_inv[of "[]" "[]"] by (simp add: demo_server_def NewServer_def)
  have w: "rd_callers (demo_race 5) ! 1 = Finished (Inr 7)" by (simp add: demo_race_def Let_def)
  from one_redemption[OF inv _ run[unfolded start], of 0 7 1 7] w demo_times(2) show ?thesis by auto
qed

lemma card_insert_bound: "card A < n \<Longrightarrow> card (insert x A) \<le> n"
  by (cases "finite A") (simp_all add: card_insert_if)

text \<open>Unused codes.  A chat never holds more than five codes it could still redeem: creating one
  more fails, and a success leaves at most five.\<close>

theorem codes_bounded:
  assumes "sql_inv db" "time_ok wall" "time_ok expires"
    and "sql_CreateCode wall chat code expires db = (None, db')"
  shows "card (unused_codes (trunc_sec wall) chat (a_codes (sql_abs db'))) \<le> 5"
proof -
  have "CreateCode sqlite_ops wall chat code expires db = (None, db')"
    using assms(4) by (simp add: sqlite_ops_def)
  from sql.create_code[OF assms(1-3) this]
  have c: "card (unused_codes (trunc_sec wall) chat (a_codes (sql_abs db))) < 5"
    and d: "a_codes (sql_abs db') = (a_codes (sql_abs db))(code \<mapsto> \<lparr> c_chat = chat, c_expires = trunc_sec expires, c_used = False \<rparr>)"
    by (simp_all add: create_code_spec_def MaxCodesPerChat_def del: sql_abs_simps)
  have "unused_codes (trunc_sec wall) chat (a_codes (sql_abs db')) \<subseteq> insert code (unused_codes (trunc_sec wall) chat (a_codes (sql_abs db)))"
    unfolding d by (auto simp: unused_codes_def split: if_splits)
  moreover have "unused_codes (trunc_sec wall) chat (a_codes (sql_abs db)) \<subseteq> dom (map_of (q_codes db))"
    by (auto simp: unused_codes_def)
  then have "finite (insert code (unused_codes (trunc_sec wall) chat (a_codes (sql_abs db))))"
    by (meson finite_insert finite_subset finite_dom_map_of)
  ultimately show ?thesis using card_mono card_insert_bound[OF c] by (meson order_trans)
qed


lemma demo_code_made:
  "sql_CreateCode demo_t 7 ''CODE'' (demo_t + 10 * minute) (demo_db []) =
     (None, snd (sql_CreateCode demo_t 7 ''CODE'' (demo_t + 10 * minute) (demo_db [])))"
  by code_simp

lemma demo_db_inv: "sql_inv (demo_db [])"
  using demo_inv[of "[]" "[]"] by (simp add: demo_server_def NewServer_def)

lemma codes_bounded_witness:
  "card (unused_codes (trunc_sec demo_t) 7
     (a_codes (sql_abs (snd (sql_CreateCode demo_t 7 ''CODE'' (demo_t + 10 * minute) (demo_db [])))))) \<le> 5"
  by (rule codes_bounded[OF demo_db_inv demo_times(1) _ demo_code_made]) (use demo_later[of "10 * minute"] in \<open>simp add: minute_def\<close>)

section \<open>The bot\<close>

text \<open>C35. One chat at a time.  A message of one chat leaves the nodes of every other chat alone, with
  their mutes and last-sent records, and the codes of every other chat; it makes no node appear; and it
  is answered with at most one message, to the same chat, whose markup Telegram can parse.\<close>

theorem chats_apart:
  assumes "sql_inv (sv_store sv)" "clock_ok now" "clock_ok wall"
    and "\<forall>k. a_codes (sql_abs (sv_store sv)) (NewCode rnd) = Some k \<longrightarrow> c_chat k = u_chat_id u"
    and "HandleUpdate opts sqlite_ops now wall rnd u sv = Some (e, sv')"
  shows "chat_spec (u_chat_id u) (sql_abs (sv_store sv)) (sql_abs (sv_store sv')) \<and>
     (sv_sent sv' = sv_sent sv \<or> (\<exists>msg. md_ok msg \<and> sv_sent sv' = (u_chat_id u, msg, e) # sv_sent sv))"
  using sql.HandleUpdate_step(2,3)[OF assms(5,1,2,3,4)] by blast

definition demo_message :: "string \<Rightarrow> update" where
  "demo_message s = \<lparr> u_update_id = 1, u_chat_id = 8, u_text = s, u_username = [] \<rparr>"

lemma handle_update_some:
  "HandleUpdate opts ops now wall rnd u sv = Some (the (HandleUpdate opts ops now wall rnd u sv))"
proof (cases "has_prefix (u_text u) ''/''")
  case True
  then obtain w args where "str_fields (u_text u) = w # args" by (rule handle_update_fields)
  then show ?thesis by (simp add: HandleUpdate_def Let_def split: prod.splits)
qed (simp add: HandleUpdate_def)

lemma demo_message_handled:
  "HandleUpdate demo_opts sqlite_ops demo_t demo_t [] (demo_message ''/unpair pillar-1'') (demo_server [] []) =
     Some (the (HandleUpdate demo_opts sqlite_ops demo_t demo_t [] (demo_message ''/unpair pillar-1'') (demo_server [] [])))"
  by (rule handle_update_some)

lemma chats_apart_witness:
  "a_nodes (sql_abs (sv_store (snd (the (HandleUpdate demo_opts sqlite_ops demo_t demo_t [] (demo_message ''/unpair pillar-1'')
     (demo_server [] [])))))) ''n_0123456789abcdef'' = Some demo_node"
proof -
  have code: "\<forall>k. a_codes (sql_abs (sv_store (demo_server [] []))) (NewCode []) = Some k \<longrightarrow> c_chat k = u_chat_id (demo_message ''/unpair pillar-1'')"
    by (simp add: demo_defs NewCode_def)
  have st: "a_nodes (sql_abs (sv_store (demo_server [] []))) ''n_0123456789abcdef'' = Some demo_node" using demo_stored by simp
  have "u_chat_id (demo_message ''/unpair pillar-1'') = 8" "n_chat demo_node = 7" by (simp_all add: demo_message_def demo_node_def)
  moreover note chats_apart[OF demo_inv demo_times(2,2) code, of demo_opts _ _, OF demo_message_handled[THEN trans, OF arg_cong[where f = Some, OF surjective_pairing]]]
  ultimately show ?thesis using st unfolding chat_spec_def by (simp del: sql_abs_simps)
qed

text \<open>No crash.  Every message gets through the bot: splitting a text that starts with a slash always
  yields a command word, so the first field exists where the code takes it.\<close>

theorem updates_handled:
  "HandleUpdate opts ops now wall rnd u sv \<noteq> None"
  using handle_update_some[of opts ops now wall rnd u sv] by (metis option.distinct(1))

text \<open>Messages.  Whatever a node is called, is hosted on or reports, its alerts, its card and the
  notices about it are messages whose MarkdownV2 parses.\<close>

theorem messages_parse:
  "md_ok (FormatMessage n a) \<and> md_ok (NodeCard n now) \<and> md_ok (paired_text n) \<and> md_ok (unpaired_text n)"
  by (intro conjI FormatMessage_md_ok NodeCard_md_ok paired_text_md_ok unpaired_text_md_ok)

text \<open>Escaping.  A MarkdownV2 reader takes escaped text back as the plain text it was (with invalid
  UTF-8 replaced), whatever follows it, and inline code as exactly the bytes that went in.\<close>

theorem escape_roundtrip:
  "md_scan (Escape s @ CHR ''*'' # rest) = (to_valid s, CHR ''*'' # rest) \<and>
   code_scan (drop 1 (Code s)) = (s, ''`'')"
proof -
  have "md_scan (CHR ''*'' # rest) = ([], CHR ''*'' # rest)" by (cases rest) (simp_all add: backslash_def)
  then show ?thesis using md_scan_Escape[of s "CHR ''*'' # rest"] code_scan_body[of s "[]"] by (simp add: Code_body)
qed

section \<open>Signatures\<close>

text \<open>Signatures.  A signature is accepted exactly for its own timestamp and body within the replay
  window: one that is accepted for another timestamp or another body would be two different messages with
  the same HMAC.\<close>

theorem signature_binds:
  assumes "in_int64 t" "in_int64 u"
  shows "(Verify hmac secret t b (Sign hmac secret t b) now = None \<longleftrightarrow> \<bar>now - time_unix t\<bar> \<le> 5 * minute) \<and>
     (Verify hmac secret u c (Sign hmac secret t b) now = None \<longrightarrow> (u, c) \<noteq> (t, b) \<longrightarrow>
        signed_message u c \<noteq> signed_message t b \<and> hmac secret (signed_message u c) = hmac secret (signed_message t b))"
  using signed_message_inj[OF assms(2,1), of c b] by (auto simp: Verify_ok_iff Sign_def hex_roundtrip)

lemma signature_binds_witness:
  "Verify (\<lambda>k m. k @ m) ''k'' 5 ''body'' (Sign (\<lambda>k m. k @ m) ''k'' 5 ''body'') (time_unix 5) = None"
proof -
  have "in_int64 5" by (simp add: in_int64_def min_int64_def max_int64_def)
  from signature_binds[OF this this, of "\<lambda>k m. k @ m" "''k''" "''body''" "time_unix 5"] show ?thesis by (simp add: minute_def)
qed

section \<open>Limits\<close>

text \<open>C37. Rate limits.  After any history of calls, in any minute at most twice the limit is let through
  for one key, whatever the other keys do, and the map never has more than ten thousand keys.\<close>

theorem rate_bounded:
  assumes "0 \<le> n" "minute \<le> t" "\<forall>(now, k) \<in> set cs. t \<le> now \<and> now < t + minute"
    and "r = foldl (\<lambda>r (now, k). snd (allow now k r)) (newRateLimiter n) hist"
  shows "admitted ky cs r \<le> 2 * n \<and> int (length (l_counts r)) \<le> 10000"
proof -
  have "lim_inv r \<and> l_limit r = n" unfolding assms(4)
    by (induction hist rule: rev_induct)
       (auto simp: newRateLimiter_inv[OF assms(1)] allow_inv, simp add: newRateLimiter_def)
  moreover from this have "covered ky t 0 r"
    using assms(1) by (auto simp: covered_def lim_inv_def split: option.splits)
  ultimately show ?thesis
    using covered_run[OF _ _ assms(3,2), of r ky 0] by (auto simp: lim_inv_def limiterMaxKeys_def)
qed

lemma rate_bounded_witness:
  "admitted ''k'' [(demo_t, ''k''), (demo_t + 1, ''k'')] (newRateLimiter 1) \<le> 2 * 1 \<and>
   admitted ''k'' [(demo_t, ''k''), (demo_t + 1, ''k'')] (newRateLimiter 1) = 1"
proof
  show "admitted ''k'' [(demo_t, ''k''), (demo_t + 1, ''k'')] (newRateLimiter 1) \<le> 2 * 1"
    by (rule rate_bounded[where n = 1 and t = demo_t and hist = "[]", THEN conjunct1]) (simp_all add: demo_t_def minute_def)
qed code_simp

text \<open>Client addresses.  A peer that is not a trusted proxy is taken at its own address whatever it
  puts into the header, and behind a trusted proxy nothing to the left of the address that proxy appended
  counts, so a client cannot choose the address its rate limit is kept under.\<close>

theorem no_forged_address:
  assumes "\<exists>p \<in> set (split_on (CHR '','') appended). decides nets p"
  shows "clientIP nets remote (forged @ CHR '','' # appended) = clientIP nets remote appended \<and>
    (\<not> trusted nets (case SplitHost remote of None \<Rightarrow> remote | Some h \<Rightarrow> h) \<longrightarrow>
       clientIP nets remote forged = (case SplitHost remote of None \<Rightarrow> remote | Some h \<Rightarrow> h))"
  using clientIP_forge[OF assms] clientIP_direct by blast

lemma no_forged_address_witness:
  "clientIP (case ParseCIDRs ''10.0.0.0/8'' of Some n \<Rightarrow> n | None \<Rightarrow> []) ''10.0.0.1:443'' ''9.9.9.9, 1.2.3.4'' = ''1.2.3.4''"
proof -
  let ?nets = "case ParseCIDRs ''10.0.0.0/8'' of Some n \<Rightarrow> n | None \<Rightarrow> []"
  have "\<exists>p \<in> set (split_on (CHR '','') '' 1.2.3.4''). decides ?nets p" by code_simp
  from no_forged_address[OF this, of "''10.0.0.1:443''" "''9.9.9.9''"]
  have "clientIP ?nets ''10.0.0.1:443'' ''9.9.9.9, 1.2.3.4'' = clientIP ?nets ''10.0.0.1:443'' '' 1.2.3.4''" by simp
  also have "\<dots> = ''1.2.3.4''" by code_simp
  finally show ?thesis .
qed

section \<open>Telegram\<close>

text \<open>C38. Sending.  A send makes at most four requests and always ends with a result; it reports success
  exactly when Telegram accepted one of them, and every request before the last met an answer that says it
  was not processed, so no message is posted twice.\<close>

theorem send_once:
  "length (ct_met (Send net ends)) \<le> 4 \<and> ct_result (Send net ends) \<noteq> None \<and>
   ((\<exists>res. ct_result (Send net ends) = Some (Inr res)) \<longleftrightarrow> (\<exists>a \<in> set (ct_met (Send net ends)). accepted a)) \<and>
   set (butlast (ct_met (Send net ends))) \<subseteq> Collect not_processed \<and>
   length (filter accepted (ct_met (Send net ends))) \<le> 1"
proof -
  note run = Send_def call_def attempts_def
  have sub: "set (butlast (ct_met (Send net ends))) \<subseteq> Collect not_processed"
    using call_loop_resend unfolding run by blast
  have "length (filter accepted xs) \<le> 1" if "set (butlast xs) \<subseteq> Collect not_processed" for xs
  proof (cases xs rule: rev_cases)
    case (snoc ys y)
    have "filter accepted ys = []" using that snoc
      by (auto simp: filter_empty_conv not_processed_def accepted_def split: attempt.splits)
    with snoc show ?thesis by simp
  qed simp
  with sub show ?thesis
    using call_loop_met[of False net ends 4] call_loop_result[of 4] call_loop_ok[of False net ends 4] unfolding run by auto
qed

lemma has_prefix_set: "has_prefix s t \<Longrightarrow> set t \<subseteq> set s"
  by (auto simp: has_prefix_iff)

lemma contains_set: "contains s t \<Longrightarrow> set t \<subseteq> set s"
proof (induction s)
  case (Cons c s)
  then show ?case using has_prefix_set[of "c # s" t] by auto
qed simp

text \<open>The bot token.  The error a failed request is reported with never contains the token: here for a
  token with a digit and without blanks or brackets, as all of them are.\<close>

theorem token_hidden:
  assumes "\<exists>c \<in> set token. is_digit c" "CHR '' '' \<notin> set token" "CHR ''['' \<notin> set token" "CHR '']'' \<notin> set token"
    and "verb = ''sendMessage'' \<or> verb = ''getUpdates''"
  shows "\<not> contains (redact token verb inner err) token"
proof -
  have nw: "\<not> contains ''token'' token" "\<not> contains (''telegram '' @ verb @ '':'') token"
  proof -
    have no: "\<not> contains w token" if "list_all (\<lambda>c. \<not> is_digit c) w" for w
      using assms(1) that contains_set[of w token] by (auto simp: list_all_iff)
    show "\<not> contains ''token'' token" by (rule no) (simp add: is_digit_def)
    show "\<not> contains (''telegram '' @ verb @ '':'') token"
      by (rule no) (use assms(5) in \<open>auto simp: is_digit_def\<close>)
  qed
  have ne: "token \<noteq> []" using assms(1) by auto
  let ?msg = "case inner of Some m \<Rightarrow> m | None \<Rightarrow> err"
  let ?out = "if contains ?msg token then replace_all ?msg token ''[token]'' else ?msg"
  have clean: "\<not> contains ?out token"
    using redact_message[OF ne assms(3,4) nw(1)] by simp
  have eq: "redact token verb inner err = (''telegram '' @ verb @ '':'') @ CHR '' '' # ?out"
    using ne by (simp add: redact_def Let_def)
  have "\<not> contains (CHR '' '' # ?out) token"
    using clean assms(2) ne by (cases token) (auto simp: has_prefix_def)
  moreover have "\<not> has_prefix (CHR '' '' # ?out) y" if "token = x @ y" "y \<noteq> []" for x y
    using assms(2) that by (cases y) (auto simp: has_prefix_def)
  ultimately show ?thesis using contains_append nw(2) unfolding eq by blast
qed

lemma token_hidden_witness:
  "\<not> contains (redact ''12:Ab'' ''sendMessage'' None ''Post /bot12:Ab/sendMessage: EOF'') ''12:Ab''"
  by (rule token_hidden) (simp_all add: is_digit_def)

section \<open>Mutes\<close>

text \<open>Mute durations.  A number of days up to 106751 mutes for exactly that long.\<close>

theorem mute_days:
  assumes "1 \<le> n" "n \<le> 106751"
  shows "parseMuteDuration (show_int n @ ''d'') = Some (n * 24 * hour)"
  by (rule parseMuteDuration_days[OF assms])

lemma mute_days_witness: "parseMuteDuration (show_int 2 @ ''d'') = Some (2 * 24 * hour)"
  by (rule mute_days) simp_all

text \<open>Too many days.  One day more is accepted as well, but wraps around to a time in the past: the
  mute that the bot confirms is never in force.\<close>

theorem mute_overflow:
  "parseMuteDuration ''106752d'' = Some (106752 * 24 * hour - 2 ^ 64) \<and> 106752 * 24 * hour - 2 ^ 64 < (0::int)"
  by code_simp

section \<open>The two stores\<close>

text \<open>C36. The stores.  Both stores keep the contract of the store interface: every operation, on every
  path, does to the abstract store what the contract says, the memory store exactly, the database up to
  whole seconds and with a failure only where the database fails.\<close>

theorem stores_refine:
  "relay_store memory_ops mem_inv mem_abs (\<lambda>t. t) (\<lambda>n. n) (\<lambda>_. True) \<and>
   relay_store sqlite_ops sql_inv sql_abs trunc_sec keep_node sql_up"
  using mem.relay_store_axioms sql.relay_store_axioms by blast

section \<open>Where the code falls short\<close>

text \<open>The relay meets a chat that has blocked the bot while it announces a recovery: \<open>notify\<close> stores the
  flag, and the copy of the node that \<open>authed\<close> stores next, made before, takes it back.\<close>

definition demo_silent :: "tg_error option list \<Rightarrow> sqlite_store server" where
  "demo_silent replies = (demo_server [] replies)\<lparr> sv_store := (demo_db [])\<lparr>
     q_nodes := [(''n_0123456789abcdef'', demo_row\<lparr> nr_silent := True \<rparr>)],
     q_last_sent := [((''n_0123456789abcdef'', ''node_silent''), (Firing, unix_of demo_t))] \<rparr> \<rparr>"

lemma blocked_flag_lost:
  "(let sv = snd (authed demo_env demo_opts sqlite_ops (demo_t + minute) (handleHeartbeat demo_env sqlite_ops)
       (demo_request demo_sig) (demo_silent [Some ErrBlocked])) in
    map (\<lambda>(chat, _, r). (chat, r)) (sv_sent sv) = [(7, Some ErrBlocked)] \<and>
    map (\<lambda>(i, r). (i, nr_blocked r)) (q_nodes (sv_store sv)) = [(''n_0123456789abcdef'', False)])"
  by code_simp

end
