(* ===== verification/Go_Scan.thy ===== *)
theory Go_Scan
  imports Go_Text Go_Time
begin

text \<open>
  What the readers of \<^verbatim>\<open>/proc\<close> and of configuration files share: numbers whose parse errors the
  code ignores, the line scanner, lexical path handling.
\<close>

section \<open>Numbers whose errors are ignored\<close>

text \<open>\<^verbatim>\<open>n, _ := strconv.ParseUint(s, 10, 64)\<close>: 0 on a syntax error, the largest
  value on overflow, whichever comes first.\<close>

definition max_uint64 :: int where "max_uint64 = 18446744073709551615"

fun uint_val :: "int \<Rightarrow> string \<Rightarrow> int" where
  "uint_val n [] = n"
| "uint_val n (c # cs) =
     (if \<not> is_digit c then 0
      else if n \<ge> 1844674407370955162 then max_uint64
      else let n1 = 10 * n + digit_val c in if n1 > max_uint64 then max_uint64 else uint_val n1 cs)"

definition parse_uint_val :: "string \<Rightarrow> int" where
  "parse_uint_val s = uint_val 0 s"

text \<open>\<^verbatim>\<open>n, _ := strconv.Atoi(s)\<close>.\<close>

definition atoi_val :: "string \<Rightarrow> int" where
  "atoi_val s =
     (let (neg, t) = (case s of [] \<Rightarrow> (False, [])
                      | c # cs \<Rightarrow> if c = CHR ''-'' then (True, cs) else if c = CHR ''+'' then (False, cs) else (False, s));
          u = uint_val 0 t in
      if neg then (if u > max_int64 + 1 then min_int64 else - u)
      else if u > max_int64 then max_int64 else u)"

lemma uint_val_range: "0 \<le> n \<Longrightarrow> n \<le> max_uint64 \<Longrightarrow> 0 \<le> uint_val n s \<and> uint_val n s \<le> max_uint64"
proof (induction n s rule: uint_val.induct)
  case (2 n c cs)
  have "0 \<le> digit_val c" if "is_digit c" using that by (simp add: is_digit_def digit_val_def)
  with 2 show ?case by (auto simp: Let_def max_uint64_def)
qed simp

lemma uint_val_digits:
  "list_all is_digit s \<Longrightarrow> 0 \<le> n \<Longrightarrow> digits_val n s \<le> max_uint64 \<Longrightarrow> uint_val n s = digits_val n s"
proof (induction n s rule: uint_val.induct)
  case (2 n c cs)
  have d: "0 \<le> digit_val c" using 2(2) by (simp add: is_digit_def digit_val_def)
  have mono: "m \<le> digits_val m xs" if "list_all is_digit xs" "0 \<le> m" for m xs
    using that
  proof (induction m xs rule: digits_val.induct)
    case (2 m x xs)
    then have "0 \<le> digit_val x" by (simp add: is_digit_def digit_val_def)
    with 2 show ?case by (fastforce intro: order_trans[of m "10 * m + digit_val x"])
  qed simp
  have le: "10 * n + digit_val c \<le> max_uint64"
    using mono[of cs "10 * n + digit_val c"] 2(2-4) d by simp
  then have "n < 1844674407370955162" using d by (simp add: max_uint64_def)
  with le d 2 show ?case by (simp add: Let_def)
qed simp

lemma parse_uint_show: "0 \<le> n \<Longrightarrow> n \<le> max_uint64 \<Longrightarrow> parse_uint_val (show_uint n) = n"
  by (simp add: parse_uint_val_def uint_val_digits show_uint_digits digits_val_show_uint)

lemma atoi_show: "in_int64 n \<Longrightarrow> atoi_val (show_int n) = n"
proof -
  assume r: "in_int64 n"
  show ?thesis
  proof (cases "n < 0")
    case True
    have "uint_val 0 (show_uint (- n)) = - n"
      using parse_uint_show[of "- n"] r True
      by (simp add: parse_uint_val_def in_int64_def min_int64_def max_uint64_def)
    with True r show ?thesis by (simp add: atoi_val_def show_int_def in_int64_def min_int64_def max_int64_def)
  next
    case False
    obtain c cs where s: "show_uint n = c # cs" by (cases "show_uint n") auto
    have u: "uint_val 0 (c # cs) = n"
      using parse_uint_show[of n] r False s
      by (simp add: parse_uint_val_def in_int64_def max_int64_def max_uint64_def)
    have "c \<noteq> CHR ''-''" "c \<noteq> CHR ''+''" using show_uint_hd[of n] False s by auto
    with u False r s show ?thesis by (simp add: atoi_val_def show_int_def in_int64_def del: uint_val.simps)
  qed
qed

section \<open>Lines\<close>

text \<open>
  \<^verbatim>\<open>bufio.Scanner\<close> with its default split: the lines without their ends, up to the
  first line that does not fit the buffer, which also is the scanner's error.
\<close>

definition drop_cr :: "string \<Rightarrow> string" where
  "drop_cr s = (if s \<noteq> [] \<and> List.last s = CHR 0x0D then butlast s else s)"

definition file_lines :: "bytes \<Rightarrow> string list" where
  "file_lines s = (let ls = split_on (CHR 0x0A) s in if List.last ls = [] then butlast ls else ls)"

definition fits :: "string \<Rightarrow> bool" where "fits l \<longleftrightarrow> int (length l) \<le> 65535"

definition scan_lines :: "bytes \<Rightarrow> string list \<times> bool" where
  "scan_lines s = (let ls = file_lines s in (map drop_cr (takeWhile fits ls), list_all fits ls))"

lemma scan_lines_no_newline: "l \<in> set (fst (scan_lines s)) \<Longrightarrow> CHR 0x0A \<notin> set l"
proof -
  assume "l \<in> set (fst (scan_lines s))"
  then obtain m where m: "m \<in> set (file_lines s)" "l = drop_cr m"
    by (auto simp: scan_lines_def Let_def dest: set_takeWhileD)
  then have "m \<in> set (split_on (CHR 0x0A) s)"
    by (auto simp: file_lines_def Let_def split: if_splits dest: in_set_butlastD)
  then have "CHR 0x0A \<notin> set m" by (rule split_on_no_sep)
  with m(2) show ?thesis by (auto simp: drop_cr_def dest: in_set_butlastD split: if_splits)
qed

section \<open>Paths\<close>

text \<open>\<^verbatim>\<open>filepath.Clean\<close> by elements: blank ones and single dots go, a pair of dots takes
  its parent along, or stays at the front of a relative path.\<close>

fun clean_elems :: "bool \<Rightarrow> string list \<Rightarrow> string list \<Rightarrow> string list" where
  "clean_elems rooted acc [] = rev acc"
| "clean_elems rooted acc (e # es) =
     (if e = [] \<or> e = ''.'' then clean_elems rooted acc es
      else if e = ''..'' then
        (case acc of
           [] \<Rightarrow> clean_elems rooted (if rooted then [] else [''..'']) es
         | a # as \<Rightarrow> if a = ''..'' then clean_elems rooted (''..'' # acc) es else clean_elems rooted as es)
      else clean_elems rooted (e # acc) es)"

definition is_abs_path :: "string \<Rightarrow> bool" where "is_abs_path p \<longleftrightarrow> has_prefix p ''/''"

definition clean_path :: "string \<Rightarrow> string" where
  "clean_path p =
     (let es = clean_elems (is_abs_path p) [] (split_on (CHR ''/'') p);
          s = (if is_abs_path p then ''/'' else []) @ join_with ''/'' es in
      if s = [] then ''.'' else s)"

text \<open>\<^verbatim>\<open>filepath.Join\<close>.\<close>

definition join_path :: "string list \<Rightarrow> string" where
  "join_path es =
     (let ws = filter (\<lambda>e. e \<noteq> []) es in if ws = [] then [] else clean_path (join_with ''/'' ws))"

text \<open>A cleaned rooted path has no element left that could lead out of a directory.\<close>

definition plain_elem :: "string \<Rightarrow> bool" where
  "plain_elem e \<longleftrightarrow> e \<noteq> [] \<and> e \<noteq> ''.'' \<and> e \<noteq> ''..''"

lemma clean_elems_rooted: "list_all plain_elem acc \<Longrightarrow> list_all plain_elem (clean_elems True acc es)"
proof (induction es arbitrary: acc)
  case Nil
  then show ?case by (simp add: list_all_iff)
next
  case (Cons e es)
  show ?case
  proof (cases "e = [] \<or> e = ''.''")
    case True
    with Cons show ?thesis by auto
  next
    case False
    show ?thesis
    proof (cases "e = ''..''")
      case True
      show ?thesis
      proof (cases acc)
        case Nil
        with True Cons.IH[of "[]"] show ?thesis by simp
      next
        case (Cons a as)
        with Cons.prems True Cons.IH[of as] show ?thesis by (simp add: plain_elem_def)
      qed
    next
      case no: False
      have "list_all plain_elem (e # acc)" using False no Cons.prems unfolding plain_elem_def by simp
      from Cons.IH[OF this] False no show ?thesis by simp
    qed
  qed
qed

end
