(* ===== verification/Go_Files.thy ===== *)
theory Go_Files
  imports Go_Scan
begin

text \<open>
  Files: a path maps to contents, mode and owner, and every call meets an entry of a script of faults.  A
  write that fails may leave a part of its data behind; renaming is atomic.
\<close>

record stored_file =
  fi_data :: bytes
  fi_mode :: int
  fi_uid :: int
  fi_gid :: int

datatype fault = Works | Fails | Partly nat

record files =
  fl_files :: "string \<Rightarrow> stored_file option"
  fl_script :: "fault list"

text \<open>The next call meets the next entry of the script; when it has run out, calls work.\<close>

definition next_fault :: "files \<Rightarrow> fault \<times> files" where
  "next_fault s = (case fl_script s of [] \<Rightarrow> (Works, s) | f # fs \<Rightarrow> (f, s\<lparr> fl_script := fs \<rparr>))"

definition put_file :: "string \<Rightarrow> stored_file option \<Rightarrow> files \<Rightarrow> files" where
  "put_file p f s = s\<lparr> fl_files := (fl_files s)(p := f) \<rparr>"

text \<open>Calls that touch no file the model follows: creating directories, flushing.\<close>

definition other_call :: "files \<Rightarrow> bool \<times> files" where
  "other_call s = (case next_fault s of (f, s1) \<Rightarrow> (f = Works, s1))"

text \<open>\<^verbatim>\<open>os.WriteFile\<close>: an existing file keeps its mode and owner; a failure may leave a part.\<close>

definition written :: "int \<Rightarrow> int \<Rightarrow> bytes \<Rightarrow> stored_file option \<Rightarrow> stored_file" where
  "written uid mode data old =
     (case old of Some f \<Rightarrow> f\<lparr> fi_data := data \<rparr>
      | None \<Rightarrow> \<lparr> fi_data = data, fi_mode = mode, fi_uid = uid, fi_gid = uid \<rparr>)"

definition write_file :: "int \<Rightarrow> string \<Rightarrow> bytes \<Rightarrow> int \<Rightarrow> files \<Rightarrow> bool \<times> files" where
  "write_file uid p data mode s =
     (case next_fault s of (f, s1) \<Rightarrow>
      case f of
        Works \<Rightarrow> (True, put_file p (Some (written uid mode data (fl_files s1 p))) s1)
      | Fails \<Rightarrow> (False, s1)
      | Partly n \<Rightarrow> (False, put_file p (Some (written uid mode (take n data) (fl_files s1 p))) s1))"

definition rename_file :: "string \<Rightarrow> string \<Rightarrow> files \<Rightarrow> bool \<times> files" where
  "rename_file a b s =
     (case next_fault s of (f, s1) \<Rightarrow>
      if f \<noteq> Works \<or> fl_files s1 a = None then (False, s1)
      else (True, if a = b then s1 else put_file a None (put_file b (fl_files s1 a) s1)))"

definition remove_file :: "string \<Rightarrow> files \<Rightarrow> bool \<times> files" where
  "remove_file p s =
     (case next_fault s of (f, s1) \<Rightarrow>
      if f \<noteq> Works \<or> fl_files s1 p = None then (False, s1) else (True, put_file p None s1))"

definition chown_file :: "string \<Rightarrow> int \<Rightarrow> int \<Rightarrow> files \<Rightarrow> bool \<times> files" where
  "chown_file p uid gid s =
     (case next_fault s of (f, s1) \<Rightarrow>
      case fl_files s1 p of
        None \<Rightarrow> (False, s1)
      | Some x \<Rightarrow> if f \<noteq> Works then (False, s1) else (True, put_file p (Some (x\<lparr> fi_uid := uid, fi_gid := gid \<rparr>)) s1))"

definition chmod_file :: "string \<Rightarrow> int \<Rightarrow> files \<Rightarrow> bool \<times> files" where
  "chmod_file p mode s =
     (case next_fault s of (f, s1) \<Rightarrow>
      case fl_files s1 p of
        None \<Rightarrow> (False, s1)
      | Some x \<Rightarrow> if f \<noteq> Works then (False, s1) else (True, put_file p (Some (x\<lparr> fi_mode := mode \<rparr>)) s1))"

lemmas file_ops [handler_defs] = other_call_def write_file_def rename_file_def remove_file_def chown_file_def chmod_file_def

lemma next_fault_files [simp]: "fl_files (snd (next_fault s)) = fl_files s"
  by (simp add: next_fault_def split: list.splits)

lemma next_faultD: "next_fault s = (f, s1) \<Longrightarrow> fl_files s1 = fl_files s"
  by (metis next_fault_files snd_conv)

lemma put_file_files [simp]: "fl_files (put_file p f s) = (fl_files s)(p := f)"
  by (simp add: put_file_def)

section \<open>What each call leaves alone\<close>

lemma other_call_files [frame]: "other_call s = (ok, s') \<Longrightarrow> fl_files s' = fl_files s"
  by (auto simp: other_call_def dest: next_faultD split: prod.splits)

lemma write_file_frame [frame]: "write_file uid p data mode s = (ok, s') \<Longrightarrow> q \<noteq> p \<Longrightarrow> fl_files s' q = fl_files s q"
  by (auto simp: write_file_def dest!: next_faultD split: prod.splits fault.splits)

lemma write_file_ok:
  "write_file uid p data mode s = (True, s') \<Longrightarrow> fl_files s' p = Some (written uid mode data (fl_files s p))"
  by (auto simp: write_file_def dest!: next_faultD split: prod.splits fault.splits)

lemma rename_file_failed: "rename_file a b s = (False, s') \<Longrightarrow> fl_files s' = fl_files s"
  by (auto simp: rename_file_def dest!: next_faultD split: prod.splits if_splits)

lemma rename_file_ok:
  "rename_file a b s = (True, s') \<Longrightarrow> a \<noteq> b \<Longrightarrow> fl_files s' = (fl_files s)(b := fl_files s a, a := None) \<and> fl_files s a \<noteq> None"
  by (auto simp: rename_file_def dest!: next_faultD split: prod.splits if_splits)

lemma remove_file_frame [frame]: "remove_file p s = (ok, s') \<Longrightarrow> q \<noteq> p \<Longrightarrow> fl_files s' q = fl_files s q"
  by (auto simp: remove_file_def dest!: next_faultD split: prod.splits if_splits)

lemma chown_file_frame [frame]: "chown_file p uid gid s = (ok, s') \<Longrightarrow> q \<noteq> p \<Longrightarrow> fl_files s' q = fl_files s q"
  by (auto simp: chown_file_def dest!: next_faultD split: prod.splits option.splits if_splits)

lemma chown_file_ok:
  "chown_file p uid gid s = (True, s') \<Longrightarrow> fl_files s' p = map_option (\<lambda>x. x\<lparr> fi_uid := uid, fi_gid := gid \<rparr>) (fl_files s p)"
  by (auto simp: chown_file_def dest!: next_faultD split: prod.splits option.splits if_splits)

lemma chmod_file_frame [frame]: "chmod_file p mode s = (ok, s') \<Longrightarrow> q \<noteq> p \<Longrightarrow> fl_files s' q = fl_files s q"
  by (auto simp: chmod_file_def dest!: next_faultD split: prod.splits option.splits if_splits)

lemma chmod_file_ok:
  "chmod_file p mode s = (True, s') \<Longrightarrow> fl_files s' p = map_option (\<lambda>x. x\<lparr> fi_mode := mode \<rparr>) (fl_files s p)"
  by (auto simp: chmod_file_def dest!: next_faultD split: prod.splits option.splits if_splits)

end
