(* ===== verification/Go_Strconv.thy ===== *)
theory Go_Strconv
  imports Go_Text Go_Float
begin

text \<open>
  The rest of \<^verbatim>\<open>strconv\<close> and \<^verbatim>\<open>encoding/base64\<close> that the program reads
  its settings with: booleans, floats, base64.
\<close>

section \<open>Booleans\<close>

definition parse_bool :: "string \<Rightarrow> bool option" where
  "parse_bool s =
     (if s \<in> {''1'', ''t'', ''T'', ''TRUE'', ''true'', ''True''} then Some True
      else if s \<in> {''0'', ''f'', ''F'', ''FALSE'', ''false'', ''False''} then Some False
      else None)"

section \<open>Floats\<close>

text \<open>
  \<^verbatim>\<open>strconv.ParseFloat(s, 64)\<close>: the special values in any case, decimal and hexadecimal
  literals with underscores where Go's syntax allows them.  The exact value is rounded once; a value out
  of range is an error, as every syntax error is.
\<close>

definition split_sign :: "string \<Rightarrow> bool \<times> string" where
  "split_sign s =
     (case s of [] \<Rightarrow> (False, [])
      | c # cs \<Rightarrow> if c = CHR ''-'' then (True, cs) else if c = CHR ''+'' then (False, cs) else (False, s))"

definition special_float :: "string \<Rightarrow> float64 option" where
  "special_float s =
     (if to_lower s = ''nan'' then Some NaN
      else case split_sign s of (neg, t) \<Rightarrow>
        if to_lower t \<in> {''inf'', ''infinity''} then Some (if neg then NInf else PInf) else None)"

text \<open>The mantissa: its digits as a number, how many of them follow the point, whether there is any.\<close>

fun scan_mantissa :: "bool \<Rightarrow> bool \<Rightarrow> int \<Rightarrow> nat \<Rightarrow> bool \<Rightarrow> string \<Rightarrow> int \<times> nat \<times> bool \<times> string" where
  "scan_mantissa hex sawdot d k saw [] = (d, k, saw, [])"
| "scan_mantissa hex sawdot d k saw (c # cs) =
     (if c = CHR ''_'' then scan_mantissa hex sawdot d k saw cs
      else if c = CHR ''.'' then
        (if sawdot then (d, k, saw, c # cs) else scan_mantissa hex True d k saw cs)
      else if is_digit c \<or> hex \<and> hex_val c \<noteq> None then
        scan_mantissa hex sawdot ((if hex then 16 else 10) * d + the (hex_val c)) (if sawdot then k + 1 else k) True cs
      else (d, k, saw, c # cs))"

text \<open>The exponent stops growing once it has five digits.\<close>

fun scan_exponent :: "int \<Rightarrow> string \<Rightarrow> int \<times> string" where
  "scan_exponent e [] = (e, [])"
| "scan_exponent e (c # cs) =
     (if c = CHR ''_'' then scan_exponent e cs
      else if is_digit c then scan_exponent (if e < 10000 then 10 * e + digit_val c else e) cs
      else (e, c # cs))"

fun underscores_ok :: "bool \<Rightarrow> char \<Rightarrow> string \<Rightarrow> bool" where
  "underscores_ok hex saw [] \<longleftrightarrow> saw \<noteq> CHR ''_''"
| "underscores_ok hex saw (c # cs) \<longleftrightarrow>
     (if is_digit c \<or> hex \<and> hex_val c \<noteq> None then underscores_ok hex (CHR ''0'') cs
      else if c = CHR ''_'' then saw = CHR ''0'' \<and> underscores_ok hex (CHR ''_'') cs
      else saw \<noteq> CHR ''_'' \<and> underscores_ok hex (CHR ''!'') cs)"

definition underscoreOK :: "string \<Rightarrow> bool" where
  "underscoreOK s =
     (case snd (split_sign s) of
        z # x # cs \<Rightarrow>
          if z = CHR ''0'' \<and> lower_char x \<in> {CHR ''b'', CHR ''o'', CHR ''x''}
          then underscores_ok (lower_char x = CHR ''x'') (CHR ''0'') cs
          else underscores_ok False (CHR ''^'') (z # x # cs)
      | cs \<Rightarrow> underscores_ok False (CHR ''^'') cs)"

text \<open>The exact value of a literal that takes up the whole string.\<close>

definition read_float :: "string \<Rightarrow> rat option" where
  "read_float s =
     (let (neg, t) = split_sign s;
          hex = (case t of z # x # _ # _ \<Rightarrow> z = CHR ''0'' \<and> lower_char x = CHR ''x'' | _ \<Rightarrow> False);
          (d, k, saw, r) = scan_mantissa hex False 0 0 False (if hex then drop 2 t else t);
          ex = (case r of
                  [] \<Rightarrow> if hex then None else Some 0
                | c # u \<Rightarrow>
                    if lower_char c \<noteq> (if hex then CHR ''p'' else CHR ''e'') then None
                    else let (eneg, v) = split_sign u; (e, w) = scan_exponent 0 v in
                      if v = [] \<or> \<not> is_digit (hd v) \<or> w \<noteq> [] then None else Some (if eneg then - e else e))
      in if \<not> saw then None
         else case ex of None \<Rightarrow> None
         | Some e \<Rightarrow>
             if CHR ''_'' \<in> set s \<and> \<not> underscoreOK s then None
             else let v = (if hex then of_int d * pow2 (e - 4 * int k)
                           else of_int d * (if int k \<le> e then 10 ^ nat (e - int k) else 1 / 10 ^ nat (int k - e)))
                  in Some (if neg then - v else v))"

definition parse_float :: "string \<Rightarrow> float64 option" where
  "parse_float s =
     (case special_float s of
        Some f \<Rightarrow> Some f
      | None \<Rightarrow>
          (case read_float s of
             None \<Rightarrow> None
           | Some x \<Rightarrow> (case to_float x of Fin y \<Rightarrow> Some (Fin y) | _ \<Rightarrow> None)))"

section \<open>Base64\<close>

text \<open>
  \<^verbatim>\<open>base64.StdEncoding.DecodeString\<close>: line ends are skipped, the padding is required, bits
  that the padding leaves over are ignored.
\<close>

definition b64_val :: "char \<Rightarrow> int option" where
  "b64_val c = map_option int (index_byte base64_alphabet c)"

fun b64_groups :: "string \<Rightarrow> bytes option" where
  "b64_groups [] = Some []"
| "b64_groups (a # b # c # d # rest) =
     (case (b64_val a, b64_val b) of
        (Some x, Some y) \<Rightarrow>
          if c = CHR ''='' then
            (if d = CHR ''='' \<and> rest = [] then Some [char_of (4 * x + y div 16)] else None)
          else (case b64_val c of None \<Rightarrow> None | Some z \<Rightarrow>
            if d = CHR ''='' then
              (if rest = [] then Some [char_of (4 * x + y div 16), char_of (y mod 16 * 16 + z div 4)] else None)
            else (case b64_val d of None \<Rightarrow> None | Some w \<Rightarrow>
              map_option (\<lambda>r. char_of (4 * x + y div 16) # char_of (y mod 16 * 16 + z div 4) # char_of (z mod 4 * 64 + w) # r)
                (b64_groups rest)))
      | _ \<Rightarrow> None)"
| "b64_groups _ = None"

definition base64_decode :: "string \<Rightarrow> bytes option" where
  "base64_decode s = b64_groups (filter (\<lambda>c. c \<noteq> CHR 0x0D \<and> c \<noteq> CHR 0x0A) s)"

lemma b64_val_b64:
  assumes "0 \<le> n" "n < 64"
  shows "b64_val (b64 n) = Some n" "b64 n \<noteq> CHR ''=''" "b64 n \<noteq> CHR 0x0D" "b64 n \<noteq> CHR 0x0A"
proof -
  have "list_all (\<lambda>n. b64_val (b64 n) = Some n \<and> b64 n \<noteq> CHR ''='' \<and> b64 n \<noteq> CHR 0x0D \<and> b64 n \<noteq> CHR 0x0A) [0..63]"
    by code_simp
  then have "b64_val (b64 n) = Some n \<and> b64 n \<noteq> CHR ''='' \<and> b64 n \<noteq> CHR 0x0D \<and> b64 n \<noteq> CHR 0x0A"
    using assms unfolding list_all_iff by auto
  then show "b64_val (b64 n) = Some n" "b64 n \<noteq> CHR ''=''" "b64 n \<noteq> CHR 0x0D" "b64 n \<noteq> CHR 0x0A" by blast+
qed

text \<open>Decoding undoes encoding.\<close>

lemma byte_val_range: "0 \<le> byte_val c" "byte_val c < 256"
  using of_char_int_bounds[of c] by simp_all

lemma byte_parts [simp]:
  "byte_val c div 16 div 16 = 0" "byte_val c div 16 mod 16 = byte_val c div 16"
  "byte_val c div 64 div 4 = 0" "byte_val c div 64 mod 4 = byte_val c div 64"
  using byte_val_range[of c] by simp_all

lemma b64_digits:
  fixes a b c :: char
  shows "0 \<le> byte_val a div 4" "byte_val a div 4 < 64"
    "0 \<le> byte_val a mod 4 * 16 + byte_val b div 16" "byte_val a mod 4 * 16 + byte_val b div 16 < 64"
    "0 \<le> byte_val b mod 16 * 4 + byte_val c div 64" "byte_val b mod 16 * 4 + byte_val c div 64 < 64"
    "0 \<le> byte_val c mod 64" "byte_val c mod 64 < 64"
    "0 \<le> byte_val a mod 4 * 16" "byte_val a mod 4 * 16 < 64" "0 \<le> byte_val b mod 16 * 4" "byte_val b mod 16 * 4 < 64"
  using byte_val_range[of a] byte_val_range[of b] byte_val_range[of c] by presburger+

lemma base64_no_breaks: "filter (\<lambda>c. c \<noteq> CHR 0x0D \<and> c \<noteq> CHR 0x0A) (base64_encode s) = base64_encode s"
  by (induction s rule: base64_encode.induct) (simp_all add: b64_val_b64 b64_digits)

lemma b64_groups_encode: "b64_groups (base64_encode s) = Some s"
  by (induction s rule: base64_encode.induct)
     (simp_all add: b64_val_b64 b64_digits)

lemma base64_roundtrip [simp]: "base64_decode (base64_encode s) = Some s"
  by (simp add: base64_decode_def base64_no_breaks b64_groups_encode)

end
