(* ===== verification/Alert_Config.thy ===== *)
theory Alert_Config
  imports Go_Files Go_Strconv Go_Duration Alert_Proto
begin

text \<open>
  \<^verbatim>\<open>internal/alerts/config.go\<close>: the node's alert settings, read with every gap filled and every
  threshold clamped, changed one key at a time, and saved by replacing the file.
\<close>

section \<open>The configuration\<close>

record rule_config =
  rc_enabled :: bool
  rc_thresholds :: "string \<rightharpoonup> float64"

record alert_config =
  cf_relay_url :: string
  cf_node_id :: string
  cf_secret :: string
  cf_name :: string
  cf_pillar_name :: string
  cf_interval :: duration
  cf_rules :: "string \<rightharpoonup> rule_config"

definition DefaultInterval :: duration where "DefaultInterval = 30 * second"
definition MaxWindowMinutes :: int where "MaxWindowMinutes = 30"

definition defaultThresholds :: "(string \<times> (string \<times> float64) list) list" where
  "defaultThresholds =
     [(''service_down'', []), (''crash_loop'', [(''window_minutes'', Fin 10), (''count'', Fin 2)]),
      (''sync_stalled'', []), (''sync_behind'', [(''minutes'', Fin 10)]),
      (''not_enough_peers'', [(''min_peers'', Fin 3), (''minutes'', Fin 5)]),
      (''disk_low'', [(''min_free_gb'', Fin 15)]), (''wallet_backup_missing'', []),
      (''memory_high'', [(''pct'', Fin 85)]), (''fds_high'', [(''pct'', Fin 80)]), (''backup_stale'', []),
      (''rpc_unreachable'', [(''minutes'', Fin 5)]), (''momentums_stalled'', [(''minutes'', Fin 5)]),
      (''pillar_missed'', [(''minutes'', Fin 30), (''missed'', Fin 2)]), (''update_available'', [])]"

text \<open>The thresholds of an alert, none for an alert without.\<close>

definition defaults_of :: "string \<Rightarrow> (string \<times> float64) list" where
  "defaults_of name = (case map_of defaultThresholds name of None \<Rightarrow> [] | Some ds \<Rightarrow> ds)"

definition disabledByDefault :: "string \<Rightarrow> bool" where
  "disabledByDefault name \<longleftrightarrow> name \<in> {''update_available'', ''wallet_backup_missing''}"

definition defaultRule :: "string \<Rightarrow> rule_config" where
  "defaultRule name = \<lparr> rc_enabled = (\<not> disabledByDefault name), rc_thresholds = map_of (defaults_of name) \<rparr>"

definition RuleNames :: "string list" where
  "RuleNames = map ai_name (filter (\<lambda>a. \<not> ai_relay a) Alerts)"

definition DefaultConfig :: "string \<Rightarrow> alert_config" where
  "DefaultConfig url =
     \<lparr> cf_relay_url = url, cf_node_id = [], cf_secret = [], cf_name = [], cf_pillar_name = [], cf_interval = DefaultInterval,
       cf_rules = (\<lambda>name. if name \<in> set RuleNames then Some (defaultRule name) else None) \<rparr>"

definition Threshold :: "rule_config \<Rightarrow> string \<Rightarrow> string \<Rightarrow> float64" where
  "Threshold rc name k =
     (case rc_thresholds rc k of Some v \<Rightarrow> v
      | None \<Rightarrow> (case map_of (defaults_of name) k of Some v \<Rightarrow> v | None \<Rightarrow> Fin 0))"

definition Paired :: "alert_config \<Rightarrow> bool" where
  "Paired c \<longleftrightarrow> cf_node_id c \<noteq> [] \<and> cf_secret c \<noteq> []"

definition isMinutes :: "string \<Rightarrow> bool" where
  "isMinutes field \<longleftrightarrow> field = ''minutes'' \<or> field = ''window_minutes''"

definition clampThreshold :: "string \<Rightarrow> float64 \<Rightarrow> float64 \<Rightarrow> float64" where
  "clampThreshold field value def =
     (if f_lt value (Fin 0) then def
      else if field = ''pct'' \<and> f_lt (Fin 100) value then Fin 100
      else if isMinutes field \<and> f_lt (f_of_int MaxWindowMinutes) value then f_of_int MaxWindowMinutes
      else value)"

definition thresholdKeys :: "string \<Rightarrow> string list" where
  "thresholdKeys alert = sort (''enabled'' # map fst (defaults_of alert))"

section \<open>Reading it\<close>

datatype config_error =
    Unreadable
  | Unparsable
  | BadInterval string

definition fill_rule :: "string \<Rightarrow> rule_config \<Rightarrow> rule_config" where
  "fill_rule name rc =
     rc\<lparr> rc_thresholds := (\<lambda>k.
       case map_of (defaults_of name) k of
         None \<Rightarrow> rc_thresholds rc k
       | Some v \<Rightarrow> Some (clampThreshold k (case rc_thresholds rc k of Some w \<Rightarrow> w | None \<Rightarrow> v) v)) \<rparr>"

definition load_rules :: "(string \<rightharpoonup> rule_config) \<Rightarrow> string \<rightharpoonup> rule_config" where
  "load_rules rules name =
     (if map_of defaultThresholds name = None then rules name
      else case rules name of None \<Rightarrow> Some (defaultRule name) | Some rc \<Rightarrow> Some (fill_rule name rc))"

text \<open>\<open>decode\<close> is the JSON decoding: the configuration with the text of the interval, empty when missing.\<close>

definition Load ::
  "string \<Rightarrow> (bytes \<Rightarrow> (alert_config \<times> string) option) \<Rightarrow> bytes option \<Rightarrow> (config_error, alert_config) result" where
  "Load defaultURL decode data =
     (case data of None \<Rightarrow> Inl Unreadable
      | Some b \<Rightarrow>
      case decode b of None \<Rightarrow> Inl Unparsable
      | Some (c, ivtext) \<Rightarrow>
      case (if ivtext = [] then Some DefaultInterval
            else case parse_duration ivtext of None \<Rightarrow> None | Some d \<Rightarrow> if d < 5 * second then None else Some d) of
        None \<Rightarrow> Inl (BadInterval ivtext)
      | Some d \<Rightarrow>
          Inr (c\<lparr> cf_interval := d,
                  cf_relay_url := (if cf_relay_url c = [] then defaultURL else cf_relay_url c),
                  cf_rules := load_rules (cf_rules c) \<rparr>))"

section \<open>Changing it\<close>

datatype set_error =
    KeyWithoutDot
  | UnknownAlert string
  | NotABoolean string string
  | NoSuchSetting string string "string list"
  | NotANumber string string
  | NegativeValue string
  | PercentRange string
  | WindowTooLong string

definition Set :: "string \<Rightarrow> string \<Rightarrow> alert_config \<Rightarrow> (set_error, alert_config) result" where
  "Set k value c =
     (case cut_on (CHR ''.'') k of (alert, field, ok) \<Rightarrow>
      if \<not> ok then Inl KeyWithoutDot
      else if alert = ''pillar'' \<and> field = ''name'' then Inr (c\<lparr> cf_pillar_name := trim_space value \<rparr>)
      else case map_of defaultThresholds alert of None \<Rightarrow> Inl (UnknownAlert alert)
      | Some defaults \<Rightarrow>
      let rc = (case cf_rules c alert of Some r \<Rightarrow> r | None \<Rightarrow> defaultRule alert) in
      if field = ''enabled'' then
        (case parse_bool value of None \<Rightarrow> Inl (NotABoolean k value)
         | Some b \<Rightarrow> Inr (c\<lparr> cf_rules := (cf_rules c)(alert \<mapsto> rc\<lparr> rc_enabled := b \<rparr>) \<rparr>))
      else if map_of defaults field = None then Inl (NoSuchSetting alert field (thresholdKeys alert))
      else case parse_float value of None \<Rightarrow> Inl (NotANumber k value)
      | Some f \<Rightarrow>
          if f_lt f (Fin 0) then Inl (NegativeValue k)
          else if field = ''pct'' \<and> f_lt (Fin 100) f then Inl (PercentRange k)
          else if isMinutes field \<and> f_lt (f_of_int MaxWindowMinutes) f then Inl (WindowTooLong k)
          else Inr (c\<lparr> cf_rules := (cf_rules c)(alert \<mapsto> rc\<lparr> rc_thresholds := (rc_thresholds rc)(field \<mapsto> f) \<rparr>) \<rparr>))"

section \<open>Writing it\<close>

datatype save_error = CannotEncode | FileError

text \<open>\<^verbatim>\<open>SecureConfig\<close>: root and the group, mode 0640.\<close>

definition SecureConfig :: "string \<Rightarrow> int \<Rightarrow> files \<Rightarrow> bool \<times> files" where
  "SecureConfig p gid s =
     (case chown_file p 0 gid s of (ok, s1) \<Rightarrow> if \<not> ok then (False, s1) else chmod_file p 416 s1)"

text \<open>The user database: the user with its numeric ids as text, no such user, or a lookup that failed.\<close>

datatype user_lookup = KnownUser string string | UnknownUser | LookupFailed

definition secureIfUser :: "user_lookup \<Rightarrow> string \<Rightarrow> files \<Rightarrow> bool \<times> files" where
  "secureIfUser u p s =
     (case u of
        UnknownUser \<Rightarrow> (True, s)
      | LookupFailed \<Rightarrow> (False, s)
      | KnownUser uid gid \<Rightarrow> (case parse_int gid of None \<Rightarrow> (False, s) | Some g \<Rightarrow> SecureConfig p g s))"

text \<open>\<open>encode\<close> is the JSON encoding, which refuses a number that is not finite.\<close>

definition Save ::
  "(alert_config \<Rightarrow> bytes option) \<Rightarrow> user_lookup \<Rightarrow> int \<Rightarrow> string \<Rightarrow> alert_config \<Rightarrow> files \<Rightarrow> save_error option \<times> files" where
  "Save encode u euid p c s =
     (case other_call s of (ok, s1) \<Rightarrow>
      if \<not> ok then (Some FileError, s1)
      else case encode c of None \<Rightarrow> (Some CannotEncode, s1)
      | Some data \<Rightarrow>
      case write_file euid (p @ ''.tmp'') (data @ [CHR 0x0A]) 384 s1 of (ok, s2) \<Rightarrow>
      if \<not> ok then (Some FileError, s2)
      else case (if euid = 0 then secureIfUser u (p @ ''.tmp'') s2 else (True, s2)) of (ok, s3) \<Rightarrow>
      if \<not> ok then (Some FileError, snd (remove_file (p @ ''.tmp'') s3))
      else case rename_file (p @ ''.tmp'') p s3 of (ok, s4) \<Rightarrow> (if ok then None else Some FileError, s4))"

section \<open>What holds of every configuration\<close>

text \<open>The bounds every threshold of a known rule keeps.\<close>

definition in_bounds :: "string \<Rightarrow> float64 \<Rightarrow> bool" where
  "in_bounds field v \<longleftrightarrow> \<not> f_lt v (Fin 0) \<and> (field = ''pct'' \<longrightarrow> \<not> f_lt (Fin 100) v) \<and>
     (isMinutes field \<longrightarrow> \<not> f_lt (Fin 30) v)"

definition rule_ok :: "string \<Rightarrow> rule_config \<Rightarrow> bool" where
  "rule_ok name rc \<longleftrightarrow> (\<forall>k v. (k, v) \<in> set (defaults_of name) \<longrightarrow> (\<exists>w. rc_thresholds rc k = Some w \<and> in_bounds k w))"

definition config_ok :: "alert_config \<Rightarrow> bool" where
  "config_ok c \<longleftrightarrow> (\<forall>name \<in> fst ` set defaultThresholds. \<exists>rc. cf_rules c name = Some rc \<and> rule_ok name rc)"

lemma max_window [simp]: "f_of_int MaxWindowMinutes = Fin 30"
  using f_of_int_exact[of 30] by (simp add: MaxWindowMinutes_def)

lemma defaults_in_bounds: "(k, v) \<in> set (defaults_of name) \<Longrightarrow> in_bounds k v"
proof -
  assume kv: "(k, v) \<in> set (defaults_of name)"
  then obtain ds where ds: "map_of defaultThresholds name = Some ds" "(k, v) \<in> set ds"
    by (cases "map_of defaultThresholds name") (auto simp: defaults_of_def)
  have "list_all (\<lambda>(n, ds). list_all (\<lambda>(k, v). in_bounds k v) ds) defaultThresholds"
    by (simp add: defaultThresholds_def in_bounds_def isMinutes_def)
  with ds map_of_SomeD[OF ds(1)] show ?thesis by (auto simp: list_all_iff)
qed

lemma defaults_distinct: "distinct (map fst (defaults_of name))"
proof -
  have "list_all (\<lambda>(n, ds). distinct (map fst ds)) defaultThresholds" by (simp add: defaultThresholds_def)
  then show ?thesis
    by (auto simp: defaults_of_def list_all_iff split: option.splits dest!: map_of_SomeD)
qed

lemma map_of_defaults: "(k, v) \<in> set (defaults_of name) \<Longrightarrow> map_of (defaults_of name) k = Some v"
  using defaults_distinct[of name] by (simp add: map_of_eq_Some_iff)

lemma clamp_in_bounds: "in_bounds k def \<Longrightarrow> in_bounds k (clampThreshold k value def)"
  by (auto simp: in_bounds_def clampThreshold_def isMinutes_def)

lemma defaultRule_ok: "rule_ok name (defaultRule name)"
  by (auto simp: rule_ok_def defaultRule_def map_of_defaults intro: defaults_in_bounds)

lemma fill_rule_ok: "rule_ok name (fill_rule name rc)"
  by (auto simp: rule_ok_def fill_rule_def map_of_defaults intro!: clamp_in_bounds intro: defaults_in_bounds)

lemma known_rules: "name \<in> fst ` set defaultThresholds \<Longrightarrow> name \<in> set RuleNames"
proof -
  have "list_all (\<lambda>(n, _). n \<in> set RuleNames) defaultThresholds" by code_simp
  then show "name \<in> fst ` set defaultThresholds \<Longrightarrow> name \<in> set RuleNames" by (auto simp: list_all_iff)
qed

lemma DefaultConfig_ok: "config_ok (DefaultConfig url)"
  using known_rules by (auto simp: config_ok_def DefaultConfig_def defaultRule_ok)

lemma Load_ok: "Load url decode data = Inr c \<Longrightarrow> config_ok c \<and> 5 * second \<le> cf_interval c"
proof -
  assume l: "Load url decode data = Inr c"
  have "\<exists>rc. load_rules rules name = Some rc \<and> rule_ok name rc" if "name \<in> fst ` set defaultThresholds" for rules name
  proof -
    have "map_of defaultThresholds name \<noteq> None" using that by (auto simp: map_of_eq_None_iff)
    then show ?thesis by (cases "rules name") (auto simp: load_rules_def defaultRule_ok fill_rule_ok)
  qed
  moreover have "(\<exists>r. cf_rules c = load_rules r) \<and> 5 * second \<le> cf_interval c"
    using l by (auto simp: Load_def DefaultInterval_def second_def split: option.splits prod.splits if_splits)
  ultimately show ?thesis unfolding config_ok_def by metis
qed

lemma config_ok_update: "config_ok c \<Longrightarrow> rule_ok a rc \<Longrightarrow> config_ok (c\<lparr> cf_rules := (cf_rules c)(a \<mapsto> rc) \<rparr>)"
  by (auto simp: config_ok_def)

lemma current_rule_ok:
  assumes "config_ok c" "map_of defaultThresholds a = Some ds"
  shows "rule_ok a (case cf_rules c a of Some r \<Rightarrow> r | None \<Rightarrow> defaultRule a)"
proof -
  have "a \<in> fst ` set defaultThresholds" using map_of_SomeD[OF assms(2)] by force
  with assms(1) obtain rc where "cf_rules c a = Some rc" "rule_ok a rc" unfolding config_ok_def by blast
  then show ?thesis by simp
qed

lemma rule_ok_enabled: "rule_ok a rc \<Longrightarrow> rule_ok a (rc\<lparr> rc_enabled := b \<rparr>)"
  by (simp add: rule_ok_def)

lemma rule_ok_threshold:
  "rule_ok a rc \<Longrightarrow> in_bounds field f \<Longrightarrow> rule_ok a (rc\<lparr> rc_thresholds := (rc_thresholds rc)(field \<mapsto> f) \<rparr>)"
  by (auto simp: rule_ok_def)

lemma Set_ok: "config_ok c \<Longrightarrow> Set k value c = Inr c' \<Longrightarrow> config_ok c'"
proof -
  assume ok: "config_ok c" and st: "Set k value c = Inr c'"
  obtain alert field found where k: "cut_on (CHR ''.'') k = (alert, field, found)" by (cases "cut_on (CHR ''.'') k")
  consider "c' = c\<lparr> cf_pillar_name := trim_space value \<rparr>"
    | ds b where "map_of defaultThresholds alert = Some ds"
        "c' = c\<lparr> cf_rules := (cf_rules c)(alert \<mapsto> (case cf_rules c alert of Some r \<Rightarrow> r | None \<Rightarrow> defaultRule alert)\<lparr> rc_enabled := b \<rparr>) \<rparr>"
    | ds f where "map_of defaultThresholds alert = Some ds" "in_bounds field f"
        "c' = c\<lparr> cf_rules := (cf_rules c)(alert \<mapsto> (let rc = (case cf_rules c alert of Some r \<Rightarrow> r | None \<Rightarrow> defaultRule alert) in
                 rc\<lparr> rc_thresholds := (rc_thresholds rc)(field \<mapsto> f) \<rparr>)) \<rparr>"
  proof -
    note run = st[unfolded Set_def k prod.case Let_def]
    show thesis
    proof (cases "found \<and> alert = ''pillar'' \<and> field = ''name''")
      case True
      with run that(1) show thesis by simp
    next
      case no: False
      then obtain ds where ds: "map_of defaultThresholds alert = Some ds"
        using run by (cases "map_of defaultThresholds alert") (simp_all split: if_splits)
      note run2 = run[unfolded ds option.case]
      show thesis
      proof (cases "field = ''enabled''")
        case True
        with run2 no obtain b where "parse_bool value = Some b"
          by (cases "parse_bool value") (simp_all split: if_splits)
        with run2 no True that(2)[OF ds, of b] show thesis by (simp split: if_splits)
      next
        case False
        with run2 no obtain f where "parse_float value = Some f"
          by (cases "parse_float value") (simp_all split: if_splits)
        with run2 no False ds that(3)[OF ds, of f] show thesis
          by (simp add: Let_def in_bounds_def split: if_splits)
      qed
    qed
  qed
  then show ?thesis
  proof cases
    case 1
    with ok show ?thesis by (simp add: config_ok_def)
  next
    case (2 ds b)
    with ok show ?thesis by (simp only: config_ok_update rule_ok_enabled current_rule_ok)
  next
    case (3 ds f)
    with ok show ?thesis by (simp only: Let_def config_ok_update rule_ok_threshold current_rule_ok)
  qed
qed

section \<open>A file that is replaced whole\<close>

lemma secureIfUser_frame: "secureIfUser u p s = (ok, s') \<Longrightarrow> q \<noteq> p \<Longrightarrow> fl_files s' q = fl_files s q"
  by (auto simp: secureIfUser_def SecureConfig_def chown_file_frame chmod_file_frame
      split: user_lookup.splits option.splits prod.splits if_splits)

lemma secureIfUser_ok:
  assumes "secureIfUser u p s = (True, s')" "fl_files s p = Some f"
  shows "fl_files s' p = Some f \<and> u = UnknownUser \<or>
    (\<exists>uid gid g. u = KnownUser uid gid \<and> parse_int gid = Some g \<and>
       fl_files s' p = Some (f\<lparr> fi_uid := 0, fi_gid := g, fi_mode := 416 \<rparr>))"
  using assms
  by (auto simp: secureIfUser_def SecureConfig_def dest!: chown_file_ok chmod_file_ok
      split: user_lookup.splits option.splits prod.splits if_splits)

lemma tmp_other [simp]: "p @ ''.tmp'' \<noteq> p" by simp

text \<open>The steps of a save that publishes, and what a save that fails leaves.\<close>

lemma Save_published:
  assumes "Save encode u euid p c s = (None, s')"
  obtains data s1 s2 s3 where "encode c = Some data" "fl_files s1 = fl_files s"
    "write_file euid (p @ ''.tmp'') (data @ [CHR 0x0A]) 384 s1 = (True, s2)"
    "(if euid = 0 then secureIfUser u (p @ ''.tmp'') s2 else (True, s2)) = (True, s3)"
    "rename_file (p @ ''.tmp'') p s3 = (True, s')"
  using assms that by (auto simp: Save_def split: prod.splits if_splits option.splits dest: other_call_files)

lemma Save_failed:
  assumes "Save encode u euid p c s = (Some e, s')"
  shows "fl_files s' p = fl_files s p"
proof -
  obtain ok s1 where o: "other_call s = (ok, s1)" by (cases "other_call s")
  note run = assms[unfolded Save_def o prod.case]
  show ?thesis
  proof (cases "ok \<and> encode c \<noteq> None")
    case False
    with run other_call_files[OF o] show ?thesis by (auto split: if_splits option.splits)
  next
    case True
    then obtain data where d: "ok" "encode c = Some data" by blast
    obtain ok2 s2 where w: "write_file euid (p @ ''.tmp'') (data @ [CHR 0x0A]) 384 s1 = (ok2, s2)"
      by (cases "write_file euid (p @ ''.tmp'') (data @ [CHR 0x0A]) 384 s1")
    obtain ok3 s3 where c: "(if euid = 0 then secureIfUser u (p @ ''.tmp'') s2 else (True, s2)) = (ok3, s3)"
      by (cases "if euid = 0 then secureIfUser u (p @ ''.tmp'') s2 else (True, s2)")
    obtain ok4 s4 where r: "rename_file (p @ ''.tmp'') p s3 = (ok4, s4)" by (cases "rename_file (p @ ''.tmp'') p s3")
    have f: "fl_files s2 p = fl_files s p" "fl_files s3 p = fl_files s2 p"
      using other_call_files[OF o] write_file_frame[OF w, of p] secureIfUser_frame[of u "p @ ''.tmp''" s2 ok3 s3 p] c
      by (auto split: if_splits)
    obtain ok5 s5 where rm: "remove_file (p @ ''.tmp'') s3 = (ok5, s5)" by (cases "remove_file (p @ ''.tmp'') s3")
    have "s' = s2 \<or> s' = s5 \<or> (\<not> ok4 \<and> s' = s4)"
      using run d w c r rm by (auto split: if_splits)
    moreover have "\<not> ok4 \<Longrightarrow> fl_files s4 = fl_files s3" using rename_file_failed r by simp
    ultimately show ?thesis using f remove_file_frame[OF rm, of p] by auto
  qed
qed

end
