(* ===== verification/Metrics_Proc.thy ===== *)
theory Metrics_Proc
  imports Go_Scan Go_Strconv
begin

text \<open>
  \<^verbatim>\<open>internal/metrics\<close>, the readers: \<^verbatim>\<open>/proc\<close>, the control group and the mount
  table.  Each takes the operating system's answers as an argument and what it returns on every error
  is the value the callers use.
\<close>

text \<open>What the operating system answers: the contents of a file, the entries of a directory, whether a path
  is a directory.\<close>

record os_view =
  ov_file :: "string \<Rightarrow> bytes option"
  ov_dir :: "string \<Rightarrow> string list option"
  ov_is_dir :: "string \<Rightarrow> bool"

definition last_index :: "string \<Rightarrow> char \<Rightarrow> nat option" where
  "last_index s c = map_option (\<lambda>i. length s - 1 - i) (index_byte (rev s) c)"

fun index_str :: "string \<Rightarrow> string \<Rightarrow> nat option" where
  "index_str [] sep = (if sep = [] then Some 0 else None)"
| "index_str (c # cs) sep = (if has_prefix (c # cs) sep then Some 0 else map_option Suc (index_str cs sep))"

text \<open>A float whose parse error is ignored: infinite when out of range, 0 on a syntax error.\<close>

definition parse_float_val :: "string \<Rightarrow> float64" where
  "parse_float_val s =
     (case special_float s of
        Some f \<Rightarrow> f
      | None \<Rightarrow> (case read_float s of None \<Rightarrow> Fin 0 | Some x \<Rightarrow> to_float x))"

section \<open>A process\<close>

record proc_status =
  pst_name :: string
  pst_state :: string
  pst_threads :: int
  pst_fd_size :: int
  pst_vm_rss :: int
  pst_vm_swap :: int
  pst_vm_peak :: int

definition pidPath :: "string \<Rightarrow> int \<Rightarrow> string \<Rightarrow> string" where
  "pidPath rt pid file = join_path [rt, show_int pid, file]"

definition kbField :: "string \<Rightarrow> int" where
  "kbField s = wrap_u64 (parse_uint_val (trim_space (trim_suffix (trim_space s) ''kB'')) * 1024)"

definition status_line :: "proc_status \<Rightarrow> string \<Rightarrow> proc_status" where
  "status_line st l =
     (case cut_on (CHR '':'') l of (k, v0, found) \<Rightarrow>
      if \<not> found then st
      else let v = trim_space v0 in
        if k = ''Name'' then st\<lparr> pst_name := v \<rparr>
        else if k = ''State'' then st\<lparr> pst_state := v \<rparr>
        else if k = ''Threads'' then st\<lparr> pst_threads := atoi_val v \<rparr>
        else if k = ''FDSize'' then st\<lparr> pst_fd_size := atoi_val v \<rparr>
        else if k = ''VmRSS'' then st\<lparr> pst_vm_rss := kbField v \<rparr>
        else if k = ''VmSwap'' then st\<lparr> pst_vm_swap := kbField v \<rparr>
        else if k = ''VmPeak'' then st\<lparr> pst_vm_peak := kbField v \<rparr>
        else st)"

text \<open>\<open>None\<close> when the file cannot be opened or its scan fails: the callers look at the error first.\<close>

definition ReadProcStatus :: "os_view \<Rightarrow> string \<Rightarrow> int \<Rightarrow> proc_status option" where
  "ReadProcStatus os rt pid =
     (case ov_file os (pidPath rt pid ''status'') of
        None \<Rightarrow> None
      | Some data \<Rightarrow>
          (case scan_lines data of (ls, ok) \<Rightarrow>
             if ok then Some (foldl status_line
               \<lparr> pst_name = [], pst_state = [], pst_threads = 0, pst_fd_size = 0, pst_vm_rss = 0, pst_vm_swap = 0, pst_vm_peak = 0 \<rparr> ls)
             else None))"

record proc_stat =
  pt_utime :: int
  pt_stime :: int
  pt_start :: int

definition parse_stat :: "string \<Rightarrow> proc_stat option" where
  "parse_stat s =
     (case last_index s (CHR '')'') of
        None \<Rightarrow> None
      | Some i \<Rightarrow>
          (let fs = str_fields (drop (Suc i) s) in
           if length fs < 20 then None
           else Some \<lparr> pt_utime = parse_uint_val (fs ! 11), pt_stime = parse_uint_val (fs ! 12),
                       pt_start = parse_uint_val (fs ! 19) \<rparr>))"

definition ReadProcStat :: "os_view \<Rightarrow> string \<Rightarrow> int \<Rightarrow> proc_stat option" where
  "ReadProcStat os rt pid = Option.bind (ov_file os (pidPath rt pid ''stat'')) parse_stat"

definition io_line :: "int \<times> int \<Rightarrow> string \<Rightarrow> int \<times> int" where
  "io_line rw l =
     (case cut_on (CHR '':'') l of (k, v, _) \<Rightarrow>
      let n = parse_uint_val (trim_space v) in
      if k = ''read_bytes'' then (n, snd rw) else if k = ''write_bytes'' then (fst rw, n) else rw)"

definition ReadProcIO :: "os_view \<Rightarrow> string \<Rightarrow> int \<Rightarrow> (int \<times> int) option" where
  "ReadProcIO os rt pid =
     (case ov_file os (pidPath rt pid ''io'') of
        None \<Rightarrow> None
      | Some data \<Rightarrow> (case scan_lines data of (ls, ok) \<Rightarrow> if ok then Some (foldl io_line (0, 0) ls) else None))"

text \<open>The soft limit of open files; its error is ignored, so the value alone, 0 on an error.\<close>

fun fd_limit_lines :: "string list \<Rightarrow> int" where
  "fd_limit_lines [] = 0"
| "fd_limit_lines (l # ls) =
     (if \<not> has_prefix l ''Max open files'' then fd_limit_lines ls
      else case str_fields (trim_prefix l ''Max open files'') of
             [] \<Rightarrow> 0
           | w # _ \<Rightarrow> if w = ''unlimited'' then 0 else parse_uint_val w)"

definition ReadFDLimit :: "os_view \<Rightarrow> string \<Rightarrow> int \<Rightarrow> int" where
  "ReadFDLimit os rt pid =
     (case ov_file os (pidPath rt pid ''limits'') of
        None \<Rightarrow> 0
      | Some data \<Rightarrow> fd_limit_lines (fst (scan_lines data)))"

definition CountFDs :: "os_view \<Rightarrow> string \<Rightarrow> int \<Rightarrow> int option" where
  "CountFDs os rt pid = map_option (\<lambda>es. int (length es)) (ov_dir os (pidPath rt pid ''fd''))"

section \<open>The host\<close>

definition ReadLoadAvg :: "os_view \<Rightarrow> string \<Rightarrow> float64 \<times> float64 \<times> float64" where
  "ReadLoadAvg os rt =
     (case ov_file os (join_path [rt, ''loadavg'']) of
        None \<Rightarrow> (Fin 0, Fin 0, Fin 0)
      | Some data \<Rightarrow>
          (case str_fields data of
             a # b # c # _ \<Rightarrow> (parse_float_val a, parse_float_val b, parse_float_val c)
           | _ \<Rightarrow> (Fin 0, Fin 0, Fin 0)))"

definition mem_line :: "int \<times> int \<Rightarrow> string \<Rightarrow> int \<times> int" where
  "mem_line m l =
     (case cut_on (CHR '':'') l of (k, v, _) \<Rightarrow>
      if k = ''MemTotal'' then (kbField v, snd m) else if k = ''MemAvailable'' then (fst m, kbField v) else m)"

definition ReadMemInfo :: "os_view \<Rightarrow> string \<Rightarrow> (int \<times> int) option" where
  "ReadMemInfo os rt =
     (case ov_file os (join_path [rt, ''meminfo'']) of
        None \<Rightarrow> None
      | Some data \<Rightarrow>
          (case scan_lines data of (ls, ok) \<Rightarrow>
             (let m = foldl mem_line (0, 0) ls in if fst m = 0 \<or> \<not> ok then None else Some m)))"

fun pressure_kv :: "string list \<Rightarrow> float64 option" where
  "pressure_kv [] = None"
| "pressure_kv (kv # kvs) =
     (if has_prefix kv ''avg10='' then Some (parse_float_val (trim_prefix kv ''avg10='')) else pressure_kv kvs)"

fun pressure_lines :: "string list \<Rightarrow> float64" where
  "pressure_lines [] = Fin 0"
| "pressure_lines (l # ls) =
     (if \<not> has_prefix l ''some '' then pressure_lines ls
      else case pressure_kv (drop 1 (str_fields l)) of Some f \<Rightarrow> f | None \<Rightarrow> pressure_lines ls)"

definition pressureSomeAvg10 :: "os_view \<Rightarrow> string \<Rightarrow> float64" where
  "pressureSomeAvg10 os path =
     (case ov_file os path of None \<Rightarrow> Fin 0 | Some data \<Rightarrow> pressure_lines (split_on (CHR 0x0A) data))"

record pressure =
  pr_cpu :: float64
  pr_io :: float64
  pr_memory :: float64

definition ReadPressure :: "os_view \<Rightarrow> string \<Rightarrow> pressure" where
  "ReadPressure os rt =
     \<lparr> pr_cpu = pressureSomeAvg10 os (join_path [rt, ''pressure'', ''cpu'']),
       pr_io = pressureSomeAvg10 os (join_path [rt, ''pressure'', ''io'']),
       pr_memory = pressureSomeAvg10 os (join_path [rt, ''pressure'', ''memory'']) \<rparr>"

section \<open>The control group\<close>

record cgroup_stats =
  cg_present :: bool
  cg_memory_current :: int
  cg_memory_peak :: int
  cg_memory_max :: int
  cg_pids_current :: int

definition cgroupUint :: "os_view \<Rightarrow> string \<Rightarrow> string \<Rightarrow> int" where
  "cgroupUint os dir file =
     (case ov_file os (join_path [dir, file]) of None \<Rightarrow> 0 | Some data \<Rightarrow> parse_uint_val (trim_space data))"

definition ReadCgroup :: "os_view \<Rightarrow> string \<Rightarrow> string \<Rightarrow> cgroup_stats" where
  "ReadCgroup os cgroupRoot controlGroup =
     (let none = \<lparr> cg_present = False, cg_memory_current = 0, cg_memory_peak = 0, cg_memory_max = 0, cg_pids_current = 0 \<rparr>;
          dir = join_path [cgroupRoot, controlGroup] in
      if controlGroup = [] then none
      else if \<not> ov_is_dir os dir then none
      else \<lparr> cg_present = True,
             cg_memory_current = cgroupUint os dir ''memory.current'',
             cg_memory_peak = cgroupUint os dir ''memory.peak'',
             cg_memory_max = cgroupUint os dir ''memory.max'',
             cg_pids_current = wrap64 (cgroupUint os dir ''pids.current'') \<rparr>)"

section \<open>Mounts\<close>

fun octal :: "int \<Rightarrow> string \<Rightarrow> int option" where
  "octal v [] = Some v"
| "octal v (c # cs) = (if byte_val c < 48 \<or> byte_val c > 55 then None else octal (v * 8 + (byte_val c - 48)) cs)"

text \<open>The octal escapes of mountinfo; the value is cut to a byte.\<close>

fun unescape_at :: "nat \<Rightarrow> string \<Rightarrow> string" where
  "unescape_at skip [] = []"
| "unescape_at (Suc skip) (c # cs) = unescape_at skip cs"
| "unescape_at 0 (c # cs) =
     (if c = CHR 0x5C \<and> 3 \<le> length cs then
        (case octal 0 (take 3 cs) of
           Some v \<Rightarrow> char_of (v mod 256) # unescape_at 3 cs
         | None \<Rightarrow> c # unescape_at 0 cs)
      else c # unescape_at 0 cs)"

definition unescapeMount :: "string \<Rightarrow> string" where
  "unescapeMount s = unescape_at 0 s"

definition mount_tmpfs :: "string \<Rightarrow> bool" where
  "mount_tmpfs l =
     (case index_str l '' - '' of
        None \<Rightarrow> False
      | Some i \<Rightarrow> (case str_fields (drop (i + 3) l) of [] \<Rightarrow> False | w # _ \<Rightarrow> w = ''tmpfs''))"

definition holds :: "string \<Rightarrow> string \<Rightarrow> bool" where
  "holds mp clean \<longleftrightarrow> mp = clean \<or> has_prefix clean (trim_suffix mp ''/'' @ ''/'')"

definition mount_line :: "string \<Rightarrow> string \<Rightarrow> string \<Rightarrow> string" where
  "mount_line clean best l =
     (let fs = str_fields l in
      if length fs < 5 then best
      else if mount_tmpfs l then best
      else let mp = unescapeMount (fs ! 4) in
        if holds mp clean \<and> length mp > length best then mp else best)"

definition MountPoint :: "os_view \<Rightarrow> string \<Rightarrow> string \<Rightarrow> string" where
  "MountPoint os mountinfo path =
     (case ov_file os mountinfo of
        None \<Rightarrow> ''/''
      | Some data \<Rightarrow> foldl (mount_line (clean_path path)) ''/'' (fst (scan_lines data)))"

text \<open>The mount point a line offers: none for a short line, a tmpfs, or one that does not hold the path.\<close>

definition offers :: "string \<Rightarrow> string \<Rightarrow> string option" where
  "offers clean l =
     (let fs = str_fields l in
      if length fs < 5 \<or> mount_tmpfs l \<or> \<not> holds (unescapeMount (fs ! 4)) clean then None
      else Some (unescapeMount (fs ! 4)))"

lemma mount_line_offers:
  "mount_line clean best l =
     (case offers clean l of None \<Rightarrow> best | Some mp \<Rightarrow> if length mp > length best then mp else best)"
  by (simp add: mount_line_def offers_def Let_def)

lemma mount_fold:
  "length b \<le> length (foldl (mount_line clean) b ls) \<and>
   (foldl (mount_line clean) b ls = b \<or> (\<exists>l \<in> set ls. offers clean l = Some (foldl (mount_line clean) b ls))) \<and>
   (\<forall>l \<in> set ls. \<forall>mp. offers clean l = Some mp \<longrightarrow> length mp \<le> length (foldl (mount_line clean) b ls))"
proof (induction ls arbitrary: b)
  case (Cons l ls)
  have step: "length b \<le> length (mount_line clean b l)"
    "mount_line clean b l = b \<or> offers clean l = Some (mount_line clean b l)"
    "\<forall>mp. offers clean l = Some mp \<longrightarrow> length mp \<le> length (mount_line clean b l)"
    by (auto simp: mount_line_offers split: option.splits)
  from Cons[of "mount_line clean b l"] step show ?case
    by (auto intro: order_trans)
qed simp

text \<open>The command name may contain anything: only what follows its last parenthesis is read.\<close>

lemma last_index_app: "c \<notin> set b \<Longrightarrow> last_index (a @ c # b) c = Some (length a)"
proof -
  assume "c \<notin> set b"
  then have "index_byte (rev b @ c # rev a) c = Some (length b)"
    by (induction b rule: rev_induct) auto
  then show ?thesis by (simp add: last_index_def)
qed

lemma parse_stat_name:
  assumes "CHR '')'' \<notin> set rest"
  shows "parse_stat (front @ CHR '')'' # rest) = parse_stat (CHR '')'' # rest)"
proof -
  have at: "last_index (b @ CHR '')'' # rest) (CHR '')'') = Some (length b)" for b
    by (rule last_index_app[OF assms])
  have tl: "drop (Suc (length b)) (b @ CHR '')'' # rest) = rest" for b by simp
  have "parse_stat (b @ CHR '')'' # rest) =
      (let fs = str_fields rest in
       if length fs < 20 then None
       else Some \<lparr> pt_utime = parse_uint_val (fs ! 11), pt_stime = parse_uint_val (fs ! 12), pt_start = parse_uint_val (fs ! 19) \<rparr>)" for b
    unfolding parse_stat_def at option.case tl ..
  from this[of front] this[of "[]"] show ?thesis by (simp only: append_Nil)
qed

end
