(* ===== verification/Node_Client.thy ===== *)
theory Node_Client
  imports Go_Text Go_Time
begin

text \<open>
  \<^verbatim>\<open>internal/node/client.go\<close>: the JSON-RPC types, one call, and the snapshot that performs the calls
  at once.  The HTTP exchange and the JSON decoding of a result are parameters.
\<close>

section \<open>Types\<close>

definition Unknown :: int where "Unknown = 0"
definition Syncing :: int where "Syncing = 1"
definition Done :: int where "Done = 2"
definition NotEnoughPeers :: int where "NotEnoughPeers = 3"

lemmas sync_state_defs [go_defs] = Unknown_def Syncing_def Done_def NotEnoughPeers_def

definition sync_state_text :: "int \<Rightarrow> string" where
  "sync_state_text s =
     (if s = Syncing then ''syncing'' else if s = Done then ''synced''
      else if s = NotEnoughPeers then ''not enough peers'' else ''unknown'')"

record sync_info =
  si_state :: int
  si_current :: int
  si_target :: int

record peer =
  pe_public_key :: string
  pe_ip :: string
  pe_name :: string

record network_info =
  ni_num_peers :: int
  ni_peers :: "peer list"
  ni_self :: "peer option"

record process_info =
  pi_version :: string
  pi_commit :: string

record os_info =
  oi_goroutines :: int
  oi_cpus :: int

record momentum =
  mo_height :: int
  mo_timestamp :: int
  mo_hash :: string

record pillar_stats =
  pls_produced :: int
  pls_expected :: int

record pillar_info =
  pli_name :: string
  pli_rank :: int
  pli_owner :: string
  pli_producer :: string
  pli_stats :: "pillar_stats option"
  pli_weight :: string

text \<open>The timestamp is unsigned on the wire; its conversion to \<^verbatim>\<open>int64\<close> wraps.\<close>

definition momentum_time :: "momentum \<Rightarrow> time" where
  "momentum_time m = time_unix (wrap64 (mo_timestamp m))"

section \<open>One call\<close>

text \<open>
  What one exchange meets: the request could not be built, no answer came, its body could not be read,
  or a status and a body.  The body decodes to an error object or a raw result; \<open>decode\<close> is the JSON
  decoding of the result into the caller's type.
\<close>

datatype exchange =
    BadRequest string
  | NoAnswer string
  | BadRead string
  | Answer int bytes

record rpc_response =
  rr_result :: bytes
  rr_error :: "(int \<times> string) option"

datatype rpc_error = NullResult | RpcError string

definition rpc_error_text :: "rpc_error \<Rightarrow> string" where
  "rpc_error_text e = (case e of NullResult \<Rightarrow> ''null result'' | RpcError s \<Rightarrow> s)"

definition rpc_call ::
  "(bytes \<Rightarrow> (string, rpc_response) result) \<Rightarrow> (bytes \<Rightarrow> (string, 'a) result) \<Rightarrow> string \<Rightarrow> exchange \<Rightarrow> (rpc_error, 'a) result" where
  "rpc_call decode_response decode verb x =
     (case x of
        BadRequest e \<Rightarrow> Inl (RpcError e)
      | NoAnswer e \<Rightarrow> Inl (RpcError (''rpc '' @ verb @ '': '' @ e))
      | BadRead e \<Rightarrow> Inl (RpcError (''rpc '' @ verb @ '': '' @ e))
      | Answer status body \<Rightarrow>
          if status \<noteq> 200 then Inl (RpcError (''rpc '' @ verb @ '': HTTP '' @ show_int status))
          else case decode_response (take 8388608 body) of
            Inl e \<Rightarrow> Inl (RpcError (''rpc '' @ verb @ '': bad response: '' @ e))
          | Inr r \<Rightarrow>
              (case rr_error r of
                 Some (code, msg) \<Rightarrow> Inl (RpcError (''rpc '' @ verb @ '': '' @ msg @ '' ('' @ show_int code @ '')''))
               | None \<Rightarrow>
                   if rr_result r = ''null'' then Inl NullResult
                   else case decode (rr_result r) of
                     Inl e \<Rightarrow> Inl (RpcError (''rpc '' @ verb @ '': bad result: '' @ e))
                   | Inr v \<Rightarrow> Inr v))"

text \<open>A pillar nobody has is no error.\<close>

definition PillarByName :: "(rpc_error, pillar_info) result \<Rightarrow> (string, pillar_info option) result" where
  "PillarByName r =
     (case r of Inl NullResult \<Rightarrow> Inr None | Inl e \<Rightarrow> Inl (rpc_error_text e) | Inr p \<Rightarrow> Inr (Some p))"

section \<open>The snapshot\<close>

text \<open>The results of the calls of one snapshot; the pillar is asked for only when one is configured.\<close>

record rpc_replies =
  rp_sync :: "(rpc_error, sync_info) result"
  rp_network :: "(rpc_error, network_info) result"
  rp_process :: "(rpc_error, process_info) result"
  rp_os :: "(rpc_error, os_info) result"
  rp_frontier :: "(rpc_error, momentum) result"
  rp_pillar :: "(rpc_error, pillar_info) result"

record snapshot =
  sn_sync :: "sync_info option"
  sn_network :: "network_info option"
  sn_process :: "process_info option"
  sn_os :: "os_info option"
  sn_frontier :: "momentum option"
  sn_pillar :: "pillar_info option"
  sn_pillar_err :: "string option"
  sn_frontier_err :: "string option"
  sn_err :: "string option"

definition empty_snapshot :: snapshot where
  "empty_snapshot = \<lparr> sn_sync = None, sn_network = None, sn_process = None, sn_os = None, sn_frontier = None,
     sn_pillar = None, sn_pillar_err = None, sn_frontier_err = None, sn_err = None \<rparr>"

text \<open>
  The goroutines of \<^verbatim>\<open>Snapshot\<close>.  Each writes under the mutex when its call is over: a stats call its
  value and, in a second critical section, the first error.  The value's field is the task's own, so a run
  is determined by the order of the tasks.
\<close>

datatype task = TSync | TNetwork | TProcess | TOs | TFrontier | TPillar

definition note_err :: "(rpc_error, 'a) result \<Rightarrow> snapshot \<Rightarrow> snapshot" where
  "note_err r sn =
     (case r of Inl e \<Rightarrow> if sn_err sn = None then sn\<lparr> sn_err := Some (rpc_error_text e) \<rparr> else sn | Inr _ \<Rightarrow> sn)"

definition ok_of :: "('e, 'a) result \<Rightarrow> 'a option" where
  "ok_of r = (case r of Inl _ \<Rightarrow> None | Inr v \<Rightarrow> Some v)"

definition finish :: "rpc_replies \<Rightarrow> task \<Rightarrow> snapshot \<Rightarrow> snapshot" where
  "finish rp t sn =
     (case t of
        TSync \<Rightarrow> note_err (rp_sync rp) (case rp_sync rp of Inr v \<Rightarrow> sn\<lparr> sn_sync := Some v \<rparr> | Inl _ \<Rightarrow> sn)
      | TNetwork \<Rightarrow> note_err (rp_network rp) (case rp_network rp of Inr v \<Rightarrow> sn\<lparr> sn_network := Some v \<rparr> | Inl _ \<Rightarrow> sn)
      | TProcess \<Rightarrow> note_err (rp_process rp) (case rp_process rp of Inr v \<Rightarrow> sn\<lparr> sn_process := Some v \<rparr> | Inl _ \<Rightarrow> sn)
      | TOs \<Rightarrow> note_err (rp_os rp) (case rp_os rp of Inr v \<Rightarrow> sn\<lparr> sn_os := Some v \<rparr> | Inl _ \<Rightarrow> sn)
      | TFrontier \<Rightarrow> (case rp_frontier rp of
            Inl e \<Rightarrow> sn\<lparr> sn_frontier_err := Some (rpc_error_text e) \<rparr> | Inr m \<Rightarrow> sn\<lparr> sn_frontier := Some m \<rparr>)
      | TPillar \<Rightarrow> (case PillarByName (rp_pillar rp) of
            Inl e \<Rightarrow> sn\<lparr> sn_pillar := None, sn_pillar_err := Some e \<rparr>
          | Inr p \<Rightarrow> sn\<lparr> sn_pillar := p, sn_pillar_err := None \<rparr>))"

definition tasks :: "string \<Rightarrow> task list" where
  "tasks pillarName = [TSync, TNetwork, TProcess, TOs, TFrontier] @ (if pillarName \<noteq> [] then [TPillar] else [])"

definition Snapshot :: "rpc_replies \<Rightarrow> task list \<Rightarrow> snapshot" where
  "Snapshot rp order = foldl (\<lambda>sn t. finish rp t sn) empty_snapshot order"

definition stats_failed :: "rpc_replies \<Rightarrow> bool" where
  "stats_failed rp \<longleftrightarrow> ok_of (rp_sync rp) = None \<or> ok_of (rp_network rp) = None \<or> ok_of (rp_process rp) = None \<or> ok_of (rp_os rp) = None"

text \<open>What the run so far has set, by the tasks that have finished.\<close>

definition reply_failed :: "rpc_replies \<Rightarrow> task \<Rightarrow> bool" where
  "reply_failed rp t \<longleftrightarrow>
     (case t of TSync \<Rightarrow> ok_of (rp_sync rp) = None | TNetwork \<Rightarrow> ok_of (rp_network rp) = None
      | TProcess \<Rightarrow> ok_of (rp_process rp) = None | TOs \<Rightarrow> ok_of (rp_os rp) = None | _ \<Rightarrow> False)"

definition settled :: "rpc_replies \<Rightarrow> task set \<Rightarrow> snapshot \<Rightarrow> bool" where
  "settled rp T sn \<longleftrightarrow>
     sn_sync sn = (if TSync \<in> T then ok_of (rp_sync rp) else None) \<and>
     sn_network sn = (if TNetwork \<in> T then ok_of (rp_network rp) else None) \<and>
     sn_process sn = (if TProcess \<in> T then ok_of (rp_process rp) else None) \<and>
     sn_os sn = (if TOs \<in> T then ok_of (rp_os rp) else None) \<and>
     sn_frontier sn = (if TFrontier \<in> T then ok_of (rp_frontier rp) else None) \<and>
     (sn_err sn = None \<longleftrightarrow> (\<forall>t \<in> T. \<not> reply_failed rp t))"

lemma note_err_simps [simp]:
  "sn_sync (note_err r sn) = sn_sync sn" "sn_network (note_err r sn) = sn_network sn" "sn_process (note_err r sn) = sn_process sn"
  "sn_os (note_err r sn) = sn_os sn" "sn_frontier (note_err r sn) = sn_frontier sn"
  "sn_err (note_err r sn) = None \<longleftrightarrow> sn_err sn = None \<and> ok_of r \<noteq> None"
  by (auto simp: note_err_def ok_of_def split: sum.splits)

lemma reply_failed_simps [simp]:
  "reply_failed rp TSync \<longleftrightarrow> ok_of (rp_sync rp) = None" "reply_failed rp TNetwork \<longleftrightarrow> ok_of (rp_network rp) = None"
  "reply_failed rp TProcess \<longleftrightarrow> ok_of (rp_process rp) = None" "reply_failed rp TOs \<longleftrightarrow> ok_of (rp_os rp) = None"
  "\<not> reply_failed rp TFrontier" "\<not> reply_failed rp TPillar"
  by (simp_all add: reply_failed_def)

lemma ok_of_simps [simp]: "ok_of (Inl e) = None" "ok_of (Inr v) = Some v"
  by (simp_all add: ok_of_def)

lemma finish_settled: "settled rp T sn \<Longrightarrow> t \<notin> T \<Longrightarrow> settled rp (insert t T) (finish rp t sn)"
  by (cases t) (simp_all add: settled_def finish_def split: sum.split)

lemma run_settled: "distinct order \<Longrightarrow> settled rp (set order) (Snapshot rp order)"
  unfolding Snapshot_def
proof (induction order rule: rev_induct)
  case Nil
  then show ?case by (simp add: settled_def empty_snapshot_def)
next
  case (snoc t ts)
  then show ?case using finish_settled[of rp "set ts" _ t] by simp
qed

text \<open>Whatever the order, a snapshot with no error has every stats value, and the frontier it has is the one
  that was answered.\<close>

lemma Snapshot_ok:
  assumes "distinct order" "set order = set (tasks p)"
  shows "sn_err (Snapshot rp order) = None \<longleftrightarrow> \<not> stats_failed rp"
    "sn_sync (Snapshot rp order) = ok_of (rp_sync rp)" "sn_network (Snapshot rp order) = ok_of (rp_network rp)"
    "sn_process (Snapshot rp order) = ok_of (rp_process rp)" "sn_os (Snapshot rp order) = ok_of (rp_os rp)"
    "sn_frontier (Snapshot rp order) = ok_of (rp_frontier rp)"
  using run_settled[OF assms(1), of rp] unfolding assms(2)
  by (auto simp: settled_def tasks_def stats_failed_def split: if_splits)

end
