(* ===== verification/Metrics_Sample.thy ===== *)
theory Metrics_Sample
  imports Metrics_Proc Node_Client
begin

text \<open>
  \<^verbatim>\<open>internal/metrics\<close>: the sample of service, process, host and node, the sampler with the little
  state its rates need, and the text of \<^verbatim>\<open>nomctl status\<close>.  A sample asks the outside through a
  \<open>sampler_env\<close>; the conversions whose Go float arithmetic is exact (hours, minutes and seconds of a
  duration rounded to seconds) are written as integer divisions.
\<close>

section \<open>Samples\<close>

record service_sample =
  sv_unit :: string
  sv_found :: bool
  sv_active :: string
  sv_sub :: string
  sv_result :: string
  sv_pid :: int
  sv_restarts :: int
  sv_since :: time
  sv_error :: string
  sv_cgroup :: string

record process_sample =
  ps_present :: bool
  ps_cpu :: float64
  ps_rss :: int
  ps_swap :: int
  ps_peak :: int
  ps_threads :: int
  ps_open_fds :: int
  ps_fd_limit :: int
  ps_from_probe :: bool
  ps_read :: int
  ps_write :: int
  ps_cgroup :: cgroup_stats

record host_sample =
  ho_load1 :: float64
  ho_load5 :: float64
  ho_load15 :: float64
  ho_mem_total :: int
  ho_mem_available :: int
  ho_data_dir :: string
  ho_disk_free :: int
  ho_disk_total :: int
  ho_pressure :: pressure

record pillar_sample =
  pl_configured :: bool
  pl_found :: bool
  pl_name :: string
  pl_rank :: int
  pl_produced :: int
  pl_expected :: int
  pl_weight :: string
  pl_error :: string

record node_sample =
  no_url :: string
  no_reachable :: bool
  no_error :: string
  no_state :: int
  no_state_text :: string
  no_current :: int
  no_target :: int
  no_peers :: int
  no_version :: string
  no_commit :: string
  no_goroutines :: int
  no_frontier_known :: bool
  no_ledger_error :: string
  no_frontier_height :: int
  no_frontier_time :: time
  no_frontier_age :: duration
  no_rate :: float64
  no_eta :: duration
  no_eta_known :: bool
  no_stalled :: bool
  no_pillar :: pillar_sample

record sample =
  sa_taken :: time
  sa_service :: service_sample
  sa_process :: process_sample
  sa_host :: host_sample
  sa_node :: node_sample

definition no_cgroup :: cgroup_stats where
  "no_cgroup = \<lparr> cg_present = False, cg_memory_current = 0, cg_memory_peak = 0, cg_memory_max = 0, cg_pids_current = 0 \<rparr>"

text \<open>Go's zero values of the structs.\<close>

definition no_process :: process_sample where
  "no_process = \<lparr> ps_present = False, ps_cpu = Fin 0, ps_rss = 0, ps_swap = 0, ps_peak = 0, ps_threads = 0, ps_open_fds = 0,
     ps_fd_limit = 0, ps_from_probe = False, ps_read = 0, ps_write = 0, ps_cgroup = no_cgroup \<rparr>"

definition no_service :: "string \<Rightarrow> service_sample" where
  "no_service unit = \<lparr> sv_unit = unit, sv_found = False, sv_active = [], sv_sub = [], sv_result = [], sv_pid = 0,
     sv_restarts = 0, sv_since = 0, sv_error = [], sv_cgroup = [] \<rparr>"

definition no_node :: "string \<Rightarrow> string \<Rightarrow> node_sample" where
  "no_node url pillar =
     \<lparr> no_url = url, no_reachable = False, no_error = [], no_state = Unknown, no_state_text = [], no_current = 0,
       no_target = 0, no_peers = 0, no_version = [], no_commit = [], no_goroutines = 0, no_frontier_known = False,
       no_ledger_error = [], no_frontier_height = 0, no_frontier_time = 0, no_frontier_age = 0, no_rate = Fin 0,
       no_eta = 0, no_eta_known = False, no_stalled = False,
       no_pillar = \<lparr> pl_configured = (pillar \<noteq> []), pl_found = False, pl_name = pillar, pl_rank = 0, pl_produced = 0,
                     pl_expected = 0, pl_weight = [], pl_error = [] \<rparr> \<rparr>"

section \<open>The service\<close>

record service_props =
  sp_active :: string
  sp_sub :: string
  sp_result :: string
  sp_cgroup :: string
  sp_pid :: int
  sp_restarts :: int
  sp_start :: time

definition serviceProperties :: "string list" where
  "serviceProperties = [''ActiveState'', ''SubState'', ''Result'', ''ControlGroup'', ''MainPID'', ''NRestarts'', ''ExecMainStartTimestamp'']"

text \<open>\<open>parse layout s\<close> is \<^verbatim>\<open>time.Parse\<close> in the machine's time zone.\<close>

definition parseSystemdTime :: "(string \<Rightarrow> string \<Rightarrow> time option) \<Rightarrow> string \<Rightarrow> time" where
  "parseSystemdTime parse s0 =
     (let s = trim_space s0 in
      if s = [] then 0
      else case parse ''Mon 2006-01-02 15:04:05 MST'' s of
             Some t \<Rightarrow> t
           | None \<Rightarrow> (case parse ''2006-01-02 15:04:05 MST'' s of Some t \<Rightarrow> t | None \<Rightarrow> 0))"

definition props_line :: "(string \<Rightarrow> string \<Rightarrow> time option) \<Rightarrow> service_props \<Rightarrow> string \<Rightarrow> service_props" where
  "props_line parse p l =
     (case cut_on (CHR ''='') l of (k, v, found) \<Rightarrow>
      if \<not> found then p
      else if k = ''ActiveState'' then p\<lparr> sp_active := v \<rparr>
      else if k = ''SubState'' then p\<lparr> sp_sub := v \<rparr>
      else if k = ''Result'' then p\<lparr> sp_result := v \<rparr>
      else if k = ''ControlGroup'' then p\<lparr> sp_cgroup := v \<rparr>
      else if k = ''MainPID'' then p\<lparr> sp_pid := atoi_val v \<rparr>
      else if k = ''NRestarts'' then p\<lparr> sp_restarts := atoi_val v \<rparr>
      else if k = ''ExecMainStartTimestamp'' then p\<lparr> sp_start := parseSystemdTime parse v \<rparr>
      else p)"

definition ParseServiceProps :: "(string \<Rightarrow> string \<Rightarrow> time option) \<Rightarrow> string \<Rightarrow> service_props" where
  "ParseServiceProps parse s =
     foldl (props_line parse)
       \<lparr> sp_active = [], sp_sub = [], sp_result = [], sp_cgroup = [], sp_pid = 0, sp_restarts = 0, sp_start = 0 \<rparr>
       (split_on (CHR 0x0A) s)"

text \<open>\<open>run\<close> is the output of a command, or the text of its error.\<close>

definition ReadServiceProps ::
  "(string list \<Rightarrow> (string, string) result) \<Rightarrow> (string \<Rightarrow> string \<Rightarrow> time option) \<Rightarrow> string \<Rightarrow> (string, service_props) result" where
  "ReadServiceProps run parse unit =
     (case run ([''systemctl'', ''show'', unit] @ concat (map (\<lambda>p. [''-p'', p]) serviceProperties)) of
        Inl e \<Rightarrow> Inl e
      | Inr out \<Rightarrow> Inr (ParseServiceProps parse out))"

definition takeService :: "string \<Rightarrow> (string, service_props) result \<Rightarrow> service_sample" where
  "takeService unit r =
     (case r of
        Inl e \<Rightarrow> (no_service unit)\<lparr> sv_error := e \<rparr>
      | Inr p \<Rightarrow>
          let found = (sp_active p \<noteq> [] \<and> (sp_active p \<noteq> ''inactive'' \<or> sp_pid p > 0 \<or> sp_cgroup p \<noteq> [])) in
          \<lparr> sv_unit = unit, sv_found = found, sv_active = sp_active p, sv_sub = sp_sub p, sv_result = sp_result p,
            sv_pid = sp_pid p, sv_restarts = sp_restarts p, sv_since = sp_start p,
            sv_error = (if \<not> found then ''unit not found'' else []), sv_cgroup = sp_cgroup p \<rparr>)"

section \<open>The disk\<close>

record statfs =
  fs_bsize :: int
  fs_blocks :: int
  fs_bfree :: int
  fs_bavail :: int

text \<open>\<^verbatim>\<open>fsx.DiskFree\<close>: available kilobytes and the used percentage, rounded up, in 64 bits.\<close>

definition DiskFree :: "statfs \<Rightarrow> int \<times> int" where
  "DiskFree st =
     (let used = wrap64 (wrap64 (fs_blocks st) - wrap64 (fs_bfree st));
          whole = wrap64 (used + wrap64 (fs_bavail st)) in
      (quot_go (wrap64 (wrap64 (fs_bavail st) * fs_bsize st)) 1024,
       if whole > 0 then quot_go (wrap64 (wrap64 (wrap64 (used * 100) + whole) - 1)) whole else 0))"

fun f_sub :: "float64 \<Rightarrow> float64 \<Rightarrow> float64" where
  "f_sub (Fin x) (Fin y) = to_float (x - y)"
| "f_sub (Fin x) PInf = NInf"
| "f_sub (Fin x) NInf = PInf"
| "f_sub PInf (Fin y) = PInf"
| "f_sub NInf (Fin y) = NInf"
| "f_sub PInf NInf = PInf"
| "f_sub NInf PInf = NInf"
| "f_sub _ _ = NaN"

definition diskFree :: "statfs option \<Rightarrow> (int \<times> int) option" where
  "diskFree st =
     (case st of None \<Rightarrow> None
      | Some s \<Rightarrow>
          (case DiskFree s of (availKB, usedPct) \<Rightarrow>
             let free = wrap_u64 (wrap_u64 availKB * 1024) in
             if usedPct \<ge> 100 then Some (free, free)
             else Some (free, f_to_uint64 (f_div (f_of_int free) (f_sub (Fin 1) (f_div (f_of_int usedPct) (Fin 100)))))))"

section \<open>The probe\<close>

record probe =
  pb_at :: time
  pb_pid :: int
  pb_start :: int
  pb_open_fds :: int
  pb_fd_limit :: int
  pb_read :: int
  pb_write :: int
  pb_disk_ok :: bool
  pb_disk_free :: int
  pb_disk_total :: int

definition ProbeMaxAge :: duration where "ProbeMaxAge = 2 * minute"

definition TakeProbe :: "os_view \<Rightarrow> (string \<Rightarrow> statfs option) \<Rightarrow> string \<Rightarrow> int \<Rightarrow> string \<Rightarrow> time \<Rightarrow> bool \<times> probe" where
  "TakeProbe os statfs procRoot pid dataDir now =
     (let p0 = \<lparr> pb_at = now, pb_pid = pid, pb_start = 0, pb_open_fds = 0, pb_fd_limit = 0, pb_read = 0, pb_write = 0,
                 pb_disk_ok = False, pb_disk_free = 0, pb_disk_total = 0 \<rparr>;
          p1 = (case diskFree (statfs dataDir) of
                  Some (free, whole) \<Rightarrow>
                    if whole > 0 then p0\<lparr> pb_disk_ok := True, pb_disk_free := free, pb_disk_total := whole \<rparr> else p0
                | None \<Rightarrow> p0) in
      if pid = 0 then (True, p1)
      else
        let p2 = (case ReadProcStat os procRoot pid of Some st \<Rightarrow> p1\<lparr> pb_start := pt_start st \<rparr> | None \<Rightarrow> p1) in
        case CountFDs os procRoot pid of
          None \<Rightarrow> (False, p2)
        | Some fds \<Rightarrow>
            let p3 = p2\<lparr> pb_open_fds := fds, pb_fd_limit := ReadFDLimit os procRoot pid \<rparr> in
            (True, case ReadProcIO os procRoot pid of
                     Some (r, w) \<Rightarrow> p3\<lparr> pb_read := r, pb_write := w \<rparr> | None \<Rightarrow> p3))"

definition ReadProbe :: "os_view \<Rightarrow> (bytes \<Rightarrow> probe option) \<Rightarrow> string \<Rightarrow> time \<Rightarrow> probe option" where
  "ReadProbe os decode path now =
     (case ov_file os path of None \<Rightarrow> None
      | Some data \<Rightarrow>
          (case decode data of None \<Rightarrow> None
           | Some p \<Rightarrow>
               let age = time_sub now (pb_at p) in
               if age > ProbeMaxAge \<or> age < - ProbeMaxAge then None else Some p))"

definition ForProcess :: "probe \<Rightarrow> int \<Rightarrow> int \<Rightarrow> bool" where
  "ForProcess p pid startTime \<longleftrightarrow> pid \<noteq> 0 \<and> startTime \<noteq> 0 \<and> pb_pid p = pid \<and> pb_start p = startTime"


section \<open>Rates\<close>

definition StalledAfter :: duration where "StalledAfter = 2 * minute"
definition rateWindow :: nat where "rateWindow = 30"

fun f_add :: "float64 \<Rightarrow> float64 \<Rightarrow> float64" where
  "f_add (Fin x) (Fin y) = to_float (x + y)"
| "f_add (Fin x) g = g"
| "f_add f (Fin x) = f"
| "f_add PInf PInf = PInf"
| "f_add NInf NInf = NInf"
| "f_add _ _ = NaN"

text \<open>\<^verbatim>\<open>Duration.Seconds\<close>.\<close>

definition duration_seconds :: "duration \<Rightarrow> float64" where
  "duration_seconds d = f_add (f_of_int (quot_go d second)) (f_div (f_of_int (rem_go d second)) (Fin 1000000000))"

definition rate :: "(time \<times> int) list \<Rightarrow> float64" where
  "rate points =
     (if length points < 2 then Fin 0
      else let a = hd points; b = List.last points; secs = duration_seconds (time_sub (fst b) (fst a)) in
        if \<not> f_lt (Fin 0) secs \<or> snd b < snd a then Fin 0
        else f_div (f_of_int (wrap_u64 (snd b - snd a))) secs)"

section \<open>The sampler\<close>

record sampler =
  sm_proc_root :: string
  sm_probe_path :: string
  sm_mountinfo :: string
  sm_cgroup_root :: string
  sm_url :: string
  sm_ticks :: float64
  sm_pillar_name :: string
  sm_unit :: string
  sm_data_dir :: string
  sm_prev_ticks :: int
  sm_prev_time :: time
  sm_prev_pid :: int
  sm_heights :: "(time \<times> int) list"

text \<open>Everything outside the sampler that one sample asks.\<close>

record sampler_env =
  se_os :: os_view
  se_run :: "string list \<Rightarrow> (string, string) result"
  se_time_parse :: "string \<Rightarrow> string \<Rightarrow> time option"
  se_statfs :: "string \<Rightarrow> statfs option"
  se_probe :: "bytes \<Rightarrow> probe option"
  se_replies :: rpc_replies
  se_order :: "task list"

definition NewSampler :: "string \<Rightarrow> string \<Rightarrow> string \<Rightarrow> sampler" where
  "NewSampler serviceName znnDir pillarName =
     \<lparr> sm_proc_root = ''/proc'', sm_probe_path = [], sm_mountinfo = ''/proc/self/mountinfo'', sm_cgroup_root = ''/sys/fs/cgroup'',
       sm_url = ''http://127.0.0.1:35997'', sm_ticks = Fin 100, sm_pillar_name = pillarName, sm_unit = serviceName, sm_data_dir = znnDir,
       sm_prev_ticks = 0, sm_prev_time = 0, sm_prev_pid = 0, sm_heights = [] \<rparr>"

definition sampler_probe :: "sampler_env \<Rightarrow> sampler \<Rightarrow> time \<Rightarrow> probe option" where
  "sampler_probe env s now =
     (if sm_probe_path s = [] then None else ReadProbe (se_os env) (se_probe env) (sm_probe_path s) now)"

definition cpu_percent :: "sampler \<Rightarrow> int \<Rightarrow> int \<Rightarrow> time \<Rightarrow> float64" where
  "cpu_percent s pid ticks now =
     (if sm_prev_pid s = pid \<and> \<not> is_zero (sm_prev_time s) \<and> after now (sm_prev_time s) \<and> ticks \<ge> sm_prev_ticks s
      then f_mul (f_div (f_div (f_of_int (wrap_u64 (ticks - sm_prev_ticks s))) (sm_ticks s))
                   (duration_seconds (time_sub now (sm_prev_time s)))) (Fin 100)
      else Fin 0)"

definition takeProcess :: "sampler_env \<Rightarrow> int \<Rightarrow> string \<Rightarrow> time \<Rightarrow> sampler \<Rightarrow> process_sample \<times> sampler" where
  "takeProcess env pid controlGroup now s =
     (let os = se_os env; rt = sm_proc_root s in
      case ReadProcStatus os rt pid of None \<Rightarrow> (no_process, s)
      | Some st \<Rightarrow>
          let p0 = no_process\<lparr> ps_present := True, ps_rss := pst_vm_rss st, ps_swap := pst_vm_swap st,
                               ps_peak := pst_vm_peak st, ps_threads := pst_threads st \<rparr>;
              (start, p1, s1) =
                (case ReadProcStat os rt pid of
                   None \<Rightarrow> (0, p0, s)
                 | Some stat \<Rightarrow>
                     let ticks = wrap_u64 (pt_utime stat + pt_stime stat) in
                     (pt_start stat, p0\<lparr> ps_cpu := cpu_percent s pid ticks now \<rparr>,
                      s\<lparr> sm_prev_ticks := ticks, sm_prev_time := now, sm_prev_pid := pid \<rparr>));
              p2 = (case ReadProcIO os rt pid of Some (r, w) \<Rightarrow> p1\<lparr> ps_read := r, ps_write := w \<rparr> | None \<Rightarrow> p1);
              p3 = p2\<lparr> ps_fd_limit := ReadFDLimit os rt pid \<rparr>;
              p4 = (case CountFDs os rt pid of
                      Some fds \<Rightarrow> p3\<lparr> ps_open_fds := fds \<rparr>
                    | None \<Rightarrow>
                        (case sampler_probe env s1 now of
                           None \<Rightarrow> p3
                         | Some pb \<Rightarrow>
                             if \<not> ForProcess pb pid start then p3
                             else let p = p3\<lparr> ps_open_fds := pb_open_fds pb, ps_fd_limit := pb_fd_limit pb \<rparr>;
                                      q = (if ps_read p = 0 \<and> ps_write p = 0
                                           then p\<lparr> ps_read := pb_read pb, ps_write := pb_write pb \<rparr> else p)
                                  in q\<lparr> ps_from_probe := True \<rparr>))
          in (p4\<lparr> ps_cgroup := ReadCgroup os (sm_cgroup_root s1) controlGroup \<rparr>, s1))"

definition dataDirDisk :: "sampler_env \<Rightarrow> sampler \<Rightarrow> time \<Rightarrow> int \<times> int" where
  "dataDirDisk env s now =
     (if sm_probe_path s = [] then (case diskFree (se_statfs env (sm_data_dir s)) of Some d \<Rightarrow> d | None \<Rightarrow> (0, 0))
      else case sampler_probe env s now of
        Some pb \<Rightarrow>
          if pb_disk_ok pb then (pb_disk_free pb, pb_disk_total pb)
          else (case diskFree (se_statfs env (MountPoint (se_os env) (sm_mountinfo s) (sm_data_dir s))) of
                  Some d \<Rightarrow> d | None \<Rightarrow> (0, 0))
      | None \<Rightarrow>
          (case diskFree (se_statfs env (MountPoint (se_os env) (sm_mountinfo s) (sm_data_dir s))) of
             Some d \<Rightarrow> d | None \<Rightarrow> (0, 0)))"

definition takeHost :: "sampler_env \<Rightarrow> sampler \<Rightarrow> time \<Rightarrow> host_sample" where
  "takeHost env s now =
     (let os = se_os env; (l1, l5, l15) = ReadLoadAvg os (sm_proc_root s);
          (mt, ma) = (case ReadMemInfo os (sm_proc_root s) of Some m \<Rightarrow> m | None \<Rightarrow> (0, 0));
          (free, whole) = dataDirDisk env s now in
      \<lparr> ho_load1 = l1, ho_load5 = l5, ho_load15 = l15, ho_mem_total = mt, ho_mem_available = ma,
        ho_data_dir = sm_data_dir s, ho_disk_free = free, ho_disk_total = whole,
        ho_pressure = ReadPressure os (sm_proc_root s) \<rparr>)"

definition pillar_of :: "snapshot \<Rightarrow> pillar_sample \<Rightarrow> pillar_sample" where
  "pillar_of snap p =
     (if \<not> pl_configured p then p
      else case sn_pillar_err snap of
        Some e \<Rightarrow> p\<lparr> pl_error := e \<rparr>
      | None \<Rightarrow>
          (case sn_pillar snap of
             None \<Rightarrow> p\<lparr> pl_error := ''not found in the pillar list'' \<rparr>
           | Some i \<Rightarrow>
               let q = p\<lparr> pl_found := True, pl_name := pli_name i, pl_rank := pli_rank i, pl_weight := pli_weight i \<rparr> in
               (case pli_stats i of
                  None \<Rightarrow> q
                | Some st \<Rightarrow> q\<lparr> pl_produced := pls_produced st, pl_expected := pls_expected st \<rparr>)))"

definition frontier_of :: "snapshot \<Rightarrow> time \<Rightarrow> node_sample \<Rightarrow> node_sample" where
  "frontier_of snap now n =
     (case sn_frontier snap of
        Some m \<Rightarrow>
          let t = momentum_time m; age = time_sub now t in
          n\<lparr> no_frontier_known := True, no_frontier_height := mo_height m, no_frontier_time := t, no_frontier_age := age,
             no_stalled := (no_state n = Done \<and> age > StalledAfter) \<rparr>
      | None \<Rightarrow> (case sn_frontier_err snap of Some e \<Rightarrow> n\<lparr> no_ledger_error := e \<rparr> | None \<Rightarrow> n))"

definition push_height :: "time \<Rightarrow> int \<Rightarrow> (time \<times> int) list \<Rightarrow> (time \<times> int) list" where
  "push_height now h hs =
     (let ks = hs @ [(now, h)] in if length ks > rateWindow then drop (length ks - rateWindow) ks else ks)"

definition eta_of :: "node_sample \<Rightarrow> node_sample" where
  "eta_of n =
     (if no_state n = Syncing \<and> f_lt (Fin 0) (no_rate n) \<and> no_target n > no_current n
      then n\<lparr> no_eta := wrap64 (f_to_int64 (f_div (f_of_int (wrap_u64 (no_target n - no_current n))) (no_rate n)) * second),
              no_eta_known := True \<rparr>
      else n)"

text \<open>\<open>None\<close> is the nil dereference of a snapshot without its values.\<close>

definition takeNode :: "sampler_env \<Rightarrow> time \<Rightarrow> sampler \<Rightarrow> (node_sample \<times> sampler) option" where
  "takeNode env now s =
     (let n0 = no_node (sm_url s) (sm_pillar_name s); snap = Snapshot (se_replies env) (se_order env) in
      case sn_err snap of
        Some e \<Rightarrow> Some (n0\<lparr> no_error := e \<rparr>, s\<lparr> sm_heights := [] \<rparr>)
      | None \<Rightarrow>
          (case (sn_sync snap, sn_network snap, sn_process snap, sn_os snap) of
             (Some sy, Some ne, Some pr, Some os) \<Rightarrow>
               let n1 = n0\<lparr> no_pillar := pillar_of snap (no_pillar n0), no_reachable := True, no_state := si_state sy,
                            no_state_text := sync_state_text (si_state sy), no_current := si_current sy, no_target := si_target sy,
                            no_peers := ni_num_peers ne, no_version := pi_version pr, no_commit := pi_commit pr,
                            no_goroutines := oi_goroutines os \<rparr>;
                   n2 = frontier_of snap now n1;
                   hs = push_height now (no_current n2) (sm_heights s);
                   n3 = n2\<lparr> no_rate := rate hs \<rparr>
               in Some (eta_of n3, s\<lparr> sm_heights := hs \<rparr>)
           | _ \<Rightarrow> None))"

definition Take :: "sampler_env \<Rightarrow> time \<Rightarrow> sampler \<Rightarrow> (sample \<times> sampler) option" where
  "Take env now s =
     (let svc = takeService (sm_unit s) (ReadServiceProps (se_run env) (se_time_parse env) (sm_unit s));
          (p, s1) = (if sv_pid svc > 0 then takeProcess env (sv_pid svc) (sv_cgroup svc) now s
                     else (no_process, s\<lparr> sm_prev_pid := 0 \<rparr>));
          ho = takeHost env s1 now in
      map_option (\<lambda>(n, s2). (\<lparr> sa_taken = now, sa_service = svc, sa_process = p, sa_host = ho, sa_node = n \<rparr>, s2))
        (takeNode env now s1))"

section \<open>What a sample guarantees\<close>

text \<open>A sample never runs into a value the snapshot does not have, in whatever order its calls end.\<close>

lemma takeNode_total:
  assumes "distinct (se_order env)" "set (se_order env) = set (tasks p)"
  shows "takeNode env now s \<noteq> None"
  using Snapshot_ok[OF assms, of "se_replies env"]
  by (auto simp: takeNode_def Let_def stats_failed_def split: option.splits)

lemma Take_total:
  assumes "distinct (se_order env)" "set (se_order env) = set (tasks p)"
  shows "Take env now s \<noteq> None"
  by (simp add: Take_def Let_def case_prod_beta takeNode_total[OF assms])

lemma push_height_length: "length (push_height now h hs) \<le> rateWindow"
  by (simp add: push_height_def Let_def rateWindow_def)

lemma takeNode_heights:
  "length (sm_heights s) \<le> rateWindow \<Longrightarrow> takeNode env now s = Some (n, s') \<Longrightarrow> length (sm_heights s') \<le> rateWindow"
  using push_height_length by (auto simp: takeNode_def Let_def split: option.splits)


section \<open>Text\<close>

fun unit_scale :: "int \<Rightarrow> int \<times> nat" where
  "unit_scale m = (if m < 1024 then (1024, 0) else case unit_scale (m div 1024) of (dv, ex) \<Rightarrow> (dv * 1024, ex + 1))"

declare unit_scale.simps [simp del]

definition HumanBytes :: "int \<Rightarrow> string" where
  "HumanBytes n =
     (if n < 1024 then show_int n @ '' B''
      else case unit_scale (n div 1024) of (dv, ex) \<Rightarrow>
        fmt_fixed 1 (f_div (f_of_int n) (f_of_int dv)) @ '' '' @ [''KMGTPE'' ! ex] @ ''iB'')"

definition HumanDuration :: "duration \<Rightarrow> string" where
  "HumanDuration d0 =
     (let d = round_second (if d0 < 0 then 0 else d0);
          days = d div hour div 24; hours = d div hour mod 24;
          mins = d div minute mod 60; secs = d div second mod 60
      in if days > 0 then show_int days @ ''d '' @ show_int hours @ ''h''
         else if hours > 0 then show_int hours @ ''h '' @ show_int mins @ ''m''
         else if mins > 0 then show_int mins @ ''m '' @ show_int secs @ ''s''
         else show_int secs @ ''s'')"

text \<open>Groups of three digits from the right.\<close>

fun comma_groups :: "string \<Rightarrow> string" where
  "comma_groups s = (if s = [] then [] else CHR '','' # take 3 s @ comma_groups (drop 3 s))"

declare comma_groups.simps [simp del]

definition Commas :: "int \<Rightarrow> string" where
  "Commas n =
     (let s = show_uint n; pre = length s mod 3 in
      if length s \<le> 3 then s
      else if pre > 0 then take pre s @ comma_groups (drop pre s)
      else take 3 s @ comma_groups (drop 3 s))"

definition firstLine :: "string \<Rightarrow> string" where
  "firstLine s = (case index_byte s (CHR 0x0A) of Some i \<Rightarrow> take i s | None \<Rightarrow> s)"

definition PillarText :: "pillar_sample \<Rightarrow> string" where
  "PillarText p =
     (if \<not> pl_found p then pl_name p @ '': '' @ pl_error p
      else pl_name p @ '' rank '' @ show_int (pl_rank p) @ '', produced '' @ show_int (pl_produced p) @ '' / '' @
        show_int (pl_expected p) @ '' expected this epoch'' @
        (if pl_expected p > pl_produced p then '', '' @ show_int (pl_expected p - pl_produced p) @ '' missed'' else []))"

text \<open>The label is padded to nine columns.\<close>

definition text_line :: "string \<Rightarrow> string \<Rightarrow> string" where
  "text_line label s = label @ replicate (9 - length label) (CHR '' '') @ '' '' @ s @ [CHR 0x0A]"

definition service_text :: "sample \<Rightarrow> string" where
  "service_text s =
     (let v = sa_service s in
      if \<not> sv_found v then text_line ''Service'' (sv_unit v @ '': '' @ firstLine (sv_error v))
      else text_line ''Service'' (sv_unit v @ '' '' @ sv_active v @ '' ('' @ sv_sub v @ ''), pid '' @ show_int (sv_pid v) @ '', '' @
             show_int (sv_restarts v) @ '' restarts'' @
             (if \<not> is_zero (sv_since v) \<and> sv_active v = ''active''
              then '', up '' @ HumanDuration (time_sub (sa_taken s) (sv_since v)) else [])))"

definition sync_text :: "node_sample \<Rightarrow> string" where
  "sync_text n =
     no_state_text n @
     (if no_target n > 0
      then '' '' @ Commas (no_current n) @ '' / '' @ Commas (no_target n) @ '' ('' @
           fmt_fixed 1 (f_mul (f_div (f_of_int (no_current n)) (f_of_int (no_target n))) (Fin 100)) @ ''%)'' else []) @
     (if f_lt (Fin 0) (no_rate n) then '', '' @ fmt_fixed 1 (no_rate n) @ '' mom/s'' else []) @
     (if no_eta_known n then '', ETA '' @ HumanDuration (no_eta n) else []) @
     (if no_stalled n then '' [STALLED]'' else [])"

definition node_text :: "node_sample \<Rightarrow> string" where
  "node_text n =
     (if \<not> no_reachable n
      then text_line ''Node'' (''node rpc unreachable at '' @ trim_prefix (no_url n) ''http://'' @ '': '' @ no_error n)
      else
        text_line ''Node'' (''znnd '' @ no_version n @ '' ('' @ no_commit n @ ''), '' @ sync_text n) @
        text_line ''Peers'' (show_int (no_peers n) @ '' connected'') @
        (if no_frontier_known n
         then text_line ''Frontier'' (''height '' @ Commas (no_frontier_height n) @ '', '' @ HumanDuration (no_frontier_age n) @ '' ago'')
         else text_line ''Frontier'' (''ledger busy (momentum insertion holds the lock): '' @ no_ledger_error n)) @
        (if pl_configured (no_pillar n) then text_line ''Pillar'' (PillarText (no_pillar n)) else []))"

definition process_text :: "process_sample \<Rightarrow> string" where
  "process_text p =
     (if ps_present p
      then text_line ''Process'' (''cpu '' @ fmt_fixed 1 (ps_cpu p) @ ''%, rss '' @ HumanBytes (ps_rss p) @ '', threads '' @
             show_int (ps_threads p) @ '', open files '' @ show_int (ps_open_fds p) @
             (if ps_fd_limit p > 0 then '' / '' @ show_int (ps_fd_limit p) else []))
      else text_line ''Process'' ''not running'')"

definition host_text :: "host_sample \<Rightarrow> string" where
  "host_text h =
     text_line ''Host'' (''load '' @ fmt_fixed 2 (ho_load1 h) @ '' '' @ fmt_fixed 2 (ho_load5 h) @ '' '' @ fmt_fixed 2 (ho_load15 h) @
       '', mem '' @ HumanBytes (ho_mem_available h) @ '' / '' @ HumanBytes (ho_mem_total h) @ '' available, '' @
       (if ho_disk_total h = 0 then ho_data_dir h @ '' not found''
        else ho_data_dir h @ '' '' @ HumanBytes (ho_disk_free h) @ '' free'')) @
     text_line ''Pressure'' (''cpu '' @ fmt_fixed 1 (pr_cpu (ho_pressure h)) @ ''%, io '' @ fmt_fixed 1 (pr_io (ho_pressure h)) @
       ''%, mem '' @ fmt_fixed 1 (pr_memory (ho_pressure h)) @ ''%'')"

definition Format :: "sample \<Rightarrow> string" where
  "Format s = service_text s @ node_text (sa_node s) @ process_text (sa_process s) @ host_text (sa_host s)"

text \<open>The unit letter of \<open>HumanBytes\<close> exists for every 64-bit number.\<close>

lemma unit_scale_exp: "0 \<le> m \<Longrightarrow> m < 1024 ^ Suc k \<Longrightarrow> snd (unit_scale m) \<le> k"
proof (induction k arbitrary: m)
  case 0
  then show ?case by (subst unit_scale.simps) simp
next
  case (Suc k)
  show ?case
  proof (cases "m < 1024")
    case True
    then show ?thesis by (subst unit_scale.simps) simp
  next
    case False
    have "m < 1024 ^ Suc k * 1024" using Suc.prems(2) by simp
    then have "m div 1024 < 1024 ^ Suc k" by linarith
    moreover have "0 \<le> m div 1024" using Suc.prems(1) by (simp add: pos_imp_zdiv_nonneg_iff)
    ultimately have "snd (unit_scale (m div 1024)) \<le> k" using Suc.IH by blast
    with False show ?thesis by (subst unit_scale.simps) (auto split: prod.splits)
  qed
qed

end
