(* ===== verification/Alert_Rules.thy ===== *)
theory Alert_Rules
  imports Alert_Config Metrics_Sample
begin

text \<open>
  \<^verbatim>\<open>internal/alerts/rules.go\<close>: the sample history and the fourteen rules evaluated over it.  A rule is
  a function of what the checkers answer, the history (oldest first) and its configuration.
\<close>

definition HistoryWindow :: duration where "HistoryWindow = MaxWindowMinutes * minute"

record rule_result =
  ev_firing :: bool
  ev_detail :: string

definition quiet :: rule_result where "quiet = \<lparr> ev_firing = False, ev_detail = [] \<rparr>"
definition fires :: "string \<Rightarrow> rule_result" where "fires d = \<lparr> ev_firing = True, ev_detail = d \<rparr>"

lemma result_simps [simp]: "\<not> ev_firing quiet" "ev_firing (fires d)" "ev_detail (fires d) = d" "ev_detail quiet = []"
  by (simp_all add: quiet_def fires_def)

record backup_info =
  bi_timer :: bool
  bi_newest :: time
  bi_cadence :: int

record wallet_info =
  wi_configured :: bool
  wi_missing :: bool
  wi_newest :: time

record update_info =
  ui_latest :: string
  ui_running :: string
  ui_behind :: bool
  ui_branch :: string

text \<open>What the three checkers answer, \<open>None\<close> when one is not set, and the comparison of versions.\<close>

record checkers =
  ck_backup :: "backup_info option"
  ck_wallet :: "wallet_info option"
  ck_update :: "update_info option"
  ck_newer :: "string \<Rightarrow> string \<Rightarrow> bool"

section \<open>History\<close>

definition trimHistory :: "sample list \<Rightarrow> time \<Rightarrow> sample list" where
  "trimHistory h now = dropWhile (\<lambda>s. before (sa_taken s) (time_add now (- HistoryWindow))) h"

definition lastN :: "sample list \<Rightarrow> nat \<Rightarrow> sample list" where
  "lastN h n = (if length h \<le> n then h else drop (length h - n) h)"

definition newest :: "sample list \<Rightarrow> sample" where "newest h = List.last h"

definition since :: "sample list \<Rightarrow> duration \<Rightarrow> sample list" where
  "since h d =
     (if h = [] then []
      else dropWhile (\<lambda>s. before (sa_taken s) (time_add (sa_taken (newest h)) (wrap64 (- d)))) h)"

definition covers :: "sample list \<Rightarrow> duration \<Rightarrow> bool" where
  "covers h d \<longleftrightarrow>
     (case h of
        a # b # _ \<Rightarrow> wrap64 (time_sub (sa_taken (newest h)) (sa_taken a) + time_sub (sa_taken b) (sa_taken a)) \<ge> d
      | _ \<Rightarrow> False)"

definition minutes :: "rule_config \<Rightarrow> string \<Rightarrow> string \<Rightarrow> duration" where
  "minutes cfg rule k = f_to_int64 (f_mul (Threshold cfg rule k) (f_of_int minute))"

section \<open>Rules\<close>

type_synonym rule = "checkers \<Rightarrow> sample list \<Rightarrow> rule_config \<Rightarrow> rule_result"

definition active :: "sample \<Rightarrow> bool" where "active s \<longleftrightarrow> sv_active (sa_service s) = ''active''"

definition serviceDown :: rule where
  "serviceDown ck h cfg =
     (let w = lastN h 2; v = sa_service (newest w) in
      if length w < 2 then quiet
      else if \<exists>s \<in> set w. active s then quiet
      else if \<not> sv_found v then fires (sv_unit v @ '': '' @ sv_error v)
      else fires (sv_unit v @ '' '' @ sv_active v @ '' ('' @ sv_sub v @ ''), '' @ show_int (sv_restarts v) @ '' restarts''))"

definition crashLoop :: rule where
  "crashLoop ck h cfg =
     (let d = minutes cfg ''crash_loop'' ''window_minutes''; w = since h d;
          a = sv_restarts (sa_service (hd w)); b = sv_restarts (sa_service (newest w));
          n = f_to_int64 (Threshold cfg ''crash_loop'' ''count'') in
      if length w < 2 then quiet
      else if wrap64 (b - a) \<ge> n
      then fires (show_int (wrap64 (b - a)) @ '' restarts in the last '' @ duration_string d @ '' (total '' @ show_int b @ '')'')
      else quiet)"

definition syncStalled :: rule where
  "syncStalled ck h cfg =
     (let w = lastN h 2; n = sa_node (newest w) in
      if length w < 2 then quiet
      else if \<exists>s \<in> set w. \<not> no_reachable (sa_node s) \<or> \<not> no_stalled (sa_node s) then quiet
      else fires (''synced at height '' @ Commas (no_current n) @ '' but frontier is '' @ HumanDuration (no_frontier_age n) @ '' old''))"

definition height_gap :: "node_sample \<Rightarrow> int" where
  "height_gap n = wrap64 (wrap64 (no_target n) - wrap64 (no_current n))"

definition syncBehind :: rule where
  "syncBehind ck h cfg =
     (let d = minutes cfg ''sync_behind'' ''minutes''; w = since h d;
          a = sa_node (hd w); b = sa_node (newest w) in
      if \<not> covers w d then quiet
      else if \<exists>s \<in> set w. \<not> no_reachable (sa_node s) \<or> no_state (sa_node s) \<noteq> Syncing then quiet
      else if height_gap b \<ge> height_gap a \<and> height_gap b > 0
      then fires (Commas (height_gap b) @ '' momentums behind, gap not closing for '' @ HumanDuration d @ '' ('' @
             fmt_fixed 1 (no_rate b) @ '' mom/s)'')
      else quiet)"

definition notEnoughPeers :: rule where
  "notEnoughPeers ck h cfg =
     (let d = minutes cfg ''not_enough_peers'' ''minutes'';
          minPeers = f_to_int64 (Threshold cfg ''not_enough_peers'' ''min_peers''); w = since h d; n = sa_node (newest w) in
      if \<not> covers w d then quiet
      else if \<exists>s \<in> set w. \<not> no_reachable (sa_node s) \<or>
                no_state (sa_node s) \<noteq> NotEnoughPeers \<and> no_peers (sa_node s) \<ge> minPeers then quiet
      else if no_state n = NotEnoughPeers
      then fires (''node reports '' @ [CHR 0x27] @ ''not enough peers'' @ [CHR 0x27] @ '' ('' @ show_int (no_peers n) @
             '' connected) for '' @ HumanDuration d @ ''; check that port 35995/TCP is reachable'')
      else fires (show_int (no_peers n) @ '' peers connected (minimum '' @ show_int minPeers @ '') for '' @
             HumanDuration d @ ''; check that port 35995/TCP is reachable''))"

definition diskLow :: rule where
  "diskLow ck h cfg =
     (let ho = sa_host (newest h);
          minFree = f_to_uint64 (f_mul (Threshold cfg ''disk_low'' ''min_free_gb'') (Fin 1073741824)) in
      if h = [] then quiet
      else if ho_disk_total ho > 0 \<and> ho_disk_free ho < minFree
      then fires (ho_data_dir ho @ '' has '' @ HumanBytes (ho_disk_free ho) @ '' free (minimum '' @ HumanBytes minFree @ '')'')
      else quiet)"

definition percent_of :: "int \<Rightarrow> int \<Rightarrow> float64" where
  "percent_of a b = f_mul (f_div (f_of_int a) (f_of_int b)) (Fin 100)"

definition memoryHigh :: rule where
  "memoryHigh ck h cfg =
     (let s = newest h; pct = percent_of (ps_rss (sa_process s)) (ho_mem_total (sa_host s)) in
      if h = [] then quiet
      else if \<not> ps_present (sa_process s) \<or> ho_mem_total (sa_host s) = 0 then quiet
      else if f_lt (Threshold cfg ''memory_high'' ''pct'') pct
      then fires (''znnd uses '' @ HumanBytes (ps_rss (sa_process s)) @ '', '' @ fmt_fixed 0 pct @ ''% of '' @
             HumanBytes (ho_mem_total (sa_host s)))
      else quiet)"

definition fdsHigh :: rule where
  "fdsHigh ck h cfg =
     (let p = sa_process (newest h); pct = percent_of (ps_open_fds p) (ps_fd_limit p) in
      if h = [] then quiet
      else if \<not> ps_present p \<or> ps_fd_limit p = 0 then quiet
      else if f_lt (Threshold cfg ''fds_high'' ''pct'') pct
      then fires (show_int (ps_open_fds p) @ '' of '' @ show_int (ps_fd_limit p) @ '' open files ('' @ fmt_fixed 0 pct @ ''%)'')
      else quiet)"

definition backupStale :: rule where
  "backupStale ck h cfg =
     (case ck_backup ck of None \<Rightarrow> quiet
      | Some info \<Rightarrow>
          let now = sa_taken (newest h); limit = wrap64 (wrap64 (wrap64 (bi_cadence info + 1) * 24) * hour) in
          if h = [] \<or> \<not> bi_timer info then quiet
          else if is_zero (bi_newest info) \<or> time_sub now (bi_newest info) > limit
          then fires (''newest backup '' @
                 (if is_zero (bi_newest info) then ''never'' else HumanDuration (time_sub now (bi_newest info)) @ '' ago'') @
                 '', expected every '' @ show_int (bi_cadence info) @ '' day(s)'')
          else quiet)"

definition walletBackupMissing :: rule where
  "walletBackupMissing ck h cfg =
     (case ck_wallet ck of None \<Rightarrow> quiet
      | Some info \<Rightarrow>
          if h = [] \<or> \<not> wi_configured info \<or> \<not> wi_missing info then quiet
          else if is_zero (wi_newest info)
          then fires ''a producer key is configured but has never been backed up: sudo nomctl backup wallet''
          else fires (''the producer key changed after the newest wallet backup ('' @ format_date (wi_newest info) @
                 ''): sudo nomctl backup wallet''))"

definition rpcUnreachable :: rule where
  "rpcUnreachable ck h cfg =
     (let d = minutes cfg ''rpc_unreachable'' ''minutes''; w = since h d; n = sa_node (newest w) in
      if \<not> covers w d then quiet
      else if \<exists>s \<in> set w. \<not> active s \<or> no_reachable (sa_node s) then quiet
      else fires (''service active but '' @ no_url n @ '' not answering for '' @ HumanDuration d @ '': '' @ no_error n))"

definition momentumsStalled :: rule where
  "momentumsStalled ck h cfg =
     (let d = minutes cfg ''momentums_stalled'' ''minutes''; w = since h d; n = sa_node (newest w);
          height = Commas (no_current n) in
      if \<not> covers w d then quiet
      else if \<exists>s \<in> set w. \<not> active s \<or> \<not> no_reachable (sa_node s) \<or> no_current (sa_node s) \<noteq> no_current (sa_node (hd w)) then quiet
      else if \<forall>s \<in> set w. \<not> no_frontier_known (sa_node s)
      then fires (''height '' @ height @ '' unchanged for '' @ HumanDuration d @
             '' and the ledger has not answered in that time (state: '' @ no_state_text n @ ''); a momentum insert may be hung'')
      else if \<not> no_frontier_known n
      then fires (''height '' @ height @ '' unchanged for '' @ HumanDuration d @ '', ledger not answering now: '' @
             no_ledger_error n @ '' (state: '' @ no_state_text n @ '')'')
      else fires (''height '' @ height @ '' unchanged for '' @ HumanDuration d @ '', frontier '' @ HumanDuration (no_frontier_age n) @
             '' old (state: '' @ no_state_text n @ '')''))"

text \<open>The index of the last sample whose expected count is below the one before it, 0 when none is.\<close>

fun rollover :: "nat \<Rightarrow> nat \<Rightarrow> int list \<Rightarrow> nat" where
  "rollover i start (a # b # xs) = rollover (Suc i) (if b < a then Suc i else start) (b # xs)"
| "rollover i start xs = start"

definition expected_of :: "sample \<Rightarrow> int" where "expected_of s = pl_expected (no_pillar (sa_node s))"
definition produced_of :: "sample \<Rightarrow> int" where "produced_of s = pl_produced (no_pillar (sa_node s))"

definition pillarMissed :: rule where
  "pillarMissed ck h cfg =
     (let d = minutes cfg ''pillar_missed'' ''minutes''; minMissed = f_to_uint64 (Threshold cfg ''pillar_missed'' ''missed'');
          w0 = since h d; w = drop (rollover 0 0 (map expected_of w0)) w0;
          expected = wrap_u64 (expected_of (newest w) - expected_of (hd w));
          produced = wrap_u64 (produced_of (newest w) - produced_of (hd w)) in
      if \<not> covers w0 d then quiet
      else if \<not> covers w d then quiet
      else if \<exists>s \<in> set w. \<not> no_reachable (sa_node s) \<or> \<not> pl_configured (no_pillar (sa_node s)) \<or> \<not> pl_found (no_pillar (sa_node s))
      then quiet
      else if expected > produced \<and> wrap_u64 (expected - produced) \<ge> minMissed
      then fires (pl_name (no_pillar (sa_node (newest w))) @ '' missed '' @ show_int (wrap_u64 (expected - produced)) @ '' of '' @
             show_int expected @ '' expected momentums in the last '' @ HumanDuration d @ '' ('' @
             show_int (produced_of (newest w)) @ '' / '' @ show_int (expected_of (newest w)) @ '' this epoch)'')
      else quiet)"

definition updateAvailable :: rule where
  "updateAvailable ck h cfg =
     (case ck_update ck of None \<Rightarrow> quiet
      | Some info \<Rightarrow>
          let parts =
            (if ui_latest info \<noteq> [] \<and> ck_newer ck (ui_latest info) (ui_running info)
             then [''nomctl '' @ trim_prefix (ui_latest info) ''v'' @ '' available (running '' @ ui_running info @ ''): sudo nomctl upgrade'']
             else []) @
            (if ui_behind info then [''go-zenon '' @ ui_branch info @ '' has new commits: sudo nomctl deploy''] else []) in
          if h = [] \<or> parts = [] then quiet else fires (join_with ''; '' parts))"

definition AllRules :: "(string \<times> rule) list" where
  "AllRules =
     [(''service_down'', serviceDown), (''crash_loop'', crashLoop), (''sync_stalled'', syncStalled),
      (''sync_behind'', syncBehind), (''not_enough_peers'', notEnoughPeers), (''disk_low'', diskLow),
      (''memory_high'', memoryHigh), (''fds_high'', fdsHigh), (''backup_stale'', backupStale),
      (''wallet_backup_missing'', walletBackupMissing), (''rpc_unreachable'', rpcUnreachable),
      (''momentums_stalled'', momentumsStalled), (''pillar_missed'', pillarMissed), (''update_available'', updateAvailable)]"

section \<open>Windows\<close>

lemma dropWhile_weaker: "(\<And>x. Q x \<Longrightarrow> P x) \<Longrightarrow> dropWhile P (dropWhile Q xs) = dropWhile P xs"
  by (induction xs) auto

lemma newest_dropWhile: "\<not> P (newest h) \<Longrightarrow> h \<noteq> [] \<Longrightarrow> dropWhile P h \<noteq> [] \<and> newest (dropWhile P h) = newest h"
  by (induction h) (auto simp: newest_def)

text \<open>What a window holds: exactly the samples of an ordered history that are not older than the newest by more.\<close>

lemma dropWhile_sorted:
  "sorted (map f xs) \<Longrightarrow> dropWhile (\<lambda>x. f x < c) xs = filter (\<lambda>x. c \<le> f x) xs" for c :: int
proof (induction xs)
  case (Cons x xs)
  then show ?case by (auto simp: not_less intro!: filter_True[symmetric])
qed simp

lemma since_sorted:
  "sorted (map sa_taken h) \<Longrightarrow> h \<noteq> [] \<Longrightarrow> in_int64 (- d) \<Longrightarrow>
     since h d = filter (\<lambda>s. sa_taken (newest h) - d \<le> sa_taken s) h"
  by (simp add: since_def before_def time_add_def dropWhile_sorted wrap64_id)

text \<open>The daemon's trimming never takes a sample from a window no longer than the history it keeps.\<close>

lemma since_trim:
  assumes "h \<noteq> []" "now \<le> sa_taken (newest h)" "0 \<le> d" "d \<le> HistoryWindow"
  shows "since (trimHistory h now) d = since h d"
proof -
  let ?Q = "\<lambda>s. before (sa_taken s) (time_add now (- HistoryWindow))"
  have hw: "HistoryWindow = 1800000000000" by (simp add: HistoryWindow_def MaxWindowMinutes_def minute_def)
  have w: "wrap64 (- d) = - d"
    using assms(3,4) hw by (intro wrap64_id) (simp add: in_int64_def min_int64_def max_int64_def)
  have "\<not> ?Q (newest h)" using assms(2) hw by (simp add: before_def time_add_def)
  with newest_dropWhile[of ?Q h] assms(1)
  have t: "trimHistory h now \<noteq> []" "newest (trimHistory h now) = newest h"
    by (simp_all add: trimHistory_def)
  have "dropWhile (\<lambda>s. before (sa_taken s) (time_add (sa_taken (newest h)) (- d))) (trimHistory h now) =
      dropWhile (\<lambda>s. before (sa_taken s) (time_add (sa_taken (newest h)) (- d))) h"
    unfolding trimHistory_def using assms(2,4) by (intro dropWhile_weaker) (simp add: before_def time_add_def)
  with t assms(1) w show ?thesis by (simp add: since_def)
qed

lemma since_subset: "s \<in> set (since h d) \<Longrightarrow> s \<in> set h"
  by (auto simp: since_def split: if_splits dest: set_dropWhileD)

lemma since_empty [simp]: "since [] d = []" by (simp add: since_def)

section \<open>Thresholds\<close>

text \<open>A threshold within its bounds that is a number asks for a window the history can cover.\<close>

lemma minutes_range:
  assumes "Threshold cfg rule k = Fin x" "0 \<le> x" "x \<le> 30"
  shows "0 \<le> minutes cfg rule k \<and> minutes cfg rule k \<le> HistoryWindow"
proof -
  have m: "f_of_int 60000000000 = Fin 60000000000" using f_of_int_exact[of 60000000000] by simp
  let ?y = "x * 60000000000"
  have y: "0 \<le> ?y" "?y \<le> of_int 1800000000000" using assms(2,3) by simp_all
  have f: "0 \<le> fl ?y" "fl ?y \<le> of_int 1800000000000" using fl_nonneg[OF y(1)] fl_le_int[OF y] by simp_all
  have big: "of_int 1800000000000 < pow2 1024"
  proof -
    have "(of_int 1800000000000 :: rat) < of_int (2 ^ 53)" by simp
    also have "of_int (2 ^ 53) = pow2 53" using pow2_nat[of 53] by simp
    also have "pow2 53 \<le> pow2 1024" by (rule pow2_mono) simp
    finally show ?thesis .
  qed
  have t: "to_float ?y = Fin (fl ?y)"
    using f big pow2_pos[of 1024] unfolding to_float_def Let_def by (simp add: not_le)
  have n: "0 \<le> trunc_rat (fl ?y)" "trunc_rat (fl ?y) \<le> 1800000000000"
    using trunc_rat_mono[OF f(1)] trunc_rat_mono[OF f(2)] trunc_rat_int[of 0] trunc_rat_int[of 1800000000000] by simp_all
  then have "in_int64 (trunc_rat (fl ?y))" by (simp add: in_int64_def min_int64_def max_int64_def)
  with n show ?thesis
    by (simp add: minutes_def assms(1) m t HistoryWindow_def MaxWindowMinutes_def minute_def)
qed

section \<open>When the rules fire\<close>

text \<open>Exactly when the condition held at every sample of a window that covers the configured time.\<close>

lemma rpcUnreachable_iff:
  "ev_firing (rpcUnreachable ck h cfg) \<longleftrightarrow>
     (let d = minutes cfg ''rpc_unreachable'' ''minutes'' in
      covers (since h d) d \<and> (\<forall>s \<in> set (since h d). active s \<and> \<not> no_reachable (sa_node s)))"
  by (simp add: rpcUnreachable_def Let_def)

lemma momentumsStalled_iff:
  "ev_firing (momentumsStalled ck h cfg) \<longleftrightarrow>
     (let d = minutes cfg ''momentums_stalled'' ''minutes''; w = since h d in
      covers w d \<and> (\<forall>s \<in> set w. active s \<and> no_reachable (sa_node s) \<and> no_current (sa_node s) = no_current (sa_node (hd w))))"
  by (simp add: momentumsStalled_def Let_def)

lemma rollover_bound: "start \<le> i \<Longrightarrow> xs \<noteq> [] \<Longrightarrow> rollover i start xs < i + length xs"
  by (induction i start xs rule: rollover.induct) (auto simp: less_Suc_eq_le split: if_splits)

text \<open>After the last rollover the expected counts do not decrease.\<close>

lemma rollover_sorted: "start \<le> i \<Longrightarrow> sorted (drop (rollover i start xs - i) xs) \<and> (rollover i start xs < i \<longrightarrow> rollover i start xs = start \<and> sorted xs)"
proof (induction i start xs rule: rollover.induct)
  case (1 i start a b xs)
  show ?case
  proof (cases "b < a")
    case True
    have "start \<le> i" using 1 by simp
    from 1(1) True have "sorted (drop (rollover (Suc i) (Suc i) (b # xs) - Suc i) (b # xs))" by simp
    moreover have ge: "Suc i \<le> rollover (Suc i) (Suc i) (b # xs)"
      using 1(1) True by (metis le_refl not_less)
    moreover have "rollover (Suc i) (Suc i) (b # xs) - i = Suc (rollover (Suc i) (Suc i) (b # xs) - Suc i)"
      using ge by simp
    ultimately have "sorted (drop (rollover (Suc i) (Suc i) (b # xs) - i) (a # b # xs))"
      by (simp only: drop_Suc_Cons)
    with True ge show ?thesis by simp
  next
    case False
    show ?thesis
    proof (cases "rollover (Suc i) start (b # xs) < Suc i")
      case True
      with 1 False have e: "rollover (Suc i) start (b # xs) = start" "sorted (b # xs)" by auto
      with False have "sorted (a # b # xs)" by auto
      with e False 1(2) show ?thesis by (simp add: sorted_wrt_drop)
    next
      case no: False
      have "sorted (drop (rollover (Suc i) start (b # xs) - Suc i) (b # xs))" using 1 False by simp
      moreover have "rollover (Suc i) start (b # xs) - i = Suc (rollover (Suc i) start (b # xs) - Suc i)"
        using no by simp
      ultimately have "sorted (drop (rollover (Suc i) start (b # xs) - i) (a # b # xs))" by (simp only: drop_Suc_Cons)
      with no False show ?thesis by simp
    qed
  qed
qed auto

text \<open>
  No false alarm of missed momentums: when the rule fires, over samples of one epoch that cover the
  configured time the pillar really produced so many fewer momentums than were expected of it.  The
  unsigned differences the code takes are the true ones.
\<close>

definition counters_ok :: "sample list \<Rightarrow> bool" where
  "counters_ok h \<longleftrightarrow> (\<forall>s \<in> set h. 0 \<le> expected_of s \<and> expected_of s < 2 ^ 63 \<and> 0 \<le> produced_of s \<and> produced_of s < 2 ^ 63)"

lemma covers_ne: "covers w d \<Longrightarrow> w \<noteq> [] \<and> hd w \<in> set w \<and> newest w \<in> set w"
  by (auto simp: covers_def newest_def split: list.splits)

lemma sorted_hd_last: "sorted xs \<Longrightarrow> xs \<noteq> [] \<Longrightarrow> hd xs \<le> List.last xs"
  by (cases xs) auto

lemma wrap_u64_neg: "- 18446744073709551616 \<le> p \<Longrightarrow> p < 0 \<Longrightarrow> wrap_u64 p = p + 18446744073709551616"
proof -
  assume p: "- 18446744073709551616 \<le> p" "p < 0"
  have "wrap_u64 p = (p + 18446744073709551616) mod 18446744073709551616" by (simp add: wrap_u64_def)
  with p show ?thesis by (simp only: mod_pos_pos_trivial)
qed

lemma pillarMissed_sound:
  assumes fire: "ev_firing (pillarMissed ck h cfg)" and rng: "counters_ok h"
  obtains old w where "since h (minutes cfg ''pillar_missed'' ''minutes'') = old @ w"
    "covers w (minutes cfg ''pillar_missed'' ''minutes'')" "sorted (map expected_of w)"
    "\<forall>s \<in> set w. no_reachable (sa_node s) \<and> pl_found (no_pillar (sa_node s))"
    "f_to_uint64 (Threshold cfg ''pillar_missed'' ''missed'') \<le>
       (expected_of (newest w) - expected_of (hd w)) - (produced_of (newest w) - produced_of (hd w))"
    "produced_of (hd w) \<le> produced_of (newest w)"
proof -
  obtain d where d: "d = minutes cfg ''pillar_missed'' ''minutes''" by simp
  obtain n where n: "n = f_to_uint64 (Threshold cfg ''pillar_missed'' ''missed'')" by simp
  obtain win where win: "win = since h d" by simp
  obtain w where w: "w = drop (rollover 0 0 (map expected_of win)) win" by simp
  obtain E where E: "E = expected_of (newest w) - expected_of (hd w)" by simp
  obtain P where P: "P = produced_of (newest w) - produced_of (hd w)" by simp
  from fire have cov: "covers w d"
    and found: "\<forall>s \<in> set w. no_reachable (sa_node s) \<and> pl_found (no_pillar (sa_node s))"
    and miss: "wrap_u64 P < wrap_u64 E" "n \<le> wrap_u64 (wrap_u64 E - wrap_u64 P)"
    unfolding pillarMissed_def Let_def d[symmetric] n[symmetric] win[symmetric] w[symmetric] E[symmetric] P[symmetric]
    by (simp_all split: if_splits)
  have sorted: "sorted (map expected_of w)"
    using rollover_sorted[of 0 0 "map expected_of win", THEN conjunct1] unfolding w drop_map by (simp only: diff_zero)
  have sub: "set w \<subseteq> set h" using since_subset[of _ h d] unfolding w win by (auto dest: in_set_dropD)
  have mem: "hd w \<in> set h" "newest w \<in> set h" and ne: "w \<noteq> []"
    using covers_ne[OF cov] sub by auto
  have r: "0 \<le> expected_of (hd w)" "expected_of (newest w) < 2 ^ 63" "0 \<le> produced_of (hd w)" "produced_of (newest w) < 2 ^ 63"
    "produced_of (hd w) < 2 ^ 63" "0 \<le> produced_of (newest w)"
    using rng mem by (auto simp: counters_ok_def)
  have E0: "0 \<le> E" "E < 2 ^ 63" using sorted_hd_last[OF sorted] ne r by (simp_all add: E newest_def hd_map last_map)
  have wE: "wrap_u64 E = E" using E0 by (simp add: wrap_u64_def)
  have Pr: "- (2 ^ 63) < P" "P < 2 ^ 63" using r by (simp_all add: P)
  have P0: "0 \<le> P"
  proof (rule ccontr)
    assume "\<not> 0 \<le> P"
    then have "wrap_u64 P = P + 18446744073709551616" using Pr by (intro wrap_u64_neg) simp_all
    with miss(1) wE E0 Pr show False by simp
  qed
  have wP: "wrap_u64 P = P" using P0 Pr by (simp add: wrap_u64_def)
  have "wrap_u64 (E - P) = E - P" using miss(1) wE wP E0 P0 by (simp add: wrap_u64_def)
  then have le: "n \<le> E - P" using miss(2) wE wP by simp
  have app: "since h d = take (rollover 0 0 (map expected_of win)) win @ w" unfolding w win by simp
  show thesis
    by (rule that[OF app[unfolded d] cov[unfolded d] sorted found le[unfolded n E P]]) (use P0 in \<open>simp add: P\<close>)
qed

end
