(* ===== verification/Alert_Daemon.thy ===== *)
theory Alert_Daemon
  imports Alert_Rules
begin

text \<open>
  The alert daemon: the relay client (\<^verbatim>\<open>internal/alerts/client.go\<close>) and the sampling, evaluation and
  reporting loop (\<^verbatim>\<open>internal/alerts/daemon.go\<close>).  Samples, clock readings and what the network answers are
  inputs of the steps; JSON encoding and HMAC-SHA256 are the parameter \<open>codec\<close>.  One clock reading serves a
  whole step (the code reads the clock again only to rate-limit a log line).  The state file is not modelled.
\<close>

section \<open>The client\<close>

record client =
  cl_url :: string
  cl_node :: string
  cl_secret :: bytes
  cl_version :: string

datatype client_error = ErrUnpaired | ClientError string

definition client_error_text :: "client_error \<Rightarrow> string" where
  "client_error_text e =
     (case e of ErrUnpaired \<Rightarrow> ''relay rejected the node credentials (unpaired?)'' | ClientError s \<Rightarrow> s)"

fun trim_slashes :: "string \<Rightarrow> string" where
  "trim_slashes s = (if s \<noteq> [] \<and> List.last s = CHR ''/'' then trim_slashes (butlast s) else s)"

declare trim_slashes.simps [simp del]

definition NewClient :: "alert_config \<Rightarrow> string \<Rightarrow> client option" where
  "NewClient cfg version =
     (case base64_decode (cf_secret cfg) of
        None \<Rightarrow> None
      | Some secret \<Rightarrow>
          Some \<lparr> cl_url = trim_slashes (cf_relay_url cfg), cl_node = cf_node_id cfg, cl_secret = secret, cl_version = version \<rparr>)"

text \<open>
  What a request meets: it could not be built, no answer came, or a status and a body.  \<open>decode_error\<close> is
  the message of a JSON error body, empty when the body is not one.
\<close>

datatype net_reply = NotSent string | NoReply string | Reply int bytes

record codec =
  co_hmac :: "bytes \<Rightarrow> bytes \<Rightarrow> bytes"
  co_alert :: "alert_request \<Rightarrow> bytes option"
  co_heartbeat :: "heartbeat_request \<Rightarrow> bytes option"
  co_pair :: "pair_request \<Rightarrow> bytes option"
  co_error :: "bytes \<Rightarrow> string"
  co_paired :: "bytes \<Rightarrow> pair_response option"

definition MaxReply :: nat where "MaxReply = 65536"

definition relayError :: "codec \<Rightarrow> int \<Rightarrow> bytes \<Rightarrow> string" where
  "relayError co status data = (if co_error co data \<noteq> [] then co_error co data else ''HTTP '' @ show_int status)"

text \<open>The headers and the body of a signed request.\<close>

record signed_request =
  sr_url :: string
  sr_node :: string
  sr_timestamp :: string
  sr_signature :: string
  sr_body :: bytes

definition sign_request :: "codec \<Rightarrow> client \<Rightarrow> string \<Rightarrow> bytes \<Rightarrow> time \<Rightarrow> signed_request" where
  "sign_request co c path body now =
     (let ts = unix_of now in
      \<lparr> sr_url = cl_url c @ path, sr_node = cl_node c, sr_timestamp = show_int ts,
        sr_signature = Sign (co_hmac co) (cl_secret c) ts body, sr_body = body \<rparr>)"

definition judge_reply :: "codec \<Rightarrow> string \<Rightarrow> net_reply \<Rightarrow> client_error option" where
  "judge_reply co path r =
     (case r of
        NotSent e \<Rightarrow> Some (ClientError e)
      | NoReply e \<Rightarrow> Some (ClientError (''relay: '' @ e))
      | Reply status data0 \<Rightarrow>
          let data = take MaxReply data0 in
          if status = 401 \<and> relayError co status data = UnknownNodeMessage then Some ErrUnpaired
          else if 200 \<le> status \<and> status < 300 then None
          else Some (ClientError (''relay '' @ path @ '': '' @ relayError co status data)))"

text \<open>\<open>body\<close> is \<open>None\<close> when the value cannot be encoded.\<close>

definition post :: "codec \<Rightarrow> string \<Rightarrow> bytes option \<Rightarrow> net_reply \<Rightarrow> client_error option" where
  "post co path body r =
     (case body of None \<Rightarrow> Some (ClientError ''json'') | Some b \<Rightarrow> judge_reply co path r)"

definition Pair :: "codec \<Rightarrow> string \<Rightarrow> pair_request \<Rightarrow> net_reply \<Rightarrow> (string, pair_response) result" where
  "Pair co relayURL req r =
     (case co_pair co req of None \<Rightarrow> Inl ''json''
      | Some body \<Rightarrow>
      (case r of
         NotSent e \<Rightarrow> Inl e
       | NoReply e \<Rightarrow> Inl (''relay '' @ relayURL @ '': '' @ e)
       | Reply status data0 \<Rightarrow>
           let data = take MaxReply data0 in
           if status \<noteq> 200 then Inl (''pairing failed: '' @ relayError co status data)
           else case co_paired co data of
             None \<Rightarrow> Inl ''pairing failed: bad response''
           | Some p \<Rightarrow>
               if ps_node_id p = [] \<or> ps_secret p = [] then Inl ''pairing failed: relay returned no credentials''
               else Inr p))"

section \<open>State\<close>

record alert_state =
  as_firing :: bool
  as_acked :: bool
  as_since :: time
  as_last_sent :: time
  as_detail :: string

text \<open>
  The daemon: what it persists, its configuration, client and history.  \<open>dm_net\<close> scripts what the next
  requests meet (a 204 when it has run out), \<open>dm_log\<close> records every alert request with its outcome, newest
  first.
\<close>

record daemon =
  dm_cfg :: alert_config
  dm_client :: client
  dm_history :: "sample list"
  dm_started :: time
  dm_last_sample :: time
  dm_last_heartbeat :: time
  dm_last_error :: string
  dm_unpaired :: bool
  dm_alerts :: "string \<rightharpoonup> alert_state"
  dm_evaluated :: bool
  dm_error_log :: time
  dm_net :: "net_reply list"
  dm_log :: "(alert_request \<times> bool) list"

definition ReminderEvery :: duration where "ReminderEvery = 10 * minute"
definition errorLogEvery :: duration where "errorLogEvery = 10 * minute"

definition NewDaemon :: "alert_config \<Rightarrow> client \<Rightarrow> net_reply list \<Rightarrow> daemon" where
  "NewDaemon cfg c net =
     \<lparr> dm_cfg = cfg, dm_client = c, dm_history = [], dm_started = 0, dm_last_sample = 0, dm_last_heartbeat = 0,
       dm_last_error = [], dm_unpaired = False, dm_alerts = Map.empty, dm_evaluated = False, dm_error_log = 0,
       dm_net = net, dm_log = [] \<rparr>"

definition next_reply :: "daemon \<Rightarrow> net_reply \<times> daemon" where
  "next_reply d = (case dm_net d of [] \<Rightarrow> (Reply 204 [], d) | r # rs \<Rightarrow> (r, d\<lparr> dm_net := rs \<rparr>))"

definition noteError :: "time \<Rightarrow> client_error \<Rightarrow> daemon \<Rightarrow> daemon" where
  "noteError now e d =
     (if e = ErrUnpaired then d\<lparr> dm_unpaired := True, dm_last_error := client_error_text e \<rparr>
      else let d1 = d\<lparr> dm_last_error := client_error_text e \<rparr> in
        if time_sub now (dm_error_log d1) \<ge> errorLogEvery then d1\<lparr> dm_error_log := now \<rparr> else d1)"

text \<open>A request the client cannot encode meets nothing on the network.\<close>

definition exchange_with :: "codec \<Rightarrow> string \<Rightarrow> bytes option \<Rightarrow> daemon \<Rightarrow> client_error option \<times> daemon" where
  "exchange_with co path body d =
     (if body = None then (post co path None (Reply 204 []), d)
      else case next_reply d of (r, d1) \<Rightarrow> (post co path body r, d1))"

definition send :: "codec \<Rightarrow> time \<Rightarrow> alert_request \<Rightarrow> daemon \<Rightarrow> bool \<times> daemon" where
  "send co now a d =
     (if dm_unpaired d then (False, d)
      else case exchange_with co ''/v1/alert'' (co_alert co a) d of
        (Some e, d1) \<Rightarrow> (False, noteError now e (d1\<lparr> dm_log := (a, False) # dm_log d1 \<rparr>))
      | (None, d1) \<Rightarrow> (True, d1\<lparr> dm_log := (a, True) # dm_log d1 \<rparr>))"

section \<open>The heartbeat\<close>

definition Summarize :: "checkers \<Rightarrow> sample \<Rightarrow> time \<Rightarrow> string \<Rightarrow> update_info \<Rightarrow> summary" where
  "Summarize ck s now version upd =
     (let n = sa_node s; v = sa_service s; p = sa_process s; ho = sa_host s; pl = no_pillar n;
          secs = (\<lambda>d. quot_go d second); up = sv_active v = ''active'' in
      \<lparr> s_state = (if \<not> up then ''service '' @ sv_active v else if \<not> no_reachable n then ''rpc unreachable'' else no_state_text n),
        s_height = no_current n, s_peers = no_peers n, s_restarts = sv_restarts v, s_target_height = no_target n,
        s_momentum_rate = no_rate n, s_eta_seconds = (if no_eta_known n then secs (no_eta n) else 0),
        s_frontier = (if no_frontier_known n then no_frontier_height n else 0),
        s_frontier_age = (if no_frontier_known n then secs (no_frontier_age n) else 0),
        s_ledger_busy = (\<not> no_frontier_known n \<and> no_reachable n),
        s_uptime_seconds = (if up \<and> \<not> is_zero (sv_since v) then secs (time_sub now (sv_since v)) else 0),
        s_node_version = no_version n, s_node_commit = no_commit n, s_nomctl_version = version,
        s_pillar_name = (if pl_configured pl then pl_name pl else []),
        s_pillar_rank = (if pl_configured pl \<and> pl_found pl then pl_rank pl else 0),
        s_pillar_produced = (if pl_configured pl \<and> pl_found pl then pl_produced pl else 0),
        s_pillar_expected = (if pl_configured pl \<and> pl_found pl then pl_expected pl else 0),
        s_pillar_error = (if pl_configured pl \<and> \<not> pl_found pl then pl_error pl else []),
        s_load1 = ho_load1 ho, s_mem_free = ho_mem_available ho, s_mem_total = ho_mem_total ho,
        s_disk_free = ho_disk_free ho, s_disk_total = ho_disk_total ho,
        s_cpu_percent = (if ps_present p then ps_cpu p else Fin 0), s_rss = (if ps_present p then ps_rss p else 0),
        s_nomctl_update = (if ui_latest upd \<noteq> [] \<and> ck_newer ck (ui_latest upd) (ui_running upd) then ui_latest upd else []),
        s_node_update = ui_behind upd \<rparr>)"

definition no_update :: update_info where
  "no_update = \<lparr> ui_latest = [], ui_running = [], ui_behind = False, ui_branch = [] \<rparr>"

definition heartbeat :: "codec \<Rightarrow> checkers \<Rightarrow> time \<Rightarrow> sample \<Rightarrow> daemon \<Rightarrow> daemon" where
  "heartbeat co ck now s d =
     (if dm_unpaired d then d
      else
        let upd = (case ck_update ck of Some u \<Rightarrow> u | None \<Rightarrow> no_update);
            hb = \<lparr> hb_at = now, hb_summary = Summarize ck s now (cl_version (dm_client d)) upd \<rparr> in
        case exchange_with co ''/v1/heartbeat'' (co_heartbeat co hb) d of
          (Some e, d1) \<Rightarrow> noteError now e d1
        | (None, d1) \<Rightarrow> d1\<lparr> dm_last_heartbeat := now, dm_last_error := [] \<rparr>)"

section \<open>Evaluation\<close>

text \<open>The configuration of a rule; a missing one is Go's zero value, switched off.\<close>

definition rule_cfg :: "daemon \<Rightarrow> string \<Rightarrow> rule_config" where
  "rule_cfg d name = (case cf_rules (dm_cfg d) name of Some rc \<Rightarrow> rc | None \<Rightarrow> \<lparr> rc_enabled = False, rc_thresholds = Map.empty \<rparr>)"

fun baseline :: "checkers \<Rightarrow> time \<Rightarrow> (string \<times> rule) list \<Rightarrow> daemon \<Rightarrow> daemon" where
  "baseline ck now [] d = d"
| "baseline ck now ((name, r) # rs) d =
     (let rc = rule_cfg d name in
      if \<not> rc_enabled rc then baseline ck now rs d
      else
        let res = r ck (dm_history d) rc;
            st = \<lparr> as_firing = ev_firing res, as_acked = True, as_since = now, as_last_sent = 0, as_detail = ev_detail res \<rparr>
        in baseline ck now rs (d\<lparr> dm_alerts := (dm_alerts d)(name \<mapsto> st) \<rparr>))"

definition alert_info_of :: "string \<Rightarrow> alert_info" where
  "alert_info_of name = (case Lookup name of Some i \<Rightarrow> i | None \<Rightarrow> kind [] [] [] [])"

text \<open>The daemon's memory of an alert after an evaluation, before anything is sent.\<close>

definition updated_state :: "time \<Rightarrow> alert_info \<Rightarrow> rule_result \<Rightarrow> alert_state option \<Rightarrow> alert_state" where
  "updated_state now info res old =
     (let p0 = (case old of Some p \<Rightarrow> p
                | None \<Rightarrow> \<lparr> as_firing = ev_firing res, as_acked = True, as_since = now, as_last_sent = 0, as_detail = [] \<rparr>);
          p1 = (if ev_firing res \<noteq> as_firing p0
                then \<lparr> as_firing = ev_firing res, as_acked = False, as_since = now, as_last_sent = 0, as_detail = [] \<rparr> else p0)
      in if ev_firing res
         then (let p2 = (if ai_severity info = InfoSev \<and> as_acked p1 \<and> as_detail p1 \<noteq> [] \<and> as_detail p1 \<noteq> ev_detail res
                         then p1\<lparr> as_acked := False \<rparr> else p1)
               in p2\<lparr> as_detail := ev_detail res \<rparr>)
         else p1)"

definition need_send :: "time \<Rightarrow> alert_info \<Rightarrow> rule_result \<Rightarrow> alert_state \<Rightarrow> bool" where
  "need_send now info res p \<longleftrightarrow>
     \<not> as_acked p \<or>
     ev_firing res \<and> ai_severity info \<noteq> InfoSev \<and> (is_zero (as_last_sent p) \<or> time_sub now (as_last_sent p) \<ge> ReminderEvery)"

definition request_for :: "string \<Rightarrow> time \<Rightarrow> alert_info \<Rightarrow> rule_result \<Rightarrow> alert_request" where
  "request_for name now info res =
     (if ev_firing res
      then \<lparr> ar_alert = name, ar_state = Firing, ar_severity = ai_severity info, ar_title = ai_title info,
             ar_detail = ev_detail res, ar_at = now \<rparr>
      else \<lparr> ar_alert = name, ar_state = OK, ar_severity = ai_severity info, ar_title = ai_ok_title info,
             ar_detail = [], ar_at = now \<rparr>)"

definition eval_rule :: "codec \<Rightarrow> checkers \<Rightarrow> time \<Rightarrow> string \<times> rule \<Rightarrow> daemon \<Rightarrow> daemon" where
  "eval_rule co ck now nr d =
     (case nr of (name, r) \<Rightarrow>
      let rc = rule_cfg d name in
      if \<not> rc_enabled rc then d\<lparr> dm_alerts := (dm_alerts d)(name := None) \<rparr>
      else
        let info = alert_info_of name; res = r ck (dm_history d) rc; p = updated_state now info res (dm_alerts d name) in
        if need_send now info res p
        then (case send co now (request_for name now info res) d of
                (ok, d1) \<Rightarrow> d1\<lparr> dm_alerts := (dm_alerts d1)(name \<mapsto> (if ok then p\<lparr> as_acked := True, as_last_sent := now \<rparr> else p)) \<rparr>)
        else d\<lparr> dm_alerts := (dm_alerts d)(name \<mapsto> p) \<rparr>)"

definition evaluate :: "codec \<Rightarrow> checkers \<Rightarrow> time \<Rightarrow> (string \<times> rule) list \<Rightarrow> daemon \<Rightarrow> daemon" where
  "evaluate co ck now rules d = foldl (\<lambda>d nr. eval_rule co ck now nr d) d rules"

definition started_request :: "daemon \<Rightarrow> time \<Rightarrow> sample \<Rightarrow> alert_request" where
  "started_request d now s =
     \<lparr> ar_alert = ''started'', ar_state = Info, ar_severity = InfoSev, ar_title = ''alerts started'',
       ar_detail = ''nomctl '' @ cl_version (dm_client d) @ '' watching '' @ sv_unit (sa_service s) @ '' every '' @
         duration_string (cf_interval (dm_cfg d)),
       ar_at = now \<rparr>"

definition take_sample :: "time \<Rightarrow> sample \<Rightarrow> daemon \<Rightarrow> daemon" where
  "take_sample now s d = d\<lparr> dm_history := trimHistory (dm_history d @ [s]) now, dm_last_sample := now \<rparr>"

definition Step :: "codec \<Rightarrow> checkers \<Rightarrow> time \<Rightarrow> sample \<Rightarrow> daemon \<Rightarrow> daemon" where
  "Step co ck now s d0 =
     (let d = take_sample now s d0;
          d1 = (if \<not> dm_evaluated d
                then (let b = (baseline ck now AllRules d)\<lparr> dm_evaluated := True \<rparr> in snd (send co now (started_request b now s) b))
                else evaluate co ck now AllRules d)
      in heartbeat co ck now s d1)"

section \<open>The loop\<close>

definition apply_config :: "alert_config \<Rightarrow> daemon \<Rightarrow> daemon" where
  "apply_config cfg d =
     (if cf_relay_url cfg \<noteq> cf_relay_url (dm_cfg d) \<or> cf_node_id cfg \<noteq> cf_node_id (dm_cfg d) \<or> cf_secret cfg \<noteq> cf_secret (dm_cfg d)
      then (case NewClient cfg (cl_version (dm_client d)) of
              None \<Rightarrow> d
            | Some c \<Rightarrow> d\<lparr> dm_client := c, dm_unpaired := False, dm_last_error := [], dm_cfg := cfg \<rparr>)
      else d\<lparr> dm_cfg := cfg \<rparr>)"

text \<open>The events of \<^verbatim>\<open>Run\<close>: a tick with its sample and what the checkers answer then, or a
  reload with the outcome of reading the configuration.\<close>

datatype daemon_event =
    Tick time sample checkers
  | Reload "(config_error, alert_config) result"

definition daemon_step :: "codec \<Rightarrow> daemon_event \<Rightarrow> daemon \<Rightarrow> daemon" where
  "daemon_step co ev d =
     (case ev of
        Tick now s ck \<Rightarrow> Step co ck now s d
      | Reload (Inl e) \<Rightarrow> d
      | Reload (Inr cfg) \<Rightarrow> apply_config cfg d)"

text \<open>\<^verbatim>\<open>Run\<close> steps once before it waits for the ticker or a reload.\<close>

definition Run :: "codec \<Rightarrow> time \<Rightarrow> time \<times> sample \<times> checkers \<Rightarrow> daemon_event list \<Rightarrow> daemon \<Rightarrow> daemon" where
  "Run co started first evs d =
     (case first of (now, s, ck) \<Rightarrow>
       foldl (\<lambda>d ev. daemon_step co ev d) (Step co ck now s (d\<lparr> dm_started := started \<rparr>)) evs)"

end
