(* ===== verification/Keyed_Pass.thy ===== *)
theory Keyed_Pass
  imports Main
begin

text \<open>
  A pass over items that each write one slot of the state and leave the rest of it, and whatever the
  items read besides, as it was.  What a slot holds afterwards is what its own item made of it.
\<close>

locale keyed_pass =
  fixes step :: "'x \<Rightarrow> 's \<Rightarrow> 's"
    and key_of :: "'x \<Rightarrow> 'k"
    and slot :: "'s \<Rightarrow> 'k \<Rightarrow> 'v"
    and env :: "'s \<Rightarrow> 'e"
  assumes step_env: "env (step x s) = env s"
    and step_other: "k \<noteq> key_of x \<Longrightarrow> slot (step x s) k = slot s k"
begin

lemma pass_env: "env (foldl (\<lambda>s x. step x s) s xs) = env s"
  by (induction xs arbitrary: s) (simp_all add: step_env)

lemma pass_other: "k \<notin> key_of ` set xs \<Longrightarrow> slot (foldl (\<lambda>s x. step x s) s xs) k = slot s k"
  by (induction xs arbitrary: s) (simp_all add: step_other)

lemma pass_at:
  assumes "distinct (map key_of xs)" "x \<in> set xs"
  obtains s' where "env s' = env s" "slot s' (key_of x) = slot s (key_of x)"
    "slot (foldl (\<lambda>s x. step x s) s xs) (key_of x) = slot (step x s') (key_of x)"
proof -
  from assms(2) obtain as bs where xs: "xs = as @ x # bs" by (meson split_list)
  with assms(1) have "key_of x \<notin> key_of ` set as" "key_of x \<notin> key_of ` set bs" by auto
  then show thesis
    using that[of "foldl (\<lambda>s x. step x s) s as"] by (simp add: xs pass_env pass_other)
qed

end

end
