(* ===== verification/Daemon_Pass.thy ===== *)
theory Daemon_Pass
  imports Alert_Daemon Keyed_Pass "HOL-Library.Sublist"
begin

text \<open>
  Facts about the steps of the alert daemon: what a pass over the rules does to the alerts and to the log of
  requests, the invariant of the loop, and what an unpaired or an undisturbed daemon sends.
\<close>

section \<open>What sending leaves alone\<close>

lemma noteError_frame [simp]:
  "dm_cfg (noteError now e d) = dm_cfg d" "dm_client (noteError now e d) = dm_client d"
  "dm_history (noteError now e d) = dm_history d" "dm_alerts (noteError now e d) = dm_alerts d"
  "dm_evaluated (noteError now e d) = dm_evaluated d" "dm_net (noteError now e d) = dm_net d"
  "dm_log (noteError now e d) = dm_log d" "dm_unpaired (noteError now e d) \<longleftrightarrow> dm_unpaired d \<or> e = ErrUnpaired"
  by (simp_all add: noteError_def Let_def)

lemma exchange_frame:
  assumes "exchange_with co path body d = (r, d1)"
  shows "dm_cfg d1 = dm_cfg d" "dm_client d1 = dm_client d" "dm_history d1 = dm_history d" "dm_alerts d1 = dm_alerts d"
    "dm_evaluated d1 = dm_evaluated d" "dm_log d1 = dm_log d" "dm_unpaired d1 = dm_unpaired d"
  using assms by (auto simp: exchange_with_def next_reply_def split: if_splits list.splits)

lemma send_frame [simp]:
  "dm_cfg (snd (send co now a d)) = dm_cfg d" "dm_client (snd (send co now a d)) = dm_client d"
  "dm_history (snd (send co now a d)) = dm_history d" "dm_alerts (snd (send co now a d)) = dm_alerts d"
  "dm_evaluated (snd (send co now a d)) = dm_evaluated d"
  by (cases "exchange_with co ''/v1/alert'' (co_alert co a) d"; simp add: send_def exchange_frame split: option.splits)+

lemma send_unpaired: "dm_unpaired d \<Longrightarrow> send co now a d = (False, d)"
  by (simp add: send_def)

lemma send_log:
  assumes "\<not> dm_unpaired d" "send co now a d = (ok, d1)"
  shows "dm_log d1 = (a, ok) # dm_log d"
  using assms by (cases "exchange_with co ''/v1/alert'' (co_alert co a) d")
    (auto simp: send_def exchange_frame split: option.splits)

lemma send_keeps_unpaired: "dm_unpaired d \<Longrightarrow> dm_unpaired (snd (send co now a d))"
  by (simp add: send_def)

text \<open>Nothing is scripted for the network and every request can be encoded: the relay answers 204.\<close>

definition reachable_relay :: "codec \<Rightarrow> daemon \<Rightarrow> bool" where
  "reachable_relay co d \<longleftrightarrow> dm_net d = [] \<and> \<not> dm_unpaired d \<and> (\<forall>a. co_alert co a \<noteq> None)"

lemma send_accepted:
  assumes "reachable_relay co d" "send co now a d = (ok, d1)"
  shows "ok \<and> reachable_relay co d1"
proof -
  from assms(1) obtain b where "co_alert co a = Some b" unfolding reachable_relay_def by blast
  with assms show ?thesis
    by (auto simp: reachable_relay_def send_def exchange_with_def next_reply_def post_def judge_reply_def Let_def)
qed

section \<open>One evaluation\<close>

text \<open>What the rules read: the configuration and the history.\<close>

definition inputs :: "daemon \<Rightarrow> alert_config \<times> sample list" where
  "inputs d = (dm_cfg d, dm_history d)"

lemma rule_cfg_inputs: "inputs d = inputs d' \<Longrightarrow> rule_cfg d = rule_cfg d' \<and> dm_history d = dm_history d'"
  by (simp add: inputs_def rule_cfg_def fun_eq_iff)

lemma eval_rule_frame [simp]:
  "dm_cfg (eval_rule co ck now nr d) = dm_cfg d" "dm_client (eval_rule co ck now nr d) = dm_client d"
  "dm_history (eval_rule co ck now nr d) = dm_history d" "dm_evaluated (eval_rule co ck now nr d) = dm_evaluated d"
  by (cases nr; simp add: eval_rule_def Let_def split_beta)+

lemma eval_rule_other: "m \<noteq> fst nr \<Longrightarrow> dm_alerts (eval_rule co ck now nr d) m = dm_alerts d m"
  by (cases nr) (simp add: eval_rule_def Let_def split_beta)

interpretation evaluation: keyed_pass "eval_rule co ck now" fst dm_alerts inputs
  by unfold_locales (simp_all add: inputs_def eval_rule_other)

text \<open>The alert's memory before anything is sent, and the request the rule wants sent.\<close>

definition judged :: "checkers \<Rightarrow> time \<Rightarrow> string \<times> rule \<Rightarrow> daemon \<Rightarrow> rule_result" where
  "judged ck now nr d = snd nr ck (dm_history d) (rule_cfg d (fst nr))"

definition renewed :: "checkers \<Rightarrow> time \<Rightarrow> string \<times> rule \<Rightarrow> daemon \<Rightarrow> alert_state" where
  "renewed ck now nr d = updated_state now (alert_info_of (fst nr)) (judged ck now nr d) (dm_alerts d (fst nr))"

definition wants :: "checkers \<Rightarrow> time \<Rightarrow> string \<times> rule \<Rightarrow> daemon \<Rightarrow> bool" where
  "wants ck now nr d \<longleftrightarrow>
     rc_enabled (rule_cfg d (fst nr)) \<and> need_send now (alert_info_of (fst nr)) (judged ck now nr d) (renewed ck now nr d)"

definition request :: "checkers \<Rightarrow> time \<Rightarrow> string \<times> rule \<Rightarrow> daemon \<Rightarrow> alert_request" where
  "request ck now nr d = request_for (fst nr) now (alert_info_of (fst nr)) (judged ck now nr d)"

definition confirm :: "time \<Rightarrow> bool \<Rightarrow> alert_state \<Rightarrow> alert_state" where
  "confirm now ok p = (if ok then p\<lparr> as_acked := True, as_last_sent := now \<rparr> else p)"

lemma eval_rule_cases:
  "eval_rule co ck now nr d =
     (if \<not> rc_enabled (rule_cfg d (fst nr)) then d\<lparr> dm_alerts := (dm_alerts d)(fst nr := None) \<rparr>
      else if wants ck now nr d
      then (case send co now (request ck now nr d) d of
              (ok, d1) \<Rightarrow> d1\<lparr> dm_alerts := (dm_alerts d1)(fst nr \<mapsto> confirm now ok (renewed ck now nr d)) \<rparr>)
      else d\<lparr> dm_alerts := (dm_alerts d)(fst nr \<mapsto> renewed ck now nr d) \<rparr>)"
  by (cases nr) (simp add: eval_rule_def wants_def request_def renewed_def judged_def confirm_def Let_def)

lemma views_cong:
  assumes "inputs d = inputs d'" "dm_alerts d (fst nr) = dm_alerts d' (fst nr)"
  shows "judged ck now nr d = judged ck now nr d'" "renewed ck now nr d = renewed ck now nr d'"
    "wants ck now nr d = wants ck now nr d'" "request ck now nr d = request ck now nr d'"
  using rule_cfg_inputs[OF assms(1)] assms(2) by (simp_all add: judged_def renewed_def wants_def request_def)

lemma request_alert [simp]: "ar_alert (request ck now nr d) = fst nr"
  by (simp add: request_def request_for_def)


text \<open>What one rule does to its own slot and to the log.\<close>

lemma eval_rule_effect:
  fixes co ck now nr d
  defines "d' \<equiv> eval_rule co ck now nr d"
  shows "dm_alerts d' (fst nr) =
           (if \<not> rc_enabled (rule_cfg d (fst nr)) then None
            else Some (confirm now ((request ck now nr d, True) \<in> set (take (length (dm_log d') - length (dm_log d)) (dm_log d')))
                         (renewed ck now nr d)))"
    and "dm_log d' = (if wants ck now nr d \<and> \<not> dm_unpaired d
                      then [(request ck now nr d, fst (send co now (request ck now nr d) d))] else []) @ dm_log d"
    and "dm_unpaired d \<Longrightarrow> dm_unpaired d'"
proof -
  obtain ok d1 where s: "send co now (request ck now nr d) d = (ok, d1)" by (cases "send co now (request ck now nr d) d")
  have log: "dm_log d' = (if wants ck now nr d \<and> \<not> dm_unpaired d then [(request ck now nr d, ok)] else []) @ dm_log d"
    using s send_log[of d co now "request ck now nr d" ok d1] send_unpaired[of d co now "request ck now nr d"]
    by (auto simp: d'_def eval_rule_cases wants_def)
  then show "dm_log d' = (if wants ck now nr d \<and> \<not> dm_unpaired d
                      then [(request ck now nr d, fst (send co now (request ck now nr d) d))] else []) @ dm_log d"
    using s by simp
  show "dm_unpaired d \<Longrightarrow> dm_unpaired d'"
    using send_keeps_unpaired[of d co now "request ck now nr d"] by (simp add: d'_def eval_rule_cases split_beta)
  have ok: "ok = ((request ck now nr d, True) \<in> set (take (length (dm_log d') - length (dm_log d)) (dm_log d')))"
    if "wants ck now nr d"
    using that log s send_unpaired[of d co now "request ck now nr d"] by auto
  have none: "take (length (dm_log d') - length (dm_log d)) (dm_log d') = []" if "\<not> wants ck now nr d"
    using that log by simp
  show "dm_alerts d' (fst nr) =
           (if \<not> rc_enabled (rule_cfg d (fst nr)) then None
            else Some (confirm now ((request ck now nr d, True) \<in> set (take (length (dm_log d') - length (dm_log d)) (dm_log d')))
                         (renewed ck now nr d)))"
    using s ok none by (cases "wants ck now nr d") (simp_all add: d'_def eval_rule_cases confirm_def wants_def)
qed


text \<open>The requests a pass wants sent, in the order of the rules.\<close>

definition wanted :: "checkers \<Rightarrow> time \<Rightarrow> (string \<times> rule) list \<Rightarrow> daemon \<Rightarrow> alert_request list" where
  "wanted ck now rules d = map (\<lambda>nr. request ck now nr d) (filter (\<lambda>nr. wants ck now nr d) rules)"

text \<open>
  The pass in full: \<open>es\<close> is what it adds to the log.  The requests tried are a prefix of those wanted, all of
  them unless the relay disowned the node on the way; every rule's slot is its renewed memory, confirmed
  exactly if its request was accepted.
\<close>

definition pass_result :: "checkers \<Rightarrow> time \<Rightarrow> (string \<times> rule) list \<Rightarrow> daemon \<Rightarrow> (alert_request \<times> bool) list \<Rightarrow> daemon \<Rightarrow> bool" where
  "pass_result ck now rules d es d' \<longleftrightarrow>
     dm_log d' = es @ dm_log d \<and> prefix (rev (map fst es)) (wanted ck now rules d) \<and>
     (\<not> dm_unpaired d' \<longrightarrow> rev (map fst es) = wanted ck now rules d) \<and>
     (dm_unpaired d \<longrightarrow> es = []) \<and> (dm_unpaired d \<longrightarrow> dm_unpaired d') \<and>
     (\<forall>nr \<in> set rules. dm_alerts d' (fst nr) =
        (if \<not> rc_enabled (rule_cfg d (fst nr)) then None
         else Some (confirm now ((request ck now nr d, True) \<in> set es) (renewed ck now nr d))))"

lemma wanted_names: "a \<in> set (wanted ck now rules d) \<Longrightarrow> ar_alert a \<in> fst ` set rules"
  by (force simp: wanted_def)

lemma wanted_cong:
  "inputs d = inputs d' \<Longrightarrow> (\<And>nr. nr \<in> set rules \<Longrightarrow> dm_alerts d (fst nr) = dm_alerts d' (fst nr)) \<Longrightarrow>
   wanted ck now rules d = wanted ck now rules d'"
  unfolding wanted_def using views_cong[of d d'] by (auto intro!: map_cong filter_cong)

lemma evaluate_result:
  "distinct (map fst rules) \<Longrightarrow> \<exists>es. pass_result ck now rules d es (evaluate co ck now rules d)"
proof (induction rules arbitrary: d)
  case Nil
  show ?case by (auto simp: pass_result_def evaluate_def wanted_def)
next
  case (Cons nr rules)
  define d1 where "d1 = eval_rule co ck now nr d"
  define d' where "d' = evaluate co ck now rules d1"
  note eff = eval_rule_effect[where d = d and nr = nr and co = co and ck = ck and now = now, folded d1_def]
  have new: "fst nr \<notin> fst ` set rules" using Cons.prems by simp
  from Cons obtain es where es: "pass_result ck now rules d1 es d'" unfolding d'_def by fastforce
  have same: "inputs d1 = inputs d" by (simp add: d1_def inputs_def)
  have slots: "dm_alerts d1 (fst x) = dm_alerts d (fst x)" if "x \<in> set rules" for x
    using that new by (simp add: d1_def) (metis eval_rule_other imageI)
  have want: "wanted ck now rules d1 = wanted ck now rules d" by (rule wanted_cong[OF same slots])
  define e1 where "e1 = (if wants ck now nr d \<and> \<not> dm_unpaired d
    then [(request ck now nr d, fst (send co now (request ck now nr d) d))] else [])"
  have log1: "dm_log d1 = e1 @ dm_log d" using eff(2) by (simp add: e1_def)
  have pr: "prefix (rev (map fst es)) (wanted ck now rules d)" using es want by (simp add: pass_result_def)
  have foreign: "(request ck now nr d, True) \<notin> set es"
  proof
    assume "(request ck now nr d, True) \<in> set es"
    then have "request ck now nr d \<in> set (rev (map fst es))" by force
    then have "request ck now nr d \<in> set (wanted ck now rules d)" using set_mono_prefix[OF pr] by blast
    from wanted_names[OF this] new show False by simp
  qed
  have mine: "(request ck now x d, b) \<notin> set e1" if "x \<in> set rules" for x b
  proof
    assume "(request ck now x d, b) \<in> set e1"
    then have "request ck now x d = request ck now nr d" by (auto simp: e1_def split: if_splits)
    then have "fst x = fst nr" by (metis request_alert)
    with that new show False by (metis imageI)
  qed
  have "pass_result ck now (nr # rules) d (es @ e1) d'"
    unfolding pass_result_def
  proof (intro conjI ballI impI)
    show "dm_log d' = (es @ e1) @ dm_log d" using es log1 by (simp add: pass_result_def)
    show "prefix (rev (map fst (es @ e1))) (wanted ck now (nr # rules) d)"
      using es eff(3) unfolding pass_result_def want by (auto simp: wanted_def e1_def)
    show "rev (map fst (es @ e1)) = wanted ck now (nr # rules) d" if "\<not> dm_unpaired d'"
      using that es eff(3) unfolding pass_result_def want by (auto simp: wanted_def e1_def)
    show "es @ e1 = []" if "dm_unpaired d" using that es eff(3) by (simp add: pass_result_def e1_def)
    show "dm_unpaired d'" if "dm_unpaired d" using that es eff(3) by (simp add: pass_result_def)
    fix x assume x: "x \<in> set (nr # rules)"
    show "dm_alerts d' (fst x) = (if \<not> rc_enabled (rule_cfg d (fst x)) then None
         else Some (confirm now ((request ck now x d, True) \<in> set (es @ e1)) (renewed ck now x d)))"
    proof (cases "x \<in> set rules")
      case True
      have cfg: "rule_cfg d1 = rule_cfg d" using rule_cfg_inputs[OF same] by simp
      from es True have "dm_alerts d' (fst x) = (if \<not> rc_enabled (rule_cfg d1 (fst x)) then None
         else Some (confirm now ((request ck now x d1, True) \<in> set es) (renewed ck now x d1)))"
        unfolding pass_result_def by blast
      then show ?thesis using views_cong(2,4)[OF same slots[OF True]] mine[OF True, of True] by (simp add: cfg)
    next
      case False
      with x have x: "x = nr" by simp
      have "dm_alerts d' (fst nr) = dm_alerts d1 (fst nr)"
        unfolding d'_def evaluate_def by (rule evaluation.pass_other[OF new])
      then show ?thesis using eff(1) foreign by (simp add: x log1)
    qed
  qed
  then show ?case unfolding d'_def d1_def evaluate_def by auto
qed

section \<open>A step\<close>

lemma AllRules_distinct: "distinct (map fst AllRules)"
  by (simp add: AllRules_def)

lemma heartbeat_frame [simp]:
  "dm_cfg (heartbeat co ck now s d) = dm_cfg d" "dm_client (heartbeat co ck now s d) = dm_client d"
  "dm_history (heartbeat co ck now s d) = dm_history d" "dm_evaluated (heartbeat co ck now s d) = dm_evaluated d"
  "dm_alerts (heartbeat co ck now s d) = dm_alerts d" "dm_log (heartbeat co ck now s d) = dm_log d"
  by (simp add: heartbeat_def Let_def exchange_frame split: prod.splits option.splits)+

lemma heartbeat_unpaired: "dm_unpaired d \<Longrightarrow> heartbeat co ck now s d = d"
  by (simp add: heartbeat_def)

lemma evaluate_frame [simp]:
  "dm_cfg (evaluate co ck now rules d) = dm_cfg d" "dm_client (evaluate co ck now rules d) = dm_client d"
  "dm_history (evaluate co ck now rules d) = dm_history d" "dm_evaluated (evaluate co ck now rules d) = dm_evaluated d"
  unfolding evaluate_def by (induction rules arbitrary: d) simp_all

lemma baseline_frame [simp]:
  "dm_cfg (baseline ck now rules d) = dm_cfg d" "dm_client (baseline ck now rules d) = dm_client d"
  "dm_history (baseline ck now rules d) = dm_history d" "dm_log (baseline ck now rules d) = dm_log d"
  "dm_net (baseline ck now rules d) = dm_net d" "dm_unpaired (baseline ck now rules d) = dm_unpaired d"
  by (induction rules arbitrary: d) (auto simp: Let_def split: if_split_asm)

text \<open>The first pass takes the value of each rule as it finds it.\<close>

definition first_state :: "time \<Rightarrow> rule_result \<Rightarrow> alert_state" where
  "first_state now res = \<lparr> as_firing = ev_firing res, as_acked = True, as_since = now, as_last_sent = 0, as_detail = ev_detail res \<rparr>"

definition baseline_rule :: "checkers \<Rightarrow> time \<Rightarrow> string \<times> rule \<Rightarrow> daemon \<Rightarrow> daemon" where
  "baseline_rule ck now nr d =
     (if rc_enabled (rule_cfg d (fst nr))
      then d\<lparr> dm_alerts := (dm_alerts d)(fst nr \<mapsto> first_state now (judged ck now nr d)) \<rparr> else d)"

lemma baseline_foldl: "baseline ck now rules d = foldl (\<lambda>d nr. baseline_rule ck now nr d) d rules"
  by (induction rules arbitrary: d) (auto simp: baseline_rule_def judged_def first_state_def Let_def)

interpretation first_pass: keyed_pass "baseline_rule ck now" fst dm_alerts inputs
  by unfold_locales (simp_all add: inputs_def baseline_rule_def)

lemma baseline_at:
  assumes "nr \<in> set AllRules"
  shows "dm_alerts (baseline ck now AllRules d) (fst nr) =
     (if rc_enabled (rule_cfg d (fst nr)) then Some (first_state now (judged ck now nr d)) else dm_alerts d (fst nr))"
proof -
  obtain d' where d': "inputs d' = inputs d" "dm_alerts d' (fst nr) = dm_alerts d (fst nr)"
    "dm_alerts (baseline ck now AllRules d) (fst nr) = dm_alerts (baseline_rule ck now nr d') (fst nr)"
    using first_pass.pass_at[OF AllRules_distinct assms, of d ck now] unfolding baseline_foldl by metis
  then show ?thesis using rule_cfg_inputs[OF d'(1)] views_cong(1)[OF d'(1,2)] by (simp add: baseline_rule_def)
qed

lemma baseline_other: "m \<notin> fst ` set AllRules \<Longrightarrow> dm_alerts (baseline ck now AllRules d) m = dm_alerts d m"
  unfolding baseline_foldl by (rule first_pass.pass_other)

lemma take_sample_frame [simp]:
  "dm_cfg (take_sample now s d) = dm_cfg d" "dm_alerts (take_sample now s d) = dm_alerts d" "dm_log (take_sample now s d) = dm_log d"
  "dm_unpaired (take_sample now s d) = dm_unpaired d" "dm_evaluated (take_sample now s d) = dm_evaluated d"
  "dm_net (take_sample now s d) = dm_net d" "dm_client (take_sample now s d) = dm_client d"
  by (simp_all add: take_sample_def)

lemma Step_evaluated: "dm_evaluated (Step co ck now s d)"
  by (cases "dm_evaluated d") (simp_all add: Step_def Let_def)

lemma Step_cfg [simp]: "dm_cfg (Step co ck now s d) = dm_cfg d"
  by (cases "dm_evaluated d") (simp_all add: Step_def Let_def)

lemma Step_history [simp]: "dm_history (Step co ck now s d) = trimHistory (dm_history d @ [s]) now"
  by (cases "dm_evaluated d") (simp_all add: Step_def Let_def take_sample_def)

lemma Step_later:
  assumes "dm_evaluated d"
  shows "\<exists>es. pass_result ck now AllRules (take_sample now s d) es (Step co ck now s d)"
proof -
  define d1 where "d1 = evaluate co ck now AllRules (take_sample now s d)"
  obtain es where es: "pass_result ck now AllRules (take_sample now s d) es d1"
    using evaluate_result[OF AllRules_distinct] unfolding d1_def by blast
  have st: "Step co ck now s d = heartbeat co ck now s d1" using assms by (simp add: Step_def d1_def Let_def)
  have "dm_unpaired d1 \<Longrightarrow> heartbeat co ck now s d1 = d1" by (rule heartbeat_unpaired)
  then have "pass_result ck now AllRules (take_sample now s d) es (heartbeat co ck now s d1)"
    using es unfolding pass_result_def by (cases "dm_unpaired d1") auto
  then show ?thesis unfolding st by blast
qed

lemma Step_first:
  assumes "\<not> dm_evaluated d" "nr \<in> set AllRules"
  shows "dm_alerts (Step co ck now s d) (fst nr) =
     (if rc_enabled (rule_cfg d (fst nr)) then Some (first_state now (judged ck now nr (take_sample now s d))) else dm_alerts d (fst nr))"
  using assms baseline_at[OF assms(2), of ck now "take_sample now s d"] by (simp add: Step_def Let_def rule_cfg_def)


section \<open>The invariant of the loop\<close>

text \<open>
  Before the first pass nothing is known; an alert that counts as reported at some time was accepted by
  the relay then, in the state it still has.
\<close>

definition daemon_ok :: "daemon \<Rightarrow> bool" where
  "daemon_ok d \<longleftrightarrow>
     (\<not> dm_evaluated d \<longrightarrow> dm_alerts d = Map.empty) \<and>
     (\<forall>name p. dm_alerts d name = Some p \<and> \<not> is_zero (as_last_sent p) \<and> as_acked p \<longrightarrow>
        (\<exists>a. (a, True) \<in> set (dm_log d) \<and> ar_alert a = name \<and> ar_at a = as_last_sent p \<and>
             ar_state a = (if as_firing p then Firing else OK)))"

definition reported :: "daemon \<Rightarrow> string \<Rightarrow> alert_state \<Rightarrow> bool" where
  "reported d name p \<longleftrightarrow>
     (\<not> is_zero (as_last_sent p) \<and> as_acked p \<longrightarrow>
        (\<exists>a. (a, True) \<in> set (dm_log d) \<and> ar_alert a = name \<and> ar_at a = as_last_sent p \<and>
             ar_state a = (if as_firing p then Firing else OK)))"

lemma daemon_ok_reported:
  "daemon_ok d \<longleftrightarrow> (\<not> dm_evaluated d \<longrightarrow> dm_alerts d = Map.empty) \<and> (\<forall>name p. dm_alerts d name = Some p \<longrightarrow> reported d name p)"
  unfolding daemon_ok_def reported_def by metis

lemma request_state: "ar_state (request ck now nr d) = (if ev_firing (judged ck now nr d) then Firing else OK)"
  by (simp add: request_def request_for_def)

lemma request_at [simp]: "ar_at (request ck now nr d) = now"
  by (simp add: request_def request_for_def)

lemma renewed_firing: "as_firing (renewed ck now nr d) = ev_firing (judged ck now nr d)"
  by (simp add: renewed_def updated_state_def Let_def split: option.splits)

text \<open>Memory that still counts as reported is the memory of before, with the same state.\<close>

lemma renewed_kept:
  assumes "as_acked (renewed ck now nr d)" "\<not> is_zero (as_last_sent (renewed ck now nr d))"
  obtains p where "dm_alerts d (fst nr) = Some p" "as_acked p" "as_last_sent p = as_last_sent (renewed ck now nr d)"
    "as_firing p = as_firing (renewed ck now nr d)"
  using assms by (cases "dm_alerts d (fst nr)") (auto simp: renewed_def updated_state_def Let_def is_zero_def split: if_splits)

lemma Step_other:
  assumes "m \<notin> fst ` set AllRules"
  shows "dm_alerts (Step co ck now s d) m = dm_alerts d m"
proof (cases "dm_evaluated d")
  case True
  then show ?thesis
    using evaluation.pass_other[OF assms, of co ck now "take_sample now s d"] by (simp add: Step_def Let_def evaluate_def)
next
  case False
  then show ?thesis using baseline_other[OF assms] by (simp add: Step_def Let_def)
qed

lemma Step_log: "\<exists>es. dm_log (Step co ck now s d) = es @ dm_log d"
proof (cases "dm_evaluated d")
  case True
  from Step_later[OF this] show ?thesis unfolding pass_result_def by fastforce
next
  case False
  define b where "b = (baseline ck now AllRules (take_sample now s d))\<lparr> dm_evaluated := True \<rparr>"
  have "\<exists>es. dm_log (snd (send co now (started_request b now s) b)) = es @ dm_log b"
    using send_log[of b co now "started_request b now s"] send_unpaired[of b co now "started_request b now s"]
    by (cases "dm_unpaired b"; cases "send co now (started_request b now s) b") auto
  moreover have "dm_log b = dm_log d" by (simp add: b_def)
  ultimately show ?thesis using False by (simp add: Step_def Let_def b_def)
qed

lemma reported_later: "reported d name p \<Longrightarrow> dm_log d' = es @ dm_log d \<Longrightarrow> reported d' name p"
  unfolding reported_def by auto

lemma Step_ok:
  assumes "daemon_ok d"
  shows "daemon_ok (Step co ck now s d)"
  unfolding daemon_ok_reported
proof (intro conjI allI impI)
  let ?d' = "Step co ck now s d"
  show "\<not> dm_evaluated ?d' \<Longrightarrow> dm_alerts ?d' = Map.empty" by (simp add: Step_evaluated)
  fix name p assume p: "dm_alerts ?d' name = Some p"
  obtain es0 where log: "dm_log ?d' = es0 @ dm_log d" using Step_log by blast
  have old: "reported ?d' name q" if "dm_alerts d name = Some q" for q
    using that assms reported_later[OF _ log] unfolding daemon_ok_reported by blast
  show "reported ?d' name p"
  proof (cases "name \<in> fst ` set AllRules")
    case False
    with p old show ?thesis by (simp add: Step_other)
  next
    case True
    then obtain nr where nr: "nr \<in> set AllRules" "name = fst nr" by blast
    show ?thesis
    proof (cases "dm_evaluated d")
      case False
      with p nr Step_first[OF False nr(1)] old show ?thesis
        by (auto simp: reported_def first_state_def is_zero_def split: if_splits)
    next
      case True
      define t where "t = take_sample now s d"
      from Step_later[OF True] obtain es where es: "pass_result ck now AllRules t es ?d'" unfolding t_def by blast
      from es nr p have p: "p = confirm now ((request ck now nr t, True) \<in> set es) (renewed ck now nr t)"
        unfolding pass_result_def by (auto split: if_splits)
      show ?thesis
      proof (cases "(request ck now nr t, True) \<in> set es")
        case True
        then have "(request ck now nr t, True) \<in> set (dm_log ?d')" using es unfolding pass_result_def by simp
        then show ?thesis
          unfolding reported_def using True nr
          by (intro impI exI[of _ "request ck now nr t"]) (simp add: p confirm_def request_state renewed_firing)
      next
        case False
        then have pr: "p = renewed ck now nr t" using p by (simp add: confirm_def)
        have ts: "dm_alerts t = dm_alerts d" by (simp add: t_def)
        show ?thesis unfolding reported_def
        proof
          assume "\<not> is_zero (as_last_sent p) \<and> as_acked p"
          then obtain q where q: "dm_alerts d name = Some q" "as_acked q" "as_last_sent q = as_last_sent p" "as_firing q = as_firing p"
            using renewed_kept[of ck now nr t] unfolding pr ts nr by metis
          with old[OF q(1)] \<open>\<not> is_zero (as_last_sent p) \<and> as_acked p\<close>
          show "\<exists>a. (a, True) \<in> set (dm_log ?d') \<and> ar_alert a = name \<and> ar_at a = as_last_sent p \<and>
             ar_state a = (if as_firing p then Firing else OK)"
            unfolding reported_def by simp
        qed
      qed
    qed
  qed
qed

lemma apply_config_frame [simp]:
  "dm_alerts (apply_config cfg d) = dm_alerts d" "dm_log (apply_config cfg d) = dm_log d"
  "dm_evaluated (apply_config cfg d) = dm_evaluated d" "dm_net (apply_config cfg d) = dm_net d"
  by (simp_all add: apply_config_def split: option.splits)

lemma apply_config_ok: "daemon_ok d \<Longrightarrow> daemon_ok (apply_config cfg d)"
  by (simp add: daemon_ok_def)

lemma daemon_step_ok: "daemon_ok d \<Longrightarrow> daemon_ok (daemon_step co ev d)"
  by (cases ev) (simp_all add: daemon_step_def Step_ok apply_config_ok split: sum.splits)

lemma run_ok: "daemon_ok d \<Longrightarrow> daemon_ok (foldl (\<lambda>d ev. daemon_step co ev d) d evs)"
  by (induction evs arbitrary: d) (simp_all add: daemon_step_ok)

lemma Run_ok: "daemon_ok (Run co started first evs (NewDaemon cfg c net))"
proof -
  have "daemon_ok ((NewDaemon cfg c net)\<lparr> dm_started := started \<rparr>)" by (simp add: daemon_ok_def NewDaemon_def)
  then show ?thesis by (auto simp: Run_def Step_ok run_ok split: prod.splits)
qed

lemma run_evaluated: "dm_evaluated d \<Longrightarrow> dm_evaluated (foldl (\<lambda>d ev. daemon_step co ev d) d evs)"
proof (induction evs arbitrary: d)
  case (Cons ev evs)
  have "dm_evaluated (daemon_step co ev d)"
    using Cons.prems by (cases ev) (auto simp: daemon_step_def Step_evaluated split: sum.splits)
  with Cons.IH show ?case by simp
qed simp


section \<open>An unpaired daemon\<close>

lemma evaluate_unpaired:
  "dm_unpaired d \<Longrightarrow> dm_log (evaluate co ck now rules d) = dm_log d \<and> dm_net (evaluate co ck now rules d) = dm_net d \<and>
     dm_unpaired (evaluate co ck now rules d)"
  unfolding evaluate_def
proof (induction rules arbitrary: d)
  case (Cons nr rules)
  have "send co now (request ck now nr d) d = (False, d)" using Cons.prems by (rule send_unpaired)
  then have "dm_log (eval_rule co ck now nr d) = dm_log d \<and> dm_net (eval_rule co ck now nr d) = dm_net d \<and>
     dm_unpaired (eval_rule co ck now nr d)"
    using Cons.prems by (simp add: eval_rule_cases)
  with Cons.IH[of "eval_rule co ck now nr d"] show ?case by simp
qed simp

lemma Step_unpaired:
  assumes "dm_unpaired d"
  shows "dm_log (Step co ck now s d) = dm_log d \<and> dm_net (Step co ck now s d) = dm_net d \<and> dm_unpaired (Step co ck now s d)"
proof (cases "dm_evaluated d")
  case True
  then show ?thesis
    using assms evaluate_unpaired[of "take_sample now s d" co ck now AllRules]
    by (simp add: Step_def Let_def heartbeat_unpaired)
next
  case False
  then show ?thesis using assms by (simp add: Step_def Let_def send_unpaired heartbeat_unpaired)
qed

definition same_credentials :: "alert_config \<Rightarrow> alert_config \<Rightarrow> bool" where
  "same_credentials c c' \<longleftrightarrow> cf_relay_url c = cf_relay_url c' \<and> cf_node_id c = cf_node_id c' \<and> cf_secret c = cf_secret c'"

lemma apply_same: "same_credentials cfg (dm_cfg d) \<Longrightarrow> apply_config cfg d = d\<lparr> dm_cfg := cfg \<rparr>"
  by (simp add: apply_config_def same_credentials_def)

lemma daemon_step_unpaired:
  assumes "dm_unpaired d" "\<And>cfg. ev = Reload (Inr cfg) \<Longrightarrow> same_credentials cfg (dm_cfg d)"
  shows "dm_log (daemon_step co ev d) = dm_log d \<and> dm_net (daemon_step co ev d) = dm_net d \<and> dm_unpaired (daemon_step co ev d) \<and>
    same_credentials (dm_cfg (daemon_step co ev d)) (dm_cfg d)"
proof (cases ev)
  case (Tick now s ck)
  then show ?thesis using Step_unpaired[OF assms(1)] by (simp add: daemon_step_def same_credentials_def)
next
  case (Reload r)
  show ?thesis
  proof (cases r)
    case (Inl e)
    then show ?thesis using Reload assms(1) by (simp add: daemon_step_def same_credentials_def)
  next
    case (Inr cfg)
    with Reload assms(2)[of cfg] have sc: "same_credentials cfg (dm_cfg d)" by simp
    show ?thesis using Reload Inr assms(1) sc by (simp add: daemon_step_def apply_same[OF sc])
  qed
qed

lemma unpaired_run:
  assumes "dm_unpaired d" "\<forall>cfg. Reload (Inr cfg) \<in> set evs \<longrightarrow> same_credentials cfg (dm_cfg d)"
  shows "dm_log (foldl (\<lambda>d ev. daemon_step co ev d) d evs) = dm_log d \<and> dm_net (foldl (\<lambda>d ev. daemon_step co ev d) d evs) = dm_net d"
  using assms
proof (induction evs arbitrary: d)
  case (Cons ev evs)
  have st: "dm_log (daemon_step co ev d) = dm_log d \<and> dm_net (daemon_step co ev d) = dm_net d \<and> dm_unpaired (daemon_step co ev d) \<and>
    same_credentials (dm_cfg (daemon_step co ev d)) (dm_cfg d)"
    by (rule daemon_step_unpaired) (use Cons.prems in auto)
  have "\<forall>cfg. Reload (Inr cfg) \<in> set evs \<longrightarrow> same_credentials cfg (dm_cfg (daemon_step co ev d))"
    using Cons.prems(2) st by (auto simp: same_credentials_def)
  with Cons.IH[of "daemon_step co ev d"] st show ?case by simp
qed simp

section \<open>With the relay in reach\<close>

lemma eval_rule_reachable:
  assumes "reachable_relay co d"
  shows "reachable_relay co (eval_rule co ck now nr d) \<and>
    dm_log (eval_rule co ck now nr d) = (if wants ck now nr d then [(request ck now nr d, True)] else []) @ dm_log d"
proof -
  obtain ok d1 where s: "send co now (request ck now nr d) d = (ok, d1)" by (cases "send co now (request ck now nr d) d")
  have up: "\<not> dm_unpaired d" using assms by (simp add: reachable_relay_def)
  note acc = send_accepted[OF assms s] and log = send_log[OF up s]
  have up1: "reachable_relay co (d1\<lparr> dm_alerts := m \<rparr>)" for m using acc by (simp add: reachable_relay_def)
  have up0: "reachable_relay co (d\<lparr> dm_alerts := m \<rparr>)" for m using assms by (simp add: reachable_relay_def)
  show ?thesis
  proof (cases "wants ck now nr d")
    case True
    then have "rc_enabled (rule_cfg d (fst nr))" by (simp add: wants_def)
    then show ?thesis using True s acc log by (simp add: eval_rule_cases up1)
  next
    case False
    then show ?thesis by (simp add: eval_rule_cases up0)
  qed
qed

lemma evaluate_reachable:
  "reachable_relay co d \<Longrightarrow> reachable_relay co (evaluate co ck now rules d) \<and>
     (\<exists>es. dm_log (evaluate co ck now rules d) = es @ dm_log d \<and> (\<forall>e \<in> set es. snd e))"
  unfolding evaluate_def
proof (induction rules arbitrary: d)
  case (Cons nr rules)
  note r = eval_rule_reachable[OF Cons.prems, of ck now nr]
  from Cons.IH[of "eval_rule co ck now nr d"] r obtain es where
    "reachable_relay co (foldl (\<lambda>d nr. eval_rule co ck now nr d) (eval_rule co ck now nr d) rules)"
    "dm_log (foldl (\<lambda>d nr. eval_rule co ck now nr d) (eval_rule co ck now nr d) rules) = es @ dm_log (eval_rule co ck now nr d)"
    "\<forall>e \<in> set es. snd e" by blast
  with r show ?case by (auto split: if_splits)
qed simp

text \<open>With the relay in reach every alert that is known is acknowledged after a step.\<close>

lemma pass_slot:
  "pass_result ck now rules d es d' \<Longrightarrow> nr \<in> set rules \<Longrightarrow> dm_alerts d' (fst nr) =
     (if \<not> rc_enabled (rule_cfg d (fst nr)) then None
      else Some (confirm now ((request ck now nr d, True) \<in> set es) (renewed ck now nr d)))"
  unfolding pass_result_def by blast

lemma pass_known:
  assumes "pass_result ck now rules d es d'" "nr \<in> set rules" "dm_alerts d' (fst nr) = Some p"
  shows "rc_enabled (rule_cfg d (fst nr)) \<and> p = confirm now ((request ck now nr d, True) \<in> set es) (renewed ck now nr d)"
  using pass_slot[OF assms(1,2)] assms(3) by (simp split: if_splits)

lemma pass_log: "pass_result ck now rules d es d' \<Longrightarrow> dm_log d' = es @ dm_log d"
  unfolding pass_result_def by blast

lemma pass_all: "pass_result ck now rules d es d' \<Longrightarrow> \<not> dm_unpaired d' \<Longrightarrow> map fst es = rev (wanted ck now rules d)"
  unfolding pass_result_def by (metis rev_rev_ident)

lemma Step_reachable:
  assumes "dm_evaluated d" "reachable_relay co d" "nr \<in> set AllRules"
    "dm_alerts (Step co ck now s d) (fst nr) = Some p"
  shows "as_acked p"
proof -
  define t where "t = take_sample now s d"
  define d1 where "d1 = evaluate co ck now AllRules t"
  have rt: "reachable_relay co t" using assms(2) by (simp add: t_def reachable_relay_def)
  obtain es where es: "pass_result ck now AllRules t es d1"
    using evaluate_result[OF AllRules_distinct] unfolding d1_def by blast
  from evaluate_reachable[OF rt, of ck now AllRules] obtain es2 where e2:
    "reachable_relay co d1" "dm_log d1 = es2 @ dm_log t" "\<forall>e \<in> set es2. snd e" unfolding d1_def by blast
  have ok: "\<forall>e \<in> set es. snd e" using e2(2,3) pass_log[OF es] by simp
  have up: "\<not> dm_unpaired d1" using e2(1) by (simp add: reachable_relay_def)
  have "dm_alerts d1 (fst nr) = Some p" using assms(1,4) by (simp add: Step_def Let_def d1_def t_def)
  from pass_known[OF es assms(3) this] have en: "rc_enabled (rule_cfg t (fst nr))"
    and p: "p = confirm now ((request ck now nr t, True) \<in> set es) (renewed ck now nr t)" by simp_all
  show ?thesis
  proof (cases "wants ck now nr t")
    case True
    with assms(3) have "request ck now nr t \<in> set (wanted ck now AllRules t)" by (simp add: wanted_def)
    then have "request ck now nr t \<in> set (map fst es)" by (simp add: pass_all[OF es up])
    with ok have "(request ck now nr t, True) \<in> set es" by force
    with p show ?thesis by (simp add: confirm_def)
  next
    case False
    with en have "as_acked (renewed ck now nr t)" by (simp add: wants_def need_send_def)
    with p show ?thesis by (simp add: confirm_def)
  qed
qed


section \<open>What is never sent\<close>

lemma pass_only_wanted:
  assumes "pass_result ck now rules d es d'" "a \<in> fst ` set es"
  shows "\<exists>nr \<in> set rules. wants ck now nr d \<and> a = request ck now nr d"
proof -
  have "prefix (rev (map fst es)) (wanted ck now rules d)" using assms(1) unfolding pass_result_def by blast
  from set_mono_prefix[OF this] assms(2) have "a \<in> set (wanted ck now rules d)" by auto
  then show ?thesis by (auto simp: wanted_def)
qed

text \<open>An informational alert that is known, acknowledged and unchanged is not sent.\<close>

lemma renewed_info_same:
  assumes "ai_severity (alert_info_of (fst nr)) = InfoSev" "judged ck now nr d = fires D"
    "dm_alerts d (fst nr) = Some p" "as_firing p" "as_acked p" "as_detail p = D"
  shows "renewed ck now nr d = p" "\<not> wants ck now nr d"
proof -
  show r: "renewed ck now nr d = p" using assms by (simp add: renewed_def updated_state_def Let_def)
  show "\<not> wants ck now nr d" using assms by (simp add: wants_def r need_send_def)
qed

lemma rule_by_name: "nr \<in> set AllRules \<Longrightarrow> nr' \<in> set AllRules \<Longrightarrow> fst nr = fst nr' \<Longrightarrow> nr = nr'"
  using AllRules_distinct by (metis eq_key_imp_eq_value prod.collapse)

definition settled_info :: "string \<Rightarrow> string \<Rightarrow> daemon \<Rightarrow> bool" where
  "settled_info name D d \<longleftrightarrow>
     dm_evaluated d \<and> rc_enabled (rule_cfg d name) \<and>
     (\<exists>p. dm_alerts d name = Some p \<and> as_firing p \<and> as_acked p \<and> as_detail p = D) \<and>
     (\<forall>a \<in> fst ` set (dm_log d). ar_alert a \<noteq> name)"

lemma rule_cfg_take [simp]: "rule_cfg (take_sample now s d) = rule_cfg d"
  by (simp add: rule_cfg_def fun_eq_iff)

lemma rule_cfg_Step [simp]: "rule_cfg (Step co ck now s d) = rule_cfg d"
  by (simp add: rule_cfg_def fun_eq_iff)

lemma settled_info_step:
  assumes nr: "nr \<in> set AllRules" and info: "ai_severity (alert_info_of (fst nr)) = InfoSev"
    and rule: "judged ck now nr (take_sample now s d) = fires D" and ok: "settled_info (fst nr) D d"
  shows "settled_info (fst nr) D (Step co ck now s d)"
proof -
  define t where "t = take_sample now s d"
  from ok obtain p where p: "dm_alerts t (fst nr) = Some p" "as_firing p" "as_acked p" "as_detail p = D"
    and ev: "dm_evaluated d" and en: "rc_enabled (rule_cfg d (fst nr))"
    and clean: "\<forall>a \<in> fst ` set (dm_log d). ar_alert a \<noteq> fst nr"
    unfolding settled_info_def t_def by auto
  note same = renewed_info_same[OF info rule[folded t_def] p]
  from Step_later[OF ev] obtain es where es: "pass_result ck now AllRules t es (Step co ck now s d)"
    unfolding t_def by blast
  have new: "ar_alert a \<noteq> fst nr" if "a \<in> fst ` set es" for a
  proof
    assume "ar_alert a = fst nr"
    with pass_only_wanted[OF es that] obtain nr' where "nr' \<in> set AllRules" "wants ck now nr' t" "fst nr' = fst nr" by auto
    with rule_by_name[OF nr] same(2) show False by metis
  qed
  then have "(request ck now nr t, True) \<notin> set es" by (metis fst_conv image_eqI request_alert)
  with pass_slot[OF es nr] en same(1) have "dm_alerts (Step co ck now s d) (fst nr) = Some p"
    by (simp add: confirm_def t_def)
  moreover have "\<forall>a \<in> fst ` set (dm_log (Step co ck now s d)). ar_alert a \<noteq> fst nr"
    using new clean pass_log[OF es] by (auto simp: t_def)
  ultimately show ?thesis using p en by (simp add: settled_info_def Step_evaluated)
qed

lemma trim_current: "trimHistory (h @ [s]) (sa_taken s) \<noteq> []"
  by (simp add: trimHistory_def dropWhile_append before_def time_add_def HistoryWindow_def MaxWindowMinutes_def minute_def)

lemma updateAvailable_fires:
  assumes "ck_update ck = Some u" "ui_behind u \<or> ui_latest u \<noteq> [] \<and> ck_newer ck (ui_latest u) (ui_running u)"
  obtains D where "\<And>h rc. h \<noteq> [] \<Longrightarrow> updateAvailable ck h rc = fires D"
  using assms that by (fastforce simp: updateAvailable_def Let_def)


section \<open>What the relay accepts\<close>

lemma rules_known: "\<forall>n \<in> set (map fst AllRules). (\<exists>i \<in> set Alerts. ai_name i = n)"
  by (simp add: AllRules_def Alerts_def kind_def)

lemma rule_info:
  assumes "nr \<in> set AllRules"
  shows "alert_info_of (fst nr) \<in> set Alerts \<and> ai_name (alert_info_of (fst nr)) = fst nr"
proof -
  from rules_known assms obtain i where i: "i \<in> set Alerts" "ai_name i = fst nr" by fastforce
  then have "Lookup (fst nr) = Some i" using Lookup_in by metis
  with i show ?thesis by (simp add: alert_info_of_def)
qed

lemma request_valid:
  assumes "nr \<in> set AllRules"
  shows "ValidAlert (request ck now nr d) \<longleftrightarrow>
     \<not> ev_firing (judged ck now nr d) \<or> length (ev_detail (judged ck now nr d)) \<le> 2000"
proof -
  note i = rule_info[OF assms]
  have ev: "\<not> Events (fst nr)" using i Events_not_rule Lookup_None_iff by (metis imageI)
  have sane: "ai_severity (alert_info_of (fst nr)) \<in> {Critical, Warning, InfoSev}"
    "length (ai_title (alert_info_of (fst nr))) \<le> 200" "length (ai_ok_title (alert_info_of (fst nr))) \<le> 200"
    using alerts_sane i by blast+
  have mem: "fst nr \<in> ai_name ` set Alerts" using i by (metis imageI)
  show ?thesis
    using sane mem ev by (cases "ev_firing (judged ck now nr d)") (simp_all add: ValidAlert_iff request_def request_for_def)
qed

text \<open>A firing alert that was reported and has not changed: what is left is the reminder.\<close>

lemma wants_reminder:
  assumes "rc_enabled (rule_cfg d (fst nr))" "dm_alerts d (fst nr) = Some p" "as_firing p" "as_acked p"
    "ev_firing (judged ck now nr d)" "ai_severity (alert_info_of (fst nr)) \<noteq> InfoSev" "\<not> is_zero (as_last_sent p)"
  shows "wants ck now nr d \<longleftrightarrow> time_sub now (as_last_sent p) \<ge> Alert_Daemon.ReminderEvery"
  using assms by (simp add: wants_def renewed_def updated_state_def need_send_def Let_def)

end
