(* ===== verification/Alert_Claims.thy ===== *)
theory Alert_Claims
  imports Relay_Claims Daemon_Pass
begin

text \<open>
  Properties of the node's side: the daemon, the credentials it signs with, its configuration, the rules, the
  samples and the readers they are made from.
\<close>

section \<open>Fixtures\<close>

definition failed_sample :: "time \<Rightarrow> sample" where
  "failed_sample t =
     \<lparr> sa_taken = t,
       sa_service = (no_service ''go-zenon'')\<lparr> sv_found := True, sv_active := ''failed'', sv_sub := ''failed'' \<rparr>,
       sa_process = no_process,
       sa_host = \<lparr> ho_load1 = Fin 0, ho_load5 = Fin 0, ho_load15 = Fin 0, ho_mem_total = 0, ho_mem_available = 0,
                   ho_data_dir = ''/root/.znn'', ho_disk_free = 0, ho_disk_total = 0,
                   ho_pressure = \<lparr> pr_cpu = Fin 0, pr_io = Fin 0, pr_memory = Fin 0 \<rparr> \<rparr>,
       sa_node = no_node ''http://127.0.0.1:35997'' [] \<rparr>"

definition demo_config :: alert_config where
  "demo_config =
     \<lparr> cf_relay_url = ''https://relay'', cf_node_id = ''n_0123456789abcdef'', cf_secret = base64_encode ''key'', cf_name = ''node'',
       cf_pillar_name = [], cf_interval = DefaultInterval,
       cf_rules = (\<lambda>n. if n \<in> {''service_down'', ''update_available''}
                      then Some \<lparr> rc_enabled = True, rc_thresholds = Map.empty \<rparr> else None) \<rparr>"

definition demo_client :: client where
  "demo_client = \<lparr> cl_url = ''https://relay'', cl_node = ''n_0123456789abcdef'', cl_secret = ''key'', cl_version = ''1.0'' \<rparr>"

definition demo_codec :: codec where
  "demo_codec = \<lparr> co_hmac = (\<lambda>k m. k), co_alert = (\<lambda>a. Some (ar_alert a)), co_heartbeat = (\<lambda>h. Some []),
     co_pair = (\<lambda>p. Some []), co_error = (\<lambda>b. b), co_paired = (\<lambda>b. None) \<rparr>"

definition demo_checkers :: checkers where
  "demo_checkers = \<lparr> ck_backup = None, ck_wallet = None,
     ck_update = Some \<lparr> ui_latest = [], ui_running = [], ui_behind = True, ui_branch = ''master'' \<rparr>, ck_newer = (\<lambda>a b. False) \<rparr>"

text \<open>A daemon that has seen the failed service for a while; its memory of \<open>service_down\<close> is given.\<close>

definition demo_daemon :: "alert_state option \<Rightarrow> net_reply list \<Rightarrow> daemon" where
  "demo_daemon st net =
     (NewDaemon demo_config demo_client net)\<lparr> dm_evaluated := True, dm_history := [failed_sample demo_t],
        dm_alerts := (\<lambda>n. if n = ''service_down'' then st else None) \<rparr>"


lemmas demo_daemon_defs = demo_daemon_def demo_config_def NewDaemon_def

lemma demo_rule_on: "rc_enabled (rule_cfg (demo_daemon st net) ''service_down'')"
  by (simp add: rule_cfg_def demo_daemon_defs)

lemma demo_rule: "(''service_down'', serviceDown) \<in> set AllRules"
  by (simp add: AllRules_def)

lemma demo_fires:
  "ev_firing (judged ck now (''service_down'', serviceDown) (take_sample (demo_t + 30 * second) (failed_sample (demo_t + 30 * second)) (demo_daemon st net)))"
  by (simp add: judged_def take_sample_def demo_daemon_defs trimHistory_def failed_sample_def HistoryWindow_def
      MaxWindowMinutes_def minute_def second_def before_def time_add_def wrap64_def serviceDown_def lastN_def active_def newest_def Let_def)

lemma Step_stays_up:
  assumes "dm_evaluated d" "reachable_relay co d" "\<And>h. co_heartbeat co h \<noteq> None"
  shows "\<not> dm_unpaired (Step co ck now s d)"
proof -
  define e where "e = evaluate co ck now AllRules (take_sample now s d)"
  have "reachable_relay co (take_sample now s d)" using assms(2) by (simp add: reachable_relay_def)
  from evaluate_reachable[OF this, of ck now AllRules] have up: "dm_net e = []" "\<not> dm_unpaired e"
    by (simp_all add: e_def reachable_relay_def)
  have "\<not> dm_unpaired (heartbeat co ck now s e)"
    using up assms(3) by (simp add: heartbeat_def Let_def exchange_with_def next_reply_def post_def judge_reply_def
        split: option.splits prod.splits if_splits)
  then show ?thesis using assms(1) by (simp add: Step_def Let_def e_def)
qed

lemma step_slot:
  assumes "dm_evaluated d" "(name, r) \<in> set AllRules"
  shows "\<exists>b. dm_alerts (Step co ck now s d) name =
     (if \<not> rc_enabled (rule_cfg d name) then None else Some (confirm now b (renewed ck now (name, r) (take_sample now s d))))"
proof -
  obtain es where "pass_result ck now AllRules (take_sample now s d) es (Step co ck now s d)" using Step_later[OF assms(1)] by blast
  from pass_slot[OF this assms(2)] show ?thesis unfolding rule_cfg_take fst_conv by blast
qed

lemma demo_reachable: "reachable_relay demo_codec (demo_daemon st [])"
  by (simp add: reachable_relay_def demo_daemon_defs demo_codec_def)

lemma demo_heartbeats: "co_heartbeat demo_codec h \<noteq> None"
  by (simp add: demo_codec_def)

lemma demo_evaluated: "dm_evaluated (demo_daemon st net)"
  by (simp add: demo_daemon_def)

definition demo_old :: alert_state where
  "demo_old = \<lparr> as_firing = True, as_acked = True, as_since = demo_t, as_last_sent = demo_t - 11 * minute, as_detail = ''down'' \<rparr>"

section \<open>The daemon\<close>

text \<open>C5. What a step reports.  After the first step, a step tries the requests its rules want sent, in the order
  of the rules and stopping only when the relay disowns the node; a disabled rule is forgotten, and every
  other rule's memory is the renewed one, marked acknowledged now exactly if the relay accepted its request.\<close>

theorem step_reports:
  assumes "dm_evaluated d"
  shows "\<exists>es. dm_log (Step co ck now s d) = es @ dm_log d \<and>
     prefix (rev (map fst es)) (wanted ck now AllRules (take_sample now s d)) \<and>
     (\<not> dm_unpaired (Step co ck now s d) \<longrightarrow> rev (map fst es) = wanted ck now AllRules (take_sample now s d)) \<and>
     (\<forall>nr \<in> set AllRules. dm_alerts (Step co ck now s d) (fst nr) =
        (if \<not> rc_enabled (rule_cfg d (fst nr)) then None
         else Some (confirm now ((request ck now nr (take_sample now s d), True) \<in> set es) (renewed ck now nr (take_sample now s d)))))"
proof -
  from Step_later[OF assms] obtain es where "pass_result ck now AllRules (take_sample now s d) es (Step co ck now s d)" by blast
  then show ?thesis unfolding pass_result_def rule_cfg_take by (intro exI[of _ es]) simp
qed

lemma step_reports_witness:
  "\<exists>es. dm_log (Step demo_codec demo_checkers (demo_t + 30 * second) (failed_sample (demo_t + 30 * second)) (demo_daemon None [])) = es @ []"
  using step_reports[of "demo_daemon None []" demo_codec demo_checkers "demo_t + 30 * second" "failed_sample (demo_t + 30 * second)"]
  by (auto simp: demo_daemon_defs)

text \<open>C4. Acknowledged means accepted.  In every state the loop reaches, whatever the network, the checkers and
  reloads do, an alert that counts as reported was accepted by the relay at the time it says, in the state it
  is in.\<close>

theorem acknowledged_means_accepted:
  assumes "dm_alerts (Run co started first evs (NewDaemon cfg c net)) name = Some p" "as_acked p" "\<not> is_zero (as_last_sent p)"
  shows "\<exists>a. (a, True) \<in> set (dm_log (Run co started first evs (NewDaemon cfg c net))) \<and> ar_alert a = name \<and>
     ar_at a = as_last_sent p \<and> ar_state a = (if as_firing p then Firing else OK)"
  using Run_ok[of co started first evs cfg c net] assms unfolding daemon_ok_def by blast

definition demo_start :: "client \<Rightarrow> daemon" where
  "demo_start c = (NewDaemon demo_config c [])\<lparr> dm_started := demo_t \<rparr>"

definition demo_run :: daemon where
  "demo_run = Run demo_codec demo_t (demo_t, failed_sample demo_t, demo_checkers)
     [Tick (demo_t + 30 * second) (failed_sample (demo_t + 30 * second)) demo_checkers] (NewDaemon demo_config demo_client [])"

lemma demo_up:
  "dm_net (Step demo_codec demo_checkers now s (demo_start c)) = [] \<and> \<not> dm_unpaired (Step demo_codec demo_checkers now s (demo_start c))"
  by (simp add: demo_start_def NewDaemon_def Step_def Let_def send_def exchange_with_def next_reply_def post_def judge_reply_def
      demo_codec_def heartbeat_def demo_checkers_def split: prod.splits option.splits if_splits)

lemma demo_run_reported:
  "\<exists>p. dm_alerts demo_run ''service_down'' = Some p \<and> as_acked p \<and> as_firing p \<and> \<not> is_zero (as_last_sent p)"
proof -
  define d1 where "d1 = Step demo_codec demo_checkers demo_t (failed_sample demo_t) (demo_start demo_client)"
  define now where "now = demo_t + 30 * second"
  define t where "t = take_sample now (failed_sample now) d1"
  define nr where "nr = (''service_down'', serviceDown)"
  have nr: "nr \<in> set AllRules" "fst nr = ''service_down''" by (simp_all add: AllRules_def nr_def)
  have run: "demo_run = Step demo_codec demo_checkers now (failed_sample now) d1"
    by (simp add: demo_run_def Run_def daemon_step_def d1_def now_def demo_start_def)
  have hist: "dm_history d1 = [failed_sample demo_t]"
    by (simp add: d1_def demo_start_def NewDaemon_def trimHistory_def failed_sample_def HistoryWindow_def
      MaxWindowMinutes_def minute_def before_def time_add_def wrap64_def)
  have cfg: "rule_cfg d1 (fst nr) = \<lparr> rc_enabled = True, rc_thresholds = Map.empty \<rparr>"
    by (simp add: rule_cfg_def d1_def demo_start_def NewDaemon_def demo_config_def nr)
  have quiet0: "\<not> ev_firing (judged demo_checkers demo_t nr (take_sample demo_t (failed_sample demo_t) (demo_start demo_client)))"
    by (simp add: judged_def take_sample_def demo_start_def NewDaemon_def nr_def trimHistory_def serviceDown_def lastN_def Let_def)
  have "\<not> dm_evaluated (demo_start demo_client)" "rc_enabled (rule_cfg (demo_start demo_client) (fst nr))"
    by (simp_all add: demo_start_def NewDaemon_def rule_cfg_def demo_config_def nr)
  from Step_first[OF this(1) nr(1)] this(2) obtain q where
    q: "dm_alerts d1 (fst nr) = Some q" "\<not> as_firing q" using quiet0 unfolding d1_def by (auto simp: first_state_def)
  have fires: "ev_firing (judged demo_checkers now nr t)"
    by (simp add: judged_def t_def take_sample_def hist nr_def trimHistory_def failed_sample_def now_def HistoryWindow_def
      MaxWindowMinutes_def minute_def second_def before_def time_add_def wrap64_def serviceDown_def lastN_def active_def newest_def Let_def)
  have fresh: "\<not> as_acked (renewed demo_checkers now nr t)"
    using q fires by (simp add: renewed_def updated_state_def t_def Let_def is_zero_def alert_info_of_def)
  have ev: "dm_evaluated d1" unfolding d1_def by (rule Step_evaluated)
  have reach: "reachable_relay demo_codec d1"
    using demo_up[of demo_t "failed_sample demo_t" demo_client] by (simp add: reachable_relay_def d1_def demo_codec_def)
  obtain es where es: "pass_result demo_checkers now AllRules t es demo_run"
    using Step_later[OF ev] unfolding run t_def by blast
  obtain b where p: "dm_alerts demo_run (fst nr) = Some (confirm now b (renewed demo_checkers now nr t))"
    using pass_slot[OF es nr(1)] cfg by (simp add: t_def)
  have acked: "as_acked (confirm now b (renewed demo_checkers now nr t))"
    using Step_reachable[OF ev reach nr(1)] p unfolding run by blast
  then have b by (cases b) (simp_all add: confirm_def fresh)
  then have "as_last_sent (confirm now b (renewed demo_checkers now nr t)) = now"
    "as_firing (confirm now b (renewed demo_checkers now nr t))"
    using fires renewed_firing[of demo_checkers now nr t] by (simp_all add: confirm_def)
  with p acked nr(2) show ?thesis by (simp add: is_zero_def now_def demo_t_def second_def)
qed

lemma acknowledged_means_accepted_witness:
  "\<exists>a. (a, True) \<in> set (dm_log demo_run) \<and> ar_alert a = ''service_down'' \<and> ar_state a = Firing"
proof -
  obtain p where p: "dm_alerts demo_run ''service_down'' = Some p" "as_acked p" "as_firing p" "\<not> is_zero (as_last_sent p)"
    using demo_run_reported by blast
  from acknowledged_means_accepted[OF p(1)[unfolded demo_run_def] p(2,4)] p(3) show ?thesis unfolding demo_run_def by auto
qed

text \<open>C22. The alerts follow the rules.  After every tick of the loop a rule is known exactly if it is enabled, and then
  it is firing exactly if the rule fires on the history kept.\<close>

theorem alerts_follow_rules:
  assumes "d = Run co started first evs (NewDaemon cfg c net)" "(name, r) \<in> set AllRules"
  shows "case dm_alerts (Step co' ck now s d) name of
       None \<Rightarrow> \<not> rc_enabled (rule_cfg d name)
     | Some p \<Rightarrow> rc_enabled (rule_cfg d name) \<and>
         as_firing p = ev_firing (r ck (dm_history (Step co' ck now s d)) (rule_cfg d name))"
proof -
  have "dm_evaluated d" unfolding assms(1) Run_def by (auto intro: run_evaluated Step_evaluated split: prod.splits)
  from Step_later[OF this, of ck now s co'] obtain es where
    es: "pass_result ck now AllRules (take_sample now s d) es (Step co' ck now s d)" by blast
  have res: "judged ck now (name, r) (take_sample now s d) = r ck (dm_history (Step co' ck now s d)) (rule_cfg d name)"
    unfolding judged_def rule_cfg_take Step_history by (simp add: take_sample_def)
  obtain b where slot: "dm_alerts (Step co' ck now s d) name =
     (if \<not> rc_enabled (rule_cfg d name) then None else Some (confirm now b (renewed ck now (name, r) (take_sample now s d))))"
    using pass_slot[OF es assms(2)] unfolding rule_cfg_take fst_conv by blast
  have "as_firing (confirm now b (renewed ck now (name, r) (take_sample now s d))) = ev_firing (r ck (dm_history (Step co' ck now s d)) (rule_cfg d name))"
    unfolding res[symmetric] using renewed_firing[of ck now "(name, r)" "take_sample now s d"] by (simp only: confirm_def) simp
  with slot show ?thesis by (cases "rc_enabled (rule_cfg d name)") (simp_all del: Step_history)
qed

lemma alerts_follow_rules_witness:
  "\<exists>p. dm_alerts (Step demo_codec demo_checkers (demo_t + 60 * second) (failed_sample (demo_t + 60 * second)) demo_run) ''service_down'' = Some p \<and>
     as_firing p = ev_firing (serviceDown demo_checkers (dm_history (Step demo_codec demo_checkers (demo_t + 60 * second) (failed_sample (demo_t + 60 * second)) demo_run))
        (rule_cfg demo_run ''service_down''))"
proof -
  have "rc_enabled (rule_cfg demo_run ''service_down'')"
    by (simp add: demo_run_def Run_def daemon_step_def NewDaemon_def demo_config_def rule_cfg_def)
  with alerts_follow_rules[OF demo_run_def demo_rule, where now = "demo_t + 60 * second" and s = "failed_sample (demo_t + 60 * second)" and co' = demo_codec and ck = demo_checkers]
  show ?thesis by (auto split: option.splits)
qed

text \<open>C23. Nothing is lost.  Whatever was left unacknowledged, a step that finds the relay in reach leaves every
  known alert acknowledged.\<close>

theorem unacknowledged_retried:
  assumes "dm_evaluated d" "reachable_relay co d" "(name, r) \<in> set AllRules" "dm_alerts (Step co ck now s d) name = Some p"
  shows "as_acked p"
  using assms(4) by (intro Step_reachable[OF assms(1,2,3)]) (simp only: fst_conv)

lemma unacknowledged_retried_witness:
  "\<exists>p. dm_alerts (Step demo_codec demo_checkers demo_t (failed_sample demo_t) (demo_daemon None [])) ''service_down'' = Some p \<and> as_acked p"
proof -
  obtain p where "dm_alerts (Step demo_codec demo_checkers demo_t (failed_sample demo_t) (demo_daemon None [])) ''service_down'' = Some p"
    using step_slot[OF demo_evaluated demo_rule] demo_rule_on by (simp add: rule_cfg_def) blast
  with unacknowledged_retried[OF demo_evaluated demo_reachable demo_rule this] show ?thesis by blast
qed

text \<open>Reminders.  A firing alert the relay has accepted, not an informational one, that goes on firing is sent
  again in a step exactly if ten minutes have passed, unless the relay disowns the node meanwhile.\<close>

theorem reminders:
  assumes "dm_evaluated d" "nr \<in> set AllRules" "rc_enabled (rule_cfg d (fst nr))"
    and "dm_alerts d (fst nr) = Some p" "as_firing p" "as_acked p" "\<not> is_zero (as_last_sent p)"
    and "ev_firing (judged ck now nr (take_sample now s d))" "ai_severity (alert_info_of (fst nr)) \<noteq> InfoSev"
    and "\<not> dm_unpaired (Step co ck now s d)"
  shows "\<exists>es. dm_log (Step co ck now s d) = es @ dm_log d \<and>
     ((\<exists>a \<in> fst ` set es. ar_alert a = fst nr) \<longleftrightarrow> time_sub now (as_last_sent p) \<ge> 10 * minute)"
proof -
  define t where "t = take_sample now s d"
  from Step_later[OF assms(1)] obtain es where es: "pass_result ck now AllRules t es (Step co ck now s d)" unfolding t_def by blast
  have w: "wants ck now nr t \<longleftrightarrow> time_sub now (as_last_sent p) \<ge> 10 * minute"
    unfolding Alert_Daemon.ReminderEvery_def[symmetric]
  proof (rule wants_reminder)
    show "rc_enabled (rule_cfg t (fst nr))" "dm_alerts t (fst nr) = Some p" using assms(3,4) by (simp_all add: t_def)
    show "ev_firing (judged ck now nr t)" unfolding t_def by (rule assms(8))
  qed (rule assms)+
  have "map fst es = rev (wanted ck now AllRules t)" by (rule pass_all[OF es assms(10)])
  then have "set (map fst es) = set (wanted ck now AllRules t)" by simp
  then have s: "fst ` set es = (\<lambda>nr. request ck now nr t) ` {nr \<in> set AllRules. wants ck now nr t}" by (simp add: wanted_def)
  have "(\<exists>a \<in> fst ` set es. ar_alert a = fst nr) \<longleftrightarrow> wants ck now nr t"
  proof
    assume "\<exists>a \<in> fst ` set es. ar_alert a = fst nr"
    then obtain nr' where "nr' \<in> set AllRules" "wants ck now nr' t" "fst nr' = fst nr" unfolding s by auto
    with rule_by_name[OF _ assms(2)] show "wants ck now nr t" by metis
  next
    assume "wants ck now nr t"
    with assms(2) have "request ck now nr t \<in> fst ` set es" unfolding s by blast
    then show "\<exists>a \<in> fst ` set es. ar_alert a = fst nr" using request_alert by blast
  qed
  moreover have "dm_log (Step co ck now s d) = es @ dm_log d" using pass_log[OF es] by (simp add: t_def)
  ultimately show ?thesis using w by blast
qed


lemma reminders_witness:
  "\<exists>a \<in> fst ` set (dm_log (Step demo_codec demo_checkers (demo_t + 30 * second) (failed_sample (demo_t + 30 * second)) (demo_daemon (Some demo_old) []))).
     ar_alert a = ''service_down''"
proof -
  let ?now = "demo_t + 30 * second"
  let ?d = "demo_daemon (Some demo_old) []"
  have known: "dm_alerts ?d (fst (''service_down'', serviceDown)) = Some demo_old" by (simp add: demo_daemon_def)
  have old: "as_firing demo_old" "as_acked demo_old" "\<not> is_zero (as_last_sent demo_old)"
    by (simp_all add: demo_old_def is_zero_def demo_t_def minute_def)
  have sev: "ai_severity (alert_info_of (fst (''service_down'', serviceDown))) \<noteq> InfoSev" by (simp add: alert_info_of_def) code_simp
  have on: "rc_enabled (rule_cfg ?d (fst (''service_down'', serviceDown)))" using demo_rule_on by simp
  have late: "time_sub ?now (as_last_sent demo_old) \<ge> 10 * minute"
    by (simp add: demo_old_def time_sub_def minute_def second_def max_int64_def min_int64_def)
  note up = Step_stays_up[OF demo_evaluated demo_reachable demo_heartbeats, where ck = demo_checkers]
  from reminders[OF demo_evaluated demo_rule on known old demo_fires sev up]
  obtain es where "dm_log (Step demo_codec demo_checkers ?now (failed_sample ?now) ?d) = es @ dm_log ?d"
    "(\<exists>a \<in> fst ` set es. ar_alert a = ''service_down'') \<longleftrightarrow> time_sub ?now (as_last_sent demo_old) \<ge> 10 * minute"
    unfolding fst_conv by metis
  then show ?thesis using late by auto
qed


text \<open>An unpaired daemon is silent.  Once the relay has disowned the node, no tick and no reload sends or
  reads anything on the network until a reload brings other credentials.\<close>

theorem unpaired_silent:
  assumes "dm_unpaired d" "\<forall>cfg. Reload (Inr cfg) \<in> set evs \<longrightarrow>
      cf_relay_url cfg = cf_relay_url (dm_cfg d) \<and> cf_node_id cfg = cf_node_id (dm_cfg d) \<and> cf_secret cfg = cf_secret (dm_cfg d)"
  shows "dm_log (foldl (\<lambda>d ev. daemon_step co ev d) d evs) = dm_log d \<and> dm_net (foldl (\<lambda>d ev. daemon_step co ev d) d evs) = dm_net d"
  using assms by (intro unpaired_run) (simp_all add: same_credentials_def)

lemma unpaired_silent_witness:
  "dm_log (foldl (\<lambda>d ev. daemon_step demo_codec ev d) ((demo_daemon None [NotSent ''x''])\<lparr> dm_unpaired := True \<rparr>)
      [Tick demo_t (failed_sample demo_t) demo_checkers, Reload (Inl Unreadable),
       Reload (Inr (demo_config\<lparr> cf_interval := 60 * second \<rparr>))]) = []"
proof -
  let ?d = "(demo_daemon None [NotSent ''x''])\<lparr> dm_unpaired := True \<rparr>"
  have "dm_unpaired ?d" by simp
  from unpaired_silent[OF this, of "[Tick demo_t (failed_sample demo_t) demo_checkers, Reload (Inl Unreadable),
       Reload (Inr (demo_config\<lparr> cf_interval := 60 * second \<rparr>))]" demo_codec]
  show ?thesis by (simp add: demo_daemon_def NewDaemon_def)
qed

section \<open>Node and relay\<close>

text \<open>A signed request as the relay's handler gets it.\<close>

definition on_wire :: "string \<Rightarrow> string \<Rightarrow> signed_request \<Rightarrow> request" where
  "on_wire remote xff sr =
     \<lparr> rq_remote = remote, rq_xff = xff, rq_node = sr_node sr, rq_timestamp = sr_timestamp sr,
       rq_signature = sr_signature sr, rq_body = Some (sr_body sr) \<rparr>"

text \<open>C32. The credentials work.  A configuration holding the node id and the base64 secret the relay handed out
  gives a client, and what this client signs passes the relay's authentication and reaches the handler with
  the node's record and the body as sent, if the clocks differ by less than five minutes less a second, the
  body is within the limit, the store answers and no rate limit is hit.\<close>

theorem credentials_work:
  assumes "sql_inv (sv_store sv)" "sql_up (sv_store sv)" "a_nodes (sql_abs (sv_store sv)) (n_id node) = Some node"
    and "validNodeID (n_id node)" "cf_node_id cfg = n_id node" "cf_secret cfg = base64_encode (n_secret node)"
    and "co_hmac co = e_hmac env" "clock_ok sent" "\<bar>now - sent\<bar> \<le> 299 * second" "int (length body) \<le> MaxBody"
    and "fst (allow now (clientIP (o_trusted opts) remote xff) (sv_admit_limit sv))" "fst (allow now (n_id node) (sv_node_limit sv))"
  shows "\<exists>c sv'. NewClient cfg version = Some c \<and>
     authenticate env opts sqlite_ops now (on_wire remote xff (sign_request co c path body sent)) sv = (Inr (node, body), sv')"
proof -
  obtain c where c: "NewClient cfg version = Some c" "cl_node c = n_id node" "cl_secret c = n_secret node"
    by (simp add: NewClient_def assms(5,6))
  obtain lim where lim: "allow now (clientIP (o_trusted opts) remote xff) (sv_admit_limit sv) = (True, lim)"
    using assms(11) by (cases "allow now (clientIP (o_trusted opts) remote xff) (sv_admit_limit sv)") simp
  obtain r s' where g: "sql_GetNode (n_id node) (sv_store sv) = (r, s')" by (cases "sql_GetNode (n_id node) (sv_store sv)")
  from sql_get_node[OF assms(1) g] assms(2,3) have r: "r = Inr node"
    unfolding get_node_spec_def by (cases r) auto
  obtain lim2 where lim2: "allow now (n_id node) (sv_node_limit sv) = (True, lim2)"
    using assms(12) by (cases "allow now (n_id node) (sv_node_limit sv)") simp
  have tok: "time_ok sent" and u: "in_int64 (unix_of sent)"
    using assms(8) by (auto simp: clock_ok_def time_ok_def unix_of_def unix_to_internal_def in_int64_def min_int64_def max_int64_def second_def)
  have win: "\<bar>now - time_unix (unix_of sent)\<bar> \<le> 5 * minute"
    using unix_roundtrip[OF tok] assms(9) by (simp add: minute_def second_def)
  have ver: "Verify (e_hmac env) (n_secret node) (unix_of sent) body (Sign (e_hmac env) (n_secret node) (unix_of sent) body) now = None"
    by (rule Verify_Sign[OF win])
  have "fst (authenticate env opts sqlite_ops now (on_wire remote xff (sign_request co c path body sent)) sv) = Inr (node, body)"
    using assms(4,10) lim lim2 g r ver parse_show_int[OF u]
    by (simp add: authenticate_def on_wire_def sign_request_def Let_def readBody_def on_store_def c assms(7) sqlite_ops_simps)
  with c(1) show ?thesis by (metis prod.collapse)
qed


lemma credentials_work_witness:
  "\<exists>c sv'. NewClient demo_config ''1.0'' = Some c \<and>
     authenticate demo_env demo_opts sqlite_ops (demo_t + 60 * second)
       (on_wire ''1.2.3.4:5'' [] (sign_request (demo_codec\<lparr> co_hmac := e_hmac demo_env \<rparr>) c ''/v1/alert'' ''{}'' demo_t)) (demo_server [] [])
       = (Inr (demo_node, ''{}''), sv')"
proof -
  have id: "n_id demo_node = ''n_0123456789abcdef''" "n_secret demo_node = ''key''" by (simp_all add: demo_node_def)
  have stored: "a_nodes (sql_abs (sv_store (demo_server [] []))) (n_id demo_node) = Some demo_node"
    using demo_stored by (simp add: id)
  have valid: "validNodeID (n_id demo_node)" unfolding id by code_simp
  have up: "sql_up (sv_store (demo_server [] []))" by (simp add: demo_defs sql_up_def)
  have lim: "fst (allow (demo_t + 60 * second) (clientIP (o_trusted demo_opts) ''1.2.3.4:5'' []) (sv_admit_limit (demo_server [] [])))"
    "fst (allow (demo_t + 60 * second) (n_id demo_node) (sv_node_limit (demo_server [] [])))"
    by code_simp+
  show ?thesis
    by (rule credentials_work[OF demo_inv up stored valid _ _ _ demo_times(2) _ _ lim])
      (simp_all add: demo_config_def id second_def MaxBody_def)
qed

text \<open>Requests of the right form.  Every alert a step tries to send, whatever the rules say, is one the relay
  accepts as valid if its detail is no longer than 2000 bytes.\<close>

theorem alerts_valid:
  assumes "dm_evaluated d" "dm_log (Step co ck now s d) = es @ dm_log d" "a \<in> fst ` set es"
  shows "ValidAlert a \<longleftrightarrow> length (ar_detail a) \<le> 2000"
proof -
  define t where "t = take_sample now s d"
  from Step_later[OF assms(1)] obtain es' where es': "pass_result ck now AllRules t es' (Step co ck now s d)" unfolding t_def by blast
  have "es' = es" using pass_log[OF es'] assms(2) by (simp add: t_def)
  with pass_only_wanted[OF es'] assms(3) obtain nr where nr: "nr \<in> set AllRules" "a = request ck now nr t" by blast
  have "ar_detail a = (if ev_firing (judged ck now nr t) then ev_detail (judged ck now nr t) else [])"
    by (simp add: nr(2) request_def request_for_def)
  then show ?thesis using request_valid[OF nr(1), of ck now t] by (simp add: nr(2))
qed

lemma demo_requested:
  "\<exists>a \<in> fst ` set (dm_log (Step demo_codec demo_checkers (demo_t + 30 * second) (failed_sample (demo_t + 30 * second)) (demo_daemon (Some demo_old) []))).
     ar_alert a = ''service_down''"
proof -
  let ?now = "demo_t + 30 * second"
  let ?d = "demo_daemon (Some demo_old) []"
  define nr where "nr = (''service_down'', serviceDown)"
  define t where "t = take_sample ?now (failed_sample ?now) ?d"
  have nr: "nr \<in> set AllRules" "fst nr = ''service_down''" using demo_rule by (simp_all add: nr_def)
  have up: "\<not> dm_unpaired (Step demo_codec demo_checkers ?now (failed_sample ?now) ?d)"
    by (rule Step_stays_up[OF demo_evaluated demo_reachable demo_heartbeats])
  have "wants demo_checkers ?now nr t \<longleftrightarrow> time_sub ?now (as_last_sent demo_old) \<ge> Alert_Daemon.ReminderEvery"
  proof (rule wants_reminder)
    show "rc_enabled (rule_cfg t (fst nr))" using demo_rule_on by (simp add: t_def nr(2))
    show "dm_alerts t (fst nr) = Some demo_old" by (simp add: t_def nr(2) demo_daemon_def)
    show "as_firing demo_old" "as_acked demo_old" "\<not> is_zero (as_last_sent demo_old)"
      by (simp_all add: demo_old_def is_zero_def demo_t_def minute_def)
    show "ev_firing (judged demo_checkers ?now nr t)" unfolding t_def nr_def by (rule demo_fires)
    show "ai_severity (alert_info_of (fst nr)) \<noteq> InfoSev" unfolding nr(2) by code_simp
  qed
  then have w: "wants demo_checkers ?now nr t"
    by (simp add: demo_old_def Alert_Daemon.ReminderEvery_def time_sub_def minute_def second_def max_int64_def min_int64_def)
  obtain es where es: "pass_result demo_checkers ?now AllRules t es (Step demo_codec demo_checkers ?now (failed_sample ?now) ?d)"
    using Step_later[OF demo_evaluated] unfolding t_def by blast
  have "request demo_checkers ?now nr t \<in> set (wanted demo_checkers ?now AllRules t)" using w nr(1) by (simp add: wanted_def)
  then have "request demo_checkers ?now nr t \<in> set (map fst es)" unfolding pass_all[OF es up] by simp
  then have "request demo_checkers ?now nr t \<in> fst ` set (dm_log (Step demo_codec demo_checkers ?now (failed_sample ?now) ?d))"
    unfolding pass_log[OF es] by auto
  then show ?thesis using request_alert[of demo_checkers ?now nr t] nr(2) by metis
qed

lemma alerts_valid_witness:
  "\<exists>a \<in> fst ` set (dm_log (Step demo_codec demo_checkers (demo_t + 30 * second) (failed_sample (demo_t + 30 * second)) (demo_daemon (Some demo_old) []))).
     ValidAlert a \<longleftrightarrow> length (ar_detail a) \<le> 2000"
proof -
  let ?now = "demo_t + 30 * second"
  let ?d = "demo_daemon (Some demo_old) []"
  obtain a where a: "a \<in> fst ` set (dm_log (Step demo_codec demo_checkers ?now (failed_sample ?now) ?d))" using demo_requested by blast
  have "dm_log (Step demo_codec demo_checkers ?now (failed_sample ?now) ?d) = dm_log (Step demo_codec demo_checkers ?now (failed_sample ?now) ?d) @ dm_log ?d"
    by (simp add: demo_daemon_def NewDaemon_def)
  from alerts_valid[OF demo_evaluated this a] a show ?thesis by blast
qed

text \<open>An informational alert that holds when the daemon starts is never sent.  The first step takes it as known
  and acknowledged, and no later step sends it while it stays as it is, although the documentation of both
  informational alerts says it is sent once.\<close>

theorem update_never_announced:
  assumes "ck_update ck = Some u" "ui_behind u \<or> ui_latest u \<noteq> [] \<and> ck_newer ck (ui_latest u) (ui_running u)"
    and "cf_rules cfg ''update_available'' = Some rc" "rc_enabled rc" "a \<in> fst ` set
       (dm_log (Run co started (sa_taken s0, s0, ck) (map (\<lambda>s. Tick (sa_taken s) s ck) ticks) (NewDaemon cfg c net)))"
  shows "ar_alert a \<noteq> ''update_available''"
proof -
  obtain D where D: "\<And>h rc. h \<noteq> [] \<Longrightarrow> updateAvailable ck h rc = fires D" using updateAvailable_fires[OF assms(1,2)] by blast
  define nr where "nr = (''update_available'', updateAvailable)"
  have nr: "nr \<in> set AllRules" "fst nr = ''update_available''" by (simp_all add: AllRules_def nr_def)
  have info: "ai_severity (alert_info_of (fst nr)) = InfoSev" unfolding nr(2) by code_simp
  have rule: "judged ck (sa_taken s) nr (take_sample (sa_taken s) s d) = fires D" for s d
    using trim_current[of "dm_history d" s] by (simp add: judged_def take_sample_def nr_def D)
  define d0 where "d0 = (NewDaemon cfg c net)\<lparr> dm_started := started \<rparr>"
  have d0: "\<not> dm_evaluated d0" "rc_enabled (rule_cfg d0 (fst nr))" "dm_log d0 = []"
    using assms(3,4) by (simp_all add: d0_def NewDaemon_def rule_cfg_def nr(2))
  have "settled_info (fst nr) D (Step co ck (sa_taken s0) s0 d0)"
  proof -
    define b where "b = (baseline ck (sa_taken s0) AllRules (take_sample (sa_taken s0) s0 d0))\<lparr> dm_evaluated := True \<rparr>"
    have "fst ` set (dm_log (snd (send co (sa_taken s0) (started_request b (sa_taken s0) s0) b))) \<subseteq> {started_request b (sa_taken s0) s0}"
      using send_log[of b co "sa_taken s0" "started_request b (sa_taken s0) s0"] send_unpaired[of b] d0(3)
      by (cases "dm_unpaired b"; cases "send co (sa_taken s0) (started_request b (sa_taken s0) s0) b") (auto simp: b_def)
    moreover have "ar_alert (started_request b (sa_taken s0) s0) \<noteq> fst nr" by (simp add: started_request_def nr(2))
    ultimately have "\<forall>a \<in> fst ` set (dm_log (Step co ck (sa_taken s0) s0 d0)). ar_alert a \<noteq> fst nr"
      using d0(1) by (auto simp: Step_def Let_def b_def)
    moreover have "dm_alerts (Step co ck (sa_taken s0) s0 d0) (fst nr) = Some (first_state (sa_taken s0) (fires D))"
      using Step_first[OF d0(1) nr(1)] d0(2) rule by simp
    ultimately show ?thesis using d0(2) by (simp add: settled_info_def Step_evaluated first_state_def)
  qed
  then have "settled_info (fst nr) D (foldl (\<lambda>d ev. daemon_step co ev d) (Step co ck (sa_taken s0) s0 d0) (map (\<lambda>s. Tick (sa_taken s) s ck) ticks))"
  proof (induction ticks arbitrary: d0 s0 rule: rev_induct)
    case (snoc s ticks)
    then show ?case using settled_info_step[OF nr(1) info rule] by (simp add: daemon_step_def)
  qed simp
  then show ?thesis using assms(5) unfolding settled_info_def Run_def d0_def nr(2) prod.case by blast
qed


lemma update_never_announced_witness:
  "''update_available'' \<notin> (\<lambda>e. ar_alert (fst e)) ` set
     (dm_log (Run demo_codec demo_t (sa_taken (failed_sample demo_t), failed_sample demo_t, demo_checkers)
       (map (\<lambda>s. Tick (sa_taken s) s demo_checkers) [failed_sample (demo_t + 30 * second)]) (NewDaemon demo_config demo_client [])))"
proof -
  let ?u = "\<lparr> ui_latest = [], ui_running = [], ui_behind = True, ui_branch = ''master'' \<rparr> :: update_info"
  have u: "ck_update demo_checkers = Some ?u" by (simp add: demo_checkers_def)
  have new: "ui_behind ?u \<or> ui_latest ?u \<noteq> [] \<and> ck_newer demo_checkers (ui_latest ?u) (ui_running ?u)" by simp
  have rc: "cf_rules demo_config ''update_available'' = Some \<lparr> rc_enabled = True, rc_thresholds = Map.empty \<rparr>"
    by (simp add: demo_config_def)
  have on: "rc_enabled \<lparr> rc_enabled = True, rc_thresholds = Map.empty \<rparr>" by simp
  show ?thesis
  proof
    assume "''update_available'' \<in> (\<lambda>e. ar_alert (fst e)) ` set
     (dm_log (Run demo_codec demo_t (sa_taken (failed_sample demo_t), failed_sample demo_t, demo_checkers)
       (map (\<lambda>s. Tick (sa_taken s) s demo_checkers) [failed_sample (demo_t + 30 * second)]) (NewDaemon demo_config demo_client [])))"
    then obtain e where e: "e \<in> set
     (dm_log (Run demo_codec demo_t (sa_taken (failed_sample demo_t), failed_sample demo_t, demo_checkers)
       (map (\<lambda>s. Tick (sa_taken s) s demo_checkers) [failed_sample (demo_t + 30 * second)]) (NewDaemon demo_config demo_client [])))"
      "''update_available'' = ar_alert (fst e)" by (rule imageE)
    from update_never_announced[OF u new rc on imageI[OF e(1)]] e(2) show False by simp
  qed
qed

end
