(* ===== verification/Node_Claims.thy ===== *)
theory Node_Claims
  imports Alert_Claims
begin

text \<open>
  Properties of the node's side, continued: the configuration and its file, the rules over the history, the sample
  and the readers it is made from.
\<close>

section \<open>Configuration\<close>





text \<open>The file is replaced whole.  A save that reports success leaves the file holding exactly the encoded
  configuration, owned by root and the daemon's group with mode 0640 when root saves and the user exists; a
  save that fails, at whatever call and however much of the data was written, leaves the old file.\<close>

theorem save_replaces_whole:
  assumes "Save encode u euid p c s = (r, s')"
  shows "case r of
       Some e \<Rightarrow> fl_files s' p = fl_files s p
     | None \<Rightarrow> (\<exists>data f. encode c = Some data \<and> fl_files s' p = Some f \<and> fi_data f = data @ [CHR 0x0A] \<and>
         (\<forall>uid gid g. euid = 0 \<and> u = KnownUser uid gid \<and> parse_int gid = Some g \<longrightarrow> fi_uid f = 0 \<and> fi_gid f = g \<and> fi_mode f = 416))"
proof (cases r)
  case (Some e)
  with Save_failed assms show ?thesis by simp
next
  case None
  from Save_published[OF assms[unfolded None]] obtain data s1 s2 s3 where pub: "encode c = Some data" "fl_files s1 = fl_files s"
    "write_file euid (p @ ''.tmp'') (data @ [CHR 0x0A]) 384 s1 = (True, s2)"
    "(if euid = 0 then secureIfUser u (p @ ''.tmp'') s2 else (True, s2)) = (True, s3)"
    "rename_file (p @ ''.tmp'') p s3 = (True, s')" .
  obtain f where f: "fl_files s2 (p @ ''.tmp'') = Some f" "fi_data f = data @ [CHR 0x0A]"
    using write_file_ok[OF pub(3)] by (auto simp: written_def split: option.splits)
  have "\<exists>f'. fl_files s3 (p @ ''.tmp'') = Some f' \<and> fi_data f' = data @ [CHR 0x0A] \<and>
      (\<forall>uid gid g. euid = 0 \<and> u = KnownUser uid gid \<and> parse_int gid = Some g \<longrightarrow> fi_uid f' = 0 \<and> fi_gid f' = g \<and> fi_mode f' = 416)"
    using pub(4) f secureIfUser_ok[of u "p @ ''.tmp''" s2 s3 f] by (cases "euid = 0") auto
  moreover have "fl_files s' p = fl_files s3 (p @ ''.tmp'')" using rename_file_ok[OF pub(5)] by simp
  ultimately show ?thesis using None pub(1) by auto
qed

definition demo_files :: "fault list \<Rightarrow> files" where
  "demo_files script = \<lparr> fl_files = (\<lambda>p. if p = ''/etc/a.json'' then Some \<lparr> fi_data = ''old'', fi_mode = 384, fi_uid = 0, fi_gid = 0 \<rparr> else None),
     fl_script = script \<rparr>"

lemma save_replaces_whole_witness:
  "fl_files (snd (Save (\<lambda>c. Some ''new'') (KnownUser ''7'' ''7'') 0 ''/etc/a.json'' (DefaultConfig []) (demo_files [Works, Partly 2]))) ''/etc/a.json''
     = fl_files (demo_files []) ''/etc/a.json''"
proof -
  obtain r s' where st: "Save (\<lambda>c. Some ''new'') (KnownUser ''7'' ''7'') 0 ''/etc/a.json'' (DefaultConfig []) (demo_files [Works, Partly 2]) = (r, s')"
    by (cases "Save (\<lambda>c. Some ''new'') (KnownUser ''7'' ''7'') 0 ''/etc/a.json'' (DefaultConfig []) (demo_files [Works, Partly 2])")
  moreover from this have "r \<noteq> None"
    by (auto simp: Save_def demo_files_def other_call_def write_file_def next_fault_def)
  ultimately show ?thesis using save_replaces_whole[OF st] by (auto simp: demo_files_def split: option.splits)
qed

section \<open>Rules over the history\<close>

lemma dropWhile_append_weaker:
  "(\<And>x. P x \<Longrightarrow> Q x) \<Longrightarrow> dropWhile Q (dropWhile P xs @ ys) = dropWhile Q (xs @ ys)"
  by (induction xs) auto

lemma trim_again:
  "t \<le> t' \<Longrightarrow> trimHistory (trimHistory h t @ [s]) t' = trimHistory (h @ [s]) t'"
  unfolding trimHistory_def by (rule dropWhile_append_weaker) (simp add: before_def time_add_def)

lemma steps_history:
  assumes "ss \<noteq> []" "sorted (map sa_taken ss)"
  shows "dm_history (foldl (\<lambda>d s. Step co ck (sa_taken s) s d) d ss) = trimHistory (dm_history d @ ss) (sa_taken (newest ss))"
  using assms
proof (induction ss rule: rev_induct)
  case (snoc s ss)
  show ?case
  proof (cases "ss = []")
    case True
    then show ?thesis by (simp add: newest_def)
  next
    case False
    have le: "sa_taken (newest ss) \<le> sa_taken s" using snoc.prems False by (auto simp: sorted_append newest_def)
    have "dm_history (foldl (\<lambda>d s. Step co ck (sa_taken s) s d) d ss) = trimHistory (dm_history d @ ss) (sa_taken (newest ss))"
      using snoc False by (simp add: sorted_append)
    then show ?thesis using trim_again[OF le, of "dm_history d @ ss" s] by (simp add: newest_def)
  qed
qed simp

definition window_rules :: "(string \<times> string \<times> rule) list" where
  "window_rules =
     [(''crash_loop'', ''window_minutes'', crashLoop), (''sync_behind'', ''minutes'', syncBehind),
      (''not_enough_peers'', ''minutes'', notEnoughPeers), (''rpc_unreachable'', ''minutes'', rpcUnreachable),
      (''momentums_stalled'', ''minutes'', momentumsStalled), (''pillar_missed'', ''minutes'', pillarMissed)]"

lemma window_rule_since:
  "(name, k, r) \<in> set window_rules \<Longrightarrow> since h (minutes cfg name k) = since h' (minutes cfg name k) \<Longrightarrow> r ck h cfg = r ck h' cfg"
  by (auto simp: window_rules_def crashLoop_def syncBehind_def notEnoughPeers_def rpcUnreachable_def momentumsStalled_def pillarMissed_def
      simp del: not_all split del: if_split)

text \<open>C33. The history kept is enough.  For each of the six rules with a time window, as long as its threshold is a
  number within the bounds, the bounded history the daemon keeps over its steps gives the same result as the
  whole of the samples ever taken.\<close>

theorem history_enough:
  assumes "(name, k, r) \<in> set window_rules" "Threshold cfg name k = Fin x" "0 \<le> x" "x \<le> 30"
    and "ss \<noteq> []" "sorted (map sa_taken ss)"
  shows "r ck (dm_history (foldl (\<lambda>d s. Step co ck' (sa_taken s) s d) (NewDaemon c cl net) ss)) cfg = r ck ss cfg"
proof (rule window_rule_since[OF assms(1)])
  note m = minutes_range[OF assms(2-4)]
  show "since (dm_history (foldl (\<lambda>d s. Step co ck' (sa_taken s) s d) (NewDaemon c cl net) ss)) (minutes cfg name k) = since ss (minutes cfg name k)"
    unfolding steps_history[OF assms(5,6)] using since_trim[OF assms(5) order_refl] m by (simp add: NewDaemon_def)
qed


definition quiet_sample :: "time \<Rightarrow> int \<Rightarrow> pillar_sample \<Rightarrow> sample" where
  "quiet_sample t height pl =
     \<lparr> sa_taken = t, sa_service = (no_service ''go-zenon'')\<lparr> sv_found := True, sv_active := ''active'' \<rparr>, sa_process = no_process,
       sa_host = \<lparr> ho_load1 = Fin 0, ho_load5 = Fin 0, ho_load15 = Fin 0, ho_mem_total = 0, ho_mem_available = 0,
                   ho_data_dir = [], ho_disk_free = 0, ho_disk_total = 0,
                   ho_pressure = \<lparr> pr_cpu = Fin 0, pr_io = Fin 0, pr_memory = Fin 0 \<rparr> \<rparr>,
       sa_node = (no_node [] [])\<lparr> no_reachable := True, no_current := height, no_pillar := pl \<rparr> \<rparr>"

definition demo_pillar :: "int \<Rightarrow> int \<Rightarrow> pillar_sample" where
  "demo_pillar produced expected =
     \<lparr> pl_configured = True, pl_found = True, pl_name = ''p'', pl_rank = 1, pl_produced = produced, pl_expected = expected,
       pl_weight = [], pl_error = [] \<rparr>"

definition one_minute :: rule_config where
  "one_minute = \<lparr> rc_enabled = True, rc_thresholds = [''minutes'' \<mapsto> Fin 1, ''missed'' \<mapsto> Fin 2] \<rparr>"

lemma one_minute_window: "minutes one_minute name ''minutes'' = 60000000000"
proof -
  have f: "f_of_int 60000000000 = Fin 60000000000" using f_of_int_exact[of 60000000000] by simp
  have t: "to_float (60000000000 :: rat) = Fin 60000000000" using f by (simp add: f_of_int_def)
  have n: "trunc_rat 60000000000 = 60000000000" using trunc_rat_int[of 60000000000] by simp
  show ?thesis by (simp add: minutes_def Threshold_def one_minute_def minute_def f t n in_int64_def min_int64_def max_int64_def)
qed

lemma history_enough_witness:
  "momentumsStalled demo_checkers (dm_history (foldl (\<lambda>d s. Step demo_codec demo_checkers (sa_taken s) s d) (NewDaemon demo_config demo_client [])
      [quiet_sample 1000000000 7 (demo_pillar 0 0), quiet_sample 4000000000000 7 (demo_pillar 0 0)])) one_minute =
   momentumsStalled demo_checkers [quiet_sample 1000000000 7 (demo_pillar 0 0), quiet_sample 4000000000000 7 (demo_pillar 0 0)] one_minute"
proof -
  have r: "(''momentums_stalled'', ''minutes'', momentumsStalled) \<in> set window_rules" by (simp add: window_rules_def)
  have t: "Threshold one_minute ''momentums_stalled'' ''minutes'' = Fin 1" by (simp add: Threshold_def one_minute_def)
  show ?thesis by (rule history_enough[OF r t]) (simp_all add: quiet_sample_def)
qed

lemma sorted_window:
  assumes "sorted (map sa_taken h)" "h \<noteq> []" "0 \<le> d" "d \<le> HistoryWindow"
  shows "since h d = filter (\<lambda>s. sa_taken (newest h) - d \<le> sa_taken s) h"
  using assms by (intro since_sorted)
    (auto simp: HistoryWindow_def MaxWindowMinutes_def minute_def in_int64_def min_int64_def max_int64_def)

text \<open>Stalled momentums.  On samples in order of time, the alert fires exactly if the window covers the
  configured time and there is one height that every sample in it reports, with the service active and the node
  answering, whether or not the ledger answered.\<close>

theorem stalled_exactly:
  assumes "sorted (map sa_taken h)" "h \<noteq> []" "Threshold cfg ''momentums_stalled'' ''minutes'' = Fin x" "0 \<le> x" "x \<le> 30"
    and "d = minutes cfg ''momentums_stalled'' ''minutes''"
  shows "ev_firing (momentumsStalled ck h cfg) \<longleftrightarrow>
     covers (since h d) d \<and>
     (\<exists>height. \<forall>s \<in> set h. sa_taken (newest h) - d \<le> sa_taken s \<longrightarrow>
        sv_active (sa_service s) = ''active'' \<and> no_reachable (sa_node s) \<and> no_current (sa_node s) = height)"
proof -
  note m = minutes_range[OF assms(3-5), folded assms(6)]
  have w: "since h d = filter (\<lambda>s. sa_taken (newest h) - d \<le> sa_taken s) h" using sorted_window[OF assms(1,2)] m by blast
  have hd: "hd (since h d) \<in> set (since h d)" if "covers (since h d) d" using covers_ne[OF that] by blast
  show ?thesis
    unfolding momentumsStalled_iff Let_def assms(6)[symmetric] active_def
    using hd unfolding w by auto
qed

lemma stalled_exactly_witness:
  "ev_firing (momentumsStalled demo_checkers [quiet_sample 0 7 (demo_pillar 0 0), quiet_sample 60000000000 7 (demo_pillar 0 0)] one_minute)"
proof -
  let ?h = "[quiet_sample 0 7 (demo_pillar 0 0), quiet_sample 60000000000 7 (demo_pillar 0 0)]"
  have s: "sorted (map sa_taken ?h)" "?h \<noteq> []" by (simp_all add: quiet_sample_def)
  have t: "Threshold one_minute ''momentums_stalled'' ''minutes'' = Fin 1" by (simp add: Threshold_def one_minute_def)
  have c: "covers (since ?h 60000000000) 60000000000"
    by (simp add: since_def quiet_sample_def newest_def before_def time_add_def wrap64_def covers_def time_sub_def max_int64_def min_int64_def)
  show ?thesis
    using stalled_exactly[OF s t _ _ one_minute_window[symmetric], of demo_checkers] c by (simp add: quiet_sample_def newest_def)
qed

text \<open>No false alarm of missed momentums.  When the alert fires, a window of answered samples within one
  epoch covers the configured time, and over it the pillar produced fewer momentums than were expected of it by at
  least the threshold; an epoch rollover is never taken for missed momentums.\<close>

theorem missed_for_real:
  assumes "ev_firing (pillarMissed ck h cfg)" "counters_ok h"
  shows "\<exists>old w. since h (minutes cfg ''pillar_missed'' ''minutes'') = old @ w \<and>
     covers w (minutes cfg ''pillar_missed'' ''minutes'') \<and> sorted (map expected_of w) \<and>
     (\<forall>s \<in> set w. no_reachable (sa_node s) \<and> pl_found (no_pillar (sa_node s))) \<and>
     f_to_uint64 (Threshold cfg ''pillar_missed'' ''missed'') \<le>
       (expected_of (newest w) - expected_of (hd w)) - (produced_of (newest w) - produced_of (hd w)) \<and>
     produced_of (hd w) \<le> produced_of (newest w)"
  by (rule pillarMissed_sound[OF assms]) blast

lemma demo_missed:
  "ev_firing (pillarMissed demo_checkers [quiet_sample 0 7 (demo_pillar 3 3), quiet_sample 60000000000 7 (demo_pillar 4 9)] one_minute)"
proof -
  have t: "Threshold one_minute ''pillar_missed'' ''missed'' = Fin 2" by (simp add: Threshold_def one_minute_def)
  have n: "trunc_rat 2 = 2" using trunc_rat_int[of 2] by simp
  show ?thesis
    by (simp add: pillarMissed_def one_minute_window Let_def since_def quiet_sample_def newest_def before_def time_add_def wrap64_def covers_def
        time_sub_def max_int64_def min_int64_def expected_of_def produced_of_def demo_pillar_def t
        n wrap_u64_def in_int64_def)
qed

lemma missed_for_real_witness:
  "\<exists>old w. since [quiet_sample 0 7 (demo_pillar 3 3), quiet_sample 60000000000 7 (demo_pillar 4 9)] 60000000000 = old @ w \<and>
     sorted (map expected_of w)"
proof -
  have "counters_ok [quiet_sample 0 7 (demo_pillar 3 3), quiet_sample 60000000000 7 (demo_pillar 4 9)]"
    by (simp add: counters_ok_def expected_of_def produced_of_def quiet_sample_def demo_pillar_def)
  from missed_for_real[OF demo_missed this] show ?thesis unfolding one_minute_window by blast
qed


section \<open>Samples and their readers\<close>

lemma ok_of_iff: "ok_of r = Some a \<longleftrightarrow> r = Inr a"
  by (cases r) simp_all

text \<open>The parallel snapshot.  Whatever the order in which its calls end, the snapshot reports an error exactly
  if one of the four stats calls failed, holds each value that was answered, and a failed ledger call alone is no
  error.\<close>

theorem snapshot_any_order:
  assumes "distinct order" "set order = set (tasks pillar)"
  shows "(sn_err (Snapshot rp order) = None \<longleftrightarrow>
       (\<exists>a b c d. rp_sync rp = Inr a \<and> rp_network rp = Inr b \<and> rp_process rp = Inr c \<and> rp_os rp = Inr d)) \<and>
     sn_sync (Snapshot rp order) = ok_of (rp_sync rp) \<and> sn_network (Snapshot rp order) = ok_of (rp_network rp) \<and>
     sn_process (Snapshot rp order) = ok_of (rp_process rp) \<and> sn_os (Snapshot rp order) = ok_of (rp_os rp) \<and>
     sn_frontier (Snapshot rp order) = ok_of (rp_frontier rp)"
  using Snapshot_ok[OF assms, of rp] by (auto simp: stats_failed_def ok_of_iff)

definition demo_replies :: rpc_replies where
  "demo_replies =
     \<lparr> rp_sync = Inr \<lparr> si_state = Done, si_current = 5, si_target = 5 \<rparr>,
       rp_network = Inr \<lparr> ni_num_peers = 3, ni_peers = [], ni_self = None \<rparr>,
       rp_process = Inr \<lparr> pi_version = ''v'', pi_commit = ''c'' \<rparr>, rp_os = Inr \<lparr> oi_goroutines = 1, oi_cpus = 2 \<rparr>,
       rp_frontier = Inl NullResult, rp_pillar = Inl NullResult \<rparr>"

lemma snapshot_any_order_witness:
  "sn_err (Snapshot demo_replies [TOs, TSync, TFrontier, TProcess, TNetwork]) = None"
proof -
  have o: "distinct [TOs, TSync, TFrontier, TProcess, TNetwork]" "set [TOs, TSync, TFrontier, TProcess, TNetwork] = set (tasks [])"
    by (auto simp: tasks_def)
  show ?thesis using snapshot_any_order[OF o, of demo_replies] by (simp add: demo_replies_def)
qed

text \<open>A sample never stops.  Whatever the files, systemd, the disk and the node answer, in whatever order, taking a
  sample returns one; the values of a snapshot are only read where they are there.\<close>

theorem sample_total:
  assumes "distinct (se_order env)" "set (se_order env) = set (tasks (sm_pillar_name s))"
  shows "\<exists>smp s'. Take env now s = Some (smp, s') \<and> sa_taken smp = now"
  using Take_total[OF assms, of now s] by (auto simp: Take_def Let_def case_prod_beta)

definition no_answers :: sampler_env where
  "no_answers = \<lparr> se_os = \<lparr> ov_file = (\<lambda>_. None), ov_dir = (\<lambda>_. None), ov_is_dir = (\<lambda>_. False) \<rparr>, se_run = (\<lambda>_. Inl ''x''),
     se_time_parse = (\<lambda>_ _. None), se_statfs = (\<lambda>_. None), se_probe = (\<lambda>_. None), se_replies = demo_replies,
     se_order = [TOs, TSync, TFrontier, TProcess, TNetwork] \<rparr>"

lemma sample_total_witness:
  "\<exists>smp s'. Take no_answers demo_t (NewSampler ''go-zenon'' ''/root/.znn'' []) = Some (smp, s')"
proof -
  have o: "distinct (se_order no_answers)"
    "set (se_order no_answers) = set (tasks (sm_pillar_name (NewSampler ''go-zenon'' ''/root/.znn'' [])))"
    by (auto simp: tasks_def no_answers_def NewSampler_def)
  from sample_total[OF o] show ?thesis by blast
qed

text \<open>The mount of a path.  The mount point found is the root or one that a line offers: a file system other than
  tmpfs mounted at the path or above it; and no line offers a longer one.\<close>

theorem mount_point_longest:
  assumes "ov_file os mountinfo = Some data" "ls = fst (scan_lines data)"
  shows "(MountPoint os mountinfo path = ''/'' \<or> (\<exists>l \<in> set ls. \<not> mount_tmpfs l \<and> length (str_fields l) \<ge> 5 \<and>
         MountPoint os mountinfo path = unescapeMount (str_fields l ! 4) \<and> holds (MountPoint os mountinfo path) (clean_path path))) \<and>
     (\<forall>l \<in> set ls. \<not> mount_tmpfs l \<and> length (str_fields l) \<ge> 5 \<and> holds (unescapeMount (str_fields l ! 4)) (clean_path path) \<longrightarrow>
         length (unescapeMount (str_fields l ! 4)) \<le> length (MountPoint os mountinfo path))"
proof -
  have m: "MountPoint os mountinfo path = foldl (mount_line (clean_path path)) ''/'' ls"
    by (simp add: MountPoint_def assms)
  have o: "offers (clean_path path) l = Some mp \<longleftrightarrow>
      \<not> mount_tmpfs l \<and> length (str_fields l) \<ge> 5 \<and> holds mp (clean_path path) \<and> mp = unescapeMount (str_fields l ! 4)" for l mp
    by (auto simp: offers_def Let_def)
  show ?thesis using mount_fold[of "''/''" "clean_path path" ls] unfolding m[symmetric] o by blast
qed

text \<open>Process statistics.  Whatever the command name of a process contains, spaces, newlines and parentheses
  included, the figures read are those of the fields after it.\<close>

theorem stat_any_name:
  assumes "ov_file os (pidPath rt pid ''stat'') = Some (front @ name @ CHR '')'' # rest)" "CHR '')'' \<notin> set rest"
  shows "ReadProcStat os rt pid =
     (if length (str_fields rest) < 20 then None
      else Some \<lparr> pt_utime = parse_uint_val (str_fields rest ! 11), pt_stime = parse_uint_val (str_fields rest ! 12),
                 pt_start = parse_uint_val (str_fields rest ! 19) \<rparr>)"
proof -
  have "parse_stat (front @ name @ CHR '')'' # rest) = parse_stat (CHR '')'' # rest)"
    using parse_stat_name[OF assms(2), of "front @ name"] by simp
  moreover have "last_index (CHR '')'' # rest) (CHR '')'') = Some 0" using last_index_app[OF assms(2), of "[]"] by simp
  ultimately show ?thesis by (simp add: ReadProcStat_def assms(1) parse_stat_def Let_def)
qed

definition mount_view :: os_view where
  "mount_view = \<lparr> ov_file = (\<lambda>p. if p = ''/proc/self/mountinfo''
       then Some (''1 0 8:1 / / rw - ext4 /dev/a rw'' @ [CHR 0x0A] @ ''2 1 0:9 / /root rw - tmpfs tmpfs ro'' @ [CHR 0x0A] @
                  ''3 1 8:2 / /root/.znn rw - xfs /dev/b rw'' @ [CHR 0x0A])
       else if p = ''/proc/7/stat'' then Some (''7 (a) b'' @ '') S 1 7 7 0 -1 4 0 0 0 0 11 22 0 0 20 0 9 0 555 1 1'') else None),
     ov_dir = (\<lambda>_. None), ov_is_dir = (\<lambda>_. False) \<rparr>"

lemma mount_point_longest_witness:
  "length ''/root/.znn'' \<le> length (MountPoint mount_view ''/proc/self/mountinfo'' ''/root/.znn/data'')"
proof -
  obtain data where d: "ov_file mount_view ''/proc/self/mountinfo'' = Some data" by (simp add: mount_view_def)
  have l: "\<exists>l \<in> set (fst (scan_lines (the (ov_file mount_view ''/proc/self/mountinfo'')))). \<not> mount_tmpfs l \<and> length (str_fields l) \<ge> 5 \<and>
      holds (unescapeMount (str_fields l ! 4)) (clean_path ''/root/.znn/data'') \<and> length (unescapeMount (str_fields l ! 4)) = 10"
    by code_simp
  from mount_point_longest[OF d refl, of "''/root/.znn/data''"] l show ?thesis unfolding d option.sel by auto
qed

lemma stat_any_name_witness:
  "ReadProcStat mount_view ''/proc'' 7 = Some \<lparr> pt_utime = 11, pt_stime = 22, pt_start = 555 \<rparr>"
proof -
  have f: "ov_file mount_view (pidPath ''/proc'' 7 ''stat'') =
      Some (''7 '' @ ''(a) b'' @ CHR '')'' # '' S 1 7 7 0 -1 4 0 0 0 0 11 22 0 0 20 0 9 0 555 1 1'')"
    by code_simp
  have n: "CHR '')'' \<notin> set '' S 1 7 7 0 -1 4 0 0 0 0 11 22 0 0 20 0 9 0 555 1 1''" by simp
  show ?thesis unfolding stat_any_name[OF f n] by code_simp
qed

text \<open>Byte counts.  The unit of every 64-bit count is one of the six the code has: the index never leaves the
  table.\<close>

theorem human_bytes_unit:
  assumes "0 \<le> n" "n < 2 ^ 64"
  shows "snd (unit_scale (n div 1024)) < length ''KMGTPE''"
proof -
  have "n div 1024 < 1024 ^ Suc 5" using assms(2) by simp
  moreover have "0 \<le> n div 1024" using assms(1) by simp
  ultimately have "snd (unit_scale (n div 1024)) \<le> 5" using unit_scale_exp by blast
  then show ?thesis by simp
qed

lemma human_bytes_unit_witness: "snd (unit_scale (18446744073709551615 div 1024)) < length ''KMGTPE''"
  by (rule human_bytes_unit) simp_all

end
