(* ===== verification/Go_Host.thy ===== *)
theory Go_Host
  imports Go_Scan "HOL-Library.Sublist"
begin

text \<open>
  The host: a file tree whose calls may fail in the ways named by a script of hazards, and the unit of the node that
  \<^verbatim>\<open>internal/service/service.go\<close> controls through \<^verbatim>\<open>systemctl\<close>.  A path is the list of
  its elements.
\<close>

section \<open>The tree\<close>

type_synonym path = "string list"

datatype inode = Folder | Doc bytes int

type_synonym tree = "path \<Rightarrow> inode option"

text \<open>
  What a call meets: it works, it is refused without an effect, it breaks off half way (a write after some
  bytes, a removal or a copy after the paths named), or, for a move that copies, it fails while it removes the
  source.
\<close>

datatype hazard = Fine | Refused | Halfway nat "path \<Rightarrow> bool" | Leftover "path \<Rightarrow> bool"

text \<open>The outcome of a run of \<^verbatim>\<open>systemctl\<close>: what the unit's state calls for, or an exit code
  of its own, \<open>-1\<close> when it could not be run.\<close>

datatype ctl = AsIs | Exits int

record machine =
  mc_tree :: tree
  mc_hazards :: "hazard list"
  mc_known :: bool
  mc_active :: bool
  mc_ctl :: "ctl list"

definition next_hazard :: "machine \<Rightarrow> hazard \<times> machine" where
  "next_hazard m = (case mc_hazards m of [] \<Rightarrow> (Fine, m) | h # hs \<Rightarrow> (h, m\<lparr> mc_hazards := hs \<rparr>))"

fun fine :: "hazard \<Rightarrow> bool" where
  "fine Fine = True"
| "fine _ = False"

lemma fine_iff [simp]: "fine h \<longleftrightarrow> h = Fine"
  by (cases h) simp_all

definition exists_at :: "machine \<Rightarrow> path \<Rightarrow> bool" where
  "exists_at m p \<longleftrightarrow> p = [] \<or> mc_tree m p \<noteq> None"

definition is_folder :: "machine \<Rightarrow> path \<Rightarrow> bool" where
  "is_folder m p \<longleftrightarrow> p = [] \<or> mc_tree m p = Some Folder"

definition up :: "path \<Rightarrow> path" where "up p = butlast p"

section \<open>Calls\<close>

text \<open>Every call returns whether it worked.\<close>

definition with_folders :: "path list \<Rightarrow> tree \<Rightarrow> tree" where
  "with_folders ps t = (\<lambda>x. if x \<in> set ps \<and> t x = None then Some Folder else t x)"

definition ancestors :: "path \<Rightarrow> path list" where
  "ancestors p = map (\<lambda>n. take n p) [1..<Suc (length p)]"

definition MkdirAll :: "path \<Rightarrow> machine \<Rightarrow> bool \<times> machine" where
  "MkdirAll p m =
     (case next_hazard m of (h, m1) \<Rightarrow>
      if \<exists>q \<in> set (ancestors p). mc_tree m1 q \<noteq> None \<and> mc_tree m1 q \<noteq> Some Folder then (False, m1)
      else case h of
        Fine \<Rightarrow> (True, m1\<lparr> mc_tree := with_folders (ancestors p) (mc_tree m1) \<rparr>)
      | Halfway n S \<Rightarrow> (False, m1\<lparr> mc_tree := with_folders (take n (ancestors p)) (mc_tree m1) \<rparr>)
      | _ \<Rightarrow> (False, m1))"

text \<open>A directory that must be new.\<close>

definition MkdirNew :: "path \<Rightarrow> machine \<Rightarrow> bool \<times> machine" where
  "MkdirNew p m =
     (case next_hazard m of (h, m1) \<Rightarrow>
      if \<not> fine h \<or> exists_at m1 p \<or> \<not> is_folder m1 (up p) then (False, m1)
      else (True, m1\<lparr> mc_tree := (mc_tree m1)(p := Some Folder) \<rparr>))"

definition ReadFile :: "path \<Rightarrow> machine \<Rightarrow> bytes option \<times> machine" where
  "ReadFile p m =
     (case next_hazard m of (h, m1) \<Rightarrow>
      ((case mc_tree m1 p of Some (Doc d _) \<Rightarrow> if fine h then Some d else None | _ \<Rightarrow> None), m1))"

text \<open>Writing to a path that must be new, or over whatever file is there (which keeps its mode).\<close>

definition put :: "path \<Rightarrow> inode option \<Rightarrow> machine \<Rightarrow> machine" where
  "put p i m = m\<lparr> mc_tree := (mc_tree m)(p := i) \<rparr>"

definition WriteNew :: "path \<Rightarrow> int \<Rightarrow> bytes \<Rightarrow> machine \<Rightarrow> bool \<times> machine" where
  "WriteNew p mode data m =
     (case next_hazard m of (h, m1) \<Rightarrow>
      if exists_at m1 p \<or> \<not> is_folder m1 (up p) then (False, m1)
      else case h of
        Fine \<Rightarrow> (True, put p (Some (Doc data mode)) m1)
      | Halfway n S \<Rightarrow> (False, put p (Some (Doc (take n data) mode)) m1)
      | _ \<Rightarrow> (False, m1))"

definition mode_at :: "machine \<Rightarrow> path \<Rightarrow> int \<Rightarrow> int" where
  "mode_at m p mode = (case mc_tree m p of Some (Doc _ old) \<Rightarrow> old | _ \<Rightarrow> mode)"

definition WriteOver :: "path \<Rightarrow> int \<Rightarrow> bytes \<Rightarrow> machine \<Rightarrow> bool \<times> machine" where
  "WriteOver p mode data m =
     (case next_hazard m of (h, m1) \<Rightarrow>
      if is_folder m1 p \<or> \<not> is_folder m1 (up p) then (False, m1)
      else case h of
        Fine \<Rightarrow> (True, put p (Some (Doc data (mode_at m1 p mode))) m1)
      | Halfway n S \<Rightarrow> (False, put p (Some (Doc (take n data) (mode_at m1 p mode))) m1)
      | _ \<Rightarrow> (False, m1))"

definition prune :: "path \<Rightarrow> (path \<Rightarrow> bool) \<Rightarrow> tree \<Rightarrow> tree" where
  "prune p S t = (\<lambda>x. if prefix p x \<and> S x then None else t x)"

definition graft :: "path \<Rightarrow> path \<Rightarrow> (path \<Rightarrow> bool) \<Rightarrow> tree \<Rightarrow> tree" where
  "graft p q S t = (\<lambda>x. if prefix q x \<and> S x then t (p @ drop (length q) x) else t x)"

definition RemoveAll :: "path \<Rightarrow> machine \<Rightarrow> bool \<times> machine" where
  "RemoveAll p m =
     (case next_hazard m of (h, m1) \<Rightarrow>
      case h of
        Fine \<Rightarrow> (True, m1\<lparr> mc_tree := prune p (\<lambda>_. True) (mc_tree m1) \<rparr>)
      | Halfway n S \<Rightarrow> (False, m1\<lparr> mc_tree := prune p S (mc_tree m1) \<rparr>)
      | _ \<Rightarrow> (False, m1))"

text \<open>\<^verbatim>\<open>os.Remove\<close> of a file.\<close>

definition RemoveFile :: "path \<Rightarrow> machine \<Rightarrow> bool \<times> machine" where
  "RemoveFile p m =
     (case next_hazard m of (h, m1) \<Rightarrow>
      case mc_tree m1 p of Some (Doc d mode) \<Rightarrow> if fine h then (True, put p None m1) else (False, m1) | _ \<Rightarrow> (False, m1))"

text \<open>A rename is atomic.  It takes the place of a file by a file, and of nothing by anything.  (An empty
  directory in the way is taken for an obstacle; the callers move directories away first.)\<close>

definition Rename :: "path \<Rightarrow> path \<Rightarrow> machine \<Rightarrow> bool \<times> machine" where
  "Rename p q m =
     (case next_hazard m of (h, m1) \<Rightarrow>
      if \<not> fine h \<or> p = [] \<or> mc_tree m1 p = None \<or> prefix p q \<or> \<not> is_folder m1 (up q) \<or>
         (exists_at m1 q \<and> (is_folder m1 q \<or> is_folder m1 p)) then (False, m1)
      else (True, m1\<lparr> mc_tree := prune p (\<lambda>_. True) (graft p q (\<lambda>_. True) (mc_tree m1)) \<rparr>))"

text \<open>The command \<^verbatim>\<open>mv\<close>, which copies between file systems: into a directory that exists,
  else to the path given.  It removes nothing before all is copied.\<close>

definition Mv :: "path \<Rightarrow> path \<Rightarrow> machine \<Rightarrow> bool \<times> machine" where
  "Mv p q m =
     (case next_hazard m of (h, m1) \<Rightarrow>
      let q' = (if is_folder m1 q then q @ [List.last p] else q) in
      if p = [] \<or> mc_tree m1 p = None \<or> prefix p q' \<or> \<not> is_folder m1 (up q') \<or> exists_at m1 q' then (False, m1)
      else case h of
        Fine \<Rightarrow> (True, m1\<lparr> mc_tree := prune p (\<lambda>_. True) (graft p q' (\<lambda>_. True) (mc_tree m1)) \<rparr>)
      | Halfway n S \<Rightarrow> (False, m1\<lparr> mc_tree := graft p q' S (mc_tree m1) \<rparr>)
      | Leftover S \<Rightarrow> (False, m1\<lparr> mc_tree := prune p S (graft p q' (\<lambda>_. True) (mc_tree m1)) \<rparr>)
      | Refused \<Rightarrow> (False, m1))"

section \<open>The service\<close>

datatype unit_state = Inactive | Active | NotFound

definition ctl_exit :: "int \<Rightarrow> machine \<Rightarrow> int \<times> machine" where
  "ctl_exit normal m =
     (case mc_ctl m of [] \<Rightarrow> (normal, m) | c # cs \<Rightarrow> ((case c of AsIs \<Rightarrow> normal | Exits n \<Rightarrow> n), m\<lparr> mc_ctl := cs \<rparr>))"

definition Status :: "machine \<Rightarrow> unit_state option \<times> machine" where
  "Status m =
     (case ctl_exit (if mc_known m \<and> mc_active m then 0 else 3) m of (c, m1) \<Rightarrow>
      ((if c = 0 then Some Active else if c = 3 then Some Inactive else if c = 4 then Some NotFound else None), m1))"

definition Exists :: "machine \<Rightarrow> bool option \<times> machine" where
  "Exists m =
     (case ctl_exit (if mc_known m then (if mc_active m then 0 else 3) else 4) m of (c, m1) \<Rightarrow>
      ((if c = 0 \<or> c = 3 then Some True else if c = 4 then Some False else None), m1))"

text \<open>The commands that change the unit; exit code 0 is success.\<close>

definition run_ctl :: "bool \<Rightarrow> machine \<Rightarrow> bool \<times> machine" where
  "run_ctl active m =
     (case ctl_exit (if mc_known m then 0 else 5) m of (c, m1) \<Rightarrow>
      if c = 0 then (True, m1\<lparr> mc_active := active \<rparr>) else (False, m1))"

datatype service_error = QueryFailed | NoSuchUnit | StartFailed | StopFailed

definition StartService :: "machine \<Rightarrow> service_error option \<times> machine" where
  "StartService m =
     (case Exists m of
        (None, m1) \<Rightarrow> (Some QueryFailed, m1)
      | (Some False, m1) \<Rightarrow> (Some NoSuchUnit, m1)
      | (Some True, m1) \<Rightarrow>
          (case Status m1 of
             (None, m2) \<Rightarrow> (Some QueryFailed, m2)
           | (Some st, m2) \<Rightarrow>
               if st = Active then (None, m2)
               else case run_ctl True m2 of (ok, m3) \<Rightarrow> ((if ok then None else Some StartFailed), m3)))"

definition StopService :: "machine \<Rightarrow> service_error option \<times> machine" where
  "StopService m =
     (case Status m of
        (None, m1) \<Rightarrow> (Some QueryFailed, m1)
      | (Some st, m1) \<Rightarrow>
          if st \<noteq> Active then (None, m1)
          else case run_ctl False m1 of (ok, m2) \<Rightarrow> ((if ok then None else Some StopFailed), m2))"

datatype restart_error = DuringStop service_error | DuringStart service_error

definition RestartService :: "machine \<Rightarrow> restart_error option \<times> machine" where
  "RestartService m =
     (case StopService m of
        (Some e, m1) \<Rightarrow> (Some (DuringStop e), m1)
      | (None, m1) \<Rightarrow> (case StartService m1 of (Some e, m2) \<Rightarrow> (Some (DuringStart e), m2) | (None, m2) \<Rightarrow> (None, m2)))"

section \<open>What each call leaves alone\<close>

lemmas host_calls = MkdirAll_def ReadFile_def WriteNew_def WriteOver_def RemoveAll_def RemoveFile_def Rename_def Mv_def

lemma next_hazardD:
  assumes "next_hazard m = (h, m1)"
  shows "mc_tree m1 = mc_tree m" "mc_known m1 = mc_known m" "mc_active m1 = mc_active m" "mc_ctl m1 = mc_ctl m"
    "set (mc_hazards m1) \<subseteq> set (mc_hazards m)" "mc_hazards m = [] \<Longrightarrow> h = Fine" "h = Fine \<or> h \<in> set (mc_hazards m)"
  using assms by (auto simp: next_hazard_def split: list.splits)

lemma ctl_exitD:
  assumes "ctl_exit c m = (d, m1)"
  shows "mc_tree m1 = mc_tree m" "mc_known m1 = mc_known m" "mc_active m1 = mc_active m" "mc_hazards m1 = mc_hazards m"
  using assms by (auto simp: ctl_exit_def split: list.splits)

text \<open>The service calls change nothing but the unit.\<close>

lemma Status_frame:
  "Status m = (r, m') \<Longrightarrow> mc_tree m' = mc_tree m \<and> mc_known m' = mc_known m \<and> mc_active m' = mc_active m \<and> mc_hazards m' = mc_hazards m"
  by (auto simp: Status_def dest: ctl_exitD split: prod.splits)

lemma Exists_frame:
  "Exists m = (r, m') \<Longrightarrow> mc_tree m' = mc_tree m \<and> mc_known m' = mc_known m \<and> mc_active m' = mc_active m \<and> mc_hazards m' = mc_hazards m"
  by (auto simp: Exists_def dest: ctl_exitD split: prod.splits)

lemma run_ctl_frame:
  "run_ctl b m = (ok, m') \<Longrightarrow> mc_tree m' = mc_tree m \<and> mc_known m' = mc_known m \<and> mc_hazards m' = mc_hazards m \<and>
     mc_active m' = (if ok then b else mc_active m)"
  by (auto simp: run_ctl_def dest: ctl_exitD split: prod.splits if_splits)

lemma StartService_frame:
  "StartService m = (e, m') \<Longrightarrow> mc_tree m' = mc_tree m \<and> mc_known m' = mc_known m \<and> mc_hazards m' = mc_hazards m"
  by (auto simp: StartService_def dest!: Exists_frame Status_frame run_ctl_frame split: prod.splits option.splits bool.splits if_splits)

lemma StopService_frame:
  "StopService m = (e, m') \<Longrightarrow> mc_tree m' = mc_tree m \<and> mc_known m' = mc_known m \<and> mc_hazards m' = mc_hazards m"
  by (auto simp: StopService_def dest!: Status_frame run_ctl_frame split: prod.splits option.splits if_splits)


text \<open>A call on the tree leaves the unit alone; \<open>host_same\<close> collects what it never changes.\<close>

definition host_same :: "machine \<Rightarrow> machine \<Rightarrow> bool" where
  "host_same m m' \<longleftrightarrow> mc_known m' = mc_known m \<and> mc_active m' = mc_active m \<and> mc_ctl m' = mc_ctl m \<and>
     set (mc_hazards m') \<subseteq> set (mc_hazards m)"

lemma host_same_refl [simp]: "host_same m m" by (simp add: host_same_def)

lemma host_same_trans: "host_same a b \<Longrightarrow> host_same b c \<Longrightarrow> host_same a c"
  by (auto simp: host_same_def)

lemma next_hazard_same: "next_hazard m = (h, m1) \<Longrightarrow> host_same m m1"
  by (auto simp: host_same_def dest: next_hazardD)

lemma tree_update_same [simp]: "host_same m (m1\<lparr> mc_tree := t \<rparr>) = host_same m m1"
  by (simp add: host_same_def)

lemma put_tree [simp]: "mc_tree (put p i m) = (mc_tree m)(p := i)" "host_same m' (put p i m) = host_same m' m"
  by (simp_all add: put_def)

lemma MkdirAll_same: "MkdirAll p m = (ok, m') \<Longrightarrow> host_same m m'"
  by (auto simp: MkdirAll_def dest!: next_hazard_same split: prod.splits if_splits hazard.splits)

lemma MkdirNew_same: "MkdirNew p m = (ok, m') \<Longrightarrow> host_same m m'"
  by (auto simp: MkdirNew_def dest!: next_hazard_same split: prod.splits if_splits)

lemma MkdirNew_tree: "MkdirNew p m = (ok, m') \<Longrightarrow> x \<noteq> p \<Longrightarrow> mc_tree m' x = mc_tree m x"
  by (auto simp: MkdirNew_def dest!: next_hazardD(1) split: prod.splits if_splits)

lemma ReadFile_same: "ReadFile p m = (d, m') \<Longrightarrow> host_same m m' \<and> mc_tree m' = mc_tree m"
  by (auto simp: ReadFile_def dest: next_hazard_same next_hazardD split: prod.splits)

lemma WriteNew_same: "WriteNew p mode data m = (ok, m') \<Longrightarrow> host_same m m'"
  by (auto simp: WriteNew_def dest!: next_hazard_same split: prod.splits if_splits hazard.splits)

lemma WriteOver_same: "WriteOver p mode data m = (ok, m') \<Longrightarrow> host_same m m'"
  by (auto simp: WriteOver_def dest!: next_hazard_same split: prod.splits if_splits hazard.splits)

lemma RemoveAll_same: "RemoveAll p m = (ok, m') \<Longrightarrow> host_same m m'"
  by (auto simp: RemoveAll_def dest!: next_hazard_same split: prod.splits if_splits hazard.splits)

lemma RemoveFile_same: "RemoveFile p m = (ok, m') \<Longrightarrow> host_same m m'"
  by (auto simp: RemoveFile_def dest!: next_hazard_same split: prod.splits if_splits option.splits inode.splits)

lemma Rename_same: "Rename p q m = (ok, m') \<Longrightarrow> host_same m m'"
  by (auto simp: Rename_def dest!: next_hazard_same split: prod.splits if_splits)

lemma Mv_same: "Mv p q m = (ok, m') \<Longrightarrow> host_same m m'"
  by (auto simp: Mv_def Let_def dest!: next_hazard_same split: prod.splits if_splits hazard.splits)

lemmas call_same = MkdirAll_same MkdirNew_same ReadFile_same WriteNew_same WriteOver_same RemoveAll_same RemoveFile_same Rename_same Mv_same

text \<open>Where a call may change the tree.\<close>

lemma set_ancestors: "x \<in> set (ancestors p) \<longleftrightarrow> x \<noteq> [] \<and> prefix x p"
proof
  assume "x \<in> set (ancestors p)"
  then obtain n where "x = take n p" "1 \<le> n" "n \<le> length p" by (auto simp: ancestors_def)
  then show "x \<noteq> [] \<and> prefix x p" by (auto simp: take_is_prefix)
next
  assume "x \<noteq> [] \<and> prefix x p"
  then have "x = take (length x) p" "1 \<le> length x" "length x \<le> length p"
    by (auto simp: prefix_def Suc_le_eq)
  then show "x \<in> set (ancestors p)" unfolding ancestors_def by (force simp: image_iff)
qed

lemma MkdirAll_tree:
  "MkdirAll p m = (ok, m') \<Longrightarrow> mc_tree m' x = mc_tree m x \<or> (mc_tree m x = None \<and> mc_tree m' x = Some Folder \<and> x \<noteq> [] \<and> prefix x p)"
  by (auto simp: MkdirAll_def with_folders_def set_ancestors[symmetric] dest!: next_hazardD(1) in_set_takeD
      split: prod.splits if_splits hazard.splits)

lemma WriteNew_tree: "WriteNew p mode data m = (ok, m') \<Longrightarrow> x \<noteq> p \<Longrightarrow> mc_tree m' x = mc_tree m x"
  by (auto simp: WriteNew_def dest!: next_hazardD(1) split: prod.splits if_splits hazard.splits)

lemma WriteNew_ok: "WriteNew p mode data m = (True, m') \<Longrightarrow> mc_tree m' p = Some (Doc data mode)"
  by (auto simp: WriteNew_def split: prod.splits if_splits hazard.splits)

lemma WriteOver_tree: "WriteOver p mode data m = (ok, m') \<Longrightarrow> x \<noteq> p \<Longrightarrow> mc_tree m' x = mc_tree m x"
  by (auto simp: WriteOver_def dest!: next_hazardD(1) split: prod.splits if_splits hazard.splits)

lemma RemoveAll_tree: "RemoveAll p m = (ok, m') \<Longrightarrow> \<not> prefix p x \<Longrightarrow> mc_tree m' x = mc_tree m x"
  by (auto simp: RemoveAll_def prune_def dest!: next_hazardD(1) split: prod.splits hazard.splits)

lemma RemoveAll_ok: "RemoveAll p m = (True, m') \<Longrightarrow> prefix p x \<Longrightarrow> mc_tree m' x = None"
  by (auto simp: RemoveAll_def prune_def split: prod.splits hazard.splits)

lemma RemoveFile_tree: "RemoveFile p m = (ok, m') \<Longrightarrow> x \<noteq> p \<Longrightarrow> mc_tree m' x = mc_tree m x"
  by (auto simp: RemoveFile_def dest!: next_hazardD(1) split: prod.splits if_splits option.splits inode.splits)

lemma Rename_tree: "Rename p q m = (ok, m') \<Longrightarrow> \<not> prefix p x \<Longrightarrow> \<not> prefix q x \<Longrightarrow> mc_tree m' x = mc_tree m x"
  by (auto simp: Rename_def prune_def graft_def dest!: next_hazardD(1) split: prod.splits if_splits)

lemma Rename_failed: "Rename p q m = (False, m') \<Longrightarrow> mc_tree m' = mc_tree m"
  by (auto simp: Rename_def dest: next_hazardD(1) split: prod.splits if_splits)

lemma Rename_ok:
  assumes "Rename p q m = (True, m')" "\<not> prefix q p"
  shows "mc_tree m' (q @ x) = mc_tree m (p @ x)" "mc_tree m' (p @ x) = None"
proof -
  from assms have t: "mc_tree m' = prune p (\<lambda>_. True) (graft p q (\<lambda>_. True) (mc_tree m))" "\<not> prefix p q"
    by (auto simp: Rename_def dest!: next_hazardD(1) split: prod.splits if_splits)
  have "\<not> prefix p (q @ x)" using assms(2) t(2) prefix_same_cases[of p "q @ x" q] by auto
  then show "mc_tree m' (q @ x) = mc_tree m (p @ x)" by (simp add: t prune_def graft_def)
  show "mc_tree m' (p @ x) = None" by (simp add: t prune_def)
qed

text \<open>Moving to a place that is free.\<close>

lemma Mv_tree:
  "Mv p q m = (ok, m') \<Longrightarrow> \<not> exists_at m q \<Longrightarrow> \<not> prefix p x \<Longrightarrow> \<not> prefix q x \<Longrightarrow> mc_tree m' x = mc_tree m x"
  by (auto simp: Mv_def Let_def prune_def graft_def exists_at_def is_folder_def dest!: next_hazardD(1)
      split: prod.splits if_splits hazard.splits)

lemma Mv_failed:
  assumes "Mv p q m = (False, m')" "\<not> exists_at m q" "\<forall>S. Leftover S \<notin> set (mc_hazards m)" "\<not> prefix q x"
  shows "mc_tree m' x = mc_tree m x"
proof -
  obtain h m1 where n: "next_hazard m = (h, m1)" by (cases "next_hazard m")
  have h: "\<not> (\<exists>S. h = Leftover S)" using next_hazardD(7)[OF n] assms(3) by blast
  have q: "\<not> is_folder m1 q" using assms(2) next_hazardD(1)[OF n] by (auto simp: is_folder_def exists_at_def)
  from assms(1,4) h q n next_hazardD(1)[OF n] show ?thesis
    by (auto simp: Mv_def Let_def graft_def split: if_splits hazard.splits)
qed

lemma Mv_ok:
  assumes "Mv p q m = (True, m')" "\<not> exists_at m q" "\<not> prefix q p"
  shows "mc_tree m' (q @ x) = mc_tree m (p @ x)" "mc_tree m' (p @ x) = None"
proof -
  obtain h m1 where n: "next_hazard m = (h, m1)" by (cases "next_hazard m")
  have q: "\<not> is_folder m1 q" using assms(2) next_hazardD(1)[OF n] by (auto simp: is_folder_def exists_at_def)
  from assms(1) q n next_hazardD(1)[OF n]
  have t: "mc_tree m' = prune p (\<lambda>_. True) (graft p q (\<lambda>_. True) (mc_tree m))" "\<not> prefix p q"
    by (auto simp: Mv_def Let_def split: if_splits hazard.splits)
  have "\<not> prefix p (q @ x)" using assms(3) t(2) prefix_same_cases[of p "q @ x" q] by auto
  then show "mc_tree m' (q @ x) = mc_tree m (p @ x)" by (simp add: t prune_def graft_def)
  show "mc_tree m' (p @ x) = None" by (simp add: t prune_def)
qed

end
