(* ===== verification/Restore_Archive.thy ===== *)
theory Restore_Archive
  imports Go_Host
begin

text \<open>
  Backup archives (\<^verbatim>\<open>internal/restore/archive.go\<close>): what an entry's name stands for, the
  inspection and the extraction.  Decompression and the tar reader are a parameter that yields the entries; the
  process umask is not applied to modes.
\<close>

section \<open>The archive\<close>

definition Folders :: "string list" where
  "Folders = [''nom'', ''network'', ''consensus'', ''cache'']"

text \<open>
  What the tar reader yields: the entries of a gzip archive and whether the stream ends well, or no gzip at
  all.  The data of an entry is followed by whether it could be read to its end.
\<close>

datatype entry_type = DirEntry | RegEntry | OtherEntry

record tar_entry =
  te_name :: string
  te_type :: entry_type
  te_mode :: int
  te_size :: int
  te_data :: bytes
  te_whole :: bool

datatype tar_stream = NotGzip | Stream "tar_entry list" bool

datatype archive_error =
    CannotOpen
  | NoGzip
  | ReadError
  | Escapes string
  | OutsideFolders string
  | NotFileOrDir string
  | FileForFolder string string
  | NoFolders
  | ExtractError

text \<open>The folder and the path inside it; both empty for the root of the archive.\<close>

definition entryPath :: "string \<Rightarrow> (archive_error, string \<times> string) result" where
  "entryPath name =
     (let clean0 = clean_path (''/'' @ name) in
      if has_prefix clean0 ''/..'' then Inl (Escapes name)
      else
        let clean = trim_prefix clean0 ''/'' in
        if clean = [] \<or> clean = ''.'' then Inr ([], [])
        else case cut_on (CHR ''/'') clean of (folder, rel, _) \<Rightarrow>
          if folder \<in> set Folders then Inr (folder, rel) else Inl (OutsideFolders name))"

text \<open>The walk over the entries, with the state its callback keeps.\<close>

fun walk_entries :: "(tar_entry \<Rightarrow> 's \<Rightarrow> archive_error option \<times> 's) \<Rightarrow> bool \<Rightarrow> tar_entry list \<Rightarrow> 's \<Rightarrow> archive_error option \<times> 's" where
  "walk_entries fn ends [] s = ((if ends then None else Some ReadError), s)"
| "walk_entries fn ends (e # es) s =
     (case fn e s of (Some err, s1) \<Rightarrow> (Some err, s1) | (None, s1) \<Rightarrow> walk_entries fn ends es s1)"

definition walk :: "(bytes \<Rightarrow> tar_stream) \<Rightarrow> bytes option \<Rightarrow> (tar_entry \<Rightarrow> 's \<Rightarrow> archive_error option \<times> 's) \<Rightarrow> 's \<Rightarrow> archive_error option \<times> 's" where
  "walk untar file fn s =
     (case file of None \<Rightarrow> (Some CannotOpen, s)
      | Some data \<Rightarrow> (case untar data of NotGzip \<Rightarrow> (Some NoGzip, s) | Stream es ends \<Rightarrow> walk_entries fn ends es s))"

section \<open>Inspection\<close>

record manifest =
  mf_folders :: "string list"
  mf_uncompressed :: int
  mf_files :: int

record tally =
  ta_present :: "string list"
  ta_size :: int
  ta_files :: int

definition inspect_entry :: "tar_entry \<Rightarrow> tally \<Rightarrow> archive_error option \<times> tally" where
  "inspect_entry e t =
     (case entryPath (te_name e) of
        Inl err \<Rightarrow> (Some err, t)
      | Inr (folder, rel) \<Rightarrow>
          if folder = [] then (None, t)
          else
            let seen = t\<lparr> ta_present := folder # ta_present t \<rparr> in
            case te_type e of
              DirEntry \<Rightarrow> (None, seen)
            | RegEntry \<Rightarrow>
                if rel = [] then (Some (FileForFolder (te_name e) folder), t)
                else (None, seen\<lparr> ta_files := ta_files t + 1, ta_size := wrap64 (ta_size t + te_size e) \<rparr>)
            | OtherEntry \<Rightarrow> (Some (NotFileOrDir (te_name e)), t))"

definition Inspect :: "(bytes \<Rightarrow> tar_stream) \<Rightarrow> bytes option \<Rightarrow> (archive_error, manifest) result" where
  "Inspect untar file =
     (case walk untar file inspect_entry \<lparr> ta_present = [], ta_size = 0, ta_files = 0 \<rparr> of
        (Some err, _) \<Rightarrow> Inl err
      | (None, t) \<Rightarrow>
          let folders = filter (\<lambda>f. f \<in> set (ta_present t)) Folders in
          if folders = [] then Inl NoFolders
          else Inr \<lparr> mf_folders = folders, mf_uncompressed = ta_size t, mf_files = ta_files t \<rparr>)"

section \<open>Extraction\<close>

text \<open>\<^verbatim>\<open>filepath.Join(dst, folder, rel)\<close> for a relative path that is clean already.\<close>

definition target_of :: "path \<Rightarrow> string \<Rightarrow> string \<Rightarrow> path" where
  "target_of dst folder rel = dst @ folder # filter (\<lambda>e. e \<noteq> []) (split_on (CHR ''/'') rel)"

definition extract_entry :: "path \<Rightarrow> tar_entry \<Rightarrow> machine \<Rightarrow> archive_error option \<times> machine" where
  "extract_entry dst e m =
     (case entryPath (te_name e) of
        Inl err \<Rightarrow> (Some err, m)
      | Inr (folder, rel) \<Rightarrow>
          if folder = [] then (None, m)
          else
            let target = target_of dst folder rel in
            case te_type e of
              DirEntry \<Rightarrow> (case MkdirAll target m of (ok, m1) \<Rightarrow> ((if ok then None else Some ExtractError), m1))
            | RegEntry \<Rightarrow>
                if rel = [] then (Some (FileForFolder (te_name e) folder), m)
                else (case MkdirAll (up target) m of (ok, m1) \<Rightarrow>
                  if \<not> ok then (Some ExtractError, m1)
                  else
                    let mode = (if te_mode e mod 512 = 0 then 420 else te_mode e mod 512) in
                    case WriteNew target mode (te_data e) m1 of (ok, m2) \<Rightarrow>
                      ((if ok \<and> te_whole e then None else Some ExtractError), m2))
            | OtherEntry \<Rightarrow> (Some (NotFileOrDir (te_name e)), m))"

definition Extract :: "(bytes \<Rightarrow> tar_stream) \<Rightarrow> bytes option \<Rightarrow> path \<Rightarrow> machine \<Rightarrow> archive_error option \<times> machine" where
  "Extract untar file dst m = walk untar file (extract_entry dst) m"

section \<open>Nothing outside the folders\<close>

text \<open>Whatever the name of an entry, it is refused, is the root, or leads into one of the folders over elements none of
  which is blank, a dot or a pair of dots.\<close>

lemma cut_on_none: "c \<notin> set s \<Longrightarrow> cut_on c s = (s, [], False)"
  by (simp add: cut_on_def index_byte_None[THEN iffD2])

lemma cut_join:
  "c \<notin> set w \<Longrightarrow> cut_on c (join_with [c] (w # ws)) = (w, join_with [c] ws, ws \<noteq> [])"
  by (cases ws) (simp_all add: cut_on_none cut_on_found)

lemma split_join: "ws \<noteq> [] \<Longrightarrow> \<forall>w \<in> set ws. c \<notin> set w \<Longrightarrow> split_on c (join_with [c] ws) = ws"
proof (induction ws rule: induct_list012)
  case (2 w)
  then show ?case by (simp add: split_on_single)
next
  case (3 w v ws)
  then show ?case by (simp add: split_on_append)
qed simp

lemma clean_elems_all:
  "list_all P acc \<Longrightarrow> list_all P es \<Longrightarrow> P ''..'' \<Longrightarrow> list_all P (clean_elems rooted acc es)"
  by (induction rooted acc es rule: clean_elems.induct) (auto simp: list_all_iff split: list.splits)

text \<open>The elements of a path under a virtual root.\<close>

definition rooted_elems :: "string \<Rightarrow> string list" where
  "rooted_elems name = clean_elems True [] (split_on (CHR ''/'') (''/'' @ name))"

definition safe_elem :: "string \<Rightarrow> bool" where
  "safe_elem e \<longleftrightarrow> plain_elem e \<and> CHR ''/'' \<notin> set e"

lemma rooted_elems_safe: "list_all safe_elem (rooted_elems name)"
proof -
  have "list_all plain_elem (rooted_elems name)" unfolding rooted_elems_def by (rule clean_elems_rooted) simp
  moreover have "list_all (\<lambda>e. CHR ''/'' \<notin> set e) (rooted_elems name)"
    unfolding rooted_elems_def by (rule clean_elems_all) (auto simp: list_all_iff dest: split_on_no_sep)
  ultimately show ?thesis by (auto simp: list_all_iff safe_elem_def)
qed

lemma clean_rooted: "clean_path (''/'' @ name) = ''/'' @ join_with ''/'' (rooted_elems name)"
  by (simp add: clean_path_def is_abs_path_def has_prefix_def rooted_elems_def Let_def)

lemma rel_elems:
  "list_all safe_elem ws \<Longrightarrow> filter (\<lambda>e. e \<noteq> []) (split_on (CHR ''/'') (join_with ''/'' ws)) = ws"
proof (cases "ws = []")
  case False
  assume "list_all safe_elem ws"
  then have "\<forall>w \<in> set ws. CHR ''/'' \<notin> set w" "filter (\<lambda>e. e \<noteq> []) ws = ws"
    by (auto simp: list_all_iff safe_elem_def plain_elem_def filter_id_conv)
  with False split_join[of ws] show ?thesis by simp
qed simp

lemma join_ne: "list_all safe_elem ws \<Longrightarrow> join_with ''/'' ws = [] \<longleftrightarrow> ws = []"
  by (cases ws rule: list.exhaust; cases "tl ws") (auto simp: safe_elem_def plain_elem_def)

lemma entryPath_cases:
  assumes "entryPath name = Inr (folder, rel)"
  shows "folder = [] \<and> rel = [] \<or>
    folder \<in> set Folders \<and> rooted_elems name = folder # tl (rooted_elems name) \<and> rel = join_with ''/'' (tl (rooted_elems name))"
proof -
  note safe = rooted_elems_safe[of name]
  have t: "trim_prefix (''/'' @ join_with ''/'' (rooted_elems name)) ''/'' = join_with ''/'' (rooted_elems name)"
    by (simp add: trim_prefix_def has_prefix_def)
  note run = assms[unfolded entryPath_def clean_rooted Let_def t]
  show ?thesis
  proof (cases "rooted_elems name")
    case Nil
    then show ?thesis using run by (auto split: if_splits)
  next
    case (Cons w ws)
    have w: "CHR ''/'' \<notin> set w" using safe by (simp add: Cons safe_elem_def)
    have "join_with ''/'' (w # ws) \<noteq> []" using join_ne[OF safe] by (simp add: Cons)
    with run show ?thesis unfolding Cons cut_join[OF w] by (auto split: if_splits)
  qed
qed

lemma target_elems:
  assumes "entryPath name = Inr (folder, rel)" "folder \<noteq> []"
  shows "folder \<in> set Folders" "target_of dst folder rel = dst @ rooted_elems name"
proof -
  from entryPath_cases[OF assms(1)] assms(2) have c: "folder \<in> set Folders"
    "rooted_elems name = folder # tl (rooted_elems name)" "rel = join_with ''/'' (tl (rooted_elems name))" by blast+
  then show "folder \<in> set Folders" by blast
  obtain ws where ws: "rooted_elems name = folder # ws" using c(2) by blast
  have "list_all safe_elem (tl (rooted_elems name))" using rooted_elems_safe[of name] by (simp add: ws)
  then have "filter (\<lambda>e. e \<noteq> []) (split_on (CHR ''/'') rel) = tl (rooted_elems name)" unfolding c(3) by (rule rel_elems)
  then show "target_of dst folder rel = dst @ rooted_elems name" unfolding target_of_def using c(2) by metis
qed

text \<open>The places an extraction may touch: below a folder of the destination over safe elements, and the directories that
  lead to the destination.\<close>

definition may_touch :: "path \<Rightarrow> path \<Rightarrow> bool" where
  "may_touch dst x \<longleftrightarrow> prefix x dst \<or> (\<exists>folder es. folder \<in> set Folders \<and> list_all safe_elem es \<and> x = dst @ folder # es)"

lemma prefix_of_target:
  assumes "folder \<in> set Folders" "list_all safe_elem (folder # es)" "prefix x (dst @ folder # es)"
  shows "may_touch dst x"
proof (cases "prefix x dst")
  case False
  with assms(3) obtain ys where ys: "x = dst @ ys" "prefix ys (folder # es)" by (auto simp: prefix_append)
  with False obtain zs where "ys = folder # zs" "prefix zs es" by (cases ys) auto
  moreover from this have "list_all safe_elem zs" using assms(2) by (auto simp: list_all_iff dest: set_mono_prefix)
  ultimately show ?thesis using ys assms(1) by (auto simp: may_touch_def)
qed (simp add: may_touch_def)

lemma extract_entry_touch:
  assumes "extract_entry dst e m = (r, m')" "\<not> may_touch dst x"
  shows "mc_tree m' x = mc_tree m x"
proof (cases "entryPath (te_name e)")
  case (Inl err)
  with assms(1) show ?thesis by (simp add: extract_entry_def)
next
  case (Inr fr)
  obtain folder rel where fr: "fr = (folder, rel)" by (cases fr)
  note ep = Inr[unfolded fr]
  show ?thesis
  proof (cases "folder = []")
    case True
    with assms(1) ep show ?thesis by (simp add: extract_entry_def)
  next
    case False
    note te = target_elems(1)[OF ep False] target_elems(2)[OF ep False, of dst]
    obtain es where es: "rooted_elems (te_name e) = folder # es"
      using entryPath_cases[OF ep] False by blast
    have safe: "list_all safe_elem (folder # es)" using rooted_elems_safe[of "te_name e"] by (simp only: es)
    have no: "\<not> prefix x (target_of dst folder rel)"
      using prefix_of_target[OF te(1) safe, of x dst] assms(2) unfolding te(2) es by blast
    then have no2: "\<not> prefix x (up (target_of dst folder rel))" "x \<noteq> target_of dst folder rel"
      by (auto simp: up_def dest: prefix_order.trans[OF _ prefixeq_butlast])
    show ?thesis
    proof (cases "te_type e")
      case DirEntry
      with assms(1) ep False MkdirAll_tree[where p = "target_of dst folder rel" and m = m and x = x] no show ?thesis
        by (auto simp: extract_entry_def Let_def split: prod.splits)
    next
      case RegEntry
      obtain ok m1 where mk: "MkdirAll (up (target_of dst folder rel)) m = (ok, m1)"
        by (cases "MkdirAll (up (target_of dst folder rel)) m")
      have t1: "mc_tree m1 x = mc_tree m x" using MkdirAll_tree[OF mk, of x] no2(1) by blast
      show ?thesis using assms(1) ep False RegEntry mk t1 WriteNew_tree[OF _ no2(2)]
        by (auto simp: extract_entry_def Let_def split: prod.splits if_splits)
    next
      case OtherEntry
      with assms(1) ep False show ?thesis by (simp add: extract_entry_def Let_def)
    qed
  qed
qed

lemma walk_inv:
  assumes "walk untar file fn s = (r, s')" "\<And>e s r s'. fn e s = (r, s') \<Longrightarrow> P s \<Longrightarrow> P s'" "P s"
  shows "P s'"
proof -
  have "walk_entries fn ends es s = (r, s') \<Longrightarrow> P s \<Longrightarrow> P s'" for ends es s
  proof (induction es arbitrary: s)
    case (Cons e es)
    obtain r1 s1 where f: "fn e s = (r1, s1)" by (cases "fn e s")
    with Cons assms(2)[OF f] show ?case by (auto split: option.splits)
  qed simp
  with assms(1,3) show ?thesis by (auto simp: walk_def split: option.splits tar_stream.splits)
qed

lemma Extract_touch:
  assumes "Extract untar file dst m = (r, m')" "\<not> may_touch dst x"
  shows "mc_tree m' x = mc_tree m x"
  using assms(1) unfolding Extract_def
  by (rule walk_inv[where P = "\<lambda>m1. mc_tree m1 x = mc_tree m x"]) (auto simp: extract_entry_touch[OF _ assms(2)])

lemma extract_entry_same: "extract_entry dst e m = (r, m') \<Longrightarrow> host_same m m'"
  by (auto simp: extract_entry_def Let_def dest!: MkdirAll_same WriteNew_same dest: host_same_trans
      split: sum.splits prod.splits if_splits entry_type.splits)

lemma Extract_same: "Extract untar file dst m = (r, m') \<Longrightarrow> host_same m m'"
  unfolding Extract_def
  by (erule walk_inv[where P = "\<lambda>m1. host_same m m1"]) (auto dest: extract_entry_same host_same_trans)

end
