(* ===== verification/Swap_Space.thy ===== *)
theory Swap_Space
  imports Go_Host
begin

text \<open>
  Moving entries of a directory aside and back: what the folders of \<^verbatim>\<open>internal/restore/restore.go\<close> and the wallet files of
  \<^verbatim>\<open>internal/walletbackup/walletbackup.go\<close> have in common.  An entry \<open>f\<close> of the directory \<open>data\<close> is parked at \<open>dst f\<close>.
\<close>

section \<open>Places that do not overlap\<close>

lemma parallel_sym: "p \<parallel> q \<Longrightarrow> q \<parallel> p"
  by (auto simp: parallel_def)

lemma parallel_not: "p \<parallel> q \<Longrightarrow> \<not> prefix p (q @ x) \<and> \<not> prefix q (p @ x)"
  unfolding parallel_def by (meson prefixI prefix_same_cases)

lemma sibling_parallel: "f \<noteq> g \<Longrightarrow> (data @ [f]) \<parallel> (data @ [g])"
  by (auto simp: parallel_def prefix_def)

lemma exists_new: "p \<noteq> [] \<Longrightarrow> mc_tree m p = None \<Longrightarrow> \<not> exists_at m p"
  by (simp add: exists_at_def)

definition parking :: "path \<Rightarrow> (string \<Rightarrow> path) \<Rightarrow> string set \<Rightarrow> bool" where
  "parking data dst F \<longleftrightarrow> (\<forall>f g. f \<noteq> g \<longrightarrow> dst f \<parallel> dst g) \<and> (\<forall>f \<in> F. \<forall>g. (data @ [f]) \<parallel> dst g)"

lemma parking_mono: "parking data dst F \<Longrightarrow> G \<subseteq> F \<Longrightarrow> parking data dst G"
  by (auto simp: parking_def)

lemma parking_apart:
  assumes "parking data dst F"
  shows "f \<in> F \<Longrightarrow> \<not> prefix (data @ [f]) (dst g @ x)" "f \<in> F \<Longrightarrow> \<not> prefix (dst g) (data @ f # x)"
    "g \<noteq> f \<Longrightarrow> \<not> prefix (dst g) (dst f @ x) \<and> \<not> prefix (dst f) (dst g @ x)"
    "f \<in> F \<Longrightarrow> \<not> prefix (dst g) (data @ [f])" "f \<in> F \<Longrightarrow> \<not> prefix (data @ [f]) (dst g)"
proof -
  show "g \<noteq> f \<Longrightarrow> \<not> prefix (dst g) (dst f @ x) \<and> \<not> prefix (dst f) (dst g @ x)"
    using assms parallel_not[of "dst g" "dst f" x] by (simp add: parking_def)
  assume "f \<in> F"
  then have p: "(data @ [f]) \<parallel> dst g" using assms by (simp add: parking_def)
  from parallel_not[OF p, of x] parallel_not[OF p, of "[]"]
  show "\<not> prefix (data @ [f]) (dst g @ x)" "\<not> prefix (dst g) (data @ f # x)" "\<not> prefix (dst g) (data @ [f])" "\<not> prefix (data @ [f]) (dst g)"
    by simp_all
qed

section \<open>Aside\<close>

text \<open>What moving aside does: the moved entries are whole at their new places, and nothing else but these places and the
  rubbish of a copy that broke off is touched; when it is done, all that should move have moved.\<close>

definition aside_ok :: "path \<Rightarrow> (string \<Rightarrow> path) \<Rightarrow> (string \<Rightarrow> bool) \<Rightarrow> string list \<Rightarrow> bool \<Rightarrow> (string \<times> path) list \<Rightarrow> machine \<Rightarrow> machine \<Rightarrow> bool" where
  "aside_ok data dst P fs e new m m' \<longleftrightarrow>
     host_same m m' \<and> distinct (map fst new) \<and>
     (\<forall>f d. (f, d) \<in> set new \<longrightarrow> f \<in> set fs \<and> d = dst f \<and> (\<forall>x. mc_tree m' (d @ x) = mc_tree m (data @ f # x)) \<and>
        (\<forall>x. mc_tree m' (data @ f # x) = None)) \<and>
     (\<forall>y. (\<forall>f \<in> fst ` set new. \<not> prefix (data @ [f]) y) \<longrightarrow> (\<forall>f \<in> set fs. \<not> prefix (dst f) y) \<longrightarrow> mc_tree m' y = mc_tree m y) \<and>
     (e \<longrightarrow> (\<forall>f \<in> set fs. P f \<longrightarrow> f \<in> fst ` set new))"

lemma aside_none:
  assumes "host_same m m'" "\<And>y. (\<forall>f \<in> set fs. \<not> prefix (dst f) y) \<Longrightarrow> mc_tree m' y = mc_tree m y" "\<not> e"
  shows "aside_ok data dst P fs e [] m m'"
  using assms by (auto simp: aside_ok_def)

lemma aside_nil: "aside_ok data dst P [] e [] m m"
  by (simp add: aside_ok_def)

lemma aside_skip:
  "aside_ok data dst P fs e new m m' \<Longrightarrow> \<not> P f \<Longrightarrow> aside_ok data dst P (f # fs) e new m m'"
  by (auto simp: aside_ok_def)

lemma aside_step:
  assumes rest: "aside_ok data dst Q fs e new m1 m'"
    and PQ: "\<And>g. g \<in> set fs \<Longrightarrow> P g \<Longrightarrow> Q g"
    and same: "host_same m m1"
    and frame: "\<And>y. \<not> prefix (data @ [f]) y \<Longrightarrow> \<not> prefix (dst f) y \<Longrightarrow> mc_tree m1 y = mc_tree m y"
    and moved: "\<And>x. mc_tree m1 (dst f @ x) = mc_tree m (data @ f # x)" "\<And>x. mc_tree m1 (data @ f # x) = None"
    and fresh: "f \<notin> set fs"
    and apart: "parking data dst (set (f # fs))"
  shows "aside_ok data dst P (f # fs) e ((f, dst f) # new) m m'"
proof -
  note r = rest[unfolded aside_ok_def]
  have r4: "\<forall>f d. (f, d) \<in> set new \<longrightarrow> f \<in> set fs \<and> d = dst f \<and> (\<forall>x. mc_tree m' (d @ x) = mc_tree m1 (data @ f # x)) \<and>
        (\<forall>x. mc_tree m' (data @ f # x) = None)"
    and r5: "\<forall>y. (\<forall>f \<in> fst ` set new. \<not> prefix (data @ [f]) y) \<longrightarrow> (\<forall>f \<in> set fs. \<not> prefix (dst f) y) \<longrightarrow> mc_tree m' y = mc_tree m1 y"
    using r by - (elim conjE, assumption)+
  have new4: "g \<in> set fs" "d = dst g" "mc_tree m' (d @ x) = mc_tree m1 (data @ g # x)" "mc_tree m' (data @ g # x) = None"
    if "(g, d) \<in> set new" for g d x
    using r4 that by (elim allE impE; simp)+
  have sub: "fst ` set new \<subseteq> set fs" using new4(1) by force
  have new5: "mc_tree m' y = mc_tree m1 y"
    if "\<And>g. g \<in> set fs \<Longrightarrow> \<not> prefix (data @ [g]) y \<and> \<not> prefix (dst g) y" for y
    by (rule r5[rule_format]) (use that sub in blast)+
  have other: "\<not> prefix (data @ [g]) (data @ f # x) \<and> \<not> prefix (dst g) (data @ f # x)
     \<and> \<not> prefix (data @ [g]) (dst f @ x) \<and> \<not> prefix (dst g) (dst f @ x)
     \<and> \<not> prefix (data @ [f]) (data @ g # x) \<and> \<not> prefix (dst f) (data @ g # x)"
    if "g \<in> set fs" for g x
  proof -
    have ne: "g \<noteq> f" "f \<noteq> g" using that fresh by blast+
    have pf: "f \<in> set (f # fs)" "g \<in> set (f # fs)" using that by simp_all
    from parallel_not[OF sibling_parallel[OF ne(1), of data], of x] parking_apart(3)[OF apart ne(1), of x]
    show ?thesis using parking_apart(1,2)[OF apart pf(1), of g x] parking_apart(1,2)[OF apart pf(2), of f x] by simp
  qed
  have d_f: "mc_tree m' (dst f @ x) = mc_tree m (data @ f # x)" for x
    using new5[of "dst f @ x"] other moved(1) by simp
  have s_f: "mc_tree m' (data @ f # x) = None" for x
    using new5[of "data @ f # x"] other moved(2) by simp
  have g_same: "mc_tree m1 (data @ g # x) = mc_tree m (data @ g # x)" if "g \<in> set fs" for g x
    using frame[of "data @ g # x"] other[OF that] by simp
  show ?thesis
    unfolding aside_ok_def
  proof (intro conjI allI impI ballI)
    show "host_same m m'" using host_same_trans[OF same] r by blast
    have "f \<notin> fst ` set new" using new4(1) fresh by force
    then show "distinct (map fst ((f, dst f) # new))" using r by simp
    fix g d assume gd: "(g, d) \<in> set ((f, dst f) # new)"
    consider "g = f" "d = dst f" | "(g, d) \<in> set new" using gd by auto
    note c = this
    show "g \<in> set (f # fs)" using c by cases (simp_all add: new4(1))
    show "d = dst g" using c by cases (simp_all add: new4(2))
    fix x
    show "mc_tree m' (d @ x) = mc_tree m (data @ g # x)" using c
    proof cases
      case 2
      from new4(3)[OF this, of x] g_same[OF new4(1)[OF this]] show ?thesis by simp
    qed (simp add: d_f)
    show "mc_tree m' (data @ g # x) = None" using c by cases (simp_all add: s_f new4(4))
  next
    fix y assume y: "\<forall>g \<in> fst ` set ((f, dst f) # new). \<not> prefix (data @ [g]) y" "\<forall>g \<in> set (f # fs). \<not> prefix (dst g) y"
    then have "mc_tree m' y = mc_tree m1 y" by (intro r5[rule_format]) auto
    with frame[of y] y show "mc_tree m' y = mc_tree m y" by simp
  next
    fix g assume g: e "g \<in> set (f # fs)" "P g"
    show "g \<in> fst ` set ((f, dst f) # new)"
    proof (cases "g = f")
      case no: False
      with g have gf: "g \<in> set fs" by simp
      with r g(1) PQ[OF gf g(3)] show ?thesis by auto
    qed simp
  qed
qed

section \<open>And back\<close>

text \<open>An entry that is not reported is whole at its old place, one that is reported is still whole where it was moved to.\<close>

definition back_ok :: "path \<Rightarrow> (string \<Rightarrow> path) \<Rightarrow> (string \<times> path) list \<Rightarrow> string list \<Rightarrow> machine \<Rightarrow> machine \<Rightarrow> bool" where
  "back_ok data dst ms bad m m' \<longleftrightarrow>
     host_same m m' \<and> set bad \<subseteq> fst ` set ms \<and>
     (\<forall>f \<in> fst ` set ms. f \<notin> set bad \<longrightarrow> (\<forall>x. mc_tree m' (data @ f # x) = mc_tree m (dst f @ x))) \<and>
     (\<forall>f \<in> set bad. \<forall>x. mc_tree m' (dst f @ x) = mc_tree m (dst f @ x)) \<and>
     (\<forall>y. (\<forall>f \<in> fst ` set ms. \<not> prefix (data @ [f]) y \<and> \<not> prefix (dst f) y) \<longrightarrow> mc_tree m' y = mc_tree m y)"

lemma back_step:
  assumes rest: "back_ok data dst ms bad m1 m'"
    and same: "host_same m m1"
    and frame: "\<And>y. \<not> prefix (data @ [f]) y \<Longrightarrow> (ok \<Longrightarrow> \<not> prefix (dst f) y) \<Longrightarrow> mc_tree m1 y = mc_tree m y"
    and moved: "\<And>x. ok \<Longrightarrow> mc_tree m1 (data @ f # x) = mc_tree m (dst f @ x)"
    and new: "f \<notin> fst ` set ms"
    and apart: "parking data dst (insert f (fst ` set ms))"
  shows "back_ok data dst ((f, d) # ms) (if ok then bad else f # bad) m m'"
proof -
  note r = rest[unfolded back_ok_def]
  have sub: "set bad \<subseteq> fst ` set ms" using r by blast
  have kept: "mc_tree m' y = mc_tree m1 y"
    if "\<And>g. g \<in> fst ` set ms \<Longrightarrow> \<not> prefix (data @ [g]) y \<and> \<not> prefix (dst g) y" for y
    using r that by blast
  have other: "\<not> prefix (data @ [g]) (data @ f # x) \<and> \<not> prefix (dst g) (data @ f # x)
     \<and> \<not> prefix (data @ [g]) (dst f @ x) \<and> \<not> prefix (dst g) (dst f @ x)
     \<and> \<not> prefix (data @ [f]) (dst g @ x) \<and> \<not> prefix (dst f) (dst g @ x)"
    if "g \<in> fst ` set ms" for g x
  proof -
    have ne: "g \<noteq> f" "f \<noteq> g" using that new by blast+
    have pf: "f \<in> insert f (fst ` set ms)" "g \<in> insert f (fst ` set ms)" using that by simp_all
    from parallel_not[OF sibling_parallel[OF ne(1), of data], of x] parking_apart(3)[OF apart ne(1), of x]
    show ?thesis using parking_apart(1,2)[OF apart pf(1), of g x] parking_apart(1,2)[OF apart pf(2), of f x] by simp
  qed
  have back_f: "mc_tree m' (data @ f # x) = mc_tree m (dst f @ x)" if ok for x
    using kept[of "data @ f # x"] other moved[OF that] by simp
  have stay_f: "mc_tree m' (dst f @ x) = mc_tree m (dst f @ x)" if "\<not> ok" for x
    using kept[of "dst f @ x"] other frame[of "dst f @ x"] parking_apart(1)[OF apart insertI1] that by simp
  have src: "mc_tree m1 (dst g @ x) = mc_tree m (dst g @ x)" if "g \<in> fst ` set ms" for g x
    using frame[of "dst g @ x"] other[OF that] by simp
  show ?thesis
    unfolding back_ok_def
  proof (intro conjI ballI impI allI)
    show "host_same m m'" using host_same_trans[OF same] r by blast
    show "set (if ok then bad else f # bad) \<subseteq> fst ` set ((f, d) # ms)" using sub by auto
    fix g x
    assume g: "g \<in> fst ` set ((f, d) # ms)" "g \<notin> set (if ok then bad else f # bad)"
    show "mc_tree m' (data @ g # x) = mc_tree m (dst g @ x)"
    proof (cases "g = f")
      case True
      then show ?thesis using g back_f by (auto split: if_splits)
    next
      case False
      with g have g': "g \<in> fst ` set ms" "g \<notin> set bad" by (auto split: if_splits)
      then have "mc_tree m' (data @ g # x) = mc_tree m1 (dst g @ x)" using r by blast
      with src[OF g'(1)] show ?thesis by simp
    qed
  next
    fix g x assume g: "g \<in> set (if ok then bad else f # bad)"
    show "mc_tree m' (dst g @ x) = mc_tree m (dst g @ x)"
    proof (cases "g \<in> set bad")
      case True
      with sub have "g \<in> fst ` set ms" by blast
      with True r src show ?thesis by simp
    next
      case False
      with g stay_f show ?thesis by (auto split: if_splits)
    qed
  next
    fix y assume y: "\<forall>g \<in> fst ` set ((f, d) # ms). \<not> prefix (data @ [g]) y \<and> \<not> prefix (dst g) y"
    with kept[of y] frame[of y] show "mc_tree m' y = mc_tree m y" by simp
  qed
qed

section \<open>What is kept\<close>

definition kept :: "path \<Rightarrow> machine \<Rightarrow> machine \<Rightarrow> string \<Rightarrow> bool" where
  "kept data m m' f \<longleftrightarrow> (\<forall>x. mc_tree m' (data @ f # x) = mc_tree m (data @ f # x))"

definition kept_aside :: "path \<Rightarrow> (string \<Rightarrow> path) \<Rightarrow> machine \<Rightarrow> machine \<Rightarrow> string \<Rightarrow> bool" where
  "kept_aside data dst m m' f \<longleftrightarrow> (\<forall>x. mc_tree m' (dst f @ x) = mc_tree m (data @ f # x))"

lemma kept_trans: "kept data a b f \<Longrightarrow> kept data b c f \<Longrightarrow> kept data a c f"
  by (simp add: kept_def)

lemma kept_folder: "kept data m m' f \<Longrightarrow> is_folder m' (data @ [f]) = is_folder m (data @ [f])"
  by (simp add: kept_def is_folder_def)

lemma aside_kept:
  assumes "aside_ok data dst P fs e new m m'" "parking data dst {g}"
  shows "g \<in> fst ` set new \<Longrightarrow> kept_aside data dst m m' g" "g \<notin> fst ` set new \<Longrightarrow> kept data m m' g"
proof -
  note r = assms(1)[unfolded aside_ok_def]
  show "kept_aside data dst m m' g" if "g \<in> fst ` set new"
    using that r unfolding kept_aside_def by fastforce
  assume no: "g \<notin> fst ` set new"
  show "kept data m m' g"
    unfolding kept_def
  proof
    fix x
    have "\<not> prefix (data @ [f]) (data @ g # x)" if "f \<in> fst ` set new" for f
      using that no by auto
    moreover have "\<not> prefix (dst f) (data @ g # x)" for f by (rule parking_apart(2)[OF assms(2) singletonI])
    ultimately show "mc_tree m' (data @ g # x) = mc_tree m (data @ g # x)" using r by blast
  qed
qed

lemma back_kept:
  assumes "back_ok data dst ms bad m m'" "parking data dst {g}"
  shows "g \<notin> fst ` set ms \<Longrightarrow> kept data m m' g"
    "g \<in> fst ` set ms \<Longrightarrow> g \<notin> set bad \<Longrightarrow> mc_tree m' (data @ g # x) = mc_tree m (dst g @ x)"
    "g \<in> set bad \<Longrightarrow> mc_tree m' (dst g @ x) = mc_tree m (dst g @ x)"
proof -
  note r = assms(1)[unfolded back_ok_def]
  show "mc_tree m' (data @ g # x) = mc_tree m (dst g @ x)" if "g \<in> fst ` set ms" "g \<notin> set bad"
    using r that by blast
  show "mc_tree m' (dst g @ x) = mc_tree m (dst g @ x)" if "g \<in> set bad" using r that by blast
  assume no: "g \<notin> fst ` set ms"
  show "kept data m m' g"
    unfolding kept_def
  proof
    fix x
    have "\<not> prefix (data @ [f]) (data @ g # x)" if "f \<in> fst ` set ms" for f
      using that no by auto
    moreover have "\<not> prefix (dst f) (data @ g # x)" for f by (rule parking_apart(2)[OF assms(2) singletonI])
    ultimately show "mc_tree m' (data @ g # x) = mc_tree m (data @ g # x)" using r by blast
  qed
qed

end
