(* ===== verification/Restore.thy ===== *)
theory Restore
  imports Restore_Archive Swap_Space Go_Text Go_Time
begin

text \<open>
  Restoring a backup, \<^verbatim>\<open>internal/restore/restore.go\<close>: the archive is checked against its hash and inspected, extracted beside the
  data while the node runs, then the node is stopped, the data folders moved aside, the extracted ones renamed into place
  and the node started; a failure on the way puts the data back.  SHA-256 and the archive reader are parameters.
\<close>

section \<open>The archive and its hash\<close>

definition Resolve :: "string \<Rightarrow> string \<Rightarrow> string" where
  "Resolve backupDir arg =
     (if CHR ''/'' \<in> set arg then arg
      else join_path [backupDir, if has_suffix arg ''.tar.gz'' then arg else arg @ ''.tar.gz''])"

definition HashPath :: "path \<Rightarrow> path" where
  "HashPath archive = up archive @ [trim_suffix (List.last archive) ''.tar.gz'' @ ''.hash'']"

datatype verify_error = ArchiveMissing | HashMissing | ArchiveUnreadable | IntegrityFailed

text \<open>\<open>sha\<close> is the hexadecimal SHA-256.\<close>

definition Verify_archive :: "(bytes \<Rightarrow> string) \<Rightarrow> path \<Rightarrow> machine \<Rightarrow> verify_error option \<times> machine" where
  "Verify_archive sha archive m =
     (if \<not> exists_at m archive then (Some ArchiveMissing, m)
      else case ReadFile (HashPath archive) m of
        (None, m1) \<Rightarrow> (Some HashMissing, m1)
      | (Some stored, m1) \<Rightarrow>
          (case ReadFile archive m1 of
             (None, m2) \<Rightarrow> (Some ArchiveUnreadable, m2)
           | (Some data, m2) \<Rightarrow> ((if sha data \<noteq> trim_space stored then Some IntegrityFailed else None), m2)))"

section \<open>Moving the data aside, and back\<close>

record data_config =
  dc_data :: path
  dc_backup :: path

definition RestoreDir :: "'c data_config_scheme \<Rightarrow> path" where
  "RestoreDir cfg = dc_backup cfg @ [''restore'']"

datatype swap_error = RestoreDirFailed | AsideExists path | MoveFailed string | InstallFailed string

definition bak :: "path \<Rightarrow> string \<Rightarrow> string \<Rightarrow> path" where
  "bak rd stamp f = rd @ [f @ ''.bak.'' @ stamp]"

text \<open>The folders moved so far, with where they are, are kept for the way back.\<close>

fun move_folders :: "path \<Rightarrow> path \<Rightarrow> string \<Rightarrow> string list \<Rightarrow> (string \<times> path) list \<Rightarrow> machine \<Rightarrow>
    swap_error option \<times> (string \<times> path) list \<times> machine" where
  "move_folders data rd stamp [] moved m = (None, moved, m)"
| "move_folders data rd stamp (f # fs) moved m =
     (if \<not> is_folder m (data @ [f]) then move_folders data rd stamp fs moved m
      else
        let dst = bak rd stamp f in
        if exists_at m dst then (Some (AsideExists dst), moved, m)
        else case Mv (data @ [f]) dst m of (ok, m1) \<Rightarrow>
          if \<not> ok then (Some (MoveFailed f), moved, m1) else move_folders data rd stamp fs (moved @ [(f, dst)]) m1)"

definition MoveAside :: "'c data_config_scheme \<Rightarrow> time \<Rightarrow> string list \<Rightarrow> machine \<Rightarrow> swap_error option \<times> (string \<times> path) list \<times> machine" where
  "MoveAside cfg now folders m =
     (case MkdirAll (RestoreDir cfg) m of (ok, m1) \<Rightarrow>
      if \<not> ok then (Some RestoreDirFailed, [], m1)
      else move_folders (dc_data cfg) (RestoreDir cfg) (show_int (unix_of now)) folders [] m1)"

text \<open>The way back goes on after a failure and collects the folders it could not put back.\<close>

fun MoveBack :: "path \<Rightarrow> (string \<times> path) list \<Rightarrow> machine \<Rightarrow> string list \<times> machine" where
  "MoveBack data [] m = ([], m)"
| "MoveBack data ((f, src) # ms) m =
     (case (if exists_at m (data @ [f]) then RemoveAll (data @ [f]) m else (True, m)) of (ok, m1) \<Rightarrow>
      if \<not> ok then (case MoveBack data ms m1 of (bad, m2) \<Rightarrow> (f # bad, m2))
      else case Mv src (data @ [f]) m1 of (ok2, m2) \<Rightarrow>
        (case MoveBack data ms m2 of (bad, m3) \<Rightarrow> ((if ok2 then bad else f # bad), m3)))"

fun install_folders :: "path \<Rightarrow> path \<Rightarrow> string list \<Rightarrow> machine \<Rightarrow> swap_error option \<times> machine" where
  "install_folders staging data [] m = (None, m)"
| "install_folders staging data (f # fs) m =
     (case Rename (staging @ [f]) (data @ [f]) m of (ok, m1) \<Rightarrow>
      if \<not> ok then (Some (InstallFailed f), m1) else install_folders staging data fs m1)"

section \<open>Restoring\<close>

datatype restore_cause = NoRestoreDir | NotVerified verify_error | BadArchive archive_error | NoDataDir | NoStaging | NotStopped service_error

datatype restore_result =
    Restored
  | RestoredNotStarted service_error
  | Refused_before restore_cause
  | PutBack swap_error
  | PutBackNotStarted swap_error service_error
  | NotPutBack swap_error "string list"

text \<open>
  The swap with the node stopped.  \<open>order\<close> is the order in which the map of moved folders is iterated.
\<close>

definition swap_folders ::
  "((string \<times> path) list \<Rightarrow> (string \<times> path) list) \<Rightarrow> 'c data_config_scheme \<Rightarrow> time \<Rightarrow> string list \<Rightarrow> path \<Rightarrow> machine \<Rightarrow> restore_result \<times> machine" where
  "swap_folders order cfg now folders staging m =
     (case MoveAside cfg now folders m of (e, moved, m1) \<Rightarrow>
      case (if e = None then install_folders staging (dc_data cfg) folders m1 else (e, m1)) of
        (None, m2) \<Rightarrow>
          (case StartService m2 of (None, m3) \<Rightarrow> (Restored, m3) | (Some s, m3) \<Rightarrow> (RestoredNotStarted s, m3))
      | (Some err, m2) \<Rightarrow>
          (case MoveBack (dc_data cfg) (order moved) m2 of (bad, m3) \<Rightarrow>
           if bad \<noteq> [] then (NotPutBack err bad, m3)
           else case StartService m3 of
             (Some s, m4) \<Rightarrow> (PutBackNotStarted err s, m4)
           | (None, m4) \<Rightarrow> (PutBack err, m4)))"

definition inspected :: "(bytes \<Rightarrow> tar_stream) \<Rightarrow> path \<Rightarrow> machine \<Rightarrow> (archive_error, manifest) result \<times> machine" where
  "inspected untar archive m = (case ReadFile archive m of (d, m1) \<Rightarrow> (Inspect untar d, m1))"

definition extracted :: "(bytes \<Rightarrow> tar_stream) \<Rightarrow> path \<Rightarrow> path \<Rightarrow> machine \<Rightarrow> archive_error option \<times> machine" where
  "extracted untar archive dst m = (case ReadFile archive m of (d, m1) \<Rightarrow> Extract untar d dst m1)"

text \<open>With the staging directory there; it is removed at the end in any case.\<close>

definition with_staging ::
  "(bytes \<Rightarrow> tar_stream) \<Rightarrow> ((string \<times> path) list \<Rightarrow> (string \<times> path) list) \<Rightarrow> 'c data_config_scheme \<Rightarrow> path \<Rightarrow> time \<Rightarrow> string list \<Rightarrow> path \<Rightarrow>
     machine \<Rightarrow> restore_result \<times> machine" where
  "with_staging untar order cfg archive now folders staging m =
     (case (case extracted untar archive staging m of
              (Some e, m1) \<Rightarrow> (Refused_before (BadArchive e), m1)
            | (None, m1) \<Rightarrow>
                (case StopService m1 of
                   (Some s, m2) \<Rightarrow> (Refused_before (NotStopped s), m2)
                 | (None, m2) \<Rightarrow> swap_folders order cfg now folders staging m2)) of
        (r, m3) \<Rightarrow> (r, snd (RemoveAll staging m3)))"

definition Run_restore ::
  "(bytes \<Rightarrow> tar_stream) \<Rightarrow> (bytes \<Rightarrow> string) \<Rightarrow> ((string \<times> path) list \<Rightarrow> (string \<times> path) list) \<Rightarrow> 'c data_config_scheme \<Rightarrow> path \<Rightarrow> time \<Rightarrow> string \<Rightarrow>
     machine \<Rightarrow> restore_result \<times> machine" where
  "Run_restore untar sha order cfg archive now rnd m =
     (case MkdirAll (RestoreDir cfg) m of (ok, m1) \<Rightarrow>
      if \<not> ok then (Refused_before NoRestoreDir, m1)
      else case Verify_archive sha archive m1 of
        (Some e, m2) \<Rightarrow> (Refused_before (NotVerified e), m2)
      | (None, m2) \<Rightarrow>
          (case inspected untar archive m2 of
             (Inl e, m3) \<Rightarrow> (Refused_before (BadArchive e), m3)
           | (Inr mf, m3) \<Rightarrow>
               (case MkdirAll (dc_data cfg) m3 of (ok, m4) \<Rightarrow>
                if \<not> ok then (Refused_before NoDataDir, m4)
                else case MkdirNew (dc_data cfg @ [''.restore-'' @ rnd]) m4 of (ok, m5) \<Rightarrow>
                  if \<not> ok then (Refused_before NoStaging, m5)
                  else with_staging untar order cfg archive now (mf_folders mf) (dc_data cfg @ [''.restore-'' @ rnd]) m5)))"

section \<open>The way there and back\<close>

definition calm :: "machine \<Rightarrow> bool" where
  "calm m \<longleftrightarrow> (\<forall>S. Leftover S \<notin> set (mc_hazards m))"

lemma calm_same: "host_same m m' \<Longrightarrow> calm m \<Longrightarrow> calm m'"
  by (auto simp: calm_def host_same_def)

text \<open>The safety copies of different folders do not overlap, and none overlaps the data.\<close>

lemma bak_parking: "(\<And>f. f \<in> F \<Longrightarrow> (data @ [f]) \<parallel> rd) \<Longrightarrow> parking data (bak rd stamp) F"
  unfolding parking_def bak_def using parallel_append[of _ rd "[]"] by (auto intro: sibling_parallel)

lemma move_folders_spec:
  assumes "move_folders data rd stamp fs moved m = (e, moved', m')" "calm m" "distinct fs"
    and apart: "\<And>f. f \<in> set fs \<Longrightarrow> (data @ [f]) \<parallel> rd"
  shows "\<exists>new. moved' = moved @ new \<and> aside_ok data (bak rd stamp) (\<lambda>f. is_folder m (data @ [f])) fs (e = None) new m m'"
  using assms
proof (induction fs arbitrary: moved m)
  case Nil
  then show ?case by (intro exI[of _ "[]"]) (simp add: aside_ok_def)
next
  case (Cons f fs)
  let ?src = "data @ [f]" and ?dst = "bak rd stamp f"
  note apart' = Cons.prems(4)[OF list.set_intros(2)]
  have d: "distinct fs" using Cons.prems(3) by simp
  have pk: "parking data (bak rd stamp) (set (f # fs))" by (rule bak_parking) (rule Cons.prems(4))
  note IH = Cons.IH[OF _ _ d apart']
  show ?case
  proof (cases "is_folder m ?src")
    case False
    with Cons.prems(1) have run: "move_folders data rd stamp fs moved m = (e, moved', m')" by simp
    from IH[OF run Cons.prems(2)] obtain new where
      n: "moved' = moved @ new" "aside_ok data (bak rd stamp) (\<lambda>f. is_folder m (data @ [f])) fs (e = None) new m m'" by blast
    have "aside_ok data (bak rd stamp) (\<lambda>f. is_folder m (data @ [f])) (f # fs) (e = None) new m m'"
      by (rule aside_skip[OF n(2)]) (rule False)
    with n(1) show ?thesis by blast
  next
    case True
    note run0 = Cons.prems(1)[unfolded move_folders.simps Let_def, simplified True not_True_eq_False if_False]
    show ?thesis
    proof (cases "exists_at m ?dst")
      case ex: True
      with run0 have r: "e \<noteq> None" "moved' = moved" "m' = m" by auto
      have "aside_ok data (bak rd stamp) (\<lambda>f. is_folder m (data @ [f])) (f # fs) (e = None) [] m m'" by (rule aside_none[OF _ _ r(1)]) (simp_all add: r(3))
      with r(2) show ?thesis by auto
    next
      case free: False
      obtain ok m1 where mv: "Mv ?src ?dst m = (ok, m1)" by (cases "Mv ?src ?dst m")
      note same = Mv_same[OF mv]
      show ?thesis
      proof (cases ok)
        case False
        with run0 free mv have r: "e \<noteq> None" "moved' = moved" "m' = m1" by auto
        have mvf: "Mv ?src ?dst m = (False, m1)" using mv False by simp
        have t: "mc_tree m1 y = mc_tree m y" if "\<not> prefix ?dst y" for y
          by (rule Mv_failed[OF mvf free _ that]) (use Cons.prems(2) in \<open>simp add: calm_def\<close>)
        have "aside_ok data (bak rd stamp) (\<lambda>f. is_folder m (data @ [f])) (f # fs) (e = None) [] m m'" by (rule aside_none[OF _ _ r(1)]) (simp_all add: r(3) same t)
        with r(2) show ?thesis by auto
      next
        case True2: True
        with run0 free mv have run: "move_folders data rd stamp fs (moved @ [(f, ?dst)]) m1 = (e, moved', m')" by simp
        have mv': "Mv ?src ?dst m = (True, m1)" using mv True2 by simp
        have nd: "\<not> prefix ?dst ?src" by (rule parking_apart(4)[OF pk]) simp
        from IH[OF run calm_same[OF same Cons.prems(2)]] obtain new where
          mv_eq: "moved' = (moved @ [(f, ?dst)]) @ new" and ok: "aside_ok data (bak rd stamp) (\<lambda>f. is_folder m1 (data @ [f])) fs (e = None) new m1 m'" by blast
        have nf: "f \<notin> set fs" using Cons.prems(3) by simp
        have PQ: "is_folder m1 (data @ [g])" if "g \<in> set fs" "is_folder m (data @ [g])" for g
        proof -
          have "\<not> prefix ?src (data @ [g])" using that(1) nf by auto
          moreover have "\<not> prefix ?dst (data @ [g])" by (rule parking_apart(4)[OF pk]) (use that in simp)
          ultimately have "mc_tree m1 (data @ [g]) = mc_tree m (data @ [g])" by (rule Mv_tree[OF mv' free])
          with that(2) show ?thesis by (simp add: is_folder_def)
        qed
        from aside_step[OF ok PQ same Mv_tree[OF mv' free] _ _ nf pk] Mv_ok[OF mv' free nd]
        have "aside_ok data (bak rd stamp) (\<lambda>f. is_folder m (data @ [f])) (f # fs) (e = None) ((f, ?dst) # new) m m'" by simp
        with mv_eq show ?thesis by auto
      qed
    qed
  qed
qed

lemma MoveBack_spec:
  assumes "MoveBack data ms m = (bad, m')" "calm m" "distinct (map fst ms)"
    and "\<And>f d. (f, d) \<in> set ms \<Longrightarrow> d = bak rd stamp f \<and> (data @ [f]) \<parallel> rd"
  shows "back_ok data (bak rd stamp) ms bad m m'"
  using assms
proof (induction ms arbitrary: m bad)
  case Nil
  then show ?case by (simp add: back_ok_def)
next
  case (Cons p ms)
  obtain f src where p: "p = (f, src)" by (cases p)
  have src: "src = bak rd stamp f" and ap: "(data @ [f]) \<parallel> rd" using Cons.prems(4)[of f src] p by simp_all
  have new: "f \<notin> fst ` set ms" and d: "distinct (map fst ms)" using Cons.prems(3) by (simp_all add: p)
  note Cons.prems(4)[OF list.set_intros(2)]
  note IH = Cons.IH[OF _ _ d this]
  have apart: "(data @ [g]) \<parallel> rd" if "g \<in> insert f (fst ` set ms)" for g
    using that ap Cons.prems(4)[of g] unfolding p by (metis (no_types, lifting) fst_conv imageE insertE list.set_intros(2) surj_pair Cons.prems(4) p)
  have pk: "parking data (bak rd stamp) (insert f (fst ` set ms))" by (rule bak_parking) (rule apart)
  obtain ok m1 where clr: "(if exists_at m (data @ [f]) then RemoveAll (data @ [f]) m else (True, m)) = (ok, m1)"
    by (cases "if exists_at m (data @ [f]) then RemoveAll (data @ [f]) m else (True, m)")
  have same1: "host_same m m1" using clr RemoveAll_same by (auto split: if_splits)
  have frame1: "mc_tree m1 y = mc_tree m y" if "\<not> prefix (data @ [f]) y" for y
    using clr RemoveAll_tree[OF _ that] by (auto split: if_splits)
  show ?case
  proof (cases ok)
    case False
    obtain bad0 where run: "MoveBack data ms m1 = (bad0, m')" "bad = f # bad0"
      using Cons.prems(1) clr False unfolding p by (auto split: prod.splits)
    have "back_ok data (bak rd stamp) ms bad0 m1 m'" by (rule IH[OF run(1) calm_same[OF same1 Cons.prems(2)]])
    from back_step[OF this same1 frame1, where ok = False] new pk run(2) show ?thesis by (simp add: p)
  next
    case True
    obtain ok2 m2 where mv: "Mv src (data @ [f]) m1 = (ok2, m2)" by (cases "Mv src (data @ [f]) m1")
    obtain bad0 where run: "MoveBack data ms m2 = (bad0, m')" "bad = (if ok2 then bad0 else f # bad0)"
      using Cons.prems(1) clr True mv unfolding p by (auto split: prod.splits)
    have free: "\<not> exists_at m1 (data @ [f])"
      using clr True RemoveAll_ok[of "data @ [f]" m m1 "data @ [f]"] by (auto simp: exists_at_def split: if_splits)
    have same: "host_same m m2" by (rule host_same_trans[OF same1 Mv_same[OF mv]])
    have calm1: "calm m1" by (rule calm_same[OF same1 Cons.prems(2)])
    have frame: "mc_tree m2 y = mc_tree m y" if "\<not> prefix (data @ [f]) y" "ok2 \<Longrightarrow> \<not> prefix (bak rd stamp f) y" for y
    proof (cases ok2)
      case True
      then show ?thesis using Mv_tree[OF mv free, of y] frame1 that by (simp add: src)
    next
      case False
      then show ?thesis using Mv_failed[of src "data @ [f]" m1 m2 y] mv free frame1 that calm1 by (simp add: calm_def)
    qed
    have moved: "mc_tree m2 (data @ f # x) = mc_tree m (bak rd stamp f @ x)" if ok2 for x
      using Mv_ok(1)[of src "data @ [f]" m1 m2 x] mv that free frame1[of "bak rd stamp f @ x"]
        parking_apart(1,2)[OF pk insertI1, of f x] parking_apart(5)[OF pk insertI1, of f]
      by (simp add: src)
    have "back_ok data (bak rd stamp) ms bad0 m2 m'" by (rule IH[OF run(1) calm_same[OF same Cons.prems(2)]])
    from back_step[OF this same frame moved new pk] run(2) show ?thesis by (simp add: p)
  qed
qed

section \<open>The data is there in the end\<close>

text \<open>The moves of \<open>MoveAside\<close>, from a machine on which its directory is there.\<close>

lemma MoveAside_spec:
  assumes "MoveAside cfg now folders m = (e, moved, m')" "calm m" "distinct folders"
    and apart: "\<And>f. f \<in> set folders \<Longrightarrow> (dc_data cfg @ [f]) \<parallel> RestoreDir cfg"
  shows "\<exists>m0. host_same m m0 \<and> (\<forall>y. \<not> prefix y (RestoreDir cfg) \<longrightarrow> mc_tree m0 y = mc_tree m y) \<and>
    aside_ok (dc_data cfg) (bak (RestoreDir cfg) (show_int (unix_of now))) (\<lambda>f. is_folder m0 (dc_data cfg @ [f])) folders (e = None) moved m0 m'"
proof -
  obtain ok m0 where mk: "MkdirAll (RestoreDir cfg) m = (ok, m0)" by (cases "MkdirAll (RestoreDir cfg) m")
  note same = MkdirAll_same[OF mk]
  have tree: "mc_tree m0 y = mc_tree m y" if "\<not> prefix y (RestoreDir cfg)" for y using MkdirAll_tree[OF mk, of y] that by blast
  have "aside_ok (dc_data cfg) (bak (RestoreDir cfg) (show_int (unix_of now))) (\<lambda>f. is_folder m0 (dc_data cfg @ [f])) folders (e = None) moved m0 m'"
  proof (cases ok)
    case True
    with assms(1) mk have run: "move_folders (dc_data cfg) (RestoreDir cfg) (show_int (unix_of now)) folders [] m0 = (e, moved, m')"
      by (simp add: MoveAside_def)
    from move_folders_spec[OF run calm_same[OF same assms(2)] assms(3) apart] show ?thesis by auto
  next
    case False
    with assms(1) mk have "e \<noteq> None" "moved = []" "m' = m0" by (auto simp: MoveAside_def)
    then show ?thesis by (auto intro: aside_none)
  qed
  with same tree show ?thesis by blast
qed

lemma install_frame:
  assumes "install_folders staging data fs m = (e, m')" "\<And>f. f \<in> set fs \<Longrightarrow> \<not> prefix (staging @ [f]) y \<and> \<not> prefix (data @ [f]) y"
  shows "mc_tree m' y = mc_tree m y"
  using assms
proof (induction fs arbitrary: m)
  case (Cons f fs)
  obtain ok m1 where r: "Rename (staging @ [f]) (data @ [f]) m = (ok, m1)" by (cases "Rename (staging @ [f]) (data @ [f]) m")
  have "mc_tree m1 y = mc_tree m y" by (rule Rename_tree[OF r]) (use Cons.prems(2) in simp_all)
  with Cons r show ?case by (auto split: if_splits)
qed simp

lemma install_same: "install_folders staging data fs m = (e, m') \<Longrightarrow> host_same m m'"
proof (induction fs arbitrary: m)
  case (Cons f fs)
  then show ?case by (auto dest!: Rename_same dest: host_same_trans split: prod.splits if_splits)
qed simp

text \<open>What the result says of the data folders that were there.\<close>

fun says_kept :: "restore_result \<Rightarrow> bool" where
  "says_kept (Refused_before c) = True"
| "says_kept (PutBack e) = True"
| "says_kept (PutBackNotStarted e s) = True"
| "says_kept _ = False"

lemma swap_kept:
  assumes run: "swap_folders order cfg now folders staging m = (r, m')" and "calm m" "distinct folders"
    and order: "\<And>xs. mset (order xs) = mset xs"
    and apart: "\<And>f. f \<in> insert g (set folders) \<Longrightarrow> (dc_data cfg @ [f]) \<parallel> RestoreDir cfg"
    and stg: "staging \<parallel> RestoreDir cfg" "staging \<parallel> (dc_data cfg @ [g])"
    and there: "is_folder m (dc_data cfg @ [g])"
  defines "st \<equiv> show_int (unix_of now)"
  shows "says_kept r \<Longrightarrow> kept (dc_data cfg) m m' g"
    "kept (dc_data cfg) m m' g \<or> kept_aside (dc_data cfg) (bak (RestoreDir cfg) st) m m' g"
proof -
  let ?data = "dc_data cfg" and ?rd = "RestoreDir cfg"
  have ag: "(?data @ [g]) \<parallel> ?rd" using apart by simp
  obtain e moved m1 where ma: "MoveAside cfg now folders m = (e, moved, m1)" by (metis prod_cases3)
  have af: "(?data @ [f]) \<parallel> ?rd" if "f \<in> set folders" for f using apart that by simp
  have pk: "parking ?data (bak ?rd st) (insert g (set folders))" by (rule bak_parking) (rule apart)
  have pg: "parking ?data (bak ?rd st) {g}" by (rule parking_mono[OF pk]) simp
  from MoveAside_spec[OF ma assms(2,3) af] obtain m0 where same0: "host_same m m0"
    and tree0: "\<And>y. \<not> prefix y ?rd \<Longrightarrow> mc_tree m0 y = mc_tree m y"
    and ok: "aside_ok ?data (bak ?rd st) (\<lambda>f. is_folder m0 (?data @ [f])) folders (e = None) moved m0 m1" unfolding st_def by blast
  have kept0: "kept ?data m m0 g"
    unfolding kept_def using tree0 ag by (metis append.assoc append_Cons append_Nil parallelD1 prefix_order.trans prefixI)
  note okD = ok[unfolded aside_ok_def]
  obtain e2 m2 where inst: "(if e = None then install_folders staging ?data folders m1 else (e, m1)) = (e2, m2)"
    by (cases "if e = None then install_folders staging ?data folders m1 else (e, m1)")
  have same2: "host_same m1 m2" using inst install_same by (auto split: if_splits)
  have bak2: "mc_tree m2 (bak ?rd st g @ x) = mc_tree m1 (bak ?rd st g @ x)" for x
  proof -
    have "\<not> prefix (staging @ [f]) (bak ?rd st g @ x) \<and> \<not> prefix (?data @ [f]) (bak ?rd st g @ x)" if "f \<in> set folders" for f
    proof -
      have "staging \<parallel> bak ?rd st g" unfolding bak_def using parallel_append[OF stg(1), of "[]"] by simp
      from parallel_not[OF this, of x] have "\<not> prefix (staging @ [f]) (bak ?rd st g @ x)"
        using prefix_order.trans[of staging "staging @ [f]"] by auto
      with parking_apart(1)[OF pk insertI2[OF that], of g x] show ?thesis by blast
    qed
    then show ?thesis using inst install_frame by (auto split: if_splits)
  qed
  have bak: "mc_tree m2 (bak ?rd st g @ x) = mc_tree m (?data @ g # x)" if "g \<in> fst ` set moved" for x
    using aside_kept(1)[OF ok pg that] kept0 bak2 by (simp add: kept_aside_def kept_def)
  have stay: "kept ?data m m2 g" if no: "g \<notin> fst ` set moved"
  proof -
    have "kept ?data m1 m2 g"
      unfolding kept_def
    proof
      fix x
      show "mc_tree m2 (?data @ g # x) = mc_tree m1 (?data @ g # x)"
      proof (cases "e = None")
        case True
        have "g \<notin> set folders" using okD True no there kept_folder[OF kept0] by auto
        then have "\<not> prefix (staging @ [f]) (?data @ g # x) \<and> \<not> prefix (?data @ [f]) (?data @ g # x)" if "f \<in> set folders" for f
          using that parallel_not[OF stg(2), of x] prefix_order.trans[of staging "staging @ [f]" "?data @ g # x"] by auto
        then show ?thesis using inst True install_frame by auto
      qed (use inst in auto)
    qed
    with aside_kept(2)[OF ok pg no] kept0 show ?thesis by (blast intro: kept_trans)
  qed
  have both: "kept ?data m m2 g \<or> kept_aside ?data (bak ?rd st) m m2 g" using bak stay by (auto simp: kept_aside_def)
  have "(says_kept r \<longrightarrow> kept ?data m m' g) \<and> (kept ?data m m' g \<or> kept_aside ?data (bak ?rd st) m m' g)"
  proof (cases e2)
    case None
    obtain s m3 where st: "StartService m2 = (s, m3)" by (cases "StartService m2")
    have "\<not> says_kept r" "m' = m3"
      using run unfolding swap_folders_def ma prod.case inst None option.case st by (auto split: option.splits)
    with both StartService_frame[OF st] show ?thesis by (simp add: kept_def kept_aside_def)
  next
    case (Some err)
    obtain bad m3 where mb: "MoveBack ?data (order moved) m2 = (bad, m3)" by (cases "MoveBack ?data (order moved) m2")
    obtain s m4 where st: "StartService m3 = (s, m4)" by (cases "StartService m3")
    have r: "says_kept r \<Longrightarrow> bad = []" "mc_tree m' = mc_tree m3"
      using run StartService_frame[OF st] unfolding swap_folders_def ma prod.case inst Some option.case mb st
      by (auto split: option.splits if_splits)
    have set_o: "set (order moved) = set moved" using order by (metis mset_eq_setD)
    have dist: "distinct (map fst (order moved))" 
    proof -
      have "mset (map fst (order moved)) = mset (map fst moved)" using order[of moved] by simp
      then show ?thesis using okD mset_eq_imp_distinct_iff by blast
    qed
    have "d = bak ?rd st f \<and> (?data @ [f]) \<parallel> ?rd" if "(f, d) \<in> set (order moved)" for f d
      using that af okD by (simp add: set_o)
    from MoveBack_spec[OF mb _ dist this] same0 same2 okD calm_same[OF _ assms(2)]
    have bk: "back_ok ?data (bak ?rd st) (order moved) bad m2 m3" by (meson host_same_trans)
    show ?thesis
    proof (cases "g \<in> fst ` set moved")
      case True
      have "kept ?data m m3 g" if "g \<notin> set bad"
        using back_kept(2)[OF bk pg _ that] True bak by (simp add: kept_def set_o)
      moreover have "kept_aside ?data (bak ?rd st) m m3 g" if "g \<in> set bad"
        using back_kept(3)[OF bk pg that] bak[OF True] by (simp add: kept_aside_def)
      ultimately show ?thesis using r by (cases "g \<in> set bad") (auto simp: kept_def kept_aside_def)
    next
      case False
      with back_kept(1)[OF bk pg] have "kept ?data m2 m3 g" by (simp add: set_o)
      with stay[OF False] have "kept ?data m m3 g" by (rule kept_trans)
      with r(2) show ?thesis by (simp add: kept_def)
    qed
  qed
  then show "says_kept r \<Longrightarrow> kept ?data m m' g" "kept ?data m m' g \<or> kept_aside ?data (bak ?rd st) m m' g" by blast+
qed


section \<open>The whole run\<close>

lemma staging_parallel:
  assumes "g \<in> set Folders"
  shows "(data @ [''.restore-'' @ rnd]) \<parallel> (data @ [g])"
proof -
  have "g \<noteq> ''.restore-'' @ rnd" using assms by (auto simp: Folders_def)
  then show ?thesis by (intro sibling_parallel) simp
qed

lemma Inspect_folders: "Inspect untar d = Inr mf \<Longrightarrow> distinct (mf_folders mf) \<and> set (mf_folders mf) \<subseteq> set Folders"
proof -
  assume "Inspect untar d = Inr mf"
  then obtain P where P: "mf_folders mf = filter P Folders"
    by (auto simp: Inspect_def Let_def split: prod.splits option.splits if_splits)
  have "distinct Folders" by (simp add: Folders_def)
  then show ?thesis by (simp add: P)
qed

lemma Verify_same: "Verify_archive sha a m = (r, m') \<Longrightarrow> host_same m m' \<and> mc_tree m' = mc_tree m"
  by (auto simp: Verify_archive_def dest!: ReadFile_same dest: host_same_trans split: prod.splits option.splits if_splits)

lemma staging_kept:
  assumes run: "with_staging untar order cfg archive now folders staging m = (r, m')" and "calm m" "distinct folders"
    and order: "\<And>xs. mset (order xs) = mset xs"
    and apart: "\<And>f. f \<in> insert g (set folders) \<Longrightarrow> (dc_data cfg @ [f]) \<parallel> RestoreDir cfg"
    and stg: "staging \<parallel> RestoreDir cfg" "staging \<parallel> (dc_data cfg @ [g])"
    and there: "is_folder m (dc_data cfg @ [g])"
  defines "st \<equiv> show_int (unix_of now)"
  shows "(says_kept r \<longrightarrow> kept (dc_data cfg) m m' g) \<and>
    (kept (dc_data cfg) m m' g \<or> kept_aside (dc_data cfg) (bak (RestoreDir cfg) st) m m' g)"
proof -
  let ?data = "dc_data cfg" and ?rd = "RestoreDir cfg"
  obtain e m1 where ex: "extracted untar archive staging m = (e, m1)" by (cases "extracted untar archive staging m")
  obtain d m0 where rd: "ReadFile archive m = (d, m0)" by (cases "ReadFile archive m")
  have ext: "Extract untar d staging m0 = (e, m1)" using ex rd by (simp add: extracted_def)
  have same1: "host_same m m1" using ReadFile_same[OF rd] Extract_same[OF ext] host_same_trans by blast
  have kept1: "kept ?data m m1 g"
    unfolding kept_def
  proof
    fix x
    have "\<not> may_touch staging (?data @ g # x)"
      unfolding may_touch_def using parallel_not[OF stg(2), of "[]"] parallel_not[OF stg(2), of x]
        prefix_order.trans[of "?data @ [g]" "?data @ g # x" staging] by auto
    from Extract_touch[OF ext this] ReadFile_same[OF rd] show "mc_tree m1 (?data @ g # x) = mc_tree m (?data @ g # x)" by simp
  qed
  obtain r0 m3 where body: "(case e of Some e' \<Rightarrow> (Refused_before (BadArchive e'), m1)
      | None \<Rightarrow> (case StopService m1 of (Some s, m2) \<Rightarrow> (Refused_before (NotStopped s), m2)
         | (None, m2) \<Rightarrow> swap_folders order cfg now folders staging m2)) = (r0, m3)" (is "?body = _") by (cases ?body)
  have fin: "r = r0" "m' = snd (RemoveAll staging m3)"
    using run body unfolding with_staging_def ex by (auto split: prod.splits option.splits)
  obtain okr where rm: "RemoveAll staging m3 = (okr, m')" using fin(2) by (cases "RemoveAll staging m3") simp
  have clean: "mc_tree m' y = mc_tree m3 y" if "\<not> prefix staging y" for y by (rule RemoveAll_tree[OF rm that])
  have "(says_kept r0 \<longrightarrow> kept ?data m m3 g) \<and> (kept ?data m m3 g \<or> kept_aside ?data (bak ?rd st) m m3 g)"
  proof (cases e)
    case (Some e')
    with body have "m3 = m1" by simp
    with kept1 show ?thesis by simp
  next
    case None
    obtain s m2 where st: "StopService m1 = (s, m2)" by (cases "StopService m1")
    have kept2: "kept ?data m m2 g" using kept1 StopService_frame[OF st] by (simp add: kept_def)
    show ?thesis
    proof (cases s)
      case (Some s')
      with body None st have "m3 = m2" by simp
      with kept2 show ?thesis by simp
    next
      case None2: None
      with body None st have sw: "swap_folders order cfg now folders staging m2 = (r0, m3)" by simp
      have "calm m2" using assms(2) same1 StopService_frame[OF st] by (auto simp: calm_def host_same_def)
      from swap_kept[OF sw this assms(3) order apart stg] there kept_folder[OF kept2] kept2
      show ?thesis by (auto simp: st_def kept_def kept_aside_def)
    qed
  qed
  moreover have "kept ?data m3 m' g" unfolding kept_def using clean parallel_not[OF stg(2)] by simp
  moreover have "mc_tree m' (bak ?rd st g @ x) = mc_tree m3 (bak ?rd st g @ x)" for x
  proof (rule clean)
    have "staging \<parallel> bak ?rd st g" unfolding bak_def using parallel_append[OF stg(1), of "[]"] by simp
    from parallel_not[OF this, of x] show "\<not> prefix staging (bak ?rd st g @ x)" by simp
  qed
  ultimately show ?thesis unfolding fin(1) by (auto simp: kept_def kept_aside_def)
qed

text \<open>Whatever happens, a data folder that was there is there afterwards with all its contents, either at its place or in
  the safety copy.\<close>

lemma restore_kept:
  assumes run: "Run_restore untar sha order cfg archive now rnd m = (r, m')" and "calm m"
    and order: "\<And>xs. mset (order xs) = mset xs"
    and apart: "\<And>f. f \<in> insert (''.restore-'' @ rnd) (set Folders) \<Longrightarrow> (dc_data cfg @ [f]) \<parallel> RestoreDir cfg"
    and g: "g \<in> set Folders" and there: "is_folder m (dc_data cfg @ [g])"
  defines "st \<equiv> show_int (unix_of now)"
  shows "(says_kept r \<longrightarrow> kept (dc_data cfg) m m' g) \<and>
    (kept (dc_data cfg) m m' g \<or> kept_aside (dc_data cfg) (bak (RestoreDir cfg) st) m m' g)"
proof -
  let ?data = "dc_data cfg" and ?rd = "RestoreDir cfg" and ?stg = "dc_data cfg @ [''.restore-'' @ rnd]"
  have ag: "(?data @ [g]) \<parallel> ?rd" using apart g by simp
  note sg = staging_parallel[OF g, of ?data rnd]
  obtain ok m1 where mk: "MkdirAll ?rd m = (ok, m1)" by (cases "MkdirAll ?rd m")
  obtain v m2 where vf: "Verify_archive sha archive m1 = (v, m2)" by (cases "Verify_archive sha archive m1")
  obtain i m3 where insp: "inspected untar archive m2 = (i, m3)" by (cases "inspected untar archive m2")
  obtain d where rd: "ReadFile archive m2 = (d, m3)" and ins: "i = Inspect untar d"
    using insp by (auto simp: inspected_def split: prod.splits)
  obtain ok4 m4 where mk4: "MkdirAll ?data m3 = (ok4, m4)" by (cases "MkdirAll ?data m3")
  obtain ok5 m5 where mk5: "MkdirNew ?stg m4 = (ok5, m5)" by (cases "MkdirNew ?stg m4")
  have k1: "kept ?data m m1 g"
    unfolding kept_def
  proof
    fix x
    have "\<not> prefix (?data @ g # x) ?rd" using parallel_not[OF ag, of "[]"] prefix_order.trans[of "?data @ [g]" "?data @ g # x" ?rd] by auto
    with MkdirAll_tree[OF mk] show "mc_tree m1 (?data @ g # x) = mc_tree m (?data @ g # x)" by blast
  qed
  have k3: "kept ?data m m3 g" using k1 Verify_same[OF vf] ReadFile_same[OF rd] by (simp add: kept_def)
  have "mc_tree m4 (?data @ g # x) = mc_tree m3 (?data @ g # x)" for x
    using MkdirAll_tree[OF mk4, of "?data @ g # x"] prefix_length_le[of "?data @ g # x" ?data] by auto
  with k3 have k4: "kept ?data m m4 g" by (simp add: kept_def)
  have k5: "kept ?data m m5 g"
    using k4 MkdirNew_tree[OF mk5, of "?data @ g # x" for x] sg parallel_not[OF sg, of "[]"] by (auto simp: kept_def)
  have same: "host_same m m1" "host_same m m2" "host_same m m5"
    using MkdirAll_same[OF mk] Verify_same[OF vf] ReadFile_same[OF rd] MkdirAll_same[OF mk4] MkdirNew_same[OF mk5]
    by (blast intro: host_same_trans)+
  note unf = run[unfolded Run_restore_def mk prod.case vf insp mk4 mk5]
  consider (early) "m' \<in> {m1, m2, m3, m4, m5}"
    | (go) mf where "i = Inr mf" "with_staging untar order cfg archive now (mf_folders mf) ?stg m5 = (r, m')"
    using unf by (auto split: if_splits option.splits sum.splits)
  then show ?thesis
  proof cases
    case early
    have "kept ?data m m2 g" using k1 Verify_same[OF vf] by (simp add: kept_def)
    with early k1 k3 k4 k5 show ?thesis by auto
  next
    case (go mf)
    note fs = Inspect_folders[OF go(1)[unfolded ins]]
    have "kept ?data m m5 g" by fact
    have ap: "(?data @ [f]) \<parallel> ?rd" if "f \<in> insert g (set (mf_folders mf))" for f using apart that g fs by auto
    have "is_folder m5 (?data @ [g])" using there kept_folder[OF k5] by simp
    from staging_kept[OF go(2) calm_same[OF same(3) assms(2)] _ order ap apart[OF insertI1] sg this] fs k5
    show ?thesis by (auto simp: st_def kept_def kept_aside_def)
  qed
qed

end
