(* ===== verification/Backup.thy ===== *)
theory Backup
  imports Restore Go_Float Go_Strconv Metrics_Sample
begin

text \<open>
  Backups, \<^verbatim>\<open>internal/backup/backup.go\<close>: the archives in the backup directory and their pruning, a run (space, snapshot with the node
  stopped, archive with its hash, pruning) and the systemd timer that schedules it.  The tar command, SHA-256 and what the
  host reports of directories, file times and file systems are parameters; the service name is taken to hold no wildcard.
\<close>

section \<open>Archives\<close>

record backup_config = data_config +
  bc_service :: string
  bc_log :: string
  bc_max :: int
  bc_cadence :: int
  bc_hour :: int
  bc_min_free :: int

record backup_entry =
  be_path :: path
  be_time :: time

text \<open>
  What the host reports beside the tree: the sorted names in a directory, the modification time of a file and the
  statistics of the file system that holds a path.
\<close>

record view =
  vw_names :: "machine \<Rightarrow> path \<Rightarrow> string list"
  vw_mtime :: "machine \<Rightarrow> path \<Rightarrow> time"
  vw_statfs :: "machine \<Rightarrow> path \<Rightarrow> statfs option"

definition entry_name :: "backup_entry \<Rightarrow> string" where
  "entry_name e = trim_suffix (List.last (be_path e)) ''.tar.gz''"

definition TempDir :: "'c data_config_scheme \<Rightarrow> path" where
  "TempDir cfg = dc_backup cfg @ [''temp'']"

text \<open>\<open>zone\<close> is the offset of local time.\<close>

definition ArchiveName :: "string \<Rightarrow> duration \<Rightarrow> time \<Rightarrow> string" where
  "ArchiveName service zone now =
     (case date_of (now + zone) of (y, mo, d) \<Rightarrow> case clock_of (now + zone) of (h, mi, s) \<Rightarrow>
      service @ ''_backup_'' @ show_pad 2 mo @ ''-'' @ show_pad 2 d @ ''-'' @ show_pad 2 (y mod 100) @ ''_'' @
      show_pad 2 h @ show_pad 2 mi @ show_pad 2 s @ ''.tar.gz'')"

definition is_doc :: "machine \<Rightarrow> path \<Rightarrow> bool" where
  "is_doc m p = (case mc_tree m p of Some (Doc d mode) \<Rightarrow> True | _ \<Rightarrow> False)"

text \<open>The pattern \<^verbatim>\<open><service>_backup_*.tar.gz\<close>, for a service name without wildcards.\<close>

definition names_archive :: "string \<Rightarrow> string \<Rightarrow> bool" where
  "names_archive service n \<longleftrightarrow> has_prefix n (service @ ''_backup_'') \<and> has_suffix (drop (length (service @ ''_backup_'')) n) ''.tar.gz''"

definition SortNewestFirst :: "backup_entry list \<Rightarrow> backup_entry list" where
  "SortNewestFirst es = sort_key (\<lambda>e. - be_time e) es"

definition List_backups :: "view \<Rightarrow> backup_config \<Rightarrow> machine \<Rightarrow> backup_entry list" where
  "List_backups vw cfg m =
     (let found = filter (names_archive (bc_service cfg)) (vw_names vw m (dc_backup cfg));
          paths = map (\<lambda>n. dc_backup cfg @ [n]) found;
          complete = filter (\<lambda>p. is_doc m p \<and> exists_at m (HashPath p)) paths in
      SortNewestFirst (map (\<lambda>p. \<lparr> be_path = p, be_time = vw_mtime vw m p \<rparr>) complete))"

definition SelectForPruning :: "backup_entry list \<Rightarrow> int \<Rightarrow> backup_entry list" where
  "SelectForPruning infos keep =
     (let sorted = SortNewestFirst infos; n = (if keep < 0 then 0 else keep) in
      if int (length sorted) \<le> n then [] else drop (nat n) sorted)"

text \<open>Failures to remove are logged only.\<close>

fun prune_each :: "backup_entry list \<Rightarrow> machine \<Rightarrow> machine" where
  "prune_each [] m = m"
| "prune_each (e # es) m =
     prune_each es (snd (RemoveFile (HashPath (be_path e)) (snd (RemoveFile (be_path e) m))))"

definition Prune_backups :: "view \<Rightarrow> backup_config \<Rightarrow> machine \<Rightarrow> machine" where
  "Prune_backups vw cfg m = prune_each (SelectForPruning (List_backups vw cfg m) (bc_max cfg)) m"

text \<open>\<^verbatim>\<open>Duration.Hours\<close> is a float.\<close>

definition hours_of :: "duration \<Rightarrow> rat" where
  "hours_of d = fl (of_int (quot_go d hour) + fl (of_int (rem_go d hour) / 3600000000000))"

definition CadenceReached :: "time \<Rightarrow> time \<Rightarrow> int \<Rightarrow> bool" where
  "CadenceReached prev now days \<longleftrightarrow> days \<le> trunc_rat (fl (hours_of (time_sub now prev) / 24))"

section \<open>Space and directories\<close>

datatype backup_error =
    NoBackupDir
  | SpaceUnknown
  | SpaceLow int
  | NoDataDirectory
  | TempNotCleared
  | ServiceFault service_error
  | CopyFailed string
  | TarFailed
  | SumFailed
  | SumNotWritten
  | NotPublished

definition disk_avail :: "view \<Rightarrow> path \<Rightarrow> machine \<Rightarrow> int option" where
  "disk_avail vw p m = map_option (\<lambda>st. fst (DiskFree st)) (vw_statfs vw m p)"

definition ensureFreeSpace :: "view \<Rightarrow> backup_config \<Rightarrow> machine \<Rightarrow> backup_error option \<times> machine" where
  "ensureFreeSpace vw cfg m =
     (case disk_avail vw (dc_backup cfg) m of
        None \<Rightarrow> (Some SpaceUnknown, m)
      | Some avail \<Rightarrow>
          if bc_min_free cfg \<le> avail then (None, m)
          else
            let m1 = Prune_backups vw cfg m in
            case disk_avail vw (dc_backup cfg) m1 of
              None \<Rightarrow> (Some SpaceUnknown, m1)
            | Some avail2 \<Rightarrow> ((if avail2 < bc_min_free cfg then Some (SpaceLow (quot_go avail2 1024)) else None), m1))"

definition ReadDir :: "view \<Rightarrow> path \<Rightarrow> machine \<Rightarrow> string list option \<times> machine" where
  "ReadDir vw p m =
     (case next_hazard m of (h, m1) \<Rightarrow> ((if fine h \<and> is_folder m1 p then Some (vw_names vw m1 p) else None), m1))"

fun remove_each :: "path \<Rightarrow> string list \<Rightarrow> machine \<Rightarrow> bool \<times> machine" where
  "remove_each dir [] m = (True, m)"
| "remove_each dir (n # ns) m =
     (case RemoveAll (dir @ [n]) m of (ok, m1) \<Rightarrow> if ok then remove_each dir ns m1 else (False, m1))"

definition clearDir :: "view \<Rightarrow> path \<Rightarrow> machine \<Rightarrow> bool \<times> machine" where
  "clearDir vw dir m =
     (case ReadDir vw dir m of (None, m1) \<Rightarrow> (False, m1) | (Some ns, m1) \<Rightarrow> remove_each dir ns m1)"

text \<open>The command \<^verbatim>\<open>cp -a src dst/\<close>: over what is there, whole or up to where it broke off.\<close>

definition overlay :: "path \<Rightarrow> path \<Rightarrow> (path \<Rightarrow> bool) \<Rightarrow> tree \<Rightarrow> tree" where
  "overlay p q S t = (\<lambda>x. if prefix q x \<and> S x \<and> t (p @ drop (length q) x) \<noteq> None then t (p @ drop (length q) x) else t x)"

definition CopyInto :: "path \<Rightarrow> path \<Rightarrow> machine \<Rightarrow> bool \<times> machine" where
  "CopyInto src dst m =
     (case next_hazard m of (h, m1) \<Rightarrow>
      let q = dst @ [List.last src] in
      if src = [] \<or> mc_tree m1 src = None \<or> \<not> is_folder m1 dst \<or> prefix src q then (False, m1)
      else case h of
        Fine \<Rightarrow> (True, m1\<lparr> mc_tree := overlay src q (\<lambda>_. True) (mc_tree m1) \<rparr>)
      | Halfway n S \<Rightarrow> (False, m1\<lparr> mc_tree := overlay src q S (mc_tree m1) \<rparr>)
      | _ \<Rightarrow> (False, m1))"

fun copy_folders :: "path \<Rightarrow> path \<Rightarrow> string list \<Rightarrow> machine \<Rightarrow> backup_error option \<times> machine" where
  "copy_folders data dst [] m = (None, m)"
| "copy_folders data dst (f # fs) m =
     (if \<not> is_folder m (data @ [f]) then copy_folders data dst fs m
      else case CopyInto (data @ [f]) dst m of (ok, m1) \<Rightarrow>
        if \<not> ok then (Some (CopyFailed f), m1) else copy_folders data dst fs m1)"

definition copyData :: "'c data_config_scheme \<Rightarrow> path \<Rightarrow> machine \<Rightarrow> backup_error option \<times> machine" where
  "copyData cfg dst m = copy_folders (dc_data cfg) dst Folders m"

section \<open>The archive\<close>

text \<open>\<open>tar\<close> gives the bytes of the archive of a tree, \<open>sha\<close> the hexadecimal SHA-256.\<close>

definition SHA256File :: "(bytes \<Rightarrow> string) \<Rightarrow> path \<Rightarrow> machine \<Rightarrow> string option \<times> machine" where
  "SHA256File sha p m = (case ReadFile p m of (d, m1) \<Rightarrow> (map_option sha d, m1))"

definition writeArchive :: "(tree \<Rightarrow> bytes) \<Rightarrow> (bytes \<Rightarrow> string) \<Rightarrow> path \<Rightarrow> path \<Rightarrow> machine \<Rightarrow> backup_error option \<times> machine" where
  "writeArchive tar sha srcDir archive m =
     (let partial = up archive @ [List.last archive @ ''.partial''] in
      case WriteOver partial 420 (tar (\<lambda>x. mc_tree m (srcDir @ x))) m of (ok, m1) \<Rightarrow>
      if \<not> ok then (Some TarFailed, snd (RemoveFile partial m1))
      else case SHA256File sha partial m1 of
        (None, m2) \<Rightarrow> (Some SumFailed, snd (RemoveFile partial m2))
      | (Some digest, m2) \<Rightarrow>
          (case WriteOver (HashPath archive) 420 (digest @ [CHR 0x0A]) m2 of (ok3, m3) \<Rightarrow>
           if \<not> ok3 then (Some SumNotWritten, snd (RemoveFile partial m3))
           else case Rename partial archive m3 of (ok4, m4) \<Rightarrow>
             if \<not> ok4 then (Some NotPublished, snd (RemoveFile (HashPath archive) (snd (RemoveFile partial m4))))
             else (None, m4)))"

section \<open>A run\<close>

datatype backup_result = BackedUp path | Skipped | Failed backup_error

fun make_dirs :: "path list \<Rightarrow> machine \<Rightarrow> bool \<times> machine" where
  "make_dirs [] m = (True, m)"
| "make_dirs (p # ps) m = (case MkdirAll p m of (ok, m1) \<Rightarrow> if ok then make_dirs ps m1 else (False, m1))"

text \<open>The snapshot: the node is stopped for the copy and started again, after a failed copy as well if it ran.\<close>

definition snapshot_data :: "'c data_config_scheme \<Rightarrow> machine \<Rightarrow> backup_error option \<times> machine" where
  "snapshot_data cfg m =
     (case Status m of
        (None, m1) \<Rightarrow> (Some (ServiceFault QueryFailed), m1)
      | (Some st, m1) \<Rightarrow>
          (case StopService m1 of
             (Some e, m2) \<Rightarrow> (Some (ServiceFault e), m2)
           | (None, m2) \<Rightarrow>
               (case copyData cfg (TempDir cfg) m2 of
                  (Some e, m3) \<Rightarrow> (Some e, if st = Active then snd (StartService m3) else m3)
                | (None, m3) \<Rightarrow> (case StartService m3 of (Some e, m4) \<Rightarrow> (Some (ServiceFault e), m4) | (None, m4) \<Rightarrow> (None, m4)))))"

definition cadence_skips :: "view \<Rightarrow> backup_config \<Rightarrow> bool \<Rightarrow> time \<Rightarrow> machine \<Rightarrow> bool" where
  "cadence_skips vw cfg interactive now m \<longleftrightarrow>
     \<not> interactive \<and> 0 < bc_cadence cfg \<and>
     (case List_backups vw cfg m of [] \<Rightarrow> False | e # _ \<Rightarrow> \<not> CadenceReached (be_time e) now (bc_cadence cfg))"

definition Run_backup ::
  "view \<Rightarrow> (tree \<Rightarrow> bytes) \<Rightarrow> (bytes \<Rightarrow> string) \<Rightarrow> backup_config \<Rightarrow> bool \<Rightarrow> duration \<Rightarrow> time \<Rightarrow> time \<Rightarrow> machine \<Rightarrow> backup_result \<times> machine" where
  "Run_backup vw tar sha cfg interactive zone now later m =
     (case make_dirs [dc_backup cfg, TempDir cfg, RestoreDir cfg] m of (ok, m1) \<Rightarrow>
      if \<not> ok then (Failed NoBackupDir, m1)
      else if cadence_skips vw cfg interactive now m1 then (Skipped, m1)
      else case ensureFreeSpace vw cfg m1 of
        (Some e, m2) \<Rightarrow> (Failed e, m2)
      | (None, m2) \<Rightarrow>
          if \<not> is_folder m2 (dc_data cfg) then (Failed NoDataDirectory, m2)
          else case clearDir vw (TempDir cfg) m2 of (ok3, m3) \<Rightarrow>
            if \<not> ok3 then (Failed TempNotCleared, m3)
            else case snapshot_data cfg m3 of
              (Some e, m4) \<Rightarrow> (Failed e, m4)
            | (None, m4) \<Rightarrow>
                let archive = dc_backup cfg @ [ArchiveName (bc_service cfg) zone later] in
                case writeArchive tar sha (TempDir cfg) archive m4 of
                  (Some e, m5) \<Rightarrow> (Failed e, m5)
                | (None, m5) \<Rightarrow>
                    (case clearDir vw (TempDir cfg) m5 of (ok6, m6) \<Rightarrow>
                     if \<not> ok6 then (Failed TempNotCleared, m6)
                     else (BackedUp archive, Prune_backups vw cfg m6)))"

section \<open>The schedule\<close>

definition TimerName :: string where "TimerName = ''nomctl-backup''"

definition hex_byte :: "string \<Rightarrow> int" where
  "hex_byte s = (case map hex_val s of [Some a, Some b] \<Rightarrow> 16 * a + b | _ \<Rightarrow> 0)"

definition ScheduleTime :: "(bytes \<Rightarrow> string) \<Rightarrow> string \<Rightarrow> string \<Rightarrow> int \<Rightarrow> int \<times> int" where
  "ScheduleTime sha hostname service override =
     (let h = sha (hostname @ service); mi = hex_byte (take 2 h) mod 60 in
      (if 0 \<le> override \<and> override \<le> 23 then override else 2 + hex_byte (take 2 (drop 2 h)) mod 3, mi))"

definition nl :: string where "nl = [CHR 0x0A]"

definition TimerUnit :: "int \<Rightarrow> int \<Rightarrow> string" where
  "TimerUnit h mi =
     ''[Unit]'' @ nl @ ''Description=Scheduled '' @ TimerName @ '' backup'' @ nl @ nl @ ''[Timer]'' @ nl @
     ''OnCalendar=*-*-* '' @ show_pad 2 h @ '':'' @ show_pad 2 mi @ '':00'' @ nl @ ''Persistent=true'' @ nl @ nl @
     ''[Install]'' @ nl @ ''WantedBy=timers.target'' @ nl"

definition backslash :: char where "backslash = CHR 0x5C"
definition dquote :: char where "dquote = CHR 0x22"

fun replace_char :: "char \<Rightarrow> string \<Rightarrow> string \<Rightarrow> string" where
  "replace_char c r [] = []"
| "replace_char c r (d # ds) = (if d = c then r else [d]) @ replace_char c r ds"

definition unitQuote :: "string \<Rightarrow> string" where
  "unitQuote s = replace_char dquote [backslash, dquote] (replace_char backslash [backslash, backslash] s)"

definition env_line :: "string \<Rightarrow> string \<Rightarrow> string" where
  "env_line k v = ''Environment='' @ [dquote] @ k @ ''='' @ v @ [dquote]"

definition path_text :: "path \<Rightarrow> string" where
  "path_text p = (if p = [] then ''/'' else concat (map (\<lambda>e. CHR ''/'' # e) p))"

definition exec_line :: "backup_config \<Rightarrow> string \<Rightarrow> string" where
  "exec_line cfg execPath =
     ''ExecStart='' @ unitQuote execPath @ '' backup --skip-preflight --max-backups '' @ show_int (bc_max cfg) @
     '' --cadence '' @ show_int (bc_cadence cfg)"

definition ServiceUnit :: "backup_config \<Rightarrow> string \<Rightarrow> string" where
  "ServiceUnit cfg execPath =
     ''[Unit]'' @ nl @ ''Description='' @ TimerName @ '' backup job'' @ nl @ nl @ ''[Service]'' @ nl @ ''Type=oneshot'' @ nl @
     env_line ''NOMCTL_BACKUP_DIR'' (unitQuote (path_text (dc_backup cfg))) @ nl @
     env_line ''NOMCTL_ZNN_DIR'' (unitQuote (path_text (dc_data cfg))) @ nl @
     env_line ''NOMCTL_SERVICE_NAME'' (unitQuote (bc_service cfg)) @ nl @
     env_line ''NOMCTL_LOG_FILE'' (unitQuote (bc_log cfg)) @ nl @
     env_line ''NOMCTL_MIN_FREE_SPACE_KB'' (show_int (bc_min_free cfg)) @ nl @
     exec_line cfg execPath @ nl"

fun cadence_arg :: "string list \<Rightarrow> (int \<times> bool) option" where
  "cadence_arg [] = None"
| "cadence_arg [f] = None"
| "cadence_arg (f # g # fs) =
     (if f = ''--cadence'' then Some (atoi_val g, parse_int g \<noteq> None) else cadence_arg (g # fs))"

fun cadence_lines :: "string list \<Rightarrow> int \<times> bool" where
  "cadence_lines [] = (0, False)"
| "cadence_lines (l # ls) =
     (if \<not> has_prefix l ''ExecStart='' then cadence_lines ls
      else case cadence_arg (str_fields l) of Some r \<Rightarrow> r | None \<Rightarrow> cadence_lines ls)"

definition ParseCadence :: "string \<Rightarrow> int \<times> bool" where
  "ParseCadence unit = cadence_lines (split_on (CHR 0x0A) unit)"

definition UnitDir :: path where "UnitDir = [''etc'', ''systemd'', ''system'']"

definition InstalledCadence :: "machine \<Rightarrow> (int \<times> bool) \<times> machine" where
  "InstalledCadence m =
     (case ReadFile (UnitDir @ [TimerName @ ''.service'']) m of
        (None, m1) \<Rightarrow> ((0, False), m1) | (Some d, m1) \<Rightarrow> (ParseCadence d, m1))"

text \<open>The path of the executable, in quotes of its own when it has white space.\<close>

definition quoted_exec :: "string \<Rightarrow> string" where
  "quoted_exec execPath =
     (if CHR '' '' \<in> set execPath \<or> CHR 0x09 \<in> set execPath then [dquote] @ unitQuote execPath @ [dquote] else execPath)"

datatype schedule_error = ServiceUnitFailed | TimerUnitFailed | ReloadFailed | EnableFailed

definition Schedule ::
  "(bytes \<Rightarrow> string) \<Rightarrow> string \<Rightarrow> string \<Rightarrow> backup_config \<Rightarrow> machine \<Rightarrow> schedule_error option \<times> machine" where
  "Schedule sha host execPath cfg m =
     (case ScheduleTime sha host (bc_service cfg) (bc_hour cfg) of (h, mi) \<Rightarrow>
      case WriteOver (UnitDir @ [TimerName @ ''.service'']) 420 (ServiceUnit cfg (quoted_exec execPath)) m of (ok1, m1) \<Rightarrow>
      if \<not> ok1 then (Some ServiceUnitFailed, m1)
      else case WriteOver (UnitDir @ [TimerName @ ''.timer'']) 420 (TimerUnit h mi) m1 of (ok2, m2) \<Rightarrow>
        if \<not> ok2 then (Some TimerUnitFailed, m2)
        else case ctl_exit 0 m2 of (c3, m3) \<Rightarrow>
          if c3 \<noteq> 0 then (Some ReloadFailed, m3)
          else case ctl_exit 0 m3 of (c4, m4) \<Rightarrow> ((if c4 \<noteq> 0 then Some EnableFailed else None), m4))"

section \<open>The unit when \<open>systemctl\<close> does as it is told\<close>

definition obedient :: "machine \<Rightarrow> bool" where
  "obedient m \<longleftrightarrow> mc_known m \<and> mc_ctl m = []"

lemma Status_obedient: "obedient m \<Longrightarrow> Status m = (Some (if mc_active m then Active else Inactive), m)"
  by (simp add: obedient_def Status_def ctl_exit_def)

lemma StartService_obedient: "obedient m \<Longrightarrow> StartService m = (None, m\<lparr> mc_active := True \<rparr>)"
  by (simp add: obedient_def StartService_def Exists_def Status_def ctl_exit_def run_ctl_def)

lemma StopService_obedient: "obedient m \<Longrightarrow> StopService m = (None, m\<lparr> mc_active := False \<rparr>)"
  by (simp add: obedient_def StopService_def Status_def ctl_exit_def run_ctl_def)

lemma obedient_active [simp]: "obedient (m\<lparr> mc_active := b \<rparr>) = obedient m"
  by (simp add: obedient_def)

lemma obedient_same: "host_same m m' \<Longrightarrow> obedient m' = obedient m"
  by (simp add: obedient_def host_same_def)

section \<open>A backup leaves the node up\<close>

lemma CopyInto_same: "CopyInto src dst m = (ok, m') \<Longrightarrow> host_same m m'"
  by (auto simp: CopyInto_def Let_def dest!: next_hazard_same split: prod.splits if_splits hazard.splits)

lemma copy_folders_same: "copy_folders data dst fs m = (e, m') \<Longrightarrow> host_same m m'"
  by (induction fs arbitrary: m) (auto dest!: CopyInto_same dest: host_same_trans split: if_splits prod.splits)

lemma RemoveFile_snd: "host_same m (snd (RemoveFile p m))"
  using RemoveFile_same[of p m] by (cases "RemoveFile p m") auto

lemma prune_each_same: "host_same m (prune_each es m)"
proof (induction es arbitrary: m)
  case (Cons e es)
  with RemoveFile_snd show ?case by (simp, blast intro: host_same_trans)
qed simp

lemma remove_each_same: "remove_each dir ns m = (ok, m') \<Longrightarrow> host_same m m'"
  by (induction ns arbitrary: m) (auto dest!: RemoveAll_same dest: host_same_trans split: if_splits prod.splits)

lemma clearDir_same: "clearDir vw dir m = (ok, m') \<Longrightarrow> host_same m m'"
  by (auto simp: clearDir_def ReadDir_def dest!: next_hazard_same remove_each_same dest: host_same_trans
      split: prod.splits option.splits if_splits)

lemma make_dirs_same: "make_dirs ps m = (ok, m') \<Longrightarrow> host_same m m'"
  by (induction ps arbitrary: m) (auto dest!: MkdirAll_same dest: host_same_trans split: if_splits prod.splits)

lemma writeArchive_same: "writeArchive tar sha src a m = (e, m') \<Longrightarrow> host_same m m'"
  by (auto simp: writeArchive_def SHA256File_def Let_def dest!: WriteOver_same ReadFile_same Rename_same
      split: prod.splits if_splits option.splits) (blast intro: host_same_trans RemoveFile_snd)+

lemma ensureFreeSpace_same: "ensureFreeSpace vw cfg m = (e, m') \<Longrightarrow> host_same m m'"
  by (auto simp: ensureFreeSpace_def Prune_backups_def Let_def prune_each_same split: option.splits if_splits)

lemma snapshot_up:
  assumes "snapshot_data cfg m = (e, m')" "obedient m" "mc_active m"
  shows "mc_active m'"
proof -
  let ?m2 = "m\<lparr> mc_active := False \<rparr>"
  obtain r m3 where c: "copyData cfg (TempDir cfg) ?m2 = (r, m3)" by (cases "copyData cfg (TempDir cfg) ?m2")
  have "host_same ?m2 m3" using c by (simp add: copyData_def copy_folders_same)
  then have "obedient m3" using assms(2) obedient_same[of ?m2 m3] by simp
  from assms c StartService_obedient[OF this] show ?thesis
    by (auto simp: snapshot_data_def Status_obedient StopService_obedient split: option.splits)
qed

lemma Run_backup_up:
  assumes run: "Run_backup vw tar sha cfg i zone now later m = (r, m')" and "obedient m" "mc_active m"
  shows "mc_active m'"
proof -
  have keep: "host_same a b \<Longrightarrow> mc_active b = mc_active a" for a b by (simp add: host_same_def)
  obtain ok1 m1 where 1: "make_dirs [dc_backup cfg, TempDir cfg, RestoreDir cfg] m = (ok1, m1)"
    by (cases "make_dirs [dc_backup cfg, TempDir cfg, RestoreDir cfg] m")
  obtain e2 m2 where 2: "ensureFreeSpace vw cfg m1 = (e2, m2)" by (cases "ensureFreeSpace vw cfg m1")
  obtain ok3 m3 where 3: "clearDir vw (TempDir cfg) m2 = (ok3, m3)" by (cases "clearDir vw (TempDir cfg) m2")
  obtain e4 m4 where 4: "snapshot_data cfg m3 = (e4, m4)" by (cases "snapshot_data cfg m3")
  let ?a = "dc_backup cfg @ [ArchiveName (bc_service cfg) zone later]"
  obtain e5 m5 where 5: "writeArchive tar sha (TempDir cfg) ?a m4 = (e5, m5)" by (cases "writeArchive tar sha (TempDir cfg) ?a m4")
  obtain ok6 m6 where 6: "clearDir vw (TempDir cfg) m5 = (ok6, m6)" by (cases "clearDir vw (TempDir cfg) m5")
  note s1 = make_dirs_same[OF 1]
  note s2 = host_same_trans[OF s1 ensureFreeSpace_same[OF 2]]
  note s3 = host_same_trans[OF s2 clearDir_same[OF 3]]
  have up: "mc_active m1" "mc_active m2" "mc_active m3" using keep[OF s1] keep[OF s2] keep[OF s3] assms(3) by simp_all
  have "mc_active m4" using snapshot_up[OF 4] obedient_same[OF s3] assms(2) up by simp
  then have late: "mc_active m4" "mc_active m5" "mc_active m6" "mc_active (Prune_backups vw cfg m6)"
    using keep[OF writeArchive_same[OF 5]] keep[OF clearDir_same[OF 6]] keep[OF prune_each_same] by (simp_all add: Prune_backups_def)
  from run[unfolded Run_backup_def 1 prod.case 2 3 4 Let_def 5 6] up late show ?thesis
    by (auto split: if_splits option.splits)
qed

section \<open>What is published verifies\<close>

text \<open>A new file under the name of an archive has its hash beside it, whatever broke on the way.\<close>

lemma WriteOver_ok: "WriteOver p mode data m = (True, m') \<Longrightarrow> \<exists>mode'. mc_tree m' p = Some (Doc data mode')"
  by (auto simp: WriteOver_def split: prod.splits if_splits hazard.splits)

lemma RemoveFile_snd_tree: "x \<noteq> p \<Longrightarrow> mc_tree (snd (RemoveFile p m)) x = mc_tree m x"
  using RemoveFile_tree[of p m _ _ x] by (cases "RemoveFile p m") auto

lemma suffix_names:
  assumes "has_suffix n ''.tar.gz''"
  shows "n @ ''.partial'' \<noteq> n" "trim_suffix n ''.tar.gz'' @ ''.hash'' \<noteq> n" "trim_suffix n ''.tar.gz'' @ ''.hash'' \<noteq> n @ ''.partial''"
proof -
  from assms obtain k where n: "n = k @ ''.tar.gz''" by (auto simp: has_suffix_iff)
  show "n @ ''.partial'' \<noteq> n" "trim_suffix n ''.tar.gz'' @ ''.hash'' \<noteq> n" by (simp_all add: n)
  have "List.last (trim_suffix n ''.tar.gz'' @ ''.hash'') \<noteq> List.last (n @ ''.partial'')" by simp
  then show "trim_suffix n ''.tar.gz'' @ ''.hash'' \<noteq> n @ ''.partial''" by metis
qed

lemma HashPath_snoc: "HashPath (u @ [n]) = u @ [trim_suffix n ''.tar.gz'' @ ''.hash'']"
  by (simp add: HashPath_def up_def)

lemma writeArchive_published:
  assumes run: "writeArchive tar sha src (u @ [n]) m = (e, m')" and tgz: "has_suffix n ''.tar.gz''"
    and new: "mc_tree m (u @ [n]) = None" and there: "mc_tree m' (u @ [n]) = Some (Doc d mode)"
  shows "e = None \<and> d = tar (\<lambda>x. mc_tree m (src @ x)) \<and> (\<exists>mode'. mc_tree m' (HashPath (u @ [n])) = Some (Doc (sha d @ [CHR 0x0A]) mode'))"
proof -
  let ?a = "u @ [n]" and ?p = "u @ [n @ ''.partial'']" and ?h = "u @ [trim_suffix n ''.tar.gz'' @ ''.hash'']"
  note h = HashPath_snoc[of u n]
  note ne = suffix_names[OF tgz]
  let ?bytes = "tar (\<lambda>x. mc_tree m (src @ x))"
  obtain ok1 m1 where 1: "WriteOver ?p 420 ?bytes m = (ok1, m1)" by (cases "WriteOver ?p 420 ?bytes m")
  obtain dg m2 where 2: "ReadFile ?p m1 = (dg, m2)" by (cases "ReadFile ?p m1")
  have t2: "mc_tree m2 = mc_tree m1" using ReadFile_same[OF 2] by simp
  have a1: "mc_tree m1 ?a = None" using WriteOver_tree[OF 1, of ?a] new ne(1) by simp
  have gone: "mc_tree (snd (RemoveFile ?p m0)) ?a = mc_tree m0 ?a" for m0 by (rule RemoveFile_snd_tree) (use ne(1) in auto)
  note unf = run[unfolded writeArchive_def Let_def up_def butlast_snoc last_snoc 1 prod.case SHA256File_def 2 h]
  have ok1 using unf there a1 gone by (cases ok1) auto
  with 1 unf have 1: "WriteOver ?p 420 ?bytes m = (True, m1)" by simp
  obtain mode1 where p1: "mc_tree m1 ?p = Some (Doc ?bytes mode1)" using WriteOver_ok[OF 1] by blast
  show ?thesis
  proof (cases dg)
    case None
    with unf \<open>ok1\<close> there a1 gone t2 show ?thesis by auto
  next
    case (Some dd)
    have dd: "dd = ?bytes" using 2 Some p1 next_hazardD(1) by (auto simp: ReadFile_def split: prod.splits option.splits inode.splits if_splits)
    obtain ok3 m3 where 3: "WriteOver ?h 420 (sha dd @ [CHR 0x0A]) m2 = (ok3, m3)" by (cases "WriteOver ?h 420 (sha dd @ [CHR 0x0A]) m2")
    have a3: "mc_tree m3 ?a = None" and p3: "mc_tree m3 ?p = Some (Doc ?bytes mode1)"
      using WriteOver_tree[OF 3, of ?a] WriteOver_tree[OF 3, of ?p] ne a1 p1 t2 by simp_all
    note unf2 = unf[unfolded Some option.map option.case 3 prod.case]
    have ok3 using unf2 \<open>ok1\<close> there a3 gone by (cases ok3) auto
    then have "WriteOver ?h 420 (sha dd @ [CHR 0x0A]) m2 = (True, m3)" using 3 by simp
    from WriteOver_ok[OF this] obtain mode3 where h3: "mc_tree m3 ?h = Some (Doc (sha dd @ [CHR 0x0A]) mode3)" by blast
    obtain ok4 m4 where 4: "Rename ?p ?a m3 = (ok4, m4)" by (cases "Rename ?p ?a m3")
    note unf3 = unf2[unfolded 4 prod.case]
    show ?thesis
    proof (cases ok4)
      case False
      have "mc_tree (snd (RemoveFile ?h (snd (RemoveFile ?p m4)))) ?a = mc_tree m4 ?a"
        by (subst RemoveFile_snd_tree, use ne(2) in simp) (rule gone)
      with False unf3 \<open>ok1\<close> \<open>ok3\<close> there a3 Rename_failed[of ?p ?a m3 m4] 4 show ?thesis by auto
    next
      case True
      then have r: "e = None" "m' = m4" using unf3 \<open>ok1\<close> \<open>ok3\<close> by simp_all
      have 4: "Rename ?p ?a m3 = (True, m4)" using 4 True by simp
      have np: "\<not> prefix ?a ?p" "\<not> prefix ?p ?h" "\<not> prefix ?a ?h" using ne by simp_all
      have "d = ?bytes" using Rename_ok(1)[OF 4 np(1), of "[]"] p3 there r(2) by simp
      moreover have "mc_tree m4 ?h = mc_tree m3 ?h" by (rule Rename_tree[OF 4 np(2,3)])
      ultimately show ?thesis using r h3 h dd by simp
    qed
  qed
qed

section \<open>Pruning\<close>

lemma SortNewestFirst_sorted: "sorted (map (\<lambda>e. - be_time e) (SortNewestFirst es))"
  by (simp add: SortNewestFirst_def)

lemma SortNewestFirst_idem [simp]: "SortNewestFirst (SortNewestFirst es) = SortNewestFirst es"
  unfolding SortNewestFirst_def by (rule sort_key_id_if_sorted) simp

lemma SortNewestFirst_set [simp]: "set (SortNewestFirst es) = set es"
  by (simp add: SortNewestFirst_def)

lemma SelectForPruning_drop: "SelectForPruning es keep = drop (nat keep) (SortNewestFirst es)"
  by (auto simp: SelectForPruning_def Let_def nat_le_iff)

text \<open>What is selected is never newer than what stays.\<close>

lemma selected_older:
  assumes "d \<in> set (drop k (SortNewestFirst es))" "e \<in> set (take k (SortNewestFirst es))"
  shows "be_time d \<le> be_time e"
proof -
  have "sorted (map (\<lambda>e. - be_time e) (take k (SortNewestFirst es) @ drop k (SortNewestFirst es)))"
    by (simp add: SortNewestFirst_sorted)
  then have "\<forall>x \<in> set (map (\<lambda>e. - be_time e) (take k (SortNewestFirst es))). \<forall>y \<in> set (map (\<lambda>e. - be_time e) (drop k (SortNewestFirst es))). x \<le> y"
    unfolding map_append sorted_append by blast
  with assms show ?thesis by simp
qed

lemma prune_each_tree:
  "\<forall>e \<in> set es. x \<noteq> be_path e \<and> x \<noteq> HashPath (be_path e) \<Longrightarrow> mc_tree (prune_each es m) x = mc_tree m x"
  by (induction es arbitrary: m) (simp_all add: RemoveFile_snd_tree)

lemma prune_each_gone:
  assumes "mc_hazards m = []" "e \<in> set es" "is_doc m (be_path e)"
  shows "mc_tree (prune_each es m) (be_path e) = None"
proof -
  have none: "mc_tree m p = None \<Longrightarrow> mc_tree (snd (RemoveFile q m)) p = None" for p q m
    by (auto simp: RemoveFile_def next_hazard_def split: list.splits option.splits inode.splits)
  have stay: "mc_tree m p = None \<Longrightarrow> mc_tree (prune_each es m) p = None" for p m es
    by (induction es arbitrary: m) (simp_all add: none)
  have haz: "mc_hazards m = [] \<Longrightarrow> mc_hazards (snd (RemoveFile p m)) = []" for p m
    using RemoveFile_snd[of m p] by (auto simp: host_same_def)
  have rm: "mc_hazards m = [] \<Longrightarrow> is_doc m p \<Longrightarrow> mc_tree (snd (RemoveFile p m)) p = None" for p m
    by (auto simp: RemoveFile_def next_hazard_def is_doc_def split: option.splits inode.splits)
  have keep: "is_doc m p \<Longrightarrow> is_doc (snd (RemoveFile q m)) p \<or> mc_tree (snd (RemoveFile q m)) p = None" for p q m
    by (cases "p = q") (auto simp: is_doc_def RemoveFile_snd_tree RemoveFile_def next_hazard_def split: option.splits inode.splits list.splits)
  show ?thesis using assms
  proof (induction es arbitrary: m)
    case (Cons x es)
    let ?m1 = "snd (RemoveFile (be_path x) m)" and ?m2 = "snd (RemoveFile (HashPath (be_path x)) (snd (RemoveFile (be_path x) m)))"
    have h: "mc_hazards ?m2 = []" using haz Cons.prems(1) by simp
    show ?case
    proof (cases "mc_tree ?m2 (be_path e) = None")
      case True
      then show ?thesis by (simp add: stay)
    next
      case False
      then have "e \<noteq> x" using rm[OF Cons.prems(1), of "be_path e"] Cons.prems(3) none by metis
      moreover have "is_doc ?m2 (be_path e)" using keep[OF Cons.prems(3)] keep none False by metis
      ultimately show ?thesis using Cons.IH[OF h] Cons.prems(2) by simp
    qed
  qed simp
qed

lemma names_archive_suffix: "names_archive service n \<Longrightarrow> has_suffix n ''.tar.gz''"
proof -
  assume a: "names_archive service n"
  then obtain t where "n = (service @ ''_backup_'') @ t" "has_suffix (drop (length (service @ ''_backup_'')) n) ''.tar.gz''"
    unfolding names_archive_def has_prefix_iff by blast
  then show ?thesis by (auto simp: has_suffix_iff)
qed

lemma List_backups_entry:
  assumes "e \<in> set (List_backups vw cfg m)"
  obtains n where "be_path e = dc_backup cfg @ [n]" "has_suffix n ''.tar.gz''" "n \<in> set (vw_names vw m (dc_backup cfg))"
    "is_doc m (be_path e)" "exists_at m (HashPath (be_path e))" "be_time e = vw_mtime vw m (be_path e)"
  using assms by (auto simp: List_backups_def Let_def dest: names_archive_suffix)

lemma archive_paths:
  assumes "has_suffix n ''.tar.gz''" "has_suffix k ''.tar.gz''"
  shows "HashPath (u @ [n]) \<noteq> u @ [k]" "HashPath (u @ [n]) = HashPath (u @ [k]) \<Longrightarrow> n = k"
proof -
  have "List.last (trim_suffix n ''.tar.gz'' @ ''.hash'') \<noteq> List.last k"
    using assms(2) by (auto simp: has_suffix_iff)
  then show "HashPath (u @ [n]) \<noteq> u @ [k]" by (auto simp: HashPath_snoc)
  show "HashPath (u @ [n]) = HashPath (u @ [k]) \<Longrightarrow> n = k"
    using assms by (auto simp: HashPath_snoc has_suffix_iff)
qed

lemma List_backups_distinct:
  assumes "distinct (vw_names vw m (dc_backup cfg))"
  shows "distinct (map be_path (List_backups vw cfg m))"
proof -
  have "distinct (map (\<lambda>n. dc_backup cfg @ [n]) ns)" if "distinct ns" for ns
    using that by (simp add: distinct_map inj_on_def)
  with assms have d: "distinct (map be_path (map (\<lambda>p. \<lparr> be_path = p, be_time = vw_mtime vw m p \<rparr>)
     (filter (\<lambda>p. is_doc m p \<and> exists_at m (HashPath p)) (map (\<lambda>n. dc_backup cfg @ [n]) (filter (names_archive (bc_service cfg)) (vw_names vw m (dc_backup cfg)))))))"
    by (simp add: comp_def)
  have "mset (map be_path (SortNewestFirst es)) = mset (map be_path es)" for es
    by (simp add: SortNewestFirst_def)
  with d show ?thesis unfolding List_backups_def Let_def using mset_eq_imp_distinct_iff by blast
qed

text \<open>The newest complete archives stay with their hashes; those removed are not newer.\<close>

lemma Prune_keeps:
  assumes dist: "distinct (vw_names vw m (dc_backup cfg))" and e: "e \<in> set (take (nat (bc_max cfg)) (List_backups vw cfg m))"
  shows "mc_tree (Prune_backups vw cfg m) (be_path e) = mc_tree m (be_path e)"
    "mc_tree (Prune_backups vw cfg m) (HashPath (be_path e)) = mc_tree m (HashPath (be_path e))"
proof -
  let ?es = "List_backups vw cfg m" and ?k = "nat (bc_max cfg)"
  have sel: "SelectForPruning ?es (bc_max cfg) = drop ?k ?es"
    by (simp add: SelectForPruning_drop List_backups_def Let_def)
  have "distinct (map be_path (take ?k ?es @ drop ?k ?es))" using List_backups_distinct[OF dist] by simp
  then have disj: "be_path ` set (take ?k ?es) \<inter> be_path ` set (drop ?k ?es) = {}" unfolding map_append distinct_append by simp
  have ne: "be_path d \<noteq> be_path e \<and> HashPath (be_path d) \<noteq> be_path e \<and> HashPath (be_path d) \<noteq> HashPath (be_path e) \<and> be_path d \<noteq> HashPath (be_path e)"
    if "d \<in> set (drop ?k ?es)" for d
  proof -
    have dd: "d \<in> set ?es" "e \<in> set ?es" using that e by (auto dest: in_set_dropD in_set_takeD)
    obtain n where n: "be_path d = dc_backup cfg @ [n]" "has_suffix n ''.tar.gz''" by (rule List_backups_entry[OF dd(1)])
    obtain k where k: "be_path e = dc_backup cfg @ [k]" "has_suffix k ''.tar.gz''" by (rule List_backups_entry[OF dd(2)])
    have "be_path d \<noteq> be_path e" using disj that e by blast
    with archive_paths[OF n(2) k(2), of "dc_backup cfg"] archive_paths(1)[OF k(2) n(2), of "dc_backup cfg"] show ?thesis
      unfolding n(1) k(1) by auto
  qed
  show "mc_tree (Prune_backups vw cfg m) (be_path e) = mc_tree m (be_path e)"
    "mc_tree (Prune_backups vw cfg m) (HashPath (be_path e)) = mc_tree m (HashPath (be_path e))"
    unfolding Prune_backups_def sel by (rule prune_each_tree; use ne in metis)+
qed

lemma Prune_drops:
  assumes "e \<in> set (drop (nat (bc_max cfg)) (List_backups vw cfg m))" "mc_hazards m = []"
  shows "mc_tree (Prune_backups vw cfg m) (be_path e) = None"
    "\<forall>k \<in> set (take (nat (bc_max cfg)) (List_backups vw cfg m)). be_time e \<le> be_time k"
proof -
  let ?es = "List_backups vw cfg m"
  have srt: "SortNewestFirst ?es = ?es" by (simp add: List_backups_def Let_def)
  have "is_doc m (be_path e)" using assms(1) by (auto dest!: in_set_dropD elim: List_backups_entry)
  with assms prune_each_gone[OF assms(2), of e] show "mc_tree (Prune_backups vw cfg m) (be_path e) = None"
    by (simp add: Prune_backups_def SelectForPruning_drop srt)
  show "\<forall>k \<in> set (take (nat (bc_max cfg)) ?es). be_time e \<le> be_time k"
    using selected_older[of e _ ?es] assms(1) by (simp add: srt)
qed

section \<open>A backup does not touch the data\<close>

text \<open>Every call of a run stays in the backup directory or on the way to it.\<close>

definition off :: "path \<Rightarrow> machine \<Rightarrow> machine \<Rightarrow> bool" where
  "off dir m m' \<longleftrightarrow> (\<forall>x. x \<parallel> dir \<longrightarrow> mc_tree m' x = mc_tree m x)"

lemma off_refl [simp]: "off dir m m" by (simp add: off_def)

lemma off_trans: "off dir a b \<Longrightarrow> off dir b c \<Longrightarrow> off dir a c"
  by (simp add: off_def)

lemma off_active [simp]: "off dir m (m\<lparr> mc_active := b \<rparr>)" by (simp add: off_def)

lemma parallel_below: "x \<parallel> dir \<Longrightarrow> \<not> prefix x (dir @ y)" "x \<parallel> dir \<Longrightarrow> \<not> prefix (dir @ y) x"
  unfolding parallel_def by (meson prefixI prefix_same_cases prefix_order.trans)+

lemma offI: "(\<And>x. x \<parallel> dir \<Longrightarrow> mc_tree m' x = mc_tree m x) \<Longrightarrow> off dir m m'"
  by (simp add: off_def)

lemma off_MkdirAll: "MkdirAll (dir @ p) m = (ok, m') \<Longrightarrow> off dir m m'"
  by (rule offI) (metis MkdirAll_tree parallel_below(1))

lemma off_WriteOver: "WriteOver (dir @ p) mode d m = (ok, m') \<Longrightarrow> off dir m m'"
  by (rule offI) (metis WriteOver_tree parallel_below(1) prefix_order.refl)

lemma off_RemoveAll: "RemoveAll (dir @ p) m = (ok, m') \<Longrightarrow> off dir m m'"
  by (rule offI) (metis RemoveAll_tree parallel_below(2))

lemma off_RemoveFile: "RemoveFile (dir @ p) m = (ok, m') \<Longrightarrow> off dir m m'"
  by (rule offI) (metis RemoveFile_tree parallel_below(1) prefix_order.refl)

lemma off_Rename: "Rename (dir @ p) (dir @ q) m = (ok, m') \<Longrightarrow> off dir m m'"
  by (rule offI) (metis Rename_tree parallel_below(2))

lemma off_ReadFile: "ReadFile a m = (r, m') \<Longrightarrow> off dir m m'"
  by (rule offI) (simp add: ReadFile_same)

lemmas off_calls = off_MkdirAll off_WriteOver off_RemoveAll off_RemoveFile off_Rename off_ReadFile

lemma off_make_dirs: "make_dirs ps m = (ok, m') \<Longrightarrow> \<forall>p \<in> set ps. prefix dir p \<Longrightarrow> off dir m m'"
  by (induction ps arbitrary: m) (auto elim!: prefixE dest!: off_calls(1) intro: off_trans split: prod.splits if_splits)

lemma off_remove: "off dir m (snd (RemoveFile (dir @ p) m))"
  using off_calls(4)[of dir p m] by (cases "RemoveFile (dir @ p) m") auto

lemma off_prune: "\<forall>e \<in> set es. \<exists>n. be_path e = dir @ [n] \<Longrightarrow> off dir m (prune_each es m)"
proof (induction es arbitrary: m)
  case (Cons e es)
  then obtain n where n: "be_path e = dir @ [n]" by auto
  have "off dir m (snd (RemoveFile (HashPath (be_path e)) (snd (RemoveFile (be_path e) m))))"
    unfolding n HashPath_snoc by (rule off_trans[OF off_remove off_remove])
  moreover have "\<forall>e \<in> set es. \<exists>n. be_path e = dir @ [n]" using Cons.prems by simp
  ultimately show ?case unfolding prune_each.simps by (blast intro: off_trans Cons.IH)
qed simp

lemma off_Prune: "off (dc_backup cfg) m (Prune_backups vw cfg m)"
  unfolding Prune_backups_def SelectForPruning_drop
  by (rule off_prune) (metis List_backups_entry SortNewestFirst_set in_set_dropD)

lemma off_ensureFreeSpace: "ensureFreeSpace vw cfg m = (e, m') \<Longrightarrow> off (dc_backup cfg) m m'"
  by (auto simp: ensureFreeSpace_def Let_def off_Prune split: option.splits if_splits)

lemma off_remove_each: "remove_each (dir @ p) ns m = (ok, m') \<Longrightarrow> off dir m m'"
  by (induction ns arbitrary: m) (auto dest!: off_calls(3) intro: off_trans split: if_splits prod.splits)

lemma off_clearDir: "clearDir vw (dir @ p) m = (ok, m') \<Longrightarrow> off dir m m'"
  by (auto simp: clearDir_def ReadDir_def off_def dest!: next_hazardD(1) dest: off_remove_each[unfolded off_def, rule_format]
      split: prod.splits option.splits if_splits)

lemma off_copy: "copy_folders data (dir @ p) fs m = (e, m') \<Longrightarrow> off dir m m'"
proof (induction fs arbitrary: m)
  case (Cons f fs)
  have c: "off dir m m1" if "CopyInto (data @ [f]) (dir @ p) m = (ok, m1)" for ok m1
    unfolding off_def
  proof (intro allI impI)
    fix x assume x: "x \<parallel> dir"
    have "\<not> prefix (dir @ p @ [f]) x" by (rule parallel_below(2)[OF x])
    with that next_hazardD(1) show "mc_tree m1 x = mc_tree m x"
      by (auto simp: CopyInto_def Let_def overlay_def split: prod.splits if_splits hazard.splits)
  qed
  from Cons show ?case by (auto intro: off_trans[OF c] split: if_splits prod.splits)
qed simp

lemma off_service: "StopService m = (r, m') \<Longrightarrow> off dir m m'" "StartService m = (r, m') \<Longrightarrow> off dir m m'" "Status m = (st, m') \<Longrightarrow> off dir m m'"
  using StopService_frame StartService_frame Status_frame by (simp_all add: off_def)

lemma off_snapshot: "snapshot_data cfg m = (e, m') \<Longrightarrow> off (dc_backup cfg) m m'"
proof -
  assume run: "snapshot_data cfg m = (e, m')"
  obtain st m1 where 1: "Status m = (st, m1)" by (cases "Status m")
  obtain s m2 where 2: "StopService m1 = (s, m2)" by (cases "StopService m1")
  obtain c m3 where 3: "copyData cfg (TempDir cfg) m2 = (c, m3)" by (cases "copyData cfg (TempDir cfg) m2")
  obtain s4 m4 where 4: "StartService m3 = (s4, m4)" by (cases "StartService m3")
  note o1 = off_service(3)[OF 1, of "dc_backup cfg"]
  note o2 = off_trans[OF o1 off_service(1)[OF 2]]
  note o3 = off_trans[OF o2 off_copy[OF 3[unfolded copyData_def TempDir_def]]]
  note o4 = off_trans[OF o3 off_service(2)[OF 4]]
  from run[unfolded snapshot_data_def 1 prod.case 2 3 4] o1 o2 o3 o4 show ?thesis by (auto split: option.splits if_splits)
qed

lemma off_writeArchive: "writeArchive tar sha src (dir @ [n]) m = (e, m') \<Longrightarrow> off dir m m'"
proof -
  assume run: "writeArchive tar sha src (dir @ [n]) m = (e, m')"
  let ?p = "dir @ [n @ ''.partial'']" and ?h = "dir @ [trim_suffix n ''.tar.gz'' @ ''.hash'']" and ?d = "tar (\<lambda>x. mc_tree m (src @ x))"
  obtain ok1 m1 where 1: "WriteOver ?p 420 ?d m = (ok1, m1)" by (cases "WriteOver ?p 420 ?d m")
  obtain dg m2 where 2: "ReadFile ?p m1 = (dg, m2)" by (cases "ReadFile ?p m1")
  obtain ok3 m3 where 3: "WriteOver ?h 420 (sha (the dg) @ [CHR 0x0A]) m2 = (ok3, m3)" by (cases "WriteOver ?h 420 (sha (the dg) @ [CHR 0x0A]) m2")
  obtain ok4 m4 where 4: "Rename ?p (dir @ [n]) m3 = (ok4, m4)" by (cases "Rename ?p (dir @ [n]) m3")
  note o1 = off_calls(2)[OF 1]
  note o2 = off_trans[OF o1 off_calls(6)[OF 2]]
  note o3 = off_trans[OF o2 off_calls(2)[OF 3]]
  note o4 = off_trans[OF o3 off_calls(5)[OF 4]]
  note rm = off_trans[OF o1 off_remove] off_trans[OF o2 off_remove] off_trans[OF o3 off_remove] off_trans[OF off_trans[OF o4 off_remove] off_remove]
  show ?thesis
  proof (cases dg)
    case None
    from run[unfolded writeArchive_def Let_def up_def butlast_snoc last_snoc 1 prod.case SHA256File_def 2 None option.map option.case] rm
    show ?thesis by (auto split: if_splits)
  next
    case (Some d)
    note run[unfolded writeArchive_def Let_def up_def butlast_snoc last_snoc 1 prod.case SHA256File_def 2 Some option.map option.case
        HashPath_snoc 3[unfolded Some option.sel] 4]
    with rm o4 show ?thesis by (auto split: if_splits)
  qed
qed

lemma Run_backup_off:
  assumes run: "Run_backup vw tar sha cfg i zone now later m = (r, m')"
  shows "off (dc_backup cfg) m m'"
proof -
  let ?b = "dc_backup cfg"
  obtain ok1 m1 where 1: "make_dirs [?b, TempDir cfg, RestoreDir cfg] m = (ok1, m1)"
    by (cases "make_dirs [?b, TempDir cfg, RestoreDir cfg] m")
  obtain e2 m2 where 2: "ensureFreeSpace vw cfg m1 = (e2, m2)" by (cases "ensureFreeSpace vw cfg m1")
  obtain ok3 m3 where 3: "clearDir vw (TempDir cfg) m2 = (ok3, m3)" by (cases "clearDir vw (TempDir cfg) m2")
  obtain e4 m4 where 4: "snapshot_data cfg m3 = (e4, m4)" by (cases "snapshot_data cfg m3")
  let ?a = "?b @ [ArchiveName (bc_service cfg) zone later]"
  obtain e5 m5 where 5: "writeArchive tar sha (TempDir cfg) ?a m4 = (e5, m5)" by (cases "writeArchive tar sha (TempDir cfg) ?a m4")
  obtain ok6 m6 where 6: "clearDir vw (TempDir cfg) m5 = (ok6, m6)" by (cases "clearDir vw (TempDir cfg) m5")
  have o1: "off ?b m m1" by (rule off_make_dirs[OF 1]) (simp add: TempDir_def RestoreDir_def)
  note o2 = off_trans[OF o1 off_ensureFreeSpace[OF 2]]
  note o3 = off_trans[OF o2 off_clearDir[OF 3[unfolded TempDir_def]]]
  note o4 = off_trans[OF o3 off_snapshot[OF 4]]
  note o5 = off_trans[OF o4 off_writeArchive[OF 5]]
  note o6 = off_trans[OF o5 off_clearDir[OF 6[unfolded TempDir_def]]]
  note o7 = off_trans[OF o6 off_Prune[of cfg _ vw]]
  from run[unfolded Run_backup_def 1 prod.case 2 3 4 Let_def 5 6] o1 o2 o3 o4 o5 o6 o7 show ?thesis
    by (auto split: if_splits option.splits)
qed

section \<open>The scheduled cadence\<close>

lemma str_fields_word:
  assumes "ascii w" "\<forall>c \<in> set w. \<not> is_space (byte_val c)" "w \<noteq> []"
  shows "str_fields (w @ CHR '' '' # s) = w # str_fields s" "str_fields w = [w]"
proof -
  have f: "fields_of (map (\<lambda>c. (byte_val c, [c])) w @ cs) v = fields_of cs (v @ w)" if "\<forall>c \<in> set w. \<not> is_space (byte_val c)" for cs v w
    using that by (induction w arbitrary: v) simp_all
  have sp: "chunks (CHR '' '' # s) = (32, '' '') # chunks s" by (subst chunks_ascii) simp_all
  have a: "\<forall>c \<in> set w. byte_val c < 128" using assms(1) by (simp add: ascii_def)
  show "str_fields (w @ CHR '' '' # s) = w # str_fields s"
    using assms by (simp add: str_fields_def chunks_ascii_append[OF a] sp f is_space_def del: chunks.simps)
  show "str_fields w = [w]"
    using f[OF assms(2), of "[]" "[]"] assms by (simp add: str_fields_def chunks_of_ascii)
qed


definition plain_word :: "string \<Rightarrow> bool" where
  "plain_word w \<longleftrightarrow> w \<noteq> [] \<and> (\<forall>c \<in> set w. byte_val c < 128 \<and> \<not> is_space (byte_val c))"

lemma str_fields_join: "list_all plain_word ws \<Longrightarrow> str_fields (join_with '' '' ws) = ws"
proof (induction ws rule: induct_list012)
  case 1
  then show ?case by (simp add: str_fields_def)
next
  case (2 w)
  then show ?case by (simp add: str_fields_word(2) plain_word_def ascii_def)
next
  case (3 w v ws)
  then show ?case by (simp add: str_fields_word(1) plain_word_def ascii_def)
qed

lemma show_int_chars: "c \<in> set (show_int n) \<Longrightarrow> is_digit c \<or> c = CHR ''-''"
  using show_uint_digits[of n] show_uint_digits[of "- n"] by (auto simp: show_int_def list_all_iff split: if_splits)

lemma digit_bytes: "is_digit c \<Longrightarrow> 48 \<le> byte_val c \<and> byte_val c \<le> 57"
  by (simp add: is_digit_def)

lemma show_int_word: "plain_word (show_int n)"
proof -
  have "show_int n \<noteq> []" by (simp add: show_int_def)
  moreover have "byte_val c < 128 \<and> \<not> is_space (byte_val c)" if "c \<in> set (show_int n)" for c
    using show_int_chars[OF that] by (auto dest: digit_bytes simp: is_space_def)
  ultimately show ?thesis by (simp add: plain_word_def)
qed

lemma show_int_no_c: "CHR ''c'' \<notin> set (show_int n)"
  using show_int_chars[of "CHR ''c''" n] by (auto simp: is_digit_def)

lemma set_replace_char: "set (replace_char c r s) \<subseteq> set s \<union> set r"
  by (induction s) auto

lemma set_unitQuote: "set (unitQuote s) \<subseteq> set s \<union> {backslash, dquote}"
  using set_replace_char[of dquote "[backslash, dquote]" "replace_char backslash [backslash, backslash] s"]
    set_replace_char[of backslash "[backslash, backslash]" s] by (auto simp: unitQuote_def)

lemma exec_fields:
  assumes "plain_word execPath"
  shows "str_fields (exec_line cfg execPath) =
    [''ExecStart='' @ unitQuote execPath, ''backup'', ''--skip-preflight'', ''--max-backups'', show_int (bc_max cfg), ''--cadence'', show_int (bc_cadence cfg)]"
    (is "_ = ?ws")
proof -
  have "byte_val c < 128 \<and> \<not> is_space (byte_val c)" if "c \<in> set (unitQuote execPath)" for c
    using that set_unitQuote[of execPath] assms by (auto simp: plain_word_def backslash_def dquote_def is_space_def)
  then have "list_all plain_word ?ws" using show_int_word by (simp add: plain_word_def is_space_def ball_Un)
  from str_fields_join[OF this] show ?thesis by (simp add: exec_line_def)
qed

lemma ServiceUnit_lines:
  "ServiceUnit cfg execPath = join_with [CHR 0x0A] [''[Unit]'', ''Description='' @ TimerName @ '' backup job'', [], ''[Service]'', ''Type=oneshot'',
     env_line ''NOMCTL_BACKUP_DIR'' (unitQuote (path_text (dc_backup cfg))),
     env_line ''NOMCTL_ZNN_DIR'' (unitQuote (path_text (dc_data cfg))),
     env_line ''NOMCTL_SERVICE_NAME'' (unitQuote (bc_service cfg)),
     env_line ''NOMCTL_LOG_FILE'' (unitQuote (bc_log cfg)),
     env_line ''NOMCTL_MIN_FREE_SPACE_KB'' (show_int (bc_min_free cfg)), exec_line cfg execPath, []]"
  by (simp add: ServiceUnit_def nl_def)

definition one_line :: "string \<Rightarrow> bool" where "one_line s \<longleftrightarrow> CHR 0x0A \<notin> set s"

lemma one_line_quote: "one_line s \<Longrightarrow> one_line (unitQuote s)"
  using set_unitQuote[of s] by (auto simp: one_line_def backslash_def dquote_def)

lemma one_line_env: "one_line k \<Longrightarrow> one_line v \<Longrightarrow> one_line (env_line k v)"
  by (simp add: one_line_def env_line_def dquote_def)

lemma plain_one_line: "plain_word w \<Longrightarrow> one_line w"
  by (auto simp: plain_word_def one_line_def is_space_def)

text \<open>The cadence a unit was written with is the one read back from it.\<close>

lemma ParseCadence_ServiceUnit:
  assumes "plain_word execPath" "in_int64 (bc_cadence cfg)"
    and "one_line (path_text (dc_backup cfg))" "one_line (path_text (dc_data cfg))" "one_line (bc_service cfg)" "one_line (bc_log cfg)"
  shows "ParseCadence (ServiceUnit cfg execPath) = (bc_cadence cfg, True)"
proof -
  have "one_line (exec_line cfg execPath)"
    using one_line_quote[OF plain_one_line[OF assms(1)]] plain_one_line[OF show_int_word] by (simp add: exec_line_def one_line_def)
  moreover have "one_line (show_int n)" for n by (rule plain_one_line[OF show_int_word])
  moreover have k: "one_line ''NOMCTL_BACKUP_DIR''" "one_line ''NOMCTL_ZNN_DIR''" "one_line ''NOMCTL_SERVICE_NAME''"
    "one_line ''NOMCTL_LOG_FILE''" "one_line ''NOMCTL_MIN_FREE_SPACE_KB''" by (simp_all add: one_line_def)
  ultimately have one: "list_all one_line [''[Unit]'', ''Description='' @ TimerName @ '' backup job'', [], ''[Service]'', ''Type=oneshot'',
     env_line ''NOMCTL_BACKUP_DIR'' (unitQuote (path_text (dc_backup cfg))),
     env_line ''NOMCTL_ZNN_DIR'' (unitQuote (path_text (dc_data cfg))),
     env_line ''NOMCTL_SERVICE_NAME'' (unitQuote (bc_service cfg)),
     env_line ''NOMCTL_LOG_FILE'' (unitQuote (bc_log cfg)),
     env_line ''NOMCTL_MIN_FREE_SPACE_KB'' (show_int (bc_min_free cfg)), exec_line cfg execPath, []]" (is "list_all one_line ?ls")
    using assms(3-6) k by (simp add: one_line_env one_line_quote) (simp add: one_line_def TimerName_def)
  have ne: "?ls \<noteq> []" "\<forall>w \<in> set ?ls. CHR 0x0A \<notin> set w" using one unfolding list_all_iff one_line_def by blast+
  have sp: "split_on (CHR 0x0A) (ServiceUnit cfg execPath) = ?ls" unfolding ServiceUnit_lines by (rule split_join[OF ne])
  have env: "\<not> has_prefix (env_line k v) ''ExecStart=''" for k v by (simp add: env_line_def has_prefix_def)
  have desc: "\<not> has_prefix (''Description='' @ s) ''ExecStart=''" for s by (simp add: has_prefix_def)
  have ex: "has_prefix (exec_line cfg execPath) ''ExecStart=''" by (simp add: exec_line_def has_prefix_def)
  have "show_int (bc_max cfg) \<noteq> ''--cadence''" using show_int_no_c[of "bc_max cfg"] by auto
  then have "cadence_arg (str_fields (exec_line cfg execPath)) = Some (bc_cadence cfg, True)"
    unfolding exec_fields[OF assms(1)] using assms(2) by (simp add: atoi_show parse_show_int)
  then show ?thesis unfolding ParseCadence_def sp by (simp add: env desc ex) (simp add: has_prefix_def)
qed

text \<open>A path with white space is quoted twice: the unit has escaped quotation marks, which are part of the file name to
  systemd.\<close>

lemma spaced_exec_quoted_twice:
  assumes "CHR '' '' \<in> set execPath"
  shows "\<exists>rest. exec_line cfg (quoted_exec execPath) = ''ExecStart='' @ [backslash, dquote] @ rest"
proof -
  have app: "replace_char c r (xs @ ys) = replace_char c r xs @ replace_char c r ys" for c r xs ys by (induction xs) simp_all
  have "quoted_exec execPath = dquote # unitQuote execPath @ [dquote]" using assms by (simp add: quoted_exec_def)
  moreover have "\<exists>t. unitQuote (dquote # s) = [backslash, dquote] @ t" for s
    by (simp add: unitQuote_def backslash_def dquote_def)
  ultimately obtain t where "unitQuote (quoted_exec execPath) = [backslash, dquote] @ t" by metis
  then show ?thesis unfolding exec_line_def by simp
qed

lemma ScheduleTime_range:
  assumes "ScheduleTime sha host service override = (h, mi)"
  shows "0 \<le> h \<and> h \<le> 23 \<and> 0 \<le> mi \<and> mi \<le> 59" "\<not> (0 \<le> override \<and> override \<le> 23) \<Longrightarrow> 2 \<le> h \<and> h \<le> 4"
  using assms by (auto simp: ScheduleTime_def Let_def split: if_splits)

end
