(* ===== verification/Bootstrap.thy ===== *)
theory Bootstrap
  imports Backup
begin

text \<open>
  Replacing the chain data by a published snapshot, \<^verbatim>\<open>internal/bootstrap/bootstrap.go\<close>: the address and the hash sidecar, the
  snapshot's entries and their extraction, downloads, and the run that either keeps the old data aside or discards it first.
  The parser of addresses, the web, the zip reader and SHA-256 are parameters.
\<close>

section \<open>Addresses and hashes\<close>

text \<open>A parsed address; \<open>parse_url\<close> and \<open>url_text\<close> below are the parser and printer of net/url.\<close>

record url =
  url_scheme :: string
  url_host :: string
  url_path :: string

text \<open>\<^verbatim>\<open>path.Ext\<close> and \<^verbatim>\<open>path.Base\<close>.\<close>

definition last_elem :: "string \<Rightarrow> string" where
  "last_elem p = rev (takeWhile (\<lambda>c. c \<noteq> CHR ''/'') (rev p))"

definition path_ext :: "string \<Rightarrow> string" where
  "path_ext p = (let e = last_elem p in
     if CHR ''.'' \<in> set e then CHR ''.'' # rev (takeWhile (\<lambda>c. c \<noteq> CHR ''.'') (rev e)) else [])"

definition path_base :: "string \<Rightarrow> string" where
  "path_base p =
     (if p = [] then ''.''
      else let q = rev (dropWhile (\<lambda>c. c = CHR ''/'') (rev p)) in if last_elem q = [] then ''/'' else last_elem q)"

definition Dirs :: "string list" where "Dirs = [''nom'', ''network'', ''consensus'']"

definition HashURL :: "(string \<Rightarrow> url option) \<Rightarrow> (url \<Rightarrow> string) \<Rightarrow> string \<Rightarrow> string" where
  "HashURL parse_url url_text a =
     (case parse_url a of
        None \<Rightarrow> trim_suffix a (path_ext a) @ ''.hash''
      | Some u \<Rightarrow> url_text (u\<lparr> url_path := trim_suffix (url_path u) (path_ext (url_path u)) @ ''.hash'' \<rparr>))"

datatype boot_error =
    NoURL | BadURL | URLNotHttp | URLNotZip
  | NoDownloadDir | HashNotFetched | HashUnreadable | HashEmpty | HashInvalid
  | SpaceCheckFailed | SpaceShort
  | NotDownloaded | ChecksumMismatch
  | ZipUnreadable | EntryEscapes string | EntryUnexpected string | EntrySymlink string | NothingFor string
  | NoDataDirectory_b | ZipExtractFailed | StopRefused service_error

definition ParseHash :: "bytes \<Rightarrow> (boot_error, string) result" where
  "ParseHash data =
     (case str_fields data of
        [] \<Rightarrow> Inl HashEmpty
      | f # _ \<Rightarrow>
          let h = to_lower f in
          if length h \<noteq> 64 then Inl HashInvalid
          else if hex_decode h = None then Inl HashInvalid else Inr h)"

definition ValidateURL :: "(string \<Rightarrow> url option) \<Rightarrow> string \<Rightarrow> boot_error option" where
  "ValidateURL parse_url raw =
     (if trim_space raw = [] then Some NoURL
      else case parse_url raw of
        None \<Rightarrow> Some BadURL
      | Some u \<Rightarrow>
          if (url_scheme u \<noteq> ''http'' \<and> url_scheme u \<noteq> ''https'') \<or> url_host u = [] then Some URLNotHttp
          else if \<not> equal_fold (path_ext (url_path u)) ''.zip'' then Some URLNotZip else None)"

section \<open>The snapshot archive\<close>

text \<open>What the zip reader yields of the central directory; an entry may fail to open, and its data to be read whole.\<close>

record zip_entry =
  ze_name :: string
  ze_symlink :: bool
  ze_isdir :: bool
  ze_perm :: int
  ze_size :: int
  ze_opens :: bool
  ze_data :: bytes
  ze_whole :: bool

definition known :: "string \<Rightarrow> bool" where "known dir \<longleftrightarrow> dir \<in> set Dirs"

definition split_entry :: "string \<Rightarrow> (boot_error, string \<times> string) result" where
  "split_entry name =
     (let clean = clean_path name in
      if is_abs_path clean \<or> clean = ''..'' \<or> has_prefix clean ''../'' then Inl (EntryEscapes name)
      else if clean = ''backup'' then Inr ([], [])
      else case cut_on (CHR ''/'') clean of (first, others, more1) \<Rightarrow>
        if first \<noteq> ''backup'' \<or> \<not> more1 then Inl (EntryUnexpected name)
        else case cut_on (CHR ''/'') others of (snd_part, rel, _) \<Rightarrow>
          let dir = trim_suffix snd_part ''.bak'' in
          if dir = snd_part \<or> \<not> known dir then Inl (EntryUnexpected name) else Inr (dir, rel))"

record boot_manifest =
  bm_uncompressed :: int
  bm_files :: "string \<Rightarrow> int"

fun inspect_zip :: "zip_entry list \<Rightarrow> boot_manifest \<Rightarrow> (boot_error, boot_manifest) result" where
  "inspect_zip [] b = Inr b"
| "inspect_zip (e # es) b =
     (case split_entry (ze_name e) of
        Inl err \<Rightarrow> Inl err
      | Inr (dir, rel) \<Rightarrow>
          if ze_symlink e then Inl (EntrySymlink (ze_name e))
          else if dir = [] \<or> ze_isdir e then inspect_zip es b
          else inspect_zip es (b\<lparr> bm_files := (bm_files b)(dir := bm_files b dir + 1),
                                 bm_uncompressed := wrap64 (bm_uncompressed b + wrap64 (ze_size e)) \<rparr>))"

definition InspectZip :: "(bytes \<Rightarrow> zip_entry list option) \<Rightarrow> bytes option \<Rightarrow> (boot_error, boot_manifest) result" where
  "InspectZip unzip file =
     (case Option.bind file unzip of
        None \<Rightarrow> Inl ZipUnreadable
      | Some es \<Rightarrow>
          (case inspect_zip es \<lparr> bm_uncompressed = 0, bm_files = (\<lambda>_. 0) \<rparr> of
             Inl err \<Rightarrow> Inl err
           | Inr b \<Rightarrow> (case find (\<lambda>d. bm_files b d = 0) Dirs of Some d \<Rightarrow> Inl (NothingFor d) | None \<Rightarrow> Inr b)))"

definition extractFile :: "zip_entry \<Rightarrow> path \<Rightarrow> machine \<Rightarrow> bool \<times> machine" where
  "extractFile e target m =
     (case MkdirAll (up target) m of (ok, m1) \<Rightarrow>
      if \<not> ok then (False, m1)
      else if \<not> ze_opens e then (False, m1)
      else case WriteOver target (if ze_perm e = 0 then 420 else ze_perm e) (ze_data e) m1 of (ok2, m2) \<Rightarrow>
        (ok2 \<and> ze_whole e, m2))"

fun extract_zip :: "path \<Rightarrow> zip_entry list \<Rightarrow> machine \<Rightarrow> boot_error option \<times> machine" where
  "extract_zip dst [] m = (None, m)"
| "extract_zip dst (e # es) m =
     (case split_entry (ze_name e) of
        Inl err \<Rightarrow> (Some err, m)
      | Inr (dir, rel) \<Rightarrow>
          if dir = [] then extract_zip dst es m
          else
            let target = target_of dst dir rel in
            case (if ze_isdir e \<or> rel = [] then MkdirAll target m else extractFile e target m) of (ok, m1) \<Rightarrow>
              if ok then extract_zip dst es m1 else (Some ZipExtractFailed, m1))"

definition ExtractZip :: "(bytes \<Rightarrow> zip_entry list option) \<Rightarrow> path \<Rightarrow> path \<Rightarrow> machine \<Rightarrow> boot_error option \<times> machine" where
  "ExtractZip unzip archive dst m =
     (case ReadFile archive m of (d, m1) \<Rightarrow>
      case Option.bind d unzip of None \<Rightarrow> (Some ZipUnreadable, m1) | Some es \<Rightarrow> extract_zip dst es m1)"

section \<open>Downloads\<close>

text \<open>What a server answers: nothing, or a status, the declared length (-1 when there is none), and a body that arrives
  whole or not.\<close>

datatype web_answer = Unreachable | Answer int int bytes bool

definition Download :: "(string \<Rightarrow> web_answer) \<Rightarrow> string \<Rightarrow> path \<Rightarrow> machine \<Rightarrow> bool \<times> machine" where
  "Download get url dest m =
     (case get url of
        Unreachable \<Rightarrow> (False, m)
      | Answer status len body whole \<Rightarrow>
          if status \<noteq> 200 then (False, m)
          else case MkdirAll (up dest) m of (ok1, m1) \<Rightarrow>
            if \<not> ok1 then (False, m1)
            else case WriteOver dest 420 [] m1 of (ok2, m2) \<Rightarrow>
              if \<not> ok2 then (False, m2)
              else case WriteOver dest 420 body m2 of (ok3, m3) \<Rightarrow>
                if ok3 \<and> whole then (True, m3) else (False, snd (RemoveFile dest m3)))"

definition RemoteSize :: "(string \<Rightarrow> web_answer) \<Rightarrow> string \<Rightarrow> int" where
  "RemoteSize head url = (case head url of Unreachable \<Rightarrow> - 1 | Answer status len body whole \<Rightarrow> if status \<noteq> 200 then - 1 else len)"

definition ensureSpace :: "view \<Rightarrow> path \<Rightarrow> int \<Rightarrow> int \<Rightarrow> machine \<Rightarrow> boot_error option" where
  "ensureSpace vw dir needed marginKB m =
     (case disk_avail vw dir m of
        None \<Rightarrow> Some SpaceCheckFailed
      | Some avail \<Rightarrow> if avail < wrap64 (quot_go needed 1024 + marginKB) then Some SpaceShort else None)"

definition hashMatches :: "(bytes \<Rightarrow> string) \<Rightarrow> path \<Rightarrow> string \<Rightarrow> machine \<Rightarrow> bool \<times> machine" where
  "hashMatches sha archive want m =
     (case SHA256File sha archive m of (got, m1) \<Rightarrow> ((case got of None \<Rightarrow> False | Some g \<Rightarrow> equal_fold g want), m1))"

text \<open>The surroundings of a run.\<close>

record world =
  wo_parse :: "string \<Rightarrow> url option"
  wo_text :: "url \<Rightarrow> string"
  wo_get :: "string \<Rightarrow> web_answer"
  wo_head :: "string \<Rightarrow> web_answer"
  wo_sha :: "bytes \<Rightarrow> string"
  wo_unzip :: "bytes \<Rightarrow> zip_entry list option"
  wo_view :: view
  wo_size :: "machine \<Rightarrow> path \<Rightarrow> int"
  wo_order :: "(string \<times> path) list \<Rightarrow> (string \<times> path) list"

text \<open>The sum of the sizes of the files below a directory is \<open>wo_size\<close>.\<close>

definition dirsSize :: "world \<Rightarrow> path \<Rightarrow> string list \<Rightarrow> machine \<Rightarrow> int" where
  "dirsSize w base dirs m = wrap64 (sum_list (map (\<lambda>d. wo_size w m (base @ [d])) dirs))"

text \<open>\<^verbatim>\<open>filepath.Join\<close> of the download directory and the base of the address.\<close>

definition archive_at :: "backup_config \<Rightarrow> string \<Rightarrow> path" where
  "archive_at cfg url = clean_elems True (rev (dc_backup cfg @ [''bootstrap''])) (split_on (CHR ''/'') (path_base url))"

definition hash_at :: "path \<Rightarrow> path" where
  "hash_at archive = up archive @ [trim_suffix (List.last archive) (path_ext (List.last archive)) @ ''.hash'']"

text \<open>The digest that the sidecar names.\<close>

definition fetch_hash :: "world \<Rightarrow> backup_config \<Rightarrow> string \<Rightarrow> machine \<Rightarrow> (boot_error, string) result \<times> machine" where
  "fetch_hash w cfg url m =
     (case MkdirAll (dc_backup cfg @ [''bootstrap'']) m of (ok1, m1) \<Rightarrow>
      if \<not> ok1 then (Inl NoDownloadDir, m1)
      else case Download (wo_get w) (HashURL (wo_parse w) (wo_text w) url) (hash_at (archive_at cfg url)) m1 of (ok2, m2) \<Rightarrow>
        if \<not> ok2 then (Inl HashNotFetched, m2)
        else case ReadFile (hash_at (archive_at cfg url)) m2 of
          (None, m3) \<Rightarrow> (Inl HashUnreadable, m3)
        | (Some d, m3) \<Rightarrow> (ParseHash d, m3))"

text \<open>The archive: the one that is there already when it matches, or a fresh download that must match.\<close>

definition fetch_archive :: "world \<Rightarrow> backup_config \<Rightarrow> string \<Rightarrow> string \<Rightarrow> machine \<Rightarrow> boot_error option \<times> machine" where
  "fetch_archive w cfg url want m =
     (let archive = archive_at cfg url in
      case (if exists_at m archive then hashMatches (wo_sha w) archive want m else (False, m)) of (same, m1) \<Rightarrow>
      if same then (None, m1)
      else
        let m2 = snd (RemoveFile archive m1); size = RemoteSize (wo_head w) url;
            short = (if size > 0 then ensureSpace (wo_view w) (dc_backup cfg @ [''bootstrap'']) size (bc_min_free cfg) m2 else None) in
        if short \<noteq> None then (short, m2)
        else case Download (wo_get w) url archive m2 of (ok3, m3) \<Rightarrow>
          if \<not> ok3 then (Some NotDownloaded, m3)
          else case hashMatches (wo_sha w) archive want m3 of (ok4, m4) \<Rightarrow>
            if \<not> ok4 then (Some ChecksumMismatch, snd (RemoveFile archive m4)) else (None, m4))"

section \<open>A run\<close>

datatype boot_result =
    BootRefused boot_error
  | Swapped restore_result
  | DiscardStuck string
  | DiscardedNoData boot_error
  | DiscardedNotInstalled swap_error
  | Bootstrapped "service_error option"

fun discard_dirs :: "path \<Rightarrow> string list \<Rightarrow> machine \<Rightarrow> string option \<times> machine" where
  "discard_dirs data [] m = (None, m)"
| "discard_dirs data (d # ds) m =
     (case RemoveAll (data @ [d]) m of (ok, m1) \<Rightarrow> if ok then discard_dirs data ds m1 else (Some d, m1))"

definition start_installed :: "machine \<Rightarrow> boot_result \<times> machine" where
  "start_installed m = (case StartService m of (s, m1) \<Rightarrow> (Bootstrapped s, m1))"

definition install_discarding :: "world \<Rightarrow> backup_config \<Rightarrow> path \<Rightarrow> boot_manifest \<Rightarrow> path \<Rightarrow> machine \<Rightarrow> boot_result \<times> machine" where
  "install_discarding w cfg archive b staging m =
     (case ensureSpace (wo_view w) (dc_data cfg) (wrap64 (bm_uncompressed b - dirsSize w (dc_data cfg) Dirs m)) (bc_min_free cfg) m of
        Some e \<Rightarrow> (BootRefused e, m)
      | None \<Rightarrow>
          (case StopService m of
             (Some s, m1) \<Rightarrow> (BootRefused (StopRefused s), m1)
           | (None, m1) \<Rightarrow>
               (case discard_dirs (dc_data cfg) Dirs m1 of
                  (Some d, m2) \<Rightarrow> (DiscardStuck d, m2)
                | (None, m2) \<Rightarrow>
                    (case ExtractZip (wo_unzip w) archive staging m2 of
                       (Some e, m3) \<Rightarrow> (DiscardedNoData e, m3)
                     | (None, m3) \<Rightarrow>
                         (case install_folders staging (dc_data cfg) Dirs m3 of
                            (Some e, m4) \<Rightarrow> (DiscardedNotInstalled e, m4)
                          | (None, m4) \<Rightarrow> start_installed m4)))))"

definition install_keeping :: "world \<Rightarrow> backup_config \<Rightarrow> time \<Rightarrow> path \<Rightarrow> boot_manifest \<Rightarrow> path \<Rightarrow> machine \<Rightarrow> boot_result \<times> machine" where
  "install_keeping w cfg now archive b staging m =
     (case ensureSpace (wo_view w) (dc_data cfg) (bm_uncompressed b) (bc_min_free cfg) m of
        Some e \<Rightarrow> (BootRefused e, m)
      | None \<Rightarrow>
          (case ExtractZip (wo_unzip w) archive staging m of
             (Some e, m1) \<Rightarrow> (BootRefused e, m1)
           | (None, m1) \<Rightarrow>
               (case StopService m1 of
                  (Some s, m2) \<Rightarrow> (BootRefused (StopRefused s), m2)
                | (None, m2) \<Rightarrow>
                    (case swap_folders (wo_order w) cfg now Dirs staging m2 of
                       (Restored, m3) \<Rightarrow> (Bootstrapped None, m3)
                     | (RestoredNotStarted s, m3) \<Rightarrow> (Bootstrapped (Some s), m3)
                     | (r, m3) \<Rightarrow> (Swapped r, m3)))))"

text \<open>The downloads are removed once the node runs on the snapshot, the staging directory in any case.\<close>

definition Run_bootstrap :: "world \<Rightarrow> backup_config \<Rightarrow> string \<Rightarrow> bool \<Rightarrow> time \<Rightarrow> time \<Rightarrow> machine \<Rightarrow> boot_result \<times> machine" where
  "Run_bootstrap w cfg url discard now later m =
     (case ValidateURL (wo_parse w) url of Some e \<Rightarrow> (BootRefused e, m)
      | None \<Rightarrow>
     (case fetch_hash w cfg url m of (Inl e, m1) \<Rightarrow> (BootRefused e, m1)
      | (Inr want, m1) \<Rightarrow>
     (case fetch_archive w cfg url want m1 of (Some e, m2) \<Rightarrow> (BootRefused e, m2)
      | (None, m2) \<Rightarrow>
          let archive = archive_at cfg url; staging = dc_data cfg @ [''.bootstrap-'' @ show_int (unix_of now)] in
          case ReadFile archive m2 of (d, m3) \<Rightarrow>
          (case InspectZip (wo_unzip w) d of Inl e \<Rightarrow> (BootRefused e, m3)
           | Inr b \<Rightarrow>
               (case MkdirAll (dc_data cfg) m3 of (ok4, m4) \<Rightarrow>
                if \<not> ok4 then (BootRefused NoDataDirectory_b, m4)
                else case (if discard then install_discarding w cfg archive b staging m4
                           else install_keeping w cfg later archive b staging m4) of (r, m5) \<Rightarrow>
                  let m6 = (if r = Bootstrapped None
                            then snd (RemoveFile (hash_at archive) (snd (RemoveFile archive m5))) else m5) in
                  (r, snd (RemoveAll staging m6)))))))"

section \<open>Nothing outside the data directories\<close>

definition dotty :: "string list \<Rightarrow> bool" where
  "dotty xs \<longleftrightarrow> (\<exists>k ps. xs = replicate k ''..'' @ ps \<and> list_all plain_elem ps)"

lemma dotty_plain: "dotty xs \<Longrightarrow> plain_elem e \<Longrightarrow> dotty (xs @ [e])"
  unfolding dotty_def by (metis append.assoc list_all_append list.pred_inject)

lemma dotty_dots: "dotty (xs @ [''..'']) \<Longrightarrow> dotty ((xs @ [''..'']) @ [''..''])"
proof -
  assume "dotty (xs @ [''..''])"
  then obtain k ps where e: "xs @ [''..''] = replicate k ''..'' @ ps" and p: "list_all plain_elem ps" by (auto simp: dotty_def)
  have "ps = []"
  proof (cases ps rule: rev_cases)
    case (snoc qs q)
    with e have "q = ''..''" by simp
    with p snoc show ?thesis by (simp add: plain_elem_def)
  qed
  with e have "(xs @ [''..'']) @ [''..''] = replicate (Suc k) ''..'' @ []" by (simp add: replicate_append_same)
  then show ?thesis unfolding dotty_def by (metis list.pred_inject(1))
qed

lemma dotty_butlast: "dotty (xs @ [e]) \<Longrightarrow> dotty xs"
proof -
  assume "dotty (xs @ [e])"
  then obtain k ps where e: "xs @ [e] = replicate k ''..'' @ ps" and p: "list_all plain_elem ps" by (auto simp: dotty_def)
  show ?thesis
  proof (cases ps rule: rev_cases)
    case Nil
    with e have "xs = replicate (k - 1) ''..'' @ []" by (cases k) (simp_all add: replicate_append_same[symmetric])
    then show ?thesis unfolding dotty_def by (metis list.pred_inject(1))
  next
    case (snoc qs q)
    with e have "xs = replicate k ''..'' @ qs" by simp
    with p snoc show ?thesis unfolding dotty_def by auto
  qed
qed

lemma clean_elems_dotty: "dotty (rev acc) \<Longrightarrow> dotty (clean_elems False acc es)"
proof (induction es arbitrary: acc)
  case (Cons e es)
  show ?case
  proof (cases "e = [] \<or> e = ''.''")
    case True
    with Cons show ?thesis by auto
  next
    case False
    show ?thesis
    proof (cases "e = ''..''")
      case up: True
      show ?thesis
      proof (cases acc)
        case Nil
        have "dotty (rev [''..''])" unfolding dotty_def by (rule exI[of _ 1]) simp
        from Cons.IH[OF this] up Nil show ?thesis by simp
      next
        case (Cons a as)
        show ?thesis
        proof (cases "a = ''..''")
          case True
          have "dotty (rev (''..'' # acc))" using dotty_dots[of "rev as"] Cons.prems Cons True by simp
          from Cons.IH[OF this] up True Cons show ?thesis by simp
        next
          case no: False
          have "dotty (rev as)" using dotty_butlast[of "rev as" a] Cons.prems Cons by simp
          from Cons.IH[OF this] up no Cons show ?thesis by simp
        qed
      qed
    next
      case no: False
      have "plain_elem e" using False no by (simp add: plain_elem_def)
      then have "dotty (rev (e # acc))" using dotty_plain Cons.prems by simp
      from Cons.IH[OF this] False no show ?thesis by simp
    qed
  qed
qed simp

text \<open>An entry that is accepted leads into one of the directories over safe elements.\<close>

lemma join_blank: "\<forall>e \<in> set ws. e \<noteq> [] \<Longrightarrow> join_with ''/'' ws = [] \<longleftrightarrow> ws = []"
proof (cases ws)
  case (Cons w vs)
  assume "\<forall>e \<in> set ws. e \<noteq> []"
  with Cons show ?thesis by (cases vs) simp_all
qed simp

lemma clean_relative:
  assumes "\<not> is_abs_path name"
  obtains es where "dotty es" "list_all (\<lambda>e. CHR ''/'' \<notin> set e) es" "clean_path name = (if es = [] then ''.'' else join_with ''/'' es)"
proof -
  define es where "es = clean_elems False [] (split_on (CHR ''/'') name)"
  have d: "dotty es" unfolding es_def by (rule clean_elems_dotty) (simp add: dotty_def)
  have n: "list_all (\<lambda>e. CHR ''/'' \<notin> set e) es"
    unfolding es_def by (rule clean_elems_all) (auto simp: list_all_iff dest: split_on_no_sep)
  obtain k ps where e: "es = replicate k ''..'' @ ps" "list_all plain_elem ps" using d by (auto simp only: dotty_def)
  have "\<forall>e \<in> set ps. e \<noteq> []" using e(2) by (simp add: list_all_iff plain_elem_def)
  then have "\<forall>e \<in> set es. e \<noteq> []" unfolding e(1) by (simp add: ball_Un)
  note j = join_blank[OF this]
  have "clean_path name = (if join_with ''/'' es = [] then ''.'' else join_with ''/'' es)"
    unfolding clean_path_def Let_def es_def using assms by simp
  with j have "clean_path name = (if es = [] then ''.'' else join_with ''/'' es)" by simp
  with d n that show thesis by blast
qed

lemma split_entry_relative: "split_entry name = Inr r \<Longrightarrow> \<not> is_abs_path name"
proof
  assume a: "split_entry name = Inr r" "is_abs_path name"
  then have "is_abs_path (clean_path name)" by (simp add: clean_path_def is_abs_path_def has_prefix_def Let_def)
  with a show False by (simp add: split_entry_def Let_def)
qed

lemma split_entry_parts:
  assumes "split_entry name = Inr (dir, rel)" "dir \<noteq> []" "clean_path name = join_with ''/'' es" "list_all (\<lambda>e. CHR ''/'' \<notin> set e) es"
  shows "\<exists>v vs. es = ''backup'' # v # vs \<and> dir = trim_suffix v ''.bak'' \<and> known dir \<and> rel = join_with ''/'' vs"
proof (cases es)
  case Nil
  with assms(1,3) show ?thesis by (simp add: split_entry_def is_abs_path_def has_prefix_def cut_on_none)
next
  case (Cons w ws)
  have w: "CHR ''/'' \<notin> set w" using assms(4) Cons by simp
  note run = assms(1)[unfolded split_entry_def Let_def assms(3) Cons cut_join[OF w] prod.case]
  have "w = ''backup''" "ws \<noteq> []" using run assms(2) by (auto split: if_splits)
  then obtain v vs where ws: "ws = v # vs" by (cases ws) auto
  have v: "CHR ''/'' \<notin> set v" using assms(4) Cons ws by simp
  note run2 = run[unfolded ws cut_join[OF v] prod.case]
  have "dir = trim_suffix v ''.bak''" "known dir" "rel = join_with ''/'' vs"
    using run2 assms(2) by (auto split: if_splits)
  with \<open>w = ''backup''\<close> Cons ws show ?thesis by blast
qed

lemma split_entry_cases:
  assumes "split_entry name = Inr (dir, rel)" "dir \<noteq> []"
  shows "dir \<in> set Dirs \<and> (\<exists>es. list_all safe_elem es \<and> target_of dst dir rel = dst @ dir # es)"
proof -
  obtain es where es: "dotty es" "list_all (\<lambda>e. CHR ''/'' \<notin> set e) es" "clean_path name = (if es = [] then ''.'' else join_with ''/'' es)"
    by (rule clean_relative[OF split_entry_relative[OF assms(1)]])
  show ?thesis
  proof (cases "es = []")
    case True
    with assms(1) es(3) show ?thesis by (simp add: split_entry_def is_abs_path_def has_prefix_def cut_on_none)
  next
    case False
    with es(3) have cp: "clean_path name = join_with ''/'' es" by simp
    from split_entry_parts[OF assms cp es(2)] obtain v vs where
      p: "es = ''backup'' # v # vs" "known dir" "rel = join_with ''/'' vs" by blast
    obtain k ps where e: "es = replicate k ''..'' @ ps" "list_all plain_elem ps" using es(1) by (auto simp: dotty_def)
    have "k = 0" using e(1) p(1) by (cases k) simp_all
    with e(1) p(1) have ps: "ps = ''backup'' # v # vs" by simp
    have "list_all plain_elem vs" using e(2) unfolding ps by simp
    moreover have "list_all (\<lambda>e. CHR ''/'' \<notin> set e) vs" using es(2) p(1) by simp
    ultimately have "list_all safe_elem vs" by (simp add: list_all_iff safe_elem_def)
    with p(2,3) rel_elems[of vs] show ?thesis by (auto simp: known_def target_of_def)
  qed
qed

definition boot_touch :: "path \<Rightarrow> path \<Rightarrow> bool" where
  "boot_touch dst x \<longleftrightarrow> prefix x dst \<or> (\<exists>dir es. dir \<in> set Dirs \<and> list_all safe_elem es \<and> x = dst @ dir # es)"

lemma prefix_of_boot:
  assumes "dir \<in> set Dirs" "list_all safe_elem es" "prefix x (dst @ dir # es)"
  shows "boot_touch dst x"
proof (cases "prefix x dst")
  case False
  with assms(3) obtain ys where ys: "x = dst @ ys" "prefix ys (dir # es)" by (auto simp: prefix_append)
  with False obtain zs where "ys = dir # zs" "prefix zs es" by (cases ys) auto
  moreover from this have "list_all safe_elem zs" using assms(2) by (auto simp: list_all_iff dest: set_mono_prefix)
  ultimately show ?thesis using ys assms(1) by (auto simp: boot_touch_def)
qed (simp add: boot_touch_def)

lemma extractFile_tree:
  assumes "extractFile e target m = (ok, m')" "\<not> prefix x target"
  shows "mc_tree m' x = mc_tree m x"
proof -
  obtain ok1 m1 where 1: "MkdirAll (up target) m = (ok1, m1)" by (cases "MkdirAll (up target) m")
  have "\<not> prefix x (up target)" using assms(2) by (auto simp: up_def dest: prefix_order.trans[OF _ prefixeq_butlast])
  then have t: "mc_tree m1 x = mc_tree m x" using MkdirAll_tree[OF 1, of x] by blast
  have "x \<noteq> target" using assms(2) by auto
  with assms(1) 1 t WriteOver_tree[OF _ this] show ?thesis by (auto simp: extractFile_def split: if_splits prod.splits)
qed

lemma extract_zip_touch:
  assumes "extract_zip dst es m = (r, m')" "\<not> boot_touch dst x"
  shows "mc_tree m' x = mc_tree m x"
  using assms(1)
proof (induction es arbitrary: m)
  case (Cons e es)
  show ?case
  proof (cases "split_entry (ze_name e)")
    case (Inl err)
    with Cons.prems show ?thesis by simp
  next
    case (Inr dr)
    obtain dir rel where dr: "dr = (dir, rel)" by (cases dr)
    show ?thesis
    proof (cases "dir = []")
      case True
      with Cons Inr dr show ?thesis by simp
    next
      case False
      let ?t = "target_of dst dir rel"
      from split_entry_cases[OF Inr[unfolded dr] False, of dst] obtain fs where
        fs: "dir \<in> set Dirs" "list_all safe_elem fs" "?t = dst @ dir # fs" by blast
      have no: "\<not> prefix x ?t" using prefix_of_boot[OF fs(1,2)] assms(2) unfolding fs(3) by blast
      obtain ok m1 where s: "(if ze_isdir e \<or> rel = [] then MkdirAll ?t m else extractFile e ?t m) = (ok, m1)"
        by (cases "if ze_isdir e \<or> rel = [] then MkdirAll ?t m else extractFile e ?t m")
      have "mc_tree m1 x = mc_tree m x"
        using s MkdirAll_tree[of ?t m ok m1 x] no extractFile_tree[of e ?t m ok m1 x] by (auto split: if_splits)
      moreover have "m' = m1 \<or> extract_zip dst es m1 = (r, m')"
        using Cons.prems Inr dr False s by (auto simp: Let_def split: if_splits)
      ultimately show ?thesis using Cons.IH by auto
    qed
  qed
qed simp

lemma ExtractZip_touch: "ExtractZip unzip a dst m = (r, m') \<Longrightarrow> \<not> boot_touch dst x \<Longrightarrow> mc_tree m' x = mc_tree m x"
  by (auto simp: ExtractZip_def dest!: ReadFile_same extract_zip_touch[of dst _ _ r m' x] split: prod.splits option.splits)


section \<open>The data is there in the end\<close>

lemma off_Download: "Download get u (dir @ p # ps) m = (ok, m') \<Longrightarrow> off dir m m'"
proof -
  assume run: "Download get u (dir @ p # ps) m = (ok, m')"
  have up: "up (dir @ p # ps) = dir @ butlast (p # ps)" by (simp add: up_def butlast_append)
  show ?thesis
  proof (cases "get u")
    case (Answer status len body whole)
    obtain ok1 m1 where 1: "MkdirAll (dir @ butlast (p # ps)) m = (ok1, m1)" by (cases "MkdirAll (dir @ butlast (p # ps)) m")
    obtain ok2 m2 where 2: "WriteOver (dir @ p # ps) 420 [] m1 = (ok2, m2)" by (cases "WriteOver (dir @ p # ps) 420 [] m1")
    obtain ok3 m3 where 3: "WriteOver (dir @ p # ps) 420 body m2 = (ok3, m3)" by (cases "WriteOver (dir @ p # ps) 420 body m2")
    note o1 = off_MkdirAll[OF 1]
    note o2 = off_trans[OF o1 off_WriteOver[OF 2]]
    note o3 = off_trans[OF o2 off_WriteOver[OF 3]]
    note o4 = off_trans[OF o3 off_remove[of dir m3 "p # ps"]]
    from run[unfolded Download_def Answer web_answer.case up 1 prod.case 2 3] o1 o2 o3 o4 show ?thesis by (auto split: if_splits)
  qed (use run in \<open>simp add: Download_def\<close>)
qed

lemma off_hashMatches: "hashMatches sha a want m = (ok, m') \<Longrightarrow> off dir m m'"
  by (auto simp: hashMatches_def SHA256File_def dest: off_ReadFile split: prod.splits)

text \<open>An address whose base is an ordinary file name.\<close>

lemma archive_at_plain:
  assumes "plain_elem (path_base url)" "CHR ''/'' \<notin> set (path_base url)"
  shows "archive_at cfg url = dc_backup cfg @ [''bootstrap'', path_base url]"
    "hash_at (archive_at cfg url) = dc_backup cfg @ [''bootstrap'', trim_suffix (path_base url) (path_ext (path_base url)) @ ''.hash'']"
proof -
  have "split_on (CHR ''/'') (path_base url) = [path_base url]" by (rule split_on_single[OF assms(2)])
  then show a: "archive_at cfg url = dc_backup cfg @ [''bootstrap'', path_base url]"
    using assms(1) by (simp add: archive_at_def plain_elem_def)
  show "hash_at (archive_at cfg url) = dc_backup cfg @ [''bootstrap'', trim_suffix (path_base url) (path_ext (path_base url)) @ ''.hash'']"
    unfolding a by (simp add: hash_at_def up_def butlast_append)
qed

lemma off_fetch_hash:
  assumes "fetch_hash w cfg url m = (r, m')" "plain_elem (path_base url)" "CHR ''/'' \<notin> set (path_base url)"
  shows "off (dc_backup cfg) m m'"
proof -
  let ?b = "dc_backup cfg" and ?h = "dc_backup cfg @ [''bootstrap'', trim_suffix (path_base url) (path_ext (path_base url)) @ ''.hash'']"
    and ?u = "HashURL (wo_parse w) (wo_text w) url"
  obtain ok1 m1 where 1: "MkdirAll (?b @ [''bootstrap'']) m = (ok1, m1)" by (cases "MkdirAll (?b @ [''bootstrap'']) m")
  obtain ok2 m2 where 2: "Download (wo_get w) ?u ?h m1 = (ok2, m2)" by (cases "Download (wo_get w) ?u ?h m1")
  obtain d m3 where 3: "ReadFile ?h m2 = (d, m3)" by (cases "ReadFile ?h m2")
  note o1 = off_MkdirAll[OF 1]
  note o2 = off_trans[OF o1 off_Download[OF 2]]
  note o3 = off_trans[OF o2 off_ReadFile[OF 3]]
  note at = archive_at_plain(1)[OF assms(2,3)] archive_at_plain(2)[OF assms(2,3), unfolded archive_at_plain(1)[OF assms(2,3)]]
  from assms(1)[unfolded fetch_hash_def at 1 prod.case 2 3] o1 o2 o3 show ?thesis
    by (auto split: if_splits option.splits)
qed

lemma off_fetch_archive:
  assumes "fetch_archive w cfg url want m = (r, m')" "plain_elem (path_base url)" "CHR ''/'' \<notin> set (path_base url)"
  shows "off (dc_backup cfg) m m'"
proof -
  let ?b = "dc_backup cfg" and ?a = "dc_backup cfg @ [''bootstrap'', path_base url]"
  obtain same m1 where 1: "(if exists_at m ?a then hashMatches (wo_sha w) ?a want m else (False, m)) = (same, m1)"
    by (cases "if exists_at m ?a then hashMatches (wo_sha w) ?a want m else (False, m)")
  let ?m2 = "snd (RemoveFile ?a m1)"
  obtain ok3 m3 where 3: "Download (wo_get w) url ?a ?m2 = (ok3, m3)" by (cases "Download (wo_get w) url ?a ?m2")
  obtain ok4 m4 where 4: "hashMatches (wo_sha w) ?a want m3 = (ok4, m4)" by (cases "hashMatches (wo_sha w) ?a want m3")
  have o1: "off ?b m m1" using 1 off_hashMatches by (auto split: if_splits)
  note o2 = off_trans[OF o1 off_remove[of ?b m1 "[''bootstrap'', path_base url]"]]
  note o3 = off_trans[OF o2 off_Download[OF 3]]
  note o4 = off_trans[OF o3 off_hashMatches[OF 4]]
  note o5 = off_trans[OF o4 off_remove[of ?b m4 "[''bootstrap'', path_base url]"]]
  from assms(1)[unfolded fetch_archive_def archive_at_plain[OF assms(2,3)] Let_def 1 prod.case 3 4] o1 o2 o3 o4 o5 show ?thesis
    by (auto split: if_splits)
qed

lemma off_kept: "off dir m m' \<Longrightarrow> (data @ [g]) \<parallel> dir \<Longrightarrow> kept data m m' g"
  unfolding off_def kept_def using parallel_append[of "data @ [g]" dir _ "[]"] by simp


lemma kept_refl [simp]: "kept data m m g" by (simp add: kept_def)

lemma kept_tree: "mc_tree m' = mc_tree m \<Longrightarrow> kept data m m' g" by (simp add: kept_def)

lemma MkdirAll_kept: "MkdirAll data m = (ok, m') \<Longrightarrow> kept data m m' g"
proof -
  assume mk: "MkdirAll data m = (ok, m')"
  have "mc_tree m' (data @ g # x) = mc_tree m (data @ g # x)" for x
    using MkdirAll_tree[OF mk, of "data @ g # x"] prefix_length_le[of "data @ g # x" data] by auto
  then show ?thesis by (simp add: kept_def)
qed

lemma RemoveAll_kept: "staging \<parallel> (data @ [g]) \<Longrightarrow> kept data m (snd (RemoveAll staging m)) g"
proof -
  assume p: "staging \<parallel> (data @ [g])"
  obtain ok m' where r: "RemoveAll staging m = (ok, m')" by (cases "RemoveAll staging m")
  have "mc_tree m' (data @ g # x) = mc_tree m (data @ g # x)" for x
    by (rule RemoveAll_tree[OF r]) (use parallel_not[OF p, of x] in simp)
  then show ?thesis by (simp add: r kept_def)
qed

lemma extract_kept:
  assumes "ExtractZip unzip a staging m = (r, m')" "staging \<parallel> (data @ [g])"
  shows "kept data m m' g"
  unfolding kept_def
proof
  fix x
  have "\<not> boot_touch staging (data @ g # x)"
    unfolding boot_touch_def using parallel_not[OF assms(2), of "[]"] parallel_not[OF assms(2), of x]
      prefix_order.trans[of "data @ [g]" "data @ g # x" staging] by auto
  from ExtractZip_touch[OF assms(1) this] show "mc_tree m' (data @ g # x) = mc_tree m (data @ g # x)" .
qed

lemma extractFile_same: "extractFile e target m = (ok, m') \<Longrightarrow> host_same m m'"
  by (auto simp: extractFile_def dest!: MkdirAll_same WriteOver_same dest: host_same_trans split: prod.splits if_splits)

lemma extract_zip_same: "extract_zip dst es m = (r, m') \<Longrightarrow> host_same m m'"
proof (induction es arbitrary: m)
  case (Cons e es)
  show ?case
  proof (cases "split_entry (ze_name e)")
    case (Inr dr)
    obtain dir rel where dr: "dr = (dir, rel)" by (cases dr)
    let ?t = "target_of dst dir rel"
    obtain ok m1 where s: "(if ze_isdir e \<or> rel = [] then MkdirAll ?t m else extractFile e ?t m) = (ok, m1)"
      by (cases "if ze_isdir e \<or> rel = [] then MkdirAll ?t m else extractFile e ?t m")
    have "host_same m m1" using s MkdirAll_same extractFile_same by (auto split: if_splits)
    with Cons Inr dr s show ?thesis by (auto simp: Let_def dest: host_same_trans split: if_splits)
  qed (use Cons.prems in auto)
qed simp

lemma ExtractZip_same: "ExtractZip unzip a dst m = (r, m') \<Longrightarrow> host_same m m'"
  by (auto simp: ExtractZip_def dest!: ReadFile_same extract_zip_same dest: host_same_trans split: prod.splits option.splits)

lemma Download_same: "Download get u p m = (ok, m') \<Longrightarrow> host_same m m'"
  by (auto simp: Download_def dest!: MkdirAll_same WriteOver_same split: web_answer.splits prod.splits if_splits)
     (blast intro: host_same_trans RemoveFile_snd)+

lemma hashMatches_same: "hashMatches sha a want m = (ok, m') \<Longrightarrow> host_same m m' \<and> mc_tree m' = mc_tree m"
  by (auto simp: hashMatches_def SHA256File_def dest: ReadFile_same split: prod.splits)

lemma fetch_hash_same: "fetch_hash w cfg url m = (r, m') \<Longrightarrow> host_same m m'"
  by (auto simp: fetch_hash_def dest!: MkdirAll_same Download_same ReadFile_same dest: host_same_trans split: prod.splits if_splits option.splits)

lemma fetch_archive_same:
  assumes "fetch_archive w cfg url want m = (r, m')"
  shows "host_same m m'"
proof -
  let ?a = "archive_at cfg url"
  obtain same m1 where 1: "(if exists_at m ?a then hashMatches (wo_sha w) ?a want m else (False, m)) = (same, m1)"
    by (cases "if exists_at m ?a then hashMatches (wo_sha w) ?a want m else (False, m)")
  let ?m2 = "snd (RemoveFile ?a m1)"
  obtain ok3 m3 where 3: "Download (wo_get w) url ?a ?m2 = (ok3, m3)" by (cases "Download (wo_get w) url ?a ?m2")
  obtain ok4 m4 where 4: "hashMatches (wo_sha w) ?a want m3 = (ok4, m4)" by (cases "hashMatches (wo_sha w) ?a want m3")
  have o1: "host_same m m1" using 1 hashMatches_same by (auto split: if_splits)
  note o2 = host_same_trans[OF o1 RemoveFile_snd[of m1 ?a]]
  note o3 = host_same_trans[OF o2 Download_same[OF 3]]
  have o4: "host_same m m4" using host_same_trans[OF o3] hashMatches_same[OF 4] by blast
  note o5 = host_same_trans[OF o4 RemoveFile_snd[of m4 ?a]]
  from assms[unfolded fetch_archive_def Let_def 1 prod.case 3 4] o1 o2 o3 o4 o5 show ?thesis by (auto split: if_splits)
qed

fun boot_says_kept :: "boot_result \<Rightarrow> bool" where
  "boot_says_kept (BootRefused e) = True"
| "boot_says_kept (Swapped r) = says_kept r"
| "boot_says_kept _ = False"

lemma keeping_kept:
  assumes run: "install_keeping w cfg now archive b staging m = (r, m')" and "calm m"
    and order: "\<And>xs. mset (wo_order w xs) = mset xs"
    and apart: "\<And>f. f \<in> set Dirs \<Longrightarrow> (dc_data cfg @ [f]) \<parallel> RestoreDir cfg"
    and stg: "staging \<parallel> RestoreDir cfg" "staging \<parallel> (dc_data cfg @ [g])"
    and g: "g \<in> set Dirs" and there: "is_folder m (dc_data cfg @ [g])"
  shows "boot_says_kept r \<Longrightarrow> kept (dc_data cfg) m m' g"
    "kept (dc_data cfg) m m' g \<or> kept_aside (dc_data cfg) (bak (RestoreDir cfg) (show_int (unix_of now))) m m' g"
proof -
  let ?data = "dc_data cfg"
  obtain e m1 where ex: "ExtractZip (wo_unzip w) archive staging m = (e, m1)" by (cases "ExtractZip (wo_unzip w) archive staging m")
  obtain s m2 where st: "StopService m1 = (s, m2)" by (cases "StopService m1")
  obtain r0 m3 where sw: "swap_folders (wo_order w) cfg now Dirs staging m2 = (r0, m3)"
    by (cases "swap_folders (wo_order w) cfg now Dirs staging m2")
  have k1: "kept ?data m m1 g" by (rule extract_kept[OF ex stg(2)])
  have k2: "kept ?data m m2 g" using k1 StopService_frame[OF st] by (simp add: kept_def)
  have "calm m2" using assms(2) ExtractZip_same[OF ex] StopService_frame[OF st] by (auto simp: calm_def host_same_def)
  moreover have "distinct Dirs" by (simp add: Dirs_def)
  moreover have "is_folder m2 (?data @ [g])" using there kept_folder[OF k2] by simp
  moreover have "(?data @ [f]) \<parallel> RestoreDir cfg" if "f \<in> insert g (set Dirs)" for f using that apart g by auto
  ultimately have sk: "says_kept r0 \<Longrightarrow> kept ?data m2 m3 g"
    "kept ?data m2 m3 g \<or> kept_aside ?data (bak (RestoreDir cfg) (show_int (unix_of now))) m2 m3 g"
    using swap_kept[OF sw _ _ order _ stg] by blast+
  have k3: "says_kept r0 \<Longrightarrow> kept ?data m m3 g"
    "kept ?data m m3 g \<or> kept_aside ?data (bak (RestoreDir cfg) (show_int (unix_of now))) m m3 g"
    using sk k2 by (auto simp: kept_def kept_aside_def)
  consider "r = BootRefused (StopRefused (the s))" "m' = m2" | e' where "r = BootRefused e'" "m' = m \<or> m' = m1"
    | "m' = m3" "boot_says_kept r \<longrightarrow> says_kept r0"
    using run unfolding install_keeping_def ex prod.case st sw by (auto split: option.splits restore_result.splits)
  then show "boot_says_kept r \<Longrightarrow> kept ?data m m' g"
    "kept ?data m m' g \<or> kept_aside ?data (bak (RestoreDir cfg) (show_int (unix_of now))) m m' g"
    by (cases; use k1 k2 k3 in auto)+
qed

text \<open>A run that keeps the old data: whatever happens, a data directory that was there is there with all it holds, at its
  place whenever the run says so, else at its place or in the safety copy.\<close>

lemma Run_bootstrap_kept:
  assumes run: "Run_bootstrap w cfg url False now later m = (r, m')" and "calm m"
    and order: "\<And>xs. mset (wo_order w xs) = mset xs"
    and apart: "\<And>f. f \<in> set Dirs \<Longrightarrow> (dc_data cfg @ [f]) \<parallel> dc_backup cfg"
    and stg: "(dc_data cfg @ [''.bootstrap-'' @ show_int (unix_of now)]) \<parallel> dc_backup cfg"
    and base: "plain_elem (path_base url)" "CHR ''/'' \<notin> set (path_base url)"
    and g: "g \<in> set Dirs" and there: "is_folder m (dc_data cfg @ [g])"
  shows "(boot_says_kept r \<longrightarrow> kept (dc_data cfg) m m' g) \<and>
    (kept (dc_data cfg) m m' g \<or> kept_aside (dc_data cfg) (bak (RestoreDir cfg) (show_int (unix_of later))) m m' g)"
proof -
  let ?data = "dc_data cfg" and ?stg = "dc_data cfg @ [''.bootstrap-'' @ show_int (unix_of now)]" and ?a = "archive_at cfg url"
    and ?rd = "RestoreDir cfg" and ?st = "show_int (unix_of later)"
  obtain fh m1 where 1: "fetch_hash w cfg url m = (fh, m1)" by (cases "fetch_hash w cfg url m")
  obtain fa m2 where 2: "fetch_archive w cfg url (projr fh) m1 = (fa, m2)" by (cases "fetch_archive w cfg url (projr fh) m1")
  obtain d m3 where 3: "ReadFile ?a m2 = (d, m3)" by (cases "ReadFile ?a m2")
  obtain ok4 m4 where 4: "MkdirAll ?data m3 = (ok4, m4)" by (cases "MkdirAll ?data m3")
  have ag: "(?data @ [f]) \<parallel> ?rd" if "f \<in> set Dirs" for f
    unfolding RestoreDir_def using parallel_append[OF apart[OF that], of "[]"] by simp
  have sr: "?stg \<parallel> ?rd" unfolding RestoreDir_def using parallel_append[OF stg, of "[]"] by simp
  have gne: "''.bootstrap-'' @ show_int (unix_of now) \<noteq> g" using g by (auto simp: Dirs_def)
  have sg: "?stg \<parallel> (?data @ [g])" by (rule sibling_parallel[OF gne])
  note k1 = off_kept[OF off_fetch_hash[OF 1 base] apart[OF g]]
  note k2 = kept_trans[OF k1 off_kept[OF off_fetch_archive[OF 2 base] apart[OF g]]]
  have k3: "kept ?data m m3 g" using k2 ReadFile_same[OF 3] by (simp add: kept_def)
  note k4 = kept_trans[OF k3 MkdirAll_kept[OF 4]]
  have same: "host_same m m4"
    using fetch_hash_same[OF 1] fetch_archive_same[OF 2] ReadFile_same[OF 3] MkdirAll_same[OF 4] by (blast intro: host_same_trans)
  show ?thesis
  proof (cases "m' \<in> {m, m1, m2, m3, m4}")
    case True
    with k1 k2 k3 k4 show ?thesis by auto
  next
    case late: False
    note run1 = run[unfolded Run_bootstrap_def 1 prod.case]
    obtain want where want: "fh = Inr want" using run1 late by (cases fh) (auto split: option.splits)
    have 2: "fetch_archive w cfg url want m1 = (fa, m2)" using 2 want by simp
    note run2 = run1[unfolded want sum.case 2 prod.case Let_def 3 4 if_False]
    obtain b where b: "InspectZip (wo_unzip w) d = Inr b"
      using run2 late by (cases "InspectZip (wo_unzip w) d") (auto split: option.splits)
    obtain r5 m5 where 5: "install_keeping w cfg later ?a b ?stg m4 = (r5, m5)" by (cases "install_keeping w cfg later ?a b ?stg m4")
    let ?m6 = "if r5 = Bootstrapped None then snd (RemoveFile (hash_at ?a) (snd (RemoveFile ?a m5))) else m5"
    have fin: "r = r5" "m' = snd (RemoveAll ?stg ?m6)"
      using run2[unfolded b sum.case 5 prod.case] late by (auto split: option.splits if_splits)
    have at: "?a = dc_backup cfg @ [''bootstrap'', path_base url]" by (rule archive_at_plain(1)[OF base])
    note ht = archive_at_plain(2)[OF base, of cfg, unfolded at]
    have "off (dc_backup cfg) m5 ?m6" unfolding at ht using off_trans[OF off_remove off_remove] by simp
    from off_kept[OF this apart[OF g]] RemoveAll_kept[OF sg] have k6: "kept ?data m5 m' g" unfolding fin(2) by (rule kept_trans)
    have bk: "mc_tree m' (bak ?rd ?st g @ x) = mc_tree m5 (bak ?rd ?st g @ x)" for x
    proof -
      have "?stg \<parallel> bak ?rd ?st g" unfolding bak_def using parallel_append[OF sr, of "[]"] by simp
      from parallel_not[OF this, of x] have "\<not> prefix ?stg (bak ?rd ?st g @ x)" by simp
      then have "mc_tree m' (bak ?rd ?st g @ x) = mc_tree ?m6 (bak ?rd ?st g @ x)"
        unfolding fin(2) by (rule RemoveAll_tree[OF surjective_pairing])
      moreover have "mc_tree ?m6 (bak ?rd ?st g @ x) = mc_tree m5 (bak ?rd ?st g @ x)"
        unfolding at ht by (simp add: RemoveFile_snd_tree bak_def RestoreDir_def)
      ultimately show ?thesis by simp
    qed
    have "is_folder m4 (?data @ [g])" using there kept_folder[OF k4] by simp
    note kk = keeping_kept[OF 5 calm_same[OF same assms(2)] order ag sr sg g this]
    have "boot_says_kept r \<Longrightarrow> kept ?data m m' g" using kk(1) fin(1) kept_trans[OF k4 kept_trans[OF _ k6]] by blast
    moreover have "kept ?data m m' g \<or> kept_aside ?data (bak ?rd ?st) m m' g"
      using kk(2)
    proof
      assume "kept ?data m4 m5 g"
      from kept_trans[OF k4 kept_trans[OF this k6]] show ?thesis ..
    next
      assume "kept_aside ?data (bak ?rd ?st) m4 m5 g"
      with k4 have "kept_aside ?data (bak ?rd ?st) m m' g" unfolding kept_aside_def kept_def using bk by simp
      then show ?thesis ..
    qed
    ultimately show ?thesis by blast
  qed
qed

section \<open>Nothing unverified is installed\<close>

lemma Download_ok: "Download get u p m = (True, m') \<Longrightarrow> \<exists>len body mode. get u = Answer 200 len body True \<and> mc_tree m' p = Some (Doc body mode)"
  by (auto simp: Download_def dest!: WriteOver_ok split: web_answer.splits prod.splits if_splits)

lemma ReadFile_got: "ReadFile p m = (Some d, m') \<Longrightarrow> \<exists>mode. mc_tree m p = Some (Doc d mode)"
  by (auto simp: ReadFile_def next_hazard_def split: prod.splits option.splits inode.splits if_splits list.splits)

lemma hashMatches_got: "hashMatches sha p want m = (True, m') \<Longrightarrow> \<exists>d mode. mc_tree m p = Some (Doc d mode) \<and> equal_fold (sha d) want"
  by (auto simp: hashMatches_def SHA256File_def dest!: ReadFile_got split: prod.splits option.splits)

lemma fetch_hash_got:
  assumes "fetch_hash w cfg url m = (Inr want, m')"
  shows "\<exists>len hb. wo_get w (HashURL (wo_parse w) (wo_text w) url) = Answer 200 len hb True \<and> ParseHash hb = Inr want"
  using assms by (auto simp: fetch_hash_def dest!: Download_ok ReadFile_got split: prod.splits if_splits option.splits)

lemma fetch_archive_got:
  assumes "fetch_archive w cfg url want m = (None, m')"
  shows "\<exists>d mode. mc_tree m' (archive_at cfg url) = Some (Doc d mode) \<and> equal_fold (wo_sha w d) want \<and>
    (mc_tree m (archive_at cfg url) = Some (Doc d mode) \<or> (\<exists>len. wo_get w url = Answer 200 len d True))"
proof -
  let ?a = "archive_at cfg url"
  obtain same m1 where 1: "(if exists_at m ?a then hashMatches (wo_sha w) ?a want m else (False, m)) = (same, m1)"
    by (cases "if exists_at m ?a then hashMatches (wo_sha w) ?a want m else (False, m)")
  let ?m2 = "snd (RemoveFile ?a m1)"
  obtain ok3 m3 where 3: "Download (wo_get w) url ?a ?m2 = (ok3, m3)" by (cases "Download (wo_get w) url ?a ?m2")
  obtain ok4 m4 where 4: "hashMatches (wo_sha w) ?a want m3 = (ok4, m4)" by (cases "hashMatches (wo_sha w) ?a want m3")
  note run = assms[unfolded fetch_archive_def Let_def 1 prod.case 3 4]
  show ?thesis
  proof (cases same)
    case True
    with 1 have h: "hashMatches (wo_sha w) ?a want m = (True, m1)" by (auto split: if_splits)
    from run True have "m' = m1" by simp
    with hashMatches_got[OF h] hashMatches_same[OF h] show ?thesis by auto
  next
    case False
    with run have ok: ok3 ok4 "m' = m4" by (auto split: if_splits)
    have d: "Download (wo_get w) url ?a ?m2 = (True, m3)" using 3 ok(1) by simp
    have h: "hashMatches (wo_sha w) ?a want m3 = (True, m4)" using 4 ok(2) by simp
    from Download_ok[OF d] hashMatches_got[OF h] hashMatches_same[OF h] ok(3) show ?thesis by auto
  qed
qed

text \<open>Unless the run is refused, the archive it takes its data from has the digest that the sidecar fetched in this run
  names: it is the file that was there before or the body of a complete answer.\<close>

lemma fetch_hash_tree:
  assumes "fetch_hash w cfg url m = (r, m')" "x \<noteq> hash_at (archive_at cfg url)"
  shows "mc_tree m' x = mc_tree m x \<or> mc_tree m' x = Some Folder"
proof -
  let ?h = "hash_at (archive_at cfg url)" and ?u = "HashURL (wo_parse w) (wo_text w) url"
  obtain ok1 m1 where 1: "MkdirAll (dc_backup cfg @ [''bootstrap'']) m = (ok1, m1)" by (cases "MkdirAll (dc_backup cfg @ [''bootstrap'']) m")
  obtain ok2 m2 where 2: "Download (wo_get w) ?u ?h m1 = (ok2, m2)" by (cases "Download (wo_get w) ?u ?h m1")
  obtain d m3 where 3: "ReadFile ?h m2 = (d, m3)" by (cases "ReadFile ?h m2")
  have t1: "mc_tree m1 x = mc_tree m x \<or> mc_tree m1 x = Some Folder" using MkdirAll_tree[OF 1, of x] by blast
  have t2: "mc_tree m2 x = mc_tree m1 x \<or> mc_tree m2 x = Some Folder"
  proof (cases "wo_get w ?u")
    case (Answer status len body whole)
    obtain ok5 m5 where 5: "MkdirAll (up ?h) m1 = (ok5, m5)" by (cases "MkdirAll (up ?h) m1")
    obtain ok6 m6 where 6: "WriteOver ?h 420 [] m5 = (ok6, m6)" by (cases "WriteOver ?h 420 [] m5")
    obtain ok7 m7 where 7: "WriteOver ?h 420 body m6 = (ok7, m7)" by (cases "WriteOver ?h 420 body m6")
    have a: "mc_tree m5 x = mc_tree m1 x \<or> mc_tree m5 x = Some Folder" using MkdirAll_tree[OF 5, of x] by blast
    have b: "mc_tree m6 x = mc_tree m5 x" "mc_tree m7 x = mc_tree m6 x" "mc_tree (snd (RemoveFile ?h m7)) x = mc_tree m7 x"
      using WriteOver_tree[OF 6 assms(2)] WriteOver_tree[OF 7 assms(2)] RemoveFile_snd_tree[OF assms(2)] by simp_all
    from 2[unfolded Download_def Answer web_answer.case 5 prod.case 6 7] a b show ?thesis by (auto split: if_splits)
  qed (use 2 in \<open>simp add: Download_def\<close>)
  from assms(1)[unfolded fetch_hash_def 1 prod.case 2 3] t1 t2 ReadFile_same[OF 3] show ?thesis by (auto split: if_splits option.splits)
qed

lemma Run_bootstrap_verified:
  assumes run: "Run_bootstrap w cfg url discard now later m = (r, m')" and go: "\<And>e. r \<noteq> BootRefused e"
    and apart: "archive_at cfg url \<noteq> hash_at (archive_at cfg url)"
  shows "\<exists>len hb want d. wo_get w (HashURL (wo_parse w) (wo_text w) url) = Answer 200 len hb True \<and> ParseHash hb = Inr want \<and>
    equal_fold (wo_sha w d) want \<and> (\<exists>b. InspectZip (wo_unzip w) (Some d) = Inr b) \<and>
    ((\<exists>mode. mc_tree m (archive_at cfg url) = Some (Doc d mode)) \<or> (\<exists>l. wo_get w url = Answer 200 l d True))"
proof -
  let ?a = "archive_at cfg url"
  obtain fh m1 where 1: "fetch_hash w cfg url m = (fh, m1)" by (cases "fetch_hash w cfg url m")
  note run1 = run[unfolded Run_bootstrap_def 1 prod.case]
  obtain want where want: "fh = Inr want" using run1 go by (cases fh) (auto split: option.splits)
  obtain fa m2 where 2: "fetch_archive w cfg url want m1 = (fa, m2)" by (cases "fetch_archive w cfg url want m1")
  obtain d m3 where 3: "ReadFile ?a m2 = (d, m3)" by (cases "ReadFile ?a m2")
  note run2 = run1[unfolded want sum.case 2 prod.case Let_def 3]
  have fa: "fa = None" using run2 go by (cases fa) (auto split: option.splits)
  obtain b where b: "InspectZip (wo_unzip w) d = Inr b"
    using run2 go fa by (cases "InspectZip (wo_unzip w) d") (auto split: option.splits)
  have "d \<noteq> None" using b by (cases d) (simp_all add: InspectZip_def)
  then obtain d' where d: "d = Some d'" by blast
  from fetch_archive_got[OF 2[unfolded fa]] obtain d0 mode where
    got: "mc_tree m2 ?a = Some (Doc d0 mode)" "equal_fold (wo_sha w d0) want"
      "mc_tree m1 ?a = Some (Doc d0 mode) \<or> (\<exists>len. wo_get w url = Answer 200 len d0 True)" by blast
  have "d' = d0" using ReadFile_got[OF 3[unfolded d]] got(1) by auto
  moreover have "mc_tree m1 ?a = Some (Doc d0 mode) \<Longrightarrow> mc_tree m ?a = Some (Doc d0 mode)"
    using fetch_hash_tree[OF 1 apart] by auto
  ultimately show ?thesis using fetch_hash_got[OF 1[unfolded want]] got b d by blast
qed

end
