(* ===== verification/Self_Update.thy ===== *)
theory Self_Update
  imports Bootstrap
begin

text \<open>
  Updates, \<^verbatim>\<open>internal/update/update.go\<close>: the order of versions, the fetch of a release, the atomic replacement of the binary with
  its way back, and the cached check.  The web, the archive reader, SHA-256, the JSON codec and \<^verbatim>\<open>git ls-remote\<close> are parameters.
\<close>

section \<open>Versions\<close>

definition version_core :: "string \<Rightarrow> string" where
  "version_core s = takeWhile (\<lambda>c. c \<noteq> CHR ''-'' \<and> c \<noteq> CHR ''+'') (trim_prefix (trim_space s) ''v'')"

fun version_parts :: "string list \<Rightarrow> int list option" where
  "version_parts [] = Some []"
| "version_parts (f # fs) =
     (case parse_int f of None \<Rightarrow> None | Some n \<Rightarrow> if n < 0 then None else map_option ((#) n) (version_parts fs))"

definition ParseVersion :: "string \<Rightarrow> int list option" where
  "ParseVersion s =
     (let fs = split_on (CHR ''.'') (version_core s) in if length fs \<noteq> 3 then None else version_parts fs)"

fun higher :: "int list \<Rightarrow> int list \<Rightarrow> bool" where
  "higher (c # cs) (r # rs) = (if c \<noteq> r then r < c else higher cs rs)"
| "higher _ _ = False"

definition Newer :: "string \<Rightarrow> string \<Rightarrow> bool" where
  "Newer candidate running =
     (case ParseVersion candidate of None \<Rightarrow> False
      | Some c \<Rightarrow> (case ParseVersion running of None \<Rightarrow> False | Some r \<Rightarrow> higher c r))"

definition ReleaseName :: "string \<Rightarrow> string \<Rightarrow> string" where
  "ReleaseName tag goarch = ''nomctl_'' @ trim_prefix tag ''v'' @ ''_linux_'' @ goarch @ ''.tar.gz''"

section \<open>Fetching a release\<close>

datatype update_error =
    LatestUnreachable | NoRelease int | OddRelease string
  | SumsNotFetched | NotListed string | ArchiveNotFetched | SumMismatch string string
  | NotAnArchive | NoBinary | BinaryNotWritten
  | PreviousNotKept | NewNotCopied | NotInstalled
  | NoPrevious | RemoteFailed | BranchNotFound

text \<open>The answer to the request for the latest release: a status and the location header.\<close>

definition LatestTag :: "(string \<Rightarrow> (int \<times> string) option) \<Rightarrow> string \<Rightarrow> (update_error, string) result" where
  "LatestTag ask repo =
     (case ask (''https://github.com/'' @ repo @ ''/releases/latest'') of
        None \<Rightarrow> Inl LatestUnreachable
      | Some (status, loc) \<Rightarrow>
          if status < 300 \<or> 399 < status \<or> loc = [] then Inl (NoRelease status)
          else let tag = last_elem loc in if \<not> has_prefix tag ''v'' then Inl (OddRelease loc) else Inr tag)"

text \<open>At most 200 MiB of a body are read.\<close>

definition http_body :: "(string \<Rightarrow> web_answer) \<Rightarrow> string \<Rightarrow> bytes option" where
  "http_body get url =
     (case get url of
        Unreachable \<Rightarrow> None
      | Answer status len body whole \<Rightarrow>
          if status \<noteq> 200 then None
          else if 209715200 < int (length body) then Some (take (nat 209715200) body)
          else if whole then Some body else None)"

text \<open>The digest listed last for a name.\<close>

fun listed :: "string \<Rightarrow> string list \<Rightarrow> string \<Rightarrow> string" where
  "listed name [] want = want"
| "listed name (l # ls) want =
     (case str_fields l of [d, n] \<Rightarrow> listed name ls (if n = name then d else want) | _ \<Rightarrow> listed name ls want)"

fun find_binary :: "path \<Rightarrow> tar_entry list \<Rightarrow> bool \<Rightarrow> machine \<Rightarrow> (update_error, path) result \<times> machine" where
  "find_binary dir [] ends m = (Inl (if ends then NoBinary else NotAnArchive), m)"
| "find_binary dir (e # es) ends m =
     (if path_base (te_name e) \<noteq> ''nomctl'' \<or> te_type e \<noteq> RegEntry then find_binary dir es ends m
      else case WriteOver (dir @ [''nomctl.new'']) 493 (te_data e) m of (ok, m1) \<Rightarrow>
        if ok \<and> te_whole e then (Inr (dir @ [''nomctl.new'']), m1) else (Inl BinaryNotWritten, m1))"

definition extractBinary :: "(bytes \<Rightarrow> tar_stream) \<Rightarrow> bytes \<Rightarrow> path \<Rightarrow> machine \<Rightarrow> (update_error, path) result \<times> machine" where
  "extractBinary untar archive dir m =
     (case untar archive of NotGzip \<Rightarrow> (Inl NotAnArchive, m) | Stream es ends \<Rightarrow> find_binary dir es ends m)"

definition Fetch ::
  "(string \<Rightarrow> web_answer) \<Rightarrow> (bytes \<Rightarrow> string) \<Rightarrow> (bytes \<Rightarrow> tar_stream) \<Rightarrow> string \<Rightarrow> string \<Rightarrow> string \<Rightarrow> path \<Rightarrow> machine \<Rightarrow>
     (update_error, path) result \<times> machine" where
  "Fetch get sha untar goarch repo tag dir m =
     (let base = ''https://github.com/'' @ repo @ ''/releases/download/'' @ tag @ ''/''; name = ReleaseName tag goarch in
      case http_body get (base @ ''checksums.txt'') of
        None \<Rightarrow> (Inl SumsNotFetched, m)
      | Some sumfile \<Rightarrow>
          let want = listed name (split_on (CHR 0x0A) sumfile) [] in
          if want = [] then (Inl (NotListed name), m)
          else case http_body get (base @ name) of
            None \<Rightarrow> (Inl ArchiveNotFetched, m)
          | Some archive \<Rightarrow>
              if sha archive \<noteq> want then (Inl (SumMismatch (sha archive) want), m)
              else extractBinary untar archive dir m)"

section \<open>Replacing the binary\<close>

text \<open>A second name for a file.\<close>

definition Link :: "path \<Rightarrow> path \<Rightarrow> machine \<Rightarrow> bool \<times> machine" where
  "Link p q m =
     (case next_hazard m of (h, m1) \<Rightarrow>
      if \<not> fine h \<or> \<not> is_doc m1 p \<or> exists_at m1 q \<or> \<not> is_folder m1 (up q) then (False, m1)
      else (True, put q (mc_tree m1 p) m1))"

definition copyFile :: "path \<Rightarrow> path \<Rightarrow> machine \<Rightarrow> bool \<times> machine" where
  "copyFile src dst m =
     (case ReadFile src m of (None, m1) \<Rightarrow> (False, m1) | (Some d, m1) \<Rightarrow> WriteOver dst 493 d m1)"

definition beside :: "path \<Rightarrow> string \<Rightarrow> path" where
  "beside p ext = up p @ [List.last p @ ext]"

definition keep_previous :: "path \<Rightarrow> machine \<Rightarrow> bool \<times> machine" where
  "keep_previous target m =
     (if \<not> exists_at m target then (True, m)
      else
        let m1 = snd (RemoveFile (beside target ''.previous'') m) in
        case Link target (beside target ''.previous'') m1 of (ok, m2) \<Rightarrow>
          if ok then (True, m2) else copyFile target (beside target ''.previous'') m2)"

definition Replace :: "path \<Rightarrow> path \<Rightarrow> machine \<Rightarrow> update_error option \<times> machine" where
  "Replace newBinary target m =
     (case keep_previous target m of (ok, m1) \<Rightarrow>
      if \<not> ok then (Some PreviousNotKept, m1)
      else case copyFile newBinary (beside target ''.staged'') m1 of (ok2, m2) \<Rightarrow>
        if \<not> ok2 then (Some NewNotCopied, m2)
        else case Rename (beside target ''.staged'') target m2 of (ok3, m3) \<Rightarrow>
          if \<not> ok3 then (Some NotInstalled, snd (RemoveFile (beside target ''.staged'') m3)) else (None, m3))"

definition Rollback :: "path \<Rightarrow> machine \<Rightarrow> update_error option \<times> machine" where
  "Rollback target m =
     (if \<not> exists_at m (beside target ''.previous'') then (Some NoPrevious, m)
      else case copyFile (beside target ''.previous'') (beside target ''.staged'') m of (ok, m1) \<Rightarrow>
        if \<not> ok then (Some NewNotCopied, m1)
        else case Rename (beside target ''.staged'') target m1 of (ok2, m2) \<Rightarrow> ((if ok2 then None else Some NotInstalled), m2))"

section \<open>The check and its cache\<close>

text \<open>\<open>lsremote\<close> is the output of \<^verbatim>\<open>git ls-remote\<close>.\<close>

definition RemoteHead :: "(string \<Rightarrow> string \<Rightarrow> string option) \<Rightarrow> string \<Rightarrow> string \<Rightarrow> (update_error, string) result" where
  "RemoteHead lsremote repoURL branch =
     (case lsremote repoURL (''refs/heads/'' @ branch) of
        None \<Rightarrow> Inl RemoteFailed
      | Some out \<Rightarrow>
          (case str_fields out of
             [] \<Rightarrow> Inl BranchNotFound
           | f # fs \<Rightarrow> if length f < 7 then Inl BranchNotFound else Inr f))"

definition SameCommit :: "string \<Rightarrow> string \<Rightarrow> bool" where
  "SameCommit short full \<longleftrightarrow>
     (let s = to_lower (trim_space short); f = to_lower (trim_space full) in s \<noteq> [] \<and> 7 \<le> length s \<and> has_prefix f s)"

record update_check =
  uc_at :: time
  uc_repo :: string
  uc_latest :: string
  uc_node_repo :: string
  uc_node_branch :: string
  uc_node_remote :: string
  uc_latest_err :: "update_error option"
  uc_remote_err :: "update_error option"

record check_options =
  co_repo :: string
  co_node_repo :: string
  co_node_branch :: string
  co_cache :: path
  co_ttl :: duration

definition DefaultTTL :: duration where "DefaultTTL = hour"

definition load_check :: "(bytes \<Rightarrow> update_check option) \<Rightarrow> path \<Rightarrow> machine \<Rightarrow> update_check option \<times> machine" where
  "load_check decode p m = (case ReadFile p m of (d, m1) \<Rightarrow> (Option.bind d decode, m1))"

definition save_check :: "(update_check \<Rightarrow> bytes option) \<Rightarrow> path \<Rightarrow> update_check \<Rightarrow> machine \<Rightarrow> machine" where
  "save_check encode p c m =
     (case MkdirAll (up p) m of (ok, m1) \<Rightarrow>
      if \<not> ok then m1
      else case encode c of
        None \<Rightarrow> m1
      | Some d \<Rightarrow>
          (case WriteOver (beside p ''.tmp'') 420 d m1 of (ok2, m2) \<Rightarrow>
           if ok2 then snd (Rename (beside p ''.tmp'') p m2) else m2))"

definition reusable :: "check_options \<Rightarrow> time \<Rightarrow> update_check \<Rightarrow> bool" where
  "reusable opts now c \<longleftrightarrow>
     time_sub now (uc_at c) < (if co_ttl opts = 0 then DefaultTTL else co_ttl opts) \<and>
     uc_repo c = co_repo opts \<and> uc_node_repo c = co_node_repo opts \<and> uc_node_branch c = co_node_branch opts"

definition fresh_check ::
  "(string \<Rightarrow> (int \<times> string) option) \<Rightarrow> (string \<Rightarrow> string \<Rightarrow> string option) \<Rightarrow> check_options \<Rightarrow> time \<Rightarrow> update_check" where
  "fresh_check ask lsremote opts now =
     (let latest = LatestTag ask (co_repo opts); head = RemoteHead lsremote (co_node_repo opts) (co_node_branch opts);
          want_head = (co_node_repo opts \<noteq> []) in
      \<lparr> uc_at = now, uc_repo = co_repo opts, uc_latest = (case latest of Inr t \<Rightarrow> t | Inl _ \<Rightarrow> []),
        uc_node_repo = co_node_repo opts, uc_node_branch = co_node_branch opts,
        uc_node_remote = (case head of Inr h \<Rightarrow> if want_head then h else [] | Inl _ \<Rightarrow> []),
        uc_latest_err = (case latest of Inl e \<Rightarrow> Some e | Inr _ \<Rightarrow> None),
        uc_remote_err = (case head of Inl e \<Rightarrow> if want_head then Some e else None | Inr _ \<Rightarrow> None) \<rparr>)"

definition Run_check ::
  "(bytes \<Rightarrow> update_check option) \<Rightarrow> (update_check \<Rightarrow> bytes option) \<Rightarrow> (string \<Rightarrow> (int \<times> string) option) \<Rightarrow>
   (string \<Rightarrow> string \<Rightarrow> string option) \<Rightarrow> check_options \<Rightarrow> time \<Rightarrow> time \<Rightarrow> machine \<Rightarrow> update_check \<times> machine" where
  "Run_check decode encode ask lsremote opts now later m =
     (let cache = (if co_cache opts = [] then [''run'', ''nomctl'', ''update-check.json''] else co_cache opts) in
      case load_check decode cache m of (c, m1) \<Rightarrow>
      case (case c of None \<Rightarrow> None | Some c \<Rightarrow> if reusable opts now c then Some c else None) of
        Some c \<Rightarrow> (c, m1)
      | None \<Rightarrow> let c = fresh_check ask lsremote opts later in (c, save_check encode cache c m1))"

definition shortCommit :: "string \<Rightarrow> string" where "shortCommit c = take 7 c"

definition update_lines :: "update_check \<Rightarrow> string \<Rightarrow> string \<Rightarrow> string list" where
  "update_lines c running nodeCommit =
     (if uc_latest c \<noteq> [] \<and> Newer (uc_latest c) running
      then [''nomctl '' @ trim_prefix (uc_latest c) ''v'' @ '' available (running '' @ running @ ''): sudo nomctl upgrade''] else []) @
     (if uc_node_remote c \<noteq> [] \<and> nodeCommit \<noteq> [] \<and> \<not> SameCommit nodeCommit (uc_node_remote c)
      then [''go-zenon '' @ uc_node_branch c @ '' has new commits (deployed '' @ shortCommit nodeCommit @ '', remote '' @
            shortCommit (uc_node_remote c) @ ''): sudo nomctl deploy''] else [])"

section \<open>The order of versions\<close>

lemma higher_irrefl: "\<not> higher v v"
  by (induction v) simp_all

lemma higher_trans: "higher a b \<Longrightarrow> higher b c \<Longrightarrow> length a = length b \<Longrightarrow> length b = length c \<Longrightarrow> higher a c"
proof (induction a arbitrary: b c)
  case (Cons x xs)
  then obtain y ys z zs where "b = y # ys" "c = z # zs" by (metis length_0_conv list.distinct(1) neq_Nil_conv)
  with Cons show ?case by (auto split: if_splits)
qed simp

lemma higher_total: "length a = length b \<Longrightarrow> a \<noteq> b \<Longrightarrow> higher a b \<or> higher b a"
  by (induction a b rule: list_induct2) auto

lemma version_parts_length: "version_parts fs = Some v \<Longrightarrow> length v = length fs"
  by (induction fs arbitrary: v) (auto split: option.splits if_splits)

lemma ParseVersion_length: "ParseVersion s = Some v \<Longrightarrow> length v = 3"
  by (auto simp: ParseVersion_def Let_def dest: version_parts_length split: if_splits)

lemma Newer_iff: "Newer c r \<longleftrightarrow> (\<exists>v w. ParseVersion c = Some v \<and> ParseVersion r = Some w \<and> higher v w)"
  by (auto simp: Newer_def split: option.splits)

lemma Newer_trans: "Newer a b \<Longrightarrow> Newer b c \<Longrightarrow> Newer a c"
  using higher_trans ParseVersion_length unfolding Newer_iff by (metis option.inject)

lemma version_parts_show:
  "\<forall>n \<in> set ns. 0 \<le> n \<and> n \<le> max_int64 \<Longrightarrow> version_parts (map show_uint ns) = Some ns"
proof (induction ns)
  case (Cons n ns)
  then have "parse_int (show_uint n) = Some n" using parse_show_int[of n] by (simp add: show_int_def in_int64_def min_int64_def)
  with Cons show ?case by simp
qed simp


section \<open>Replacing is atomic\<close>

lemma copyFile_tree: "copyFile src dst m = (ok, m') \<Longrightarrow> x \<noteq> dst \<Longrightarrow> mc_tree m' x = mc_tree m x"
  by (auto simp: copyFile_def dest!: ReadFile_same WriteOver_tree[where x = x] split: prod.splits option.splits)

lemma copyFile_ok:
  assumes "copyFile src dst m = (True, m')"
  shows "\<exists>d mode mode'. mc_tree m src = Some (Doc d mode) \<and> mc_tree m' dst = Some (Doc d mode')"
proof -
  obtain d m1 where r: "ReadFile src m = (d, m1)" by (cases "ReadFile src m")
  with assms obtain d' where d: "d = Some d'" by (cases d) (auto simp: copyFile_def)
  from assms r d have "WriteOver dst 493 d' m1 = (True, m')" by (simp add: copyFile_def)
  with WriteOver_ok[OF this] ReadFile_got[OF r[unfolded d]] show ?thesis by blast
qed

lemma Link_tree: "Link p q m = (ok, m') \<Longrightarrow> x \<noteq> q \<Longrightarrow> mc_tree m' x = mc_tree m x"
  by (auto simp: Link_def dest!: next_hazardD(1) split: prod.splits if_splits)

lemma Link_ok: "Link p q m = (True, m') \<Longrightarrow> mc_tree m' q = mc_tree m p"
  by (auto simp: Link_def dest!: next_hazardD(1) split: prod.splits if_splits)

lemma beside_snoc: "beside (u @ [n]) ext = u @ [n @ ext]"
  by (simp add: beside_def up_def)

lemma keep_previous_spec:
  assumes "keep_previous (u @ [n]) m = (ok, m')"
  shows "x \<noteq> u @ [n @ ''.previous''] \<Longrightarrow> mc_tree m' x = mc_tree m x"
    "ok \<Longrightarrow> mc_tree m (u @ [n]) = Some (Doc d mode) \<Longrightarrow> \<exists>mode'. mc_tree m' (u @ [n @ ''.previous'']) = Some (Doc d mode')"
proof -
  let ?t = "u @ [n]" and ?p = "u @ [n @ ''.previous'']"
  let ?m1 = "snd (RemoveFile ?p m)"
  obtain ok2 m2 where l: "Link ?t ?p ?m1 = (ok2, m2)" by (cases "Link ?t ?p ?m1")
  obtain ok3 m3 where c: "copyFile ?t ?p m2 = (ok3, m3)" by (cases "copyFile ?t ?p m2")
  note run = assms[unfolded keep_previous_def beside_snoc Let_def l prod.case c]
  have t1: "mc_tree ?m1 ?t = mc_tree m ?t" by (rule RemoveFile_snd_tree) simp
  have t2: "mc_tree m2 ?t = mc_tree m ?t" using Link_tree[OF l, of ?t] t1 by simp
  show "mc_tree m' x = mc_tree m x" if "x \<noteq> ?p"
    using run RemoveFile_snd_tree[OF that] Link_tree[OF l that] copyFile_tree[OF c that] by (auto split: if_splits)
  assume ok and d: "mc_tree m ?t = Some (Doc d mode)"
  then have ex: "exists_at m ?t" by (simp add: exists_at_def)
  show "\<exists>mode'. mc_tree m' ?p = Some (Doc d mode')"
  proof (cases ok2)
    case True
    with run ex have "m' = m2" by simp
    with Link_ok[of ?t ?p ?m1 m2] l True t1 d show ?thesis by auto
  next
    case False
    with run ex \<open>ok\<close> c have "copyFile ?t ?p m2 = (True, m')" by simp
    from copyFile_ok[OF this] t2 d show ?thesis by auto
  qed
qed

text \<open>Whatever breaks, the target is the old file or all of the new one; once it is the new one, the old one is kept.\<close>

lemma Replace_spec:
  assumes run: "Replace newb (u @ [n]) m = (e, m')"
    and new: "newb \<notin> {u @ [n @ ''.previous''], u @ [n @ ''.staged'']}"
  shows "e \<noteq> None \<Longrightarrow> mc_tree m' (u @ [n]) = mc_tree m (u @ [n])"
    "e = None \<Longrightarrow> \<exists>d mode mode'. mc_tree m newb = Some (Doc d mode) \<and> mc_tree m' (u @ [n]) = Some (Doc d mode')"
    "e = None \<Longrightarrow> mc_tree m (u @ [n]) = Some (Doc d0 mode0) \<Longrightarrow> \<exists>mode'. mc_tree m' (u @ [n @ ''.previous'']) = Some (Doc d0 mode')"
proof -
  let ?t = "u @ [n]" and ?p = "u @ [n @ ''.previous'']" and ?s = "u @ [n @ ''.staged'']"
  obtain ok1 m1 where 1: "keep_previous ?t m = (ok1, m1)" by (cases "keep_previous ?t m")
  obtain ok2 m2 where 2: "copyFile newb ?s m1 = (ok2, m2)" by (cases "copyFile newb ?s m1")
  obtain ok3 m3 where 3: "Rename ?s ?t m2 = (ok3, m3)" by (cases "Rename ?s ?t m2")
  note unf = run[unfolded Replace_def beside_snoc 1 prod.case 2 3]
  have t1: "mc_tree m1 ?t = mc_tree m ?t" by (rule keep_previous_spec(1)[OF 1]) simp
  have t2: "mc_tree m2 ?t = mc_tree m ?t" using copyFile_tree[OF 2, of ?t] t1 by simp
  have rm: "mc_tree (snd (RemoveFile ?s m3)) ?t = mc_tree m3 ?t" by (rule RemoveFile_snd_tree) simp
  show "mc_tree m' ?t = mc_tree m ?t" if "e \<noteq> None"
    using unf that t1 t2 rm Rename_failed[of ?s ?t m2 m3] 3 by (auto split: if_splits)
  assume e: "e = None"
  with unf have ok: ok1 ok2 ok3 "m' = m3" by (auto split: if_splits)
  have r: "Rename ?s ?t m2 = (True, m3)" using 3 ok(3) by simp
  have c: "copyFile newb ?s m1 = (True, m2)" using 2 ok(2) by simp
  have np: "\<not> prefix ?t ?s" "\<not> prefix ?s ?p" "\<not> prefix ?t ?p" by simp_all
  from copyFile_ok[OF c] obtain d mode mode' where d: "mc_tree m1 newb = Some (Doc d mode)" "mc_tree m2 ?s = Some (Doc d mode')" by blast
  have "mc_tree m newb = Some (Doc d mode)" using keep_previous_spec(1)[OF 1, of newb] new d(1) by simp
  moreover have "mc_tree m' ?t = Some (Doc d mode')" using Rename_ok(1)[OF r np(1), of "[]"] d(2) ok(4) by simp
  ultimately show "\<exists>d mode mode'. mc_tree m newb = Some (Doc d mode) \<and> mc_tree m' ?t = Some (Doc d mode')" by blast
  assume "mc_tree m ?t = Some (Doc d0 mode0)"
  from keep_previous_spec(2)[OF 1 ok(1) this] obtain mode1 where p: "mc_tree m1 ?p = Some (Doc d0 mode1)" by blast
  have "mc_tree m3 ?p = mc_tree m2 ?p" by (rule Rename_tree[OF r np(2,3)])
  with p copyFile_tree[OF 2, of ?p] ok(4) show "\<exists>mode'. mc_tree m' ?p = Some (Doc d0 mode')" by simp
qed

lemma Rollback_spec:
  assumes run: "Rollback (u @ [n]) m = (e, m')"
  shows "e \<noteq> None \<Longrightarrow> mc_tree m' (u @ [n]) = mc_tree m (u @ [n])"
    "e = None \<Longrightarrow> \<exists>d mode mode'. mc_tree m (u @ [n @ ''.previous'']) = Some (Doc d mode) \<and> mc_tree m' (u @ [n]) = Some (Doc d mode')"
proof -
  let ?t = "u @ [n]" and ?p = "u @ [n @ ''.previous'']" and ?s = "u @ [n @ ''.staged'']"
  obtain ok2 m2 where 2: "copyFile ?p ?s m = (ok2, m2)" by (cases "copyFile ?p ?s m")
  obtain ok3 m3 where 3: "Rename ?s ?t m2 = (ok3, m3)" by (cases "Rename ?s ?t m2")
  note unf = run[unfolded Rollback_def beside_snoc prod.case 2 3]
  have t2: "mc_tree m2 ?t = mc_tree m ?t" using copyFile_tree[OF 2, of ?t] by simp
  show "mc_tree m' ?t = mc_tree m ?t" if "e \<noteq> None"
    using unf that t2 Rename_failed[of ?s ?t m2 m3] 3 by (auto split: if_splits)
  assume e: "e = None"
  with unf have ok: ok2 ok3 "m' = m3" by (auto split: if_splits)
  have r: "Rename ?s ?t m2 = (True, m3)" using 3 ok(2) by simp
  have c: "copyFile ?p ?s m = (True, m2)" using 2 ok(1) by simp
  have np: "\<not> prefix ?t ?s" by simp
  from copyFile_ok[OF c] Rename_ok(1)[OF r np, of "[]"] ok(3)
  show "\<exists>d mode mode'. mc_tree m ?p = Some (Doc d mode) \<and> mc_tree m' ?t = Some (Doc d mode')" by auto
qed

text \<open>What is extracted is the binary of an archive with the digest that the release lists for it.\<close>

lemma find_binary_got:
  "find_binary dir es ends m = (Inr p, m') \<Longrightarrow> p = dir @ [''nomctl.new''] \<and>
     (\<exists>e mode. e \<in> set es \<and> path_base (te_name e) = ''nomctl'' \<and> te_type e = RegEntry \<and> te_whole e \<and> mc_tree m' p = Some (Doc (te_data e) mode))"
proof (induction es)
  case (Cons e es)
  obtain ok m1 where w: "WriteOver (dir @ [''nomctl.new'']) 493 (te_data e) m = (ok, m1)" by (cases "WriteOver (dir @ [''nomctl.new'']) 493 (te_data e) m")
  show ?case
  proof (cases "path_base (te_name e) \<noteq> ''nomctl'' \<or> te_type e \<noteq> RegEntry")
    case True
    with Cons.prems have "find_binary dir es ends m = (Inr p, m')" by simp
    from Cons.IH[OF this] show ?thesis by auto
  next
    case False
    with Cons.prems w have ok: ok "te_whole e" "p = dir @ [''nomctl.new'']" "m' = m1" by (auto split: if_splits)
    from w ok(1) have "WriteOver (dir @ [''nomctl.new'']) 493 (te_data e) m = (True, m1)" by simp
    from WriteOver_ok[OF this] ok False show ?thesis by auto
  qed
qed simp

lemma Fetch_got:
  assumes "Fetch get sha untar goarch repo tag dir m = (Inr p, m')"
  shows "\<exists>sumfile archive es ends e mode. http_body get (''https://github.com/'' @ repo @ ''/releases/download/'' @ tag @ ''/checksums.txt'') = Some sumfile \<and>
    sha archive = listed (ReleaseName tag goarch) (split_on (CHR 0x0A) sumfile) [] \<and>
    untar archive = Stream es ends \<and> e \<in> set es \<and> path_base (te_name e) = ''nomctl'' \<and> mc_tree m' p = Some (Doc (te_data e) mode)"
proof -
  let ?base = "''https://github.com/'' @ repo @ ''/releases/download/'' @ tag @ ''/''"
  obtain sumfile where s: "http_body get (?base @ ''checksums.txt'') = Some sumfile"
    using assms by (cases "http_body get (?base @ ''checksums.txt'')") (simp_all add: Fetch_def Let_def)
  note run1 = assms[unfolded Fetch_def Let_def s option.case]
  let ?want = "listed (ReleaseName tag goarch) (split_on (CHR 0x0A) sumfile) []"
  have "?want \<noteq> []" using run1 by (auto split: if_splits)
  note run2 = run1[unfolded if_not_P[OF this]]
  obtain archive where a: "http_body get (?base @ ReleaseName tag goarch) = Some archive"
    using run2 by (cases "http_body get (?base @ ReleaseName tag goarch)") (simp_all add: \<open>?want \<noteq> []\<close>)
  have "sha archive = ?want" using run2 a \<open>?want \<noteq> []\<close> by (auto split: if_splits)
  with run2 a \<open>?want \<noteq> []\<close> have x: "extractBinary untar archive dir m = (Inr p, m')" by simp
  then obtain es ends where st: "untar archive = Stream es ends" "find_binary dir es ends m = (Inr p, m')"
    by (cases "untar archive") (auto simp: extractBinary_def)
  from find_binary_got[OF st(2)] st(1) s \<open>sha archive = ?want\<close> show ?thesis by fastforce
qed

text \<open>A version string with a suffix counts as the release before it, a git description too.\<close>

lemma git_describe_is_release: "ParseVersion ''v1.2.3-5-gdeadbee'' = Some [1, 2, 3]"
  by code_simp

lemma candidate_not_offered: "\<not> Newer ''v1.2.3'' ''v1.2.3-rc1''"
  by code_simp

end
