(* ===== verification/Producer.thy ===== *)
theory Producer
  imports Self_Update
begin

text \<open>
  The producer key, \<^verbatim>\<open>internal/producer/producer.go\<close> and \<^verbatim>\<open>setup.go\<close>: the section of \<^verbatim>\<open>config.json\<close>, the key file, and the
  setup that keeps, wires in or makes a key.  The wallet package's key files, the JSON codec, the random numbers and the
  answers to the questions are parameters.
\<close>

section \<open>The configuration file\<close>

text \<open>The \<^verbatim>\<open>Producer\<close> section of \<^verbatim>\<open>config.json\<close>.\<close>

record producer_config =
  pc_index :: int
  pc_key_file :: string
  pc_password :: string
  pc_address :: string

text \<open>What opening a key file with a password gives.\<close>

datatype key_open = KeyBad | KeyWrong | KeyOpens string

text \<open>
  The codecs of the JSON object with its sections left raw and of the section, the key files of the wallet package
  (opening one, and the bytes of a new one for a password), and the random characters.
\<close>

record crypto =
  cr_dec_raw :: "bytes \<Rightarrow> (string \<rightharpoonup> bytes) option"
  cr_enc_raw :: "(string \<rightharpoonup> bytes) \<Rightarrow> bytes option"
  cr_dec_section :: "bytes \<Rightarrow> producer_config option"
  cr_enc_section :: "producer_config \<Rightarrow> bytes option"
  cr_open :: "bytes \<Rightarrow> string \<Rightarrow> key_open"
  cr_new_key :: "string \<Rightarrow> bytes option"

datatype producer_error =
    ConfigUnreadable | ConfigNotObject | SectionInvalid | SectionNotEncoded | ConfigNotEncoded
  | ConfigDirFailed | ConfigBackupFailed | ConfigNotWritten | ConfigNotRenamed
  | KeyExists | KeyDirFailed | KeyNotMade | KeyNotWritten | KeyModeFailed
  | KeyUnreadable | WrongPassword | PromptFailed | NeedsPassword | ThreeWrong | NoRandom
  | RestartFailed restart_error

definition KeyFileName :: string where "KeyFileName = ''producer''"

definition KeyFilePath :: "path \<Rightarrow> path" where "KeyFilePath data = data @ [''wallet'', KeyFileName]"
definition ConfigPath :: "path \<Rightarrow> path" where "ConfigPath data = data @ [''config.json'']"

definition PasswordAlphabet :: string where
  "PasswordAlphabet = ''ABCDEFGHIJKLMNOPQRSTUVWXYZabcdefghijklmnopqrstuvwxyz0123456789''"

text \<open>From 16 random numbers below 62, when they can be had.\<close>

definition GeneratePassword :: "nat list option \<Rightarrow> (producer_error, string) result" where
  "GeneratePassword random =
     (case random of None \<Rightarrow> Inl NoRandom | Some ns \<Rightarrow> Inr (map (\<lambda>n. PasswordAlphabet ! n) (take 16 ns)))"

definition readRaw :: "crypto \<Rightarrow> path \<Rightarrow> machine \<Rightarrow> (producer_error, string \<rightharpoonup> bytes) result \<times> machine" where
  "readRaw cr p m =
     (if \<not> exists_at m p then (Inr Map.empty, m)
      else case ReadFile p m of
        (None, m1) \<Rightarrow> (Inl ConfigUnreadable, m1)
      | (Some d, m1) \<Rightarrow>
          if trim_space d = [] then (Inr Map.empty, m1)
          else case cr_dec_raw cr d of None \<Rightarrow> (Inl ConfigNotObject, m1) | Some raw \<Rightarrow> (Inr raw, m1))"

definition section_of :: "crypto \<Rightarrow> (string \<rightharpoonup> bytes) \<Rightarrow> (producer_error, producer_config option) result" where
  "section_of cr raw =
     (case raw ''Producer'' of
        None \<Rightarrow> Inr None
      | Some s \<Rightarrow>
          if trim_space s = ''null'' then Inr None
          else case cr_dec_section cr s of None \<Rightarrow> Inl SectionInvalid | Some c \<Rightarrow> Inr (Some c))"

definition ReadConfig :: "crypto \<Rightarrow> path \<Rightarrow> machine \<Rightarrow> (producer_error, producer_config option) result \<times> machine" where
  "ReadConfig cr p m = (case readRaw cr p m of (Inl e, m1) \<Rightarrow> (Inl e, m1) | (Inr raw, m1) \<Rightarrow> (section_of cr raw, m1))"

text \<open>The path of the copy of the previous file goes with the result.\<close>

definition write_config_file :: "path \<Rightarrow> bytes \<Rightarrow> path option \<Rightarrow> machine \<Rightarrow> (producer_error option \<times> path option) \<times> machine" where
  "write_config_file p data backup m =
     (case WriteOver (beside p ''.tmp'') 384 (data @ [CHR 0x0A]) m of (ok, m1) \<Rightarrow>
      if \<not> ok then ((Some ConfigNotWritten, backup), m1)
      else case Rename (beside p ''.tmp'') p m1 of (ok2, m2) \<Rightarrow>
        if \<not> ok2 then ((Some ConfigNotRenamed, backup), snd (RemoveFile (beside p ''.tmp'') m2)) else ((None, backup), m2))"

definition WriteConfig :: "crypto \<Rightarrow> path \<Rightarrow> producer_config \<Rightarrow> time \<Rightarrow> machine \<Rightarrow> (producer_error option \<times> path option) \<times> machine" where
  "WriteConfig cr p c now m =
     (case readRaw cr p m of
        (Inl e, m1) \<Rightarrow> ((Some e, None), m1)
      | (Inr raw, m1) \<Rightarrow>
          (case cr_enc_section cr c of
             None \<Rightarrow> ((Some SectionNotEncoded, None), m1)
           | Some s \<Rightarrow>
               (case cr_enc_raw cr (raw(''Producer'' \<mapsto> s)) of
                  None \<Rightarrow> ((Some ConfigNotEncoded, None), m1)
                | Some data \<Rightarrow>
                    (case MkdirAll (up p) m1 of (ok, m2) \<Rightarrow>
                     if \<not> ok then ((Some ConfigDirFailed, None), m2)
                     else case ReadFile p m2 of
                       (None, m3) \<Rightarrow> write_config_file p data None m3
                     | (Some current, m3) \<Rightarrow>
                         let bk = beside p (''.bak.'' @ show_int (unix_of now)) in
                         case WriteOver bk 384 current m3 of (ok4, m4) \<Rightarrow>
                           if \<not> ok4 then ((Some ConfigBackupFailed, None), m4)
                           else write_config_file p data (Some bk) m4))))"

section \<open>The key file\<close>

definition Verify_key :: "crypto \<Rightarrow> path \<Rightarrow> string \<Rightarrow> machine \<Rightarrow> (producer_error, string) result \<times> machine" where
  "Verify_key cr p password m =
     (case ReadFile p m of
        (None, m1) \<Rightarrow> (Inl KeyUnreadable, m1)
      | (Some d, m1) \<Rightarrow>
          ((case cr_open cr d password of KeyBad \<Rightarrow> Inl KeyUnreadable | KeyWrong \<Rightarrow> Inl WrongPassword | KeyOpens a \<Rightarrow> Inr a), m1))"

definition Chmod :: "path \<Rightarrow> int \<Rightarrow> machine \<Rightarrow> bool \<times> machine" where
  "Chmod p mode m =
     (case next_hazard m of (h, m1) \<Rightarrow>
      case mc_tree m1 p of
        Some (Doc d old) \<Rightarrow> if fine h then (True, put p (Some (Doc d mode)) m1) else (False, m1)
      | _ \<Rightarrow> (False, m1))"

text \<open>The wallet package writes the file of the key; then the mode is set and the file read back.\<close>

definition CreateKey :: "crypto \<Rightarrow> path \<Rightarrow> string \<Rightarrow> machine \<Rightarrow> (producer_error, string) result \<times> machine" where
  "CreateKey cr p password m =
     (if exists_at m p then (Inl KeyExists, m)
      else case MkdirAll (up p) m of (ok1, m1) \<Rightarrow>
        if \<not> ok1 then (Inl KeyDirFailed, m1)
        else case cr_new_key cr password of
          None \<Rightarrow> (Inl KeyNotMade, m1)
        | Some d \<Rightarrow>
            (case WriteOver p 448 d m1 of (ok2, m2) \<Rightarrow>
             if \<not> ok2 then (Inl KeyNotWritten, m2)
             else case Chmod p 384 m2 of (ok3, m3) \<Rightarrow>
               if \<not> ok3 then (Inl KeyModeFailed, m3) else Verify_key cr p password m3))"

section \<open>Setup\<close>

text \<open>
  The questions, when there is somebody to ask: whether to keep what is configured, and for a password at each attempt; an
  answer may fail.
\<close>

record setup_options =
  so_password :: string
  so_keep :: "(string \<Rightarrow> bool option) option"
  so_ask :: "(nat \<Rightarrow> string option) option"

record setup_result =
  sr_address :: string
  sr_password :: string
  sr_created :: bool
  sr_configured :: bool
  sr_backup :: "path option"
  sr_restarted :: bool

definition no_result :: setup_result where
  "no_result = \<lparr> sr_address = [], sr_password = [], sr_created = False, sr_configured = False, sr_backup = None, sr_restarted = False \<rparr>"

fun ask_passwords :: "crypto \<Rightarrow> path \<Rightarrow> (nat \<Rightarrow> string option) \<Rightarrow> nat list \<Rightarrow> machine \<Rightarrow> (producer_error, string \<times> string) result \<times> machine" where
  "ask_passwords cr p ask [] m = (Inl ThreeWrong, m)"
| "ask_passwords cr p ask (n # ns) m =
     (case ask n of
        None \<Rightarrow> (Inl PromptFailed, m)
      | Some pw \<Rightarrow>
          (case Verify_key cr p (trim_space pw) m of
             (Inr a, m1) \<Rightarrow> (Inr (trim_space pw, a), m1)
           | (Inl e, m1) \<Rightarrow> if e \<noteq> WrongPassword then (Inl e, m1) else ask_passwords cr p ask ns m1))"

definition unlockExisting :: "crypto \<Rightarrow> path \<Rightarrow> setup_options \<Rightarrow> machine \<Rightarrow> (producer_error, string \<times> string) result \<times> machine" where
  "unlockExisting cr p opts m =
     (if so_password opts \<noteq> [] then
        (case Verify_key cr p (so_password opts) m of
           (Inl e, m1) \<Rightarrow> (Inl e, m1) | (Inr a, m1) \<Rightarrow> (Inr (so_password opts, a), m1))
      else case so_ask opts of None \<Rightarrow> (Inl NeedsPassword, m) | Some ask \<Rightarrow> ask_passwords cr p ask [1, 2, 3] m)"

definition IsActive :: "machine \<Rightarrow> bool \<times> machine" where
  "IsActive m = (case Status m of (st, m1) \<Rightarrow> (st = Some Active, m1))"

text \<open>The last part of a setup: the section is written and a running node restarted.\<close>

definition wire_in :: "crypto \<Rightarrow> path \<Rightarrow> producer_config \<Rightarrow> setup_result \<Rightarrow> time \<Rightarrow> machine \<Rightarrow> (producer_error option \<times> setup_result) \<times> machine" where
  "wire_in cr data pc res now m =
     (case WriteConfig cr (ConfigPath data) pc now m of
        ((Some e, _), m1) \<Rightarrow> ((Some e, res\<lparr> sr_address := pc_address pc \<rparr>), m1)
      | ((None, bk), m1) \<Rightarrow>
          let res1 = res\<lparr> sr_address := pc_address pc, sr_backup := bk \<rparr> in
          case IsActive m1 of (active, m2) \<Rightarrow>
            if \<not> active then ((None, res1), m2)
            else case RestartService m2 of
              (Some e, m3) \<Rightarrow> ((Some (RestartFailed e), res1), m3)
            | (None, m3) \<Rightarrow> ((None, res1\<lparr> sr_restarted := True \<rparr>), m3))"

definition configured_key :: "string \<Rightarrow> string \<Rightarrow> producer_config" where
  "configured_key password addr = \<lparr> pc_index = 0, pc_key_file = KeyFileName, pc_password = password, pc_address = addr \<rparr>"

definition new_setup :: "crypto \<Rightarrow> path \<Rightarrow> setup_options \<Rightarrow> nat list option \<Rightarrow> time \<Rightarrow> machine \<Rightarrow> (producer_error option \<times> setup_result) \<times> machine" where
  "new_setup cr data opts random now m =
     (if exists_at m (KeyFilePath data) then
        (case unlockExisting cr (KeyFilePath data) opts m of
           (Inl e, m1) \<Rightarrow> ((Some e, no_result), m1)
         | (Inr (password, addr), m1) \<Rightarrow>
             wire_in cr data (configured_key password addr) (no_result\<lparr> sr_configured := True \<rparr>) now m1)
      else
        (case (if so_password opts = [] then GeneratePassword random else Inr (so_password opts)) of
           Inl e \<Rightarrow> ((Some e, no_result), m)
         | Inr password \<Rightarrow>
             (case CreateKey cr (KeyFilePath data) password m of
                (Inl e, m1) \<Rightarrow> ((Some e, no_result), m1)
              | (Inr addr, m1) \<Rightarrow>
                  wire_in cr data (configured_key password addr) (no_result\<lparr> sr_created := True, sr_password := password \<rparr>) now m1)))"

definition Setup :: "crypto \<Rightarrow> path \<Rightarrow> setup_options \<Rightarrow> nat list option \<Rightarrow> time \<Rightarrow> machine \<Rightarrow> (producer_error option \<times> setup_result) \<times> machine" where
  "Setup cr data opts random now m =
     (case ReadConfig cr (ConfigPath data) m of
        (Inl e, m1) \<Rightarrow> ((Some e, no_result), m1)
      | (Inr existing, m1) \<Rightarrow>
          (case existing of
             Some c \<Rightarrow>
               if pc_address c \<noteq> [] \<and> exists_at m1 (KeyFilePath data) \<and> pc_key_file c = KeyFileName then
                 (case (case so_keep opts of None \<Rightarrow> Some True | Some ask \<Rightarrow> ask (pc_address c)) of
                    None \<Rightarrow> ((Some PromptFailed, no_result), m1)
                  | Some True \<Rightarrow> ((None, no_result\<lparr> sr_address := pc_address c \<rparr>), m1)
                  | Some False \<Rightarrow> new_setup cr data opts random now m1)
               else new_setup cr data opts random now m1
           | None \<Rightarrow> new_setup cr data opts random now m1))"

definition NextSteps :: "string \<Rightarrow> string" where
  "NextSteps address = ''Set '' @ address @ '' as the producer address of your Pillar (Syrius or znn-cli).'' @ nl @
     ''One producer address serves one Pillar. Back up wallet/producer and its password: without them the node cannot produce.''"

section \<open>The key is never written over\<close>

lemma readRaw_tree: "readRaw cr p m = (r, m') \<Longrightarrow> host_same m m' \<and> mc_tree m' = mc_tree m"
  by (auto simp: readRaw_def dest: ReadFile_same split: prod.splits option.splits if_splits)

lemma ReadConfig_tree: "ReadConfig cr p m = (r, m') \<Longrightarrow> host_same m m' \<and> mc_tree m' = mc_tree m"
  by (auto simp: ReadConfig_def dest: readRaw_tree split: prod.splits sum.splits)

lemma Verify_key_tree: "Verify_key cr p pw m = (r, m') \<Longrightarrow> host_same m m' \<and> mc_tree m' = mc_tree m"
  by (auto simp: Verify_key_def dest: ReadFile_same split: prod.splits option.splits)

lemma Verify_key_got:
  assumes "Verify_key cr p pw m = (Inr a, m')"
  shows "\<exists>d mode. mc_tree m p = Some (Doc d mode) \<and> cr_open cr d pw = KeyOpens a"
proof -
  obtain d m1 where r: "ReadFile p m = (d, m1)" by (cases "ReadFile p m")
  with assms obtain d' where d: "d = Some d'" by (cases d) (auto simp: Verify_key_def)
  with assms r have "cr_open cr d' pw = KeyOpens a" by (auto simp: Verify_key_def split: key_open.splits)
  with ReadFile_got[OF r[unfolded d]] show ?thesis by blast
qed

lemma ask_passwords_spec:
  "ask_passwords cr p ask ns m = (r, m') \<Longrightarrow> mc_tree m' = mc_tree m \<and>
     (\<forall>pw a. r = Inr (pw, a) \<longrightarrow> (\<exists>d mode. mc_tree m p = Some (Doc d mode) \<and> cr_open cr d pw = KeyOpens a))"
proof (induction ns arbitrary: m)
  case (Cons n ns)
  show ?case
  proof (cases "ask n")
    case None
    with Cons.prems show ?thesis by auto
  next
    case (Some pw)
    obtain v m1 where v: "Verify_key cr p (trim_space pw) m = (v, m1)" by (cases "Verify_key cr p (trim_space pw) m")
    have t: "mc_tree m1 = mc_tree m" using Verify_key_tree[OF v] by blast
    show ?thesis
    proof (cases v)
      case (Inr a)
      with Cons.prems Some v t Verify_key_got[OF v[unfolded Inr]] show ?thesis by auto
    next
      case (Inl e)
      show ?thesis
      proof (cases "e = WrongPassword")
        case True
        with Cons.prems Some v Inl have "ask_passwords cr p ask ns m1 = (r, m')" by simp
        from Cons.IH[OF this] t show ?thesis by simp
      next
        case False
        with Cons.prems Some v Inl t show ?thesis by auto
      qed
    qed
  qed
qed auto

lemma unlockExisting_spec:
  assumes "unlockExisting cr p opts m = (r, m')"
  shows "mc_tree m' = mc_tree m" "r = Inr (pw, a) \<Longrightarrow> \<exists>d mode. mc_tree m p = Some (Doc d mode) \<and> cr_open cr d pw = KeyOpens a"
proof -
  have "mc_tree m' = mc_tree m \<and> (\<forall>pw a. r = Inr (pw, a) \<longrightarrow> (\<exists>d mode. mc_tree m p = Some (Doc d mode) \<and> cr_open cr d pw = KeyOpens a))"
  proof (cases "so_password opts = []")
    case True
    show ?thesis
    proof (cases "so_ask opts")
      case None
      with assms True show ?thesis by (auto simp: unlockExisting_def)
    next
      case (Some ask)
      have "ask_passwords cr p ask [1, 2, 3] m = (r, m')"
        using assms by (simp add: unlockExisting_def True Some del: ask_passwords.simps)
      then show ?thesis by (rule ask_passwords_spec)
    qed
  next
    case False
    obtain v m1 where v: "Verify_key cr p (so_password opts) m = (v, m1)" by (cases "Verify_key cr p (so_password opts) m")
    have t: "mc_tree m1 = mc_tree m" using Verify_key_tree[OF v] by blast
    show ?thesis
    proof (cases v)
      case (Inr a)
      with assms False v t Verify_key_got[OF v[unfolded Inr]] show ?thesis by (auto simp: unlockExisting_def)
    qed (use assms False v t in \<open>auto simp: unlockExisting_def\<close>)
  qed
  then show "mc_tree m' = mc_tree m" "r = Inr (pw, a) \<Longrightarrow> \<exists>d mode. mc_tree m p = Some (Doc d mode) \<and> cr_open cr d pw = KeyOpens a"
    by blast+
qed


lemma write_config_file_tree:
  assumes "write_config_file p d bk m = (r, m')" "\<not> prefix p x" "\<not> prefix (beside p ''.tmp'') x"
  shows "mc_tree m' x = mc_tree m x"
proof -
  let ?t = "beside p ''.tmp''"
  obtain ok m1 where 1: "WriteOver ?t 384 (d @ [CHR 0x0A]) m = (ok, m1)" by (cases "WriteOver ?t 384 (d @ [CHR 0x0A]) m")
  obtain ok2 m2 where 2: "Rename ?t p m1 = (ok2, m2)" by (cases "Rename ?t p m1")
  have ne: "x \<noteq> ?t" using assms(3) by auto
  have "mc_tree m1 x = mc_tree m x" by (rule WriteOver_tree[OF 1 ne])
  moreover have "mc_tree m2 x = mc_tree m1 x" by (rule Rename_tree[OF 2 assms(3,2)])
  moreover have "mc_tree (snd (RemoveFile ?t m2)) x = mc_tree m2 x" by (rule RemoveFile_snd_tree[OF ne])
  ultimately show ?thesis using assms(1)[unfolded write_config_file_def 1 prod.case 2] by (auto split: if_splits)
qed

lemma WriteConfig_tree:
  assumes "WriteConfig cr p c now m = (r, m')" "\<not> prefix p x" "\<And>ext. \<not> prefix (beside p ext) x" "\<not> prefix x (up p)"
  shows "mc_tree m' x = mc_tree m x"
proof -
  obtain rr m1 where 1: "readRaw cr p m = (rr, m1)" by (cases "readRaw cr p m")
  have t1: "mc_tree m1 = mc_tree m" using readRaw_tree[OF 1] by blast
  obtain ok m2 where 2: "MkdirAll (up p) m1 = (ok, m2)" by (cases "MkdirAll (up p) m1")
  have t2: "mc_tree m2 x = mc_tree m x" using MkdirAll_tree[OF 2, of x] assms(4) t1 by auto
  obtain cur m3 where 3: "ReadFile p m2 = (cur, m3)" by (cases "ReadFile p m2")
  have t3: "mc_tree m3 x = mc_tree m x" using ReadFile_same[OF 3] t2 by simp
  let ?bk = "beside p (''.bak.'' @ show_int (unix_of now))"
  note run = assms(1)[unfolded WriteConfig_def 1 prod.case 2 3]
  have f: "mc_tree m' x = mc_tree ma x" if "write_config_file p d bk ma = (r, m')" for d bk ma
    by (rule write_config_file_tree[OF that assms(2,3)])
  show ?thesis
  proof (cases cur)
    case None
    with run t1 t2 t3 f show ?thesis by (auto split: sum.splits option.splits if_splits)
  next
    case (Some d)
    obtain ok4 m4 where 4: "WriteOver ?bk 384 d m3 = (ok4, m4)" by (cases "WriteOver ?bk 384 d m3")
    have "x \<noteq> ?bk" using assms(3)[of "''.bak.'' @ show_int (unix_of now)"] by auto
    from WriteOver_tree[OF 4 this] have t4: "mc_tree m4 x = mc_tree m x" using t3 by simp
    from run[unfolded Some option.case Let_def 4 prod.case] t1 t2 t3 t4 f show ?thesis by (auto split: sum.splits option.splits if_splits)
  qed
qed

lemma key_not_config:
  "\<not> prefix (ConfigPath data) (KeyFilePath data)" "\<not> prefix (beside (ConfigPath data) ext) (KeyFilePath data)"
  "\<not> prefix (KeyFilePath data) (up (ConfigPath data))"
  by (auto simp: ConfigPath_def KeyFilePath_def beside_def up_def dest: prefix_length_le)

lemma WriteConfig_key: "WriteConfig cr (ConfigPath data) c now m = (r, m') \<Longrightarrow> mc_tree m' (KeyFilePath data) = mc_tree m (KeyFilePath data)"
  by (erule WriteConfig_tree) (rule key_not_config)+

lemma IsActive_tree: "IsActive m = (b, m') \<Longrightarrow> mc_tree m' = mc_tree m"
  by (auto simp: IsActive_def dest: Status_frame split: prod.splits)

lemma RestartService_tree: "RestartService m = (e, m') \<Longrightarrow> mc_tree m' = mc_tree m"
  by (auto simp: RestartService_def dest!: StopService_frame StartService_frame split: prod.splits option.splits)

lemma wire_in_key:
  assumes "wire_in cr data pc res now m = ((e, res'), m')"
  shows "mc_tree m' (KeyFilePath data) = mc_tree m (KeyFilePath data)"
proof -
  obtain e1 bk m1 where 1: "WriteConfig cr (ConfigPath data) pc now m = ((e1, bk), m1)" by (metis prod.collapse)
  obtain a m2 where 2: "IsActive m1 = (a, m2)" by (cases "IsActive m1")
  obtain e3 m3 where 3: "RestartService m2 = (e3, m3)" by (cases "RestartService m2")
  have "mc_tree m' = mc_tree m1"
    using assms[unfolded wire_in_def 1 prod.case Let_def 2 3] IsActive_tree[OF 2] RestartService_tree[OF 3]
    by (auto split: option.splits if_splits)
  with WriteConfig_key[OF 1] show ?thesis by simp
qed

text \<open>A key file that is there is left as it is, whatever a setup does.\<close>

lemma new_setup_key:
  assumes "new_setup cr data opts random now m = ((e, res), m')" "mc_tree m (KeyFilePath data) = Some i"
  shows "mc_tree m' (KeyFilePath data) = Some i"
proof -
  have ex: "exists_at m (KeyFilePath data)" using assms(2) by (simp add: exists_at_def)
  obtain u m1 where u: "unlockExisting cr (KeyFilePath data) opts m = (u, m1)" by (cases "unlockExisting cr (KeyFilePath data) opts m")
  have t: "mc_tree m1 = mc_tree m" by (rule unlockExisting_spec(1)[OF u])
  from assms(1)[unfolded new_setup_def u prod.case] ex t assms(2) wire_in_key show ?thesis
    by (fastforce split: sum.splits prod.splits)
qed

lemma Setup_cases:
  assumes "Setup cr data opts random now m = ((e, res), m')"
  obtains (kept) "mc_tree m' = mc_tree m" "sr_created res = False" "sr_configured res = False"
  | (made) m1 where "mc_tree m1 = mc_tree m" "new_setup cr data opts random now m1 = ((e, res), m')"
proof -
  obtain r m1 where r: "ReadConfig cr (ConfigPath data) m = (r, m1)" by (cases "ReadConfig cr (ConfigPath data) m")
  have t: "mc_tree m1 = mc_tree m" using ReadConfig_tree[OF r] by blast
  from assms[unfolded Setup_def r prod.case] t kept made show thesis
    by (auto simp: no_result_def split: sum.splits option.splits if_splits bool.splits)
qed

lemma Setup_key:
  assumes "Setup cr data opts random now m = ((e, res), m')" "mc_tree m (KeyFilePath data) = Some i"
  shows "mc_tree m' (KeyFilePath data) = Some i"
  using assms(1)
proof (cases rule: Setup_cases)
  case kept
  with assms(2) show ?thesis by simp
next
  case (made m1)
  with new_setup_key[OF made(2)] assms(2) show ?thesis by simp
qed

section \<open>What is configured fits\<close>

lemma write_config_file_got:
  assumes "write_config_file (u @ [n]) d bk m = ((None, bk'), m')"
  shows "\<exists>mode. mc_tree m' (u @ [n]) = Some (Doc (d @ [CHR 0x0A]) mode)"
proof -
  let ?t = "u @ [n @ ''.tmp'']"
  obtain ok m1 where 1: "WriteOver ?t 384 (d @ [CHR 0x0A]) m = (ok, m1)" by (cases "WriteOver ?t 384 (d @ [CHR 0x0A]) m")
  obtain ok2 m2 where 2: "Rename ?t (u @ [n]) m1 = (ok2, m2)" by (cases "Rename ?t (u @ [n]) m1")
  from assms[unfolded write_config_file_def beside_snoc 1 prod.case 2] have ok: ok ok2 "m' = m2" by (auto split: if_splits)
  have "WriteOver ?t 384 (d @ [CHR 0x0A]) m = (True, m1)" using 1 ok by simp
  from WriteOver_ok[OF this] obtain mode where "mc_tree m1 ?t = Some (Doc (d @ [CHR 0x0A]) mode)" by blast
  moreover have r: "Rename ?t (u @ [n]) m1 = (True, m2)" using 2 ok by simp
  have "\<not> prefix (u @ [n]) ?t" by simp
  from Rename_ok(1)[OF r this, of "[]"] have "mc_tree m2 (u @ [n]) = mc_tree m1 ?t" by simp
  ultimately show ?thesis using ok(3) by simp
qed

lemma WriteConfig_got:
  assumes "WriteConfig cr (ConfigPath data) c now m = ((None, bk), m')"
  shows "\<exists>raw s d mode. cr_enc_section cr c = Some s \<and> cr_enc_raw cr (raw(''Producer'' \<mapsto> s)) = Some d \<and>
     mc_tree m' (ConfigPath data) = Some (Doc (d @ [CHR 0x0A]) mode)"
proof -
  let ?p = "ConfigPath data"
  obtain rr m1 where 1: "readRaw cr ?p m = (rr, m1)" by (cases "readRaw cr ?p m")
  note run1 = assms[unfolded WriteConfig_def 1 prod.case]
  obtain raw where raw: "rr = Inr raw" using run1 by (cases rr) auto
  note run2 = run1[unfolded raw sum.case]
  obtain s where s: "cr_enc_section cr c = Some s" using run2 by (cases "cr_enc_section cr c") auto
  note run3 = run2[unfolded s option.case]
  obtain d where d: "cr_enc_raw cr (raw(''Producer'' \<mapsto> s)) = Some d" using run3 by (cases "cr_enc_raw cr (raw(''Producer'' \<mapsto> s))") auto
  note run4 = run3[unfolded d option.case]
  have "\<exists>bk' ma. write_config_file ?p d bk' ma = ((None, bk), m')"
    using run4 by (auto simp: Let_def split: prod.splits if_splits option.splits)
  then obtain bk' ma where w: "write_config_file ?p d bk' ma = ((None, bk), m')" by blast
  from write_config_file_got[OF w[unfolded ConfigPath_def]] s d show ?thesis unfolding ConfigPath_def by blast
qed

lemma CreateKey_got:
  assumes "CreateKey cr p pw m = (Inr a, m')"
  shows "\<exists>d mode. mc_tree m' p = Some (Doc d mode) \<and> cr_open cr d pw = KeyOpens a"
proof -
  obtain ma where v: "Verify_key cr p pw ma = (Inr a, m')"
    using assms by (auto simp: CreateKey_def split: if_splits prod.splits option.splits)
  have "mc_tree m' = mc_tree ma" using Verify_key_tree[OF v] by blast
  with Verify_key_got[OF v] show ?thesis by simp
qed

lemma wire_in_got:
  assumes "wire_in cr data pc res0 now m = ((None, res), m')"
  shows "\<exists>raw s d mode. cr_enc_section cr pc = Some s \<and> cr_enc_raw cr (raw(''Producer'' \<mapsto> s)) = Some d \<and>
     mc_tree m' (ConfigPath data) = Some (Doc (d @ [CHR 0x0A]) mode)" "sr_address res = pc_address pc"
proof -
  obtain e1 bk m1 where 1: "WriteConfig cr (ConfigPath data) pc now m = ((e1, bk), m1)" by (metis prod.collapse)
  obtain a m2 where 2: "IsActive m1 = (a, m2)" by (cases "IsActive m1")
  obtain e3 m3 where 3: "RestartService m2 = (e3, m3)" by (cases "RestartService m2")
  note run = assms[unfolded wire_in_def 1 prod.case Let_def 2 3]
  have e: "e1 = None" using run by (cases e1) auto
  have "mc_tree m' = mc_tree m1" using run e IsActive_tree[OF 2] RestartService_tree[OF 3] by (auto split: option.splits if_splits)
  with WriteConfig_got[OF 1[unfolded e]] show "\<exists>raw s d mode. cr_enc_section cr pc = Some s \<and> cr_enc_raw cr (raw(''Producer'' \<mapsto> s)) = Some d \<and>
     mc_tree m' (ConfigPath data) = Some (Doc (d @ [CHR 0x0A]) mode)" by simp
  show "sr_address res = pc_address pc" using run e by (auto split: option.splits if_splits)
qed

text \<open>After a setup that made or wired in a key, the key file opens with the password that was written to the configuration,
  and holds the address written there and reported.\<close>

lemma wire_in_flags:
  "wire_in cr data pc res0 now m = ((e, res), m') \<Longrightarrow> sr_created res = sr_created res0 \<and> sr_configured res = sr_configured res0"
  by (auto simp: wire_in_def Let_def split: prod.splits option.splits if_splits)

lemma new_setup_fits:
  assumes "new_setup cr data opts random now m = ((None, res), m')"
  shows "\<exists>pw a raw s d mode k kmode. cr_enc_section cr (configured_key pw a) = Some s \<and> cr_enc_raw cr (raw(''Producer'' \<mapsto> s)) = Some d \<and>
     mc_tree m' (ConfigPath data) = Some (Doc (d @ [CHR 0x0A]) mode) \<and>
     mc_tree m' (KeyFilePath data) = Some (Doc k kmode) \<and> cr_open cr k pw = KeyOpens a \<and> sr_address res = a"
proof -
  have "\<exists>pw a res0 m1. (\<exists>k kmode. mc_tree m1 (KeyFilePath data) = Some (Doc k kmode) \<and> cr_open cr k pw = KeyOpens a) \<and>
     wire_in cr data (configured_key pw a) res0 now m1 = ((None, res), m')"
  proof (cases "exists_at m (KeyFilePath data)")
    case True
    obtain u m1 where u: "unlockExisting cr (KeyFilePath data) opts m = (u, m1)" by (cases "unlockExisting cr (KeyFilePath data) opts m")
    note run = assms[unfolded new_setup_def u prod.case if_P[OF True]]
    obtain pw a where pa: "u = Inr (pw, a)" using run by (cases u) auto
    from unlockExisting_spec(2)[OF u pa] unlockExisting_spec(1)[OF u]
    have "\<exists>k kmode. mc_tree m1 (KeyFilePath data) = Some (Doc k kmode) \<and> cr_open cr k pw = KeyOpens a" by simp
    moreover have "wire_in cr data (configured_key pw a) (no_result\<lparr> sr_configured := True \<rparr>) now m1 = ((None, res), m')"
      using run pa by simp
    ultimately show ?thesis by blast
  next
    case False
    note run = assms[unfolded new_setup_def if_not_P[OF False]]
    obtain pw where pw: "(if so_password opts = [] then GeneratePassword random else Inr (so_password opts)) = Inr pw"
      using run by (cases "if so_password opts = [] then GeneratePassword random else Inr (so_password opts)") auto
    obtain r m1 where c: "CreateKey cr (KeyFilePath data) pw m = (r, m1)" by (cases "CreateKey cr (KeyFilePath data) pw m")
    note run2 = run[unfolded pw sum.case c prod.case]
    obtain a where a: "r = Inr a" using run2 by (cases r) auto
    have "wire_in cr data (configured_key pw a) (no_result\<lparr> sr_created := True, sr_password := pw \<rparr>) now m1 = ((None, res), m')"
      using run2 a by simp
    with CreateKey_got[OF c[unfolded a]] show ?thesis by blast
  qed
  then obtain pw a res0 m1 k kmode where k: "mc_tree m1 (KeyFilePath data) = Some (Doc k kmode)" "cr_open cr k pw = KeyOpens a"
    and w: "wire_in cr data (configured_key pw a) res0 now m1 = ((None, res), m')" by blast
  have "mc_tree m' (KeyFilePath data) = Some (Doc k kmode)" using wire_in_key[OF w] k(1) by simp
  moreover have "sr_address res = a" using wire_in_got(2)[OF w] by (simp add: configured_key_def)
  ultimately show ?thesis using wire_in_got(1)[OF w] k(2) by blast
qed

text \<open>A setup that made a key and then could not write the configuration leaves a key file that only the password in its
  result opens.\<close>

lemma failed_setup_keeps_key:
  assumes "new_setup cr data opts random now m = ((Some e, res), m')" "sr_created res"
  shows "\<exists>k kmode. mc_tree m' (KeyFilePath data) = Some (Doc k kmode) \<and> cr_open cr k (sr_password res) = KeyOpens (sr_address res)"
proof (cases "exists_at m (KeyFilePath data)")
  case True
  obtain u m1 where u: "unlockExisting cr (KeyFilePath data) opts m = (u, m1)" by (cases "unlockExisting cr (KeyFilePath data) opts m")
  note run = assms(1)[unfolded new_setup_def u prod.case if_P[OF True]]
  then have "\<not> sr_created res" by (cases u) (auto simp: no_result_def dest!: wire_in_flags)
  with assms(2) show ?thesis by blast
next
  case False
  note run = assms(1)[unfolded new_setup_def if_not_P[OF False]]
  obtain pw where pw: "(if so_password opts = [] then GeneratePassword random else Inr (so_password opts)) = Inr pw"
    using run assms(2) by (cases "if so_password opts = [] then GeneratePassword random else Inr (so_password opts)") (auto simp: no_result_def)
  obtain r m1 where c: "CreateKey cr (KeyFilePath data) pw m = (r, m1)" by (cases "CreateKey cr (KeyFilePath data) pw m")
  note run2 = run[unfolded pw sum.case c prod.case]
  obtain a where a: "r = Inr a" using run2 assms(2) by (cases r) (auto simp: no_result_def)
  have w: "wire_in cr data (configured_key pw a) (no_result\<lparr> sr_created := True, sr_password := pw \<rparr>) now m1 = ((Some e, res), m')"
    using run2 a by simp
  then have "sr_password res = pw" "sr_address res = a"
    by (auto simp: wire_in_def configured_key_def Let_def split: prod.splits option.splits if_splits)
  with CreateKey_got[OF c[unfolded a]] wire_in_key[OF w] show ?thesis by simp
qed

end
