(* ===== verification/Wallet_Backup.thy ===== *)
theory Wallet_Backup
  imports Producer
begin

text \<open>
  Backups of the wallet, \<^verbatim>\<open>internal/walletbackup/walletbackup.go\<close>: making, listing and opening them, what an archive may hold,
  and the restore that stages the files, checks the producer key against the archived configuration, moves the live files
  aside and puts them back when it fails.  The age library, the archive formats and SHA-256 are parameters; the copy of an
  archived configuration to a temporary file, made to read it, is left out.
\<close>

section \<open>Archives\<close>

definition EncryptedSuffix :: string where "EncryptedSuffix = ''.tar.gz.age''"
definition PlainSuffix :: string where "PlainSuffix = ''.tar.gz''"
definition MaxArchiveBytes :: int where "MaxArchiveBytes = 16777216"

definition WalletDir :: "'c data_config_scheme \<Rightarrow> path" where
  "WalletDir cfg = dc_backup cfg @ [''wallet'']"

text \<open>What the age library answers to a passphrase: another recipient, an error, or the plain bytes and whether they could
  be read to the end.\<close>

datatype age_answer = NoMatch | AgeError | AgePlain bytes bool

record codec =
  co_crypto :: crypto
  co_pack :: "(string \<times> bytes \<times> time) list \<Rightarrow> bytes option"
  co_untar :: "bytes \<Rightarrow> tar_stream"
  co_seal :: "string \<Rightarrow> bytes \<Rightarrow> bytes option"
  co_unseal :: "string \<Rightarrow> bytes \<Rightarrow> age_answer"
  co_sha :: "bytes \<Rightarrow> string"

datatype wallet_error =
    NoPassphrase | CollectFailed | NothingToBackUp | PackFailed | OutputDirFailed | SealFailed
  | ArchiveNotWritten | DigestFailed | SidecarNotWritten
  | ListFailed
  | BackupMissing | BackupTooLarge | BackupUnreadable | SidecarMismatch | NeedsPassphrase | WrongPassphrase | UnsealFailed
  | WalletNotGzip | WalletReadError | EntryNotRegular string | EntryOutside string | OverBudget | EntryUnreadable | WalletEmpty
  | ArchivedConfigBad producer_error
  | DataDirFailed | StagingFailed | StageFailed | KeyFileMissing string | KeyDoesNotOpen producer_error | KeyAddressDiffers string string
  | SafetyDirFailed | AsideFailed string | InstallDirFailed | InstallWalletFailed string | RestartFailed_w restart_error

definition rel_path :: "string \<Rightarrow> path" where "rel_path rel = split_on (CHR ''/'') rel"

section \<open>Making a backup\<close>

definition collect :: "view \<Rightarrow> path \<Rightarrow> machine \<Rightarrow> string list option \<times> machine" where
  "collect vw data m =
     (case (if \<not> exists_at m (data @ [''wallet'']) then (Some [], m) else ReadDir vw (data @ [''wallet'']) m) of
        (None, m1) \<Rightarrow> (None, m1)
      | (Some names, m1) \<Rightarrow>
          let found = map (\<lambda>n. ''wallet/'' @ n) (filter (\<lambda>n. is_doc m1 (data @ [''wallet'', n])) names);
              conf = (if is_doc m1 (data @ [''config.json'']) then [''config.json''] else []) in
          (Some (sort (found @ conf)), m1))"

fun read_each :: "view \<Rightarrow> path \<Rightarrow> string list \<Rightarrow> machine \<Rightarrow> (string \<times> bytes \<times> time) list option \<times> machine" where
  "read_each vw data [] m = (Some [], m)"
| "read_each vw data (rel # rels) m =
     (case ReadFile (data @ rel_path rel) m of
        (None, m1) \<Rightarrow> (None, m1)
      | (Some d, m1) \<Rightarrow>
          (case read_each vw data rels m1 of
             (None, m2) \<Rightarrow> (None, m2)
           | (Some es, m2) \<Rightarrow> (Some ((rel, d, vw_mtime vw m (data @ rel_path rel)) # es), m2)))"

definition pack_wallet :: "codec \<Rightarrow> view \<Rightarrow> path \<Rightarrow> string list \<Rightarrow> machine \<Rightarrow> bytes option \<times> machine" where
  "pack_wallet co vw data files m = (case read_each vw data files m of (es, m1) \<Rightarrow> (Option.bind es (co_pack co), m1))"

definition writeAtomic :: "path \<Rightarrow> bytes \<Rightarrow> machine \<Rightarrow> bool \<times> machine" where
  "writeAtomic dest data m =
     (case WriteOver (beside dest ''.partial'') 384 data m of (ok, m1) \<Rightarrow>
      if \<not> ok then (False, m1)
      else case Rename (beside dest ''.partial'') dest m1 of (ok2, m2) \<Rightarrow>
        if \<not> ok2 then (False, snd (RemoveFile (beside dest ''.partial'') m2)) else (True, m2))"

record wallet_options =
  wo_output :: "path option"
  wo_passphrase :: string
  wo_plain :: bool

definition wallet_name :: "string \<Rightarrow> duration \<Rightarrow> time \<Rightarrow> bool \<Rightarrow> string" where
  "wallet_name service zone now plain =
     (case date_of (now + zone) of (y, mo, d) \<Rightarrow> case clock_of (now + zone) of (h, mi, s) \<Rightarrow>
      service @ ''_wallet_'' @ show_pad 2 mo @ ''-'' @ show_pad 2 d @ ''-'' @ show_pad 2 (y mod 100) @ ''_'' @
      show_pad 2 h @ show_pad 2 mi @ show_pad 2 s @ (if plain then PlainSuffix else EncryptedSuffix))"

text \<open>The bytes that go to the file.\<close>

definition wallet_bytes :: "codec \<Rightarrow> view \<Rightarrow> path \<Rightarrow> wallet_options \<Rightarrow> path \<Rightarrow> machine \<Rightarrow> (wallet_error, string list \<times> bytes) result \<times> machine" where
  "wallet_bytes co vw data opts out m =
     (case collect vw data m of
        (None, m1) \<Rightarrow> (Inl CollectFailed, m1)
      | (Some files, m1) \<Rightarrow>
          if files = [] then (Inl NothingToBackUp, m1)
          else case pack_wallet co vw data files m1 of
            (None, m2) \<Rightarrow> (Inl PackFailed, m2)
          | (Some archive, m2) \<Rightarrow>
              (case MkdirAll out m2 of (ok3, m3) \<Rightarrow>
               if \<not> ok3 then (Inl OutputDirFailed, m3)
               else case (if wo_plain opts then Some archive else co_seal co (wo_passphrase opts) archive) of
                 None \<Rightarrow> (Inl SealFailed, m3)
               | Some b \<Rightarrow> (Inr (files, b), m3)))"

definition Create_wallet ::
  "codec \<Rightarrow> view \<Rightarrow> backup_config \<Rightarrow> wallet_options \<Rightarrow> duration \<Rightarrow> time \<Rightarrow> machine \<Rightarrow> (wallet_error, path \<times> string list) result \<times> machine" where
  "Create_wallet co vw cfg opts zone now m =
     (if \<not> wo_plain opts \<and> wo_passphrase opts = [] then (Inl NoPassphrase, m)
      else
        let out = (case wo_output opts of None \<Rightarrow> WalletDir cfg | Some p \<Rightarrow> p);
            name = wallet_name (bc_service cfg) zone now (wo_plain opts); dest = out @ [name] in
        case wallet_bytes co vw (dc_data cfg) opts out m of
          (Inl e, m1) \<Rightarrow> (Inl e, m1)
        | (Inr (files, b), m1) \<Rightarrow>
            (case writeAtomic dest b m1 of (ok2, m2) \<Rightarrow>
             if \<not> ok2 then (Inl ArchiveNotWritten, m2)
             else case SHA256File (co_sha co) dest m2 of
               (None, m3) \<Rightarrow> (Inl DigestFailed, m3)
             | (Some digest, m3) \<Rightarrow>
                 (case WriteOver (beside dest ''.sha256'') 384 (digest @ ''  '' @ name @ [CHR 0x0A]) m3 of (ok4, m4) \<Rightarrow>
                  if \<not> ok4 then (Inl SidecarNotWritten, m4) else (Inr (dest, files), m4))))"

section \<open>The backups there are\<close>

record wallet_entry =
  we_path :: path
  we_time :: time
  we_encrypted :: bool

text \<open>Newest first; those of the same time in the order of the directory.\<close>

definition List_wallets :: "view \<Rightarrow> 'c data_config_scheme \<Rightarrow> machine \<Rightarrow> wallet_entry list option \<times> machine" where
  "List_wallets vw cfg m =
     (if \<not> exists_at m (WalletDir cfg) then (Some [], m)
      else case ReadDir vw (WalletDir cfg) m of
        (None, m1) \<Rightarrow> (None, m1)
      | (Some names, m1) \<Rightarrow>
          let arch = filter (\<lambda>n. has_suffix n EncryptedSuffix \<or> has_suffix n PlainSuffix) names;
              done = filter (\<lambda>n. exists_at m1 (WalletDir cfg @ [n @ ''.sha256''])) arch in
          (Some (sort_key (\<lambda>e. - we_time e)
             (map (\<lambda>n. \<lparr> we_path = WalletDir cfg @ [n], we_time = vw_mtime vw m1 (WalletDir cfg @ [n]), we_encrypted = has_suffix n EncryptedSuffix \<rparr>) done)), m1))"

record wallet_status =
  wa_configured :: bool
  wa_key_time :: time
  wa_newest :: time

definition Check_wallet :: "crypto \<Rightarrow> view \<Rightarrow> 'c data_config_scheme \<Rightarrow> machine \<Rightarrow> wallet_status \<times> machine" where
  "Check_wallet cr vw cfg m =
     (case ReadConfig cr (ConfigPath (dc_data cfg)) m of (pc, m1) \<Rightarrow>
      case pc of
        Inr (Some c) \<Rightarrow>
          let key = KeyFilePath (dc_data cfg); kt = (if exists_at m1 key then vw_mtime vw m1 key else 0) in
          (case List_wallets vw cfg m1 of (es, m2) \<Rightarrow>
             (\<lparr> wa_configured = True, wa_key_time = kt, wa_newest = (case es of Some (e # _) \<Rightarrow> we_time e | _ \<Rightarrow> 0) \<rparr>, m2))
      | _ \<Rightarrow> (\<lparr> wa_configured = False, wa_key_time = 0, wa_newest = 0 \<rparr>, m1))"

definition Missing :: "wallet_status \<Rightarrow> bool" where
  "Missing s \<longleftrightarrow> wa_configured s \<and> (is_zero (wa_newest s) \<or> Go_Time.before (wa_newest s) (wa_key_time s))"

section \<open>Opening one\<close>

definition decrypt :: "codec \<Rightarrow> bytes \<Rightarrow> string \<Rightarrow> (wallet_error, bytes) result" where
  "decrypt co data passphrase =
     (case co_unseal co passphrase data of
        NoMatch \<Rightarrow> Inl WrongPassphrase
      | AgeError \<Rightarrow> Inl UnsealFailed
      | AgePlain b whole \<Rightarrow>
          if MaxArchiveBytes < int (length b) then Inl BackupTooLarge else if \<not> whole then Inl UnsealFailed else Inr b)"

definition size_at :: "machine \<Rightarrow> path \<Rightarrow> int" where
  "size_at m p = (case mc_tree m p of Some (Doc d _) \<Rightarrow> int (length d) | _ \<Rightarrow> 0)"

definition opened :: "codec \<Rightarrow> path \<Rightarrow> string \<Rightarrow> bytes \<Rightarrow> (wallet_error, bytes) result" where
  "opened co p passphrase data =
     (if has_suffix (List.last p) ''.age'' then if passphrase = [] then Inl NeedsPassphrase else decrypt co data passphrase else Inr data)"

definition Open_wallet :: "codec \<Rightarrow> path \<Rightarrow> string \<Rightarrow> machine \<Rightarrow> (wallet_error, bytes) result \<times> machine" where
  "Open_wallet co p passphrase m =
     (if \<not> exists_at m p then (Inl BackupMissing, m)
      else if MaxArchiveBytes < size_at m p then (Inl BackupTooLarge, m)
      else case ReadFile p m of
        (None, m1) \<Rightarrow> (Inl BackupUnreadable, m1)
      | (Some data, m1) \<Rightarrow>
          (case ReadFile (beside p ''.sha256'') m1 of
             (None, m2) \<Rightarrow> (opened co p passphrase data, m2)
           | (Some sidecar, m2) \<Rightarrow>
               (case SHA256File (co_sha co) p m2 of
                  (None, m3) \<Rightarrow> (Inl BackupUnreadable, m3)
                | (Some got, m3) \<Rightarrow>
                    (case str_fields sidecar of
                       [] \<Rightarrow> (Inl SidecarMismatch, m3)
                     | want # _ \<Rightarrow> if \<not> equal_fold want got then (Inl SidecarMismatch, m3) else (opened co p passphrase data, m3)))))"

section \<open>Looking inside\<close>

text \<open>\<^verbatim>\<open>wallet/<name>\<close> and \<^verbatim>\<open>config.json\<close>, nothing else.\<close>

definition wallet_entryPath :: "string \<Rightarrow> (wallet_error, string) result" where
  "wallet_entryPath name =
     (let clean = trim_prefix (clean_path (''/'' @ name)) ''/'' in
      if clean = ''config.json'' then Inr clean
      else
        let base = last_elem clean; dir = take (length clean - length base) clean in
        if dir = ''wallet/'' \<and> base \<noteq> [] \<and> base \<noteq> ''.'' \<and> base \<noteq> ''..'' then Inr clean else Inl (EntryOutside name))"

text \<open>The data of an entry within what is left: the bytes that are written, the error, and what is left then.\<close>

definition budget_copy :: "int \<Rightarrow> tar_entry \<Rightarrow> bytes \<times> wallet_error option \<times> int" where
  "budget_copy left e =
     (if left < int (length (te_data e)) then (take (nat (left + 1)) (te_data e), Some OverBudget, left)
      else if \<not> te_whole e then (te_data e, Some EntryUnreadable, left)
      else (te_data e, None, left - int (length (te_data e))))"

fun inspect_wallet :: "tar_entry list \<Rightarrow> bool \<Rightarrow> int \<Rightarrow> string list \<Rightarrow> (string \<rightharpoonup> bytes) \<Rightarrow> (wallet_error, string list \<times> (string \<rightharpoonup> bytes)) result" where
  "inspect_wallet [] ends left files entries = (if ends then Inr (files, entries) else Inl WalletReadError)"
| "inspect_wallet (e # es) ends left files entries =
     (if te_type e \<noteq> RegEntry then Inl (EntryNotRegular (te_name e))
      else case wallet_entryPath (te_name e) of
        Inl err \<Rightarrow> Inl err
      | Inr rel \<Rightarrow>
          (case budget_copy left e of
             (d, Some err, l) \<Rightarrow> Inl err
           | (d, None, l) \<Rightarrow> inspect_wallet es ends l (files @ [rel]) (entries(rel \<mapsto> d))))"

record wallet_contents =
  wc_files :: "string list"
  wc_producer :: "producer_config option"
  wc_key_file :: string

definition config_of_bytes :: "crypto \<Rightarrow> bytes \<Rightarrow> (producer_error, producer_config option) result" where
  "config_of_bytes cr d =
     (if trim_space d = [] then section_of cr Map.empty
      else case cr_dec_raw cr d of None \<Rightarrow> Inl ConfigNotObject | Some raw \<Rightarrow> section_of cr raw)"

definition Inspect_wallet :: "codec \<Rightarrow> bytes \<Rightarrow> (wallet_error, wallet_contents) result" where
  "Inspect_wallet co archive =
     (case co_untar co archive of
        NotGzip \<Rightarrow> Inl WalletNotGzip
      | Stream es ends \<Rightarrow>
          (case inspect_wallet es ends MaxArchiveBytes [] Map.empty of
             Inl err \<Rightarrow> Inl err
           | Inr (files, entries) \<Rightarrow>
               if files = [] then Inl WalletEmpty
               else case entries ''config.json'' of
                 None \<Rightarrow> Inr \<lparr> wc_files = sort files, wc_producer = None, wc_key_file = [] \<rparr>
               | Some d \<Rightarrow>
                   (case config_of_bytes (co_crypto co) d of
                      Inl e \<Rightarrow> Inl (ArchivedConfigBad e)
                    | Inr pc \<Rightarrow>
                        let key = (case pc of None \<Rightarrow> []
                                   | Some c \<Rightarrow> if pc_key_file c \<noteq> [] \<and> entries (''wallet/'' @ path_base (pc_key_file c)) \<noteq> None
                                              then ''wallet/'' @ path_base (pc_key_file c) else []) in
                        Inr \<lparr> wc_files = sort files, wc_producer = pc, wc_key_file = key \<rparr>)))"

section \<open>Restoring\<close>

fun stage_entries :: "path \<Rightarrow> tar_entry list \<Rightarrow> bool \<Rightarrow> int \<Rightarrow> machine \<Rightarrow> bool \<times> machine" where
  "stage_entries staging [] ends left m = (ends, m)"
| "stage_entries staging (e # es) ends left m =
     (case wallet_entryPath (te_name e) of
        Inl err \<Rightarrow> (False, m)
      | Inr rel \<Rightarrow>
          let target = staging @ rel_path rel in
          case MkdirAll (up target) m of (ok1, m1) \<Rightarrow>
            if \<not> ok1 then (False, m1)
            else case budget_copy left e of (d, err, l) \<Rightarrow>
              case WriteNew target 384 d m1 of (ok2, m2) \<Rightarrow>
                if \<not> ok2 \<or> err \<noteq> None then (False, m2) else stage_entries staging es ends l m2)"

text \<open>The archived configuration names a key that is in the archive, opens with the archived password and holds the
  archived address.\<close>

definition check_key :: "crypto \<Rightarrow> path \<Rightarrow> wallet_contents \<Rightarrow> machine \<Rightarrow> (wallet_error, string) result \<times> machine" where
  "check_key cr staging c m =
     (case wc_producer c of
        None \<Rightarrow> (Inr [], m)
      | Some pc \<Rightarrow>
          if wc_key_file c = [] then (Inl (KeyFileMissing (pc_key_file pc)), m)
          else case Verify_key cr (staging @ rel_path (wc_key_file c)) (pc_password pc) m of
            (Inl e, m1) \<Rightarrow> (Inl (KeyDoesNotOpen e), m1)
          | (Inr a, m1) \<Rightarrow> if \<not> equal_fold a (pc_address pc) then (Inl (KeyAddressDiffers a (pc_address pc)), m1) else (Inr a, m1))"

fun wallet_aside :: "path \<Rightarrow> path \<Rightarrow> string list \<Rightarrow> (string \<times> path) list \<Rightarrow> machine \<Rightarrow> wallet_error option \<times> (string \<times> path) list \<times> machine" where
  "wallet_aside data safety [] moved m = (None, moved, m)"
| "wallet_aside data safety (n # ns) moved m =
     (if \<not> exists_at m (data @ [n]) then wallet_aside data safety ns moved m
      else case Rename (data @ [n]) (safety @ [n]) m of (ok, m1) \<Rightarrow>
        if \<not> ok then (Some (AsideFailed n), moved, m1) else wallet_aside data safety ns (moved @ [(n, safety @ [n])]) m1)"

fun put_back :: "path \<Rightarrow> (string \<times> path) list \<Rightarrow> machine \<Rightarrow> string list \<times> machine" where
  "put_back data [] m = ([], m)"
| "put_back data ((f, src) # ms) m =
     (case Rename src (data @ [f]) (snd (RemoveAll (data @ [f]) m)) of (ok, m1) \<Rightarrow>
      case put_back data ms m1 of (bad, m2) \<Rightarrow> ((if ok then bad else f # bad), m2))"

fun wallet_install :: "path \<Rightarrow> path \<Rightarrow> string list \<Rightarrow> machine \<Rightarrow> wallet_error option \<times> machine" where
  "wallet_install staging data [] m = (None, m)"
| "wallet_install staging data (rel # rels) m =
     (case MkdirAll (up (data @ rel_path rel)) m of (ok1, m1) \<Rightarrow>
      if \<not> ok1 then (Some InstallDirFailed, m1)
      else case Rename (staging @ rel_path rel) (data @ rel_path rel) m1 of (ok2, m2) \<Rightarrow>
        if \<not> ok2 then (Some (InstallWalletFailed rel), m2) else wallet_install staging data rels m2)"

datatype wallet_result =
    WalletRefused wallet_error
  | WalletPutBack wallet_error
  | WalletNotPutBack wallet_error "string list"
  | WalletRestored string bool
  | WalletRestoredNotRestarted wallet_error

definition swap_wallet :: "path \<Rightarrow> path \<Rightarrow> path \<Rightarrow> string list \<Rightarrow> machine \<Rightarrow> wallet_result option \<times> machine" where
  "swap_wallet data safety staging files m =
     (case wallet_aside data safety [''wallet'', ''config.json''] [] m of (e, moved, m1) \<Rightarrow>
      case (if e = None then wallet_install staging data files m1 else (e, m1)) of
        (None, m2) \<Rightarrow> (None, m2)
      | (Some err, m2) \<Rightarrow>
          (case put_back data (rev moved) m2 of (bad, m3) \<Rightarrow>
             (Some (if bad = [] then WalletPutBack err else WalletNotPutBack err bad), m3)))"

definition SafetyDir :: "'c data_config_scheme \<Rightarrow> time \<Rightarrow> path" where
  "SafetyDir cfg now = RestoreDir cfg @ [''wallet-safety.'' @ show_int (unix_of now)]"

text \<open>From the staged files on.\<close>

definition restore_staged :: "crypto \<Rightarrow> 'c data_config_scheme \<Rightarrow> wallet_contents \<Rightarrow> bool \<Rightarrow> time \<Rightarrow> path \<Rightarrow> machine \<Rightarrow> wallet_result \<times> machine" where
  "restore_staged cr cfg c restartNode now staging m =
     (case IsActive m of (running, m1) \<Rightarrow>
      case check_key cr staging c m1 of
        (Inl e, m2) \<Rightarrow> (WalletRefused e, m2)
      | (Inr addr, m2) \<Rightarrow>
          (case MkdirAll (SafetyDir cfg now) m2 of (ok3, m3) \<Rightarrow>
           if \<not> ok3 then (WalletRefused SafetyDirFailed, m3)
           else case swap_wallet (dc_data cfg) (SafetyDir cfg now) staging (wc_files c) m3 of
             (Some r, m4) \<Rightarrow> (r, m4)
           | (None, m4) \<Rightarrow>
               if restartNode \<and> running then
                 (case RestartService m4 of
                    (Some e, m5) \<Rightarrow> (WalletRestoredNotRestarted (RestartFailed_w e), m5)
                  | (None, m5) \<Rightarrow> (WalletRestored addr True, m5))
               else (WalletRestored addr False, m4)))"

definition Restore_wallet :: "codec \<Rightarrow> 'c data_config_scheme \<Rightarrow> bytes \<Rightarrow> bool \<Rightarrow> time \<Rightarrow> string \<Rightarrow> machine \<Rightarrow> wallet_result \<times> machine" where
  "Restore_wallet co cfg archive restartNode now rnd m =
     (case Inspect_wallet co archive of
        Inl e \<Rightarrow> (WalletRefused e, m)
      | Inr c \<Rightarrow>
          (case MkdirAll (dc_data cfg) m of (ok1, m1) \<Rightarrow>
           if \<not> ok1 then (WalletRefused DataDirFailed, m1)
           else
             let staging = dc_data cfg @ [''.wallet-restore-'' @ rnd] in
             case MkdirNew staging m1 of (ok2, m2) \<Rightarrow>
               if \<not> ok2 then (WalletRefused StagingFailed, m2)
               else case (case co_untar co archive of NotGzip \<Rightarrow> (False, m2) | Stream es ends \<Rightarrow> stage_entries staging es ends MaxArchiveBytes m2) of (ok3, m3) \<Rightarrow>
                 case (if \<not> ok3 then (WalletRefused StageFailed, m3)
                       else restore_staged (co_crypto co) cfg c restartNode now staging m3) of (r, m4) \<Rightarrow>
                   (r, snd (RemoveAll staging m4))))"

section \<open>What an archive may hold\<close>

lemma last_elem_app: "\<exists>d. s = d @ last_elem s"
  unfolding last_elem_def by (metis rev_append rev_rev_ident takeWhile_dropWhile_id)

lemma last_elem_no_slash: "CHR ''/'' \<notin> set (last_elem s)"
  unfolding last_elem_def by (auto dest: set_takeWhileD)

lemma wallet_entryPath_cases:
  assumes "wallet_entryPath name = Inr rel"
  shows "rel = ''config.json'' \<or> (\<exists>b. safe_elem b \<and> rel = ''wallet/'' @ b)"
proof -
  let ?c = "trim_prefix (clean_path (''/'' @ name)) ''/''"
  note run = assms[unfolded wallet_entryPath_def Let_def]
  show ?thesis
  proof (cases "?c = ''config.json''")
    case True
    with run show ?thesis by simp
  next
    case False
    obtain d where d: "?c = d @ last_elem ?c" using last_elem_app by blast
    have "take (length ?c - length (last_elem ?c)) ?c = d" by (subst (2) d, subst d) simp
    with run False have c: "d = ''wallet/''" "rel = ?c" and "plain_elem (last_elem ?c)" by (simp_all add: plain_elem_def split: if_splits)
    with last_elem_no_slash[of ?c] have "safe_elem (last_elem ?c)" by (simp add: safe_elem_def)
    with c d show ?thesis by metis
  qed
qed

lemma rel_path_cases:
  assumes "wallet_entryPath name = Inr rel"
  shows "rel_path rel = [''config.json''] \<or> (\<exists>b. safe_elem b \<and> rel_path rel = [''wallet'', b])"
proof -
  have c: "rel_path ''config.json'' = [''config.json'']" by (simp add: rel_path_def split_on_single)
  have w: "rel_path (''wallet/'' @ b) = [''wallet'', b]" if "CHR ''/'' \<notin> set b" for b
  proof -
    have "split_on (CHR ''/'') (''wallet'' @ CHR ''/'' # b) = ''wallet'' # split_on (CHR ''/'') b" by (rule split_on_append) simp
    with split_on_single[OF that] show ?thesis by (simp add: rel_path_def)
  qed
  from wallet_entryPath_cases[OF assms] c w show ?thesis by (auto simp: safe_elem_def)
qed

definition wallet_rel :: "path \<Rightarrow> bool" where
  "wallet_rel p \<longleftrightarrow> p = [''config.json''] \<or> (\<exists>b. p = [''wallet'', b])"

lemma inspect_wallet_files:
  "inspect_wallet es ends left files entries = Inr (files', entries') \<Longrightarrow> \<forall>f \<in> set files. wallet_rel (rel_path f) \<Longrightarrow>
     \<forall>f \<in> set files'. wallet_rel (rel_path f)"
proof (induction es arbitrary: left files entries)
  case (Cons e es)
  then obtain rel where rel: "wallet_entryPath (te_name e) = Inr rel"
    by (cases "wallet_entryPath (te_name e)") (auto split: if_splits)
  from Cons.prems(1) rel obtain d l where rest: "inspect_wallet es ends l (files @ [rel]) (entries(rel \<mapsto> d)) = Inr (files', entries')"
    by (auto split: if_splits prod.splits option.splits)
  have "wallet_rel (rel_path rel)" unfolding wallet_rel_def using rel_path_cases[OF rel] by blast
  with Cons.prems(2) have all: "\<forall>f \<in> set (files @ [rel]). wallet_rel (rel_path f)" by simp
  from Cons.IH[OF rest all] show ?case .
qed (auto split: if_splits)

lemma Inspect_wallet_files:
  assumes "Inspect_wallet co archive = Inr c" "f \<in> set (wc_files c)"
  shows "wallet_rel (rel_path f)"
proof -
  from assms(1) obtain es ends files entries where
    "inspect_wallet es ends MaxArchiveBytes [] Map.empty = Inr (files, entries)" "wc_files c = sort files"
    by (auto simp: Inspect_wallet_def Let_def split: tar_stream.splits sum.splits if_splits option.splits)
  with inspect_wallet_files[OF this(1)] assms(2) show ?thesis by simp
qed

section \<open>The files are there in the end\<close>

lemma safety_parking:
  "(\<And>f. f \<in> F \<Longrightarrow> (data @ [f]) \<parallel> safety) \<Longrightarrow> parking data (\<lambda>f. safety @ [f]) F"
  unfolding parking_def using parallel_append[of _ safety "[]"] by (auto intro: sibling_parallel)

lemma wallet_aside_spec:
  assumes "wallet_aside data safety fs moved m = (e, moved', m')" "distinct fs"
    and "parking data (\<lambda>f. safety @ [f]) (set fs)"
  shows "\<exists>new. moved' = moved @ new \<and> aside_ok data (\<lambda>f. safety @ [f]) (\<lambda>f. exists_at m (data @ [f])) fs (e = None) new m m'"
  using assms
proof (induction fs arbitrary: moved m)
  case Nil
  then show ?case by (intro exI[of _ "[]"]) (simp add: aside_nil)
next
  case (Cons f fs)
  let ?src = "data @ [f]" and ?dst = "safety @ [f]" and ?d = "\<lambda>f. safety @ [f]"
  note pk = Cons.prems(3)
  have pk': "parking data ?d (set fs)" by (rule parking_mono[OF pk]) auto
  have d: "distinct fs" "f \<notin> set fs" using Cons.prems(2) by simp_all
  show ?case
  proof (cases "exists_at m ?src")
    case False
    with Cons.prems(1) have run: "wallet_aside data safety fs moved m = (e, moved', m')" by simp
    from Cons.IH[OF run d(1) pk'] obtain new where
      n: "moved' = moved @ new" "aside_ok data ?d (\<lambda>f. exists_at m (data @ [f])) fs (e = None) new m m'" by blast
    have "aside_ok data ?d (\<lambda>f. exists_at m (data @ [f])) (f # fs) (e = None) new m m'" by (rule aside_skip[OF n(2)]) (rule False)
    with n(1) show ?thesis by blast
  next
    case True
    obtain ok m1 where mv: "Rename ?src ?dst m = (ok, m1)" by (cases "Rename ?src ?dst m")
    note same = Rename_same[OF mv]
    show ?thesis
    proof (cases ok)
      case False
      with Cons.prems(1) True mv have r: "e \<noteq> None" "moved' = moved" "m' = m1" by auto
      have t: "mc_tree m1 = mc_tree m" using Rename_failed[of ?src ?dst m m1] mv False by simp
      have "aside_ok data ?d (\<lambda>f. exists_at m (data @ [f])) (f # fs) (e = None) [] m m'"
        by (rule aside_none[OF _ _ r(1)]) (simp_all add: r(3) same t)
      with r(2) show ?thesis by auto
    next
      case True2: True
      with Cons.prems(1) True mv have run: "wallet_aside data safety fs (moved @ [(f, ?dst)]) m1 = (e, moved', m')" by simp
      have mv': "Rename ?src ?dst m = (True, m1)" using mv True2 by simp
      have nd: "\<not> prefix ?dst ?src" by (rule parking_apart(4)[OF pk, of f f]) simp
      from Cons.IH[OF run d(1) pk'] obtain new where
        eq: "moved' = (moved @ [(f, ?dst)]) @ new" and ok: "aside_ok data ?d (\<lambda>f. exists_at m1 (data @ [f])) fs (e = None) new m1 m'" by blast
      have PQ: "exists_at m1 (data @ [g])" if "g \<in> set fs" "exists_at m (data @ [g])" for g
      proof -
        have "\<not> prefix ?src (data @ [g])" using that(1) d(2) by auto
        moreover have "\<not> prefix ?dst (data @ [g])" by (rule parking_apart(4)[OF pk, of g f]) (use that in simp)
        ultimately have "mc_tree m1 (data @ [g]) = mc_tree m (data @ [g])" by (rule Rename_tree[OF mv'])
        with that(2) show ?thesis by (simp add: exists_at_def)
      qed
      from aside_step[OF ok PQ same Rename_tree[OF mv'] _ _ d(2) pk] Rename_ok[OF mv' nd]
      have "aside_ok data ?d (\<lambda>f. exists_at m (data @ [f])) (f # fs) (e = None) ((f, ?dst) # new) m m'" by simp
      with eq show ?thesis by auto
    qed
  qed
qed

lemma put_back_spec:
  assumes "put_back data ms m = (bad, m')" "distinct (map fst ms)" "\<And>f d. (f, d) \<in> set ms \<Longrightarrow> d = safety @ [f]"
    and "parking data (\<lambda>f. safety @ [f]) (fst ` set ms)"
  shows "back_ok data (\<lambda>f. safety @ [f]) ms bad m m'"
  using assms
proof (induction ms arbitrary: m bad)
  case Nil
  then show ?case by (simp add: back_ok_def)
next
  case (Cons p ms)
  obtain f src where p: "p = (f, src)" by (cases p)
  have src: "src = safety @ [f]" using Cons.prems(3)[of f src] p by simp
  have new: "f \<notin> fst ` set ms" and d: "distinct (map fst ms)" using Cons.prems(2) by (simp_all add: p)
  have pk: "parking data (\<lambda>f. safety @ [f]) (insert f (fst ` set ms))" using Cons.prems(4) by (simp add: p)
  note pk' = parking_mono[OF pk subset_insertI]
  obtain okr m1 where rm: "RemoveAll (data @ [f]) m = (okr, m1)" by (cases "RemoveAll (data @ [f]) m")
  obtain ok m2 where mv: "Rename src (data @ [f]) m1 = (ok, m2)" by (cases "Rename src (data @ [f]) m1")
  obtain bad0 where run: "put_back data ms m2 = (bad0, m')" "bad = (if ok then bad0 else f # bad0)"
    using Cons.prems(1) unfolding p by (auto simp: rm mv split: prod.splits)
  note IH = Cons.IH[OF run(1) d Cons.prems(3)[OF list.set_intros(2)] pk']
  have same: "host_same m m2" by (rule host_same_trans[OF RemoveAll_same[OF rm] Rename_same[OF mv]])
  have frame: "mc_tree m2 y = mc_tree m y" if "\<not> prefix (data @ [f]) y" "ok \<Longrightarrow> \<not> prefix (safety @ [f]) y" for y
  proof (cases ok)
    case True
    then show ?thesis using Rename_tree[OF mv, of y] RemoveAll_tree[OF rm, of y] that by (simp add: src)
  next
    case False
    then show ?thesis using Rename_failed[of src "data @ [f]" m1 m2] mv RemoveAll_tree[OF rm, of y] that by simp
  qed
  have np: "\<not> prefix (data @ [f]) (safety @ [f])" "\<not> prefix (data @ [f]) ((safety @ [f]) @ x)" for x
    using parking_apart(5)[OF pk insertI1, of f] parking_apart(1)[OF pk insertI1, of f x] by simp_all
  have moved: "mc_tree m2 (data @ f # x) = mc_tree m ((safety @ [f]) @ x)" if ok for x
    using Rename_ok(1)[of src "data @ [f]" m1 m2 x] mv that np RemoveAll_tree[OF rm, of "(safety @ [f]) @ x"] by (simp add: src)
  from back_step[OF IH same frame moved new pk] run(2) show ?case by (simp add: p)
qed

text \<open>Installing touches the staging directory, the two names in the data directory and the way there.\<close>

lemma wallet_install_tree:
  assumes "wallet_install staging data rels m = (e, m')" "\<forall>r \<in> set rels. wallet_rel (rel_path r)"
    and "\<not> prefix staging y" "\<not> prefix (data @ [''wallet'']) y" "\<not> prefix (data @ [''config.json'']) y"
    and "\<not> prefix y (data @ [''wallet''])"
  shows "mc_tree m' y = mc_tree m y"
  using assms(1,2)
proof (induction rels arbitrary: m)
  case (Cons rel rels)
  let ?s = "staging @ rel_path rel" and ?d = "data @ rel_path rel"
  obtain ok1 m1 where 1: "MkdirAll (up ?d) m = (ok1, m1)" by (cases "MkdirAll (up ?d) m")
  obtain ok2 m2 where 2: "Rename ?s ?d m1 = (ok2, m2)" by (cases "Rename ?s ?d m1")
  have w: "wallet_rel (rel_path rel)" using Cons.prems(2) by simp
  have "up ?d = data \<or> up ?d = data @ [''wallet'']" using w by (auto simp: wallet_rel_def up_def butlast_append)
  moreover have "\<not> prefix y data" using assms(6) prefix_prefix[of y data "[''wallet'']"] by blast
  ultimately have "\<not> prefix y (up ?d)" using assms(6) by metis
  then have t1: "mc_tree m1 y = mc_tree m y" using MkdirAll_tree[OF 1, of y] by blast
  have ns: "\<not> prefix ?s y"
  proof
    assume a: "prefix ?s y"
    have "prefix staging y" by (rule prefix_order.trans[OF _ a]) simp
    then show False using assms(3) by blast
  qed
  have nd: "\<not> prefix ?d y"
  proof
    assume a: "prefix ?d y"
    from w obtain n ns where n: "rel_path rel = n # ns" "n = ''wallet'' \<or> n = ''config.json''" unfolding wallet_rel_def by blast
    have "prefix (data @ [n]) y" by (rule prefix_order.trans[OF _ a]) (simp add: n(1))
    then show False using n(2) assms(4,5) by blast
  qed
  have t2: "mc_tree m2 y = mc_tree m y" using Rename_tree[OF 2 ns nd] t1 by simp
  have "m' = m1 \<or> m' = m2 \<or> wallet_install staging data rels m2 = (e, m')" using Cons.prems(1) 1 2 by (auto split: if_splits)
  moreover have "\<forall>r \<in> set rels. wallet_rel (rel_path r)" using Cons.prems(2) by simp
  ultimately show ?case using Cons.IH[of m2] t1 t2 by metis
qed simp

lemma wallet_install_same: "wallet_install staging data rels m = (e, m') \<Longrightarrow> host_same m m'"
  by (induction rels arbitrary: m) (auto dest!: MkdirAll_same Rename_same dest: host_same_trans split: prod.splits if_splits)


text \<open>From the move on.\<close>

definition wallet_says_kept :: "wallet_result \<Rightarrow> bool" where
  "wallet_says_kept r \<longleftrightarrow> (\<exists>e. r = WalletRefused e \<or> r = WalletPutBack e)"

lemma swap_wallet_kept:
  assumes run: "swap_wallet data safety staging files m = (r, m')"
    and files: "\<forall>f \<in> set files. wallet_rel (rel_path f)"
    and pk: "parking data (\<lambda>f. safety @ [f]) {''wallet'', ''config.json''}"
    and stg: "staging \<parallel> safety"
    and g: "g \<in> {''wallet'', ''config.json''}" and there: "exists_at m (data @ [g])"
  shows "r = Some s \<Longrightarrow> wallet_says_kept s \<Longrightarrow> kept data m m' g"
    "kept data m m' g \<or> kept_aside data (\<lambda>f. safety @ [f]) m m' g"
proof -
  let ?d = "\<lambda>f. safety @ [f]"
  have pg: "parking data ?d {g}" by (rule parking_mono[OF pk]) (use g in auto)
  obtain e moved m1 where ma: "wallet_aside data safety [''wallet'', ''config.json''] [] m = (e, moved, m1)" by (metis prod_cases3)
  have pk2: "parking data ?d (set [''wallet'', ''config.json''])" using pk by simp
  from wallet_aside_spec[OF ma _ pk2] have ok: "aside_ok data ?d (\<lambda>f. exists_at m (data @ [f])) [''wallet'', ''config.json''] (e = None) moved m m1" by auto
  note okD = ok[unfolded aside_ok_def]
  obtain e2 m2 where inst: "(if e = None then wallet_install staging data files m1 else (e, m1)) = (e2, m2)"
    by (cases "if e = None then wallet_install staging data files m1 else (e, m1)")
  have bak2: "mc_tree m2 (?d g @ x) = mc_tree m1 (?d g @ x)" for x
  proof (cases "e = None")
    case True
    have w: "wallet_install staging data files m1 = (e2, m2)" using inst True by simp
    have "\<not> prefix staging (?d g @ x)" using parallel_not[OF stg, of "[g] @ x"] by simp
    moreover have "\<not> prefix (data @ [''wallet'']) (?d g @ x)" "\<not> prefix (data @ [''config.json'']) (?d g @ x)"
      by (rule parking_apart(1)[OF pk, of _ g x], simp)+
    moreover have "\<not> prefix (?d g @ x) (data @ [''wallet''])"
    proof
      assume a: "prefix (?d g @ x) (data @ [''wallet''])"
      have "prefix (?d g) (data @ [''wallet''])" by (rule prefix_order.trans[OF _ a]) simp
      then show False using parking_apart(4)[OF pk, of "''wallet''" g] by blast
    qed
    ultimately show ?thesis using wallet_install_tree[OF w files] by blast
  qed (use inst in auto)
  have bak: "mc_tree m2 (?d g @ x) = mc_tree m (data @ g # x)" if "g \<in> fst ` set moved" for x
    using aside_kept(1)[OF ok pg that] bak2[of x] by (simp add: kept_aside_def)
  have stay: "kept data m m2 g" if no: "g \<notin> fst ` set moved"
  proof -
    have "e \<noteq> None" using okD no there g by auto
    then have "m2 = m1" using inst by auto
    with aside_kept(2)[OF ok pg no] show ?thesis by simp
  qed
  have both: "kept data m m2 g \<or> kept_aside data ?d m m2 g" using bak stay by (auto simp: kept_aside_def)
  have "(\<forall>s. r = Some s \<longrightarrow> wallet_says_kept s \<longrightarrow> kept data m m' g) \<and> (kept data m m' g \<or> kept_aside data ?d m m' g)"
  proof (cases e2)
    case None
    with run both show ?thesis unfolding swap_wallet_def ma prod.case inst by simp
  next
    case (Some err)
    obtain bad m3 where mb: "put_back data (rev moved) m2 = (bad, m3)" by (cases "put_back data (rev moved) m2")
    have r: "r = Some (if bad = [] then WalletPutBack err else WalletNotPutBack err bad)" "m' = m3"
      using run unfolding swap_wallet_def ma prod.case inst Some option.case mb by simp_all
    have dist: "distinct (map fst (rev moved))" using okD by (simp add: rev_map[symmetric])
    from okD have srcs: "\<And>f d. (f, d) \<in> set moved \<Longrightarrow> d = ?d f \<and> f \<in> {''wallet'', ''config.json''}" by fastforce
    have dsts: "d = ?d f" if "(f, d) \<in> set (rev moved)" for f d using that srcs by simp
    have "fst ` set moved \<subseteq> {''wallet'', ''config.json''}"
    proof
      fix f assume "f \<in> fst ` set moved"
      then obtain d where "(f, d) \<in> set moved" by (metis imageE prod.collapse)
      with srcs show "f \<in> {''wallet'', ''config.json''}" by blast
    qed
    then have pm: "parking data ?d (fst ` set (rev moved))" using parking_mono[OF pk] by simp
    from put_back_spec[OF mb dist dsts pm] have bk: "back_ok data ?d (rev moved) bad m2 m3" .
    show ?thesis
    proof (cases "g \<in> fst ` set moved")
      case True
      have "kept data m m3 g" if "g \<notin> set bad"
        using back_kept(2)[OF bk pg _ that] True bak by (simp add: kept_def)
      moreover have "kept_aside data ?d m m3 g" if "g \<in> set bad"
        using back_kept(3)[OF bk pg that] bak[OF True] by (simp add: kept_aside_def)
      ultimately show ?thesis using r by (cases "g \<in> set bad") (auto simp: wallet_says_kept_def)
    next
      case False
      with back_kept(1)[OF bk pg] have "kept data m2 m3 g" by simp
      with stay[OF False] have "kept data m m3 g" by (rule kept_trans)
      with r(2) show ?thesis by simp
    qed
  qed
  then show "r = Some s \<Longrightarrow> wallet_says_kept s \<Longrightarrow> kept data m m' g" "kept data m m' g \<or> kept_aside data ?d m m' g" by blast+
qed

section \<open>The whole restore\<close>

lemma off_WriteNew: "WriteNew (dir @ p) mode d m = (ok, m') \<Longrightarrow> off dir m m'"
  by (rule offI) (metis WriteNew_tree parallel_below(1) prefix_order.refl)

lemma off_stage: "stage_entries staging es ends left m = (ok, m') \<Longrightarrow> off staging m m'"
proof (induction es arbitrary: left m)
  case (Cons e es)
  show ?case
  proof (cases "wallet_entryPath (te_name e)")
    case (Inl err)
    with Cons.prems show ?thesis by simp
  next
    case (Inr rel)
    let ?t = "staging @ rel_path rel"
    have "rel_path rel \<noteq> []" by (simp add: rel_path_def)
    then have up: "up ?t = staging @ butlast (rel_path rel)" by (simp add: up_def butlast_append)
    obtain ok1 m1 where 1: "MkdirAll (staging @ butlast (rel_path rel)) m = (ok1, m1)" by (cases "MkdirAll (staging @ butlast (rel_path rel)) m")
    obtain d err l where b: "budget_copy left e = (d, err, l)" by (metis prod_cases3)
    obtain ok2 m2 where 2: "WriteNew ?t 384 d m1 = (ok2, m2)" by (cases "WriteNew ?t 384 d m1")
    note o1 = off_MkdirAll[OF 1]
    note o2 = off_trans[OF o1 off_WriteNew[OF 2]]
    from Cons.prems[unfolded stage_entries.simps Inr sum.case Let_def up 1 prod.case b 2]
    have "m' = m1 \<or> m' = m2 \<or> stage_entries staging es ends l m2 = (ok, m')" by (auto split: if_splits)
    with o1 o2 Cons.IH off_trans show ?thesis by blast
  qed
qed simp

lemma check_key_tree: "check_key cr staging c m = (r, m') \<Longrightarrow> mc_tree m' = mc_tree m"
  by (auto simp: check_key_def dest: Verify_key_tree split: option.splits if_splits prod.splits sum.splits)

lemma check_key_got:
  assumes "check_key cr staging c m = (Inr a, m')" "wc_producer c = Some pc"
  shows "\<exists>d mode. mc_tree m (staging @ rel_path (wc_key_file c)) = Some (Doc d mode) \<and> cr_open cr d (pc_password pc) = KeyOpens a \<and> equal_fold a (pc_address pc)"
proof -
  obtain r m1 where v: "Verify_key cr (staging @ rel_path (wc_key_file c)) (pc_password pc) m = (r, m1)"
    by (cases "Verify_key cr (staging @ rel_path (wc_key_file c)) (pc_password pc) m")
  from assms v have "r = Inr a" "equal_fold a (pc_address pc)" by (auto simp: check_key_def split: if_splits sum.splits)
  with Verify_key_got[OF v[unfolded \<open>r = Inr a\<close>]] show ?thesis by blast
qed

lemma restore_staged_kept:
  assumes run: "restore_staged cr cfg c restartNode now staging m = (r, m')"
    and files: "\<forall>f \<in> set (wc_files c). wallet_rel (rel_path f)"
    and apart: "\<And>f. f \<in> {''wallet'', ''config.json''} \<Longrightarrow> (dc_data cfg @ [f]) \<parallel> RestoreDir cfg"
    and stg: "staging \<parallel> RestoreDir cfg"
    and g: "g \<in> {''wallet'', ''config.json''}" and there: "exists_at m (dc_data cfg @ [g])"
  shows "(wallet_says_kept r \<longrightarrow> kept (dc_data cfg) m m' g) \<and>
    (kept (dc_data cfg) m m' g \<or> kept_aside (dc_data cfg) (\<lambda>f. SafetyDir cfg now @ [f]) m m' g)"
proof -
  let ?data = "dc_data cfg" and ?s = "SafetyDir cfg now" and ?d = "\<lambda>f. SafetyDir cfg now @ [f]"
  obtain run0 m1 where 1: "IsActive m = (run0, m1)" by (cases "IsActive m")
  obtain a m2 where 2: "check_key cr staging c m1 = (a, m2)" by (cases "check_key cr staging c m1")
  obtain ok3 m3 where 3: "MkdirAll ?s m2 = (ok3, m3)" by (cases "MkdirAll ?s m2")
  obtain sr m4 where 4: "swap_wallet ?data ?s staging (wc_files c) m3 = (sr, m4)" by (cases "swap_wallet ?data ?s staging (wc_files c) m3")
  obtain re m5 where 5: "RestartService m4 = (re, m5)" by (cases "RestartService m4")
  have as: "(?data @ [f]) \<parallel> ?s" if "f \<in> {''wallet'', ''config.json''}" for f
    unfolding SafetyDir_def using parallel_append[OF apart[OF that], of "[]"] by simp
  have k2: "kept ?data m m2 g" using IsActive_tree[OF 1] check_key_tree[OF 2] by (simp add: kept_def)
  have k3: "kept ?data m m3 g"
    unfolding kept_def
  proof
    fix x
    have "\<not> prefix (?data @ g # x) ?s"
      using parallel_not[OF as[OF g], of "[]"] prefix_order.trans[of "?data @ [g]" "?data @ g # x" ?s] by auto
    with MkdirAll_tree[OF 3] k2 show "mc_tree m3 (?data @ g # x) = mc_tree m (?data @ g # x)" unfolding kept_def by metis
  qed
  have "exists_at m3 (?data @ [g])" using k3[unfolded kept_def, rule_format, of "[]"] there by (simp add: exists_at_def)
  moreover have "staging \<parallel> ?s" unfolding SafetyDir_def using parallel_append[OF stg, of "[]"] by simp
  ultimately have sk: "sr = Some s \<Longrightarrow> wallet_says_kept s \<Longrightarrow> kept ?data m3 m4 g" "kept ?data m3 m4 g \<or> kept_aside ?data ?d m3 m4 g" for s
    using swap_wallet_kept[OF 4 files safety_parking[OF as] _ g] by blast+
  have b4: "kept ?data m m4 g \<or> kept_aside ?data ?d m m4 g"
    using sk(2) k3 by (auto simp: kept_def kept_aside_def)
  have b5: "kept ?data m m5 g \<or> kept_aside ?data ?d m m5 g"
    using b4 RestartService_tree[OF 5] by (simp add: kept_def kept_aside_def)
  note unf = run[unfolded restore_staged_def 1 prod.case 2 3 4 5]
  consider "m' \<in> {m2, m3}" | "sr = Some r" "m' = m4" | "\<not> wallet_says_kept r" "m' \<in> {m4, m5}"
    using unf by (auto simp: wallet_says_kept_def split: sum.splits if_splits option.splits)
  then show ?thesis
  proof cases
    case 1
    with k2 k3 show ?thesis by auto
  next
    case 2
    with sk(1)[of r] b4 kept_trans[OF k3] show ?thesis by blast
  next
    case 3
    with b4 b5 show ?thesis by auto
  qed
qed

lemma Restore_wallet_kept:
  assumes run: "Restore_wallet co cfg archive restartNode now rnd m = (r, m')"
    and apart: "\<And>f. f \<in> {''wallet'', ''config.json''} \<Longrightarrow> (dc_data cfg @ [f]) \<parallel> RestoreDir cfg"
    and stg: "(dc_data cfg @ [''.wallet-restore-'' @ rnd]) \<parallel> RestoreDir cfg"
    and g: "g \<in> {''wallet'', ''config.json''}" and there: "exists_at m (dc_data cfg @ [g])"
  shows "(wallet_says_kept r \<longrightarrow> kept (dc_data cfg) m m' g) \<and>
    (kept (dc_data cfg) m m' g \<or> kept_aside (dc_data cfg) (\<lambda>f. SafetyDir cfg now @ [f]) m m' g)"
proof (cases "Inspect_wallet co archive")
  case (Inl e)
  with run show ?thesis by (simp add: Restore_wallet_def)
next
  case (Inr c)
  let ?data = "dc_data cfg" and ?stg = "dc_data cfg @ [''.wallet-restore-'' @ rnd]" and ?d = "\<lambda>f. SafetyDir cfg now @ [f]"
  have sg: "?stg \<parallel> (?data @ [g])" by (rule sibling_parallel) (use g in auto)
  obtain ok1 m1 where 1: "MkdirAll ?data m = (ok1, m1)" by (cases "MkdirAll ?data m")
  obtain ok2 m2 where 2: "MkdirNew ?stg m1 = (ok2, m2)" by (cases "MkdirNew ?stg m1")
  obtain ok3 m3 where 3: "(case co_untar co archive of NotGzip \<Rightarrow> (False, m2) | Stream es ends \<Rightarrow> stage_entries ?stg es ends MaxArchiveBytes m2) = (ok3, m3)" (is "?x = _")
    by (cases ?x)
  obtain r4 m4 where 4: "(if \<not> ok3 then (WalletRefused StageFailed, m3)
     else restore_staged (co_crypto co) cfg c restartNode now ?stg m3) = (r4, m4)" (is "?y = _") by (cases ?y)
  have k1: "kept ?data m m1 g" by (rule MkdirAll_kept[OF 1])
  have "mc_tree m2 (?data @ g # x) = mc_tree m1 (?data @ g # x)" for x
    by (rule MkdirNew_tree[OF 2]) (use parallel_not[OF sg, of "[]"] parallel_not[OF sg, of x] in auto)
  then have k2: "kept ?data m m2 g" using k1 by (simp add: kept_def)
  have "off ?stg m2 m3" using 3 off_stage by (auto split: tar_stream.splits)
  from kept_trans[OF k2 off_kept[OF this parallel_sym[OF sg]]] have k3: "kept ?data m m3 g" .
  have "exists_at m3 (?data @ [g])" using k3[unfolded kept_def, rule_format, of "[]"] there by (simp add: exists_at_def)
  then have k4: "(wallet_says_kept r4 \<longrightarrow> kept ?data m3 m4 g) \<and> (kept ?data m3 m4 g \<or> kept_aside ?data ?d m3 m4 g)"
    using 4 restore_staged_kept[OF _ _ apart stg g] Inspect_wallet_files[OF Inr] by (auto split: if_splits)
  note unf = run[unfolded Restore_wallet_def Inr sum.case 1 prod.case Let_def 2 3 4]
  consider "m' \<in> {m1, m2}" | "r = r4" "m' = snd (RemoveAll ?stg m4)" using unf by (auto split: if_splits)
  then show ?thesis
  proof cases
    case 1
    with k1 k2 show ?thesis by auto
  next
    case 2
    have k5: "kept ?data m4 m' g" unfolding 2(2) by (rule RemoveAll_kept[OF sg])
    have "?stg \<parallel> SafetyDir cfg now" unfolding SafetyDir_def using parallel_append[OF stg, of "[]"] by simp
    then have "mc_tree m' (?d g @ x) = mc_tree m4 (?d g @ x)" for x
      unfolding 2(2) using parallel_not[of ?stg "SafetyDir cfg now" "[g] @ x"] by (intro RemoveAll_tree[OF surjective_pairing]) simp
    with k4 k3 k5 2(1) show ?thesis by (auto simp: kept_def kept_aside_def)
  qed
qed

end
