(* ===== verification/Host_Claims.thy ===== *)
theory Host_Claims
  imports Wallet_Backup
begin

text \<open>
  Properties of what is done to the host: archives, restore, bootstrap, backup, self update and the producer key.  The
  hazards of the machine are arbitrary unless a property says otherwise.
\<close>

section \<open>A host to apply the properties to\<close>

definition demo_tree :: tree where
  "demo_tree = map_of
     [([''data''], Folder), ([''data'', ''nom''], Folder), ([''data'', ''nom'', ''000001.ldb''], Doc ''chain'' 420),
      ([''data'', ''config.json''], Doc ''{}'' 384), ([''data'', ''wallet''], Folder), ([''data'', ''wallet'', ''producer''], Doc ''key'' 384),
      ([''backup''], Folder), ([''backup'', ''temp''], Folder), ([''backup'', ''b.tar.gz''], Doc ''archive'' 420), ([''backup'', ''b.hash''], Doc ''digest'' 420),
      ([''usr''], Folder), ([''usr'', ''nomctl''], Doc ''old'' 493),
      ([''tmp''], Folder), ([''tmp'', ''nomctl.new''], Doc ''new'' 493)]"

definition demo :: "hazard list \<Rightarrow> machine" where
  "demo hs = \<lparr> mc_tree = demo_tree, mc_hazards = hs, mc_known = True, mc_active = True, mc_ctl = [] \<rparr>"

definition demo_config :: backup_config where
  "demo_config = \<lparr> dc_data = [''data''], dc_backup = [''backup''], bc_service = ''go-zenon'', bc_log = ''/var/log/nomctl.log'',
     bc_max = 7, bc_cadence = 3, bc_hour = - 1, bc_min_free = 100 \<rparr>"

lemma demo_apart [simp]: "(dc_data demo_config @ [f]) \<parallel> RestoreDir demo_config" "(dc_data demo_config @ [f]) \<parallel> dc_backup demo_config"
  by (simp_all add: demo_config_def RestoreDir_def parallel_def)

section \<open>What an archive may touch\<close>

definition inside :: "path \<Rightarrow> string set \<Rightarrow> path \<Rightarrow> bool" where
  "inside dst names x \<longleftrightarrow> prefix x dst \<or> (\<exists>f es. f \<in> names \<and> list_all safe_elem es \<and> x = dst @ f # es)"

lemma stage_inside:
  "stage_entries staging es ends left m = (ok, m') \<Longrightarrow> \<not> inside staging {''wallet'', ''config.json''} x \<Longrightarrow> mc_tree m' x = mc_tree m x"
proof (induction es arbitrary: left m)
  case (Cons e es)
  note out = Cons.prems(2)
  show ?case
  proof (cases "wallet_entryPath (te_name e)")
    case (Inl err)
    with Cons.prems show ?thesis by simp
  next
    case (Inr rel)
    let ?t = "staging @ rel_path rel"
    have "rel_path rel \<noteq> []" by (simp add: rel_path_def)
    then have up: "up ?t = staging @ butlast (rel_path rel)" by (simp add: up_def butlast_append)
    have into: "inside staging {''wallet'', ''config.json''} y" if y: "prefix y ?t" for y
    proof (cases "prefix y staging")
      case False
      with y obtain zs where zs: "y = staging @ zs" "zs \<noteq> []" "prefix zs (rel_path rel)" by (auto simp: prefix_append)
      have "zs = [''config.json''] \<or> zs = [''wallet''] \<or> (\<exists>b. safe_elem b \<and> zs = [''wallet'', b])"
      proof (rule disjE[OF rel_path_cases[OF Inr]])
        assume "rel_path rel = [''config.json'']"
        with zs show ?thesis by (cases zs) auto
      next
        assume "\<exists>b. safe_elem b \<and> rel_path rel = [''wallet'', b]"
        then obtain b where "safe_elem b" "rel_path rel = [''wallet'', b]" by blast
        with zs show ?thesis by (auto simp: prefix_Cons)
      qed
      then obtain f es where "f \<in> {''wallet'', ''config.json''}" "list_all safe_elem es" "zs = f # es" by fastforce
      with zs(1) show ?thesis unfolding inside_def by blast
    qed (simp add: inside_def)
    obtain ok1 m1 where 1: "MkdirAll (staging @ butlast (rel_path rel)) m = (ok1, m1)" by (cases "MkdirAll (staging @ butlast (rel_path rel)) m")
    obtain d err l where b: "budget_copy left e = (d, err, l)" by (metis prod_cases3)
    obtain ok2 m2 where 2: "WriteNew ?t 384 d m1 = (ok2, m2)" by (cases "WriteNew ?t 384 d m1")
    have "\<not> prefix x ?t" using into out by blast
    moreover have "prefix (staging @ butlast (rel_path rel)) ?t" by (simp add: prefixeq_butlast)
    ultimately have "\<not> prefix x (staging @ butlast (rel_path rel))" "x \<noteq> ?t" using prefix_order.trans by blast+
    then have o: "mc_tree m1 x = mc_tree m x" "mc_tree m2 x = mc_tree m x"
      using MkdirAll_tree[OF 1, of x] WriteNew_tree[OF 2, of x] by auto
    from Cons.prems(1)[unfolded stage_entries.simps Inr sum.case Let_def up 1 prod.case b 2]
    have "m' = m1 \<or> m' = m2 \<or> stage_entries staging es ends l m2 = (ok, m')" by (auto split: if_splits)
    with o Cons.IH out show ?thesis by metis
  qed
qed simp


text \<open>C10. Archives stay inside.  Whatever the entries of an archive are called, and wherever the unpacking breaks off, only the
  way to the target directory and paths below the folders that this kind of archive may hold are touched, by plain names: by a
  backup, by a snapshot and by a wallet backup.\<close>

theorem archives_stay_inside:
  "(mc_tree (snd (Extract untar file dst m)) x = mc_tree m x \<or> inside dst (set Folders) x) \<and>
   (mc_tree (snd (ExtractZip unzip archive dst m)) x = mc_tree m x \<or> inside dst (set Dirs) x) \<and>
   (mc_tree (snd (stage_entries dst es ends left m)) x = mc_tree m x \<or> inside dst {''wallet'', ''config.json''} x)"
proof (intro conjI)
  show "mc_tree (snd (Extract untar file dst m)) x = mc_tree m x \<or> inside dst (set Folders) x"
    using Extract_touch[OF surjective_pairing, of dst x] unfolding may_touch_def inside_def by blast
  show "mc_tree (snd (ExtractZip unzip archive dst m)) x = mc_tree m x \<or> inside dst (set Dirs) x"
    using ExtractZip_touch[OF surjective_pairing, of dst x] unfolding boot_touch_def inside_def by blast
  show "mc_tree (snd (stage_entries dst es ends left m)) x = mc_tree m x \<or> inside dst {''wallet'', ''config.json''} x"
    using stage_inside[OF surjective_pairing, of dst x] by blast
qed

section \<open>Restore and bootstrap\<close>

text \<open>C7. The data survive a restore.  Whatever the archive holds and whatever calls fail on the way (short of a move that loses
  its source), every chain-data folder that was there is, at the end, whole in its place or whole under its safety name; and a
  run that reports a refusal, or that the previous data were put back, leaves it in its place, to the byte.\<close>

theorem restore_keeps_data:
  assumes "Run_restore untar sha order cfg archive now rnd m = (r, m')" and "calm m"
    and "\<And>xs. mset (order xs) = mset xs"
    and "\<And>f. f \<in> insert (''.restore-'' @ rnd) (set Folders) \<Longrightarrow> (dc_data cfg @ [f]) \<parallel> RestoreDir cfg"
    and "g \<in> set Folders" "is_folder m (dc_data cfg @ [g])"
  shows "(says_kept r \<longrightarrow> kept (dc_data cfg) m m' g) \<and>
    (kept (dc_data cfg) m m' g \<or> kept_aside (dc_data cfg) (bak (RestoreDir cfg) (show_int (unix_of now))) m m' g)"
  by (rule restore_kept[OF assms])

text \<open>The rename that would install the folder fails: the twelfth call.\<close>

definition demo_entry :: tar_entry where
  "demo_entry = \<lparr> te_name = ''nom/000002.ldb'', te_type = RegEntry, te_mode = 420, te_size = 3, te_data = ''new'', te_whole = True \<rparr>"

definition demo_restore :: "restore_result \<times> machine" where
  "demo_restore = Run_restore (\<lambda>_. Stream [demo_entry] True) (\<lambda>_. ''digest'') rev demo_config [''backup'', ''b.tar.gz''] 0 ''7''
     (demo (replicate 11 Fine @ [Refused]))"

lemma demo_restore_run:
  "Run_restore (\<lambda>_. Stream [demo_entry] True) (\<lambda>_. ''digest'') rev demo_config [''backup'', ''b.tar.gz''] 0 ''7''
     (demo (replicate 11 Fine @ [Refused])) = (fst demo_restore, snd demo_restore)"
  by (simp add: demo_restore_def)

lemma restore_keeps_data_witness:
  "fst demo_restore = PutBack (InstallFailed ''nom'') \<and> kept [''data''] (demo (replicate 11 Fine @ [Refused])) (snd demo_restore) ''nom''"
proof -
  let ?m = "demo (replicate 11 Fine @ [Refused])"
  have r: "fst demo_restore = PutBack (InstallFailed ''nom'')" by code_simp
  have c: "calm ?m" by (simp add: calm_def demo_def)
  have g: "''nom'' \<in> set Folders" by (simp add: Folders_def)
  have t: "is_folder ?m (dc_data demo_config @ [''nom''])" by (simp add: is_folder_def demo_def demo_tree_def demo_config_def)
  have o: "mset (rev xs) = mset xs" for xs :: "(string \<times> path) list" by simp
  note all = restore_keeps_data[OF demo_restore_run c o demo_apart(1) g t]
  from r all have "kept (dc_data demo_config) ?m (snd demo_restore) ''nom''" by simp
  with r show ?thesis by (simp add: demo_config_def)
qed











section \<open>Backup\<close>

text \<open>C11. A backup leaves the node up.  A node that was running is running after a backup, whether the backup succeeds, is skipped
  or fails at any call on the file system, as long as \<^verbatim>\<open>systemctl\<close> does as it is told.\<close>

theorem backup_leaves_node_up:
  assumes "Run_backup vw tar sha cfg interactive zone now later m = (r, m')" "obedient m" "mc_active m"
  shows "mc_active m'"
  by (rule Run_backup_up[OF assms])

definition demo_view :: view where
  "demo_view = \<lparr> vw_names = (\<lambda>_ _. []), vw_mtime = (\<lambda>_ _. 0), vw_statfs = (\<lambda>_ _. Some \<lparr> fs_bsize = 4096, fs_blocks = 1000, fs_bfree = 900, fs_bavail = 900 \<rparr>) \<rparr>"

text \<open>The copy breaks off half way: the fifth call.\<close>

definition demo_backup :: "backup_result \<times> machine" where
  "demo_backup = Run_backup demo_view (\<lambda>_. ''tar'') (\<lambda>_. ''digest'') demo_config True 0 0 0 (demo (replicate 4 Fine @ [Halfway 0 (\<lambda>_. False)]))"

lemma backup_leaves_node_up_witness:
  "fst demo_backup = Failed (CopyFailed ''nom'') \<and> mc_active (snd demo_backup)"
proof -
  have r: "fst demo_backup = Failed (CopyFailed ''nom'')" by code_simp
  have run: "Run_backup demo_view (\<lambda>_. ''tar'') (\<lambda>_. ''digest'') demo_config True 0 0 0 (demo (replicate 4 Fine @ [Halfway 0 (\<lambda>_. False)])) =
    (fst demo_backup, snd demo_backup)" by (simp add: demo_backup_def)
  have "obedient (demo hs)" "mc_active (demo hs)" for hs by (simp_all add: obedient_def demo_def)
  from backup_leaves_node_up[OF run this] r show ?thesis by blast
qed

text \<open>A backup touches the backup directory only.  Nothing beside it changes, the node's data in particular, however the run
  ends.\<close>

theorem backup_touches_backups_only:
  assumes "Run_backup vw tar sha cfg interactive zone now later m = (r, m')" "x \<parallel> dc_backup cfg"
  shows "mc_tree m' x = mc_tree m x"
  using Run_backup_off[OF assms(1)] assms(2) unfolding off_def by blast

lemma backup_touches_backups_only_witness: "mc_tree (snd demo_backup) [''data'', ''nom'', ''000001.ldb''] = Some (Doc ''chain'' 420)"
proof -
  have run: "Run_backup demo_view (\<lambda>_. ''tar'') (\<lambda>_. ''digest'') demo_config True 0 0 0 (demo (replicate 4 Fine @ [Halfway 0 (\<lambda>_. False)])) =
    (fst demo_backup, snd demo_backup)" by (simp add: demo_backup_def)
  have "[''data'', ''nom'', ''000001.ldb''] \<parallel> dc_backup demo_config" by (simp add: demo_config_def parallel_def)
  from backup_touches_backups_only[OF run this] show ?thesis by (simp add: demo_def demo_tree_def)
qed

text \<open>C24. What is published can be restored.  Wherever the writing of an archive breaks off, if there is a file under the final
  name, where there was none, the writing reported success, the file is the whole archive of the copied data, and the check
  that a restore makes first passes.\<close>

theorem published_archive_verifies:
  assumes "writeArchive tar sha src (u @ [n]) m = (e, m')" "has_suffix n ''.tar.gz''"
    and "mc_tree m (u @ [n]) = None" "mc_tree m' (u @ [n]) = Some (Doc d mode)"
    and "trim_space (sha d @ [CHR 0x0A]) = sha d"
  shows "e = None \<and> d = tar (\<lambda>x. mc_tree m (src @ x)) \<and> fst (Verify_archive sha (u @ [n]) (m'\<lparr> mc_hazards := [] \<rparr>)) = None"
proof -
  from writeArchive_published[OF assms(1-4)] obtain mode'
    where p: "e = None" "d = tar (\<lambda>x. mc_tree m (src @ x))" "mc_tree m' (HashPath (u @ [n])) = Some (Doc (sha d @ [CHR 0x0A]) mode')" by blast
  then have "fst (Verify_archive sha (u @ [n]) (m'\<lparr> mc_hazards := [] \<rparr>)) = None"
    using assms(4,5) by (simp add: Verify_archive_def ReadFile_def next_hazard_def exists_at_def)
  with p show ?thesis by blast
qed

definition demo_write :: "backup_error option \<times> machine" where
  "demo_write = writeArchive (\<lambda>_. ''tar'') (\<lambda>_. ''digest'') [''backup'', ''temp''] ([''backup''] @ [''a.tar.gz'']) (demo [])"

lemma published_archive_verifies_witness:
  "fst demo_write = None \<and> fst (Verify_archive (\<lambda>_. ''digest'') ([''backup''] @ [''a.tar.gz'']) ((snd demo_write)\<lparr> mc_hazards := [] \<rparr>)) = None"
proof -
  have run: "writeArchive (\<lambda>_. ''tar'') (\<lambda>_. ''digest'') [''backup'', ''temp''] ([''backup''] @ [''a.tar.gz'']) (demo []) = (fst demo_write, snd demo_write)"
    by (simp add: demo_write_def)
  have there: "mc_tree (snd demo_write) ([''backup''] @ [''a.tar.gz'']) = Some (Doc ''tar'' 420)" by code_simp
  have tgz: "has_suffix ''a.tar.gz'' ''.tar.gz''" by code_simp
  have new: "mc_tree (demo []) ([''backup''] @ [''a.tar.gz'']) = None" by (simp add: demo_def demo_tree_def)
  have tr: "trim_space (''digest'' @ [CHR 0x0A]) = ''digest''" by code_simp
  from published_archive_verifies[OF run tgz new there tr] show ?thesis by blast
qed

text \<open>C25. Retention.  Pruning leaves each of the newest archives, as many as are to be kept, with its digest as it is, whatever
  calls fail; when none fails every other archive is gone, and none of those was newer than one that is kept.\<close>

theorem retention:
  assumes "distinct (vw_names vw m (dc_backup cfg))" "e \<in> set (List_backups vw cfg m)"
  shows "if e \<in> set (take (nat (bc_max cfg)) (List_backups vw cfg m))
    then mc_tree (Prune_backups vw cfg m) (be_path e) = mc_tree m (be_path e) \<and>
         mc_tree (Prune_backups vw cfg m) (HashPath (be_path e)) = mc_tree m (HashPath (be_path e))
    else (mc_hazards m \<noteq> [] \<or> mc_tree (Prune_backups vw cfg m) (be_path e) = None \<and>
         (\<forall>k. k \<in> set (take (nat (bc_max cfg)) (List_backups vw cfg m)) \<longrightarrow> be_time e \<le> be_time k))"
proof (cases "e \<in> set (take (nat (bc_max cfg)) (List_backups vw cfg m))")
  case True
  with Prune_keeps[OF assms(1) True] show ?thesis by simp
next
  case False
  have "set (List_backups vw cfg m) = set (take (nat (bc_max cfg)) (List_backups vw cfg m)) \<union> set (drop (nat (bc_max cfg)) (List_backups vw cfg m))"
    by (metis append_take_drop_id set_append)
  with assms(2) False have d: "e \<in> set (drop (nat (bc_max cfg)) (List_backups vw cfg m))" by blast
  show ?thesis
  proof (cases "mc_hazards m = []")
    case True
    with Prune_drops[OF d] False show ?thesis by simp
  qed (use False in simp)
qed

text \<open>Two archives of which one may stay.\<close>

definition demo_old :: machine where
  "demo_old = (demo [])\<lparr> mc_tree := map_of
     [([''backup''], Folder), ([''backup'', ''s_backup_1.tar.gz''], Doc ''1'' 420), ([''backup'', ''s_backup_1.hash''], Doc ''1'' 420),
      ([''backup'', ''s_backup_2.tar.gz''], Doc ''2'' 420), ([''backup'', ''s_backup_2.hash''], Doc ''2'' 420)] \<rparr>"

definition demo_times :: view where
  "demo_times = demo_view\<lparr> vw_names := (\<lambda>_ _. [''s_backup_1.hash'', ''s_backup_1.tar.gz'', ''s_backup_2.hash'', ''s_backup_2.tar.gz'']),
     vw_mtime := (\<lambda>_ p. if p = [''backup'', ''s_backup_1.tar.gz''] then 5 else 9) \<rparr>"

definition demo_keep1 :: backup_config where
  "demo_keep1 = demo_config\<lparr> bc_service := ''s'', bc_max := 1 \<rparr>"

lemma retention_witness:
  "mc_tree (Prune_backups demo_times demo_keep1 demo_old) [''backup'', ''s_backup_1.tar.gz''] = None \<and>
   mc_tree (Prune_backups demo_times demo_keep1 demo_old) [''backup'', ''s_backup_2.tar.gz''] = Some (Doc ''2'' 420)"
proof -
  let ?e1 = "\<lparr> be_path = [''backup'', ''s_backup_1.tar.gz''], be_time = 5 \<rparr>" and ?e2 = "\<lparr> be_path = [''backup'', ''s_backup_2.tar.gz''], be_time = 9 \<rparr>"
  have l: "List_backups demo_times demo_keep1 demo_old = [?e2, ?e1]" by code_simp
  have d: "distinct (vw_names demo_times demo_old (dc_backup demo_keep1))" by (simp add: demo_times_def)
  have k: "nat (bc_max demo_keep1) = 1" "mc_hazards demo_old = []" by (simp_all add: demo_keep1_def demo_old_def demo_def)
  have m: "mc_tree demo_old [''backup'', ''s_backup_2.tar.gz''] = Some (Doc ''2'' 420)" by (simp add: demo_old_def)
  from retention[OF d, of ?e1] retention[OF d, of ?e2] show ?thesis by (simp add: l k m)
qed

text \<open>The installed cadence.  What \<^verbatim>\<open>InstalledCadence\<close> reads back from the unit that was written is the cadence the
  unit was written with, when the path of the executable is a plain word and no setting holds a line break.\<close>

theorem cadence_read_back:
  assumes "plain_word execPath" "in_int64 (bc_cadence cfg)"
    and "one_line (path_text (dc_backup cfg))" "one_line (path_text (dc_data cfg))" "one_line (bc_service cfg)" "one_line (bc_log cfg)"
  shows "ParseCadence (ServiceUnit cfg execPath) = (bc_cadence cfg, True)"
  by (rule ParseCadence_ServiceUnit[OF assms])

lemma cadence_read_back_witness: "ParseCadence (ServiceUnit demo_config ''/usr/local/bin/nomctl'') = (3, True)"
proof -
  have w: "plain_word ''/usr/local/bin/nomctl''" by code_simp
  have c: "in_int64 (bc_cadence demo_config)" "bc_cadence demo_config = 3" by (simp_all add: demo_config_def in_int64_def min_int64_def max_int64_def)
  have o: "one_line (path_text (dc_backup demo_config))" "one_line (path_text (dc_data demo_config))" "one_line (bc_service demo_config)" "one_line (bc_log demo_config)"
    by (simp_all add: demo_config_def one_line_def path_text_def)
  from cadence_read_back[OF w c(1) o] c(2) show ?thesis by simp
qed

text \<open>A path with a space is quoted twice.  For an executable whose path has a space, the unit's \<^verbatim>\<open>ExecStart\<close> begins
  with an escaped quote, which systemd takes as part of the name of a program: the timer cannot start the backup.\<close>

theorem spaced_path_quoted_twice:
  assumes "CHR '' '' \<in> set execPath"
  shows "\<exists>rest. exec_line cfg (quoted_exec execPath) = ''ExecStart='' @ [backslash, dquote] @ rest"
  by (rule spaced_exec_quoted_twice[OF assms])

lemma spaced_path_quoted_twice_witness:
  "\<exists>rest. exec_line demo_config (quoted_exec ''/opt/my tools/nomctl'') = ''ExecStart='' @ [backslash, dquote] @ rest"
  by (rule spaced_path_quoted_twice) simp

section \<open>Self update\<close>

text \<open>The order of releases.  A candidate is newer than what runs exactly if both parse and the parts of the one come before
  those of the other in the lexicographic order on lists; so it is a strict order, and total on releases with different parts.\<close>

theorem newer_lexicographic:
  "Newer candidate running \<longleftrightarrow> (\<exists>c r. ParseVersion candidate = Some c \<and> ParseVersion running = Some r \<and> r < c)"
proof -
  have "higher c r \<longleftrightarrow> r < c" if "length c = length r" for c r
    using that by (induction c r rule: list_induct2) auto
  then show ?thesis unfolding Newer_iff using ParseVersion_length by metis
qed

text \<open>C31. Only a listed release is installed.  A fetch that succeeds had the list of checksums and an archive whose digest is the
  one listed for this release, and what it leaves at the path it returns is the data of a file called \<^verbatim>\<open>nomctl\<close> in that
  archive.\<close>

theorem fetched_binary_listed:
  assumes "Fetch get sha untar goarch repo tag dir m = (Inr p, m')"
  shows "\<exists>sumfile archive es ends e mode.
    http_body get (''https://github.com/'' @ repo @ ''/releases/download/'' @ tag @ ''/checksums.txt'') = Some sumfile \<and>
    sha archive = listed (ReleaseName tag goarch) (split_on (CHR 0x0A) sumfile) [] \<and>
    untar archive = Stream es ends \<and> e \<in> set es \<and> path_base (te_name e) = ''nomctl'' \<and> mc_tree m' p = Some (Doc (te_data e) mode)"
  by (rule Fetch_got[OF assms])

definition demo_fetch :: "(update_error, path) result \<times> machine" where
  "demo_fetch = Fetch (\<lambda>u. Answer 200 3 (if has_suffix u ''.txt'' then ''digest  nomctl_1.2.3_linux_amd64.tar.gz'' else ''tgz'') True) (\<lambda>_. ''digest'')
     (\<lambda>_. Stream [demo_entry\<lparr> te_name := ''./nomctl'' \<rparr>] True) ''amd64'' ''o/r'' ''v1.2.3'' [''tmp''] (demo [])"

lemma fetched_binary_listed_witness: "\<exists>d mode. mc_tree (snd demo_fetch) [''tmp'', ''nomctl.new''] = Some (Doc d mode)"
proof -
  have "fst demo_fetch = Inr [''tmp'', ''nomctl.new'']" by code_simp
  then have run: "Fetch (\<lambda>u. Answer 200 3 (if has_suffix u ''.txt'' then ''digest  nomctl_1.2.3_linux_amd64.tar.gz'' else ''tgz'') True) (\<lambda>_. ''digest'')
     (\<lambda>_. Stream [demo_entry\<lparr> te_name := ''./nomctl'' \<rparr>] True) ''amd64'' ''o/r'' ''v1.2.3'' [''tmp''] (demo []) = (Inr [''tmp'', ''nomctl.new''], snd demo_fetch)"
    unfolding demo_fetch_def[symmetric] by (metis prod.collapse)
  from fetched_binary_listed[OF run] show ?thesis by blast
qed

text \<open>C39. Upgrade and back.  A replacement that fails, wherever it breaks off, leaves the installed binary; one that works installs
  the new bytes, and a rollback after it that works brings the old bytes back, while one that fails leaves the new ones.\<close>

theorem upgrade_and_back:
  assumes "Replace newb (u @ [n]) m = (e, m1)" "Rollback (u @ [n]) m1 = (e', m2)"
    and "newb \<notin> {u @ [n @ ''.previous''], u @ [n @ ''.staged'']}"
    and "mc_tree m (u @ [n]) = Some (Doc old mode)" "mc_tree m newb = Some (Doc new mode1)"
  shows "if e \<noteq> None then mc_tree m1 (u @ [n]) = Some (Doc old mode)
    else (\<exists>mode'. mc_tree m1 (u @ [n]) = Some (Doc new mode')) \<and>
         (if e' \<noteq> None then mc_tree m2 (u @ [n]) = mc_tree m1 (u @ [n]) else (\<exists>mode'. mc_tree m2 (u @ [n]) = Some (Doc old mode')))"
proof (cases "e = None")
  case False
  with Replace_spec(1)[OF assms(1,3)] assms(4) show ?thesis by simp
next
  case True
  from Replace_spec(2)[OF assms(1,3) True] assms(5) have new: "\<exists>mode'. mc_tree m1 (u @ [n]) = Some (Doc new mode')" by auto
  from Replace_spec(3)[OF assms(1,3) True assms(4)] obtain pm where pm: "mc_tree m1 (u @ [n @ ''.previous'']) = Some (Doc old pm)" by blast
  have returned: "\<exists>mode'. mc_tree m2 (u @ [n]) = Some (Doc old mode')" if "e' = None"
    using Rollback_spec(2)[OF assms(2) that] pm by auto
  show ?thesis using True new returned Rollback_spec(1)[OF assms(2)] by auto
qed

definition demo_replace :: "update_error option \<times> machine" where
  "demo_replace = Replace [''tmp'', ''nomctl.new''] ([''usr''] @ [''nomctl'']) (demo [])"

definition demo_rollback :: "update_error option \<times> machine" where
  "demo_rollback = Rollback ([''usr''] @ [''nomctl'']) (snd demo_replace)"

lemma upgrade_and_back_witness: "\<exists>mode. mc_tree (snd demo_rollback) [''usr'', ''nomctl''] = Some (Doc ''old'' mode)"
proof -
  have r: "fst demo_replace = None" "fst demo_rollback = None" by code_simp+
  have 1: "Replace [''tmp'', ''nomctl.new''] ([''usr''] @ [''nomctl'']) (demo []) = (fst demo_replace, snd demo_replace)" by (simp add: demo_replace_def)
  have 2: "Rollback ([''usr''] @ [''nomctl'']) (snd demo_replace) = (fst demo_rollback, snd demo_rollback)" by (simp add: demo_rollback_def)
  have 3: "[''tmp'', ''nomctl.new''] \<notin> {[''usr''] @ [''nomctl'' @ ''.previous''], [''usr''] @ [''nomctl'' @ ''.staged'']}" by simp
  have 4: "mc_tree (demo []) ([''usr''] @ [''nomctl'']) = Some (Doc ''old'' 493)" "mc_tree (demo []) [''tmp'', ''nomctl.new''] = Some (Doc ''new'' 493)"
    by (simp_all add: demo_def demo_tree_def)
  from upgrade_and_back[OF 1 2 3 4] r show ?thesis by simp
qed

section \<open>The producer key and the wallet\<close>


definition demo_crypto :: crypto where
  "demo_crypto = \<lparr> cr_dec_raw = (\<lambda>_. Some Map.empty), cr_enc_raw = (\<lambda>_. Some ''config''), cr_dec_section = (\<lambda>_. None), cr_enc_section = (\<lambda>_. Some ''section''),
     cr_open = (\<lambda>k pw. if k = pw then KeyOpens ''z1'' else KeyWrong), cr_new_key = Some \<rparr>"

definition demo_options :: setup_options where
  "demo_options = \<lparr> so_password = ''pw'', so_keep = None, so_ask = None \<rparr>"



text \<open>The configuration fits the key.  A new setup that succeeds leaves a configuration file whose producer section has the
  password with which the key file beside it opens, and the address it holds.\<close>

theorem setup_fits_key:
  assumes "new_setup cr data opts random now m = ((None, res), m')"
  shows "\<exists>pw raw s d mode k kmode. cr_enc_section cr (configured_key pw (sr_address res)) = Some s \<and> cr_enc_raw cr (raw(''Producer'' \<mapsto> s)) = Some d \<and>
     mc_tree m' (ConfigPath data) = Some (Doc (d @ [CHR 0x0A]) mode) \<and>
     mc_tree m' (KeyFilePath data) = Some (Doc k kmode) \<and> cr_open cr k pw = KeyOpens (sr_address res)"
  using new_setup_fits[OF assms] by metis

definition demo_new_setup :: "(producer_error option \<times> setup_result) \<times> machine" where
  "demo_new_setup = new_setup demo_crypto [''data''] (demo_options\<lparr> so_password := ''key'' \<rparr>) None 0 (demo [])"

lemma setup_fits_key_witness:
  "\<exists>pw k kmode. mc_tree (snd demo_new_setup) (KeyFilePath [''data'']) = Some (Doc k kmode) \<and> cr_open demo_crypto k pw = KeyOpens (sr_address (snd (fst demo_new_setup)))"
proof -
  have r: "fst (fst demo_new_setup) = None" by code_simp
  then have run: "new_setup demo_crypto [''data''] (demo_options\<lparr> so_password := ''key'' \<rparr>) None 0 (demo []) = ((None, snd (fst demo_new_setup)), snd demo_new_setup)"
    unfolding demo_new_setup_def[symmetric] by (metis prod.collapse)
  from setup_fits_key[OF run] show ?thesis by blast
qed

text \<open>C29. The wallet survives a restore.  Whatever the archive holds and whatever calls fail, the wallet directory and the
  configuration that were there are, at the end, whole in their place or whole in the safety directory; a restore that is
  refused, or reports that the previous files were put back, leaves them in their place.\<close>

theorem wallet_restore_keeps:
  assumes "Restore_wallet co cfg archive restartNode now rnd m = (r, m')"
    and "\<And>f. f \<in> {''wallet'', ''config.json''} \<Longrightarrow> (dc_data cfg @ [f]) \<parallel> RestoreDir cfg"
    and "(dc_data cfg @ [''.wallet-restore-'' @ rnd]) \<parallel> RestoreDir cfg"
    and "g \<in> {''wallet'', ''config.json''}" and "exists_at m (dc_data cfg @ [g])"
  shows "(wallet_says_kept r \<longrightarrow> kept (dc_data cfg) m m' g) \<and>
    (kept (dc_data cfg) m m' g \<or> kept_aside (dc_data cfg) (\<lambda>f. SafetyDir cfg now @ [f]) m m' g)"
  by (rule Restore_wallet_kept[OF assms])

definition demo_codec :: codec where
  "demo_codec = \<lparr> co_crypto = demo_crypto, co_pack = (\<lambda>_. None), co_untar = (\<lambda>_. Stream [demo_entry\<lparr> te_name := ''wallet/w'' \<rparr>] True),
     co_seal = (\<lambda>_ _. None), co_unseal = (\<lambda>_ _. NoMatch), co_sha = (\<lambda>_. ''digest'') \<rparr>"

text \<open>The rename that would install the file fails: the ninth call.\<close>

definition demo_wallet :: "wallet_result \<times> machine" where
  "demo_wallet = Restore_wallet demo_codec demo_config ''a'' True 0 ''7'' (demo (replicate 8 Fine @ [Refused]))"

lemma wallet_restore_keeps_witness:
  "fst demo_wallet = WalletPutBack (InstallWalletFailed ''wallet/w'') \<and> kept [''data''] (demo (replicate 8 Fine @ [Refused])) (snd demo_wallet) ''wallet''"
proof -
  let ?m = "demo (replicate 8 Fine @ [Refused])"
  have r: "fst demo_wallet = WalletPutBack (InstallWalletFailed ''wallet/w'')" by code_simp
  have run: "Restore_wallet demo_codec demo_config ''a'' True 0 ''7'' ?m = (fst demo_wallet, snd demo_wallet)" by (simp add: demo_wallet_def)
  have t: "exists_at ?m (dc_data demo_config @ [''wallet''])" by (simp add: exists_at_def demo_def demo_tree_def demo_config_def)
  have g: "''wallet'' \<in> {''wallet'', ''config.json''}" by simp
  have d: "dc_data demo_config = [''data'']" by (simp add: demo_config_def)
  note all = wallet_restore_keeps[OF run demo_apart(1) demo_apart(1) g t]
  have "wallet_says_kept (fst demo_wallet)" unfolding r wallet_says_kept_def by blast
  with all have "kept (dc_data demo_config) ?m (snd demo_wallet) ''wallet''" by blast
  with r show ?thesis unfolding d by blast
qed

end
