(* ===== verification/Node_Config.thy ===== *)
theory Node_Config
  imports Self_Update
begin

text \<open>
  The node's configuration, \<^verbatim>\<open>internal/nodeconfig\<close>: a document of raw JSON members that is read and changed by dotted keys, its
  validation against the schema, the atomic save with a backup, and the editing session.
\<close>

section \<open>Values\<close>

text \<open>
  A Go \<^verbatim>\<open>any\<close> as this package meets it: what JSON decodes to (no value, a boolean, a number, a string, a list, an object
  in the order of its keys), and the integers and string lists of defaults and parsed settings.
\<close>

datatype jvalue =
    VNil | VBool bool | VInt int | VStr string | VStrs "string list"
  | VNum float64 | VArr "jvalue list" | VObj "(string \<times> jvalue) list"

text \<open>\<^verbatim>\<open>fmt.Sprint\<close>; \<open>num\<close> is the shortest text of a number.\<close>

fun sprint :: "(float64 \<Rightarrow> string) \<Rightarrow> jvalue \<Rightarrow> string" where
  "sprint num VNil = ''<nil>''"
| "sprint num (VBool b) = (if b then ''true'' else ''false'')"
| "sprint num (VInt n) = show_int n"
| "sprint num (VStr s) = s"
| "sprint num (VStrs ss) = ''['' @ join_with '' '' ss @ '']''"
| "sprint num (VNum x) = num x"
| "sprint num (VArr vs) = ''['' @ join_with '' '' (map (sprint num) vs) @ '']''"
| "sprint num (VObj kvs) = ''map['' @ join_with '' '' (map (\<lambda>kv. fst kv @ '':'' @ sprint num (snd kv)) kvs) @ '']''"

text \<open>
  The JSON codec: an object with its members left raw (without duplicates), a value, a list of strings; the text of an object
  of raw members, plain and indented, and of a value.
\<close>

record json =
  js_object :: "bytes \<Rightarrow> (string \<times> bytes) list option"
  js_value :: "bytes \<Rightarrow> jvalue option"
  js_strings :: "bytes \<Rightarrow> string list option"
  js_render :: "(string \<times> bytes) list \<Rightarrow> bytes option"
  js_indent :: "(string \<times> bytes) list \<Rightarrow> bytes option"
  js_encode :: "jvalue \<Rightarrow> bytes option"

section \<open>The schema\<close>

datatype kind = KBool | KInt | KString | KList

fun kind_text :: "kind \<Rightarrow> string" where
  "kind_text KBool = ''bool''"
| "kind_text KInt = ''int''"
| "kind_text KString = ''string''"
| "kind_text KList = ''list''"

record setting =
  se_key :: string
  se_kind :: kind
  se_default :: jvalue
  se_help :: string
  se_reserved :: string

definition plain_setting :: "string \<Rightarrow> kind \<Rightarrow> jvalue \<Rightarrow> string \<Rightarrow> setting" where
  "plain_setting k t d h = \<lparr> se_key = k, se_kind = t, se_default = d, se_help = h, se_reserved = [] \<rparr>"

definition reserved_setting :: "string \<Rightarrow> kind \<Rightarrow> setting" where
  "reserved_setting k t = \<lparr> se_key = k, se_kind = t, se_default = VNil, se_help = [], se_reserved = ''pillar setup'' \<rparr>"

definition Schema :: "setting list" where
  "Schema =
     [plain_setting ''Name'' KString (VStr ''znn-node'') ''node name shown to peers'',
      plain_setting ''LogLevel'' KString (VStr ''info'') ''debug, info, warn, error or crit'',
      plain_setting ''DataPath'' KString (VStr []) ''data directory (default ~/.znn); leave unset'',
      plain_setting ''WalletPath'' KString (VStr []) ''wallet directory (default <DataPath>/wallet)'',
      plain_setting ''GenesisFile'' KString (VStr []) ''absolute path to a genesis file (embedded when unset)'',
      plain_setting ''RPC.EnableHTTP'' KBool (VBool True) ''serve JSON-RPC over HTTP'',
      plain_setting ''RPC.EnableWS'' KBool (VBool True) ''serve JSON-RPC over WebSocket'',
      plain_setting ''RPC.HTTPHost'' KString (VStr ''0.0.0.0'') ''HTTP bind address; 127.0.0.1 keeps it local'',
      plain_setting ''RPC.HTTPPort'' KInt (VInt 35997) ''HTTP port'',
      plain_setting ''RPC.WSHost'' KString (VStr ''0.0.0.0'') ''WebSocket bind address'',
      plain_setting ''RPC.WSPort'' KInt (VInt 35998) ''WebSocket port'',
      plain_setting ''RPC.Endpoints'' KList (VStrs []) ''extra API namespaces to expose'',
      plain_setting ''RPC.HTTPVirtualHosts'' KList (VStrs []) ''allowed Host headers'',
      plain_setting ''RPC.HTTPCors'' KList (VStrs [''*'']) ''allowed CORS origins'',
      plain_setting ''RPC.WSOrigins'' KList (VStrs [''*'']) ''allowed WebSocket origins'',
      plain_setting ''Net.ListenHost'' KString (VStr ''0.0.0.0'') ''P2P bind address'',
      plain_setting ''Net.ListenPort'' KInt (VInt 35995) ''P2P port; must be reachable from the Internet'',
      plain_setting ''Net.MinPeers'' KInt (VInt 8) ''peers to keep dialing towards'',
      plain_setting ''Net.MinConnectedPeers'' KInt (VInt 16) ''connected peers before the node stops dialing'',
      plain_setting ''Net.MaxPeers'' KInt (VInt 60) ''maximum peers'',
      plain_setting ''Net.MaxPendingPeers'' KInt (VInt 10) ''maximum handshakes in progress'',
      plain_setting ''Net.Seeders'' KList (VStrs []) (''seed nodes (enode URLs); empty uses go-zenon'' @ [CHR 0x27] @ ''s list''),
      reserved_setting ''Producer.Address'' KString,
      reserved_setting ''Producer.Index'' KInt,
      reserved_setting ''Producer.KeyFilePath'' KString,
      reserved_setting ''Producer.Password'' KString]"

definition Lookup_setting :: "string \<Rightarrow> setting option" where
  "Lookup_setting key = find (\<lambda>s. se_key s = key) Schema"

definition ReservedPrefix :: string where "ReservedPrefix = ''Producer.''"

definition IsReserved :: "string \<Rightarrow> bool" where
  "IsReserved key \<longleftrightarrow> key = ''Producer'' \<or> has_prefix key ReservedPrefix"

definition LogLevels :: "string list" where
  "LogLevels = [''debug'', ''dbug'', ''info'', ''warn'', ''error'', ''eror'', ''crit'']"

section \<open>Documents\<close>

text \<open>The members of the object in \<^verbatim>\<open>config.json\<close>, raw.\<close>

type_synonym document = "(string \<times> bytes) list"

datatype config_error =
    FileUnreadable | NotAnObject | SectionNotObject string | NotEncoded
  | WantsBool string string | WantsInt string string | WantsStrings string

definition split_key :: "string \<Rightarrow> string \<times> string" where
  "split_key key = (case cut_on (CHR ''.'') key of (a, b, found) \<Rightarrow> if found \<and> a \<noteq> [] then (a, b) else ([], key))"

definition is_null :: "bytes \<Rightarrow> bool" where "is_null raw \<longleftrightarrow> trim_space raw = ''null''"

definition Parse_doc :: "json \<Rightarrow> bytes \<Rightarrow> (config_error, document) result" where
  "Parse_doc j data =
     (if trim_space data = [] then Inr []
      else case js_object j data of None \<Rightarrow> Inl NotAnObject | Some d \<Rightarrow> Inr d)"

definition Load_doc :: "json \<Rightarrow> path \<Rightarrow> machine \<Rightarrow> (config_error, document) result \<times> machine" where
  "Load_doc j p m =
     (if \<not> exists_at m p then (Inr [], m)
      else case ReadFile p m of (None, m1) \<Rightarrow> (Inl FileUnreadable, m1) | (Some d, m1) \<Rightarrow> (Parse_doc j d, m1))"

text \<open>What a lookup gives: nothing there, an error with nothing there, a member that does not decode, or a value.\<close>

datatype got = Absent | NoSection string | Undecodable | Got jvalue

definition Get :: "json \<Rightarrow> document \<Rightarrow> string \<Rightarrow> got" where
  "Get j d key =
     (case split_key key of (sect, field) \<Rightarrow>
      let decoded = (\<lambda>r. case r of None \<Rightarrow> Absent | Some raw \<Rightarrow> (case js_value j raw of None \<Rightarrow> Undecodable | Some v \<Rightarrow> Got v)) in
      if sect = [] then decoded (map_of d field)
      else case map_of d sect of
        None \<Rightarrow> Absent
      | Some sec \<Rightarrow>
          if is_null sec then Absent
          else case js_object j sec of None \<Rightarrow> NoSection sect | Some ms \<Rightarrow> decoded (map_of ms field))"

fun got_value :: "got \<Rightarrow> jvalue" where
  "got_value (Got v) = v"
| "got_value _ = VNil"

fun got_present :: "got \<Rightarrow> bool" where
  "got_present (Got v) = True"
| "got_present Undecodable = True"
| "got_present _ = False"

text \<open>The members of a section, none when it is missing or null.\<close>

definition section_members :: "json \<Rightarrow> document \<Rightarrow> string \<Rightarrow> (config_error, document) result" where
  "section_members j d sect =
     (case map_of d sect of
        None \<Rightarrow> Inr []
      | Some sec \<Rightarrow> if is_null sec then Inr [] else (case js_object j sec of None \<Rightarrow> Inl (SectionNotObject sect) | Some ms \<Rightarrow> Inr ms))"

definition Set_key :: "json \<Rightarrow> string \<Rightarrow> jvalue \<Rightarrow> document \<Rightarrow> (config_error, document) result" where
  "Set_key j key v d =
     (case split_key key of (sect, field) \<Rightarrow>
      case js_encode j v of
        None \<Rightarrow> Inl NotEncoded
      | Some enc \<Rightarrow>
          if sect = [] then Inr (AList.update field enc d)
          else case section_members j d sect of
            Inl e \<Rightarrow> Inl e
          | Inr ms \<Rightarrow> (case js_render j (AList.update field enc ms) of None \<Rightarrow> Inl NotEncoded | Some sec \<Rightarrow> Inr (AList.update sect sec d)))"

definition Unset_key :: "json \<Rightarrow> string \<Rightarrow> document \<Rightarrow> (config_error, document) result" where
  "Unset_key j key d =
     (case split_key key of (sect, field) \<Rightarrow>
      if sect = [] then Inr (AList.delete field d)
      else case map_of d sect of
        None \<Rightarrow> Inr d
      | Some sec \<Rightarrow>
          if is_null sec then Inr d
          else case js_object j sec of
            None \<Rightarrow> Inl (SectionNotObject sect)
          | Some ms \<Rightarrow>
              let ms' = AList.delete field ms in
              if ms' = [] then Inr (AList.delete sect d)
              else (case js_render j ms' of None \<Rightarrow> Inl NotEncoded | Some s \<Rightarrow> Inr (AList.update sect s d)))"

definition member_keys :: "json \<Rightarrow> string \<times> bytes \<Rightarrow> string list" where
  "member_keys j nr =
     (case nr of (name, raw) \<Rightarrow>
      if \<not> is_null raw \<and> js_object j raw \<noteq> None \<and> (name = ''RPC'' \<or> name = ''Net'' \<or> name = ''Producer'')
      then map (\<lambda>(f, r). name @ ''.'' @ f) (the (js_object j raw)) else [name])"

definition Keys_doc :: "json \<Rightarrow> document \<Rightarrow> string list" where
  "Keys_doc j d = sort (concat (map (member_keys j) d))"

definition Bytes_doc :: "json \<Rightarrow> document \<Rightarrow> bytes option" where
  "Bytes_doc j d = map_option (\<lambda>b. b @ [CHR 0x0A]) (js_indent j d)"

section \<open>Texts and values\<close>

definition ParseValue :: "json \<Rightarrow> setting \<Rightarrow> string \<Rightarrow> (config_error, jvalue) result" where
  "ParseValue j s txt0 =
     (let t = trim_space txt0 in
      case se_kind s of
        KBool \<Rightarrow>
          if to_lower t \<in> {''true'', ''yes'', ''on'', ''1''} then Inr (VBool True)
          else if to_lower t \<in> {''false'', ''no'', ''off'', ''0''} then Inr (VBool False)
          else Inl (WantsBool (se_key s) t)
      | KInt \<Rightarrow> (case parse_int t of None \<Rightarrow> Inl (WantsInt (se_key s) t) | Some n \<Rightarrow> Inr (VInt n))
      | KList \<Rightarrow>
          if has_prefix t ''['' then (case js_strings j t of None \<Rightarrow> Inl (WantsStrings (se_key s)) | Some l \<Rightarrow> Inr (VStrs l))
          else if t = [] then Inr (VStrs [])
          else Inr (VStrs (map trim_space (split_on (CHR '','') t)))
      | KString \<Rightarrow> Inr (VStr t))"

text \<open>The value in force, and whether it is from the file.\<close>

definition Effective :: "json \<Rightarrow> document \<Rightarrow> setting \<Rightarrow> jvalue \<times> bool" where
  "Effective j d s = (case Get j d (se_key s) of Got v \<Rightarrow> (v, True) | _ \<Rightarrow> (se_default s, False))"

definition whole :: "float64 \<Rightarrow> bool" where "whole x \<longleftrightarrow> f_of_int (f_to_int64 x) = x"

fun Format_value :: "(float64 \<Rightarrow> string) \<Rightarrow> jvalue \<Rightarrow> string" where
  "Format_value num VNil = []"
| "Format_value num (VStrs ss) = join_with '','' ss"
| "Format_value num (VArr vs) = join_with '','' (map (sprint num) vs)"
| "Format_value num (VNum x) = (if whole x then show_int (f_to_int64 x) else num x)"
| "Format_value num v = sprint num v"

section \<open>Validation\<close>

datatype problem =
    SectionBad string | MemberBad string
  | MustBool string | MustInt string | MustPort string | MustNotNegative string | MaxBelowMin
  | MustString string | BadLevel | MustNotEmpty string | MustList string | MustStrings string
  | UnknownKey string

definition check_int :: "json \<Rightarrow> setting \<Rightarrow> float64 \<Rightarrow> document \<Rightarrow> problem option" where
  "check_int j s x d =
     (let n = f_to_int64 x in
      if has_suffix (se_key s) ''Port'' \<and> (n < 1 \<or> n > 65535) then Some (MustPort (se_key s))
      else if \<not> has_suffix (se_key s) ''Port'' \<and> (has_prefix (se_key s) ''Net.'' \<or> se_key s = ''Producer.Index'') \<and> n < 0
        then Some (MustNotNegative (se_key s))
      else if se_key s = ''Net.MaxPeers'' then
        (case Get j d ''Net.MinPeers'' of Got (VNum mf) \<Rightarrow> if f_lt (f_of_int n) mf then Some MaxBelowMin else None | _ \<Rightarrow> None)
      else None)"

definition check_string :: "setting \<Rightarrow> string \<Rightarrow> problem option" where
  "check_string s str =
     (if se_key s = ''LogLevel'' \<and> str \<notin> set LogLevels then Some BadLevel
      else if se_key s \<in> {''RPC.HTTPHost'', ''RPC.WSHost'', ''Net.ListenHost''} \<and> trim_space str = [] then Some (MustNotEmpty (se_key s))
      else None)"

definition is_str :: "jvalue \<Rightarrow> bool" where "is_str v = (case v of VStr _ \<Rightarrow> True | _ \<Rightarrow> False)"

definition checkValue :: "json \<Rightarrow> setting \<Rightarrow> jvalue \<Rightarrow> document \<Rightarrow> problem option" where
  "checkValue j s v d =
     (case se_kind s of
        KBool \<Rightarrow> (case v of VBool _ \<Rightarrow> None | _ \<Rightarrow> Some (MustBool (se_key s)))
      | KInt \<Rightarrow> (case v of VNum x \<Rightarrow> if \<not> whole x then Some (MustInt (se_key s)) else check_int j s x d | _ \<Rightarrow> Some (MustInt (se_key s)))
      | KString \<Rightarrow> (case v of VStr str \<Rightarrow> check_string s str | _ \<Rightarrow> Some (MustString (se_key s)))
      | KList \<Rightarrow> (case v of VArr vs \<Rightarrow> if list_all is_str vs then None else Some (MustStrings (se_key s)) | _ \<Rightarrow> Some (MustList (se_key s))))"

definition section_problems :: "json \<Rightarrow> document \<Rightarrow> problem list" where
  "section_problems j d =
     concat (map (\<lambda>name. case map_of d name of
         None \<Rightarrow> []
       | Some raw \<Rightarrow> if is_null raw then [] else if js_object j raw = None then [SectionBad name] else [])
       [''RPC'', ''Net'', ''Producer''])"

definition key_problems :: "json \<Rightarrow> document \<Rightarrow> string \<Rightarrow> problem list" where
  "key_problems j d key =
     (case Lookup_setting key of
        None \<Rightarrow> []
      | Some s \<Rightarrow>
          (case Get j d key of
             NoSection _ \<Rightarrow> [MemberBad key]
           | Undecodable \<Rightarrow> [MemberBad key]
           | g \<Rightarrow> (case checkValue j s (got_value g) d of None \<Rightarrow> [] | Some p \<Rightarrow> [p])))"

definition Validate_doc :: "json \<Rightarrow> document \<Rightarrow> problem list" where
  "Validate_doc j d = section_problems j d @ concat (map (key_problems j d) (Keys_doc j d))"

definition UnknownKeys :: "json \<Rightarrow> document \<Rightarrow> string list" where
  "UnknownKeys j d = filter (\<lambda>k. Lookup_setting k = None) (Keys_doc j d)"

definition ValidateStrict :: "json \<Rightarrow> document \<Rightarrow> problem list" where
  "ValidateStrict j d = Validate_doc j d @ map UnknownKey (UnknownKeys j d)"

section \<open>Saving\<close>

datatype save_error =
    Invalid "problem list" | NotRendered | NoConfigDir | TooManyBackups | BackupNotWritten | TmpNotWritten | TmpNotRenamed

text \<open>The first name that is free, of a hundred.\<close>

definition backup_names :: "path \<Rightarrow> time \<Rightarrow> path list" where
  "backup_names p now =
     (let base = ''.bak.'' @ show_int (unix_of now) in
      beside p base # map (\<lambda>n. beside p (base @ ''-'' @ show_int (int n))) [1..<100])"

definition backupName :: "path \<Rightarrow> time \<Rightarrow> machine \<Rightarrow> path option" where
  "backupName p now m = find (\<lambda>n. \<not> exists_at m n) (backup_names p now)"

definition replace_config :: "path \<Rightarrow> bytes \<Rightarrow> path option \<Rightarrow> machine \<Rightarrow> (save_error option \<times> path option) \<times> machine" where
  "replace_config p data bk m =
     (case WriteOver (beside p ''.tmp'') 384 data m of (ok, m1) \<Rightarrow>
      if \<not> ok then ((Some TmpNotWritten, bk), m1)
      else case Rename (beside p ''.tmp'') p m1 of (ok2, m2) \<Rightarrow>
        if \<not> ok2 then ((Some TmpNotRenamed, bk), snd (RemoveFile (beside p ''.tmp'') m2)) else ((None, bk), m2))"

definition SaveUnchecked :: "json \<Rightarrow> path \<Rightarrow> document \<Rightarrow> time \<Rightarrow> machine \<Rightarrow> (save_error option \<times> path option) \<times> machine" where
  "SaveUnchecked j p d now m =
     (case Bytes_doc j d of
        None \<Rightarrow> ((Some NotRendered, None), m)
      | Some data \<Rightarrow>
          (case MkdirAll (up p) m of (ok, m1) \<Rightarrow>
           if \<not> ok then ((Some NoConfigDir, None), m1)
           else case ReadFile p m1 of
             (None, m2) \<Rightarrow> replace_config p data None m2
           | (Some current, m2) \<Rightarrow>
               (case backupName p now m2 of
                  None \<Rightarrow> ((Some TooManyBackups, None), m2)
                | Some bk \<Rightarrow>
                    (case WriteOver bk 384 current m2 of (ok3, m3) \<Rightarrow>
                     if \<not> ok3 then ((Some BackupNotWritten, None), m3) else replace_config p data (Some bk) m3))))"

definition Save_doc :: "json \<Rightarrow> path \<Rightarrow> document \<Rightarrow> time \<Rightarrow> machine \<Rightarrow> (save_error option \<times> path option) \<times> machine" where
  "Save_doc j p d now m =
     (if Validate_doc j d \<noteq> [] then ((Some (Invalid (Validate_doc j d)), None), m) else SaveUnchecked j p d now m)"

section \<open>Editing\<close>

text \<open>The reserved keys of either document whose values differ.\<close>

definition reserved_changed :: "json \<Rightarrow> (float64 \<Rightarrow> string) \<Rightarrow> document \<Rightarrow> document \<Rightarrow> string list" where
  "reserved_changed j num old edited =
     filter (\<lambda>k. IsReserved k \<and>
         (got_present (Get j old k) \<noteq> got_present (Get j edited k) \<or>
          sprint num (got_value (Get j old k)) \<noteq> sprint num (got_value (Get j edited k))))
       (Keys_doc j old @ Keys_doc j edited)"

definition reservedUnchanged :: "json \<Rightarrow> (float64 \<Rightarrow> string) \<Rightarrow> bytes \<Rightarrow> document \<Rightarrow> bool" where
  "reservedUnchanged j num original edited =
     (case Parse_doc j original of Inl e \<Rightarrow> True | Inr old \<Rightarrow> reserved_changed j num old edited = [])"

datatype edit_result =
    EditSaved "path option"
  | EditUnchanged
  | EditAborted
  | EditFailed "save_error option"

text \<open>
  One round of the user: whether the editor ended well, what it leaves in the copy (nothing if it removed the file), and the
  answer to the question whether to try again (none if the question fails).
\<close>

record edit_round =
  er_ok :: bool
  er_leaves :: "bytes option"
  er_again :: "bool option"

text \<open>The rounds; with none left the session is still open.\<close>

fun edit_rounds :: "json \<Rightarrow> (float64 \<Rightarrow> string) \<Rightarrow> path \<Rightarrow> path \<Rightarrow> bytes \<Rightarrow> time \<Rightarrow> edit_round list \<Rightarrow> machine \<Rightarrow> edit_result option \<times> machine" where
  "edit_rounds j num p copy original now [] m = (None, m)"
| "edit_rounds j num p copy original now (r # rs) m =
     (let m1 = put copy (map_option (\<lambda>d. Doc d 384) (er_leaves r)) m in
      if \<not> er_ok r then (Some (EditFailed None), m1)
      else case ReadFile copy m1 of
        (None, m2) \<Rightarrow> (Some (EditFailed None), m2)
      | (Some edited, m2) \<Rightarrow>
          if edited = original then (Some EditUnchanged, m2)
          else
            let good = (case Parse_doc j edited of Inl e \<Rightarrow> None
                        | Inr doc \<Rightarrow> if ValidateStrict j doc = [] \<and> reservedUnchanged j num original doc then Some doc else None) in
            case good of
              Some doc \<Rightarrow>
                (case Save_doc j p doc now m2 of
                   ((Some e, _), m3) \<Rightarrow> (Some (EditFailed (Some e)), m3)
                 | ((None, bk), m3) \<Rightarrow> (Some (EditSaved bk), m3))
            | None \<Rightarrow>
                (case er_again r of
                   None \<Rightarrow> (Some (EditFailed None), m2)
                 | Some False \<Rightarrow> (Some EditAborted, m2)
                 | Some True \<Rightarrow> edit_rounds j num p copy original now rs m2))"

text \<open>The bytes the session starts from; \<open>rnd\<close> names the directory of the copy.\<close>

definition edit_session :: "json \<Rightarrow> (float64 \<Rightarrow> string) \<Rightarrow> path \<Rightarrow> bytes \<Rightarrow> time \<Rightarrow> string \<Rightarrow> edit_round list \<Rightarrow> machine \<Rightarrow> edit_result option \<times> machine" where
  "edit_session j num p original now rnd rs m =
     (let dir = up p @ [''.config-edit-'' @ rnd]; copy = dir @ [''config.json''] in
      case MkdirAll (up p) m of (ok1, m1) \<Rightarrow>
      if \<not> ok1 then (Some (EditFailed None), m1)
      else case MkdirNew dir m1 of (ok2, m2) \<Rightarrow>
        if \<not> ok2 then (Some (EditFailed None), m2)
        else case (case WriteOver copy 384 original m2 of (ok3, m3) \<Rightarrow>
            if \<not> ok3 then (Some (EditFailed None), m3) else edit_rounds j num p copy original now rs m3) of
          (r, m4) \<Rightarrow> (r, if r = None then m4 else snd (RemoveAll dir m4)))"

definition edited_original :: "bytes \<Rightarrow> bytes" where
  "edited_original d = (if trim_space d = [] then ''{'' @ nl @ ''}'' @ nl else d)"

definition Edit :: "json \<Rightarrow> (float64 \<Rightarrow> string) \<Rightarrow> path \<Rightarrow> time \<Rightarrow> string \<Rightarrow> edit_round list \<Rightarrow> machine \<Rightarrow> edit_result option \<times> machine" where
  "Edit j num p now rnd rs m =
     (if \<not> exists_at m p then edit_session j num p (edited_original []) now rnd rs m
      else case ReadFile p m of
        (None, m1) \<Rightarrow> (Some (EditFailed None), m1)
      | (Some d, m1) \<Rightarrow> edit_session j num p (edited_original d) now rnd rs m1)"

text \<open>The editor to run, from \<^verbatim>\<open>VISUAL\<close> and \<^verbatim>\<open>EDITOR\<close>.\<close>

definition EditorCommand :: "(string \<Rightarrow> string) \<Rightarrow> string list" where
  "EditorCommand env =
     (case find (\<lambda>v. trim_space (env v) \<noteq> []) [''VISUAL'', ''EDITOR''] of
        None \<Rightarrow> [''nano''] | Some v \<Rightarrow> str_fields (trim_space (env v)))"

section \<open>What is saved\<close>

lemma replace_config_spec:
  assumes "replace_config (u @ [n]) d bk m = ((e, bk'), m')"
  shows "bk' = bk" "e \<noteq> None \<Longrightarrow> mc_tree m' (u @ [n]) = mc_tree m (u @ [n])"
    "e = None \<Longrightarrow> \<exists>mode. mc_tree m' (u @ [n]) = Some (Doc d mode)"
    "\<not> prefix (u @ [n]) x \<Longrightarrow> \<not> prefix (u @ [n @ ''.tmp'']) x \<Longrightarrow> mc_tree m' x = mc_tree m x"
proof -
  let ?t = "u @ [n @ ''.tmp'']"
  obtain ok m1 where 1: "WriteOver ?t 384 d m = (ok, m1)" by (cases "WriteOver ?t 384 d m")
  obtain ok2 m2 where 2: "Rename ?t (u @ [n]) m1 = (ok2, m2)" by (cases "Rename ?t (u @ [n]) m1")
  obtain ok3 m3 where 3: "RemoveFile ?t m2 = (ok3, m3)" by (cases "RemoveFile ?t m2")
  note run = assms[unfolded replace_config_def beside_snoc 1 2 3 prod.case snd_conv]
  have o1: "mc_tree m1 x = mc_tree m x" if "x \<noteq> ?t" for x using WriteOver_tree[OF 1 that] .
  have o3: "mc_tree m3 x = mc_tree m2 x" if "x \<noteq> ?t" for x using RemoveFile_tree[OF 3 that] .
  show "bk' = bk" using run by (auto split: if_splits)
  show "mc_tree m' (u @ [n]) = mc_tree m (u @ [n])" if "e \<noteq> None"
  proof (cases ok)
    case True
    with run that have f: "ok2 = False" "m' = m3" by (auto split: if_splits)
    with o1[of "u @ [n]"] o3[of "u @ [n]"] Rename_failed[OF 2[unfolded f(1)]] show ?thesis by simp
  next
    case False
    with run o1[of "u @ [n]"] show ?thesis by simp
  qed
  show "\<exists>mode. mc_tree m' (u @ [n]) = Some (Doc d mode)" if "e = None"
  proof -
    from run that have ok: "ok" "ok2" "m' = m2" by (auto split: if_splits)
    have "\<not> prefix (u @ [n]) ?t" by simp
    from Rename_ok(1)[OF 2[unfolded eqTrueI[OF ok(2)]] this, of "[]"] have "mc_tree m2 (u @ [n]) = mc_tree m1 ?t" by simp
    moreover have "\<exists>mode. mc_tree m1 ?t = Some (Doc d mode)"
      using 1 ok(1) by (auto simp: WriteOver_def split: prod.splits if_splits hazard.splits)
    ultimately show ?thesis using ok(3) by simp
  qed
  show "mc_tree m' x = mc_tree m x" if "\<not> prefix (u @ [n]) x" "\<not> prefix ?t x"
  proof -
    have x: "x \<noteq> ?t" using that by auto
    from Rename_tree[OF 2 that(2,1)] o1[OF x] o3[OF x] run show ?thesis by (auto split: if_splits)
  qed
qed

lemma backup_names_free:
  assumes "backupName (u @ [n]) now m = Some bk"
  shows "\<not> exists_at m bk" "\<exists>k. bk = u @ [n @ ''.bak.'' @ k]"
proof -
  from assms obtain i where i: "i < length (backup_names (u @ [n]) now)" "bk = backup_names (u @ [n]) now ! i" "\<not> exists_at m bk"
    by (auto simp: backupName_def find_Some_iff)
  from i(3) show "\<not> exists_at m bk" .
  from i(1,2) have "bk \<in> set (backup_names (u @ [n]) now)" by simp
  then show "\<exists>k. bk = u @ [n @ ''.bak.'' @ k]" by (auto simp: backup_names_def Let_def beside_snoc)
qed

lemma SaveUnchecked_cases:
  assumes run: "SaveUnchecked j (u @ [n]) d now m = ((e, bk), m')"
  obtains (refused) "e \<noteq> None" "mc_tree m' (u @ [n]) = mc_tree m (u @ [n])"
  | (plain) data m2 where "Bytes_doc j d = Some data" "mc_tree m2 (u @ [n]) = mc_tree m (u @ [n])" "replace_config (u @ [n]) data None m2 = ((e, bk), m')"
      "\<And>old mode. mc_tree m (u @ [n]) = Some (Doc old mode) \<Longrightarrow> mc_hazards m \<noteq> []"
  | (saved) data cur mode k mode' m3 where "Bytes_doc j d = Some data" "mc_tree m (u @ [n]) = Some (Doc cur mode)" "mc_tree m (u @ [n @ ''.bak.'' @ k]) = None"
      "mc_tree m3 (u @ [n @ ''.bak.'' @ k]) = Some (Doc cur mode')" "mc_tree m3 (u @ [n]) = mc_tree m (u @ [n])"
      "replace_config (u @ [n]) data (Some (u @ [n @ ''.bak.'' @ k])) m3 = ((e, bk), m')"
proof -
  have up: "up (u @ [n]) = u" by (simp add: up_def)
  show ?thesis
  proof (cases "Bytes_doc j d")
    case None
    with run show ?thesis by (intro refused) (auto simp: SaveUnchecked_def)
  next
    case (Some data)
    obtain ok m1 where 1: "MkdirAll u m = (ok, m1)" by (cases "MkdirAll u m")
    obtain cur m2 where 2: "ReadFile (u @ [n]) m1 = (cur, m2)" by (cases "ReadFile (u @ [n]) m1")
    have t1: "mc_tree m1 (u @ y) = mc_tree m (u @ y)" if "y \<noteq> []" for y
      using MkdirAll_tree[OF 1, of "u @ y"] that by auto
    have t2: "mc_tree m2 = mc_tree m1" using ReadFile_same[OF 2] by blast
    have same: "mc_tree m2 (u @ [n]) = mc_tree m (u @ [n])" using t1[of "[n]"] t2 by simp
    note run = run[unfolded SaveUnchecked_def Some option.case up 1 prod.case 2]
    show ?thesis
    proof (cases ok)
      case False
      with run show ?thesis using t1[of "[n]"] by (intro refused) auto
    next
      case ok: True
      show ?thesis
      proof (cases cur)
        case None
        have "mc_hazards m \<noteq> []" if "mc_tree m (u @ [n]) = Some (Doc old mode)" for old mode
        proof
          assume "mc_hazards m = []"
          then have "mc_hazards m1 = []" using MkdirAll_same[OF 1] by (simp add: host_same_def)
          with 2 None that t1[of "[n]"] show False by (auto simp: ReadFile_def next_hazard_def)
        qed
        with run ok None same Some show ?thesis by (intro plain) auto
      next
        case c: (Some current)
        with 2 obtain mode where old: "mc_tree m (u @ [n]) = Some (Doc current mode)"
          using t1[of "[n]"] by (auto simp: ReadFile_def dest!: next_hazardD(1) split: prod.splits option.splits inode.splits if_splits)
        show ?thesis
        proof (cases "backupName (u @ [n]) now m2")
          case None
          with run ok c same show ?thesis by (intro refused) auto
        next
          case b: (Some b)
          from backup_names_free[OF b] obtain k where k: "b = u @ [n @ ''.bak.'' @ k]" "\<not> exists_at m2 b" by blast
          then have free: "mc_tree m b = None" using t1[of "[n @ ''.bak.'' @ k]"] t2 by (simp add: exists_at_def)
          obtain ok3 m3 where 3: "WriteOver b 384 current m2 = (ok3, m3)" by (cases "WriteOver b 384 current m2")
          have t3: "mc_tree m3 (u @ [n]) = mc_tree m (u @ [n])" using WriteOver_tree[OF 3, of "u @ [n]"] same k(1) by simp
          note run = run[unfolded c option.case b 3 prod.case]
          show ?thesis
          proof (cases ok3)
            case False
            with run ok t3 show ?thesis by (intro refused) auto
          next
            case True
            with 3 obtain mode' where "mc_tree m3 b = Some (Doc current mode')"
              by (auto simp: WriteOver_def split: prod.splits if_splits hazard.splits)
            with run ok True Some old free t3 k(1) show ?thesis by (intro saved) auto
          qed
        qed
      qed
    qed
  qed
qed

lemma SaveUnchecked_spec:
  assumes run: "SaveUnchecked j (u @ [n]) d now m = ((e, bk), m')"
  shows "e \<noteq> None \<Longrightarrow> mc_tree m' (u @ [n]) = mc_tree m (u @ [n])"
    "e = None \<Longrightarrow> \<exists>data mode. Bytes_doc j d = Some data \<and> mc_tree m' (u @ [n]) = Some (Doc data mode)"
    "e = None \<Longrightarrow> bk = Some b \<Longrightarrow> mc_tree m b = None \<and> (\<exists>old mode mode'. mc_tree m (u @ [n]) = Some (Doc old mode) \<and> mc_tree m' b = Some (Doc old mode'))"
    "e = None \<Longrightarrow> mc_tree m (u @ [n]) = Some (Doc old mode) \<Longrightarrow> bk = None \<Longrightarrow> mc_hazards m \<noteq> []"
proof -
  show "e \<noteq> None \<Longrightarrow> mc_tree m' (u @ [n]) = mc_tree m (u @ [n])"
    using run by (cases rule: SaveUnchecked_cases) (auto dest: replace_config_spec(2))
  show "e = None \<Longrightarrow> \<exists>data mode. Bytes_doc j d = Some data \<and> mc_tree m' (u @ [n]) = Some (Doc data mode)"
    using run by (cases rule: SaveUnchecked_cases) (auto dest: replace_config_spec(3))
  show "e = None \<Longrightarrow> mc_tree m (u @ [n]) = Some (Doc old mode) \<Longrightarrow> bk = None \<Longrightarrow> mc_hazards m \<noteq> []"
    using run by (cases rule: SaveUnchecked_cases) (auto dest: replace_config_spec(1))
  assume e: "e = None" "bk = Some b"
  from run show "mc_tree m b = None \<and> (\<exists>old mode mode'. mc_tree m (u @ [n]) = Some (Doc old mode) \<and> mc_tree m' b = Some (Doc old mode'))"
  proof (cases rule: SaveUnchecked_cases)
    case refused
    with e show ?thesis by simp
  next
    case (plain data m2)
    with e replace_config_spec(1)[OF plain(3)] show ?thesis by simp
  next
    case (saved data cur mode k mode' m3)
    have b: "b = u @ [n @ ''.bak.'' @ k]" using replace_config_spec(1)[OF saved(6)] e by simp
    have "mc_tree m' b = mc_tree m3 b" unfolding b by (rule replace_config_spec(4)[OF saved(6)]) simp_all
    with saved b show ?thesis by simp
  qed
qed

section \<open>What validation means\<close>

lemma split_keyD: "split_key k = (a, b) \<Longrightarrow> (a = [] \<and> k = b) \<or> (a \<noteq> [] \<and> k = a @ CHR ''.'' # b)"
proof -
  assume s: "split_key k = (a, b)"
  obtain p q f where c: "cut_on (CHR ''.'') k = (p, q, f)" by (metis prod_cases3)
  show ?thesis
  proof (cases "f \<and> p \<noteq> []")
    case True
    then obtain i where i: "index_byte k (CHR ''.'') = Some i" "p = take i k" "q = drop (Suc i) k" using c by (auto simp: cut_on_def split: option.splits)
    from index_byte_Some[OF i(1)] i(2,3) have "k = p @ CHR ''.'' # q" by (metis id_take_nth_drop)
    with True s c show ?thesis by (simp add: split_key_def)
  qed (use s c in \<open>simp add: split_key_def split: if_splits\<close>)
qed

text \<open>A key of the schema that has a value is among the keys of the document.\<close>

lemma schema_sections: "Lookup_setting k = Some s \<Longrightarrow> fst (split_key k) \<in> {[], ''RPC'', ''Net'', ''Producer''} \<and> (fst (split_key k) = [] \<longrightarrow> k \<notin> {''RPC'', ''Net'', ''Producer''}) \<and> se_key s = k"
proof -
  assume l: "Lookup_setting k = Some s"
  then have "s \<in> set Schema" "se_key s = k" by (auto simp: Lookup_setting_def find_Some_iff in_set_conv_nth)
  moreover have "list_all (\<lambda>s. fst (split_key (se_key s)) \<in> {[], ''RPC'', ''Net'', ''Producer''} \<and>
      (fst (split_key (se_key s)) = [] \<longrightarrow> se_key s \<notin> {''RPC'', ''Net'', ''Producer''})) Schema" by code_simp
  ultimately show ?thesis by (auto simp: list_all_iff)
qed

lemma Get_in_Keys:
  assumes "Get j d k = Got v" "Lookup_setting k = Some s"
  shows "k \<in> set (Keys_doc j d)"
proof -
  obtain a b where ab: "split_key k = (a, b)" by (cases "split_key k")
  note sc = schema_sections[OF assms(2), unfolded ab fst_conv]
  have "\<exists>nr \<in> set d. k \<in> set (member_keys j nr)"
  proof (cases "a = []")
    case True
    with split_keyD[OF ab] have kb: "k = b" by simp
    from ab True kb have "split_key k = ([], k)" by simp
    with assms(1) obtain raw where "map_of d k = Some raw" unfolding Get_def by (auto split: option.splits)
    then have "(k, raw) \<in> set d" by (rule map_of_SomeD)
    moreover have "k \<in> set (member_keys j (k, raw))" using sc True by (simp add: member_keys_def)
    ultimately show ?thesis by blast
  next
    case False
    with split_keyD[OF ab] have k: "k = a @ CHR ''.'' # b" by simp
    from assms(1) False obtain sec ms raw where g: "map_of d a = Some sec" "\<not> is_null sec" "js_object j sec = Some ms" "map_of ms b = Some raw"
      unfolding Get_def ab by (auto split: option.splits if_splits)
    from g(1) have "(a, sec) \<in> set d" by (rule map_of_SomeD)
    moreover from map_of_SomeD[OF g(4)] have "k \<in> (\<lambda>(f, r). a @ ''.'' @ f) ` set ms" unfolding k by force
    with g sc False have "k \<in> set (member_keys j (a, sec))" by (simp add: member_keys_def)
    ultimately show ?thesis by blast
  qed
  then show ?thesis by (auto simp: Keys_doc_def)
qed

text \<open>What a value of a setting has to be.\<close>

fun proper :: "setting \<Rightarrow> jvalue \<Rightarrow> bool" where
  "proper s v =
     (case se_kind s of
        KBool \<Rightarrow> (\<exists>b. v = VBool b)
      | KInt \<Rightarrow> (\<exists>n. v = VNum (f_of_int n) \<and> (has_suffix (se_key s) ''Port'' \<longrightarrow> 1 \<le> n \<and> n \<le> 65535) \<and>
           (has_prefix (se_key s) ''Net.'' \<or> se_key s = ''Producer.Index'' \<longrightarrow> 0 \<le> n))
      | KString \<Rightarrow> (\<exists>str. v = VStr str \<and> (se_key s = ''LogLevel'' \<longrightarrow> str \<in> set LogLevels) \<and>
           (se_key s \<in> {''RPC.HTTPHost'', ''RPC.WSHost'', ''Net.ListenHost''} \<longrightarrow> trim_space str \<noteq> []))
      | KList \<Rightarrow> (\<exists>ss. v = VArr (map VStr ss)))"

lemma all_strings: "list_all is_str vs \<Longrightarrow> \<exists>ss. vs = map VStr ss"
proof (induction vs)
  case (Cons v vs)
  then obtain ss s where "vs = map VStr ss" "v = VStr s" by (auto simp: is_str_def split: jvalue.splits)
  then have "v # vs = map VStr (s # ss)" by simp
  then show ?case by (rule exI)
qed simp

lemma checkValue_proper: "checkValue j s v d = None \<Longrightarrow> proper s v"
proof (cases "se_kind s")
  case KInt
  assume c: "checkValue j s v d = None"
  with KInt obtain x where v: "v = VNum x" by (auto simp: checkValue_def split: jvalue.splits)
  with c KInt have w: "f_of_int (f_to_int64 x) = x" "check_int j s x d = None" by (auto simp: checkValue_def whole_def split: if_splits)
  let ?n = "f_to_int64 x"
  have "has_suffix (se_key s) ''Port'' \<Longrightarrow> 1 \<le> ?n \<and> ?n \<le> 65535" using w(2) by (auto simp: check_int_def Let_def split: if_splits)
  moreover have "has_prefix (se_key s) ''Net.'' \<or> se_key s = ''Producer.Index'' \<Longrightarrow> 0 \<le> ?n"
    using w(2) by (cases "has_suffix (se_key s) ''Port''") (auto simp: check_int_def Let_def split: if_splits)
  moreover have "v = VNum (f_of_int ?n)" using v w(1) by simp
  ultimately have "\<exists>n. v = VNum (f_of_int n) \<and> (has_suffix (se_key s) ''Port'' \<longrightarrow> 1 \<le> n \<and> n \<le> 65535) \<and>
      (has_prefix (se_key s) ''Net.'' \<or> se_key s = ''Producer.Index'' \<longrightarrow> 0 \<le> n)" by (intro exI[of _ ?n]) blast
  with KInt show ?thesis by simp
next
  case KList
  assume c: "checkValue j s v d = None"
  with KList obtain vs where "v = VArr vs" "list_all is_str vs" by (auto simp: checkValue_def split: jvalue.splits if_splits)
  with all_strings KList show ?thesis by auto
next
  case KString
  assume c: "checkValue j s v d = None"
  with KString obtain str where "v = VStr str" "check_string s str = None" by (auto simp: checkValue_def split: jvalue.splits)
  with KString show ?thesis by (auto simp: check_string_def split: if_splits)
qed (auto simp: checkValue_def split: jvalue.splits)

lemma Validate_proper:
  assumes "Validate_doc j d = []" "Get j d k = Got v" "Lookup_setting k = Some s"
  shows "proper s v"
proof -
  from Get_in_Keys[OF assms(2,3)] assms(1) have "key_problems j d k = []" by (auto simp: Validate_doc_def)
  with assms(2,3) have "checkValue j s v d = None" by (auto simp: key_problems_def split: option.splits)
  then show ?thesis by (rule checkValue_proper)
qed

section \<open>Setting and reading\<close>

text \<open>What a value decodes as: a whole number as a \<^verbatim>\<open>float64\<close>, a list of strings as a list of values.\<close>

fun reread :: "jvalue \<Rightarrow> jvalue" where
  "reread (VInt n) = VNum (f_of_int n)"
| "reread (VStrs ss) = VArr (map VStr ss)"
| "reread v = v"

text \<open>
  What is relied on of the codec: the text of a value decodes to it, and the text of an object is an object, not null, whose
  members are there and decode as the members that were written (the writer may respace them).
\<close>

definition faithful :: "json \<Rightarrow> bool" where
  "faithful j \<longleftrightarrow> (\<forall>v e. js_encode j v = Some e \<longrightarrow> js_value j e = Some (reread v)) \<and>
     (\<forall>ms b. js_render j ms = Some b \<longrightarrow> \<not> is_null b \<and> (\<exists>ms'. js_object j b = Some ms' \<and>
        (\<forall>f. map_option (js_value j) (map_of ms' f) = map_option (js_value j) (map_of ms f))))"

definition decoded :: "json \<Rightarrow> bytes option \<Rightarrow> got" where
  "decoded j r = (case r of None \<Rightarrow> Absent | Some raw \<Rightarrow> (case js_value j raw of None \<Rightarrow> Undecodable | Some v \<Rightarrow> Got v))"

lemma decoded_cong: "map_option (js_value j) r = map_option (js_value j) r' \<Longrightarrow> decoded j r = decoded j r'"
  by (cases r; cases r') (simp_all add: decoded_def)

lemma Get_decoded:
  "Get j d key = (case split_key key of (sect, field) \<Rightarrow>
     if sect = [] then decoded j (map_of d field)
     else case map_of d sect of None \<Rightarrow> Absent
     | Some sec \<Rightarrow> if is_null sec then Absent
         else case js_object j sec of None \<Rightarrow> NoSection sect | Some ms \<Rightarrow> decoded j (map_of ms field))"
  by (cases "split_key key") (auto simp: Get_def decoded_def Let_def split: option.splits)

lemma split_key_inj: "split_key k = split_key k' \<Longrightarrow> k = k'"
  using split_keyD[of k] split_keyD[of k'] by (cases "split_key k"; cases "split_key k'") auto

text \<open>Keys that do not name each other's section.\<close>

definition unrelated :: "string \<Rightarrow> string \<Rightarrow> bool" where
  "unrelated key k \<longleftrightarrow> k \<noteq> key \<and> (fst (split_key key) = [] \<longrightarrow> fst (split_key k) \<noteq> [] \<longrightarrow> fst (split_key k) \<noteq> snd (split_key key)) \<and>
     (fst (split_key k) = [] \<longrightarrow> fst (split_key key) \<noteq> snd (split_key k))"

lemma Set_Get:
  assumes f: "faithful j" and run: "Set_key j key v d = Inr d'"
  shows "Get j d' key = Got (reread v)" "unrelated key k \<Longrightarrow> Get j d' k = Get j d k"
proof -
  obtain sect field where sk: "split_key key = (sect, field)" by (cases "split_key key")
  from run obtain enc where enc: "js_encode j v = Some enc" by (auto simp: Set_key_def split: prod.splits option.splits)
  then have dv: "decoded j (Some enc) = Got (reread v)" using f by (simp add: faithful_def decoded_def)
  note run = run[unfolded Set_key_def sk prod.case enc option.case]
  have "Get j d' key = Got (reread v) \<and> (unrelated key k \<longrightarrow> Get j d' k = Get j d k)"
  proof (cases "sect = []")
    case True
    with run have d': "d' = AList.update field enc d" by simp
    have "Get j d' key = Got (reread v)" using dv by (simp add: Get_decoded sk True d' update_conv')
    moreover have "Get j d' k = Get j d k" if u: "unrelated key k"
    proof -
      obtain s' f' where k: "split_key k = (s', f')" by (cases "split_key k")
      have "s' \<noteq> [] \<Longrightarrow> map_of d' s' = map_of d s'" "s' = [] \<Longrightarrow> map_of d' f' = map_of d f'"
        using u k sk True split_key_inj[of k key] by (auto simp: d' update_conv' unrelated_def)
      then show ?thesis by (cases "s' = []") (simp_all add: Get_decoded k)
    qed
    ultimately show ?thesis by blast
  next
    case False
    with run obtain ms sec where ms: "section_members j d sect = Inr ms" "js_render j (AList.update field enc ms) = Some sec" "d' = AList.update sect sec d"
      by (auto split: sum.splits option.splits)
    from f ms(2) obtain ms' where sec: "\<not> is_null sec" "js_object j sec = Some ms'"
      and same: "\<And>f. map_option (js_value j) (map_of ms' f) = map_option (js_value j) (map_of (AList.update field enc ms) f)"
      unfolding faithful_def by blast
    have "decoded j (map_of ms' field) = Got (reread v)" using decoded_cong[OF same[of field]] dv by (simp add: update_conv')
    then have "Get j d' key = Got (reread v)" using False sec by (simp add: Get_decoded sk ms(3) update_conv')
    moreover have "Get j d' k = Get j d k" if u: "unrelated key k"
    proof -
      obtain s' f' where k: "split_key k = (s', f')" by (cases "split_key k")
      show ?thesis
      proof (cases "s' = sect")
        case True
        with u k sk split_key_inj[of k key] have ff: "f' \<noteq> field" by (auto simp: unrelated_def)
        have new: "Get j d' k = decoded j (map_of ms f')"
          using decoded_cong[OF same[of f']] ff False True sec by (simp add: Get_decoded k ms(3) update_conv')
        have "Get j d k = decoded j (map_of ms f')"
          using ms(1) False True by (auto simp: Get_decoded k section_members_def decoded_def split: option.splits if_splits)
        with new show ?thesis by simp
      next
        case ne: False
        with u k sk have "s' = [] \<Longrightarrow> f' \<noteq> sect" by (auto simp: unrelated_def)
        then show ?thesis using ne by (simp add: Get_decoded k ms(3) update_conv')
      qed
    qed
    ultimately show ?thesis by blast
  qed
  then show "Get j d' key = Got (reread v)" "unrelated key k \<Longrightarrow> Get j d' k = Get j d k" by blast+
qed

section \<open>Editing sessions\<close>

definition edit_ok :: "json \<Rightarrow> (float64 \<Rightarrow> string) \<Rightarrow> path \<Rightarrow> bytes \<Rightarrow> edit_result option \<Rightarrow> machine \<Rightarrow> machine \<Rightarrow> bool" where
  "edit_ok j num p original r m m' \<longleftrightarrow>
     (case r of
        Some (EditSaved bk) \<Rightarrow> (\<exists>doc data mode. ValidateStrict j doc = [] \<and> reservedUnchanged j num original doc \<and>
           Bytes_doc j doc = Some data \<and> mc_tree m' p = Some (Doc data mode))
      | _ \<Rightarrow> mc_tree m' p = mc_tree m p)"

lemma edit_ok_from: "mc_tree m1 p = mc_tree m p \<Longrightarrow> edit_ok j num p original r m1 m' \<Longrightarrow> edit_ok j num p original r m m'"
  by (auto simp: edit_ok_def split: option.splits edit_result.splits)

lemma edit_ok_to: "mc_tree m2 p = mc_tree m' p \<Longrightarrow> edit_ok j num p original r m m' \<Longrightarrow> edit_ok j num p original r m m2"
  by (auto simp: edit_ok_def split: option.splits edit_result.splits)

lemma edit_rounds_ok:
  assumes "edit_rounds j num (u @ [n]) copy original now rs m = (r, m')" "copy \<noteq> u @ [n]"
  shows "edit_ok j num (u @ [n]) original r m m'"
  using assms(1)
proof (induction rs arbitrary: m)
  case (Cons x rs)
  let ?m1 = "put copy (map_option (\<lambda>d. Doc d 384) (er_leaves x)) m"
  obtain d m2 where rd: "ReadFile copy ?m1 = (d, m2)" by (cases "ReadFile copy ?m1")
  have t1: "mc_tree ?m1 (u @ [n]) = mc_tree m (u @ [n])" using assms(2) by simp
  have t2: "mc_tree m2 (u @ [n]) = mc_tree m (u @ [n])" using ReadFile_same[OF rd] t1 by simp
  note run = Cons.prems[unfolded edit_rounds.simps Let_def rd prod.case]
  consider (stopped) "m' \<in> {?m1, m2}" "\<And>bk. r \<noteq> Some (EditSaved bk)"
    | (again) "edit_rounds j num (u @ [n]) copy original now rs m2 = (r, m')"
    | (save) doc e bk where "ValidateStrict j doc = []" "reservedUnchanged j num original doc"
        "Save_doc j (u @ [n]) doc now m2 = ((e, bk), m')" "r = Some (case e of Some err \<Rightarrow> EditFailed (Some err) | None \<Rightarrow> EditSaved bk)"
  proof (cases "\<not> er_ok x \<or> d = None \<or> d = Some original")
    case True
    with run stopped show ?thesis by (auto split: option.splits if_splits)
  next
    case False
    then obtain edited where d: "er_ok x" "d = Some edited" "edited \<noteq> original" by auto
    let ?good = "case Parse_doc j edited of Inl e \<Rightarrow> None | Inr doc \<Rightarrow> if ValidateStrict j doc = [] \<and> reservedUnchanged j num original doc then Some doc else None"
    show ?thesis
    proof (cases ?good)
      case None
      with run d stopped again show ?thesis by (auto split: option.splits bool.splits)
    next
      case (Some doc)
      then have ok: "ValidateStrict j doc = []" "reservedUnchanged j num original doc" by (auto split: sum.splits if_splits)
      obtain e bk m3 where s: "Save_doc j (u @ [n]) doc now m2 = ((e, bk), m3)" by (metis prod.collapse)
      from run d Some s have "m' = m3" "r = Some (case e of Some err \<Rightarrow> EditFailed (Some err) | None \<Rightarrow> EditSaved bk)"
        by (auto split: option.splits)
      with save[OF ok] s show ?thesis by blast
    qed
  qed
  then show ?case
  proof cases
    case stopped
    with t1 t2 show ?thesis by (auto simp: edit_ok_def split: option.splits edit_result.splits)
  next
    case again
    from edit_ok_from[OF t2 Cons.IH[OF again]] show ?thesis .
  next
    case (save doc e bk)
    have v: "Validate_doc j doc = []" using save(1) by (simp add: ValidateStrict_def)
    have s: "SaveUnchecked j (u @ [n]) doc now m2 = ((e, bk), m')" using save(3) v by (simp add: Save_doc_def)
    show ?thesis
    proof (cases e)
      case None
      from SaveUnchecked_spec(2)[OF s None] save(1,2,4) None show ?thesis by (auto simp: edit_ok_def)
    next
      case (Some err)
      with SaveUnchecked_spec(1)[OF s] save(4) t2 show ?thesis by (simp add: edit_ok_def)
    qed
  qed
qed (simp add: edit_ok_def)

lemma edit_session_ok:
  assumes "edit_session j num (u @ [n]) original now rnd rs m = (r, m')" "n \<noteq> ''.config-edit-'' @ rnd"
  shows "edit_ok j num (u @ [n]) original r m m'"
proof -
  let ?dir = "u @ [''.config-edit-'' @ rnd]" and ?p = "u @ [n]"
  let ?copy = "?dir @ [''config.json'']"
  have up: "up ?p = u" by (simp add: up_def)
  have cp: "?copy \<noteq> ?p" by simp
  obtain ok1 m1 where 1: "MkdirAll u m = (ok1, m1)" by (cases "MkdirAll u m")
  obtain ok2 m2 where 2: "MkdirNew ?dir m1 = (ok2, m2)" by (cases "MkdirNew ?dir m1")
  obtain ok3 m3 where 3: "WriteOver ?copy 384 original m2 = (ok3, m3)" by (cases "WriteOver ?copy 384 original m2")
  obtain r4 m4 where 4: "edit_rounds j num ?p ?copy original now rs m3 = (r4, m4)" by (cases "edit_rounds j num ?p ?copy original now rs m3")
  have t1: "mc_tree m1 ?p = mc_tree m ?p" using MkdirAll_tree[OF 1, of ?p] by auto
  have t2: "mc_tree m2 ?p = mc_tree m ?p" using MkdirNew_tree[OF 2, of ?p] t1 assms(2) by simp
  have t3: "mc_tree m3 ?p = mc_tree m ?p" using WriteOver_tree[OF 3, of ?p] t2 cp by simp
  have rm: "mc_tree (snd (RemoveAll ?dir mm)) ?p = mc_tree mm ?p" for mm
    by (rule RemoveAll_tree[OF surjective_pairing]) (use assms(2) in simp)
  have e4: "edit_ok j num ?p original r4 m m4" by (rule edit_ok_from[OF t3 edit_rounds_ok[OF 4 cp]])
  note run = assms(1)[unfolded edit_session_def Let_def up 1 prod.case 2 3 4]
  show ?thesis
  proof (cases "ok1 \<and> ok2")
    case False
    with run t1 t2 show ?thesis by (auto simp: edit_ok_def split: if_splits)
  next
    case True
    show ?thesis
    proof (cases ok3)
      case True
      with run \<open>ok1 \<and> ok2\<close> have "r = r4" "m' = m4 \<or> m' = snd (RemoveAll ?dir m4)" by (auto split: if_splits)
      with edit_ok_to[OF rm e4] e4 show ?thesis by auto
    next
      case False
      with run \<open>ok1 \<and> ok2\<close> have "r = Some (EditFailed None)" "m' = snd (RemoveAll ?dir m3)" by auto
      with rm[of m3] t3 show ?thesis by (simp add: edit_ok_def)
    qed
  qed
qed

lemma Edit_ok:
  assumes "Edit j num (u @ [n]) now rnd rs m = (r, m')" "n \<noteq> ''.config-edit-'' @ rnd"
  obtains original where "edit_ok j num (u @ [n]) original r m m'"
    "\<And>d mode. mc_tree m (u @ [n]) = Some (Doc d mode) \<Longrightarrow> (\<exists>bk. r = Some (EditSaved bk)) \<Longrightarrow> original = edited_original d"
proof (cases "exists_at m (u @ [n])")
  case False
  with assms(1) have "edit_session j num (u @ [n]) (edited_original []) now rnd rs m = (r, m')" by (simp add: Edit_def)
  from edit_session_ok[OF this assms(2)] False show ?thesis by (intro that) (auto simp: exists_at_def)
next
  case True
  obtain d m1 where rd: "ReadFile (u @ [n]) m = (d, m1)" by (cases "ReadFile (u @ [n]) m")
  have t: "mc_tree m1 = mc_tree m" using ReadFile_same[OF rd] by blast
  show ?thesis
  proof (cases d)
    case None
    with assms(1) True rd t show ?thesis by (intro that[of "[]"]) (auto simp: Edit_def edit_ok_def)
  next
    case (Some b)
    with assms(1) True rd have "edit_session j num (u @ [n]) (edited_original b) now rnd rs m1 = (r, m')" by (simp add: Edit_def)
    from edit_ok_from[OF _ edit_session_ok[OF this assms(2)], of m] t
    have "edit_ok j num (u @ [n]) (edited_original b) r m m'" by simp
    moreover have "dd = b" if "mc_tree m (u @ [n]) = Some (Doc dd mode)" for dd mode
      using rd Some that by (auto simp: ReadFile_def dest!: next_hazardD(1) split: prod.splits option.splits inode.splits if_splits)
    ultimately show ?thesis by (intro that) auto
  qed
qed

end
