(* ===== verification/Config_Claims.thy ===== *)
theory Config_Claims
  imports Node_Config Host_Claims
begin

text \<open>
  What saving, editing and setting the node's configuration guarantee, with runs on the demonstration machine.
\<close>

section \<open>The node's configuration\<close>


text \<open>A codec that knows three texts.\<close>

definition demo_json :: json where
  "demo_json = \<lparr> js_object = (\<lambda>b. if b = ''{}'' then Some [] else if b = ''new'' then Some [(''LogLevel'', ''warn'')] else None),
     js_value = (\<lambda>b. if b = ''warn'' then Some (VStr ''warn'') else None), js_strings = (\<lambda>_. None), js_render = (\<lambda>_. None),
     js_indent = (\<lambda>ms. if ms = [(''LogLevel'', ''warn'')] then Some ''new'' else None), js_encode = (\<lambda>_. None) \<rparr>"



text \<open>C13. An editing session is safe.  Whatever the editor leaves in the copy and whatever calls fail, a session that does not save
  leaves the file as it was; one that saves leaves a document without any problem or unknown key, in which, if the old file was
  not blank and could be parsed, the producer section has the members it had, printing as before.\<close>

theorem edit_safe:
  assumes "Edit j num (u @ [n]) now rnd rounds m = (r, m')" "n \<noteq> ''.config-edit-'' @ rnd"
  shows "case r of
      Some (EditSaved bk) \<Rightarrow> (\<exists>doc data mode. ValidateStrict j doc = [] \<and> Bytes_doc j doc = Some data \<and> mc_tree m' (u @ [n]) = Some (Doc data mode) \<and>
         (\<forall>b mode0 old k. mc_tree m (u @ [n]) = Some (Doc b mode0) \<longrightarrow> trim_space b \<noteq> [] \<longrightarrow> Parse_doc j b = Inr old \<longrightarrow> IsReserved k \<longrightarrow>
            k \<in> set (Keys_doc j old) \<union> set (Keys_doc j doc) \<longrightarrow>
            got_present (Get j doc k) = got_present (Get j old k) \<and> sprint num (got_value (Get j doc k)) = sprint num (got_value (Get j old k))))
    | _ \<Rightarrow> mc_tree m' (u @ [n]) = mc_tree m (u @ [n])"
proof -
  from Edit_ok[OF assms] obtain original where ok: "edit_ok j num (u @ [n]) original r m m'"
    and orig: "\<And>d mode. mc_tree m (u @ [n]) = Some (Doc d mode) \<Longrightarrow> (\<exists>bk. r = Some (EditSaved bk)) \<Longrightarrow> original = edited_original d" by blast
  show ?thesis
  proof (cases "\<exists>bk. r = Some (EditSaved bk)")
    case False
    with ok show ?thesis by (auto simp: edit_ok_def split: option.splits edit_result.splits)
  next
    case True
    then obtain bk where r: "r = Some (EditSaved bk)" by blast
    with ok obtain doc data mode where doc: "ValidateStrict j doc = []" "reservedUnchanged j num original doc" "Bytes_doc j doc = Some data"
        "mc_tree m' (u @ [n]) = Some (Doc data mode)" by (auto simp: edit_ok_def)
    have "got_present (Get j doc k) = got_present (Get j old k) \<and> sprint num (got_value (Get j doc k)) = sprint num (got_value (Get j old k))"
      if "mc_tree m (u @ [n]) = Some (Doc b mode0)" "trim_space b \<noteq> []" "Parse_doc j b = Inr old" "IsReserved k" "k \<in> set (Keys_doc j old) \<union> set (Keys_doc j doc)"
      for b mode0 old k
    proof -
      have "original = b" using orig[OF that(1) True] that(2) by (simp add: edited_original_def)
      with doc(2) that(3) have "reserved_changed j num old doc = []" by (simp add: reservedUnchanged_def)
      with that(4,5) show ?thesis unfolding reserved_changed_def filter_empty_conv by auto
    qed
    with doc r show ?thesis by fastforce
  qed
qed

definition demo_rounds :: "edit_round list" where
  "demo_rounds = [\<lparr> er_ok = True, er_leaves = Some ''oops'', er_again = Some True \<rparr>, \<lparr> er_ok = True, er_leaves = Some ''new'', er_again = None \<rparr>]"

definition demo_edit :: "edit_result option \<times> machine" where
  "demo_edit = Edit demo_json (\<lambda>_. ''0'') ([''data''] @ [''config.json'']) 0 ''7'' demo_rounds (demo [])"

lemma edit_safe_witness: "\<exists>doc data mode. ValidateStrict demo_json doc = [] \<and> mc_tree (snd demo_edit) [''data'', ''config.json''] = Some (Doc data mode)"
proof -
  have "(case fst demo_edit of Some (EditSaved bk) \<Rightarrow> True | _ \<Rightarrow> False)" by code_simp
  then obtain bk where r: "fst demo_edit = Some (EditSaved bk)" by (auto split: option.splits edit_result.splits)
  have run: "Edit demo_json (\<lambda>_. ''0'') ([''data''] @ [''config.json'']) 0 ''7'' demo_rounds (demo []) = (fst demo_edit, snd demo_edit)" by (simp add: demo_edit_def)
  have n: "''config.json'' \<noteq> ''.config-edit-'' @ ''7''" by simp
  from edit_safe[OF run n] r show ?thesis by auto
qed

text \<open>Setting and reading.  After a key was set it reads as the value it was set to, in the form that values have when they are read, and every key that is neither it, nor its
  section, nor below it reads as before, through a faithful codec.\<close>

theorem set_then_get:
  assumes "faithful j" "Set_key j key v d = Inr d'"
  shows "Get j d' key = Got (reread v) \<and> (unrelated key k \<longrightarrow> Get j d' k = Get j d k)"
  using Set_Get[OF assms] by blast

definition demo_codec_bool :: json where
  "demo_codec_bool = \<lparr> js_object = (\<lambda>b. if b = ''O'' then Some [(''EnableHTTP'', ''t'')] else None),
     js_value = (\<lambda>b. if b = ''t'' then Some (VBool True) else if b = ''w'' then Some (VStr ''warn'') else None), js_strings = (\<lambda>_. None),
     js_render = (\<lambda>ms. if ms = [(''EnableHTTP'', ''t'')] then Some ''O'' else None), js_indent = (\<lambda>_. None),
     js_encode = (\<lambda>v. case v of VBool b \<Rightarrow> if b then Some ''t'' else None | _ \<Rightarrow> None) \<rparr>"

lemma set_then_get_witness:
  "\<exists>d'. Set_key demo_codec_bool ''RPC.EnableHTTP'' (VBool True) [(''LogLevel'', ''w'')] = Inr d' \<and>
     Get demo_codec_bool d' ''RPC.EnableHTTP'' = Got (VBool True) \<and> Get demo_codec_bool d' ''LogLevel'' = Got (VStr ''warn'')"
proof -
  have "\<not> is_null ''O''" by code_simp
  then have f: "faithful demo_codec_bool" by (auto simp: faithful_def demo_codec_bool_def split: jvalue.splits if_splits)
  have s: "Set_key demo_codec_bool ''RPC.EnableHTTP'' (VBool True) [(''LogLevel'', ''w'')] = Inr [(''LogLevel'', ''w''), (''RPC'', ''O'')]" by code_simp
  have u: "unrelated ''RPC.EnableHTTP'' ''LogLevel''" by code_simp
  have g: "Get demo_codec_bool [(''LogLevel'', ''w'')] ''LogLevel'' = Got (VStr ''warn'')" by code_simp
  from set_then_get[OF f s, of "''LogLevel''"] s u g show ?thesis by simp
qed

end
