(* ===== verification/Preflight.thy ===== *)
theory Preflight
  imports Go_Host
begin

text \<open>
  The checks before privileged operations, \<^verbatim>\<open>internal/preflight/preflight.go\<close>: cores, memory, the time server's configuration and the network.  The kernel's files and the network's answers are arguments.
\<close>

section \<open>The lines of timesyncd.conf\<close>

text \<open>What the regular expressions match; white space of a pattern is a blank, a tab, a line feed, a form feed or a carriage return.\<close>

definition ntpServer :: string where "ntpServer = ''time.cloudflare.com''"

definition wantedLine :: string where "wantedLine = ''NTP='' @ ntpServer"

definition re_space :: "char \<Rightarrow> bool" where
  "re_space c \<longleftrightarrow> c \<in> {CHR '' '', CHR 0x09, CHR 0x0A, CHR 0x0C, CHR 0x0D}"

definition re_left :: "string \<Rightarrow> string" where "re_left s = dropWhile re_space s"

definition re_trim :: "string \<Rightarrow> string" where "re_trim s = rev (dropWhile re_space (rev (re_left s)))"

definition reTimeSection :: "string \<Rightarrow> bool" where "reTimeSection l \<longleftrightarrow> to_lower (re_trim l) = ''[time]''"

definition reAnySection :: "string \<Rightarrow> bool" where
  "reAnySection l \<longleftrightarrow>
     (let t = re_trim l in 3 \<le> length t \<and> hd t = CHR ''['' \<and> last t = CHR '']'' \<and> CHR '']'' \<notin> set (butlast (tl t)))"

definition reNTPLine :: "string \<Rightarrow> bool" where "reNTPLine l \<longleftrightarrow> to_lower (take 4 (re_left l)) = ''ntp=''"

definition reNTPWanted :: "string \<Rightarrow> bool" where
  "reNTPWanted l \<longleftrightarrow> reNTPLine l \<and> to_lower (re_trim (drop 4 (re_left l))) = ntpServer"

section \<open>Patching\<close>

text \<open>Whether there is a time section, whether the scan is in one, and its wanted and other lines so far.\<close>

fun scan_line :: "bool \<times> bool \<times> nat \<times> nat \<Rightarrow> string \<Rightarrow> bool \<times> bool \<times> nat \<times> nat" where
  "scan_line (has, here, wanted, others) l =
     (if reTimeSection l then (True, True, wanted, others)
      else if reAnySection l then (has, False, wanted, others)
      else if here \<and> reNTPWanted l then (has, here, Suc wanted, others)
      else if here \<and> reNTPLine l then (has, here, wanted, Suc others)
      else (has, here, wanted, others))"

definition scan_conf :: "string list \<Rightarrow> bool \<times> bool \<times> nat \<times> nat" where
  "scan_conf ls = foldl scan_line (False, False, 0, 0) ls"

fun patch_lines :: "bool \<Rightarrow> string list \<Rightarrow> string list" where
  "patch_lines here [] = []"
| "patch_lines here (l # ls) =
     (if reTimeSection l then l # wantedLine # patch_lines True ls
      else let here' = (if reAnySection l then False else here) in
        if here' \<and> reNTPLine l then patch_lines here' ls else l # patch_lines here' ls)"

definition trim_newlines :: "string \<Rightarrow> string" where
  "trim_newlines s = rev (dropWhile (\<lambda>c. c = CHR 0x0A) (rev s))"

definition conf_lines :: "string \<Rightarrow> string list" where "conf_lines s = split_on (CHR 0x0A) (trim_newlines s)"

definition PatchTimesyncd :: "string \<Rightarrow> string \<times> bool" where
  "PatchTimesyncd content =
     (if trim_space content = [] then (''[Time]'' @ [CHR 0x0A] @ ''NTP='' @ ntpServer @ [CHR 0x0A], True)
      else case scan_conf (conf_lines content) of (has, here, wanted, others) \<Rightarrow>
        if has \<and> wanted = 1 \<and> others = 0 then (content, False)
        else (join_with [CHR 0x0A] (patch_lines False (if has then conf_lines content else conf_lines content @ [[], ''[Time]''])) @ [CHR 0x0A], True))"

section \<open>The checks\<close>

datatype preflight_error =
    FewCores int | MemoryUnread | LittleMemory int | ConfUnread | ConfUnwritten | TimesyncdNotRestarted | NoInternet

definition minCores :: int where "minCores = 4"
definition minTotalGiB :: int where "minTotalGiB = 4"

definition CPU :: "int \<Rightarrow> preflight_error option" where
  "CPU cores = (if cores < minCores then Some (FewCores cores) else None)"

fun meminfo_line :: "int \<times> int \<Rightarrow> string \<Rightarrow> int \<times> int" where
  "meminfo_line (tot, avail) l =
     (case str_fields l of
        k # v # rest \<Rightarrow>
          if to_lower k = ''memtotal:'' then (atoi_val v, avail)
          else if to_lower k = ''memavailable:'' then (tot, atoi_val v) else (tot, avail)
      | _ \<Rightarrow> (tot, avail))"

definition readMeminfo :: "bytes option \<Rightarrow> (int \<times> int) option" where
  "readMeminfo f =
     (case f of None \<Rightarrow> None
      | Some data \<Rightarrow>
          (case scan_lines data of (ls, ok) \<Rightarrow>
           case foldl meminfo_line (0, 0) ls of (tot, avail) \<Rightarrow>
             if tot = 0 \<or> \<not> ok then None else Some (tot, avail)))"

text \<open>On another system than Linux an unreadable file only skips the check.\<close>

definition Memory :: "bool \<Rightarrow> bytes option \<Rightarrow> preflight_error option" where
  "Memory linux f =
     (case readMeminfo f of
        None \<Rightarrow> if linux then Some MemoryUnread else None
      | Some (tot, avail) \<Rightarrow>
          let gib = quot_go (quot_go tot 1024) 1024 in if gib < minTotalGiB then Some (LittleMemory gib) else None)"

text \<open>A run of \<^verbatim>\<open>systemctl\<close> on another unit: only its exit code matters here.\<close>

definition other_ctl :: "machine \<Rightarrow> bool \<times> machine" where
  "other_ctl m = (case ctl_exit 0 m of (c, m1) \<Rightarrow> (c = 0, m1))"

definition NTP_apply :: "path \<Rightarrow> string \<Rightarrow> machine \<Rightarrow> preflight_error option \<times> machine" where
  "NTP_apply p content m =
     (case PatchTimesyncd content of (updated, changed) \<Rightarrow>
      if \<not> changed then (None, m)
      else case WriteOver p 420 updated m of (ok, m1) \<Rightarrow>
        if \<not> ok then (Some ConfUnwritten, m1)
        else case other_ctl m1 of (ok2, m2) \<Rightarrow> ((if ok2 then None else Some TimesyncdNotRestarted), m2))"

definition NTP :: "path \<Rightarrow> machine \<Rightarrow> preflight_error option \<times> machine" where
  "NTP p m =
     (if \<not> exists_at m p then NTP_apply p [] m
      else case ReadFile p m of (None, m1) \<Rightarrow> (Some ConfUnread, m1) | (Some d, m1) \<Rightarrow> NTP_apply p d m1)"

definition timesyncdConf :: path where "timesyncdConf = [''etc'', ''systemd'', ''timesyncd.conf'']"

text \<open>The network: whether the connection works, and the status of the request when it does not.\<close>

definition Internet :: "bool \<Rightarrow> int option \<Rightarrow> preflight_error option" where
  "Internet dials status =
     (if dials then None else case status of Some code \<Rightarrow> if code < 400 then None else Some NoInternet | None \<Rightarrow> Some NoInternet)"

definition Run_preflight :: "int \<Rightarrow> bool \<Rightarrow> bytes option \<Rightarrow> bool \<Rightarrow> int option \<Rightarrow> machine \<Rightarrow> preflight_error option \<times> machine" where
  "Run_preflight cores linux meminfo dials status m =
     (case CPU cores of Some e \<Rightarrow> (Some e, m)
      | None \<Rightarrow>
     (case Memory linux meminfo of Some e \<Rightarrow> (Some e, m)
      | None \<Rightarrow>
     (case NTP timesyncdConf m of (Some e, m1) \<Rightarrow> (Some e, m1) | (None, m1) \<Rightarrow> (Internet dials status, m1))))"

section \<open>What a patch leaves\<close>



lemma wanted_line [simp]: "reNTPWanted wantedLine" "\<not> reTimeSection wantedLine" "\<not> reAnySection wantedLine" "reNTPLine wantedLine" "wantedLine \<noteq> []"
  by code_simp+

lemma blank_line [simp]: "\<not> reTimeSection []" "\<not> reAnySection []" "\<not> reNTPWanted []" "\<not> reNTPLine []"
  by code_simp+

lemma time_header [simp]: "reTimeSection ''[Time]''" by code_simp























section \<open>Settling\<close>










end
