(* ===== verification/Node_Reset.thy ===== *)
theory Node_Reset
  imports Producer
begin

text \<open>
  Starting over: the resync of the node (\<^verbatim>\<open>internal/resync\<close>), the hard reset of the orchestrator
  (\<^verbatim>\<open>internal/orchestrator\<close>), and the lock that keeps two such operations apart (\<^verbatim>\<open>internal/lock\<close>).
\<close>

section \<open>Deleting what is there\<close>

text \<open>The entries of a directory that \<open>there\<close> finds are removed, each failure is noted and the rest still tried.\<close>

fun remove_present :: "(machine \<Rightarrow> path \<Rightarrow> bool) \<Rightarrow> path \<Rightarrow> string list \<Rightarrow> machine \<Rightarrow> (nat \<times> path list) \<times> machine" where
  "remove_present there dir [] m = ((0, []), m)"
| "remove_present there dir (n # ns) m =
     (if \<not> there m (dir @ [n]) then remove_present there dir ns m
      else case RemoveAll (dir @ [n]) m of (ok, m1) \<Rightarrow>
        case remove_present there dir ns m1 of ((k, bad), m2) \<Rightarrow>
          if ok then ((Suc k, bad), m2) else ((k, (dir @ [n]) # bad), m2))"

section \<open>Resync\<close>

definition ResyncDirs :: "string list" where "ResyncDirs = [''network'', ''nom'', ''consensus'', ''log'']"

definition Wipe :: "path \<Rightarrow> machine \<Rightarrow> (nat \<times> path list) \<times> machine" where
  "Wipe data m = remove_present is_folder data ResyncDirs m"

datatype resync_error = StateUnknown | ResyncNotStopped service_error | NotWiped "path list" | ResyncNotRestarted service_error

definition Run_resync :: "path \<Rightarrow> machine \<Rightarrow> resync_error option \<times> machine" where
  "Run_resync data m =
     (case Status m of
        (None, m1) \<Rightarrow> (Some StateUnknown, m1)
      | (Some st, m1) \<Rightarrow>
          (case (if st = Active then StopService m1 else (None, m1)) of
             (Some e, m2) \<Rightarrow> (Some (ResyncNotStopped e), m2)
           | (None, m2) \<Rightarrow>
               (case Wipe data m2 of ((k, bad), m3) \<Rightarrow>
                if bad \<noteq> [] then (Some (NotWiped bad), m3)
                else if st \<noteq> Active then (None, m3)
                else case StartService m3 of (Some e, m4) \<Rightarrow> (Some (ResyncNotRestarted e), m4) | (None, m4) \<Rightarrow> (None, m4))))"

section \<open>The orchestrator\<close>

text \<open>Its unit is the one of the machine here.  A directory entry whose state cannot be read counts as one that cannot be removed.\<close>

definition ResetDirs :: "string list" where "ResetDirs = [''queues'', ''events'']"

definition ValidateDir :: "string \<Rightarrow> string option" where
  "ValidateDir dir0 =
     (let dir = trim_space dir0 in
      if \<not> is_abs_path dir then None
      else if clean_path dir = ''/'' then None else Some (clean_path dir))"

definition path_of :: "string \<Rightarrow> path" where "path_of s = filter (\<lambda>e. e \<noteq> []) (split_on (CHR ''/'') s)"

datatype reset_error =
    BadDir | UnitUnknown | NotInstalled | ResetNotStopped service_error
  | NotDeleted "path list" | NotDeletedNotStarted "path list" service_error | ResetNotStarted service_error

definition HardReset :: "string \<Rightarrow> machine \<Rightarrow> reset_error option \<times> machine" where
  "HardReset dir0 m =
     (case ValidateDir dir0 of
        None \<Rightarrow> (Some BadDir, m)
      | Some dir \<Rightarrow>
          (case Exists m of
             (None, m1) \<Rightarrow> (Some UnitUnknown, m1)
           | (Some False, m1) \<Rightarrow> (Some NotInstalled, m1)
           | (Some True, m1) \<Rightarrow>
               (case StopService m1 of
                  (Some e, m2) \<Rightarrow> (Some (ResetNotStopped e), m2)
                | (None, m2) \<Rightarrow>
                    (case remove_present exists_at (path_of dir) ResetDirs m2 of ((k, bad), m3) \<Rightarrow>
                     if bad \<noteq> [] then
                       (case StartService m3 of
                          (Some e, m4) \<Rightarrow> (Some (NotDeletedNotStarted bad e), m4)
                        | (None, m4) \<Rightarrow> (Some (NotDeleted bad), m4))
                     else case StartService m3 of (Some e, m4) \<Rightarrow> (Some (ResetNotStarted e), m4) | (None, m4) \<Rightarrow> (None, m4)))))"

section \<open>The lock\<close>

text \<open>
  The lock file: its text, and the process that holds the lock of the kernel on it, with what it is doing and how far it got:
  it has the lock, it has emptied the file, it has written its name.
\<close>

datatype lock_phase = Taken | Emptied | Named

record lock_file =
  lk_text :: string
  lk_holder :: "(int \<times> string \<times> lock_phase) option"

definition holder_text :: "string \<Rightarrow> int \<Rightarrow> string" where
  "holder_text op pid = op @ '' pid '' @ show_int pid @ [CHR 0x0A]"

text \<open>What a process that finds the lock taken says of its holder.\<close>

definition describeHolder :: "string \<Rightarrow> string" where
  "describeHolder s = (let t = trim_space (take 128 s) in if t = [] then [] else '' ('' @ t @ '')'')"

definition Acquire :: "int \<Rightarrow> string \<Rightarrow> lock_file \<Rightarrow> (string, lock_file) result" where
  "Acquire pid op f =
     (case lk_holder f of
        Some h \<Rightarrow> Inl (''another nomctl operation is in progress'' @ describeHolder (lk_text f) @ ''; try again later'')
      | None \<Rightarrow> Inr (f\<lparr> lk_holder := Some (pid, op, Taken) \<rparr>))"

definition Release :: "lock_file \<Rightarrow> lock_file" where "Release f = f\<lparr> lk_holder := None \<rparr>"

text \<open>The steps of all processes; a process that ends, however far it got, releases its lock.\<close>

inductive lock_step :: "lock_file \<Rightarrow> lock_file \<Rightarrow> bool" where
  lock_take: "Acquire pid op f = Inr f' \<Longrightarrow> lock_step f f'"
| lock_empty: "lk_holder f = Some (pid, op, Taken) \<Longrightarrow> lock_step f (f\<lparr> lk_text := [], lk_holder := Some (pid, op, Emptied) \<rparr>)"
| lock_name: "lk_holder f = Some (pid, op, Emptied) \<Longrightarrow> lock_step f (f\<lparr> lk_text := holder_text op pid, lk_holder := Some (pid, op, Named) \<rparr>)"
| lock_release: "lock_step f (Release f)"

inductive lock_run :: "lock_file \<Rightarrow> bool" where
  lock_new: "lock_run \<lparr> lk_text = [], lk_holder = None \<rparr>"
| lock_next: "lock_run f \<Longrightarrow> lock_step f g \<Longrightarrow> lock_run g"

inductive_cases lock_stepE: "lock_step f g"

section \<open>What the lock promises\<close>

lemma lock_kept: "lock_step f g \<Longrightarrow> lk_holder f = Some (pid, op, ph) \<Longrightarrow> lk_holder g = None \<or> (\<exists>ph'. lk_holder g = Some (pid, op, ph'))"
  by (erule lock_stepE) (auto simp: Acquire_def Release_def split: option.splits)

lemma lock_named: "lock_run f \<Longrightarrow> lk_holder f = Some (pid, op, ph) \<Longrightarrow>
   case ph of Taken \<Rightarrow> True | Emptied \<Rightarrow> lk_text f = [] | Named \<Rightarrow> lk_text f = holder_text op pid"
proof (induction arbitrary: pid op ph rule: lock_run.induct)
  case (lock_next f g)
  from lock_next(2) show ?case
    by (rule lock_stepE) (use lock_next(1,3,4) in \<open>auto simp: Acquire_def Release_def split: option.splits\<close>)
qed simp

lemma lock_written: "lock_run \<lparr> lk_text = holder_text ''backup'' 7, lk_holder = Some (7, ''backup'', Named) \<rparr>"
proof -
  let ?f0 = "\<lparr> lk_text = [], lk_holder = None \<rparr>"
  have 1: "lock_run (?f0\<lparr> lk_holder := Some (7, ''backup'', Taken) \<rparr>)"
    by (rule lock_run.lock_next[OF lock_run.lock_new], rule lock_take[of 7 "''backup''"]) (simp add: Acquire_def)
  have 2: "lock_run (?f0\<lparr> lk_holder := Some (7, ''backup'', Emptied) \<rparr>)"
    using lock_run.lock_next[OF 1 lock_empty[of _ 7 "''backup''"]] by simp
  show ?thesis using lock_run.lock_next[OF 2 lock_name[of _ 7 "''backup''"]] by simp
qed

text \<open>Between taking the lock and emptying the file, the text is that of an earlier holder.\<close>

lemma lock_stale: "lock_run (\<lparr> lk_text = holder_text ''backup'' 7, lk_holder = Some (8, ''restore'', Taken) \<rparr>)"
proof -
  have 4: "lock_run \<lparr> lk_text = holder_text ''backup'' 7, lk_holder = None \<rparr>"
    using lock_run.lock_next[OF lock_written lock_release] by (simp add: Release_def)
  show ?thesis by (rule lock_run.lock_next[OF 4], rule lock_take[of 8 "''restore''"]) (simp add: Acquire_def)
qed

section \<open>What is deleted\<close>

lemma remove_present_same: "remove_present there dir ns m = (r, m') \<Longrightarrow> host_same m m'"
proof (induction ns arbitrary: m r)
  case (Cons n ns)
  show ?case
  proof (cases "there m (dir @ [n])")
    case False
    with Cons show ?thesis by simp
  next
    case True
    obtain ok m1 where 1: "RemoveAll (dir @ [n]) m = (ok, m1)" by (cases "RemoveAll (dir @ [n]) m")
    obtain k bad m2 where 2: "remove_present there dir ns m1 = ((k, bad), m2)" by (metis surj_pair)
    from Cons.prems True 1 2 have eq: "m' = m2" by (auto split: if_splits)
    with host_same_trans[OF RemoveAll_same[OF 1] Cons.IH[OF 2[folded eq]]] show ?thesis by simp
  qed
qed simp

lemma remove_present_tree:
  "remove_present there dir ns m = (r, m') \<Longrightarrow> \<forall>n \<in> set ns. \<not> prefix (dir @ [n]) x \<Longrightarrow> mc_tree m' x = mc_tree m x"
proof (induction ns arbitrary: m r)
  case (Cons n ns)
  show ?case
  proof (cases "there m (dir @ [n])")
    case False
    with Cons show ?thesis by simp
  next
    case True
    obtain ok m1 where 1: "RemoveAll (dir @ [n]) m = (ok, m1)" by (cases "RemoveAll (dir @ [n]) m")
    obtain k bad m2 where 2: "remove_present there dir ns m1 = ((k, bad), m2)" by (metis surj_pair)
    from Cons.prems True 1 2 have eq: "m' = m2" by (auto split: if_splits)
    with Cons.IH[OF 2[folded eq]] RemoveAll_tree[OF 1, of x] Cons.prems(2) show ?thesis by simp
  qed
qed simp

text \<open>A removal takes away; it adds nothing.\<close>

lemma RemoveAll_less: "RemoveAll p m = (ok, m') \<Longrightarrow> mc_tree m' x = mc_tree m x \<or> mc_tree m' x = None"
  by (auto simp: RemoveAll_def prune_def dest!: next_hazardD(1) split: prod.splits hazard.splits if_splits)

lemma remove_present_less: "remove_present there dir ns m = (r, m') \<Longrightarrow> mc_tree m' x = mc_tree m x \<or> mc_tree m' x = None"
proof (induction ns arbitrary: m r)
  case (Cons n ns)
  show ?case
  proof (cases "there m (dir @ [n])")
    case False
    with Cons show ?thesis by simp
  next
    case True
    obtain ok m1 where 1: "RemoveAll (dir @ [n]) m = (ok, m1)" by (cases "RemoveAll (dir @ [n]) m")
    obtain k bad m2 where 2: "remove_present there dir ns m1 = ((k, bad), m2)" by (metis surj_pair)
    from Cons.prems True 1 2 have eq: "m' = m2" by (auto split: if_splits)
    with Cons.IH[OF 2[folded eq]] RemoveAll_less[OF 1, of x] show ?thesis by metis
  qed
qed simp

lemma remove_present_gone:
  assumes "remove_present there dir ns m = ((k, []), m')" "n \<in> set ns"
    and there: "\<And>m m' p. mc_tree m' p = mc_tree m p \<or> mc_tree m' p = None \<Longrightarrow> p \<noteq> [] \<Longrightarrow> there m' p \<Longrightarrow> there m p"
      "\<And>m p. p \<noteq> [] \<Longrightarrow> mc_tree m p = None \<Longrightarrow> \<not> there m p"
  shows "\<not> there m' (dir @ [n])"
  using assms(1,2)
proof (induction ns arbitrary: m k)
  case (Cons a ns)
  show ?case
  proof (cases "there m (dir @ [a])")
    case False
    with Cons.prems have run: "remove_present there dir ns m = ((k, []), m')" by simp
    show ?thesis
    proof (cases "n \<in> set ns")
      case True
      with Cons.IH[OF run] show ?thesis by simp
    next
      case False
      with Cons.prems have "n = a" by simp
      with \<open>\<not> there m (dir @ [a])\<close> there(1)[OF remove_present_less[OF run]] show ?thesis by blast
    qed
  next
    case True
    obtain ok m1 where 1: "RemoveAll (dir @ [a]) m = (ok, m1)" by (cases "RemoveAll (dir @ [a]) m")
    obtain k2 bad m2 where 2: "remove_present there dir ns m1 = ((k2, bad), m2)" by (metis surj_pair)
    from Cons.prems True 1 2 have eq: "m' = m2" "bad = []" ok by (auto split: if_splits)
    with 2 have run: "remove_present there dir ns m1 = ((k2, []), m')" by simp
    show ?thesis
    proof (cases "n \<in> set ns")
      case True
      with Cons.IH[OF run] show ?thesis by simp
    next
      case False
      with Cons.prems have n: "n = a" by simp
      have "mc_tree m1 (dir @ [a]) = None" using 1 eq(3) RemoveAll_ok[of "dir @ [a]" m m1 "dir @ [a]"] by simp
      then have "mc_tree m' (dir @ [a]) = None" using remove_present_less[OF run, of "dir @ [a]"] by metis
      with there(2) n show ?thesis by simp
    qed
  qed
qed simp

lemma exists_less: "mc_tree m' p = mc_tree m p \<or> mc_tree m' p = None \<Longrightarrow> p \<noteq> [] \<Longrightarrow> exists_at m' p \<Longrightarrow> exists_at m p"
  and exists_none: "p \<noteq> [] \<Longrightarrow> mc_tree m p = None \<Longrightarrow> \<not> exists_at m p"
  and folder_less: "mc_tree m' p = mc_tree m p \<or> mc_tree m' p = None \<Longrightarrow> p \<noteq> [] \<Longrightarrow> is_folder m' p \<Longrightarrow> is_folder m p"
  and folder_none: "p \<noteq> [] \<Longrightarrow> mc_tree m p = None \<Longrightarrow> \<not> is_folder m p"
  by (auto simp: exists_at_def is_folder_def)

lemma wiped_gone: "remove_present is_folder dir ns m = ((k, []), m') \<Longrightarrow> n \<in> set ns \<Longrightarrow> \<not> is_folder m' (dir @ [n])"
  by (erule (1) remove_present_gone) (blast intro: folder_less, blast dest: folder_none)

lemma reset_gone: "remove_present exists_at dir ns m = ((k, []), m') \<Longrightarrow> n \<in> set ns \<Longrightarrow> \<not> exists_at m' (dir @ [n])"
  by (erule (1) remove_present_gone) (blast intro: exists_less, blast dest: exists_none)

lemma ValidateDir_below: "ValidateDir s = Some dir \<Longrightarrow> path_of dir \<noteq> [] \<and> list_all plain_elem (path_of dir)"
proof -
  assume v: "ValidateDir s = Some dir"
  then have a: "is_abs_path (trim_space s)" "clean_path (trim_space s) \<noteq> ''/''" "dir = clean_path (trim_space s)"
    by (simp_all add: ValidateDir_def Let_def split: if_splits)
  then obtain r where "trim_space s = ''/'' @ r" unfolding is_abs_path_def has_prefix_iff by blast
  with a have r: "clean_path (''/'' @ r) \<noteq> ''/''" "dir = clean_path (''/'' @ r)" by simp_all
  note safe = rooted_elems_safe[of r]
  have "path_of dir = rooted_elems r"
    unfolding r(2) clean_rooted path_of_def using rel_elems[OF safe] by simp
  moreover have "rooted_elems r \<noteq> []" using r(1) clean_rooted[of r] by auto
  ultimately show ?thesis using safe by (auto simp: list_all_iff safe_elem_def)
qed

end
