(* ===== verification/Unit_Host.thy ===== *)
theory Unit_Host
  imports Node_Reset
begin

text \<open>
  The units beside the node's, as the rest of \<^verbatim>\<open>internal/service/service.go\<close> controls them: what is enabled, which definition is loaded
  and which one runs; and the owners and modes of files.
\<close>

section \<open>Units\<close>

text \<open>
  The host with the units beside the node's: which are enabled at boot, the definitions that systemd read at its last
  reload, the definition each active unit was started with, and who owns which file.
\<close>

record host =
  ho_machine :: machine
  ho_enabled :: "string \<Rightarrow> bool"
  ho_loaded :: "string \<Rightarrow> bytes option"
  ho_running :: "string \<Rightarrow> bytes option"
  ho_owner :: "path \<Rightarrow> (int \<times> int) option"

definition on_machine :: "(machine \<Rightarrow> 'a \<times> machine) \<Rightarrow> host \<Rightarrow> 'a \<times> host" where
  "on_machine f h = (case f (ho_machine h) of (a, m) \<Rightarrow> (a, h\<lparr> ho_machine := m \<rparr>))"

text \<open>A unit is named by its file; a service may leave its suffix out.\<close>

definition unit_file :: "string \<Rightarrow> string" where
  "unit_file u = (if has_suffix u ''.service'' \<or> has_suffix u ''.timer'' then u else u @ ''.service'')"

definition unit_path :: "string \<Rightarrow> path" where
  "unit_path f = [''etc'', ''systemd'', ''system'', f]"

definition unit_text :: "host \<Rightarrow> string \<Rightarrow> bytes option" where
  "unit_text h f = (case mc_tree (ho_machine h) (unit_path f) of Some (Doc d _) \<Rightarrow> Some d | _ \<Rightarrow> None)"

text \<open>systemd uses what it has read, and reads the file of a unit it does not know.\<close>

definition loaded_text :: "host \<Rightarrow> string \<Rightarrow> bytes option" where
  "loaded_text h f = (case ho_loaded h f of Some t \<Rightarrow> Some t | None \<Rightarrow> unit_text h f)"

section \<open>Commands\<close>

text \<open>A run of \<^verbatim>\<open>systemctl\<close>: its exit code, and the effect of one that succeeds.\<close>

definition run_unit :: "int \<Rightarrow> (host \<Rightarrow> host) \<Rightarrow> host \<Rightarrow> bool \<times> host" where
  "run_unit normal effect h =
     (case on_machine (ctl_exit normal) h of (c, h1) \<Rightarrow> if c = 0 then (True, effect h1) else (False, h1))"

definition known_code :: "host \<Rightarrow> string \<Rightarrow> int" where
  "known_code h f = (if loaded_text h f \<noteq> None then 0 else 5)"

definition start_unit :: "string \<Rightarrow> host \<Rightarrow> host" where
  "start_unit f h = h\<lparr> ho_running := (ho_running h)(f := loaded_text h f) \<rparr>"

definition DaemonReload :: "host \<Rightarrow> bool \<times> host" where
  "DaemonReload h = run_unit 0 (\<lambda>h. h\<lparr> ho_loaded := unit_text h \<rparr>) h"

definition Enable :: "string \<Rightarrow> host \<Rightarrow> bool \<times> host" where
  "Enable u h = run_unit (known_code h (unit_file u)) (\<lambda>h. h\<lparr> ho_enabled := (ho_enabled h)(unit_file u := True) \<rparr>) h"

definition EnableNow :: "string \<Rightarrow> host \<Rightarrow> bool \<times> host" where
  "EnableNow u h =
     run_unit (known_code h (unit_file u))
       (\<lambda>h. let h1 = h\<lparr> ho_enabled := (ho_enabled h)(unit_file u := True) \<rparr> in
            if ho_running h1 (unit_file u) = None then start_unit (unit_file u) h1 else h1) h"

definition Disable :: "string \<Rightarrow> host \<Rightarrow> bool \<times> host" where
  "Disable u h =
     run_unit (known_code h (unit_file u))
       (\<lambda>h. h\<lparr> ho_enabled := (ho_enabled h)(unit_file u := False), ho_running := (ho_running h)(unit_file u := None) \<rparr>) h"

definition Reload :: "string \<Rightarrow> host \<Rightarrow> bool \<times> host" where
  "Reload u h = run_unit (if ho_running h (unit_file u) \<noteq> None then 0 else 1) (\<lambda>h. h) h"

definition IsEnabled :: "string \<Rightarrow> host \<Rightarrow> bool \<times> host" where
  "IsEnabled u h = run_unit (if ho_enabled h (unit_file u) then 0 else 1) (\<lambda>h. h) h"

definition IsActive_unit :: "string \<Rightarrow> host \<Rightarrow> bool \<times> host" where
  "IsActive_unit u h = run_unit (if ho_running h (unit_file u) \<noteq> None then 0 else 3) (\<lambda>h. h) h"

definition RestartUnit :: "string \<Rightarrow> host \<Rightarrow> bool \<times> host" where
  "RestartUnit u h = run_unit (known_code h (unit_file u)) (start_unit (unit_file u)) h"

definition EnsureRunning :: "string \<Rightarrow> bool \<Rightarrow> host \<Rightarrow> bool \<times> host" where
  "EnsureRunning u reload h =
     (case (if reload then DaemonReload h else (True, h)) of (ok, h1) \<Rightarrow>
      if \<not> ok then (False, h1)
      else case IsEnabled u h1 of (en, h2) \<Rightarrow>
        if \<not> en then EnableNow u h2
        else case IsActive_unit u h2 of (ac, h3) \<Rightarrow> if ac then (True, h3) else EnableNow u h3)"

definition WriteUnit :: "string \<Rightarrow> bytes \<Rightarrow> host \<Rightarrow> bool \<times> host" where
  "WriteUnit f content h = on_machine (WriteOver (unit_path f) 420 content) h"

section \<open>Owners and modes\<close>

definition Chown :: "path \<Rightarrow> int \<Rightarrow> int \<Rightarrow> host \<Rightarrow> bool \<times> host" where
  "Chown p uid gid h =
     (case on_machine next_hazard h of (hz, h1) \<Rightarrow>
      if fine hz \<and> exists_at (ho_machine h1) p then (True, h1\<lparr> ho_owner := (ho_owner h1)(p := Some (uid, gid)) \<rparr>) else (False, h1))"

definition chmod_at :: "path \<Rightarrow> int \<Rightarrow> machine \<Rightarrow> bool \<times> machine" where
  "chmod_at p mode m =
     (case next_hazard m of (hz, m1) \<Rightarrow>
      case mc_tree m1 p of
        Some (Doc d old) \<Rightarrow> if fine hz then (True, put p (Some (Doc d mode)) m1) else (False, m1)
      | Some Folder \<Rightarrow> (fine hz, m1)
      | None \<Rightarrow> (False, m1))"

definition Chmod :: "path \<Rightarrow> int \<Rightarrow> host \<Rightarrow> bool \<times> host" where
  "Chmod p mode h = on_machine (chmod_at p mode) h"

section \<open>What the calls leave alone\<close>

text \<open>The units as systemd and the disk have them; and no scripted answers of \<^verbatim>\<open>systemctl\<close>.\<close>

definition same_units :: "host \<Rightarrow> host \<Rightarrow> bool" where
  "same_units h h' \<longleftrightarrow> (\<forall>f. unit_text h' f = unit_text h f) \<and> ho_enabled h' = ho_enabled h \<and> ho_loaded h' = ho_loaded h \<and>
     ho_running h' = ho_running h \<and> mc_ctl (ho_machine h') = mc_ctl (ho_machine h)"

lemma same_units_refl [simp]: "same_units h h" by (simp add: same_units_def)

lemma same_units_trans: "same_units a b \<Longrightarrow> same_units b c \<Longrightarrow> same_units a c"
  by (simp add: same_units_def)

lemma run_unit_quiet: "mc_ctl (ho_machine h) = [] \<Longrightarrow> run_unit n eff h = (if n = 0 then (True, eff h) else (False, h))"
  by (simp add: run_unit_def on_machine_def ctl_exit_def)

lemma unit_text_tree: "mc_tree (ho_machine h') (unit_path f) = mc_tree (ho_machine h) (unit_path f) \<Longrightarrow> unit_text h' f = unit_text h f"
  by (simp add: unit_text_def)

lemma Chown_spec:
  assumes "Chown p uid gid h = (ok, h')"
  shows "same_units h h' \<and> mc_tree (ho_machine h') = mc_tree (ho_machine h) \<and>
    (ok \<longrightarrow> ho_owner h' = (ho_owner h)(p := Some (uid, gid))) \<and> (\<not> ok \<longrightarrow> ho_owner h' = ho_owner h)"
proof -
  obtain hz m1 where n: "next_hazard (ho_machine h) = (hz, m1)" by (cases "next_hazard (ho_machine h)")
  from assms n show ?thesis
    by (auto simp: Chown_def on_machine_def same_units_def unit_text_def next_hazardD[OF n] split: if_splits)
qed

lemma Chmod_spec:
  assumes "Chmod p mode h = (ok, h')"
  shows "same_units h h' \<and> ho_owner h' = ho_owner h \<and> (\<forall>x. x \<noteq> p \<longrightarrow> mc_tree (ho_machine h') x = mc_tree (ho_machine h) x) \<and>
    (ok \<longrightarrow> (\<forall>d old. mc_tree (ho_machine h) p = Some (Doc d old) \<longrightarrow> mc_tree (ho_machine h') p = Some (Doc d mode)))"
proof -
  obtain hz m1 where n: "next_hazard (ho_machine h) = (hz, m1)" by (cases "next_hazard (ho_machine h)")
  from assms n show ?thesis
    by (auto simp: Chmod_def chmod_at_def on_machine_def same_units_def unit_text_def put_def next_hazardD[OF n]
        split: if_splits option.splits inode.splits)
qed

lemma mkdir_spec:
  assumes "on_machine (MkdirAll dir) h = (ok, h')"
  shows "same_units h h' \<and> ho_owner h' = ho_owner h \<and>
    (\<forall>x d mode. mc_tree (ho_machine h) x = Some (Doc d mode) \<longrightarrow> mc_tree (ho_machine h') x = Some (Doc d mode))"
proof -
  obtain m1 where m: "MkdirAll dir (ho_machine h) = (ok, m1)" "h' = h\<lparr> ho_machine := m1 \<rparr>"
    using assms by (auto simp: on_machine_def split: prod.splits)
  have t: "mc_tree m1 x = mc_tree (ho_machine h) x \<or> mc_tree (ho_machine h) x = None \<and> mc_tree m1 x = Some Folder" for x
    using MkdirAll_tree[OF m(1)] by blast
  have "unit_text h' f = unit_text h f" for f using t[of "unit_path f"] by (auto simp: unit_text_def m(2))
  moreover have "mc_tree m1 x = Some (Doc d mode)" if "mc_tree (ho_machine h) x = Some (Doc d mode)" for x d mode
    using t[of x] that by auto
  ultimately show ?thesis using MkdirAll_same[OF m(1)] by (simp add: same_units_def m(2) host_same_def)
qed

lemma unit_path_inj [simp]: "unit_path f = unit_path g \<longleftrightarrow> f = g" by (simp add: unit_path_def)

end
