(* ===== verification/Tool_Config.thy ===== *)
theory Tool_Config
  imports Go_Duration Go_Strconv Go_Scan
begin

text \<open>
  The configuration of the tool, \<^verbatim>\<open>internal/config/config.go\<close>: defaults, the environment, ranges, derived paths and the documented variables.
\<close>

section \<open>Defaults\<close>

definition EnvPrefix :: string where "EnvPrefix = ''NOMCTL_''"

definition DefaultRepoURL :: string where "DefaultRepoURL = ''https://github.com/zenon-network/go-zenon.git''"
definition DefaultBranchName :: string where "DefaultBranchName = ''master''"
definition DefaultBinaryName :: string where "DefaultBinaryName = ''znnd''"
definition DefaultServiceName :: string where "DefaultServiceName = ''go-zenon''"
definition DefaultGoVersion :: string where "DefaultGoVersion = ''1.23.0''"
definition DefaultInstallDir :: string where "DefaultInstallDir = ''/usr/local/bin''"
definition DefaultZnnDir :: string where "DefaultZnnDir = ''/root/.znn''"
definition DefaultWorkDir :: string where "DefaultWorkDir = ''/opt/nomctl''"
definition DefaultLogFile :: string where "DefaultLogFile = ''/var/log/nomctl.log''"
definition DefaultBackupDir :: string where "DefaultBackupDir = ''/backup''"
definition DefaultMaxBackups :: int where "DefaultMaxBackups = 7"
definition DefaultBackupCadenceDays :: int where "DefaultBackupCadenceDays = 0"
definition DefaultMinFreeSpaceKB :: int where "DefaultMinFreeSpaceKB = 15728640"
definition DefaultNodeExporterVersion :: string where "DefaultNodeExporterVersion = ''1.6.1''"
definition DefaultPrometheusVersion :: string where "DefaultPrometheusVersion = ''2.47.0''"
definition DefaultInfinityPluginVersion :: string where "DefaultInfinityPluginVersion = ''2.10.0''"
definition DefaultGrafanaAdminUser :: string where "DefaultGrafanaAdminUser = ''admin''"
definition DefaultGrafanaAdminPassword :: string where "DefaultGrafanaAdminPassword = ''admin''"
definition DefaultGrafanaHTTPAddr :: string where "DefaultGrafanaHTTPAddr = ''127.0.0.1''"
definition DefaultReleaseRepo :: string where "DefaultReleaseRepo = ''0x3639/nomctl''"
definition DefaultRPCTimeout :: duration where "DefaultRPCTimeout = 3 * second"
definition DefaultOrchestratorService :: string where "DefaultOrchestratorService = ''orchestrator''"
definition DefaultOrchestratorDir :: string where "DefaultOrchestratorDir = ''/root/.orchestrator''"
definition DefaultBootstrapURL :: string where "DefaultBootstrapURL = ''https://hypercore.nyc3.digitaloceanspaces.com/bootstrap/2026-09-01/bootstrap-20260901010001.zip''"

section \<open>The configuration\<close>

record tool_config =
  tc_Debug :: bool
  tc_LogFile :: string
  tc_SkipPreflight :: bool
  tc_WorkDir :: string
  tc_InstallDir :: string
  tc_ZnnDir :: string
  tc_RepoURL :: string
  tc_BranchName :: string
  tc_BinaryName :: string
  tc_ServiceName :: string
  tc_GoVersion :: string
  tc_ReleaseRepo :: string
  tc_UpdateCheck :: bool
  tc_PillarName :: string
  tc_BootstrapURL :: string
  tc_RPCTimeout :: duration
  tc_OrchestratorService :: string
  tc_OrchestratorDir :: string
  tc_BackupDir :: string
  tc_MaxBackups :: int
  tc_BackupCadenceDays :: int
  tc_BackupHour :: int
  tc_MinFreeSpaceKB :: int
  tc_NodeExporterVersion :: string
  tc_PrometheusVersion :: string
  tc_InfinityPluginVersion :: string
  tc_GrafanaAdminUser :: string
  tc_GrafanaAdminPassword :: string
  tc_GrafanaHTTPAddr :: string

definition Default :: tool_config where
  "Default =
     \<lparr> tc_Debug = False,
       tc_LogFile = DefaultLogFile,
       tc_SkipPreflight = False,
       tc_WorkDir = DefaultWorkDir,
       tc_InstallDir = DefaultInstallDir,
       tc_ZnnDir = DefaultZnnDir,
       tc_RepoURL = DefaultRepoURL,
       tc_BranchName = DefaultBranchName,
       tc_BinaryName = DefaultBinaryName,
       tc_ServiceName = DefaultServiceName,
       tc_GoVersion = DefaultGoVersion,
       tc_ReleaseRepo = DefaultReleaseRepo,
       tc_UpdateCheck = True,
       tc_PillarName = [],
       tc_BootstrapURL = DefaultBootstrapURL,
       tc_RPCTimeout = DefaultRPCTimeout,
       tc_OrchestratorService = DefaultOrchestratorService,
       tc_OrchestratorDir = DefaultOrchestratorDir,
       tc_BackupDir = DefaultBackupDir,
       tc_MaxBackups = DefaultMaxBackups,
       tc_BackupCadenceDays = DefaultBackupCadenceDays,
       tc_BackupHour = -1,
       tc_MinFreeSpaceKB = DefaultMinFreeSpaceKB,
       tc_NodeExporterVersion = DefaultNodeExporterVersion,
       tc_PrometheusVersion = DefaultPrometheusVersion,
       tc_InfinityPluginVersion = DefaultInfinityPluginVersion,
       tc_GrafanaAdminUser = DefaultGrafanaAdminUser,
       tc_GrafanaAdminPassword = DefaultGrafanaAdminPassword,
       tc_GrafanaHTTPAddr = DefaultGrafanaHTTPAddr \<rparr>"

section \<open>The environment\<close>

text \<open>A variable that is set to white space counts as unset.\<close>

datatype bad_variable = NotBoolean string string | NotInteger string string | NotDuration string string

definition env_text :: "(string \<Rightarrow> string option) \<Rightarrow> string \<Rightarrow> string option" where
  "env_text lookup key = (case lookup (EnvPrefix @ key) of Some v \<Rightarrow> if trim_space v = [] then None else Some v | None \<Rightarrow> None)"

definition env_str :: "(string \<Rightarrow> string option) \<Rightarrow> string \<Rightarrow> string \<Rightarrow> string" where
  "env_str lookup key old = (case env_text lookup key of None \<Rightarrow> old | Some v \<Rightarrow> trim_space v)"

definition env_parsed :: "(string \<Rightarrow> 'a option) \<Rightarrow> (string \<Rightarrow> string \<Rightarrow> bad_variable) \<Rightarrow> (string \<Rightarrow> string option) \<Rightarrow> string \<Rightarrow> 'a \<Rightarrow> 'a \<times> bad_variable list" where
  "env_parsed parse bad lookup key old =
     (case env_text lookup key of
        None \<Rightarrow> (old, [])
      | Some v \<Rightarrow> (case parse (trim_space v) of None \<Rightarrow> (old, [bad (EnvPrefix @ key) v]) | Some x \<Rightarrow> (x, [])))"

definition env_bool :: "(string \<Rightarrow> string option) \<Rightarrow> string \<Rightarrow> bool \<Rightarrow> bool \<times> bad_variable list" where
  "env_bool = env_parsed parse_bool NotBoolean"

definition env_int :: "(string \<Rightarrow> string option) \<Rightarrow> string \<Rightarrow> int \<Rightarrow> int \<times> bad_variable list" where
  "env_int = env_parsed parse_int NotInteger"

definition positive_duration :: "string \<Rightarrow> duration option" where
  "positive_duration s = (case parse_duration s of Some d \<Rightarrow> if d \<le> 0 then None else Some d | None \<Rightarrow> None)"

definition env_duration :: "(string \<Rightarrow> string option) \<Rightarrow> string \<Rightarrow> duration \<Rightarrow> duration \<times> bad_variable list" where
  "env_duration = env_parsed positive_duration NotDuration"

text \<open>The configuration with every bad variable left at its default, and the bad variables in the order in which they are read.\<close>

definition LoadFrom :: "(string \<Rightarrow> string option) \<Rightarrow> tool_config \<times> bad_variable list" where
  "LoadFrom lookup =
     (let c = Default;
          e_Debug = env_bool lookup ''DEBUG'' (tc_Debug c);
          e_SkipPreflight = env_bool lookup ''SKIP_PREFLIGHT'' (tc_SkipPreflight c);
          e_UpdateCheck = env_bool lookup ''UPDATE_CHECK'' (tc_UpdateCheck c);
          e_RPCTimeout = env_duration lookup ''RPC_TIMEOUT'' (tc_RPCTimeout c);
          e_MaxBackups = env_int lookup ''MAX_BACKUPS'' (tc_MaxBackups c);
          e_BackupCadenceDays = env_int lookup ''BACKUP_CADENCE_DAYS'' (tc_BackupCadenceDays c);
          e_BackupHour = env_int lookup ''BACKUP_HOUR'' (tc_BackupHour c);
          e_MinFreeSpaceKB = env_int lookup ''MIN_FREE_SPACE_KB'' (tc_MinFreeSpaceKB c)
      in (\<lparr> tc_Debug = fst e_Debug,
           tc_LogFile = env_str lookup ''LOG_FILE'' (tc_LogFile c),
           tc_SkipPreflight = fst e_SkipPreflight,
           tc_WorkDir = env_str lookup ''WORK_DIR'' (tc_WorkDir c),
           tc_InstallDir = env_str lookup ''INSTALL_DIR'' (tc_InstallDir c),
           tc_ZnnDir = env_str lookup ''ZNN_DIR'' (tc_ZnnDir c),
           tc_RepoURL = env_str lookup ''REPO_URL'' (tc_RepoURL c),
           tc_BranchName = env_str lookup ''BRANCH_NAME'' (tc_BranchName c),
           tc_BinaryName = env_str lookup ''BINARY_NAME'' (tc_BinaryName c),
           tc_ServiceName = env_str lookup ''SERVICE_NAME'' (tc_ServiceName c),
           tc_GoVersion = env_str lookup ''GO_VERSION'' (tc_GoVersion c),
           tc_ReleaseRepo = env_str lookup ''REPO'' (tc_ReleaseRepo c),
           tc_UpdateCheck = fst e_UpdateCheck,
           tc_PillarName = env_str lookup ''PILLAR_NAME'' (tc_PillarName c),
           tc_BootstrapURL = env_str lookup ''BOOTSTRAP_URL'' (tc_BootstrapURL c),
           tc_RPCTimeout = fst e_RPCTimeout,
           tc_OrchestratorService = env_str lookup ''ORCHESTRATOR_SERVICE'' (tc_OrchestratorService c),
           tc_OrchestratorDir = env_str lookup ''ORCHESTRATOR_DIR'' (tc_OrchestratorDir c),
           tc_BackupDir = env_str lookup ''BACKUP_DIR'' (tc_BackupDir c),
           tc_MaxBackups = fst e_MaxBackups,
           tc_BackupCadenceDays = fst e_BackupCadenceDays,
           tc_BackupHour = fst e_BackupHour,
           tc_MinFreeSpaceKB = fst e_MinFreeSpaceKB,
           tc_NodeExporterVersion = env_str lookup ''NODE_EXPORTER_VERSION'' (tc_NodeExporterVersion c),
           tc_PrometheusVersion = env_str lookup ''PROMETHEUS_VERSION'' (tc_PrometheusVersion c),
           tc_InfinityPluginVersion = env_str lookup ''INFINITY_PLUGIN_VERSION'' (tc_InfinityPluginVersion c),
           tc_GrafanaAdminUser = env_str lookup ''GRAFANA_ADMIN_USER'' (tc_GrafanaAdminUser c),
           tc_GrafanaAdminPassword = env_str lookup ''GRAFANA_ADMIN_PASSWORD'' (tc_GrafanaAdminPassword c),
           tc_GrafanaHTTPAddr = env_str lookup ''GRAFANA_HTTP_ADDR'' (tc_GrafanaHTTPAddr c) \<rparr>,
          snd e_Debug @ snd e_SkipPreflight @ snd e_UpdateCheck @ snd e_RPCTimeout @ snd e_MaxBackups @ snd e_BackupCadenceDays @ snd e_BackupHour @ snd e_MinFreeSpaceKB))"

section \<open>Ranges\<close>

datatype bad_range = BadMaxBackups int | BadCadence int | BadHour int | BadFreeSpace int

definition Validate_config :: "tool_config \<Rightarrow> bad_range option" where
  "Validate_config c =
     (if tc_MaxBackups c < 1 then Some (BadMaxBackups (tc_MaxBackups c))
      else if tc_BackupCadenceDays c < 0 then Some (BadCadence (tc_BackupCadenceDays c))
      else if tc_BackupHour c \<noteq> -1 \<and> (tc_BackupHour c < 0 \<or> tc_BackupHour c > 23) then Some (BadHour (tc_BackupHour c))
      else if tc_MinFreeSpaceKB c < 0 then Some (BadFreeSpace (tc_MinFreeSpaceKB c))
      else None)"

text \<open>What is logged; \<open>fmt\<close> prints the fields.\<close>

definition Redacted :: "(tool_config \<Rightarrow> string) \<Rightarrow> tool_config \<Rightarrow> string" where
  "Redacted fmt c = fmt (if tc_GrafanaAdminPassword c \<noteq> [] then c\<lparr> tc_GrafanaAdminPassword := ''***'' \<rparr> else c)"

section \<open>Derived paths\<close>

text \<open>The architecture the program was built for is an argument.\<close>

definition GoArch :: "string \<Rightarrow> string option" where
  "GoArch arch = (if arch = ''amd64'' \<or> arch = ''arm64'' then Some arch else None)"

definition GoURL :: "string \<Rightarrow> tool_config \<Rightarrow> string option" where
  "GoURL arch c = map_option (\<lambda>a. ''https://go.dev/dl/go'' @ tc_GoVersion c @ ''.linux-'' @ a @ ''.tar.gz'') (GoArch arch)"

definition GoRoot :: "tool_config \<Rightarrow> string" where "GoRoot c = tc_WorkDir c @ ''/go''"
definition GoBinary :: "tool_config \<Rightarrow> string" where "GoBinary c = GoRoot c @ ''/bin/go''"
definition SourceDir :: "tool_config \<Rightarrow> string" where "SourceDir c = tc_WorkDir c @ ''/'' @ tc_ServiceName c"
definition NodeUnit :: "tool_config \<Rightarrow> string" where "NodeUnit c = tc_ServiceName c @ ''.service''"
definition NodeUnitPath :: "tool_config \<Rightarrow> string" where "NodeUnitPath c = ''/etc/systemd/system/'' @ NodeUnit c"
definition BinaryPath :: "tool_config \<Rightarrow> string" where "BinaryPath c = tc_InstallDir c @ ''/'' @ tc_BinaryName c"

section \<open>The documented variables\<close>

record variable =
  va_name :: string
  va_default :: string
  va_text :: string

definition variable_of :: "string \<Rightarrow> string \<Rightarrow> string \<Rightarrow> variable" where
  "variable_of n d t = \<lparr> va_name = n, va_default = d, va_text = t \<rparr>"

definition Vars :: "variable list" where
  "Vars =
     [variable_of ''NOMCTL_DEBUG'' ''false'' ''Verbose logging; stream external command output to the terminal'',
      variable_of ''NOMCTL_LOG_FILE'' DefaultLogFile ''Plain-text log file (also receives external command output)'',
      variable_of ''NOMCTL_SKIP_PREFLIGHT'' ''false'' ''Skip the CPU/RAM/NTP/Internet pre-flight checks'',
      variable_of ''NOMCTL_WORK_DIR'' DefaultWorkDir ''Where the Go toolchain and source checkout are kept'',
      variable_of ''NOMCTL_INSTALL_DIR'' DefaultInstallDir ''Where the node binary is installed'',
      variable_of ''NOMCTL_ZNN_DIR'' DefaultZnnDir ''Node data directory'',
      variable_of ''NOMCTL_REPO_URL'' DefaultRepoURL ''Git repository to build'',
      variable_of ''NOMCTL_BRANCH_NAME'' DefaultBranchName ''Git branch to build'',
      variable_of ''NOMCTL_BINARY_NAME'' DefaultBinaryName ''Node binary name (also the cmd/ package built)'',
      variable_of ''NOMCTL_SERVICE_NAME'' DefaultServiceName ''systemd service name'',
      variable_of ''NOMCTL_GO_VERSION'' DefaultGoVersion ''Go toolchain version used to build the node'',
      variable_of ''NOMCTL_PILLAR_NAME'' ''(unset)'' ''Pillar name for status/top production stats (alerts config takes precedence)'',
      variable_of ''NOMCTL_REPO'' DefaultReleaseRepo ''GitHub repository nomctl upgrade downloads releases from'',
      variable_of ''NOMCTL_UPDATE_CHECK'' ''true'' ''Check GitHub for newer nomctl and go-zenon in status/top (cached 1h)'',
      variable_of ''NOMCTL_BOOTSTRAP_URL'' DefaultBootstrapURL ''Snapshot for nomctl bootstrap (.zip with a .hash sidecar next to it)'',
      variable_of ''NOMCTL_RPC_TIMEOUT'' (duration_string DefaultRPCTimeout) (''Per-call timeout for the node'' @ [CHR 0x27] @ ''s JSON-RPC (raise on slow disks)''),
      variable_of ''NOMCTL_ORCHESTRATOR_SERVICE'' DefaultOrchestratorService ''systemd unit of the orchestrator (nomctl orchestrator ...)'',
      variable_of ''NOMCTL_ORCHESTRATOR_DIR'' DefaultOrchestratorDir ''Orchestrator state directory; hard-reset deletes queues/ and events/ under it'',
      variable_of ''NOMCTL_BACKUP_DIR'' DefaultBackupDir ''Directory that stores backup archives'',
      variable_of ''NOMCTL_MAX_BACKUPS'' (show_int DefaultMaxBackups) ''Number of backups to retain'',
      variable_of ''NOMCTL_BACKUP_CADENCE_DAYS'' (show_int DefaultBackupCadenceDays) ''Days between scheduled backups (0 = every run)'',
      variable_of ''NOMCTL_BACKUP_HOUR'' ''(unset)'' ''Hour (0-23) for scheduled backups; unset = derived, between 02:00 and 04:59'',
      variable_of ''NOMCTL_MIN_FREE_SPACE_KB'' (show_int DefaultMinFreeSpaceKB) ''Minimum free space in the backup directory (15 GB)'',
      variable_of ''NOMCTL_NODE_EXPORTER_VERSION'' DefaultNodeExporterVersion ''Prometheus node_exporter version'',
      variable_of ''NOMCTL_PROMETHEUS_VERSION'' DefaultPrometheusVersion ''Prometheus version'',
      variable_of ''NOMCTL_INFINITY_PLUGIN_VERSION'' DefaultInfinityPluginVersion ''Grafana Infinity datasource plugin version'',
      variable_of ''NOMCTL_GRAFANA_ADMIN_USER'' DefaultGrafanaAdminUser ''Grafana admin user'',
      variable_of ''NOMCTL_GRAFANA_ADMIN_PASSWORD'' DefaultGrafanaAdminPassword ''Grafana admin password; a non-default value is applied to Grafana on install'',
      variable_of ''NOMCTL_GRAFANA_HTTP_ADDR'' DefaultGrafanaHTTPAddr ''Address Grafana listens on (0.0.0.0 to expose it)'']"

text \<open>The documented variables.  No variable but the documented ones changes the configuration, and each documented default is
  right: set to it, the variable is accepted and changes nothing.\<close>

theorem variables_documented:
  "LoadFrom lookup = LoadFrom (\<lambda>n. if n \<in> va_name ` set Vars then lookup n else None) \<and>
   list_all (\<lambda>v. va_default v = ''(unset)'' \<or> LoadFrom [va_name v \<mapsto> va_default v] = (Default, [])) Vars"
proof
  let ?l = "\<lambda>n. if n \<in> va_name ` set Vars then lookup n else None"
  have "list_all (\<lambda>k. EnvPrefix @ k \<in> set (map va_name Vars)) [''DEBUG'', ''LOG_FILE'', ''SKIP_PREFLIGHT'', ''WORK_DIR'', ''INSTALL_DIR'', ''ZNN_DIR'', ''REPO_URL'', ''BRANCH_NAME'', ''BINARY_NAME'', ''SERVICE_NAME'', ''GO_VERSION'', ''REPO'', ''UPDATE_CHECK'', ''PILLAR_NAME'', ''BOOTSTRAP_URL'', ''RPC_TIMEOUT'', ''ORCHESTRATOR_SERVICE'', ''ORCHESTRATOR_DIR'', ''BACKUP_DIR'', ''MAX_BACKUPS'', ''BACKUP_CADENCE_DAYS'', ''BACKUP_HOUR'', ''MIN_FREE_SPACE_KB'', ''NODE_EXPORTER_VERSION'', ''PROMETHEUS_VERSION'', ''INFINITY_PLUGIN_VERSION'', ''GRAFANA_ADMIN_USER'', ''GRAFANA_ADMIN_PASSWORD'', ''GRAFANA_HTTP_ADDR'']" by code_simp
  then have known: "EnvPrefix @ k \<in> va_name ` set Vars" if "k \<in> set [''DEBUG'', ''LOG_FILE'', ''SKIP_PREFLIGHT'', ''WORK_DIR'', ''INSTALL_DIR'', ''ZNN_DIR'', ''REPO_URL'', ''BRANCH_NAME'', ''BINARY_NAME'', ''SERVICE_NAME'', ''GO_VERSION'', ''REPO'', ''UPDATE_CHECK'', ''PILLAR_NAME'', ''BOOTSTRAP_URL'', ''RPC_TIMEOUT'', ''ORCHESTRATOR_SERVICE'', ''ORCHESTRATOR_DIR'', ''BACKUP_DIR'', ''MAX_BACKUPS'', ''BACKUP_CADENCE_DAYS'', ''BACKUP_HOUR'', ''MIN_FREE_SPACE_KB'', ''NODE_EXPORTER_VERSION'', ''PROMETHEUS_VERSION'', ''INFINITY_PLUGIN_VERSION'', ''GRAFANA_ADMIN_USER'', ''GRAFANA_ADMIN_PASSWORD'', ''GRAFANA_HTTP_ADDR'']" for k
    using that unfolding list_all_iff set_map by blast
  have e: "env_text ?l k = env_text lookup k" if "k \<in> set [''DEBUG'', ''LOG_FILE'', ''SKIP_PREFLIGHT'', ''WORK_DIR'', ''INSTALL_DIR'', ''ZNN_DIR'', ''REPO_URL'', ''BRANCH_NAME'', ''BINARY_NAME'', ''SERVICE_NAME'', ''GO_VERSION'', ''REPO'', ''UPDATE_CHECK'', ''PILLAR_NAME'', ''BOOTSTRAP_URL'', ''RPC_TIMEOUT'', ''ORCHESTRATOR_SERVICE'', ''ORCHESTRATOR_DIR'', ''BACKUP_DIR'', ''MAX_BACKUPS'', ''BACKUP_CADENCE_DAYS'', ''BACKUP_HOUR'', ''MIN_FREE_SPACE_KB'', ''NODE_EXPORTER_VERSION'', ''PROMETHEUS_VERSION'', ''INFINITY_PLUGIN_VERSION'', ''GRAFANA_ADMIN_USER'', ''GRAFANA_ADMIN_PASSWORD'', ''GRAFANA_HTTP_ADDR'']" for k
    unfolding env_text_def if_P[OF known[OF that]] ..
  show "LoadFrom lookup = LoadFrom ?l"
    unfolding LoadFrom_def Let_def env_str_def env_bool_def env_int_def env_duration_def env_parsed_def
    by (simp add: e)
next
  show "list_all (\<lambda>v. va_default v = ''(unset)'' \<or> LoadFrom [va_name v \<mapsto> va_default v] = (Default, [])) Vars" by code_simp
qed

end
