(* ===== verification/Alert_Unit.thy ===== *)
theory Alert_Unit
  imports Unit_Host Tool_Config
begin

text \<open>
  The units of the alerts daemon, \<^verbatim>\<open>internal/alerts/unit.go\<close>: their texts, the run user, the modes of its files, installation,
  convergence and removal.  The user database and the program's own path are parameters.
\<close>

section \<open>The files of the daemon\<close>

definition UnitName :: string where "UnitName = ''nomctl-alerts''"
definition ProbeName :: string where "ProbeName = ''nomctl-alerts-probe''"
definition RunUser :: string where "RunUser = ''nomctl''"

definition alert_unit :: string where "alert_unit = UnitName @ ''.service''"
definition probe_unit :: string where "probe_unit = ProbeName @ ''.service''"
definition probe_timer :: string where "probe_timer = ProbeName @ ''.timer''"

definition setting_line :: "string \<Rightarrow> string \<Rightarrow> string" where
  "setting_line k v = env_line k (unitQuote v)"

definition UnitText :: "string \<Rightarrow> tool_config \<Rightarrow> string" where
  "UnitText execPath cfg = concat (map (\<lambda>l. l @ nl)
     [''[Unit]'', ''Description=nomctl alerts daemon'', ''After=network-online.target'', ''Wants=network-online.target'', [],
      ''[Service]'', ''Type=simple'', ''User='' @ RunUser, ''Group='' @ RunUser, ''ExecStart='' @ execPath @ '' alerts run'',
      ''Restart=always'', ''RestartSec=10'', ''RuntimeDirectory=nomctl'', ''RuntimeDirectoryPreserve=yes'', ''NoNewPrivileges=true'',
      ''CapabilityBoundingSet='', ''AmbientCapabilities='', ''ProtectSystem=strict'', ''ProtectHome=true'', ''PrivateTmp=true'',
      ''ProtectKernelTunables=true'', ''ProtectKernelModules=true'', ''ProtectControlGroups=true'', ''RestrictSUIDSGID=true'',
      ''LockPersonality=true'', ''RestrictRealtime=true'', ''ReadWritePaths=/run/nomctl'',
      ''Environment=NOMCTL_SKIP_PREFLIGHT=true'', ''Environment=NOMCTL_LOG_FILE='',
      setting_line ''NOMCTL_SERVICE_NAME'' (tc_ServiceName cfg), setting_line ''NOMCTL_BINARY_NAME'' (tc_BinaryName cfg),
      setting_line ''NOMCTL_ZNN_DIR'' (tc_ZnnDir cfg), setting_line ''NOMCTL_BACKUP_DIR'' (tc_BackupDir cfg), [],
      ''[Install]'', ''WantedBy=multi-user.target''])"

definition ProbeText :: "string \<Rightarrow> tool_config \<Rightarrow> string" where
  "ProbeText execPath cfg = concat (map (\<lambda>l. l @ nl)
     [''[Unit]'', ''Description=nomctl alerts probe (open files and I/O of the node process)'', [],
      ''[Service]'', ''Type=oneshot'', ''ExecStart='' @ execPath @ '' alerts probe'',
      ''RuntimeDirectory=nomctl'', ''RuntimeDirectoryPreserve=yes'', ''NoNewPrivileges=true'', ''ProtectSystem=strict'',
      ''ProtectHome=read-only'', ''PrivateTmp=true'', ''PrivateNetwork=true'', ''ReadWritePaths=/run/nomctl'',
      ''Environment=NOMCTL_SKIP_PREFLIGHT=true'', ''Environment=NOMCTL_LOG_FILE='',
      setting_line ''NOMCTL_SERVICE_NAME'' (tc_ServiceName cfg), setting_line ''NOMCTL_ZNN_DIR'' (tc_ZnnDir cfg)])"

definition ProbeTimerText :: string where
  "ProbeTimerText = concat (map (\<lambda>l. l @ nl)
     [''[Unit]'', ''Description=Run the nomctl alerts probe every 30 seconds'', [],
      ''[Timer]'', ''OnBootSec=30s'', ''OnUnitActiveSec=30s'', ''AccuracySec=5s'', [], ''[Install]'', ''WantedBy=timers.target''])"

definition execStartPath :: "string \<Rightarrow> string" where
  "execStartPath p =
     (if \<exists>c \<in> set p. c \<in> {CHR '' '', CHR 0x09, dquote, backslash} then [dquote] @ unitQuote p @ [dquote] else p)"

text \<open>The path of the program, and the path with its links resolved if that works.\<close>

definition selfPath :: "string option \<Rightarrow> string option \<Rightarrow> string option" where
  "selfPath exe resolved =
     (case exe of None \<Rightarrow> None | Some e \<Rightarrow> Some (execStartPath (case resolved of Some r \<Rightarrow> r | None \<Rightarrow> e)))"

section \<open>Converging\<close>

datatype user_entry = NoUser | UserLookupFails | UserIds string string

text \<open>
  What the commands are given: the entry of the run user before, and after \<^verbatim>\<open>useradd\<close> if that works, and the program's paths.
\<close>

record converge_world =
  cw_user :: user_entry
  cw_added :: "user_entry option"
  cw_exe :: "string option"
  cw_resolved :: "string option"

datatype converge_error =
    UserUnknown | UserNotAdded | ConfigNotSecured | RuntimeDirFailed | NoSelfPath | UnitNotWritten | NotReloaded | DaemonNotRestarted | TimerNotEnabled

definition user_ids :: "user_entry \<Rightarrow> (converge_error, int \<times> int) result" where
  "user_ids u =
     (case u of
        UserIds a b \<Rightarrow>
          (case parse_int a of None \<Rightarrow> Inl UserUnknown
           | Some uid \<Rightarrow> (case parse_int b of None \<Rightarrow> Inl UserUnknown | Some gid \<Rightarrow> Inr (uid, gid)))
      | _ \<Rightarrow> Inl UserUnknown)"

definition EnsureUser :: "converge_world \<Rightarrow> (converge_error, int \<times> int) result" where
  "EnsureUser w =
     (case cw_user w of
        NoUser \<Rightarrow> (case cw_added w of None \<Rightarrow> Inl UserNotAdded | Some u \<Rightarrow> user_ids u)
      | u \<Rightarrow> user_ids u)"

definition SecureConfig :: "path \<Rightarrow> int \<Rightarrow> host \<Rightarrow> bool \<times> host" where
  "SecureConfig p gid h = (case Chown p 0 gid h of (ok, h1) \<Rightarrow> if \<not> ok then (False, h1) else Chmod p 416 h1)"

definition SecureRuntimeDir :: "path \<Rightarrow> int \<Rightarrow> int \<Rightarrow> host \<Rightarrow> bool \<times> host" where
  "SecureRuntimeDir dir uid gid h =
     (case on_machine (MkdirAll dir) h of (ok, h1) \<Rightarrow>
      if \<not> ok then (False, h1)
      else case Chown dir uid gid h1 of (ok2, h2) \<Rightarrow>
        if \<not> ok2 then (False, h2)
        else if exists_at (ho_machine h2) (dir @ [''alerts-state.json'']) then Chown (dir @ [''alerts-state.json'']) uid gid h2
        else (True, h2))"

definition runtime_dir :: path where "runtime_dir = [''run'', ''nomctl'']"

text \<open>Whether something was written, and whether that went well.\<close>

definition writeIfChanged :: "string \<Rightarrow> bytes \<Rightarrow> host \<Rightarrow> (bool \<times> bool) \<times> host" where
  "writeIfChanged f content h =
     (case on_machine (ReadFile (unit_path f)) h of (current, h1) \<Rightarrow>
      if current = Some content then ((False, True), h1)
      else case WriteUnit f content h1 of (ok, h2) \<Rightarrow> ((True, ok), h2))"

fun write_units :: "bool \<Rightarrow> (string \<times> bytes) list \<Rightarrow> host \<Rightarrow> (bool \<times> bool) \<times> host" where
  "write_units changed [] h = ((changed, True), h)"
| "write_units changed ((f, t) # us) h =
     (case writeIfChanged f t h of ((wrote, ok), h1) \<Rightarrow>
      if \<not> ok then ((changed, False), h1) else write_units (changed \<or> wrote) us h1)"

definition alert_files :: "string \<Rightarrow> tool_config \<Rightarrow> (string \<times> bytes) list" where
  "alert_files self cfg = [(alert_unit, UnitText self cfg), (probe_unit, ProbeText self cfg), (probe_timer, ProbeTimerText)]"

definition reload_changed :: "host \<Rightarrow> converge_error option \<times> host" where
  "reload_changed h =
     (case DaemonReload h of (ok, h1) \<Rightarrow>
      if \<not> ok then (Some NotReloaded, h1)
      else case IsActive_unit UnitName h1 of (ac, h2) \<Rightarrow>
        if \<not> ac then (None, h2)
        else case RestartUnit alert_unit h2 of (ok3, h3) \<Rightarrow> ((if ok3 then None else Some DaemonNotRestarted), h3))"

definition ensure_timer :: "host \<Rightarrow> converge_error option \<times> host" where
  "ensure_timer h =
     (case IsEnabled alert_unit h of (en, h1) \<Rightarrow>
      if \<not> en then (None, h1)
      else case IsEnabled probe_timer h1 of (tim, h2) \<Rightarrow>
        if tim then (None, h2)
        else case EnableNow probe_timer h2 of (ok, h3) \<Rightarrow> ((if ok then None else Some TimerNotEnabled), h3))"

definition secure_files :: "path \<Rightarrow> int \<Rightarrow> int \<Rightarrow> host \<Rightarrow> converge_error option \<times> host" where
  "secure_files configPath uid gid h =
     (case (if exists_at (ho_machine h) configPath then SecureConfig configPath gid h else (True, h)) of (ok, h1) \<Rightarrow>
      if \<not> ok then (Some ConfigNotSecured, h1)
      else case SecureRuntimeDir runtime_dir uid gid h1 of (ok2, h2) \<Rightarrow> ((if ok2 then None else Some RuntimeDirFailed), h2))"

text \<open>Whether anything was written, and the error.\<close>

definition Converge :: "converge_world \<Rightarrow> tool_config \<Rightarrow> path \<Rightarrow> host \<Rightarrow> (bool \<times> converge_error option) \<times> host" where
  "Converge w cfg configPath h =
     (case EnsureUser w of
        Inl e \<Rightarrow> ((False, Some e), h)
      | Inr (uid, gid) \<Rightarrow>
          (case secure_files configPath uid gid h of
             (Some e, h1) \<Rightarrow> ((False, Some e), h1)
           | (None, h1) \<Rightarrow>
               (case selfPath (cw_exe w) (cw_resolved w) of
                  None \<Rightarrow> ((False, Some NoSelfPath), h1)
                | Some self \<Rightarrow>
                    (case write_units False (alert_files self cfg) h1 of ((changed, ok), h2) \<Rightarrow>
                     if \<not> ok then ((changed, Some UnitNotWritten), h2)
                     else case (if changed then reload_changed h2 else (None, h2)) of
                       (Some e, h3) \<Rightarrow> ((True, Some e), h3)
                     | (None, h3) \<Rightarrow> (case ensure_timer h3 of (e, h4) \<Rightarrow> ((changed, e), h4))))))"

definition DefaultConfigPath :: path where "DefaultConfigPath = [''etc'', ''nomctl'', ''alerts.json'']"

definition InstallUnit :: "converge_world \<Rightarrow> tool_config \<Rightarrow> host \<Rightarrow> bool \<times> host" where
  "InstallUnit w cfg h =
     (case Converge w cfg DefaultConfigPath h of ((_, e), h1) \<Rightarrow>
      if e \<noteq> None then (False, h1)
      else case EnableNow probe_timer h1 of (ok2, h2) \<Rightarrow>
        if \<not> ok2 then (False, h2)
        else case EnableNow alert_unit h2 of (ok3, h3) \<Rightarrow> if \<not> ok3 then (False, h3) else RestartUnit alert_unit h3)"

text \<open>The unit files that were removed, and whether no removal failed for another reason than that there was no file.\<close>

fun remove_units :: "string list \<Rightarrow> host \<Rightarrow> (bool \<times> bool) \<times> host" where
  "remove_units [] h = ((False, True), h)"
| "remove_units (f # fs) h =
     (let there = exists_at (ho_machine h) (unit_path f) in
      case on_machine (RemoveFile (unit_path f)) h of (ok, h1) \<Rightarrow>
      case remove_units fs h1 of ((removed, good), h2) \<Rightarrow> ((ok \<or> removed, (ok \<or> \<not> there) \<and> good), h2))"

definition disable_if_there :: "string \<Rightarrow> host \<Rightarrow> bool \<times> host" where
  "disable_if_there f h = (if exists_at (ho_machine h) (unit_path f) then Disable f h else (True, h))"

definition UninstallUnit :: "host \<Rightarrow> bool \<times> host" where
  "UninstallUnit h =
     (case disable_if_there probe_timer h of (ok1, h1) \<Rightarrow>
      case disable_if_there alert_unit h1 of (ok2, h2) \<Rightarrow>
      case remove_units [alert_unit, probe_unit, probe_timer] h2 of ((removed, ok3), h3) \<Rightarrow>
      case (if removed then DaemonReload h3 else (True, h3)) of (ok4, h4) \<Rightarrow> (ok1 \<and> ok2 \<and> ok3 \<and> ok4, h4))"

definition ReloadDaemon :: "host \<Rightarrow> bool \<times> host" where "ReloadDaemon h = Reload alert_unit h"

section \<open>What writing leaves alone\<close>

lemma write_spec:
  assumes "writeIfChanged f t h = ((wrote, ok), h')"
  shows "ho_enabled h' = ho_enabled h \<and> ho_loaded h' = ho_loaded h \<and> ho_running h' = ho_running h \<and> ho_owner h' = ho_owner h \<and>
    mc_ctl (ho_machine h') = mc_ctl (ho_machine h) \<and>
    (\<forall>x. x \<noteq> unit_path f \<longrightarrow> mc_tree (ho_machine h') x = mc_tree (ho_machine h) x) \<and>
    (ok \<longrightarrow> unit_text h' f = Some t) \<and> (\<not> wrote \<longrightarrow> mc_tree (ho_machine h') = mc_tree (ho_machine h) \<and> ok)"
proof -
  obtain d m1 where 1: "ReadFile (unit_path f) (ho_machine h) = (d, m1)" by (cases "ReadFile (unit_path f) (ho_machine h)")
  obtain ok2 m2 where 2: "WriteOver (unit_path f) 420 t m1 = (ok2, m2)" by (cases "WriteOver (unit_path f) 420 t m1")
  note r = ReadFile_same[OF 1] and w = WriteOver_same[OF 2] WriteOver_tree[OF 2]
  have got: "mc_tree (ho_machine h) (unit_path f) = Some (Doc t' mode) \<Longrightarrow> d = Some t \<Longrightarrow> t' = t" for t' mode
    using 1 next_hazardD(1) by (auto simp: ReadFile_def split: prod.splits if_splits)
  have there: "d = Some t \<Longrightarrow> \<exists>mode. mc_tree (ho_machine h) (unit_path f) = Some (Doc t mode)"
    using 1 next_hazardD(1) by (auto simp: ReadFile_def split: prod.splits if_splits option.splits inode.splits)
  show ?thesis
  proof (cases "d = Some t")
    case True
    with assms 1 r there show ?thesis by (auto simp: writeIfChanged_def on_machine_def unit_text_def host_same_def)
  next
    case False
    with assms 1 2 have eq: "h' = h\<lparr> ho_machine := m2 \<rparr>" "wrote" "ok = ok2" by (auto simp: writeIfChanged_def on_machine_def WriteUnit_def)
    have "ok2 \<Longrightarrow> \<exists>mode. mc_tree m2 (unit_path f) = Some (Doc t mode)" by (cases ok2) (use 2 WriteOver_ok in auto)
    with eq r w show ?thesis by (auto simp: unit_text_def host_same_def)
  qed
qed

lemma write_units_spec:
  assumes "write_units c us h = ((c', True), h')" "distinct (map fst us)"
  shows "ho_enabled h' = ho_enabled h \<and> ho_loaded h' = ho_loaded h \<and> ho_running h' = ho_running h \<and> ho_owner h' = ho_owner h \<and>
    mc_ctl (ho_machine h') = mc_ctl (ho_machine h) \<and>
    (\<forall>x. x \<notin> unit_path ` fst ` set us \<longrightarrow> mc_tree (ho_machine h') x = mc_tree (ho_machine h) x) \<and>
    (\<forall>(f, t) \<in> set us. unit_text h' f = Some t) \<and> (\<not> c' \<longrightarrow> mc_tree (ho_machine h') = mc_tree (ho_machine h) \<and> \<not> c)"
  using assms
proof (induction us arbitrary: c h)
  case (Cons u us)
  obtain f t where u: "u = (f, t)" by (cases u)
  obtain wrote ok h1 where 1: "writeIfChanged f t h = ((wrote, ok), h1)" by (metis surj_pair)
  from Cons.prems(1) u 1 have ok and 2: "write_units (c \<or> wrote) us h1 = ((c', True), h')" by (auto split: if_splits)
  have d: "distinct (map fst us)" "f \<notin> fst ` set us" using Cons.prems(2) u by auto
  note w = write_spec[OF 1] and ih = Cons.IH[OF 2 d(1)]
  have "unit_path f \<notin> unit_path ` fst ` set us" using d(2) by (metis (no_types) image_iff unit_path_inj)
  then have "mc_tree (ho_machine h') (unit_path f) = mc_tree (ho_machine h1) (unit_path f)" using ih by blast
  then have "unit_text h' f = unit_text h1 f" by (rule unit_text_tree)
  then have f: "unit_text h' f = Some t" using w \<open>ok\<close> by simp
  have outside: "mc_tree (ho_machine h') x = mc_tree (ho_machine h) x" if "x \<notin> unit_path ` fst ` set (u # us)" for x
    using that u ih w by auto
  have new: False if "(f, b) \<in> set us" for b using d(2) that by (metis fst_conv image_eqI)
  show ?case using f outside ih w u by (auto dest: new)
qed simp

lemma alert_names [simp]: "alert_unit \<noteq> probe_unit" "alert_unit \<noteq> probe_timer" "probe_unit \<noteq> probe_timer"
    "probe_unit \<noteq> alert_unit" "probe_timer \<noteq> alert_unit" "probe_timer \<noteq> probe_unit"
    "unit_file alert_unit = alert_unit" "unit_file probe_timer = probe_timer" "unit_file UnitName = alert_unit"
  by code_simp+

lemma alert_files_distinct: "distinct (map fst (alert_files self cfg))" by (simp add: alert_files_def)

lemma config_apart: "DefaultConfigPath \<noteq> unit_path f" "DefaultConfigPath \<noteq> runtime_dir @ [g]" "DefaultConfigPath \<noteq> runtime_dir"
  by (simp_all add: DefaultConfigPath_def unit_path_def runtime_dir_def)

lemma SecureConfig_spec:
  assumes "SecureConfig p gid h = (True, h')"
  shows "same_units h h' \<and> ho_owner h' = (ho_owner h)(p := Some (0, gid)) \<and>
    (\<forall>d old. mc_tree (ho_machine h) p = Some (Doc d old) \<longrightarrow> mc_tree (ho_machine h') p = Some (Doc d 416))"
proof -
  obtain ok h1 where 1: "Chown p 0 gid h = (ok, h1)" by (cases "Chown p 0 gid h")
  with assms have ok and 2: "Chmod p 416 h1 = (True, h')" by (auto simp: SecureConfig_def split: if_splits)
  from Chown_spec[OF 1] Chmod_spec[OF 2] \<open>ok\<close> same_units_trans show ?thesis by simp metis
qed

lemma SecureRuntimeDir_spec:
  assumes "SecureRuntimeDir dir uid gid h = (True, h')"
  shows "same_units h h' \<and> ho_owner h' dir = Some (uid, gid) \<and>
    (\<forall>x. x \<noteq> dir \<longrightarrow> x \<noteq> dir @ [''alerts-state.json''] \<longrightarrow> ho_owner h' x = ho_owner h x) \<and>
    (\<forall>x d mode. mc_tree (ho_machine h) x = Some (Doc d mode) \<longrightarrow> mc_tree (ho_machine h') x = Some (Doc d mode))"
proof -
  let ?s = "dir @ [''alerts-state.json'']"
  obtain ok1 h1 where 1: "on_machine (MkdirAll dir) h = (ok1, h1)" by (cases "on_machine (MkdirAll dir) h")
  obtain ok2 h2 where 2: "Chown dir uid gid h1 = (ok2, h2)" by (cases "Chown dir uid gid h1")
  obtain ok3 h3 where 3: "Chown ?s uid gid h2 = (ok3, h3)" by (cases "Chown ?s uid gid h2")
  note s1 = mkdir_spec[OF 1] and s2 = Chown_spec[OF 2] and s3 = Chown_spec[OF 3]
  from assms 1 2 3 have ok: ok1 ok2 and h': "h' = h2 \<or> h' = h3 \<and> ok3"
    by (auto simp: SecureRuntimeDir_def split: if_splits)
  have u: "same_units h h2" using s1 s2 same_units_trans by blast
  have o: "ho_owner h2 = (ho_owner h)(dir := Some (uid, gid))" using s1 s2 ok by simp
  have t: "mc_tree (ho_machine h') = mc_tree (ho_machine h1)" using h' s2 s3 by auto
  have "same_units h h'" using h' u s3 same_units_trans by blast
  moreover have "ho_owner h' dir = Some (uid, gid)" using h' o s3 by auto
  moreover have "ho_owner h' x = ho_owner h x" if "x \<noteq> dir" "x \<noteq> ?s" for x using h' o s3 that by auto
  ultimately show ?thesis using s1 t by simp
qed

section \<open>What converging reaches\<close>

text \<open>An active unit runs the definition on disk.\<close>

definition settled :: "string \<Rightarrow> host \<Rightarrow> bool" where
  "settled f h \<longleftrightarrow> (ho_running h f = None \<or> ho_running h f = unit_text h f)"

lemma reload_spec:
  assumes "reload_changed h = (None, h')" "mc_ctl (ho_machine h) = []"
  shows "settled alert_unit h' \<and> ho_machine h' = ho_machine h \<and> ho_enabled h' = ho_enabled h \<and> ho_owner h' = ho_owner h"
proof -
  let ?h1 = "h\<lparr> ho_loaded := unit_text h \<rparr>"
  have q: "mc_ctl (ho_machine ?h1) = []" using assms(2) by simp
  have t: "unit_text ?h1 = unit_text h" by (simp add: unit_text_def fun_eq_iff)
  have r: "DaemonReload h = (True, ?h1)" by (simp add: DaemonReload_def run_unit_quiet[OF assms(2)])
  have ac: "IsActive_unit UnitName ?h1 = (ho_running h alert_unit \<noteq> None, ?h1)" by (simp add: IsActive_unit_def run_unit_quiet[OF q])
  have l: "loaded_text ?h1 alert_unit = unit_text h alert_unit" by (simp add: loaded_text_def t split: option.splits)
  have rs: "RestartUnit alert_unit ?h1 = (if unit_text h alert_unit \<noteq> None then (True, start_unit alert_unit ?h1) else (False, ?h1))"
    by (simp add: RestartUnit_def run_unit_quiet[OF q] known_code_def l)
  show ?thesis
  proof (cases "ho_running h alert_unit = None")
    case True
    with assms(1) r ac have "h' = ?h1" by (simp add: reload_changed_def)
    with True show ?thesis by (simp add: settled_def)
  next
    case False
    with assms(1) r ac rs have "h' = start_unit alert_unit ?h1" by (auto simp: reload_changed_def split: if_splits)
    then show ?thesis by (simp add: settled_def start_unit_def l) (simp add: unit_text_def)
  qed
qed

lemma timer_spec:
  assumes "ensure_timer h = (None, h')" "mc_ctl (ho_machine h) = []"
  shows "(ho_enabled h' alert_unit \<longrightarrow> ho_enabled h' probe_timer) \<and> ho_machine h' = ho_machine h \<and> ho_owner h' = ho_owner h \<and>
    ho_running h' alert_unit = ho_running h alert_unit"
proof (cases "ho_enabled h alert_unit \<and> \<not> ho_enabled h probe_timer")
  case True
  with assms show ?thesis
    by (auto simp: ensure_timer_def IsEnabled_def EnableNow_def run_unit_quiet start_unit_def Let_def split: if_splits)
next
  case False
  with assms show ?thesis by (auto simp: ensure_timer_def IsEnabled_def run_unit_quiet split: if_splits)
qed

lemma secure_files_spec:
  assumes "secure_files DefaultConfigPath uid gid h = (None, h')"
  shows "same_units h h' \<and> ho_owner h' runtime_dir = Some (uid, gid) \<and>
    (\<forall>d old. mc_tree (ho_machine h) DefaultConfigPath = Some (Doc d old) \<longrightarrow>
       mc_tree (ho_machine h') DefaultConfigPath = Some (Doc d 416) \<and> ho_owner h' DefaultConfigPath = Some (0, gid))"
proof -
  let ?p = DefaultConfigPath
  obtain ok1 h1 where 1: "(if exists_at (ho_machine h) ?p then SecureConfig ?p gid h else (True, h)) = (ok1, h1)" by (metis surj_pair)
  obtain ok2 h2 where 2: "SecureRuntimeDir runtime_dir uid gid h1 = (ok2, h2)" by (cases "SecureRuntimeDir runtime_dir uid gid h1")
  from assms 1 2 have ok: ok1 ok2 "h' = h2" by (auto simp: secure_files_def split: if_splits)
  have s1: "same_units h h1" "\<And>d old. mc_tree (ho_machine h) ?p = Some (Doc d old) \<Longrightarrow>
      mc_tree (ho_machine h1) ?p = Some (Doc d 416) \<and> ho_owner h1 ?p = Some (0, gid)"
    using 1 ok(1) SecureConfig_spec[of ?p gid h h1] by (auto simp: exists_at_def split: if_splits)
  note s2 = SecureRuntimeDir_spec[of runtime_dir uid gid h1 h']
  have "SecureRuntimeDir runtime_dir uid gid h1 = (True, h')" using 2 ok by simp
  note s2 = s2[OF this]
  have "same_units h h'" by (rule same_units_trans[OF s1(1) s2[THEN conjunct1]])
  moreover have "mc_tree (ho_machine h') ?p = Some (Doc d 416) \<and> ho_owner h' ?p = Some (0, gid)"
    if "mc_tree (ho_machine h) ?p = Some (Doc d old)" for d old
    using s1(2)[OF that] s2 config_apart by simp
  ultimately show ?thesis using s2[THEN conjunct2, THEN conjunct1] by blast
qed

text \<open>The parts of a run that succeeds.\<close>

lemma Converge_parts:
  assumes "Converge w cfg p h = ((changed, None), h')"
  obtains uid gid h1 self h2 h3 where "EnsureUser w = Inr (uid, gid)" "secure_files p uid gid h = (None, h1)"
    "selfPath (cw_exe w) (cw_resolved w) = Some self" "write_units False (alert_files self cfg) h1 = ((changed, True), h2)"
    "(if changed then reload_changed h2 else (None, h2)) = (None, h3)" "ensure_timer h3 = (None, h')"
proof -
  obtain uid gid where u: "EnsureUser w = Inr (uid, gid)" using assms by (auto simp: Converge_def split: sum.splits)
  obtain e1 h1 where 1: "secure_files p uid gid h = (e1, h1)" by (cases "secure_files p uid gid h")
  note run = assms[unfolded Converge_def u sum.case prod.case 1]
  from run have e1: "e1 = None" by (cases e1) auto
  note run = run[unfolded e1 option.case]
  obtain self where s: "selfPath (cw_exe w) (cw_resolved w) = Some self" using run by (cases "selfPath (cw_exe w) (cw_resolved w)") auto
  obtain c ok h2 where 2: "write_units False (alert_files self cfg) h1 = ((c, ok), h2)" by (metis surj_pair)
  note run = run[unfolded s option.case 2 prod.case]
  from run have ok by (cases ok) auto
  obtain e3 h3 where 3: "(if c then reload_changed h2 else (None, h2)) = (e3, h3)" by (metis surj_pair)
  obtain e4 h4 where 4: "ensure_timer h3 = (e4, h4)" by (cases "ensure_timer h3")
  from run \<open>ok\<close> 3 4 have "e3 = None" "e4 = None" "c = changed" "h4 = h'" by (auto split: option.splits)
  with that[OF u 1[unfolded e1] s _ _ _] 2 3 4 \<open>ok\<close> show ?thesis by simp
qed

lemma Converge_reaches:
  assumes "Converge w cfg DefaultConfigPath h = ((changed, None), h')" "mc_ctl (ho_machine h) = []"
  shows "\<exists>uid gid self. EnsureUser w = Inr (uid, gid) \<and> selfPath (cw_exe w) (cw_resolved w) = Some self \<and>
    (\<forall>(f, t) \<in> set (alert_files self cfg). unit_text h' f = Some t) \<and>
    (\<forall>d old. mc_tree (ho_machine h) DefaultConfigPath = Some (Doc d old) \<longrightarrow>
       mc_tree (ho_machine h') DefaultConfigPath = Some (Doc d 416) \<and> ho_owner h' DefaultConfigPath = Some (0, gid)) \<and>
    ho_owner h' runtime_dir = Some (uid, gid) \<and>
    (ho_enabled h' alert_unit \<longrightarrow> ho_enabled h' probe_timer) \<and>
    (changed \<or> settled alert_unit h \<longrightarrow> settled alert_unit h') \<and> mc_ctl (ho_machine h') = []"
proof -
  obtain uid gid h1 self h2 h3 where parts: "EnsureUser w = Inr (uid, gid)" "secure_files DefaultConfigPath uid gid h = (None, h1)"
    "selfPath (cw_exe w) (cw_resolved w) = Some self" "write_units False (alert_files self cfg) h1 = ((changed, True), h2)"
    "(if changed then reload_changed h2 else (None, h2)) = (None, h3)" "ensure_timer h3 = (None, h')"
    by (rule Converge_parts[OF assms(1)])
  note s1 = secure_files_spec[OF parts(2)]
  note s2 = write_units_spec[OF parts(4) alert_files_distinct]
  have q2: "mc_ctl (ho_machine h2) = []" using s1 s2 assms(2) by (simp add: same_units_def)
  have s3: "ho_machine h3 = ho_machine h2" "ho_owner h3 = ho_owner h2" "changed \<Longrightarrow> settled alert_unit h3" "\<not> changed \<Longrightarrow> h3 = h2"
    using parts(5) reload_spec[OF _ q2, of h3] by (auto split: if_splits)
  have q3: "mc_ctl (ho_machine h3) = []" using q2 s3 by simp
  note s4 = timer_spec[OF parts(6) q3]
  have m: "ho_machine h' = ho_machine h2" "ho_owner h' = ho_owner h1" using s2 s3 s4 by simp_all
  have t: "unit_text h' f = unit_text h2 f" "unit_text h' f = unit_text h3 f" for f using m s3 by (simp_all add: unit_text_def)
  have "DefaultConfigPath \<notin> unit_path ` fst ` set (alert_files self cfg)" using config_apart by auto
  then have cfg: "mc_tree (ho_machine h') DefaultConfigPath = mc_tree (ho_machine h1) DefaultConfigPath" using s2 m by simp
  have "settled alert_unit h'" if "changed \<or> settled alert_unit h"
  proof (cases changed)
    case True
    with s3 s4 t show ?thesis by (simp add: settled_def)
  next
    case False
    with that s1 s2 s3 have "settled alert_unit h3" by (simp add: settled_def same_units_def unit_text_def)
    with s4 t show ?thesis by (simp add: settled_def)
  qed
  moreover have "\<forall>(f, t) \<in> set (alert_files self cfg). unit_text h' f = Some t" using s2 t by simp
  moreover have "\<forall>d old. mc_tree (ho_machine h) DefaultConfigPath = Some (Doc d old) \<longrightarrow>
       mc_tree (ho_machine h') DefaultConfigPath = Some (Doc d 416) \<and> ho_owner h' DefaultConfigPath = Some (0, gid)"
    using s1 cfg m by simp
  moreover have "ho_owner h' runtime_dir = Some (uid, gid)" using s1 m by simp
  ultimately show ?thesis using parts(1,3) s4 m q2 by auto
qed

section \<open>Converging again\<close>

text \<open>Without hazards and odd answers, the calls of a second run find everything as they want it.\<close>

definition calm_host :: "host \<Rightarrow> bool" where
  "calm_host h \<longleftrightarrow> mc_hazards (ho_machine h) = [] \<and> mc_ctl (ho_machine h) = []"

lemma next_hazard_none: "mc_hazards m = [] \<Longrightarrow> next_hazard m = (Fine, m)" by (simp add: next_hazard_def)

lemma Chown_again:
  assumes "mc_hazards (ho_machine h) = []" "exists_at (ho_machine h) p" "ho_owner h p = Some (uid, gid)"
  shows "Chown p uid gid h = (True, h)"
proof -
  have "(ho_owner h)(p := Some (uid, gid)) = ho_owner h" using assms(3) by (metis fun_upd_triv)
  with assms(1,2) show ?thesis by (simp add: Chown_def on_machine_def next_hazard_none)
qed

lemma Chmod_again:
  assumes "mc_hazards (ho_machine h) = []" "mc_tree (ho_machine h) p = Some (Doc d mode)"
  shows "Chmod p mode h = (True, h)"
proof -
  have "(mc_tree (ho_machine h))(p \<mapsto> Doc d mode) = mc_tree (ho_machine h)" using assms(2) by (metis fun_upd_triv)
  with assms show ?thesis by (simp add: Chmod_def chmod_at_def on_machine_def next_hazard_none put_def)
qed

lemma Chmod_folder:
  assumes "mc_hazards (ho_machine h) = []" "mc_tree (ho_machine h) p = Some Folder" shows "Chmod p mode h = (True, h)"
  using assms by (simp add: Chmod_def chmod_at_def on_machine_def next_hazard_none)

lemma mkdir_again:
  assumes "mc_hazards m = []" "\<forall>q \<in> set (ancestors p). mc_tree m q = Some Folder"
  shows "MkdirAll p m = (True, m)"
proof -
  have "with_folders (ancestors p) (mc_tree m) = mc_tree m" using assms(2) by (auto simp: with_folders_def fun_eq_iff)
  moreover have "\<not> (\<exists>q \<in> set (ancestors p). mc_tree m q \<noteq> None \<and> mc_tree m q \<noteq> Some Folder)" using assms(2) by simp
  ultimately show ?thesis using assms(1) by (simp add: MkdirAll_def next_hazard_none)
qed

lemma mkdir_made:
  assumes "MkdirAll p m = (True, m')" shows "\<forall>q \<in> set (ancestors p). mc_tree m' q = Some Folder"
  using assms by (auto simp: MkdirAll_def with_folders_def split: prod.splits if_splits hazard.splits)

lemma write_again:
  assumes "mc_hazards (ho_machine h) = []" "unit_text h f = Some t"
  shows "writeIfChanged f t h = ((False, True), h)"
  using assms by (auto simp: writeIfChanged_def on_machine_def ReadFile_def next_hazard_none unit_text_def split: option.splits inode.splits)

lemma write_units_again:
  "mc_hazards (ho_machine h) = [] \<Longrightarrow> \<forall>(f, t) \<in> set us. unit_text h f = Some t \<Longrightarrow> write_units c us h = ((c, True), h)"
  by (induction us) (auto simp: write_again)

lemma timer_again:
  assumes "mc_ctl (ho_machine h) = []" "ho_enabled h alert_unit \<longrightarrow> ho_enabled h probe_timer"
  shows "ensure_timer h = (None, h)"
  using assms by (auto simp: ensure_timer_def IsEnabled_def run_unit_quiet)

text \<open>What a second run needs of the files to find them secured.\<close>

definition secured :: "int \<Rightarrow> int \<Rightarrow> host \<Rightarrow> bool" where
  "secured uid gid h \<longleftrightarrow>
     (exists_at (ho_machine h) DefaultConfigPath \<longrightarrow>
        ((\<exists>d. mc_tree (ho_machine h) DefaultConfigPath = Some (Doc d 416)) \<or> mc_tree (ho_machine h) DefaultConfigPath = Some Folder) \<and> ho_owner h DefaultConfigPath = Some (0, gid)) \<and>
     (\<forall>q \<in> set (ancestors runtime_dir). mc_tree (ho_machine h) q = Some Folder) \<and> ho_owner h runtime_dir = Some (uid, gid) \<and>
     (exists_at (ho_machine h) (runtime_dir @ [''alerts-state.json'']) \<longrightarrow> ho_owner h (runtime_dir @ [''alerts-state.json'']) = Some (uid, gid))"

lemma secure_again:
  assumes "secured uid gid h" "mc_hazards (ho_machine h) = []"
  shows "secure_files DefaultConfigPath uid gid h = (None, h)"
proof -
  let ?p = DefaultConfigPath and ?s = "runtime_dir @ [''alerts-state.json'']"
  note sec = assms(1)[unfolded secured_def]
  have 1: "(if exists_at (ho_machine h) ?p then SecureConfig ?p gid h else (True, h)) = (True, h)"
  proof (cases "exists_at (ho_machine h) ?p")
    case True
    with sec have t: "(\<exists>d. mc_tree (ho_machine h) ?p = Some (Doc d 416)) \<or> mc_tree (ho_machine h) ?p = Some Folder"
      and o: "ho_owner h ?p = Some (0, gid)" by blast+
    have "Chmod ?p 416 h = (True, h)"
      using t Chmod_again[OF assms(2), of ?p _ 416] Chmod_folder[OF assms(2), of ?p 416] by blast
    with True Chown_again[OF assms(2) True o] show ?thesis by (simp add: SecureConfig_def)
  qed simp
  have "runtime_dir \<in> set (ancestors runtime_dir)" by (simp add: set_ancestors) (simp add: runtime_dir_def)
  then have e: "exists_at (ho_machine h) runtime_dir" using sec by (simp add: exists_at_def)
  have "on_machine (MkdirAll runtime_dir) h = (True, h)" using mkdir_again[OF assms(2)] sec by (simp add: on_machine_def)
  moreover have "Chown runtime_dir uid gid h = (True, h)" using Chown_again[OF assms(2) e] sec by blast
  moreover have "Chown ?s uid gid h = (True, h)" if "exists_at (ho_machine h) ?s" using Chown_again[OF assms(2) that] sec that by blast
  ultimately have "SecureRuntimeDir runtime_dir uid gid h = (True, h)" by (simp add: SecureRuntimeDir_def)
  with 1 show ?thesis by (simp add: secure_files_def)
qed

lemma Converge_again:
  assumes "EnsureUser w = Inr (uid, gid)" "selfPath (cw_exe w) (cw_resolved w) = Some self" "calm_host h" "secured uid gid h"
    "\<forall>(f, t) \<in> set (alert_files self cfg). unit_text h f = Some t" "ho_enabled h alert_unit \<longrightarrow> ho_enabled h probe_timer"
  shows "Converge w cfg DefaultConfigPath h = ((False, None), h)"
proof -
  have c: "mc_hazards (ho_machine h) = []" "mc_ctl (ho_machine h) = []" using assms(3) by (simp_all add: calm_host_def)
  show ?thesis
    unfolding Converge_def assms(1,2) sum.case prod.case secure_again[OF assms(4) c(1)] option.case write_units_again[OF c(1) assms(5)]
      prod.case
    by (simp add: timer_again[OF c(2) assms(6)])
qed

text \<open>A run that succeeds secures the files.\<close>

lemma Chmod_made:
  assumes "Chmod p mode h = (True, h')"
  shows "(\<exists>d. mc_tree (ho_machine h') p = Some (Doc d mode)) \<or> mc_tree (ho_machine h') p = Some Folder"
  using assms by (auto simp: Chmod_def chmod_at_def on_machine_def put_def split: prod.splits option.splits inode.splits if_splits)

lemma SecureConfig_made:
  assumes "SecureConfig p gid h = (True, h')"
  shows "(\<exists>d. mc_tree (ho_machine h') p = Some (Doc d 416)) \<or> mc_tree (ho_machine h') p = Some Folder"
proof -
  obtain ok h1 where 1: "Chown p 0 gid h = (ok, h1)" by (cases "Chown p 0 gid h")
  with assms have "Chmod p 416 h1 = (True, h')" by (auto simp: SecureConfig_def split: if_splits)
  from Chmod_made[OF this] show ?thesis .
qed

lemma secure_makes:
  assumes "secure_files DefaultConfigPath uid gid h = (None, h')"
  shows "secured uid gid h'"
proof -
  let ?p = DefaultConfigPath and ?s = "runtime_dir @ [''alerts-state.json'']"
  obtain ok1 h1 where 1: "(if exists_at (ho_machine h) ?p then SecureConfig ?p gid h else (True, h)) = (ok1, h1)" by (metis surj_pair)
  obtain ok2 h2 where 2: "on_machine (MkdirAll runtime_dir) h1 = (ok2, h2)" by (cases "on_machine (MkdirAll runtime_dir) h1")
  obtain ok3 h3 where 3: "Chown runtime_dir uid gid h2 = (ok3, h3)" by (cases "Chown runtime_dir uid gid h2")
  obtain ok4 h4 where 4: "Chown ?s uid gid h3 = (ok4, h4)" by (cases "Chown ?s uid gid h3")
  from assms 1 2 3 4 have ok: ok1 ok2 ok3 and h': "if exists_at (ho_machine h3) ?s then h' = h4 \<and> ok4 else h' = h3"
    by (auto simp: secure_files_def SecureRuntimeDir_def split: if_splits)
  note c2 = mkdir_spec[OF 2] and c3 = Chown_spec[OF 3] and c4 = Chown_spec[OF 4]
  have t: "mc_tree (ho_machine h') = mc_tree (ho_machine h2)" using h' c3 c4 by (auto split: if_splits)
  have same: "mc_tree (ho_machine h2) x = mc_tree (ho_machine h1) x" if "\<not> prefix x runtime_dir" for x
    using 2 that MkdirAll_tree[of runtime_dir "ho_machine h1" ok2] by (fastforce simp: on_machine_def split: prod.splits)
  have o: "ho_owner h3 = (ho_owner h1)(runtime_dir := Some (uid, gid))" using c2 c3 ok by simp
  have apart: "\<not> prefix ?p runtime_dir" "?p \<noteq> runtime_dir" "?p \<noteq> ?s" "?s \<noteq> runtime_dir" by (simp_all add: DefaultConfigPath_def runtime_dir_def)
  have cfg: "((\<exists>d. mc_tree (ho_machine h1) ?p = Some (Doc d 416)) \<or> mc_tree (ho_machine h1) ?p = Some Folder) \<and> ho_owner h1 ?p = Some (0, gid)"
    if "exists_at (ho_machine h1) ?p"
  proof (cases "exists_at (ho_machine h) ?p")
    case True
    with 1 ok have sc: "SecureConfig ?p gid h = (True, h1)" by simp
    from SecureConfig_made[OF sc] SecureConfig_spec[OF sc] show ?thesis by simp
  next
    case False
    with 1 that show ?thesis by simp
  qed
  have made: "\<forall>q \<in> set (ancestors runtime_dir). mc_tree (ho_machine h2) q = Some Folder"
    using 2 ok(2) mkdir_made[of runtime_dir "ho_machine h1"] by (auto simp: on_machine_def split: prod.splits)
  have "exists_at (ho_machine h') ?p = exists_at (ho_machine h1) ?p" "mc_tree (ho_machine h') ?p = mc_tree (ho_machine h1) ?p"
    using t same[OF apart(1)] by (simp_all add: exists_at_def)
  moreover have "ho_owner h' ?p = ho_owner h1 ?p" using h' o c4 apart by (auto split: if_splits)
  moreover have "ho_owner h' runtime_dir = Some (uid, gid)" using h' o c4 apart(4) by (auto split: if_splits)
  moreover have "ho_owner h' ?s = Some (uid, gid)" if "exists_at (ho_machine h') ?s"
    using that h' c3 c4 t by (auto simp: exists_at_def split: if_splits)
  ultimately show ?thesis unfolding secured_def using cfg made t by simp
qed

lemma secured_cong:
  assumes "ho_owner h' = ho_owner h" "\<forall>x. x \<notin> range unit_path \<longrightarrow> mc_tree (ho_machine h') x = mc_tree (ho_machine h) x"
  shows "secured uid gid h' = secured uid gid h"
proof -
  have same: "mc_tree (ho_machine h') x = mc_tree (ho_machine h) x" if "length x \<noteq> 4" for x
  proof -
    have "x \<notin> range unit_path" using that by (auto simp: unit_path_def)
    with assms(2) show ?thesis by blast
  qed
  have "mc_tree (ho_machine h') q = mc_tree (ho_machine h) q" if "q \<in> set (ancestors runtime_dir)" for q
  proof (rule same)
    have "length q \<le> length runtime_dir" using that prefix_length_le by (auto simp: set_ancestors)
    then show "length q \<noteq> 4" by (simp add: runtime_dir_def)
  qed
  moreover have "length DefaultConfigPath \<noteq> 4" "length (runtime_dir @ [''alerts-state.json'']) \<noteq> 4"
    by (simp_all add: DefaultConfigPath_def runtime_dir_def)
  note same[OF this(1)] same[OF this(2)]
  ultimately show ?thesis using assms(1) by (simp add: secured_def exists_at_def)
qed

text \<open>No call brings hazards.\<close>

definition fewer :: "host \<Rightarrow> host \<Rightarrow> bool" where
  "fewer h h' \<longleftrightarrow> set (mc_hazards (ho_machine h')) \<subseteq> set (mc_hazards (ho_machine h))"

lemma fewer_refl [simp]: "fewer h h" by (simp add: fewer_def)

lemma fewer_trans: "fewer a b \<Longrightarrow> fewer b c \<Longrightarrow> fewer a c" by (auto simp: fewer_def)

lemma on_machine_fewer:
  assumes "\<And>m a m'. f m = (a, m') \<Longrightarrow> host_same m m'" "on_machine f h = (a, h')"
  shows "fewer h h'"
proof -
  obtain m1 where m: "f (ho_machine h) = (a, m1)" "h' = h\<lparr> ho_machine := m1 \<rparr>"
    using assms(2) by (auto simp: on_machine_def split: prod.splits)
  from assms(1)[OF m(1)] m(2) show ?thesis by (simp add: fewer_def host_same_def)
qed

lemma chmod_at_same: "chmod_at p mode m = (ok, m') \<Longrightarrow> host_same m m'"
  by (auto simp: chmod_at_def dest!: next_hazard_same split: prod.splits option.splits inode.splits if_splits)

lemma Chown_fewer: "Chown p uid gid h = (ok, h') \<Longrightarrow> fewer h h'"
  by (auto simp: Chown_def on_machine_def fewer_def dest!: next_hazard_same split: prod.splits if_splits) (auto simp: host_same_def)

lemma Chmod_fewer: "Chmod p mode h = (ok, h') \<Longrightarrow> fewer h h'"
  unfolding Chmod_def by (rule on_machine_fewer[OF chmod_at_same])

lemma writeIfChanged_fewer: "writeIfChanged f t h = (r, h') \<Longrightarrow> fewer h h'"
proof -
  assume run: "writeIfChanged f t h = (r, h')"
  obtain d h1 where 1: "on_machine (ReadFile (unit_path f)) h = (d, h1)" by (cases "on_machine (ReadFile (unit_path f)) h")
  obtain ok h2 where 2: "WriteUnit f t h1 = (ok, h2)" by (cases "WriteUnit f t h1")
  have "fewer h h1" using on_machine_fewer[OF _ 1] ReadFile_same by blast
  moreover have "fewer h1 h2" by (rule on_machine_fewer[OF _ 2[unfolded WriteUnit_def]]) (rule WriteOver_same)
  ultimately show ?thesis using run 1 2 fewer_trans by (auto simp: writeIfChanged_def split: if_splits)
qed

lemma write_units_fewer: "write_units c us h = (r, h') \<Longrightarrow> fewer h h'"
proof (induction us arbitrary: c h)
  case (Cons u us)
  obtain f t where u: "u = (f, t)" by (cases u)
  obtain wrote ok h1 where 1: "writeIfChanged f t h = ((wrote, ok), h1)" by (metis surj_pair)
  from Cons.prems u 1 have "h' = h1 \<or> write_units (c \<or> wrote) us h1 = (r, h')" by (auto split: if_splits)
  with Cons.IH writeIfChanged_fewer[OF 1] fewer_trans show ?case by blast
qed simp

lemma secure_files_fewer: "secure_files p uid gid h = (e, h') \<Longrightarrow> fewer h h'"
proof -
  assume run: "secure_files p uid gid h = (e, h')"
  let ?s = "runtime_dir @ [''alerts-state.json'']"
  obtain a1 h1 where 1: "Chown p 0 gid h = (a1, h1)" by (cases "Chown p 0 gid h")
  obtain a2 h2 where 2: "Chmod p 416 h1 = (a2, h2)" by (cases "Chmod p 416 h1")
  have c: "fewer h h1" "fewer h h2" using Chown_fewer[OF 1] Chmod_fewer[OF 2] fewer_trans by blast+
  obtain b g where g: "(if exists_at (ho_machine h) p then SecureConfig p gid h else (True, h)) = (b, g)" by (metis surj_pair)
  have "fewer h g" using g 1 2 c by (auto simp: SecureConfig_def split: if_splits)
  moreover have "fewer g k" if "SecureRuntimeDir runtime_dir uid gid g = (x, k)" for x k
  proof -
    obtain b1 g1 where 3: "on_machine (MkdirAll runtime_dir) g = (b1, g1)" by (cases "on_machine (MkdirAll runtime_dir) g")
    obtain b2 g2 where 4: "Chown runtime_dir uid gid g1 = (b2, g2)" by (cases "Chown runtime_dir uid gid g1")
    obtain b3 g3 where 5: "Chown ?s uid gid g2 = (b3, g3)" by (cases "Chown ?s uid gid g2")
    have "fewer g g1" by (rule on_machine_fewer[OF MkdirAll_same 3])
    with Chown_fewer[OF 4] Chown_fewer[OF 5] fewer_trans have "fewer g g1" "fewer g g2" "fewer g g3" by blast+
    with that 3 4 5 show ?thesis by (auto simp: SecureRuntimeDir_def split: if_splits)
  qed
  ultimately show ?thesis using run g fewer_trans by (auto simp: secure_files_def split: if_splits prod.splits)
qed

lemma Converge_settles:
  assumes "Converge w cfg DefaultConfigPath h = ((changed, None), h')" "calm_host h"
  shows "calm_host h' \<and> (\<exists>uid gid. EnsureUser w = Inr (uid, gid) \<and> secured uid gid h')"
proof -
  obtain uid gid h1 self h2 h3 where parts: "EnsureUser w = Inr (uid, gid)" "secure_files DefaultConfigPath uid gid h = (None, h1)"
    "selfPath (cw_exe w) (cw_resolved w) = Some self" "write_units False (alert_files self cfg) h1 = ((changed, True), h2)"
    "(if changed then reload_changed h2 else (None, h2)) = (None, h3)" "ensure_timer h3 = (None, h')"
    by (rule Converge_parts[OF assms(1)])
  have q: "mc_ctl (ho_machine h) = []" "mc_hazards (ho_machine h) = []" using assms(2) by (simp_all add: calm_host_def)
  note s1 = secure_files_spec[OF parts(2)] and s2 = write_units_spec[OF parts(4) alert_files_distinct]
  have q2: "mc_ctl (ho_machine h2) = []" using s1 s2 q by (simp add: same_units_def)
  have s3: "ho_machine h3 = ho_machine h2" "ho_owner h3 = ho_owner h2"
    using parts(5) reload_spec[OF _ q2, of h3] by (auto split: if_splits)
  have q3: "mc_ctl (ho_machine h3) = []" using q2 s3 by simp
  note s4 = timer_spec[OF parts(6) q3]
  have m: "ho_machine h' = ho_machine h2" "ho_owner h' = ho_owner h1" using s2 s3 s4 by simp_all
  have "fewer h h2" using secure_files_fewer[OF parts(2)] write_units_fewer[OF parts(4)] fewer_trans by blast
  then have "calm_host h'" using q q2 m by (simp add: calm_host_def fewer_def)
  moreover have "\<forall>x. x \<notin> range unit_path \<longrightarrow> mc_tree (ho_machine h') x = mc_tree (ho_machine h1) x" using s2 m by auto
  then have "secured uid gid h'" using secured_cong[OF m(2)] secure_makes[OF parts(2)] by blast
  ultimately show ?thesis using parts(1) by blast
qed

end
