(* ===== verification/Deploy.thy ===== *)
theory Deploy
  imports Unit_Host Tool_Config
begin

text \<open>
  Building and installing the node, \<^verbatim>\<open>internal/deploy/deploy.go\<close> with the file helpers of \<^verbatim>\<open>internal/fsx/fsx.go\<close>: the toolchain, the
  clone and build, the installation of the binary and the unit.  git, go, tar, apt-get and the web are parameters.
\<close>

section \<open>Files and downloads\<close>

text \<open>A directory is moved aside under its name and a time.\<close>

definition RenameExisting :: "string \<Rightarrow> path \<Rightarrow> machine \<Rightarrow> bool \<times> machine" where
  "RenameExisting stamp dir m = (if \<not> is_folder m dir then (True, m) else Rename dir (beside dir (''-'' @ stamp)) m)"

definition CopyFile :: "path \<Rightarrow> path \<Rightarrow> int \<Rightarrow> machine \<Rightarrow> bool \<times> machine" where
  "CopyFile src dst mode m =
     (case ReadFile src m of
        (None, m1) \<Rightarrow> (False, m1)
      | (Some d, m1) \<Rightarrow>
          (case MkdirAll (up dst) m1 of (ok2, m2) \<Rightarrow>
           if \<not> ok2 then (False, m2)
           else case WriteOver (beside dst ''.tmp'') mode [] m2 of (ok3, m3) \<Rightarrow>
             if \<not> ok3 then (False, m3)
             else case WriteOver (beside dst ''.tmp'') mode d m3 of (ok4, m4) \<Rightarrow>
               if \<not> ok4 then (False, snd (RemoveFile (beside dst ''.tmp'') m4)) else Rename (beside dst ''.tmp'') dst m4))"

definition Download_file :: "(string \<Rightarrow> web_answer) \<Rightarrow> string \<Rightarrow> path \<Rightarrow> machine \<Rightarrow> bool \<times> machine" where
  "Download_file get url dest m =
     (case get url of
        Unreachable \<Rightarrow> (False, m)
      | Answer status len body whole \<Rightarrow>
          if status < 200 \<or> status > 299 then (False, m)
          else case MkdirAll (up dest) m of (ok1, m1) \<Rightarrow>
            if \<not> ok1 then (False, m1)
            else case WriteOver dest 420 [] m1 of (ok2, m2) \<Rightarrow>
              if \<not> ok2 then (False, m2)
              else case WriteOver dest 420 body m2 of (ok3, m3) \<Rightarrow>
                if ok3 \<and> whole then (True, m3) else (False, snd (RemoveFile dest m3)))"

section \<open>What is built\<close>

text \<open>The third word of \<^verbatim>\<open>go version\<close>.\<close>

definition ParseGoVersion :: "string \<Rightarrow> string" where
  "ParseGoVersion out = (let fs = str_fields out in if length fs < 3 then [] else fs ! 2)"

definition branch_name :: "string \<Rightarrow> string option" where
  "branch_name line = (let fs = str_fields line in if length fs < 2 then None else Some (trim_prefix (fs ! 1) ''refs/heads/''))"

text \<open>The branches in order, \<^verbatim>\<open>master\<close> first.\<close>

definition ParseBranches :: "string \<Rightarrow> string list" where
  "ParseBranches out =
     (let names = List.map_filter branch_name (split_on (CHR 0x0A) out);
          others = sort (filter (\<lambda>n. n \<noteq> ''master'') names) in
      if ''master'' \<in> set names then ''master'' # others else others)"

text \<open>
  The commands: which are installed, whether a run of \<^verbatim>\<open>apt-get\<close> works, what \<^verbatim>\<open>go version\<close> prints for given bytes, unpacking,
  cloning and building, the web, the architecture and the time.
\<close>

record deploy_world =
  dw_present :: "string \<Rightarrow> bool"
  dw_apt :: "string list \<Rightarrow> bool"
  dw_go :: "bytes \<Rightarrow> string option"
  dw_untar :: "path \<Rightarrow> path \<Rightarrow> machine \<Rightarrow> bool \<times> machine"
  dw_clone :: "string \<Rightarrow> string \<Rightarrow> path \<Rightarrow> machine \<Rightarrow> bool \<times> machine"
  dw_build :: "path \<Rightarrow> path \<Rightarrow> machine \<Rightarrow> bool \<times> machine"
  dw_get :: "string \<Rightarrow> web_answer"
  dw_arch :: string
  dw_stamp :: string

definition ListBranches :: "(string \<Rightarrow> string option) \<Rightarrow> string \<Rightarrow> string list option" where
  "ListBranches ls_remote url =
     (case ls_remote url of None \<Rightarrow> None | Some out \<Rightarrow> if ParseBranches out = [] then None else Some (ParseBranches out))"

definition InstallDependencies :: "deploy_world \<Rightarrow> bool" where
  "InstallDependencies w =
     (let missing = filter (\<lambda>t. \<not> dw_present w t) [''git'', ''make'', ''gcc''] in
      missing = [] \<or> (dw_apt w [''update'', ''-qq''] \<and> dw_apt w ([''install'', ''-y''] @ missing)))"

definition goVersion :: "deploy_world \<Rightarrow> path \<Rightarrow> machine \<Rightarrow> string option" where
  "goVersion w p m = (case mc_tree m p of Some (Doc d mode) \<Rightarrow> map_option ParseGoVersion (dw_go w d) | _ \<Rightarrow> None)"

definition fetch_go :: "deploy_world \<Rightarrow> tool_config \<Rightarrow> machine \<Rightarrow> bool \<times> machine" where
  "fetch_go w cfg m =
     (case GoURL (dw_arch w) cfg of
        None \<Rightarrow> (False, m)
      | Some url \<Rightarrow>
          (let work = path_of (tc_WorkDir cfg); tarball = work @ [''go.tar.gz''] in
           case Download_file (dw_get w) url tarball m of (ok1, m1) \<Rightarrow>
           if \<not> ok1 then (False, m1)
           else case dw_untar w work tarball m1 of (ok2, m2) \<Rightarrow> (ok2, snd (RemoveFile tarball m2))))"

definition InstallGo :: "deploy_world \<Rightarrow> tool_config \<Rightarrow> machine \<Rightarrow> bool \<times> machine" where
  "InstallGo w cfg m =
     (let go = path_of (tc_WorkDir cfg) @ [''go'', ''bin'', ''go'']; root = path_of (tc_WorkDir cfg) @ [''go''] in
      if \<not> exists_at m go then fetch_go w cfg m
      else if goVersion w go m = Some (''go'' @ tc_GoVersion cfg) then (True, m)
      else case RenameExisting (dw_stamp w) root m of (ok1, m1) \<Rightarrow> if \<not> ok1 then (False, m1) else fetch_go w cfg m1)"

datatype build_error = NotStoppedToBuild service_error | NotPrepared | NotCloned | NotBuilt | BinaryNotInstalled

definition binary_path :: "tool_config \<Rightarrow> path" where
  "binary_path cfg = path_of (tc_InstallDir cfg) @ [tc_BinaryName cfg]"

definition source_dir :: "tool_config \<Rightarrow> path" where
  "source_dir cfg = path_of (tc_WorkDir cfg) @ [tc_ServiceName cfg]"

definition built_path :: "tool_config \<Rightarrow> path" where
  "built_path cfg = source_dir cfg @ [''build'', tc_BinaryName cfg]"

definition StopIfRunning :: "machine \<Rightarrow> service_error option \<times> machine" where
  "StopIfRunning m =
     (case Status m of
        (None, m1) \<Rightarrow> (Some QueryFailed, m1)
      | (Some st, m1) \<Rightarrow>
          if st \<noteq> Active then (None, m1)
          else case run_ctl False m1 of (ok, m2) \<Rightarrow> ((if ok then None else Some StopFailed), m2))"

definition CloneAndBuild :: "deploy_world \<Rightarrow> tool_config \<Rightarrow> string \<Rightarrow> string \<Rightarrow> machine \<Rightarrow> build_error option \<times> machine" where
  "CloneAndBuild w cfg repo branch m =
     (case StopIfRunning m of
        (Some e, m1) \<Rightarrow> (Some (NotStoppedToBuild e), m1)
      | (None, m1) \<Rightarrow>
          (case RenameExisting (dw_stamp w) (source_dir cfg) m1 of (ok2, m2) \<Rightarrow>
           if \<not> ok2 then (Some NotPrepared, m2)
           else case dw_clone w repo branch (source_dir cfg) m2 of (ok3, m3) \<Rightarrow>
             if \<not> ok3 then (Some NotCloned, m3)
             else case dw_build w (source_dir cfg) (built_path cfg) m3 of (ok4, m4) \<Rightarrow>
               if \<not> ok4 then (Some NotBuilt, m4)
               else case CopyFile (built_path cfg) (binary_path cfg) 493 m4 of (ok5, m5) \<Rightarrow>
                 ((if ok5 then None else Some BinaryNotInstalled), m5)))"

section \<open>The service\<close>

definition UnitFile :: "tool_config \<Rightarrow> string" where
  "UnitFile cfg = concat (map (\<lambda>l. l @ nl)
     [''[Unit]'', ''Description='' @ tc_BinaryName cfg @ '' service'', ''After=network.target'', ''[Service]'', ''LimitNOFILE=32768'',
      ''User=root'', ''Group=root'', ''Type=simple'', ''SuccessExitStatus=SIGKILL 9'', ''ExecStart='' @ BinaryPath cfg,
      ''KillMode=control-group'', ''Restart=on-failure'', ''TimeoutStopSec=10s'', ''TimeoutStartSec=10s'', ''[Install]'',
      ''WantedBy=multi-user.target''])"

datatype create_error = NodeUnitNotWritten | DaemonNotReloaded | NodeNotEnabled | NodeNotRestarted

text \<open>Whether an existing unit file was changed, and whether the file is as wanted now.\<close>

definition current_unit :: "string \<Rightarrow> bytes \<Rightarrow> host \<Rightarrow> (bool \<times> bool) \<times> host" where
  "current_unit f want h =
     (case on_machine (ReadFile (unit_path f)) h of (current, h1) \<Rightarrow>
      if current = Some want then ((False, True), h1)
      else case WriteUnit f want h1 of (ok, h2) \<Rightarrow> ((current \<noteq> None \<and> ok, ok), h2))"

definition CreateService :: "tool_config \<Rightarrow> host \<Rightarrow> create_error option \<times> host" where
  "CreateService cfg h =
     (case current_unit (NodeUnit cfg) (UnitFile cfg) h of ((changed, ok1), h1) \<Rightarrow>
      if \<not> ok1 then (Some NodeUnitNotWritten, h1)
      else case DaemonReload h1 of (ok2, h2) \<Rightarrow>
        if \<not> ok2 then (Some DaemonNotReloaded, h2)
        else case Enable (NodeUnit cfg) h2 of (ok3, h3) \<Rightarrow>
          if \<not> ok3 then (Some NodeNotEnabled, h3)
          else if \<not> changed then (None, h3)
          else case on_machine IsActive h3 of (ac, h4) \<Rightarrow>
            if \<not> ac then (None, h4)
            else case on_machine (run_ctl True) h4 of (ok5, h5) \<Rightarrow> ((if ok5 then None else Some NodeNotRestarted), h5))"

section \<open>Deploying\<close>

datatype deploy_error =
    NoWorkDir | NoDependencies | NoGo | BuildFailed build_error | ServiceNotCreated create_error | NodeNotStarted service_error

definition Run_deploy :: "deploy_world \<Rightarrow> tool_config \<Rightarrow> string \<Rightarrow> string \<Rightarrow> host \<Rightarrow> deploy_error option \<times> host" where
  "Run_deploy w cfg repo0 branch0 h =
     (let repo = (if repo0 = [] then tc_RepoURL cfg else repo0);
          branch = (if branch0 = [] then tc_BranchName cfg else branch0) in
      case on_machine (MkdirAll (path_of (tc_WorkDir cfg))) h of (ok1, h1) \<Rightarrow>
      if \<not> ok1 then (Some NoWorkDir, h1)
      else if \<not> InstallDependencies w then (Some NoDependencies, h1)
      else case on_machine (InstallGo w cfg) h1 of (ok2, h2) \<Rightarrow>
        if \<not> ok2 then (Some NoGo, h2)
        else case on_machine (CloneAndBuild w cfg repo branch) h2 of
          (Some e, h3) \<Rightarrow> (Some (BuildFailed e), h3)
        | (None, h3) \<Rightarrow>
            (case CreateService cfg h3 of
               (Some e, h4) \<Rightarrow> (Some (ServiceNotCreated e), h4)
             | (None, h4) \<Rightarrow>
                 (case on_machine StartService h4 of
                    (Some e, h5) \<Rightarrow> (Some (NodeNotStarted e), h5)
                  | (None, h5) \<Rightarrow> (None, h5))))"

section \<open>What a deployment does\<close>

lemma StopIfRunning_Stop: "StopIfRunning m = StopService m"
  by (simp add: StopIfRunning_def StopService_def)

lemma beside_ne: "p \<noteq> [] \<Longrightarrow> beside p (c # ext) \<noteq> p"
  unfolding beside_def up_def by (metis append_butlast_last_id last_snoc list.distinct(1) self_append_conv)

lemma CopyFile_spec:
  assumes run: "CopyFile src (u @ [n]) mode m = (ok, m')" and old: "src \<noteq> u @ [n]"
  shows "(if ok then \<exists>d md md'. mc_tree m src = Some (Doc d md) \<and> mc_tree m' (u @ [n]) = Some (Doc d md')
          else mc_tree m' (u @ [n]) = mc_tree m (u @ [n])) \<and> host_same m m'"
proof -
  let ?q = "u @ [n]" and ?t = "u @ [n @ ''.tmp'']"
  have b: "beside ?q ''.tmp'' = ?t" "up ?q = u" by (simp_all add: beside_def up_def)
  have ne: "?t \<noteq> ?q" by simp
  obtain dd m1 where 1: "ReadFile src m = (dd, m1)" by (cases "ReadFile src m")
  obtain ok2 m2 where 2: "MkdirAll u m1 = (ok2, m2)" by (cases "MkdirAll u m1")
  obtain ok3 m3 where 3: "WriteOver ?t mode [] m2 = (ok3, m3)" by (cases "WriteOver ?t mode [] m2")
  note r1 = ReadFile_same[OF 1] and s2 = MkdirAll_same[OF 2] and s3 = WriteOver_same[OF 3]
  have q2: "mc_tree m2 ?q = mc_tree m ?q" using MkdirAll_tree[OF 2, of ?q] r1 by auto
  have q3: "mc_tree m3 ?q = mc_tree m ?q" using WriteOver_tree[OF 3, of ?q] q2 ne by simp
  note run = run[unfolded CopyFile_def b 1 prod.case]
  show ?thesis
  proof (cases dd)
    case None
    with run r1 show ?thesis by auto
  next
    case (Some d)
    obtain md where src: "mc_tree m src = Some (Doc d md)"
      using 1 Some next_hazardD(1) by (auto simp: ReadFile_def split: prod.splits option.splits inode.splits if_splits)
    obtain ok4 m4 where 4: "WriteOver ?t mode d m3 = (ok4, m4)" by (cases "WriteOver ?t mode d m3")
    obtain ok5 m5 where 5: "Rename ?t ?q m4 = (ok5, m5)" by (cases "Rename ?t ?q m4")
    obtain ok6 m6 where 6: "RemoveFile ?t m4 = (ok6, m6)" by (cases "RemoveFile ?t m4")
    note s4 = WriteOver_same[OF 4] and s5 = Rename_same[OF 5] and s6 = RemoveFile_same[OF 6]
    have q4: "mc_tree m4 ?q = mc_tree m ?q" using WriteOver_tree[OF 4, of ?q] q3 ne by simp
    have q6: "mc_tree m6 ?q = mc_tree m ?q" using RemoveFile_tree[OF 6, of ?q] q4 ne by simp
    note run = run[unfolded Some option.case 2 prod.case 3 4 5 6 snd_conv]
    have same: "host_same m m2" "host_same m m3" "host_same m m4" "host_same m m5" "host_same m m6"
      using r1 s2 s3 s4 s5 s6 host_same_trans by blast+
    show ?thesis
    proof (cases "ok2 \<and> ok3 \<and> ok4")
      case False
      with run q2 q3 q6 same show ?thesis by (cases ok2; cases ok3; cases ok4) auto
    next
      case True
      with run have eq: "m' = m5" "ok = ok5" by auto
      show ?thesis
      proof (cases ok5)
        case False
        with 5 q4 Rename_failed[of ?t ?q m4 m5] eq same show ?thesis by simp
      next
        case ok: True
        have "\<not> prefix ?q ?t" by (simp add: prefix_def)
        with 5 ok Rename_ok(1)[of ?t ?q m4 m5 "[]"] have "mc_tree m5 ?q = mc_tree m4 ?t" by simp
        moreover obtain md' where "mc_tree m4 ?t = Some (Doc d md')" using 4 True WriteOver_ok[of ?t mode d m3 m4] by auto
        ultimately show ?thesis using eq ok src same by auto
      qed
    qed
  qed
qed

text \<open>A command that changes only what is below a directory.\<close>

definition tame :: "path \<Rightarrow> (machine \<Rightarrow> bool \<times> machine) \<Rightarrow> bool" where
  "tame dir f \<longleftrightarrow> (\<forall>m. off dir m (snd (f m)) \<and> host_same m (snd (f m)))"

lemma tameD: "tame dir f \<Longrightarrow> f m = (ok, m') \<Longrightarrow> off dir m m' \<and> host_same m m'"
  unfolding tame_def by (metis snd_conv)

lemma tame_skip: "tame dir (\<lambda>m. (ok, m))" by (simp add: tame_def)

lemma RenameExisting_tame: "tame dir (RenameExisting stamp (dir @ [x]))"
  unfolding tame_def
proof
  fix m
  obtain ok m1 where 1: "Rename (dir @ [x]) (dir @ [x @ ''-'' @ stamp]) m = (ok, m1)" by (cases "Rename (dir @ [x]) (dir @ [x @ ''-'' @ stamp]) m")
  from off_Rename[OF 1] Rename_same[OF 1] 1
  show "off dir m (snd (RenameExisting stamp (dir @ [x]) m)) \<and> host_same m (snd (RenameExisting stamp (dir @ [x]) m))"
    by (simp add: RenameExisting_def beside_def up_def)
qed

lemma Download_file_tame: "tame dir (Download_file get url (dir @ [x]))"
  unfolding tame_def
proof
  fix m
  show "off dir m (snd (Download_file get url (dir @ [x]) m)) \<and> host_same m (snd (Download_file get url (dir @ [x]) m))"
  proof (cases "get url")
    case (Answer status len body whole)
    obtain ok1 m1 where 1: "MkdirAll (dir @ []) m = (ok1, m1)" by (cases "MkdirAll (dir @ []) m")
    obtain ok2 m2 where 2: "WriteOver (dir @ [x]) 420 [] m1 = (ok2, m2)" by (cases "WriteOver (dir @ [x]) 420 [] m1")
    obtain ok3 m3 where 3: "WriteOver (dir @ [x]) 420 body m2 = (ok3, m3)" by (cases "WriteOver (dir @ [x]) 420 body m2")
    obtain ok4 m4 where 4: "RemoveFile (dir @ [x]) m3 = (ok4, m4)" by (cases "RemoveFile (dir @ [x]) m3")
    note o = off_MkdirAll[OF 1] off_WriteOver[OF 2] off_WriteOver[OF 3] off_RemoveFile[OF 4]
    note s = MkdirAll_same[OF 1] WriteOver_same[OF 2] WriteOver_same[OF 3] RemoveFile_same[OF 4]
    have "off dir m m2" "off dir m m3" "off dir m m4" using o off_trans by blast+
    moreover have "host_same m m2" "host_same m m3" "host_same m m4" using s host_same_trans by blast+
    ultimately show ?thesis using o s 1 2 3 4 Answer by (simp add: Download_file_def up_def)
  qed (simp add: Download_file_def)
qed

lemma fetch_go_tame:
  assumes "\<And>a b. tame (path_of (tc_WorkDir cfg)) (dw_untar w a b)"
  shows "tame (path_of (tc_WorkDir cfg)) (fetch_go w cfg)"
  unfolding tame_def
proof
  fix m
  let ?d = "path_of (tc_WorkDir cfg)"
  show "off ?d m (snd (fetch_go w cfg m)) \<and> host_same m (snd (fetch_go w cfg m))"
  proof (cases "GoURL (dw_arch w) cfg")
    case (Some url)
    let ?t = "?d @ [''go.tar.gz'']"
    obtain ok1 m1 where 1: "Download_file (dw_get w) url ?t m = (ok1, m1)" by (cases "Download_file (dw_get w) url ?t m")
    obtain ok2 m2 where 2: "dw_untar w ?d ?t m1 = (ok2, m2)" by (cases "dw_untar w ?d ?t m1")
    obtain ok3 m3 where 3: "RemoveFile ?t m2 = (ok3, m3)" by (cases "RemoveFile ?t m2")
    have o: "off ?d m m1" "off ?d m1 m2" "off ?d m2 m3" "host_same m m1" "host_same m1 m2" "host_same m2 m3"
      using tameD[OF Download_file_tame 1] tameD[OF assms 2] off_RemoveFile[OF 3] RemoveFile_same[OF 3] by simp_all
    then have "off ?d m m3" "host_same m m3" using off_trans host_same_trans by blast+
    with o 1 2 3 Some show ?thesis by (simp add: fetch_go_def Let_def)
  qed (simp add: fetch_go_def)
qed

lemma InstallGo_tame:
  assumes "\<And>a b. tame (path_of (tc_WorkDir cfg)) (dw_untar w a b)"
  shows "tame (path_of (tc_WorkDir cfg)) (InstallGo w cfg)"
  unfolding tame_def
proof
  fix m
  let ?d = "path_of (tc_WorkDir cfg)"
  obtain ok1 m1 where 1: "RenameExisting (dw_stamp w) (?d @ [''go'']) m = (ok1, m1)" by (cases "RenameExisting (dw_stamp w) (?d @ [''go'']) m")
  obtain ok2 m2 where 2: "fetch_go w cfg m1 = (ok2, m2)" by (cases "fetch_go w cfg m1")
  obtain ok3 m3 where 3: "fetch_go w cfg m = (ok3, m3)" by (cases "fetch_go w cfg m")
  note t = tameD[OF RenameExisting_tame 1] tameD[OF fetch_go_tame[OF assms] 2] tameD[OF fetch_go_tame[OF assms] 3]
  then have "off ?d m m2" "host_same m m2" using off_trans host_same_trans by blast+
  with t 1 2 3 show "off ?d m (snd (InstallGo w cfg m)) \<and> host_same m (snd (InstallGo w cfg m))"
    by (simp add: InstallGo_def Let_def)
qed

text \<open>The bytes that a build left.\<close>

definition built_binary :: "deploy_world \<Rightarrow> tool_config \<Rightarrow> bytes \<Rightarrow> bool" where
  "built_binary w cfg d \<longleftrightarrow>
     (\<exists>m m' md. dw_build w (source_dir cfg) (built_path cfg) m = (True, m') \<and> mc_tree m' (built_path cfg) = Some (Doc d md))"

lemma CloneAndBuild_spec:
  assumes run: "CloneAndBuild w cfg repo branch m = (e, m')"
    and clone: "\<And>a b c. tame (path_of (tc_WorkDir cfg)) (dw_clone w a b c)" and build: "\<And>a b. tame (path_of (tc_WorkDir cfg)) (dw_build w a b)"
    and apart: "binary_path cfg \<parallel> path_of (tc_WorkDir cfg)"
  shows "(if e = None then \<exists>d md. built_binary w cfg d \<and> mc_tree m' (binary_path cfg) = Some (Doc d md)
      else mc_tree m' (binary_path cfg) = mc_tree m (binary_path cfg)) \<and>
    (obedient m \<longrightarrow> obedient m' \<and> \<not> mc_active m')"
proof -
  let ?d = "path_of (tc_WorkDir cfg)" and ?b = "binary_path cfg" and ?s = "source_dir cfg"
  obtain e1 m1 where 1: "StopService m = (e1, m1)" by (cases "StopService m")
  obtain ok2 m2 where 2: "RenameExisting (dw_stamp w) ?s m1 = (ok2, m2)" by (cases "RenameExisting (dw_stamp w) ?s m1")
  obtain ok3 m3 where 3: "dw_clone w repo branch ?s m2 = (ok3, m3)" by (cases "dw_clone w repo branch ?s m2")
  obtain ok4 m4 where 4: "dw_build w ?s (built_path cfg) m3 = (ok4, m4)" by (cases "dw_build w ?s (built_path cfg) m3")
  obtain ok5 m5 where 5: "CopyFile (built_path cfg) ?b 493 m4 = (ok5, m5)" by (cases "CopyFile (built_path cfg) ?b 493 m4")
  have b4: "ok4 \<Longrightarrow> dw_build w ?s (built_path cfg) m3 = (True, m4)" using 4 by simp
  note t2 = tameD[OF RenameExisting_tame 2[unfolded source_dir_def]] and t3 = tameD[OF clone 3] and t4 = tameD[OF build 4]
  have at: "mc_tree m2 ?b = mc_tree m1 ?b" "mc_tree m3 ?b = mc_tree m1 ?b" "mc_tree m4 ?b = mc_tree m1 ?b" "mc_tree m1 ?b = mc_tree m ?b"
    using t2 t3 t4 apart StopService_frame[OF 1] by (simp_all add: off_def)
  have ne: "built_path cfg \<noteq> ?b"
    using apart unfolding built_path_def source_dir_def by (metis append.assoc parallel_below(1) prefix_order.refl)
  note c = CopyFile_spec[OF 5[unfolded binary_path_def] ne[unfolded binary_path_def], folded binary_path_def]
  have quiet: "obedient m' \<and> \<not> mc_active m'" if "obedient m"
  proof -
    have m1: "e1 = None" "m1 = m\<lparr> mc_active := False \<rparr>" using 1 that by (simp_all add: StopService_obedient)
    have h: "host_same m1 m2" "host_same m1 m3" "host_same m1 m4" "host_same m1 m5" using t2 t3 t4 c host_same_trans by blast+
    have "m' = m2 \<or> m' = m3 \<or> m' = m4 \<or> m' = m5"
      using run m1(1) 1 2 3 4 5 by (auto simp: CloneAndBuild_def StopIfRunning_Stop split: if_splits)
    then have "host_same m1 m'" using h by blast
    with obedient_same[OF this] m1 that show ?thesis by (simp add: host_same_def)
  qed
  consider a where "e1 = Some a" "m' = m1" "e \<noteq> None" | "e \<noteq> None" "m' = m2 \<or> m' = m3 \<or> m' = m4" | "\<not> ok5" "e \<noteq> None" "m' = m5"
    | "e = None" ok4 ok5 "m' = m5"
    using run 1 2 3 4 5 by (cases e1; cases ok2; cases ok3; cases ok4; cases ok5) (auto simp: CloneAndBuild_def StopIfRunning_Stop)
  then show ?thesis
  proof cases
    case 4
    with c obtain d md md' where "mc_tree m4 (built_path cfg) = Some (Doc d md)" "mc_tree m5 ?b = Some (Doc d md')" by auto
    moreover have "built_binary w cfg d" unfolding built_binary_def using b4[OF 4(2)] calculation(1) by blast
    ultimately show ?thesis using 4 quiet by auto
  qed (use at c quiet in auto)
qed

section \<open>The service that is created\<close>

lemma run_unit_keeps:
  assumes "run_unit n eff h = (ok, h')" "\<And>h. ho_machine (eff h) = ho_machine h"
  shows "mc_tree (ho_machine h') = mc_tree (ho_machine h)" "obedient (ho_machine h) \<Longrightarrow> obedient (ho_machine h')"
    "mc_active (ho_machine h') = mc_active (ho_machine h)"
proof -
  obtain c m1 where 1: "ctl_exit n (ho_machine h) = (c, m1)" by (cases "ctl_exit n (ho_machine h)")
  have h': "ho_machine h' = m1" using assms 1 by (auto simp: run_unit_def on_machine_def split: if_splits)
  show "mc_tree (ho_machine h') = mc_tree (ho_machine h)" "mc_active (ho_machine h') = mc_active (ho_machine h)"
    using ctl_exitD[OF 1] h' by simp_all
  show "obedient (ho_machine h) \<Longrightarrow> obedient (ho_machine h')"
  proof -
    assume o: "obedient (ho_machine h)"
    with 1 have "m1 = ho_machine h" by (simp add: obedient_def ctl_exit_def)
    with o h' show ?thesis by simp
  qed
qed

lemma run_unit_enabled:
  "run_unit n eff h = (ok, h') \<Longrightarrow> (\<And>h. ho_enabled (eff h) = ho_enabled h) \<Longrightarrow> ho_enabled h' = ho_enabled h"
  by (auto simp: run_unit_def on_machine_def split: prod.splits if_splits)

lemma node_unit_file: "unit_file (NodeUnit cfg) = NodeUnit cfg"
  by (simp add: unit_file_def NodeUnit_def)

lemma current_unit_spec:
  assumes "current_unit f want h = ((changed, ok), h')"
  shows "host_same (ho_machine h) (ho_machine h') \<and> ho_enabled h' = ho_enabled h \<and>
    (\<forall>x. x \<noteq> unit_path f \<longrightarrow> mc_tree (ho_machine h') x = mc_tree (ho_machine h) x) \<and> (ok \<longrightarrow> unit_text h' f = Some want)"
proof -
  obtain d m1 where 1: "ReadFile (unit_path f) (ho_machine h) = (d, m1)" by (cases "ReadFile (unit_path f) (ho_machine h)")
  obtain ok2 m2 where 2: "WriteOver (unit_path f) 420 want m1 = (ok2, m2)" by (cases "WriteOver (unit_path f) 420 want m1")
  note r = ReadFile_same[OF 1] and w = WriteOver_same[OF 2] WriteOver_tree[OF 2]
  show ?thesis
  proof (cases "d = Some want")
    case True
    then have "\<exists>mode. mc_tree (ho_machine h) (unit_path f) = Some (Doc want mode)"
      using 1 next_hazardD(1) by (auto simp: ReadFile_def split: prod.splits if_splits option.splits inode.splits)
    with assms 1 True r show ?thesis by (auto simp: current_unit_def on_machine_def unit_text_def)
  next
    case False
    with assms 1 2 have eq: "h' = h\<lparr> ho_machine := m2 \<rparr>" "ok = ok2" by (auto simp: current_unit_def on_machine_def WriteUnit_def)
    have "ok2 \<Longrightarrow> \<exists>mode. mc_tree m2 (unit_path f) = Some (Doc want mode)" by (cases ok2) (use 2 WriteOver_ok in auto)
    with eq r w host_same_trans show ?thesis by (auto simp: unit_text_def)
  qed
qed

lemma IsActive_frame: "IsActive m = (b, m') \<Longrightarrow> mc_tree m' = mc_tree m \<and> mc_active m' = mc_active m \<and> (obedient m \<longrightarrow> obedient m')"
proof -
  assume run: "IsActive m = (b, m')"
  obtain st m1 where 1: "Status m = (st, m1)" by (cases "Status m")
  with run have "m' = m1" by (simp add: IsActive_def)
  with Status_frame[OF 1] 1 Status_obedient[of m] show ?thesis by auto
qed

lemma CreateService_spec:
  assumes "CreateService cfg h = (e, h')"
  shows "(\<forall>x. x \<noteq> unit_path (NodeUnit cfg) \<longrightarrow> mc_tree (ho_machine h') x = mc_tree (ho_machine h) x) \<and>
    (obedient (ho_machine h) \<longrightarrow> obedient (ho_machine h')) \<and>
    (e = None \<longrightarrow> unit_text h' (NodeUnit cfg) = Some (UnitFile cfg) \<and> ho_enabled h' (NodeUnit cfg))"
proof -
  obtain changed ok1 h1 where 1: "current_unit (NodeUnit cfg) (UnitFile cfg) h = ((changed, ok1), h1)" by (metis surj_pair)
  obtain ok2 h2 where 2: "DaemonReload h1 = (ok2, h2)" by (cases "DaemonReload h1")
  obtain ok3 h3 where 3: "Enable (NodeUnit cfg) h2 = (ok3, h3)" by (cases "Enable (NodeUnit cfg) h2")
  obtain ac m4 where 4: "IsActive (ho_machine h3) = (ac, m4)" by (cases "IsActive (ho_machine h3)")
  obtain ok5 m5 where 5: "run_ctl True m4 = (ok5, m5)" by (cases "run_ctl True m4")
  note c1 = current_unit_spec[OF 1]
  note k2 = run_unit_keeps[OF 2[unfolded DaemonReload_def]] and k3 = run_unit_keeps[OF 3[unfolded Enable_def]]
  have t: "mc_tree (ho_machine h2) = mc_tree (ho_machine h1)" "mc_tree (ho_machine h3) = mc_tree (ho_machine h1)"
    "mc_tree m4 = mc_tree (ho_machine h1)" "mc_tree m5 = mc_tree (ho_machine h1)"
    using k2(1) k3(1) IsActive_frame[OF 4] run_ctl_frame[OF 5] by simp_all
  have ob: "obedient (ho_machine h) \<longrightarrow> obedient (ho_machine h1)" using c1 obedient_same by blast
  then have o: "obedient (ho_machine h) \<longrightarrow> obedient (ho_machine h2) \<and> obedient (ho_machine h3) \<and> obedient m4 \<and> obedient m5"
    using k2(2) k3(2) IsActive_frame[OF 4] 5 by (auto simp: obedient_def run_ctl_def ctl_exit_def)
  have en: "ok3 \<Longrightarrow> ho_enabled h3 (NodeUnit cfg)"
    using 3 by (auto simp: Enable_def run_unit_def on_machine_def node_unit_file split: prod.splits if_splits)
  let ?h4 = "h3\<lparr> ho_machine := m4 \<rparr>" and ?h5 = "h3\<lparr> ho_machine := m5 \<rparr>"
  have m4: "on_machine IsActive h3 = (ac, ?h4)" "on_machine (run_ctl True) ?h4 = (ok5, ?h5)" using 4 5 by (simp_all add: on_machine_def)
  have end': "(h' = h1 \<or> h' = h2 \<or> h' = h3 \<or> h' = ?h4 \<or> h' = ?h5) \<and> (e = None \<longrightarrow> ok1 \<and> ok3 \<and> (h' = h3 \<or> h' = ?h4 \<or> h' = ?h5))"
    using assms 1 2 3 m4 by (cases ok1; cases ok2; cases ok3; cases changed; cases ac) (auto simp: CreateService_def)
  have tree: "mc_tree (ho_machine h') = mc_tree (ho_machine h1)" using end' t by auto
  then have "unit_text h' f = unit_text h1 f" for f by (simp add: unit_text_def)
  moreover have "e = None \<Longrightarrow> ho_enabled h' = ho_enabled h3" using end' by auto
  ultimately show ?thesis using end' tree c1 en o ob by auto
qed

end
