(* ===== verification/Ops_Claims.thy ===== *)
theory Ops_Claims
  imports Config_Claims Preflight Alert_Unit Deploy
begin

text \<open>
  What starting over, the lock, the alerts daemon's units and deploying the node guarantee.
\<close>

section \<open>A host to apply the properties to\<close>

definition ops_tree :: tree where
  "ops_tree = map_of
     [([''etc''], Folder), ([''etc'', ''systemd''], Folder), ([''etc'', ''systemd'', ''system''], Folder), ([''etc'', ''nomctl''], Folder),
      ([''etc'', ''nomctl'', ''alerts.json''], Doc ''{}'' 384), ([''run''], Folder),
      ([''opt''], Folder), ([''opt'', ''nomctl''], Folder), ([''usr''], Folder), ([''usr'', ''local''], Folder), ([''usr'', ''local'', ''bin''], Folder),
      ([''usr'', ''local'', ''bin'', ''znnd''], Doc ''old'' 493),
      ([''root''], Folder), ([''root'', ''.znn''], Folder), ([''root'', ''.znn'', ''nom''], Folder), ([''root'', ''.znn'', ''wallet''], Folder),
      ([''root'', ''.znn'', ''wallet'', ''producer''], Doc ''key'' 384),
      ([''root'', ''.orchestrator''], Folder), ([''root'', ''.orchestrator'', ''queues''], Folder), ([''root'', ''.orchestrator'', ''events''], Folder)]"

definition ops_machine :: "hazard list \<Rightarrow> ctl list \<Rightarrow> machine" where
  "ops_machine hs cs = \<lparr> mc_tree = ops_tree, mc_hazards = hs, mc_known = True, mc_active = True, mc_ctl = cs \<rparr>"

text \<open>The daemon is enabled and runs an old definition; its probe is not there yet.\<close>

definition ops_host :: "hazard list \<Rightarrow> ctl list \<Rightarrow> host" where
  "ops_host hs cs = \<lparr> ho_machine = ops_machine hs cs, ho_enabled = (\<lambda>f. f = alert_unit), ho_loaded = [alert_unit \<mapsto> ''old''],
     ho_running = [alert_unit \<mapsto> ''old''], ho_owner = (\<lambda>_. None) \<rparr>"

section \<open>Starting over\<close>

text \<open>C26. A resync deletes the chain data and nothing else.  Whatever fails, every path outside the four directories, the wallet and
  the configuration among them, is as it was, and nothing at all is touched before the node is known to be stopped; a resync that
  reports success leaves none of the four.  With systemctl working, a node that was running runs again just when the
  resync succeeded: after a failed deletion it stays stopped.\<close>

theorem resync_keeps:
  assumes "Run_resync data m = (e, m')"
  shows "((\<forall>d \<in> set ResyncDirs. \<not> prefix (data @ [d]) x) \<longrightarrow> mc_tree m' x = mc_tree m x) \<and>
    (e = Some StateUnknown \<or> (\<exists>s. e = Some (ResyncNotStopped s)) \<longrightarrow> mc_tree m' = mc_tree m) \<and>
    (e = None \<longrightarrow> (\<forall>d \<in> set ResyncDirs. \<not> is_folder m' (data @ [d]))) \<and>
    (obedient m \<longrightarrow> mc_active m \<longrightarrow> mc_active m' = (e = None))"
proof -
  obtain st m1 where 1: "Status m = (st, m1)" by (cases "Status m")
  note t1 = Status_frame[OF 1]
  show ?thesis
  proof (cases st)
    case None
    with assms 1 t1 show ?thesis by (auto simp: Run_resync_def Status_obedient)
  next
    case (Some s)
    obtain e2 m2 where 2: "(if s = Active then StopService m1 else (None, m1)) = (e2, m2)" by (metis surj_pair)
    have t2: "mc_tree m2 = mc_tree m1" using 2 StopService_frame[of m1 e2 m2] by (auto split: if_splits)
    obtain k bad m3 where 3: "Wipe data m2 = ((k, bad), m3)" by (metis surj_pair)
    obtain e4 m4 where 4: "StartService m3 = (e4, m4)" by (cases "StartService m3")
    have t4: "mc_tree m4 = mc_tree m3" using StartService_frame[OF 4] by simp
    note run = assms[unfolded Run_resync_def 1 prod.case Some option.case 2 3 4]
    have keep: "mc_tree m3 x = mc_tree m2 x" if "\<forall>d \<in> set ResyncDirs. \<not> prefix (data @ [d]) x"
      using remove_present_tree[OF 3[unfolded Wipe_def] that] .
    have gone: "\<not> is_folder m3 (data @ [d])" if "bad = []" "d \<in> set ResyncDirs" for d
      using wiped_gone[of data ResyncDirs m2 k m3 d] 3 that unfolding Wipe_def by simp
    have same: "mc_tree a = mc_tree b \<Longrightarrow> is_folder a = is_folder b" for a b by (auto simp: is_folder_def)
    have up: "mc_active m' = (e = None)" if "obedient m" "mc_active m"
    proof -
      have s: "s = Active" "m1 = m" using that 1 Some by (auto simp: Status_obedient)
      with 2 that have m2: "e2 = None" "m2 = m\<lparr> mc_active := False \<rparr>" by (simp_all add: StopService_obedient)
      have h: "host_same m2 m3" using remove_present_same[OF 3[unfolded Wipe_def]] .
      then have "obedient m3" "\<not> mc_active m3" using obedient_same[OF h] m2 that(1) by (simp_all add: host_same_def)
      with 4 have "e4 = None" "m4 = m3\<lparr> mc_active := True \<rparr>" by (simp_all add: StartService_obedient)
      with run[unfolded m2(1) option.case] s(1) \<open>\<not> mc_active m3\<close> show ?thesis by (cases "bad = []") auto
    qed
    show ?thesis
    proof (cases e2)
      case Err: (Some a)
      with run t1 t2 up show ?thesis by auto
    next
      case None
      note run = run[unfolded None option.case]
      consider "bad \<noteq> []" "e = Some (NotWiped bad)" "m' = m3" | "bad = []" "e = None" "m' = m3"
        | a where "bad = []" "e = Some (ResyncNotRestarted a)" "m' = m4" | "bad = []" "e = None" "m' = m4"
        using run by (cases "bad = []"; cases "s = Active"; cases e4) auto
      then have t: "mc_tree m' = mc_tree m3" and ok: "e = None \<Longrightarrow> bad = []"
        and e: "e \<noteq> Some StateUnknown" "\<And>s. e \<noteq> Some (ResyncNotStopped s)"
        using t4 by (cases; simp)+
      have "mc_tree m' x = mc_tree m x" if "\<forall>d \<in> set ResyncDirs. \<not> prefix (data @ [d]) x" using keep[OF that] t t1 t2 by simp
      moreover have "\<not> is_folder m' (data @ [d])" if "e = None" "d \<in> set ResyncDirs" for d
        using gone[OF ok[OF that(1)] that(2)] same[OF t] by simp
      ultimately show ?thesis using e up by blast
    qed
  qed
qed

definition demo_resync :: "resync_error option \<times> machine" where
  "demo_resync = Run_resync [''root'', ''.znn''] (ops_machine [Refused] [])"

lemma resync_keeps_witness:
  "fst demo_resync = Some (NotWiped [[''root'', ''.znn'', ''nom'']]) \<and> \<not> mc_active (snd demo_resync) \<and>
   mc_tree (snd demo_resync) [''root'', ''.znn'', ''wallet'', ''producer''] = Some (Doc ''key'' 384)"
proof -
  have run: "Run_resync [''root'', ''.znn''] (ops_machine [Refused] []) = (fst demo_resync, snd demo_resync)" by (simp add: demo_resync_def)
  have r: "fst demo_resync = Some (NotWiped [[''root'', ''.znn'', ''nom'']])" by code_simp
  have o: "obedient (ops_machine [Refused] [])" "mc_active (ops_machine [Refused] [])" by (simp_all add: obedient_def ops_machine_def)
  have p: "\<forall>d \<in> set ResyncDirs. \<not> prefix ([''root'', ''.znn''] @ [d]) [''root'', ''.znn'', ''wallet'', ''producer'']" by (simp add: ResyncDirs_def)
  have k: "mc_tree (ops_machine [Refused] []) [''root'', ''.znn'', ''wallet'', ''producer''] = Some (Doc ''key'' 384)"
    by (simp add: ops_machine_def ops_tree_def)
  from resync_keeps[OF run, of "[''root'', ''.znn'', ''wallet'', ''producer'']"] r o p k show ?thesis by simp
qed

text \<open>C27. A hard reset of the orchestrator.  It changes nothing but \<^verbatim>\<open>queues\<close> and \<^verbatim>\<open>events\<close> under a directory that is not the root
  and has no pair of dots; when it reports success neither is left.  With systemctl working, an orchestrator whose
  directory is acceptable runs afterwards, even if it was stopped before and even if the deletion failed.\<close>

theorem hard_reset_restarts:
  assumes "HardReset s m = (e, m')"
  shows "(case ValidateDir s of
      None \<Rightarrow> e = Some BadDir \<and> m' = m
    | Some dir \<Rightarrow>
        path_of dir \<noteq> [] \<and> list_all plain_elem (path_of dir) \<and>
        ((\<forall>d \<in> set ResetDirs. \<not> prefix (path_of dir @ [d]) x) \<longrightarrow> mc_tree m' x = mc_tree m x) \<and>
        (e = None \<longrightarrow> (\<forall>d \<in> set ResetDirs. \<not> exists_at m' (path_of dir @ [d]))) \<and>
        (obedient m \<longrightarrow> mc_active m' \<and> (e = None \<or> (\<exists>bad. e = Some (NotDeleted bad)))))"
proof (cases "ValidateDir s")
  case None
  with assms show ?thesis by (simp add: HardReset_def)
next
  case (Some dir)
  obtain x1 m1 where 1: "Exists m = (x1, m1)" by (cases "Exists m")
  obtain e2 m2 where 2: "StopService m1 = (e2, m2)" by (cases "StopService m1")
  obtain k bad m3 where 3: "remove_present exists_at (path_of dir) ResetDirs m2 = ((k, bad), m3)" by (metis surj_pair)
  obtain e4 m4 where 4: "StartService m3 = (e4, m4)" by (cases "StartService m3")
  note t = Exists_frame[OF 1] StopService_frame[OF 2] StartService_frame[OF 4]
  note run = assms[unfolded HardReset_def Some option.case 1 prod.case 2 3 4]
  have keep: "mc_tree m3 x = mc_tree m2 x" if "\<forall>d \<in> set ResetDirs. \<not> prefix (path_of dir @ [d]) x"
    using remove_present_tree[OF 3 that] .
  have gone: "\<not> exists_at m4 (path_of dir @ [d])" if "bad = []" "d \<in> set ResetDirs" for d
    using reset_gone[of "path_of dir" ResetDirs m2 k m3 d] 3 that t(3) unfolding exists_at_def by simp
  have up: "mc_active m' \<and> (e = None \<or> (\<exists>bad. e = Some (NotDeleted bad)))" if "obedient m"
  proof -
    have "x1 = Some True" "m1 = m" using 1 that by (auto simp: obedient_def Exists_def ctl_exit_def split: if_splits)
    moreover have "e2 = None" "m2 = m\<lparr> mc_active := False \<rparr>" using 2 that \<open>m1 = m\<close> by (simp_all add: StopService_obedient)
    moreover have "obedient m3" using obedient_same[OF remove_present_same[OF 3]] calculation that by simp
    then have "e4 = None" "m4 = m3\<lparr> mc_active := True \<rparr>" using 4 by (simp_all add: StartService_obedient)
    ultimately show ?thesis using run by (cases "bad = []") auto
  qed
  have body: "e = None \<Longrightarrow> bad = [] \<and> m' = m4" "mc_tree m' = mc_tree m \<or> mc_tree m' = mc_tree m3"
    using run t by (cases x1; cases e2; cases e4; cases "bad = []"; auto split: bool.splits)+
  have "mc_tree m' x = mc_tree m x" if "\<forall>d \<in> set ResetDirs. \<not> prefix (path_of dir @ [d]) x"
    using keep[OF that] body(2) t by auto
  moreover have "\<not> exists_at m' (path_of dir @ [d])" if "e = None" "d \<in> set ResetDirs" for d
    using gone[OF _ that(2)] body(1)[OF that(1)] by simp
  ultimately show ?thesis unfolding Some option.case using up ValidateDir_below[OF Some] by blast
qed

definition demo_reset :: "reset_error option \<times> machine" where
  "demo_reset = HardReset ''/root/./.orchestrator/'' (ops_machine [Fine, Refused] [])"

lemma hard_reset_restarts_witness:
  "fst demo_reset = Some (NotDeleted [[''root'', ''.orchestrator'', ''events'']]) \<and> mc_active (snd demo_reset) \<and>
   mc_tree (snd demo_reset) [''root'', ''.znn'', ''nom''] = Some Folder"
proof -
  let ?m = "ops_machine [Fine, Refused] []"
  have run: "HardReset ''/root/./.orchestrator/'' ?m = (fst demo_reset, snd demo_reset)" by (simp add: demo_reset_def)
  have r: "fst demo_reset = Some (NotDeleted [[''root'', ''.orchestrator'', ''events'']])" by code_simp
  have v: "ValidateDir ''/root/./.orchestrator/'' = Some ''/root/.orchestrator''" by code_simp
  have p: "path_of ''/root/.orchestrator'' = [''root'', ''.orchestrator'']" by code_simp
  have o: "obedient ?m" by (simp add: obedient_def ops_machine_def)
  have k: "mc_tree ?m [''root'', ''.znn'', ''nom''] = Some Folder" by (simp add: ops_machine_def ops_tree_def)
  from hard_reset_restarts[OF run, of "[''root'', ''.znn'', ''nom'']"] r v p o k show ?thesis by simp
qed

text \<open>The lock.  No step of any process takes the lock from its holder; and a process that is refused reads, once the holder
  has written its name, that name, and before that nothing, unless the holder has not emptied the file yet.\<close>

theorem lock_holds:
  assumes "lock_run f" "lk_holder f = Some (pid, op, ph)"
  shows "(lock_step f g \<longrightarrow> lk_holder g = None \<or> (\<exists>ph'. lk_holder g = Some (pid, op, ph'))) \<and>
    (ph \<noteq> Taken \<longrightarrow> Acquire q op' f = Inl (''another nomctl operation is in progress'' @
       describeHolder (if ph = Named then holder_text op pid else []) @ ''; try again later''))"
  using lock_kept[of f g pid op ph] lock_named[OF assms] assms(2) by (cases ph) (auto simp: Acquire_def)

lemma lock_holds_witness:
  "Acquire 8 ''restore'' \<lparr> lk_text = holder_text ''backup'' 7, lk_holder = Some (7, ''backup'', Named) \<rparr> =
     Inl ''another nomctl operation is in progress (backup pid 7); try again later''"
proof -
  have r: "lock_run \<lparr> lk_text = holder_text ''backup'' 7, lk_holder = Some (7, ''backup'', Named) \<rparr>" by (rule lock_written)
  have t: "describeHolder (holder_text ''backup'' 7) = '' (backup pid 7)''" by code_simp
  from lock_holds[OF r, of 7 "''backup''" Named _ 8 "''restore''"] t show ?thesis by simp
qed

section \<open>The alerts daemon\<close>

text \<open>C16. Converging reaches the current layout.  A run that succeeds, with systemctl working, leaves the three unit files as rendered for the
  running program, the pairing configuration (with its contents) readable by the group of the run user only, the runtime
  directory owned by that user, the probe's timer enabled wherever the daemon is, and a daemon that was up to date, or whose unit was written by this run, on the definition on disk.\<close>

theorem converge_current:
  assumes "Converge w cfg DefaultConfigPath h = ((changed, None), h')" "mc_ctl (ho_machine h) = []"
  shows "\<exists>uid gid self. EnsureUser w = Inr (uid, gid) \<and> selfPath (cw_exe w) (cw_resolved w) = Some self \<and>
    (\<forall>(f, t) \<in> set (alert_files self cfg). unit_text h' f = Some t) \<and>
    (\<forall>d old. mc_tree (ho_machine h) DefaultConfigPath = Some (Doc d old) \<longrightarrow>
       mc_tree (ho_machine h') DefaultConfigPath = Some (Doc d 416) \<and> ho_owner h' DefaultConfigPath = Some (0, gid)) \<and>
    ho_owner h' runtime_dir = Some (uid, gid) \<and>
    (ho_enabled h' alert_unit \<longrightarrow> ho_enabled h' probe_timer) \<and>
    (changed \<or> settled alert_unit h \<longrightarrow> settled alert_unit h')"
  using Converge_reaches[OF assms] by blast

definition demo_cw :: converge_world where
  "demo_cw = \<lparr> cw_user = NoUser, cw_added = Some (UserIds ''998'' ''997''), cw_exe = Some ''/usr/local/bin/nomctl'', cw_resolved = None \<rparr>"

definition demo_converge :: "(bool \<times> converge_error option) \<times> host" where
  "demo_converge = Converge demo_cw Default DefaultConfigPath (ops_host [] [])"

lemma demo_converge_run:
  "Converge demo_cw Default DefaultConfigPath (ops_host [] []) = ((True, None), snd demo_converge)"
proof -
  have "fst demo_converge = (True, None)" by code_simp
  then show ?thesis unfolding demo_converge_def by (metis prod.collapse)
qed

lemma converge_current_witness:
  "ho_enabled (snd demo_converge) alert_unit \<and> ho_enabled (snd demo_converge) probe_timer \<and> settled alert_unit (snd demo_converge) \<and>
   mc_tree (ho_machine (snd demo_converge)) DefaultConfigPath = Some (Doc ''{}'' 416)"
proof -
  have q: "mc_ctl (ho_machine (ops_host [] [])) = []" by (simp add: ops_host_def ops_machine_def)
  have c: "mc_tree (ho_machine (ops_host [] [])) DefaultConfigPath = Some (Doc ''{}'' 384)"
    by (simp add: ops_host_def ops_machine_def ops_tree_def DefaultConfigPath_def)
  have e: "ho_enabled (snd demo_converge) alert_unit" by code_simp
  from converge_current[OF demo_converge_run q] c e show ?thesis by blast
qed

text \<open>C20. Converging is idempotent.  On a host where no call fails, a run right after one that succeeded, of the same program for the same
  user and configuration, writes nothing, restarts nothing and changes nothing.\<close>

theorem converge_idempotent:
  assumes "Converge w cfg DefaultConfigPath h = ((changed, None), h')" "calm_host h"
    and "EnsureUser w' = EnsureUser w" "selfPath (cw_exe w') (cw_resolved w') = selfPath (cw_exe w) (cw_resolved w)"
  shows "Converge w' cfg DefaultConfigPath h' = ((False, None), h')"
proof -
  obtain uid gid self where r: "EnsureUser w = Inr (uid, gid)" "selfPath (cw_exe w) (cw_resolved w) = Some self"
    "\<forall>(f, t) \<in> set (alert_files self cfg). unit_text h' f = Some t" "ho_enabled h' alert_unit \<longrightarrow> ho_enabled h' probe_timer"
    using Converge_reaches[OF assms(1)] assms(2) by (auto simp: calm_host_def)
  with Converge_settles[OF assms(1,2)] have "secured uid gid h'" "calm_host h'" by auto
  with r assms(3,4) show ?thesis by (intro Converge_again) simp_all
qed

lemma converge_idempotent_witness:
  "Converge (demo_cw\<lparr> cw_user := UserIds ''998'' ''997'' \<rparr>) Default DefaultConfigPath (snd demo_converge) = ((False, None), snd demo_converge)"
proof -
  have c: "calm_host (ops_host [] [])" by (simp add: calm_host_def ops_host_def ops_machine_def)
  have u: "EnsureUser (demo_cw\<lparr> cw_user := UserIds ''998'' ''997'' \<rparr>) = EnsureUser demo_cw" by (simp add: EnsureUser_def demo_cw_def)
  show ?thesis by (rule converge_idempotent[OF demo_converge_run c u]) (simp add: demo_cw_def)
qed

text \<open>C28. A restart that was missed stays missed.  When the three unit files are already as rendered, a run that succeeds leaves the daemon
  on whatever definition it runs, even an old one: that the files were written by a run that then failed to restart
  the daemon is not noticed.\<close>

theorem converge_misses_restart:
  assumes "Converge w cfg DefaultConfigPath h = ((changed, None), h')" "calm_host h"
    and "\<forall>self. selfPath (cw_exe w) (cw_resolved w) = Some self \<longrightarrow> (\<forall>(f, t) \<in> set (alert_files self cfg). unit_text h f = Some t)"
  shows "\<not> changed \<and> ho_running h' alert_unit = ho_running h alert_unit"
proof -
  obtain uid gid h1 self h2 h3 where parts: "EnsureUser w = Inr (uid, gid)" "secure_files DefaultConfigPath uid gid h = (None, h1)"
    "selfPath (cw_exe w) (cw_resolved w) = Some self" "write_units False (alert_files self cfg) h1 = ((changed, True), h2)"
    "(if changed then reload_changed h2 else (None, h2)) = (None, h3)" "ensure_timer h3 = (None, h')"
    by (rule Converge_parts[OF assms(1)])
  have s1: "same_units h h1" using secure_files_spec[OF parts(2)] by blast
  have q: "mc_hazards (ho_machine h1) = []" "mc_ctl (ho_machine h1) = []"
    using secure_files_fewer[OF parts(2)] s1 assms(2) by (simp_all add: fewer_def calm_host_def same_units_def)
  have "\<forall>(f, t) \<in> set (alert_files self cfg). unit_text h1 f = Some t" using assms(3) parts(3) s1 by (simp add: same_units_def)
  from write_units_again[OF q(1) this] parts(4,5) have "\<not> changed" "h3 = h1" by auto
  with timer_spec[OF parts(6)] q s1 show ?thesis by (simp add: same_units_def)
qed

definition demo_failed :: "(bool \<times> converge_error option) \<times> host" where
  "demo_failed = Converge demo_cw Default DefaultConfigPath (ops_host [] [AsIs, AsIs, Exits 1])"

definition demo_after :: "(bool \<times> converge_error option) \<times> host" where
  "demo_after = Converge demo_cw Default DefaultConfigPath (snd demo_failed)"

lemma converge_misses_restart_witness:
  "snd (fst demo_failed) = Some DaemonNotRestarted \<and> snd (fst demo_after) = None \<and>
   ho_running (snd demo_after) alert_unit = Some ''old'' \<and> unit_text (snd demo_after) alert_unit \<noteq> Some ''old''"
proof -
  have f: "snd (fst demo_failed) = Some DaemonNotRestarted" and a: "snd (fst demo_after) = None" by code_simp+
  have run: "Converge demo_cw Default DefaultConfigPath (snd demo_failed) = ((fst (fst demo_after), None), snd demo_after)"
    unfolding a[symmetric] by (simp add: demo_after_def)
  have c: "calm_host (snd demo_failed)" unfolding calm_host_def by code_simp
  have s: "selfPath (cw_exe demo_cw) (cw_resolved demo_cw) = Some ''/usr/local/bin/nomctl''" by code_simp
  have "list_all (\<lambda>(f, t). unit_text (snd demo_failed) f = Some t) (alert_files ''/usr/local/bin/nomctl'' Default)" by code_simp
  then have t: "\<forall>self. selfPath (cw_exe demo_cw) (cw_resolved demo_cw) = Some self \<longrightarrow>
      (\<forall>(f, t) \<in> set (alert_files self Default). unit_text (snd demo_failed) f = Some t)" by (simp add: s list_all_iff)
  have o: "ho_running (snd demo_failed) alert_unit = Some ''old''" "unit_text (snd demo_after) alert_unit \<noteq> Some ''old''" by code_simp+
  from converge_misses_restart[OF run c t] f a o show ?thesis by simp
qed

section \<open>Deploying\<close>





end
