(* ===== verification/Support.thy ===== *)
theory Support
  imports Node_Config Tool_Config
begin

text \<open>
  The output of external commands (\<^verbatim>\<open>internal/execx/execx.go\<close>) and the support bundle (\<^verbatim>\<open>internal/support\<close>): tails, the logs of the node, the
  watch for a restart, what is redacted, and the pieces of the bundle.
\<close>

section \<open>The output of commands\<close>

text \<open>A buffer that keeps the last bytes written to it, \<^verbatim>\<open>tailBuffer\<close> of \<^verbatim>\<open>internal/execx\<close>.\<close>

definition tail_write :: "nat \<Rightarrow> bytes \<Rightarrow> bytes \<Rightarrow> bytes" where
  "tail_write limit buf p = (let b = buf @ p in if length b > limit then drop (length b - limit) b else b)"

definition lastLines :: "string \<Rightarrow> nat \<Rightarrow> string" where
  "lastLines s0 n =
     (let s = trim_space s0 in
      if s = [] then []
      else let ls = split_on (CHR 0x0A) s in
        join_with nl (map (\<lambda>l. ''  '' @ l) (if length ls > n then drop (length ls - n) ls else ls)))"

text \<open>How a command failed: its exit code, or another error with its text.\<close>

datatype exec_cause = ExitStatus int | OtherCause string

record exec_error =
  ex_cmd :: string
  ex_cause :: exec_cause
  ex_output :: string

definition cause_text :: "exec_cause \<Rightarrow> string" where
  "cause_text c = (case c of ExitStatus n \<Rightarrow> ''exit status '' @ show_int n | OtherCause s \<Rightarrow> s)"

definition Error_text :: "exec_error \<Rightarrow> string" where
  "Error_text e =
     (let msg = ex_cmd e @ '': '' @ cause_text (ex_cause e); t = lastLines (ex_output e) 5 in
      if t \<noteq> [] then msg @ nl @ t else msg)"

definition ExitCode :: "exec_error option \<Rightarrow> int" where
  "ExitCode e = (case e of Some x \<Rightarrow> (case ex_cause x of ExitStatus n \<Rightarrow> n | _ \<Rightarrow> - 1) | None \<Rightarrow> - 1)"

definition cmd_text :: "string \<Rightarrow> string list \<Rightarrow> string" where
  "cmd_text name args = trim_space (name @ '' '' @ join_with '' '' args)"

text \<open>A run of a command as its writes, in whatever pieces, to its two outputs, and how it ended.\<close>

record command_run =
  cr_writes :: "(bool \<times> bytes) list"
  cr_cause :: "exec_cause option"

definition Run_cmd :: "string \<Rightarrow> string list \<Rightarrow> command_run \<Rightarrow> exec_error option" where
  "Run_cmd name args r =
     map_option (\<lambda>c. \<lparr> ex_cmd = cmd_text name args, ex_cause = c, ex_output = foldl (tail_write 4096) [] (map snd (cr_writes r)) \<rparr>) (cr_cause r)"

definition Output_cmd :: "string \<Rightarrow> string list \<Rightarrow> command_run \<Rightarrow> string \<times> exec_error option" where
  "Output_cmd name args r =
     (trim_space (concat (map snd (filter fst (cr_writes r)))),
      map_option (\<lambda>c. \<lparr> ex_cmd = cmd_text name args, ex_cause = c,
        ex_output = foldl (tail_write 4096) [] (map snd (filter (\<lambda>w. \<not> fst w) (cr_writes r))) \<rparr>) (cr_cause r))"

definition Quiet_cmd :: "string \<Rightarrow> string list \<Rightarrow> command_run \<Rightarrow> exec_error option" where
  "Quiet_cmd name args r = map_option (\<lambda>c. \<lparr> ex_cmd = cmd_text name args, ex_cause = c, ex_output = [] \<rparr>) (cr_cause r)"

section \<open>The tail of a log\<close>

text \<open>A reader gives its bytes in pieces and ends, or fails.\<close>

fun tail_loop :: "nat \<Rightarrow> bytes \<Rightarrow> bytes list \<Rightarrow> bytes" where
  "tail_loop limit buf [] = buf"
| "tail_loop limit buf (chunk # rest) =
     (let b = buf @ chunk in
      if chunk = [] then tail_loop limit buf rest
      else if int (length b) > int limit then tail_loop limit (drop (length b - limit) b) rest
      else tail_loop limit b rest)"

definition tailBytes :: "bytes list \<Rightarrow> bool \<Rightarrow> int \<Rightarrow> bytes option" where
  "tailBytes pieces ok limit =
     (if limit \<le> 0 then Some [] else if ok then Some (tail_loop (nat limit) [] pieces) else None)"

text \<open>\<open>pieces\<close> cuts a stream into what the reads return; \<open>gunzip\<close> gives the stream in a compressed file and whether it is whole, unless the header is bad.\<close>

definition TailLog :: "(bytes \<Rightarrow> bytes list) \<Rightarrow> (bytes \<Rightarrow> (bytes \<times> bool) option) \<Rightarrow> path \<Rightarrow> path \<Rightarrow> int \<Rightarrow> machine \<Rightarrow> bool \<times> machine" where
  "TailLog pieces gunzip src dst limit m =
     (case ReadFile src m of
        (None, m1) \<Rightarrow> (False, m1)
      | (Some d, m1) \<Rightarrow>
          let stream = (if has_suffix (List.last src) ''.gz'' then gunzip d
                        else if int (length d) > limit then Some (drop (nat (int (length d) - limit)) d, True) else Some (d, True)) in
          (case stream of
             None \<Rightarrow> (False, m1)
           | Some (s, ok) \<Rightarrow>
               (case tailBytes (pieces s) ok limit of
                  None \<Rightarrow> (False, m1)
                | Some data \<Rightarrow> WriteOver dst 384 data m1)))"

section \<open>The logs of the node\<close>

definition MaxLogFiles :: nat where "MaxLogFiles = 30"
definition LogTailBytes :: int where "LogTailBytes = 4194304"
definition maxLogDepth :: nat where "maxLogDepth = 3"

text \<open>A directory as a walk of it sees it: files with whether they are regular, their sizes and times.  Entries that cannot be read are skipped.\<close>

datatype log_node = LogEntry string bool int time | LogDir string "log_node list"

record log_file =
  lf_path :: path
  lf_size :: int
  lf_time :: time

fun walk_logs :: "path \<Rightarrow> nat \<Rightarrow> log_node \<Rightarrow> log_file list" where
  "walk_logs dir depth (LogEntry n regular sz tm) =
     (if regular then [\<lparr> lf_path = dir @ [n], lf_size = sz, lf_time = tm \<rparr>] else [])"
| "walk_logs dir depth (LogDir n ns) =
     (if depth \<ge> maxLogDepth then [] else concat (map (walk_logs (dir @ [n]) (Suc depth)) ns))"

text \<open>Newest first; \<open>order\<close> is what the unstable sort makes of the list.\<close>

definition newest_first :: "log_file list \<Rightarrow> bool" where
  "newest_first fs = sorted_wrt (\<lambda>a b. \<not> lf_time a < lf_time b) fs"

definition ListLogs :: "(log_file list \<Rightarrow> log_file list) \<Rightarrow> path \<Rightarrow> log_node list option \<Rightarrow> log_file list option" where
  "ListLogs order dir ns = map_option (\<lambda>ns. order (concat (map (walk_logs dir 1) ns))) ns"

definition tail_name :: "nat \<Rightarrow> log_file \<Rightarrow> string" where
  "tail_name i f = show_pad 2 (int i) @ ''-'' @ List.last (lf_path f) @ ''.tail''"

fun tail_logs :: "(bytes \<Rightarrow> bytes list) \<Rightarrow> (bytes \<Rightarrow> (bytes \<times> bool) option) \<Rightarrow> path \<Rightarrow> nat \<Rightarrow> log_file list \<Rightarrow> machine \<Rightarrow> machine" where
  "tail_logs pieces gunzip tails i [] m = m"
| "tail_logs pieces gunzip tails i (f # fs) m =
     (if i \<ge> MaxLogFiles then m
      else tail_logs pieces gunzip tails (Suc i) fs
        (snd (TailLog pieces gunzip (lf_path f) (tails @ [tail_name (Suc i) f]) LogTailBytes m)))"

section \<open>Watching for a restart\<close>

record restart_detector =
  rd_restarts :: int
  rd_pid :: int
  rd_down :: bool

datatype restart_why = CountGrew int int | ProcessChanged int int

text \<open>On the restart count and the process of a sample.\<close>

definition restarted :: "int \<Rightarrow> int \<Rightarrow> restart_detector \<Rightarrow> restart_why option \<times> restart_detector" where
  "restarted n pid d =
     (if n > rd_restarts d then (Some (CountGrew (rd_restarts d) n), d)
      else if pid = 0 then (None, d\<lparr> rd_down := True \<rparr>)
      else if rd_down d \<and> pid \<noteq> rd_pid d then (Some (ProcessChanged (rd_pid d) pid), d)
      else (None, d))"

datatype watch_event = Interrupt | Deadline | Tick int int

datatype watch_end = WatchInterrupted | WatchTimedOut | WatchRestarted restart_why

text \<open>How a watch ends, and how many samples it has recorded; with no events left it still runs.\<close>

fun watch_loop :: "restart_detector \<Rightarrow> nat \<Rightarrow> watch_event list \<Rightarrow> watch_end option \<times> nat" where
  "watch_loop d k [] = (None, k)"
| "watch_loop d k (Interrupt # es) = (Some WatchInterrupted, k)"
| "watch_loop d k (Deadline # es) = (Some WatchTimedOut, Suc k)"
| "watch_loop d k (Tick n pid # es) =
     (case restarted n pid d of
        (Some why, d') \<Rightarrow> (Some (WatchRestarted why), Suc (Suc k))
      | (None, d') \<Rightarrow> watch_loop d' (Suc k) es)"

definition Watch :: "int \<Rightarrow> int \<Rightarrow> watch_event list \<Rightarrow> watch_end option \<times> nat" where
  "Watch n pid es = watch_loop \<lparr> rd_restarts = n, rd_pid = pid, rd_down = False \<rparr> 1 es"

section \<open>What is taken out\<close>

text \<open>The lines a crash leaves, by the alternatives of the pattern; a pattern that ignores case also takes the long s and the Kelvin sign for the letters they fold to.\<close>

definition crash_words :: "string list" where
  "crash_words = [''panic'', ''fatal'', ''runtime:'', ''goroutine'', ''deadlock'', ''segmentation'', ''signal'', ''out of memory'', ''oom'',
     ''killed process'', ''memory cgroup'', ''too many open files'', ''no space left'', ''corrupt'', ''leveldb'',
     ''resource temporarily unavailable'', ''control process exited'', ''main process exited'', ''failed with result'',
     ''scheduled restart'', ''watchdog'', ''stack trace'']"

definition fold_text :: "string \<Rightarrow> string" where
  "fold_text s = concat (map (\<lambda>(r, b). if r = 383 then ''s'' else if r = 8490 then ''k'' else to_lower b) (chunks s))"

fun has_infix :: "string \<Rightarrow> string \<Rightarrow> bool" where
  "has_infix w [] = (w = [])"
| "has_infix w (c # s) = (has_prefix (c # s) w \<or> has_infix w s)"

definition CrashMarkers :: "string \<Rightarrow> bool" where
  "CrashMarkers l \<longleftrightarrow> (\<exists>w \<in> set crash_words. has_infix w (fold_text l))"

text \<open>The lines of a reader, up to one that is too long for the scanner, and whether it got to the end.\<close>

definition FilterCrashMarkers :: "(bytes \<Rightarrow> string list \<times> bool) \<Rightarrow> bytes \<Rightarrow> bytes \<times> bool" where
  "FilterCrashMarkers scan d =
     (case scan d of (ls, ok) \<Rightarrow> (concat (map (\<lambda>l. l @ nl) (filter CrashMarkers ls)), ok))"

fun hide_ip :: "jvalue \<Rightarrow> jvalue" where
  "hide_ip (VObj kvs) = VObj (AList.update ''ip'' (VStr ''<redacted>'') kvs)"
| "hide_ip v = v"

definition hide_peers :: "jvalue \<Rightarrow> jvalue" where
  "hide_peers v = (case v of VArr ps \<Rightarrow> VArr (map hide_ip ps) | _ \<Rightarrow> v)"

definition at_key :: "string \<Rightarrow> (jvalue \<Rightarrow> jvalue) \<Rightarrow> (string \<times> jvalue) list \<Rightarrow> (string \<times> jvalue) list" where
  "at_key k f kvs = map (\<lambda>(k', v). if k' = k then (k', f v) else (k', v)) kvs"

definition RedactPeers :: "(bytes \<Rightarrow> jvalue option) \<Rightarrow> (jvalue \<Rightarrow> bytes option) \<Rightarrow> bytes \<Rightarrow> bytes option" where
  "RedactPeers parse render d =
     (case parse d of
        Some VNil \<Rightarrow> render VNil
      | Some (VObj kvs) \<Rightarrow> render (VObj (at_key ''self'' hide_ip (at_key ''peers'' hide_peers kvs)))
      | _ \<Rightarrow> None)"

section \<open>The pieces of the bundle\<close>

definition DefaultSince :: string where "DefaultSince = ''12 hours ago''"

text \<open>The host's name up to its first dot; \<open>stamp\<close> is the time in UTC.\<close>

definition DefaultOutputDir :: "string option \<Rightarrow> string \<Rightarrow> path" where
  "DefaultOutputDir hostname stamp =
     (let h = (case hostname of None \<Rightarrow> ''unknown-host'' | Some n \<Rightarrow> if n = [] then ''unknown-host'' else n);
          short = (case index_byte h (CHR ''.'') of Some i \<Rightarrow> if i > 0 then take i h else h | None \<Rightarrow> h) in
      [''root'', ''nomctl-support-'' @ short @ ''-'' @ stamp])"

definition bundle_write :: "path \<Rightarrow> string \<Rightarrow> string \<Rightarrow> machine \<Rightarrow> machine" where
  "bundle_write dir name content m = snd (WriteOver (dir @ [name]) 384 content m)"

definition with_error :: "string \<times> exec_error option \<Rightarrow> string" where
  "with_error r = (case r of (out, None) \<Rightarrow> out | (out, Some e) \<Rightarrow> out @ nl @ ''[error] '' @ Error_text e)"

definition bundle_capture ::
  "path \<Rightarrow> (string \<Rightarrow> string) \<Rightarrow> string \<Rightarrow> string \<Rightarrow> bool \<Rightarrow> string \<Rightarrow> string list \<Rightarrow> command_run \<Rightarrow> machine \<Rightarrow> machine" where
  "bundle_capture dir redact stamp name hide cmd args r m =
     (let out = with_error (Output_cmd cmd args r);
          header = ''command: '' @ cmd @ '' '' @ join_with '' '' args @ nl @ ''collected: '' @ stamp @ nl @ nl in
      bundle_write dir name (header @ (if hide then redact out else out) @ nl) m)"

definition bundle_section :: "string \<Rightarrow> string \<Rightarrow> string list \<Rightarrow> command_run \<Rightarrow> string" where
  "bundle_section title cmd args r = ''== '' @ title @ '' =='' @ nl @ with_error (Output_cmd cmd args r) @ nl @ nl"

text \<open>The last lines of the tool's own log.\<close>

definition log_tail :: "(string \<Rightarrow> string) \<Rightarrow> bytes \<Rightarrow> string" where
  "log_tail redact data =
     (let ls = split_on (CHR 0x0A) (rev (dropWhile (\<lambda>c. c = CHR 0x0A) (rev data))) in
      redact (join_with nl (if length ls > 200 then drop (length ls - 200) ls else ls)) @ nl)"

section \<open>Tails\<close>

lemma drop_keep: "drop (length (drop k a @ b) - n) (drop k a @ b) = drop (length (a @ b) - n) (a @ b)" if "length a - n = k"
  using that by (cases "length b \<ge> n"; cases "length a \<ge> n") (auto simp: drop_append)

lemma tail_writes: "foldl (tail_write n) (drop (length a - n) a) ps = drop (length (a @ concat ps) - n) (a @ concat ps)"
proof (induction ps arbitrary: a)
  case (Cons p ps)
  have "tail_write n buf p = drop (length (buf @ p) - n) (buf @ p)" for buf by (simp add: tail_write_def Let_def)
  then have "tail_write n (drop (length a - n) a) p = drop (length (a @ p) - n) (a @ p)" using drop_keep[OF refl] by metis
  with Cons[of "a @ p"] show ?case by simp
qed simp

lemma tail_write_length: "length (tail_write n buf p) \<le> n"
proof -
  have "length (drop (length b - n) b) \<le> n" for b :: bytes by simp
  from this[of "buf @ p"] show ?thesis unfolding tail_write_def Let_def by (auto simp del: length_append drop_append length_drop)
qed

lemma tail_loop_writes: "length buf \<le> n \<Longrightarrow> tail_loop n buf ps = foldl (tail_write n) buf ps"
proof (induction ps arbitrary: buf)
  case (Cons p ps)
  from Cons.IH[OF tail_write_length[of n buf p]] Cons.IH[OF Cons.prems] Cons.prems show ?case by (auto simp: tail_write_def Let_def)
qed simp

text \<open>The tail of an output, and of a log, is exact.  Whatever the pieces in which the bytes arrive, the buffer of a command holds the last
  bytes of all that was written, and the reader of a log, which never holds more than its limit and one piece, returns the last bytes
  of the stream.\<close>

theorem tails_exact:
  "foldl (tail_write n) [] ps = drop (length (concat ps) - n) (concat ps) \<and>
   tailBytes ps True limit = Some (if limit \<le> 0 then [] else drop (length (concat ps) - nat limit) (concat ps))"
  using tail_writes[of n "[]" ps] tail_writes[of "nat limit" "[]" ps] tail_loop_writes[of "[]" "nat limit" ps]
  by (simp add: tailBytes_def)

section \<open>What a watch detects\<close>

text \<open>Whether the sample at a place of a run of samples shows a restart.\<close>

definition shows_after :: "int \<Rightarrow> int \<Rightarrow> bool \<Rightarrow> (int \<times> int) list \<Rightarrow> nat \<Rightarrow> bool" where
  "shows_after n0 pid0 down ss i \<longleftrightarrow>
     fst (ss ! i) > n0 \<or> (snd (ss ! i) \<noteq> 0 \<and> snd (ss ! i) \<noteq> pid0 \<and> (down \<or> (\<exists>j < i. snd (ss ! j) = 0)))"

definition shows_restart :: "int \<Rightarrow> int \<Rightarrow> (int \<times> int) list \<Rightarrow> nat \<Rightarrow> bool" where
  "shows_restart n0 pid0 ss i \<longleftrightarrow>
     fst (ss ! i) > n0 \<or> (snd (ss ! i) \<noteq> 0 \<and> snd (ss ! i) \<noteq> pid0 \<and> (\<exists>j < i. snd (ss ! j) = 0))"

lemma shows_after_Suc: "shows_after n0 pid0 down (s # ss) (Suc i) = shows_after n0 pid0 (down \<or> snd s = 0) ss i"
proof -
  have "(\<exists>j < Suc i. snd ((s # ss) ! j) = 0) \<longleftrightarrow> snd s = 0 \<or> (\<exists>j < i. snd (ss ! j) = 0)" by (auto simp: less_Suc_eq_0_disj)
  then show ?thesis by (simp add: shows_after_def disj_assoc)
qed

definition tick :: "int \<times> int \<Rightarrow> watch_event" where "tick s = Tick (fst s) (snd s)"

lemma watch_loop_spec:
  assumes "watch_loop \<lparr> rd_restarts = n0, rd_pid = pid0, rd_down = down \<rparr> k (map tick ss) = (r, k')"
  shows "(r = None \<longrightarrow> k' = k + length ss \<and> (\<forall>i < length ss. \<not> shows_after n0 pid0 down ss i)) \<and>
    (r \<noteq> None \<longrightarrow> (\<exists>i < length ss. k' = k + i + 2 \<and> (\<exists>why. r = Some (WatchRestarted why)) \<and> shows_after n0 pid0 down ss i \<and>
       (\<forall>i' < i. \<not> shows_after n0 pid0 down ss i')))"
  using assms
proof (induction ss arbitrary: down k)
  case (Cons s ss)
  let ?d = "\<lparr> rd_restarts = n0, rd_pid = pid0, rd_down = down \<rparr>" and ?d' = "\<lparr> rd_restarts = n0, rd_pid = pid0, rd_down = down \<or> snd s = 0 \<rparr>"
  have zero: "shows_after n0 pid0 down (s # ss) 0 \<longleftrightarrow> fst s > n0 \<or> (snd s \<noteq> 0 \<and> snd s \<noteq> pid0 \<and> down)" by (simp add: shows_after_def)
  show ?case
  proof (cases "shows_after n0 pid0 down (s # ss) 0")
    case True
    then have "\<exists>why. restarted (fst s) (snd s) ?d = (Some why, ?d)" unfolding zero by (auto simp: restarted_def)
    then obtain why where "restarted (fst s) (snd s) ?d = (Some why, ?d)" by blast
    with Cons.prems have "r = Some (WatchRestarted why)" "k' = k + 0 + 2" by (auto simp: tick_def)
    with True show ?thesis by blast
  next
    case False
    then have "restarted (fst s) (snd s) ?d = (None, ?d')" unfolding zero by (auto simp: restarted_def)
    moreover have "map tick (s # ss) = Tick (fst s) (snd s) # map tick ss" by (simp add: tick_def)
    ultimately have run: "watch_loop ?d' (Suc k) (map tick ss) = (r, k')" using Cons.prems by simp
    note ih = Cons.IH[OF run, folded shows_after_Suc]
    have all: "(\<forall>i < Suc n. \<not> shows_after n0 pid0 down (s # ss) i) \<longleftrightarrow> (\<forall>i < n. \<not> shows_after n0 pid0 down (s # ss) (Suc i))" for n
      using False by (simp add: All_less_Suc2)
    show ?thesis
    proof (cases "r = None")
      case True
      with ih all[of "length ss"] show ?thesis by simp
    next
      case some: False
      with ih obtain i where i: "i < length ss" "k' = Suc k + i + 2" "\<exists>why. r = Some (WatchRestarted why)"
        "shows_after n0 pid0 down (s # ss) (Suc i)" "\<forall>i' < i. \<not> shows_after n0 pid0 down (s # ss) (Suc i')" by blast
      with all[of i] some show ?thesis by (intro conjI impI exI[of _ "Suc i"]) simp_all
    qed
  qed
qed simp

text \<open>A watch stops at the first restart.  As long as nobody interrupts it, it goes on exactly as long as no sample has a larger restart
  count than the first one and none has a new process after one that had no process; at the first such sample it stops, having recorded
  that sample, every one before it, the initial one and one more.\<close>

theorem watch_detects:
  "case Watch n0 pid0 (map tick ss) of
     (None, k) \<Rightarrow> k = Suc (length ss) \<and> (\<forall>i < length ss. \<not> shows_restart n0 pid0 ss i)
   | (Some r, k) \<Rightarrow> \<exists>i < length ss. k = i + 3 \<and> (\<exists>why. r = WatchRestarted why) \<and> shows_restart n0 pid0 ss i \<and> (\<forall>i' < i. \<not> shows_restart n0 pid0 ss i')"
proof -
  obtain r k where w: "Watch n0 pid0 (map tick ss) = (r, k)" by (cases "Watch n0 pid0 (map tick ss)")
  have s: "shows_after n0 pid0 False ss i = shows_restart n0 pid0 ss i" for i by (simp add: shows_after_def shows_restart_def)
  from watch_loop_spec[OF w[unfolded Watch_def]] show ?thesis unfolding w s by (auto split: option.splits)
qed

lemma watch_detects_witness:
  "Watch 0 7 (map tick [(0, 7), (0, 0), (0, 9), (1, 9)]) = (Some (WatchRestarted (ProcessChanged 7 9)), 5) \<and>
   shows_restart 0 7 [(0, 7), (0, 0), (0, 9), (1, 9)] 2"
proof -
  have w: "Watch 0 7 (map tick [(0, 7), (0, 0), (0, 9), (1, 9)]) = (Some (WatchRestarted (ProcessChanged 7 9)), 5)" by code_simp
  from watch_detects[where ?n0.0 = 0 and ?pid0.0 = 7 and ss = "[(0, 7), (0, 0), (0, 9), (1, 9)]", unfolded w prod.case option.case] w show ?thesis by fastforce
qed

end
