(* ===== verification/Analytics.thy ===== *)
theory Analytics
  imports Deploy Support
begin

text \<open>
  The analytics stack (\<^verbatim>\<open>internal/analytics\<close>): the node exporter, Prometheus and Grafana, installed step by step over the host and whatever the
  commands and Grafana keep outside it.
\<close>

section \<open>The host and what is outside\<close>

text \<open>
  The host with whatever else the commands and Grafana keep (packages, users, Grafana's database), and what is asked of the outside:
  commands, with and without their output, requests to Grafana with a user and a password, its bare answer, downloads, JSON, and
  names for temporary files.
\<close>

record 'g site =
  si_host :: host
  si_rest :: 'g

record grafana =
  gr_base :: string
  gr_user :: string
  gr_password :: string

record 'g stack_world =
  sw_run :: "string list \<Rightarrow> 'g site \<Rightarrow> bool \<times> 'g site"
  sw_output :: "string list \<Rightarrow> 'g site \<Rightarrow> string option \<times> 'g site"
  sw_http :: "grafana \<Rightarrow> string \<Rightarrow> string \<Rightarrow> bytes option \<Rightarrow> 'g site \<Rightarrow> (int \<times> bytes) option \<times> 'g site"
  sw_plain :: "string \<Rightarrow> 'g site \<Rightarrow> int option \<times> 'g site"
  sw_polls :: nat
  sw_get :: "string \<Rightarrow> web_answer"
  sw_json :: "jvalue \<Rightarrow> bytes"
  sw_parse :: "bytes \<Rightarrow> jvalue option"
  sw_uid :: "bytes \<Rightarrow> string option"
  sw_results :: "bytes \<Rightarrow> nat option"
  sw_title :: "bytes \<Rightarrow> string"
  sw_dashboard :: bytes
  sw_arch :: string
  sw_temp :: string

definition on_host :: "(host \<Rightarrow> 'a \<times> host) \<Rightarrow> 'g site \<Rightarrow> 'a \<times> 'g site" where
  "on_host f s = (case f (si_host s) of (a, h) \<Rightarrow> (a, s\<lparr> si_host := h \<rparr>))"

definition on_tree :: "(machine \<Rightarrow> 'a \<times> machine) \<Rightarrow> 'g site \<Rightarrow> 'a \<times> 'g site" where
  "on_tree f = on_host (on_machine f)"

definition at_site :: "'g site \<Rightarrow> path \<Rightarrow> inode option" where
  "at_site s p = mc_tree (ho_machine (si_host s)) p"

text \<open>Steps one after the other, until one fails; a step that is taken only in a state that calls for it.\<close>

fun all_steps :: "('s \<Rightarrow> bool \<times> 's) list \<Rightarrow> 's \<Rightarrow> bool \<times> 's" where
  "all_steps [] s = (True, s)"
| "all_steps (f # fs) s = (case f s of (True, s1) \<Rightarrow> all_steps fs s1 | (False, s1) \<Rightarrow> (False, s1))"

definition unless :: "('s \<Rightarrow> bool) \<Rightarrow> ('s \<Rightarrow> bool \<times> 's) \<Rightarrow> 's \<Rightarrow> bool \<times> 's" where
  "unless c f s = (if c s then (True, s) else f s)"

definition present :: "path \<Rightarrow> 'g site \<Rightarrow> bool" where "present p s = exists_at (ho_machine (si_host s)) p"

definition present_dir :: "path \<Rightarrow> 'g site \<Rightarrow> bool" where "present_dir p s = is_folder (ho_machine (si_host s)) p"

text \<open>Steps in a new temporary directory, which is removed whatever came of them.\<close>

definition in_temp :: "path \<Rightarrow> ('g site \<Rightarrow> bool \<times> 'g site) \<Rightarrow> 'g site \<Rightarrow> bool \<times> 'g site" where
  "in_temp work f s =
     (case on_tree (MkdirNew work) s of (ok, s1) \<Rightarrow>
      if \<not> ok then (False, s1)
      else case f s1 of (ok2, s2) \<Rightarrow> (ok2, snd (on_tree (RemoveAll work) s2)))"

section \<open>Files and packages\<close>

definition text_path :: "path \<Rightarrow> string" where "text_path p = concat (map (\<lambda>e. ''/'' @ e) p)"

definition dpkgInstalled :: "'g stack_world \<Rightarrow> string \<Rightarrow> 'g site \<Rightarrow> bool \<times> 'g site" where
  "dpkgInstalled w pkg s =
     (case sw_output w [''dpkg-query'', ''-W'', ''-f=${Status}'', pkg] s of
        (Some out, s1) \<Rightarrow> (has_infix ''install ok installed'' out, s1)
      | (None, s1) \<Rightarrow> (False, s1))"

fun missing_packages :: "'g stack_world \<Rightarrow> string list \<Rightarrow> 'g site \<Rightarrow> string list \<times> 'g site" where
  "missing_packages w [] s = ([], s)"
| "missing_packages w (p # ps) s =
     (case dpkgInstalled w p s of (have_it, s1) \<Rightarrow>
      case missing_packages w ps s1 of (ms, s2) \<Rightarrow> (if have_it then ms else p # ms, s2))"

definition installPrerequisites :: "'g stack_world \<Rightarrow> 'g site \<Rightarrow> bool \<times> 'g site" where
  "installPrerequisites w s =
     (case missing_packages w [''apt-transport-https'', ''software-properties-common''] s of (ms, s1) \<Rightarrow>
      if ms = [] then (True, s1)
      else all_steps [sw_run w [''apt-get'', ''update'', ''-qq''], sw_run w ([''apt-get'', ''install'', ''-y''] @ ms)] s1)"

definition ensureSystemUser :: "'g stack_world \<Rightarrow> string \<Rightarrow> 'g site \<Rightarrow> bool \<times> 'g site" where
  "ensureSystemUser w name s =
     (case sw_run w [''id'', name] s of (True, s1) \<Rightarrow> (True, s1) | (False, s1) \<Rightarrow> sw_run w [''useradd'', ''-rs'', ''/bin/false'', name] s1)"

definition releaseArch :: "'g stack_world \<Rightarrow> string" where "releaseArch w = ''linux-'' @ sw_arch w"

text \<open>Whether the unit was written, and whether that went well.\<close>

definition ensureUnitFile :: "string \<Rightarrow> bytes \<Rightarrow> 'g site \<Rightarrow> (bool \<times> bool) \<times> 'g site" where
  "ensureUnitFile f content s =
     (if present (unit_path f) s then ((False, True), s)
      else case on_host (WriteUnit f content) s of (ok, s1) \<Rightarrow> ((True, ok), s1))"

text \<open>The unit file, then the unit.\<close>

definition unit_running :: "string \<Rightarrow> bytes \<Rightarrow> ('g site \<Rightarrow> bool \<times> 'g site) \<Rightarrow> 'g site \<Rightarrow> bool \<times> 'g site" where
  "unit_running u content between s =
     (case ensureUnitFile (u @ ''.service'') content s of ((wrote, ok), s1) \<Rightarrow>
      if \<not> ok then (False, s1) else all_steps [between, on_host (EnsureRunning u wrote)] s1)"

section \<open>The node exporter\<close>

definition exporter_binary :: path where "exporter_binary = [''usr'', ''local'', ''bin'', ''node_exporter'']"

definition NodeExporterUnit :: string where
  "NodeExporterUnit = concat (map (\<lambda>l. l @ nl)
     [''[Unit]'', ''Description=Prometheus Node Exporter'', ''After=network-online.target'', [], ''[Service]'', ''User=node_exporter'', ''Group=node_exporter'',
      ''Type=simple'', ''ExecStart=/usr/local/bin/node_exporter'', [], ''[Install]'', ''WantedBy=multi-user.target''])"

definition exporter_dir :: "'g stack_world \<Rightarrow> tool_config \<Rightarrow> string" where
  "exporter_dir w cfg = ''node_exporter-'' @ tc_NodeExporterVersion cfg @ ''.'' @ releaseArch w"

definition exporter_url :: "'g stack_world \<Rightarrow> tool_config \<Rightarrow> string" where
  "exporter_url w cfg =
     ''https://github.com/prometheus/node_exporter/releases/download/v'' @ tc_NodeExporterVersion cfg @ ''/'' @ exporter_dir w cfg @ ''.tar.gz''"

definition exporter_rest :: "'g stack_world \<Rightarrow> 'g site \<Rightarrow> bool \<times> 'g site" where
  "exporter_rest w = all_steps [ensureSystemUser w ''node_exporter'', unit_running ''node_exporter'' NodeExporterUnit (Pair True)]"

definition installNodeExporter :: "'g stack_world \<Rightarrow> tool_config \<Rightarrow> 'g site \<Rightarrow> bool \<times> 'g site" where
  "installNodeExporter w cfg s =
     (let work = [''tmp'', ''nomctl-node-exporter-'' @ sw_temp w]; tarball = work @ [''node_exporter.tar.gz''] in
      if present exporter_binary s then exporter_rest w s
      else in_temp work (all_steps
        [on_tree (Download_file (sw_get w) (exporter_url w cfg) tarball),
         sw_run w [''tar'', ''-xzf'', text_path tarball, ''-C'', text_path work],
         on_tree (CopyFile (work @ [exporter_dir w cfg, ''node_exporter'']) exporter_binary 493),
         exporter_rest w]) s)"


section \<open>Prometheus\<close>

definition PrometheusUnit :: string where
  "PrometheusUnit = concat (map (\<lambda>l. l @ nl)
     [''[Unit]'', ''Description=Prometheus'', ''After=network-online.target'', [], ''[Service]'', ''User=prometheus'', ''Group=prometheus'', ''Type=simple'',
      ''ExecStart=/usr/local/bin/prometheus '' @ [CHR 0x5C], ''  --config.file=/etc/prometheus/prometheus.yml '' @ [CHR 0x5C],
      ''  --storage.tsdb.path=/var/lib/prometheus/'', [], ''[Install]'', ''WantedBy=multi-user.target''])"

definition nodeScrapeConfig :: string where
  "nodeScrapeConfig = nl @ ''  - job_name: \"node\"'' @ nl @ ''    static_configs:'' @ nl @ ''      - targets: [\"localhost:9100\"]'' @ nl"

definition NeedsNodeScrapeJob :: "string \<Rightarrow> bool" where
  "NeedsNodeScrapeJob yml = (\<not> has_infix ''job_name: \"node\"'' yml)"

definition promYML :: path where "promYML = [''etc'', ''prometheus'', ''prometheus.yml'']"

text \<open>
  \<open>tmp\<close> is the fresh name beside the file.  The tree has no links, so that what \<^verbatim>\<open>Lstat\<close> and \<^verbatim>\<open>O_NOFOLLOW\<close> refuse is a directory;
  the mode of the copy is set after its contents.
\<close>

definition AppendManaged :: "string \<Rightarrow> path \<Rightarrow> string \<Rightarrow> machine \<Rightarrow> bool \<times> machine" where
  "AppendManaged tmp p text m =
     (case mc_tree m p of
        Some (Doc d0 mode) \<Rightarrow>
          (case ReadFile p m of
             (None, m1) \<Rightarrow> (False, m1)
           | (Some d, m1) \<Rightarrow>
               (let t = up p @ [tmp] in
                case WriteNew t 384 [] m1 of (ok2, m2) \<Rightarrow>
                if \<not> ok2 then (False, m2)
                else case WriteOver t 384 (d @ text) m2 of (ok3, m3) \<Rightarrow>
                  if \<not> ok3 then (False, snd (RemoveFile t m3))
                  else case chmod_at t mode m3 of (ok4, m4) \<Rightarrow>
                    if \<not> ok4 then (False, snd (RemoveFile t m4))
                    else case Rename t p m4 of (ok5, m5) \<Rightarrow>
                      if \<not> ok5 then (False, snd (RemoveFile t m5)) else (True, m5)))
      | _ \<Rightarrow> (False, m))"

definition prom_dir :: path where "prom_dir = [''etc'', ''prometheus'']"

definition local_bin :: "string \<Rightarrow> path" where "local_bin b = [''usr'', ''local'', ''bin'', b]"

definition prom_missing :: "'g site \<Rightarrow> bool" where
  "prom_missing s \<longleftrightarrow>
     \<not> list_all (\<lambda>b. present (local_bin b) s) [''prometheus'', ''promtool''] \<or>
     \<not> list_all (\<lambda>d. present_dir (prom_dir @ [d]) s) [''consoles'', ''console_libraries''] \<or> \<not> present promYML s"

definition prom_name :: "'g stack_world \<Rightarrow> tool_config \<Rightarrow> string" where
  "prom_name w cfg = ''prometheus-'' @ tc_PrometheusVersion cfg @ ''.'' @ releaseArch w"

definition prom_url :: "'g stack_world \<Rightarrow> tool_config \<Rightarrow> string" where
  "prom_url w cfg = ''https://github.com/prometheus/prometheus/releases/download/v'' @ tc_PrometheusVersion cfg @ ''/'' @ prom_name w cfg @ ''.tar.gz''"

text \<open>The pieces of the release that are not there yet, from where it was unpacked.\<close>

definition prom_pieces :: "'g stack_world \<Rightarrow> path \<Rightarrow> ('g site \<Rightarrow> bool \<times> 'g site) list" where
  "prom_pieces w src =
     map (\<lambda>b. unless (present (local_bin b)) (on_tree (CopyFile (src @ [b]) (local_bin b) 493))) [''prometheus'', ''promtool''] @
     map (\<lambda>d. unless (present_dir (prom_dir @ [d])) (sw_run w [''cp'', ''-r'', text_path (src @ [d]), ''/etc/prometheus/''])) [''consoles'', ''console_libraries''] @
     [unless (present promYML) (on_tree (CopyFile (src @ [''prometheus.yml'']) promYML 420))]"

definition scrape_job :: "'g stack_world \<Rightarrow> 'g site \<Rightarrow> bool \<times> 'g site" where
  "scrape_job w s =
     (case on_tree (ReadFile promYML) s of
        (None, s1) \<Rightarrow> (False, s1)
      | (Some current, s1) \<Rightarrow>
          if \<not> NeedsNodeScrapeJob current then (True, s1)
          else all_steps [on_tree (AppendManaged (''.prometheus.yml.'' @ sw_temp w) promYML nodeScrapeConfig), on_host (RestartUnit ''prometheus'')] s1)"

definition prom_rest :: "'g stack_world \<Rightarrow> 'g site \<Rightarrow> bool \<times> 'g site" where
  "prom_rest w = all_steps
     [ensureSystemUser w ''prometheus'',
      unit_running ''prometheus'' PrometheusUnit (all_steps
        [sw_run w [''chown'', ''-R'', ''root:root'', ''/etc/prometheus''], sw_run w [''chown'', ''-R'', ''prometheus:prometheus'', ''/var/lib/prometheus'']]),
      scrape_job w]"

definition installPrometheus :: "'g stack_world \<Rightarrow> tool_config \<Rightarrow> 'g site \<Rightarrow> bool \<times> 'g site" where
  "installPrometheus w cfg s =
     (let work = [''tmp'', ''nomctl-prometheus-'' @ sw_temp w]; tarball = work @ [''prometheus.tar.gz'']; src = work @ [prom_name w cfg] in
      all_steps
        [on_tree (MkdirAll prom_dir), on_tree (MkdirAll [''var'', ''lib'', ''prometheus'']),
         (\<lambda>s. if \<not> prom_missing s then prom_rest w s
              else in_temp work (all_steps
                ([on_tree (Download_file (sw_get w) (prom_url w cfg) tarball), sw_run w [''tar'', ''-xzf'', text_path tarball, ''-C'', text_path work]] @
                 prom_pieces w src @ [prom_rest w])) s)] s)"

section \<open>Grafana\<close>

definition url_plain :: "char \<Rightarrow> bool" where
  "url_plain c \<longleftrightarrow> is_digit c \<or> (CHR ''a'' \<le> c \<and> c \<le> CHR ''z'') \<or> (CHR ''A'' \<le> c \<and> c \<le> CHR ''Z'') \<or> c \<in> set ''-_.~''"

definition upper_hex :: "int \<Rightarrow> char" where "upper_hex d = (if d < 10 then char_of (48 + d) else char_of (55 + d))"

definition percent :: "char \<Rightarrow> string" where
  "percent c = [CHR ''%'', upper_hex (of_char c div 16), upper_hex (of_char c mod 16)]"

definition PathEscape :: "string \<Rightarrow> string" where
  "PathEscape s = concat (map (\<lambda>c. if url_plain c \<or> c \<in> set ''$&+=:@'' then [c] else percent c) s)"

definition QueryEscape :: "string \<Rightarrow> string" where
  "QueryEscape s = concat (map (\<lambda>c. if url_plain c then [c] else if c = CHR '' '' then ''+'' else percent c) s)"

definition bracket :: "char \<Rightarrow> bool" where "bracket c \<longleftrightarrow> c = CHR ''['' \<or> c = CHR '']''"

definition ClientURL :: "string \<Rightarrow> string" where
  "ClientURL addr =
     (let t = trim_space addr;
          host = (if t = [] \<or> t = ''0.0.0.0'' \<or> t = ''*'' then ''127.0.0.1'' else if t = ''::'' \<or> t = ''[::]'' then ''::1'' else t);
          h = rev (dropWhile bracket (rev (dropWhile bracket host))) in
      ''http://'' @ (if CHR '':'' \<in> set h then ''['' @ h @ '']'' else h) @ '':3000'')"

definition NewGrafana :: "string \<Rightarrow> string \<Rightarrow> grafana" where
  "NewGrafana user password = \<lparr> gr_base = ''http://localhost:3000'', gr_user = user, gr_password = password \<rparr>"

definition Ready :: "'g stack_world \<Rightarrow> grafana \<Rightarrow> 'g site \<Rightarrow> bool \<times> 'g site" where
  "Ready w g s = (case sw_plain w (gr_base g) s of (None, s1) \<Rightarrow> (False, s1) | (Some code, s1) \<Rightarrow> (code < 400, s1))"

text \<open>With how many polls end before the deadline; one more is made after it.\<close>

fun WaitReady :: "nat \<Rightarrow> 'g stack_world \<Rightarrow> grafana \<Rightarrow> 'g site \<Rightarrow> bool \<times> 'g site" where
  "WaitReady n w g s =
     (case Ready w g s of (True, s1) \<Rightarrow> (True, s1)
      | (False, s1) \<Rightarrow> (case n of 0 \<Rightarrow> (False, s1) | Suc n' \<Rightarrow> WaitReady n' w g s1))"

text \<open>An answer by its status: None is an error.\<close>

definition by_status :: "int \<Rightarrow> (int \<times> bytes) option \<times> 'g site \<Rightarrow> bool option \<times> 'g site" where
  "by_status no r = (case r of (None, s1) \<Rightarrow> (None, s1)
     | (Some (code, d), s1) \<Rightarrow> ((if code = 200 then Some True else if code = no then Some False else None), s1))"

definition Authenticated :: "'g stack_world \<Rightarrow> grafana \<Rightarrow> 'g site \<Rightarrow> bool option \<times> 'g site" where
  "Authenticated w g s = by_status 401 (sw_http w g ''GET'' ''/api/user'' None s)"

definition PluginLoaded :: "'g stack_world \<Rightarrow> grafana \<Rightarrow> string \<Rightarrow> 'g site \<Rightarrow> bool option \<times> 'g site" where
  "PluginLoaded w g p s = by_status 404 (sw_http w g ''GET'' (''/api/plugins/'' @ PathEscape p @ ''/settings'') None s)"

definition DatasourceUID :: "'g stack_world \<Rightarrow> grafana \<Rightarrow> string \<Rightarrow> 'g site \<Rightarrow> string option \<times> 'g site" where
  "DatasourceUID w g name s =
     (case sw_http w g ''GET'' (''/api/datasources/name/'' @ PathEscape name) None s of
        (None, s1) \<Rightarrow> (None, s1)
      | (Some (code, d), s1) \<Rightarrow>
          (if code = 404 then Some [] else if code \<noteq> 200 then None
           else case sw_uid w d of None \<Rightarrow> None | Some u \<Rightarrow> if u = [] then None else Some u, s1))"

definition DatasourceExists :: "'g stack_world \<Rightarrow> grafana \<Rightarrow> string \<Rightarrow> 'g site \<Rightarrow> bool option \<times> 'g site" where
  "DatasourceExists w g name s = (case DatasourceUID w g name s of (u, s1) \<Rightarrow> (map_option (\<lambda>u. u \<noteq> []) u, s1))"

definition send_json :: "'g stack_world \<Rightarrow> grafana \<Rightarrow> string \<Rightarrow> string \<Rightarrow> bytes \<Rightarrow> 'g site \<Rightarrow> bool \<times> 'g site" where
  "send_json w g verb p body s =
     (case sw_http w g verb p (Some body) s of (None, s1) \<Rightarrow> (False, s1) | (Some (code, d), s1) \<Rightarrow> (200 \<le> code \<and> code \<le> 299, s1))"

definition CreateDatasource :: "'g stack_world \<Rightarrow> grafana \<Rightarrow> (string \<times> jvalue) list \<Rightarrow> 'g site \<Rightarrow> bool \<times> 'g site" where
  "CreateDatasource w g def s = send_json w g ''POST'' ''/api/datasources'' (sw_json w (VObj def)) s"

definition ChangePassword :: "'g stack_world \<Rightarrow> grafana \<Rightarrow> string \<Rightarrow> string \<Rightarrow> 'g site \<Rightarrow> bool \<times> 'g site" where
  "ChangePassword w g old new s =
     send_json w g ''PUT'' ''/api/user/password'' (sw_json w (VObj [(''confirmNew'', VStr new), (''newPassword'', VStr new), (''oldPassword'', VStr old)])) s"

definition DashboardExists :: "'g stack_world \<Rightarrow> grafana \<Rightarrow> string \<Rightarrow> 'g site \<Rightarrow> bool option \<times> 'g site" where
  "DashboardExists w g title s =
     (case sw_http w g ''GET'' (''/api/search?query='' @ QueryEscape title) None s of
        (None, s1) \<Rightarrow> (None, s1)
      | (Some (code, d), s1) \<Rightarrow> (if code \<noteq> 200 then None else map_option (\<lambda>n. n > 0) (sw_results w d), s1))"


section \<open>What is set up in Grafana\<close>

definition infinityPlugin :: string where "infinityPlugin = ''yesoreyeram-infinity-datasource''"

definition GrafanaDropIn :: "string \<Rightarrow> string" where
  "GrafanaDropIn addr = ''[Service]'' @ nl @ ''Environment=GF_SERVER_HTTP_ADDR='' @ addr @ nl"

definition grafanaDropIn :: path where "grafanaDropIn = [''etc'', ''systemd'', ''system'', ''grafana-server.service.d'', ''nomctl.conf'']"
definition grafanaKeyring :: path where "grafanaKeyring = [''etc'', ''apt'', ''keyrings'', ''grafana.asc'']"
definition grafanaSourcesList :: path where "grafanaSourcesList = [''etc'', ''apt'', ''sources.list.d'', ''grafana.list'']"

definition grafana_package :: "'g stack_world \<Rightarrow> 'g site \<Rightarrow> bool \<times> 'g site" where
  "grafana_package w = all_steps
     [on_tree (MkdirAll (up grafanaKeyring)),
      unless (present grafanaKeyring) (on_tree (Download_file (sw_get w) ''https://apt.grafana.com/gpg.key'' grafanaKeyring)),
      unless (present grafanaSourcesList) (on_tree (WriteOver grafanaSourcesList 420
        (''deb [signed-by='' @ text_path grafanaKeyring @ ''] https://apt.grafana.com stable main'' @ nl))),
      sw_run w [''apt-get'', ''update'', ''-qq''], sw_run w [''apt-get'', ''install'', ''-y'', ''grafana'']]"

text \<open>The drop-in, and whether it was written; a file that cannot be read counts as empty.\<close>

definition bind_address :: "string \<Rightarrow> 'g site \<Rightarrow> (bool \<times> bool) \<times> 'g site" where
  "bind_address addr s =
     (case on_tree (ReadFile grafanaDropIn) s of (current, s1) \<Rightarrow>
      if (case current of None \<Rightarrow> [] | Some d \<Rightarrow> d) = GrafanaDropIn addr then ((False, True), s1)
      else case all_steps [on_tree (MkdirAll (up grafanaDropIn)), on_tree (WriteOver grafanaDropIn 420 (GrafanaDropIn addr))] s1 of
        (ok, s2) \<Rightarrow> ((True, ok), s2))"

definition grafana_up :: "'g stack_world \<Rightarrow> tool_config \<Rightarrow> grafana \<Rightarrow> 'g site \<Rightarrow> bool \<times> 'g site" where
  "grafana_up w cfg g s =
     (case bind_address (tc_GrafanaHTTPAddr cfg) s of ((reload, ok), s1) \<Rightarrow>
      if \<not> ok then (False, s1)
      else all_steps
        [on_host (EnsureRunning ''grafana-server'' reload),
         (\<lambda>s. if \<not> reload then (True, s)
              else case on_host (IsActive_unit ''grafana-server'') s of (ac, s2) \<Rightarrow>
                if ac then on_host (RestartUnit ''grafana-server'') s2 else (True, s2)),
         WaitReady (sw_polls w) w g] s1)"

definition installGrafana :: "'g stack_world \<Rightarrow> tool_config \<Rightarrow> grafana \<Rightarrow> 'g site \<Rightarrow> bool \<times> 'g site" where
  "installGrafana w cfg g s =
     (case dpkgInstalled w ''grafana'' s of (have_it, s1) \<Rightarrow>
      all_steps ((if have_it then [] else [grafana_package w]) @ [grafana_up w cfg g]) s1)"

text \<open>The requests go out with the default password once the configured one was refused.\<close>

definition secureGrafana :: "'g stack_world \<Rightarrow> tool_config \<Rightarrow> grafana \<Rightarrow> 'g site \<Rightarrow> bool \<times> 'g site" where
  "secureGrafana w cfg g s =
     (if tc_GrafanaAdminPassword cfg = DefaultGrafanaAdminPassword then (True, s)
      else case Authenticated w g s of (r, s1) \<Rightarrow>
        if r = Some True then (True, s1)
        else let initial = g\<lparr> gr_user := tc_GrafanaAdminUser cfg, gr_password := DefaultGrafanaAdminPassword \<rparr> in
          case Authenticated w initial s1 of (r2, s2) \<Rightarrow>
            if r2 \<noteq> Some True then (False, s2)
            else ChangePassword w initial DefaultGrafanaAdminPassword (tc_GrafanaAdminPassword cfg) s2)"

definition ensure_datasource :: "'g stack_world \<Rightarrow> grafana \<Rightarrow> string \<Rightarrow> (string \<times> jvalue) list \<Rightarrow> 'g site \<Rightarrow> bool \<times> 'g site" where
  "ensure_datasource w g name def s =
     (case DatasourceExists w g name s of
        (None, s1) \<Rightarrow> (False, s1)
      | (Some True, s1) \<Rightarrow> (True, s1)
      | (Some False, s1) \<Rightarrow> CreateDatasource w g def s1)"

definition configurePrometheusDatasource :: "'g stack_world \<Rightarrow> grafana \<Rightarrow> 'g site \<Rightarrow> bool \<times> 'g site" where
  "configurePrometheusDatasource w g = ensure_datasource w g ''Prometheus''
     [(''access'', VStr ''proxy''), (''isDefault'', VBool True), (''name'', VStr ''Prometheus''), (''type'', VStr ''prometheus''), (''url'', VStr ''http://localhost:9090'')]"

definition configureInfinityDatasource :: "'g stack_world \<Rightarrow> grafana \<Rightarrow> 'g site \<Rightarrow> bool \<times> 'g site" where
  "configureInfinityDatasource w g = ensure_datasource w g infinityPlugin
     [(''access'', VStr ''proxy''), (''name'', VStr infinityPlugin), (''type'', VStr infinityPlugin)]"

definition load_plugin :: "'g stack_world \<Rightarrow> grafana \<Rightarrow> 'g site \<Rightarrow> bool \<times> 'g site" where
  "load_plugin w g s =
     (case PluginLoaded w g infinityPlugin s of
        (None, s1) \<Rightarrow> (False, s1)
      | (Some True, s1) \<Rightarrow> (True, s1)
      | (Some False, s1) \<Rightarrow>
          all_steps [on_host (RestartUnit ''grafana-server''), WaitReady (sw_polls w) w g,
            (\<lambda>s. case PluginLoaded w g infinityPlugin s of (r, s2) \<Rightarrow> (r = Some True, s2))] s1)"

definition installInfinityPlugin :: "'g stack_world \<Rightarrow> tool_config \<Rightarrow> grafana \<Rightarrow> 'g site \<Rightarrow> bool \<times> 'g site" where
  "installInfinityPlugin w cfg g s =
     (case sw_output w [''grafana-cli'', ''plugins'', ''ls''] s of (out, s1) \<Rightarrow>
      let listed_it = (case out of None \<Rightarrow> False | Some t \<Rightarrow> has_infix infinityPlugin t) in
      all_steps
        ((if listed_it then [] else [sw_run w [''grafana-cli'', ''plugins'', ''install'', infinityPlugin, tc_InfinityPluginVersion cfg]]) @
         [(\<lambda>s. if present_dir [''var'', ''lib'', ''grafana'', ''plugins''] s then sw_run w [''chown'', ''-R'', ''grafana:grafana'', ''/var/lib/grafana/plugins''] s else (True, s)),
          load_plugin w g]) s1)"

definition DBPayload :: "'g stack_world \<Rightarrow> bytes \<Rightarrow> bytes option" where
  "DBPayload w d = map_option (\<lambda>v. sw_json w (VObj [(''dashboard'', v), (''folderId'', VInt 0), (''overwrite'', VBool True)])) (sw_parse w d)"

definition ImportPayload :: "'g stack_world \<Rightarrow> bytes \<Rightarrow> string \<Rightarrow> bytes option" where
  "ImportPayload w d uid =
     (case sw_parse w d of
        None \<Rightarrow> None
      | Some v \<Rightarrow>
          if uid = [] then None
          else Some (sw_json w (VObj [(''dashboard'', v), (''folderId'', VInt 0),
            (''inputs'', VArr [VObj [(''name'', VStr ''DS_YESOREYERAM-INFINITY-DATASOURCE''), (''pluginId'', VStr infinityPlugin), (''type'', VStr ''datasource''), (''value'', VStr uid)]]),
            (''overwrite'', VBool True)])))"

definition post_some :: "'g stack_world \<Rightarrow> grafana \<Rightarrow> string \<Rightarrow> bytes option \<Rightarrow> 'g site \<Rightarrow> bool \<times> 'g site" where
  "post_some w g p payload s = (case payload of None \<Rightarrow> (False, s) | Some b \<Rightarrow> send_json w g ''POST'' p b s)"

definition dashboard_tmp :: path where "dashboard_tmp = [''tmp'', ''node_exporter_dashboard.json'']"

definition exporter_dashboard :: "'g stack_world \<Rightarrow> grafana \<Rightarrow> 'g site \<Rightarrow> bool \<times> 'g site" where
  "exporter_dashboard w g s =
     (case DashboardExists w g ''Node Exporter Full'' s of
        (None, s1) \<Rightarrow> (False, s1)
      | (Some True, s1) \<Rightarrow> (True, s1)
      | (Some False, s1) \<Rightarrow>
          (case on_tree (Download_file (sw_get w) ''https://grafana.com/api/dashboards/1860/revisions/latest/download'' dashboard_tmp) s1 of
             (False, s2) \<Rightarrow> (False, s2)
           | (True, s2) \<Rightarrow>
               (case on_tree (ReadFile dashboard_tmp) s2 of (d, s3) \<Rightarrow>
                case on_tree (RemoveFile dashboard_tmp) s3 of (ok4, s4) \<Rightarrow>
                (case d of None \<Rightarrow> (False, s4) | Some b \<Rightarrow> post_some w g ''/api/dashboards/db'' (DBPayload w b) s4))))"

definition znnd_dashboard :: "'g stack_world \<Rightarrow> grafana \<Rightarrow> 'g site \<Rightarrow> bool \<times> 'g site" where
  "znnd_dashboard w g s =
     (case DashboardExists w g (sw_title w (sw_dashboard w)) s of
        (None, s1) \<Rightarrow> (False, s1)
      | (Some True, s1) \<Rightarrow> (True, s1)
      | (Some False, s1) \<Rightarrow>
          (case DatasourceUID w g infinityPlugin s1 of
             (None, s2) \<Rightarrow> (False, s2)
           | (Some u, s2) \<Rightarrow> if u = [] then (False, s2) else post_some w g ''/api/dashboards/import'' (ImportPayload w (sw_dashboard w) u) s2))"

text \<open>Both are tried; a failure is not one of the installation.\<close>

definition importDefaultDashboards :: "'g stack_world \<Rightarrow> grafana \<Rightarrow> 'g site \<Rightarrow> bool \<times> 'g site" where
  "importDefaultDashboards w g s =
     (case exporter_dashboard w g s of (ok1, s1) \<Rightarrow> case znnd_dashboard w g s1 of (ok2, s2) \<Rightarrow> (ok1 \<and> ok2, s2))"

text \<open>The steps with what is reported when they fail.\<close>

fun titled_steps :: "(string \<times> ('s \<Rightarrow> bool \<times> 's)) list \<Rightarrow> 's \<Rightarrow> string option \<times> 's" where
  "titled_steps [] s = (None, s)"
| "titled_steps ((t, f) # fs) s = (case f s of (True, s1) \<Rightarrow> titled_steps fs s1 | (False, s1) \<Rightarrow> (Some t, s1))"

definition Install :: "'g stack_world \<Rightarrow> tool_config \<Rightarrow> 'g site \<Rightarrow> string option \<times> 'g site" where
  "Install w cfg s =
     (let g = (NewGrafana (tc_GrafanaAdminUser cfg) (tc_GrafanaAdminPassword cfg))\<lparr> gr_base := ClientURL (tc_GrafanaHTTPAddr cfg) \<rparr> in
      case titled_steps
        [(''failed to install prerequisites'', installPrerequisites w),
         (''failed to install Node Exporter'', installNodeExporter w cfg),
         (''failed to install Prometheus'', installPrometheus w cfg),
         (''failed to install Grafana'', installGrafana w cfg g),
         (''failed to secure Grafana'', secureGrafana w cfg g),
         (''failed to configure datasources/plugins'',
           all_steps [configurePrometheusDatasource w g, installInfinityPlugin w cfg g, configureInfinityDatasource w g])] s of
        (Some e, s1) \<Rightarrow> (Some e, s1)
      | (None, s1) \<Rightarrow> (None, snd (importDefaultDashboards w g s1)))"


section \<open>What no step touches\<close>

text \<open>A file that a step leaves as it is.\<close>

definition holds_still :: "path \<Rightarrow> ('g site \<Rightarrow> 'a \<times> 'g site) \<Rightarrow> bool" where
  "holds_still p f \<longleftrightarrow> (\<forall>s d mode. at_site s p = Some (Doc d mode) \<longrightarrow> at_site (snd (f s)) p = Some (Doc d mode))"

named_theorems still

lemma stillI: "(\<And>s a s' d mode. f s = (a, s') \<Longrightarrow> at_site s p = Some (Doc d mode) \<Longrightarrow> at_site s' p = Some (Doc d mode)) \<Longrightarrow> holds_still p f"
  unfolding holds_still_def by (metis prod.collapse)

lemma stillD: "holds_still p f \<Longrightarrow> f s = (a, s') \<Longrightarrow> at_site s p = Some (Doc d mode) \<Longrightarrow> at_site s' p = Some (Doc d mode)"
  unfolding holds_still_def by (metis snd_conv)

lemma still_Pair [still]: "holds_still p (Pair a)" by (simp add: holds_still_def)

lemma still_steps [still]: "\<forall>f \<in> set fs. holds_still p f \<Longrightarrow> holds_still p (all_steps fs)"
proof (induction fs)
  case (Cons f fs)
  then have f: "holds_still p f" and ih: "holds_still p (all_steps fs)" by auto
  show ?case
  proof (rule stillI)
    fix s a s' d mode assume run: "all_steps (f # fs) s = (a, s')" and at: "at_site s p = Some (Doc d mode)"
    obtain ok s1 where 1: "f s = (ok, s1)" by (cases "f s")
    from stillD[OF f 1 at] stillD[OF ih, of s1 a s' d mode] run 1 show "at_site s' p = Some (Doc d mode)" by (cases ok) auto
  qed
qed (simp add: holds_still_def)

lemma still_unless [still]: "holds_still p f \<Longrightarrow> holds_still p (unless c f)"
  by (simp add: holds_still_def unless_def)

lemma still_tree: "(\<And>m a m' d mode. f m = (a, m') \<Longrightarrow> mc_tree m p = Some (Doc d mode) \<Longrightarrow> mc_tree m' p = Some (Doc d mode)) \<Longrightarrow> holds_still p (on_tree f)"
  by (rule stillI) (auto simp: on_tree_def on_host_def on_machine_def at_site_def split: prod.splits)

lemma still_host: "(\<And>h a h'. f h = (a, h') \<Longrightarrow> mc_tree (ho_machine h') p = mc_tree (ho_machine h) p) \<Longrightarrow> holds_still p (on_host f)"
  by (rule stillI) (auto simp: on_host_def at_site_def split: prod.splits)

lemma still_mkdir [still]: "holds_still p (on_tree (MkdirAll q))"
  by (rule still_tree) (metis MkdirAll_tree option.distinct(1))

lemma still_read [still]: "holds_still p (on_tree (ReadFile q))"
  by (rule still_tree) (metis ReadFile_same)

lemma still_write [still]: "p \<noteq> q \<Longrightarrow> holds_still p (on_tree (WriteOver q mode d))"
  by (rule still_tree) (metis WriteOver_tree)

lemma still_copy [still]:
  assumes "\<not> prefix (u @ [n]) p" "\<not> prefix (u @ [n @ ''.tmp'']) p"
  shows "holds_still p (on_tree (CopyFile src (u @ [n]) mode))"
proof (rule still_tree)
  fix m a m' d md assume run: "CopyFile src (u @ [n]) mode m = (a, m')" and at: "mc_tree m p = Some (Doc d md)"
  let ?q = "u @ [n]" and ?t = "u @ [n @ ''.tmp'']"
  have b: "beside ?q ''.tmp'' = ?t" "up ?q = u" by (simp_all add: beside_def up_def)
  obtain dd m1 where 1: "ReadFile src m = (dd, m1)" by (cases "ReadFile src m")
  obtain ok2 m2 where 2: "MkdirAll u m1 = (ok2, m2)" by (cases "MkdirAll u m1")
  obtain ok3 m3 where 3: "WriteOver ?t mode [] m2 = (ok3, m3)" by (cases "WriteOver ?t mode [] m2")
  have ne: "p \<noteq> ?t" using assms by auto
  have at2: "mc_tree m1 p = Some (Doc d md)" "mc_tree m2 p = Some (Doc d md)" "mc_tree m3 p = Some (Doc d md)"
    using at ReadFile_same[OF 1] MkdirAll_tree[OF 2, of p] WriteOver_tree[OF 3 ne] by auto
  show "mc_tree m' p = Some (Doc d md)"
  proof (cases dd)
    case None
    with run 1 at2 show ?thesis by (simp add: CopyFile_def)
  next
    case (Some x)
    obtain ok4 m4 where 4: "WriteOver ?t mode x m3 = (ok4, m4)" by (cases "WriteOver ?t mode x m3")
    obtain ok5 m5 where 5: "Rename ?t ?q m4 = (ok5, m5)" by (cases "Rename ?t ?q m4")
    obtain ok6 m6 where 6: "RemoveFile ?t m4 = (ok6, m6)" by (cases "RemoveFile ?t m4")
    have "mc_tree m4 p = Some (Doc d md)" "mc_tree m5 p = Some (Doc d md)" "mc_tree m6 p = Some (Doc d md)"
      using at2 WriteOver_tree[OF 4 ne] Rename_tree[OF 5 assms(2,1)] RemoveFile_tree[OF 6 ne] by simp_all
    with run[unfolded CopyFile_def b] 1 2 3 4 5 6 at2 Some show ?thesis by (auto split: if_splits)
  qed
qed

lemma still_download [still]: "p \<noteq> q \<Longrightarrow> holds_still p (on_tree (Download_file get url q))"
proof (rule still_tree)
  fix m a m' d md assume ne: "p \<noteq> q" and run: "Download_file get url q m = (a, m')" and at: "mc_tree m p = Some (Doc d md)"
  show "mc_tree m' p = Some (Doc d md)"
  proof (cases "get url")
    case (Answer status len body whole)
    obtain ok1 m1 where 1: "MkdirAll (up q) m = (ok1, m1)" by (cases "MkdirAll (up q) m")
    obtain ok2 m2 where 2: "WriteOver q 420 [] m1 = (ok2, m2)" by (cases "WriteOver q 420 [] m1")
    obtain ok3 m3 where 3: "WriteOver q 420 body m2 = (ok3, m3)" by (cases "WriteOver q 420 body m2")
    obtain ok4 m4 where 4: "RemoveFile q m3 = (ok4, m4)" by (cases "RemoveFile q m3")
    have "mc_tree m1 p = Some (Doc d md)" "mc_tree m2 p = Some (Doc d md)" "mc_tree m3 p = Some (Doc d md)" "mc_tree m4 p = Some (Doc d md)"
      using at MkdirAll_tree[OF 1, of p] WriteOver_tree[OF 2 ne] WriteOver_tree[OF 3 ne] RemoveFile_tree[OF 4 ne] by auto
    with run Answer at 1 2 3 4 show ?thesis by (auto simp: Download_file_def split: if_splits)
  qed (use run at in \<open>simp add: Download_file_def\<close>)
qed

lemma still_run_unit: "(\<And>h. ho_machine (eff h) = ho_machine h) \<Longrightarrow> run_unit n eff h = (ok, h') \<Longrightarrow> mc_tree (ho_machine h') = mc_tree (ho_machine h)"
  by (rule run_unit_keeps(1))

lemma still_unit [still]: "holds_still p (on_host (RestartUnit u))" "holds_still p (on_host (IsActive_unit u))"
  by (rule still_host; simp add: RestartUnit_def IsActive_unit_def start_unit_def run_unit_keeps(1))+

lemma ensure_tree: "EnsureRunning u reload h = (ok, h') \<Longrightarrow> mc_tree (ho_machine h') = mc_tree (ho_machine h)"
proof -
  assume run: "EnsureRunning u reload h = (ok, h')"
  obtain ok1 h1 where 1: "(if reload then DaemonReload h else (True, h)) = (ok1, h1)" by (cases "if reload then DaemonReload h else (True, h)")
  obtain en h2 where 2: "IsEnabled u h1 = (en, h2)" by (cases "IsEnabled u h1")
  obtain ac h3 where 3: "IsActive_unit u h2 = (ac, h3)" by (cases "IsActive_unit u h2")
  obtain ok4 h4 where 4: "EnableNow u h2 = (ok4, h4)" by (cases "EnableNow u h2")
  obtain ok5 h5 where 5: "EnableNow u h3 = (ok5, h5)" by (cases "EnableNow u h3")
  have now: "EnableNow u a = (b, c) \<Longrightarrow> mc_tree (ho_machine c) = mc_tree (ho_machine a)" for a b c
    unfolding EnableNow_def by (erule run_unit_keeps(1)) (simp add: start_unit_def Let_def)
  have "mc_tree (ho_machine h1) = mc_tree (ho_machine h)"
    using 1 run_unit_keeps(1)[of 0 "\<lambda>h. h\<lparr> ho_loaded := unit_text h \<rparr>" h] by (auto simp: DaemonReload_def split: if_splits)
  moreover have "mc_tree (ho_machine h2) = mc_tree (ho_machine h1)" "mc_tree (ho_machine h3) = mc_tree (ho_machine h2)"
    using 2 3 by (auto simp: IsEnabled_def IsActive_unit_def run_unit_keeps(1))
  moreover have "h' = h1 \<or> h' = h3 \<or> h' = h4 \<or> h' = h5"
    using run unfolding EnsureRunning_def 1 prod.case 2 3 4 5 by (simp split: if_splits)
  ultimately show ?thesis using now[OF 4] now[OF 5] by metis
qed

lemma still_ensure [still]: "holds_still p (on_host (EnsureRunning u reload))"
  by (rule still_host) (metis ensure_tree)

lemma still_temp [still]:
  assumes "holds_still p f" "\<not> prefix work p"
  shows "holds_still p (in_temp work f)"
proof (rule stillI)
  fix s a s' d mode assume run: "in_temp work f s = (a, s')" and at: "at_site s p = Some (Doc d mode)"
  have mk: "holds_still p (on_tree (MkdirNew work))"
  proof (rule still_tree)
    fix m b m' x md assume "MkdirNew work m = (b, m')" "mc_tree m p = Some (Doc x md)"
    moreover have "p \<noteq> work" using assms(2) by auto
    ultimately show "mc_tree m' p = Some (Doc x md)" using MkdirNew_tree by metis
  qed
  have rm: "holds_still p (on_tree (RemoveAll work))"
    by (rule still_tree) (metis RemoveAll_tree assms(2))
  obtain ok1 s1 where 1: "on_tree (MkdirNew work) s = (ok1, s1)" by (cases "on_tree (MkdirNew work) s")
  obtain ok2 s2 where 2: "f s1 = (ok2, s2)" by (cases "f s1")
  obtain ok3 s3 where 3: "on_tree (RemoveAll work) s2 = (ok3, s3)" by (cases "on_tree (RemoveAll work) s2")
  note a1 = stillD[OF mk 1 at]
  note a3 = stillD[OF rm 3 stillD[OF assms(1) 2 a1]]
  from run 1 2 3 a1 a3 show "at_site s' p = Some (Doc d mode)" by (auto simp: in_temp_def split: if_splits)
qed

lemma still_user [still]: "(\<And>args. holds_still p (sw_run w args)) \<Longrightarrow> holds_still p (ensureSystemUser w u)"
  by (rule stillI) (auto simp: ensureSystemUser_def split: prod.splits bool.splits dest: stillD)

text \<open>A unit file that is there is left as it is, and every other file too.\<close>

lemma still_running [still]:
  assumes "holds_still p between"
  shows "holds_still p (unit_running u content between)"
proof (rule stillI)
  fix s a s' d mode assume run: "unit_running u content between s = (a, s')" and at: "at_site s p = Some (Doc d mode)"
  obtain wrote ok s1 where 1: "ensureUnitFile (u @ ''.service'') content s = ((wrote, ok), s1)" by (metis surj_pair)
  have at1: "at_site s1 p = Some (Doc d mode)"
  proof (cases "p = unit_path (u @ ''.service'')")
    case True
    with at have "present (unit_path (u @ ''.service'')) s" by (simp add: present_def exists_at_def at_site_def)
    with 1 at show ?thesis by (simp add: ensureUnitFile_def)
  next
    case False
    then have "holds_still p (on_host (WriteUnit (u @ ''.service'') content))"
      using still_write[of p "unit_path (u @ ''.service'')" 420 content] by (simp add: WriteUnit_def[abs_def] on_tree_def)
    with 1 at show ?thesis by (auto simp: ensureUnitFile_def split: prod.splits if_splits dest: stillD)
  qed
  have "holds_still p (all_steps [between, on_host (EnsureRunning u wrote)])" by (simp add: still assms)
  from stillD[OF this _ at1] run 1 at1 show "at_site s' p = Some (Doc d mode)" by (auto simp: unit_running_def split: if_splits)
qed


section \<open>The configuration of Prometheus\<close>

lemma AppendManaged_whole:
  assumes run: "AppendManaged tmp (u @ [n]) text m = (ok, m')" and at: "mc_tree m (u @ [n]) = Some (Doc d mode)" and new: "tmp \<noteq> n"
  shows "mc_tree m' (u @ [n]) = Some (Doc (if ok then d @ text else d) mode)"
proof -
  let ?p = "u @ [n]" and ?t = "u @ [tmp]"
  have ne: "?p \<noteq> ?t" and np: "\<not> prefix ?t ?p" "\<not> prefix ?p ?t" using new by (auto simp: prefix_def)
  have up: "up ?p = u" by (simp add: up_def)
  obtain r m1 where 1: "ReadFile ?p m = (r, m1)" by (cases "ReadFile ?p m")
  obtain ok2 m2 where 2: "WriteNew ?t 384 [] m1 = (ok2, m2)" by (cases "WriteNew ?t 384 [] m1")
  obtain ok3 m3 where 3: "WriteOver ?t 384 (d @ text) m2 = (ok3, m3)" by (cases "WriteOver ?t 384 (d @ text) m2")
  obtain ok4 m4 where 4: "chmod_at ?t mode m3 = (ok4, m4)" by (cases "chmod_at ?t mode m3")
  obtain ok5 m5 where 5: "Rename ?t ?p m4 = (ok5, m5)" by (cases "Rename ?t ?p m4")
  have r: "r = None \<or> r = Some d" using 1 at next_hazardD(1) by (auto simp: ReadFile_def split: prod.splits if_splits)
  have ch: "mc_tree m4 x = mc_tree m3 x" if "x \<noteq> ?t" for x
    using 4 that next_hazardD(1) by (auto simp: chmod_at_def split: prod.splits option.splits inode.splits if_splits)
  have t: "mc_tree m1 ?p = Some (Doc d mode)" "mc_tree m2 ?p = Some (Doc d mode)" "mc_tree m3 ?p = Some (Doc d mode)" "mc_tree m4 ?p = Some (Doc d mode)"
    using at ReadFile_same[OF 1] WriteNew_tree[OF 2 ne] WriteOver_tree[OF 3 ne] ch[OF ne] by simp_all
  have rm: "mc_tree (snd (RemoveFile ?t a)) ?p = mc_tree a ?p" for a by (rule RemoveFile_snd_tree[OF ne])
  show ?thesis
  proof (cases "r = Some d \<and> ok2 \<and> ok3 \<and> ok4 \<and> ok5")
    case False
    have "\<not> ok5 \<Longrightarrow> mc_tree m5 ?p = Some (Doc d mode)" using 5 t(4) Rename_failed[of ?t ?p m4 m5] by (cases ok5) auto
    then have "\<not> ok \<and> mc_tree m' ?p = Some (Doc d mode)"
      using run r 1 2 3 4 5 at False t rm by (cases ok2; cases ok3; cases ok4; cases ok5) (auto simp: AppendManaged_def up)
    then show ?thesis by simp
  next
    case True
    then have eq: "ok" "m' = m5" using run 1 2 3 4 5 at by (auto simp: AppendManaged_def up)
    have "mc_tree m3 ?t = Some (Doc (d @ text) (mode_at (snd (next_hazard m2)) ?t 384))"
      using 3 True by (auto simp: WriteOver_def split: prod.splits if_splits hazard.splits)
    then have "mc_tree m4 ?t = Some (Doc (d @ text) mode)"
      using 4 True next_hazardD(1) by (auto simp: chmod_at_def split: prod.splits option.splits inode.splits if_splits)
    with 5 True Rename_ok(1)[of ?t ?p m4 m5 "[]"] np eq show ?thesis by simp
  qed
qed

lemma has_infix_append: "has_infix w s \<Longrightarrow> has_infix w (t @ s)"
  by (induction t) auto

lemma scrape_config_needed: "\<not> NeedsNodeScrapeJob (d @ nodeScrapeConfig)"
proof -
  have "has_infix ''job_name: \"node\"'' nodeScrapeConfig" by code_simp
  from has_infix_append[OF this] show ?thesis by (simp add: NeedsNodeScrapeJob_def)
qed

definition scrape_outcome :: "bytes \<Rightarrow> int \<Rightarrow> bool \<Rightarrow> inode option \<Rightarrow> bool" where
  "scrape_outcome d mode ok i \<longleftrightarrow>
     (\<exists>d'. i = Some (Doc d' mode) \<and> (d' = d \<or> (NeedsNodeScrapeJob d \<and> d' = d @ nodeScrapeConfig)) \<and> (ok \<longrightarrow> \<not> NeedsNodeScrapeJob d'))"

lemma scrape_job_outcome:
  assumes run: "scrape_job w s = (ok, s')" and at: "at_site s promYML = Some (Doc d mode)"
  shows "scrape_outcome d mode ok (at_site s' promYML)"
proof -
  have p: "promYML = prom_dir @ [''prometheus.yml'']" by (simp add: promYML_def prom_dir_def)
  obtain r s1 where 1: "on_tree (ReadFile promYML) s = (r, s1)" by (cases "on_tree (ReadFile promYML) s")
  have at1: "at_site s1 promYML = Some (Doc d mode)" by (rule stillD[OF still_read 1 at])
  have r: "r = None \<or> r = Some d" using 1 at next_hazardD(1)
    by (auto simp: on_tree_def on_host_def on_machine_def ReadFile_def at_site_def split: prod.splits if_splits)
  let ?a = "on_tree (AppendManaged (''.prometheus.yml.'' @ sw_temp w) promYML nodeScrapeConfig)"
  obtain ok2 s2 where 2: "?a s1 = (ok2, s2)" by (cases "?a s1")
  obtain ok3 s3 where 3: "on_host (RestartUnit ''prometheus'') s2 = (ok3, s3)" by (cases "on_host (RestartUnit ''prometheus'') s2")
  obtain m2 where m2: "AppendManaged (''.prometheus.yml.'' @ sw_temp w) promYML nodeScrapeConfig (ho_machine (si_host s1)) = (ok2, m2)"
    "mc_tree m2 promYML = at_site s2 promYML" using 2 by (auto simp: on_tree_def on_host_def on_machine_def at_site_def split: prod.splits)
  have at2: "at_site s2 promYML = Some (Doc (if ok2 then d @ nodeScrapeConfig else d) mode)"
    using AppendManaged_whole[OF m2(1)[unfolded p] at1[unfolded at_site_def p]] m2(2) p by simp
  note at3 = stillD[OF still_unit(1) 3 at2]
  consider "r = None" "ok = False" "s' = s1" | "\<not> NeedsNodeScrapeJob d" "s' = s1" | "NeedsNodeScrapeJob d" "\<not> ok2" "\<not> ok" "s' = s2" | "NeedsNodeScrapeJob d" ok2 "s' = s3"
    using run r 1 2 3 by (cases ok2; cases ok3) (auto simp: scrape_job_def split: if_splits)
  then show ?thesis
    by cases (use at1 at2 at3 scrape_config_needed[of d] in \<open>auto simp: scrape_outcome_def\<close>)
qed

lemma all_steps_append: "all_steps (fs @ gs) s = (case all_steps fs s of (True, s1) \<Rightarrow> all_steps gs s1 | (False, s1) \<Rightarrow> (False, s1))"
  by (induction fs arbitrary: s) (auto split: prod.splits bool.splits)

lemma outcome_refl: "scrape_outcome d mode False (Some (Doc d mode))" by (simp add: scrape_outcome_def)

text \<open>Steps that hold the file still, and then one with the outcome.\<close>

lemma outcome_last:
  assumes "\<forall>f \<in> set fs. holds_still promYML f" "\<And>s ok s'. g s = (ok, s') \<Longrightarrow> at_site s promYML = Some (Doc d mode) \<Longrightarrow> scrape_outcome d mode ok (at_site s' promYML)"
    and run: "all_steps (fs @ [g]) s = (ok, s')" and at: "at_site s promYML = Some (Doc d mode)"
  shows "scrape_outcome d mode ok (at_site s' promYML)"
proof -
  obtain ok1 s1 where 1: "all_steps fs s = (ok1, s1)" by (cases "all_steps fs s")
  obtain ok2 s2 where 2: "g s1 = (ok2, s2)" by (cases "g s1")
  have at1: "at_site s1 promYML = Some (Doc d mode)" by (rule stillD[OF still_steps[OF assms(1)] 1 at])
  from assms(2)[OF 2 at1] run 1 2 at1 outcome_refl[of d mode] show ?thesis
    by (cases ok1; cases ok2) (auto simp: all_steps_append)
qed


lemma prom_rest_outcome:
  assumes "\<And>args. holds_still promYML (sw_run w args)" "prom_rest w s = (ok, s')" "at_site s promYML = Some (Doc d mode)"
  shows "scrape_outcome d mode ok (at_site s' promYML)"
proof (rule outcome_last)
  let ?fs = "[ensureSystemUser w ''prometheus'', unit_running ''prometheus'' PrometheusUnit (all_steps
        [sw_run w [''chown'', ''-R'', ''root:root'', ''/etc/prometheus''], sw_run w [''chown'', ''-R'', ''prometheus:prometheus'', ''/var/lib/prometheus'']])]"
  show "\<forall>f \<in> set ?fs. holds_still promYML f" by (simp add: still assms(1))
  show "all_steps (?fs @ [scrape_job w]) s = (ok, s')" using assms(2) by (simp add: prom_rest_def)
qed (use scrape_job_outcome assms(3) in blast)+

lemma prom_pieces_still:
  assumes "\<And>args. holds_still promYML (sw_run w args)" "at_site s promYML = Some (Doc d mode)" "f \<in> set (butlast (prom_pieces w src))"
  shows "holds_still promYML f"
proof -
  have bin: "local_bin b = [''usr'', ''local'', ''bin''] @ [b]" for b by (simp add: local_bin_def)
  have c: "holds_still promYML (unless e (on_tree (CopyFile (src @ [b]) (local_bin b) 493)))" for b e
    unfolding bin by (rule still_unless, rule still_copy) (simp_all add: promYML_def)
  have u: "holds_still promYML (unless e (sw_run w args))" for args e by (rule still_unless) (rule assms(1))
  from assms(3) show ?thesis by (simp add: prom_pieces_def) (elim disjE; simp add: c u)
qed

text \<open>The configuration itself is only installed where there is none.\<close>

lemma prom_config_still: "holds_still promYML (unless (present promYML) f)"
  by (rule stillI) (auto simp: unless_def present_def exists_at_def at_site_def)

lemma installPrometheus_outcome:
  assumes run: "\<And>args. holds_still promYML (sw_run w args)" and i: "installPrometheus w cfg s = (ok, s')"
    and at: "at_site s promYML = Some (Doc d mode)"
  shows "scrape_outcome d mode ok (at_site s' promYML)"
proof -
  define work where "work = [''tmp'', ''nomctl-prometheus-'' @ sw_temp w]"
  define fs where "fs = [on_tree (Download_file (sw_get w) (prom_url w cfg) (work @ [''prometheus.tar.gz''])),
    sw_run w [''tar'', ''-xzf'', text_path (work @ [''prometheus.tar.gz'']), ''-C'', text_path work]] @ prom_pieces w (work @ [prom_name w cfg])"
  define g where "g = (\<lambda>s. if \<not> prom_missing s then prom_rest w s else in_temp work (all_steps (fs @ [prom_rest w])) s)"
  have i': "all_steps ([on_tree (MkdirAll prom_dir), on_tree (MkdirAll [''var'', ''lib'', ''prometheus''])] @ [g]) s = (ok, s')"
    using i unfolding installPrometheus_def Let_def g_def fs_def work_def append_Cons append_Nil .
  have out: "\<not> prefix work promYML" by (simp add: work_def promYML_def)
  have "promYML \<noteq> work @ [''prometheus.tar.gz'']" by (simp add: work_def promYML_def)
  moreover have "holds_still promYML f" if "f \<in> set (prom_pieces w src)" for f src
  proof -
    have "prom_pieces w src = butlast (prom_pieces w src) @ [unless (present promYML) (on_tree (CopyFile (src @ [''prometheus.yml'']) promYML 420))]"
      by (simp add: prom_pieces_def)
    with that prom_pieces_still[OF run at] prom_config_still show ?thesis by (metis UnE empty_iff list.set(1) set_ConsD set_append)
  qed
  ultimately have fs: "\<forall>f \<in> set fs. holds_still promYML f" by (auto simp: fs_def still run)
  show ?thesis
  proof (rule outcome_last[OF _ _ i' at])
    show "\<forall>f \<in> set [on_tree (MkdirAll prom_dir), on_tree (MkdirAll [''var'', ''lib'', ''prometheus''])]. holds_still promYML f" by (simp add: still)
    fix s ok s' assume g: "g s = (ok, s')" and at: "at_site s promYML = Some (Doc d mode)"
    show "scrape_outcome d mode ok (at_site s' promYML)"
    proof (cases "prom_missing s")
      case False
      with g prom_rest_outcome[OF run _ at] show ?thesis by (simp add: g_def)
    next
      case True
      let ?f = "all_steps (fs @ [prom_rest w])"
      obtain ok1 s1 where 1: "on_tree (MkdirNew work) s = (ok1, s1)" by (cases "on_tree (MkdirNew work) s")
      obtain ok2 s2 where 2: "?f s1 = (ok2, s2)" by (cases "?f s1")
      obtain ok3 s3 where 3: "on_tree (RemoveAll work) s2 = (ok3, s3)" by (cases "on_tree (RemoveAll work) s2")
      have "at_site s1 promYML = at_site s promYML"
        using 1 out MkdirNew_tree by (auto simp: on_tree_def on_host_def on_machine_def at_site_def split: prod.splits)
      then have at1: "at_site s1 promYML = Some (Doc d mode)" using at by simp
      have o2: "scrape_outcome d mode ok2 (at_site s2 promYML)"
        by (rule outcome_last[OF fs _ 2 at1]) (rule prom_rest_outcome[OF run])
      have "at_site s3 promYML = at_site s2 promYML"
        using 3 RemoveAll_tree[OF _ out] by (auto simp: on_tree_def on_host_def on_machine_def at_site_def split: prod.splits)
      with o2 at1 outcome_refl g True 1 2 3 show ?thesis by (auto simp: g_def in_temp_def split: if_splits)
    qed
  qed
qed


text \<open>C17. The configuration of Prometheus.  Installing the analytics on a host that has one never loses or half writes it, whatever fails: it stays as it was, to
  the byte and with its mode, or has the job that scrapes the node exporter appended, which happens only if it is not there; and after a
  success it is there.\<close>

theorem scrape_config_whole:
  assumes "installPrometheus w cfg s = (ok, s')" "at_site s promYML = Some (Doc d mode)" "\<And>args. holds_still promYML (sw_run w args)"
  shows "\<exists>d'. at_site s' promYML = Some (Doc d' mode) \<and> (d' = d \<or> (NeedsNodeScrapeJob d \<and> d' = d @ nodeScrapeConfig)) \<and> (ok \<longrightarrow> \<not> NeedsNodeScrapeJob d')"
  using installPrometheus_outcome[OF assms(3,1,2)] by (simp add: scrape_outcome_def)

definition demo_stack :: "unit stack_world" where
  "demo_stack = \<lparr> sw_run = (\<lambda>args s. (True, s)), sw_output = (\<lambda>args s. (None, s)), sw_http = (\<lambda>g v p b s. (None, s)), sw_plain = (\<lambda>u s. (None, s)),
     sw_polls = 0, sw_get = (\<lambda>u. Unreachable), sw_json = (\<lambda>v. []), sw_parse = (\<lambda>d. None), sw_uid = (\<lambda>d. None), sw_results = (\<lambda>d. None),
     sw_title = (\<lambda>d. []), sw_dashboard = [], sw_arch = ''amd64'', sw_temp = ''1'' \<rparr>"

definition stack_tree :: tree where
  "stack_tree = map_of [([''etc''], Folder), ([''etc'', ''prometheus''], Folder), (promYML, Doc ''global:'' 416), ([''etc'', ''systemd''], Folder),
     ([''etc'', ''systemd'', ''system''], Folder), (local_bin ''prometheus'', Doc ''P'' 493), (local_bin ''promtool'', Doc ''T'' 493),
     (prom_dir @ [''consoles''], Folder), (prom_dir @ [''console_libraries''], Folder), ([''var''], Folder), ([''var'', ''lib''], Folder)]"

definition stack_site :: "unit site" where
  "stack_site = \<lparr> si_host = \<lparr> ho_machine = \<lparr> mc_tree = stack_tree, mc_hazards = [], mc_known = True, mc_active = False, mc_ctl = [] \<rparr>,
     ho_enabled = (\<lambda>_. False), ho_loaded = (\<lambda>_. None), ho_running = (\<lambda>_. None), ho_owner = (\<lambda>_. None) \<rparr>, si_rest = () \<rparr>"

lemma scrape_config_whole_witness:
  "fst (installPrometheus demo_stack Default stack_site) \<and>
   at_site (snd (installPrometheus demo_stack Default stack_site)) promYML = Some (Doc (''global:'' @ nodeScrapeConfig) 416)"
proof -
  obtain ok s' where run: "installPrometheus demo_stack Default stack_site = (ok, s')" by (cases "installPrometheus demo_stack Default stack_site")
  have "fst (installPrometheus demo_stack Default stack_site)" by code_simp
  then have ok: ok using run by simp
  have at: "at_site stack_site promYML = Some (Doc ''global:'' 416)" by code_simp
  have "NeedsNodeScrapeJob ''global:''" by code_simp
  moreover have "holds_still promYML (sw_run demo_stack args)" for args by (simp add: demo_stack_def holds_still_def)
  ultimately show ?thesis using scrape_config_whole[OF run at] ok run by auto
qed

section \<open>What is taken for done\<close>

text \<open>
  A unit file that an earlier run left half written is not written again: an installation that succeeds leaves it as it is.
\<close>

lemma exporter_unit_kept:
  assumes "installNodeExporter w cfg s = (ok, s')" "at_site s (unit_path ''node_exporter.service'') = Some (Doc d mode)"
    and "\<And>args. holds_still (unit_path ''node_exporter.service'') (sw_run w args)"
  shows "at_site s' (unit_path ''node_exporter.service'') = Some (Doc d mode)"
proof -
  let ?p = "unit_path ''node_exporter.service''"
  have rest: "holds_still ?p (exporter_rest w)" by (simp add: exporter_rest_def still assms(3))
  have b: "exporter_binary = [''usr'', ''local'', ''bin''] @ [''node_exporter'']" by (simp add: exporter_binary_def)
  let ?w = "[''tmp'', ''nomctl-node-exporter-'' @ sw_temp w]"
  have cp: "holds_still ?p (on_tree (CopyFile src exporter_binary 493))" for src
    unfolding b by (rule still_copy) (simp_all add: unit_path_def)
  have dl: "holds_still ?p (on_tree (Download_file (sw_get w) (exporter_url w cfg) (?w @ [''node_exporter.tar.gz''])))"
    by (rule still_download) (simp add: unit_path_def)
  let ?fs = "[on_tree (Download_file (sw_get w) (exporter_url w cfg) (?w @ [''node_exporter.tar.gz''])),
       sw_run w [''tar'', ''-xzf'', text_path (?w @ [''node_exporter.tar.gz'']), ''-C'', text_path ?w],
       on_tree (CopyFile (?w @ [exporter_dir w cfg, ''node_exporter'']) exporter_binary 493), exporter_rest w]"
  have "\<forall>f \<in> set ?fs. holds_still ?p f"
    unfolding list.set ball_simps by (intro conjI TrueI cp dl rest assms(3))
  then have "holds_still ?p (in_temp ?w (all_steps ?fs))"
    by (intro still_temp still_steps) (simp_all add: unit_path_def)
  from stillD[OF this] stillD[OF rest] assms(1,2) show ?thesis unfolding installNodeExporter_def Let_def by (simp split: if_splits)
qed

end
