(* ===== verification/Config_Command.thy ===== *)
theory Config_Command
  imports Config_Claims Analytics
begin

text \<open>
  The command that shows and edits the node's configuration (\<^verbatim>\<open>cmd/nodeconfig.go\<close>): what it writes, and what it prints of the producer's password.
\<close>

section \<open>Setting, removing and reading one key\<close>

datatype config_set_error =
    SetNotLoaded config_error | ManagedBySetup string | SetNotParsed config_error | UnknownToNode string | NotSet config_error | SetNotSaved save_error

definition set_value :: "json \<Rightarrow> string \<Rightarrow> string \<Rightarrow> bool \<Rightarrow> (config_set_error, jvalue) result" where
  "set_value j key txt force =
     (if IsReserved key then Inl (ManagedBySetup key)
      else case Lookup_setting key of
        Some s \<Rightarrow> (case ParseValue j s txt of Inl e \<Rightarrow> Inl (SetNotParsed e) | Inr v \<Rightarrow> Inr v)
      | None \<Rightarrow> if force then Inr (VStr txt) else Inl (UnknownToNode key))"

definition setConfigValue :: "json \<Rightarrow> path \<Rightarrow> string \<Rightarrow> string \<Rightarrow> bool \<Rightarrow> time \<Rightarrow> machine \<Rightarrow> (config_set_error, path option) result \<times> machine" where
  "setConfigValue j p key txt force now m =
     (case Load_doc j p m of
        (Inl e, m1) \<Rightarrow> (Inl (SetNotLoaded e), m1)
      | (Inr d, m1) \<Rightarrow>
          (case set_value j key txt force of
             Inl e \<Rightarrow> (Inl e, m1)
           | Inr v \<Rightarrow>
               (case Set_key j key v d of
                  Inl e \<Rightarrow> (Inl (NotSet e), m1)
                | Inr d' \<Rightarrow>
                    (case (if force then SaveUnchecked j p d' now m1 else Save_doc j p d' now m1) of
                       ((Some e, bk), m2) \<Rightarrow> (Inl (SetNotSaved e), m2)
                     | ((None, bk), m2) \<Rightarrow> (Inr bk, m2)))))"

text \<open>Whether there was something to remove, and the backup.\<close>

definition unset_config :: "json \<Rightarrow> path \<Rightarrow> string \<Rightarrow> time \<Rightarrow> machine \<Rightarrow> (config_set_error, path option option) result \<times> machine" where
  "unset_config j p key now m =
     (if IsReserved key then (Inl (ManagedBySetup key), m)
      else case Load_doc j p m of
        (Inl e, m1) \<Rightarrow> (Inl (SetNotLoaded e), m1)
      | (Inr d, m1) \<Rightarrow>
          if \<not> got_present (Get j d key) then (Inr None, m1)
          else case Unset_key j key d of
            Inl e \<Rightarrow> (Inl (NotSet e), m1)
          | Inr d' \<Rightarrow> (case Save_doc j p d' now m1 of ((Some e, bk), m2) \<Rightarrow> (Inl (SetNotSaved e), m2) | ((None, bk), m2) \<Rightarrow> (Inr (Some bk), m2)))"

datatype get_error = GetNotLoaded config_error | GetBad | UnknownKeyAsked string | SecretAsked

definition PasswordKey :: string where "PasswordKey = ''Producer.Password''"

definition get_text :: "json \<Rightarrow> (float64 \<Rightarrow> string) \<Rightarrow> document \<Rightarrow> string \<Rightarrow> bool \<Rightarrow> (get_error, string) result" where
  "get_text j num d key secrets =
     (case Lookup_setting key of
        Some s \<Rightarrow>
          if se_key s = PasswordKey \<and> \<not> secrets then Inl SecretAsked else Inr (Format_value num (fst (Effective j d s)))
      | None \<Rightarrow>
          (case Get j d key of
             Absent \<Rightarrow> Inl (UnknownKeyAsked key)
           | Got v \<Rightarrow> Inr (Format_value num v)
           | _ \<Rightarrow> Inl GetBad))"

definition get_config :: "json \<Rightarrow> (float64 \<Rightarrow> string) \<Rightarrow> path \<Rightarrow> string \<Rightarrow> bool \<Rightarrow> machine \<Rightarrow> (get_error, string) result \<times> machine" where
  "get_config j num p key secrets m =
     (case Load_doc j p m of (Inl e, m1) \<Rightarrow> (Inl (GetNotLoaded e), m1) | (Inr d, m1) \<Rightarrow> (get_text j num d key secrets, m1))"

section \<open>Showing all\<close>

definition pad_to :: "nat \<Rightarrow> string \<Rightarrow> string" where
  "pad_to n s = s @ replicate (n - length (chunks s)) (CHR '' '')"

definition config_line :: "string \<Rightarrow> string \<Rightarrow> string \<Rightarrow> string" where
  "config_line key source txt = pad_to 22 key @ '' '' @ pad_to 8 source @ '' '' @ txt @ nl"

definition known_line :: "json \<Rightarrow> (float64 \<Rightarrow> string) \<Rightarrow> document \<Rightarrow> bool \<Rightarrow> setting \<Rightarrow> string" where
  "known_line j num d secrets s =
     (case Effective j d s of (v, fromFile) \<Rightarrow>
      if se_reserved s \<noteq> [] \<and> \<not> fromFile then []
      else config_line (se_key s) (if fromFile then ''file'' else ''default'')
        (if se_key s = PasswordKey \<and> \<not> secrets then ''******** (--show-secrets)'' else Format_value num v))"

definition unknown_line :: "json \<Rightarrow> (float64 \<Rightarrow> string) \<Rightarrow> document \<Rightarrow> string \<Rightarrow> string" where
  "unknown_line j num d key =
     (if Lookup_setting key \<noteq> None then []
      else config_line key ''file'' (Format_value num (got_value (Get j d key)) @ ''   (unknown to znnd)''))"

definition showConfig :: "json \<Rightarrow> (float64 \<Rightarrow> string) \<Rightarrow> document \<Rightarrow> bool \<Rightarrow> string" where
  "showConfig j num d secrets = concat (map (known_line j num d secrets) Schema) @ concat (map (unknown_line j num d) (Keys_doc j d))"

definition indent :: "string \<Rightarrow> string" where
  "indent s = ''  '' @ join_with (nl @ ''  '') (split_on (CHR 0x0A) (trim_space s))"

section \<open>After a write\<close>

text \<open>What is printed; \<open>text_of\<close> is the printed form of a path.\<close>

definition reportConfigWrite :: "json \<Rightarrow> path \<Rightarrow> path option \<Rightarrow> machine \<Rightarrow> string \<times> machine" where
  "reportConfigWrite j p backup m =
     (let first = (case backup of None \<Rightarrow> [] | Some b \<Rightarrow> ''Previous file kept as '' @ text_path b @ nl) in
      case Load_doc j p m of
        (Inl e, m1) \<Rightarrow> (first, m1)
      | (Inr d, m1) \<Rightarrow>
          (if UnknownKeys j d = [] then first
           else first @ ''Note: znnd ignores these keys: '' @ join_with '', '' (UnknownKeys j d) @ '' (nomctl config unset KEY removes one)'' @ nl, m1))"

definition restartIfAsked :: "string \<Rightarrow> bool \<Rightarrow> machine \<Rightarrow> (string \<times> restart_error option) \<times> machine" where
  "restartIfAsked name asked m =
     (if asked then (case RestartService m of (e, m1) \<Rightarrow> (([], e), m1))
      else case IsActive m of (ac, m1) \<Rightarrow>
        ((if ac then name @ '' reads config.json at start: sudo nomctl restart (or pass --restart)'' @ nl else [], None), m1))"

text \<open>The command \<^verbatim>\<open>config set\<close>: what it prints and how it ends.\<close>

datatype config_command_error = SetFailed config_set_error | NodeNotRestartedAfter restart_error

definition config_set :: "json \<Rightarrow> tool_config \<Rightarrow> path \<Rightarrow> string \<Rightarrow> string \<Rightarrow> bool \<Rightarrow> bool \<Rightarrow> time \<Rightarrow> machine \<Rightarrow> (string \<times> config_command_error option) \<times> machine" where
  "config_set j cfg p key txt force restart now m =
     (case setConfigValue j p key txt force now m of
        (Inl e, m1) \<Rightarrow> (([], Some (SetFailed e)), m1)
      | (Inr bk, m1) \<Rightarrow>
          (case reportConfigWrite j p bk m1 of (out, m2) \<Rightarrow>
           case restartIfAsked (tc_ServiceName cfg) restart m2 of ((out2, e), m3) \<Rightarrow>
             ((out @ out2, map_option NodeNotRestartedAfter e), m3)))"

text \<open>The words of the editor's command line.\<close>

definition runEditor :: "(string \<Rightarrow> string) \<Rightarrow> string \<Rightarrow> string list" where
  "runEditor env file = EditorCommand env @ [file]"


section \<open>What a set does\<close>










section \<open>What is printed of the password\<close>

lemma has_infix_iff: "has_infix w s \<longleftrightarrow> (\<exists>p q. s = p @ w @ q)"
proof (induction s)
  case (Cons c s)
  have "(\<exists>p q. c # s = p @ w @ q) \<longleftrightarrow> (\<exists>q. c # s = w @ q) \<or> (\<exists>p q. s = p @ w @ q)"
    by (metis append_Cons append_Nil list.inject neq_Nil_conv)
  with Cons show ?case by (auto simp: has_prefix_iff)
qed auto

lemma join_infix: "x \<in> set xs \<Longrightarrow> has_infix x (join_with sep xs)"
  unfolding has_infix_iff
proof (induction xs)
  case (Cons y ys)
  show ?case
  proof (cases ys)
    case Nil
    with Cons.prems show ?thesis by (intro exI[of _ "[]"]) simp
  next
    case ys: (Cons z zs)
    show ?thesis
    proof (cases "x = y")
      case True
      then show ?thesis by (intro exI[of _ "[]"] exI[of _ "sep @ join_with sep ys"]) (simp add: ys)
    next
      case False
      with Cons obtain p q where "join_with sep ys = p @ x @ q" by auto
      then have "join_with sep (y # ys) = (y @ sep @ p) @ x @ q" by (simp add: ys)
      then show ?thesis by blast
    qed
  qed
qed simp

lemma sprint_member:
  assumes "(k, VStr w) \<in> set kvs"
  shows "has_infix w (sprint num (VObj kvs))"
proof -
  have "k @ '':'' @ w \<in> set (map (\<lambda>kv. fst kv @ '':'' @ sprint num (snd kv)) kvs)" using assms by force
  from join_infix[OF this, of "'' ''"] obtain p q where
    "join_with '' '' (map (\<lambda>kv. fst kv @ '':'' @ sprint num (snd kv)) kvs) = p @ (k @ '':'' @ w) @ q" unfolding has_infix_iff by blast
  then have "sprint num (VObj kvs) = (''map['' @ p @ k @ '':'') @ w @ (q @ '']'')" by simp
  then show ?thesis unfolding has_infix_iff by blast
qed

text \<open>C19. The producer's password on the screen.  Without \<^verbatim>\<open>--show-secrets\<close> neither the list of all settings nor a single key shows anything of
  it: they print the same for two documents that differ only in it.  The exception is the key \<^verbatim>\<open>Producer\<close> itself, which is
  not in the schema: asked for it, the command prints the whole section, the password included.\<close>

theorem password_shown:
  assumes same: "\<And>k. k \<noteq> PasswordKey \<Longrightarrow> k \<noteq> ''Producer'' \<Longrightarrow> Get j d k = Get j d' k" and keys: "Keys_doc j d = Keys_doc j d'" "''Producer'' \<notin> set (Keys_doc j d)"
    and pw: "Get j d PasswordKey = Got pw" "Get j d' PasswordKey = Got pw'"
  shows "showConfig j num d False = showConfig j num d' False \<and>
    (key \<noteq> ''Producer'' \<longrightarrow> get_text j num d key False = get_text j num d' key False) \<and>
    (\<forall>kvs w. Get j d ''Producer'' = Got (VObj kvs) \<longrightarrow> (''Password'', VStr w) \<in> set kvs \<longrightarrow>
       (\<exists>out. get_text j num d ''Producer'' False = Inr out \<and> has_infix w out))"
proof (intro conjI allI impI)
  have sch: "list_all (\<lambda>s. se_key s \<noteq> ''Producer'') Schema" by code_simp
  have kl: "Lookup_setting PasswordKey \<noteq> None" "Lookup_setting ''Producer'' = None" by code_simp+
  have eff: "Effective j d s = Effective j d' s" if "se_key s \<noteq> PasswordKey" "se_key s \<noteq> ''Producer''" for s
    using same[OF that] by (simp add: Effective_def)
  have line: "known_line j num d False s = known_line j num d' False s" if "s \<in> set Schema" for s
  proof (cases "se_key s = PasswordKey")
    case True
    with pw show ?thesis by (simp add: known_line_def Effective_def)
  next
    case False
    with eff sch that show ?thesis by (simp add: known_line_def list_all_iff)
  qed
  have other: "unknown_line j num d k = unknown_line j num d' k" if "k \<in> set (Keys_doc j d)" for k
    using same[of k] kl(1) keys(2) that unfolding unknown_line_def by metis
  show "showConfig j num d False = showConfig j num d' False"
    using line other keys(1) by (simp add: showConfig_def cong: map_cong)
  show "get_text j num d key False = get_text j num d' key False" if "key \<noteq> ''Producer''"
  proof (cases "Lookup_setting key")
    case None
    with kl have "key \<noteq> PasswordKey" by metis
    from same[OF this that] None show ?thesis by (simp add: get_text_def)
  next
    case (Some s)
    then have k: "se_key s = key" using schema_sections by blast
    show ?thesis
    proof (cases "key = PasswordKey")
      case True
      with Some k show ?thesis by (simp add: get_text_def)
    next
      case False
      with eff[of s] k that Some show ?thesis by (simp add: get_text_def)
    qed
  qed
  fix kvs w assume "Get j d ''Producer'' = Got (VObj kvs)" "(''Password'', VStr w) \<in> set kvs"
  with sprint_member[of "''Password''" w kvs num] kl(2) show "\<exists>out. get_text j num d ''Producer'' False = Inr out \<and> has_infix w out"
    by (simp add: get_text_def)
qed


definition demo_codec_password :: json where
  "demo_codec_password = \<lparr> js_object = (\<lambda>b. if b = ''X'' then Some [(''Password'', ''x'')] else if b = ''Y'' then Some [(''Password'', ''y'')] else None),
     js_value = (\<lambda>b. if b = ''x'' then Some (VStr ''secret'') else if b = ''y'' then Some (VStr ''other'')
       else if b = ''X'' then Some (VObj [(''Password'', VStr ''secret'')]) else None), js_strings = (\<lambda>_. None),
     js_render = (\<lambda>ms. None), js_indent = (\<lambda>ms. None), js_encode = (\<lambda>v. None) \<rparr>"

lemma password_shown_witness:
  "showConfig demo_codec_password (\<lambda>_. ''0'') [(''Producer'', ''X'')] False = showConfig demo_codec_password (\<lambda>_. ''0'') [(''Producer'', ''Y'')] False \<and>
   (\<exists>out. get_text demo_codec_password (\<lambda>_. ''0'') [(''Producer'', ''X'')] ''Producer'' False = Inr out \<and> has_infix ''secret'' out)"
proof -
  have same: "Get demo_codec_password [(''Producer'', ''X'')] k = Get demo_codec_password [(''Producer'', ''Y'')] k" if "k \<noteq> PasswordKey" "k \<noteq> ''Producer''" for k
  proof -
    obtain a b where ab: "split_key k = (a, b)" by (cases "split_key k")
    have "a = ''Producer'' \<Longrightarrow> b \<noteq> ''Password''" using that split_keyD[OF ab] by (auto simp: PasswordKey_def)
    moreover have "a = [] \<Longrightarrow> b \<noteq> ''Producer''" using that split_keyD[OF ab] by auto
    moreover have "\<not> is_null ''X''" "\<not> is_null ''Y''" by code_simp+
    ultimately show ?thesis by (cases "a = []"; cases "a = ''Producer''") (auto simp: Get_decoded ab demo_codec_password_def decoded_def)
  qed
  have g: "Keys_doc demo_codec_password [(''Producer'', ''X'')] = Keys_doc demo_codec_password [(''Producer'', ''Y'')]"
    "''Producer'' \<notin> set (Keys_doc demo_codec_password [(''Producer'', ''X'')])"
    "Get demo_codec_password [(''Producer'', ''X'')] PasswordKey = Got (VStr ''secret'')"
    "Get demo_codec_password [(''Producer'', ''Y'')] PasswordKey = Got (VStr ''other'')"
    "Get demo_codec_password [(''Producer'', ''X'')] ''Producer'' = Got (VObj [(''Password'', VStr ''secret'')])" by code_simp+
  from password_shown[OF same g(1,2,3,4)] g(5) show ?thesis by auto
qed

end
