(* ===== verification/Spec2Isabelle.thy ===== *)
theory Spec2Isabelle
  imports Relay_Claims Node_Claims Host_Claims Config_Claims Ops_Claims Analytics Config_Command
begin

text \<open>
  A model of \<^verbatim>\<open>nomctl\<close>, the tool that runs a Zenon node on a Linux host, and of the relay that passes the
  node's alerts on to Telegram.

  \<^bold>\<open>The program.\<close>  On the host, a daemon samples the node (\<^verbatim>\<open>internal/metrics\<close>,
  \<^verbatim>\<open>internal/node\<close>), evaluates rules over a bounded history and reports to the relay what begins or ends to hold
  (\<^verbatim>\<open>internal/alerts\<close>).  The relay (\<^verbatim>\<open>internal/relay\<close>) pairs nodes with chats, checks the signatures of
  the requests (\<^verbatim>\<open>internal/alertproto\<close>), filters what is muted or repeated and answers the commands of the chat.
  Beside that the tool changes the host on request: it backs up, restores and replaces the chain data (\<^verbatim>\<open>internal/backup\<close>,
  \<^verbatim>\<open>restore\<close>, \<^verbatim>\<open>bootstrap\<close>, \<^verbatim>\<open>resync\<close>), keeps the wallet and the producer key
  (\<^verbatim>\<open>walletbackup\<close>, \<^verbatim>\<open>producer\<close>), edits the node's configuration, and updates itself (\<^verbatim>\<open>update\<close>).

  \<^bold>\<open>Go.\<close>  \<^verbatim>\<open>Go_Base\<close>, \<^verbatim>\<open>Go_Time\<close>, \<^verbatim>\<open>Go_Float\<close>, \<^verbatim>\<open>Go_Text\<close>,
  \<^verbatim>\<open>Go_Duration\<close>, \<^verbatim>\<open>Go_Strconv\<close> and \<^verbatim>\<open>Go_Scan\<close> model what the program uses of the language and
  its library.  Strings are lists of bytes; \<^verbatim>\<open>int64\<close> arithmetic wraps around where it may leave its range
  (\<open>wrap64\<close>); a time is a number of nanoseconds; a \<^verbatim>\<open>float64\<close> is an exact rational rounded to nearest even, an infinity or
  not a number.  Errors are values of a sum or an option.  Loops are recursions over lists, so nothing runs on fuel except
  the retries of a send, where the four attempts of the code are the bound.

  \<^bold>\<open>The relay.\<close>  \<^verbatim>\<open>Alert_Proto\<close>: wire types and signatures.  \<^verbatim>\<open>Relay_Store\<close>: the
  interface of the store as the locale \<open>relay_store\<close>, with an abstraction to an abstract store; \<^verbatim>\<open>Relay_Memory\<close> and
  \<^verbatim>\<open>Relay_Sqlite\<close> interpret it, the second one statement by statement with a script of database faults;
  \<^verbatim>\<open>Relay_Redeem\<close>: any interleaving of concurrent redemptions of a code.  \<^verbatim>\<open>Relay_Telegram\<close>: the retrying send over
  an arbitrary oracle of the network, and the MarkdownV2 escaping with a reader for it.  \<^verbatim>\<open>Relay_Server\<close>,
  \<^verbatim>\<open>Relay_Commands\<close>, \<^verbatim>\<open>Relay_Card\<close>, \<^verbatim>\<open>Relay_Net\<close> and \<^verbatim>\<open>Rate_Limiter\<close>: handlers, delivery,
  commands, client addresses and limits; \<^verbatim>\<open>Relay_Delivery\<close> and \<^verbatim>\<open>Relay_Requests\<close>: what they guarantee over the
  contract of the store; \<^verbatim>\<open>Relay_Claims\<close>: the properties.

  \<^bold>\<open>The node's side.\<close>  \<^verbatim>\<open>Metrics_Proc\<close>, \<^verbatim>\<open>Metrics_Sample\<close> and \<^verbatim>\<open>Node_Client\<close>: the readers of
  \<^verbatim>\<open>/proc\<close>, the sampler and the calls to the node; the goroutines of a snapshot are tasks in an arbitrary order.
  \<^verbatim>\<open>Alert_Config\<close>, \<^verbatim>\<open>Alert_Rules\<close>, \<^verbatim>\<open>Alert_Daemon\<close>: thresholds, rules and the loop; one pass over the rules is an instance of the locale
  \<open>keyed_pass\<close> (\<^verbatim>\<open>Keyed_Pass\<close>, \<^verbatim>\<open>Daemon_Pass\<close>).  \<^verbatim>\<open>Alert_Claims\<close>, \<^verbatim>\<open>Node_Claims\<close>: the properties.

  \<^bold>\<open>The host.\<close>  \<^verbatim>\<open>Go_Host\<close> is the machine that the commands change: a tree of files (a map from paths to folders
  and files), the state of the node's unit, a script of hazards that the calls meet (refusal, breaking off half way through a
  write, a removal or a copy), and a script of answers of \<^verbatim>\<open>systemctl\<close>; it also holds \<^verbatim>\<open>internal/service\<close>.  Every
  property quantifies over both scripts.  \<^verbatim>\<open>Restore_Archive\<close>, \<^verbatim>\<open>Restore\<close>, \<^verbatim>\<open>Backup\<close>, \<^verbatim>\<open>Bootstrap\<close>,
  \<^verbatim>\<open>Self_Update\<close>, \<^verbatim>\<open>Producer\<close> and \<^verbatim>\<open>Wallet_Backup\<close> follow the packages of these names;
  \<^verbatim>\<open>Swap_Space\<close> has what moving entries aside and back does in any of them.  \<^verbatim>\<open>Host_Claims\<close>: the properties.
  \<^verbatim>\<open>Node_Config\<close> is the node's configuration and its editing session, \<^verbatim>\<open>Config_Command\<close> the command over it,
  \<^verbatim>\<open>Config_Claims\<close> the properties; \<^verbatim>\<open>Tool_Config\<close> is the tool's own configuration.  \<^verbatim>\<open>Preflight\<close>: the checks before a command,
  with the patch of \<^verbatim>\<open>timesyncd.conf\<close>.  \<^verbatim>\<open>Node_Reset\<close>: resync, the hard reset of the orchestrator, and the lock file under any
  interleaving of processes.  \<^verbatim>\<open>Unit_Host\<close> extends the machine by the units beside the node's (what is on disk, loaded, enabled and
  running) and by owners of files; over it \<^verbatim>\<open>Alert_Unit\<close> converges the units of the alerts daemon, \<^verbatim>\<open>Deploy\<close> builds and installs the
  node, and \<^verbatim>\<open>Analytics\<close> sets up Prometheus and Grafana; \<^verbatim>\<open>Ops_Claims\<close>: the properties.  \<^verbatim>\<open>Support\<close>: the outputs of commands and
  the support bundle.

  \<^bold>\<open>Parameters.\<close>  Code outside \<^verbatim>\<open>src/\<close> is an argument of the definitions: HMAC and SHA-256, JSON, tar, gzip, zip,
  age, the key files of the wallet package, net/url, the HTTP peers (Grafana among them), git, apt-get and the other external commands, the kernel's
  files, directory listings and modification times.  A property assumes of them only what its hypotheses say.

  \<^bold>\<open>Not modelled.\<close>  The terminal interface, logging, and the commands of \<^verbatim>\<open>cmd\<close> apart from the one in \<^verbatim>\<open>Config_Command\<close>, which are
  widgets, formatting, and flags passed on to the packages above; starting and ending processes; the fixed list of commands whose output
  a support bundle collects; symbolic links, and hard links other than the one that self update makes; concurrent runs of
  operations that the lock file keeps apart.
\<close>

end
